(* ===== verification/Prelude.thy ===== *)
theory Prelude
  imports Main "HOL-Library.Word"
begin

text \<open>
  Shared vocabulary of the development: the C integer types as words, the bit tests and
  casts the runtime uses, the interrupt port every device talks to, and generic lemmas on
  words, function iteration and bounded windows of lists.

  C types are modelled at their width: \<open>uint8_t\<close>, \<open>uint16_t\<close>, \<open>uint32_t\<close> and
  \<open>uint64_t\<close> are \<open>u8\<close>, \<open>u16\<close>, \<open>u32\<close>, \<open>u64\<close>; a cast is \<open>ucast\<close> or \<open>scast\<close>.
  Where the C code computes in \<open>int\<close>, the model computes in HOL \<open>int\<close> and truncates
  with \<open>s16\<close> or \<open>s32\<close> exactly where the code stores into a narrower type.
\<close>

unbundle bit_operations_syntax

type_synonym u8 = "8 word"
type_synonym u16 = "16 word"
type_synonym u32 = "32 word"
type_synonym u64 = "64 word"

named_theorems frame_simps \<open>fields an operation leaves alone\<close>

section \<open>Bit tests, casts and two's complement\<close>

definition has :: "'a::len word \<Rightarrow> 'a word \<Rightarrow> bool" where
  "has w m \<longleftrightarrow> w AND m \<noteq> 0"

abbreviation clear_bits :: "'a::len word \<Rightarrow> 'a word \<Rightarrow> 'a word" where
  "clear_bits w m \<equiv> w AND NOT m"

definition s16 :: "int \<Rightarrow> int" where
  "s16 x = signed_take_bit 15 x"

definition s32 :: "int \<Rightarrow> int" where
  "s32 x = signed_take_bit 31 x"

lemma signed_take_bit_range:
  "- (2 ^ n) \<le> signed_take_bit n (x::int) \<and> signed_take_bit n x < 2 ^ n"
  by (simp add: signed_take_bit_int_greater_eq_minus_exp signed_take_bit_int_less_exp)

lemma signed_take_bit_id:
  "- (2 ^ n) \<le> x \<Longrightarrow> x < 2 ^ n \<Longrightarrow> signed_take_bit n (x::int) = x"
  by (simp add: signed_take_bit_int_eq_self)

lemma s16_range: "- 32768 \<le> s16 x \<and> s16 x \<le> 32767"
  using signed_take_bit_range [of 15 x] by (simp add: s16_def)

lemma s16_id: "- 32768 \<le> x \<Longrightarrow> x \<le> 32767 \<Longrightarrow> s16 x = x"
  using signed_take_bit_id [of 15 x] by (simp add: s16_def)

lemma s32_range: "- 2147483648 \<le> s32 x \<and> s32 x \<le> 2147483647"
  using signed_take_bit_range [of 31 x] by (simp add: s32_def)

lemma s32_id: "- 2147483648 \<le> x \<Longrightarrow> x \<le> 2147483647 \<Longrightarrow> s32 x = x"
  using signed_take_bit_id [of 31 x] by (simp add: s32_def)

lemma has_or [simp]: "has (a OR b) m \<longleftrightarrow> has a m \<or> has b m"
proof -
  have "(a OR b) AND m = (a AND m) OR (b AND m)"
    by (rule bit_word_eqI) (auto simp: bit_simps)
  then show ?thesis
    by (simp add: has_def or_eq_0_iff)
qed

lemma has_single_bit: "has w (push_bit n 1) \<longleftrightarrow> bit w n" for w :: "'a::len word"
proof
  assume "has w (push_bit n 1)"
  then obtain i where "bit (w AND push_bit n 1) i"
    unfolding has_def by (metis bit_eqI bit_0_eq bot_apply bot_bool_def)
  then show "bit w n"
    by (auto simp: bit_simps)
next
  assume "bit w n"
  then have "bit (w AND push_bit n 1) n"
    by (auto simp: bit_simps dest: bit_imp_le_length)
  then show "has w (push_bit n 1)"
    unfolding has_def by (metis bit_0_eq bot_apply bot_bool_def)
qed

lemma and_single_bit: "w AND push_bit n 1 = (if bit w n then push_bit n 1 else 0)" for w :: "'a::len word"
  by (rule bit_word_eqI) (auto simp: bit_simps)

section \<open>The interrupt port\<close>

text \<open>
  \<open>i_stat\<close> (memory.c) is the only guest-visible state a device shares with the CPU. The
  two observability rings fed from device code are kept as logs of the calls made:
  \<open>dev_log\<close> holds the arguments of \<open>device_trace_note\<close> and \<open>event_log\<close> those of
  \<open>event_ring_record_aux\<close>, newest first.
\<close>

record irq_port =
  i_stat :: u32
  dev_log :: "(u32 \<times> u32) list"
  event_log :: "(u16 \<times> u8 \<times> u32) list"

definition psx_irq_raise :: "nat \<Rightarrow> u32 \<Rightarrow> irq_port \<Rightarrow> irq_port" where
  "psx_irq_raise b detail p =
     p\<lparr>i_stat := i_stat p OR push_bit b 1, dev_log := (of_nat b, detail) # dev_log p\<rparr>"

definition event_ring_record_aux :: "u16 \<Rightarrow> u8 \<Rightarrow> u32 \<Rightarrow> irq_port \<Rightarrow> irq_port" where
  "event_ring_record_aux kind detail aux p =
     p\<lparr>event_log := (kind, detail, aux) # event_log p\<rparr>"

abbreviation (input) EV_DMA_KICK :: u16 where "EV_DMA_KICK \<equiv> 5"
abbreviation (input) EV_DMA_DONE :: u16 where "EV_DMA_DONE \<equiv> 6"
abbreviation (input) EV_DMA_SCHED :: u16 where "EV_DMA_SCHED \<equiv> 8"
abbreviation (input) EV_ENQ :: u16 where "EV_ENQ \<equiv> 9"
abbreviation (input) EV_DEQ :: u16 where "EV_DEQ \<equiv> 10"

lemma i_stat_event_ring [simp]: "i_stat (event_ring_record_aux k d a p) = i_stat p"
  by (simp add: event_ring_record_aux_def)

lemma i_stat_irq_raise [simp]: "i_stat (psx_irq_raise b d p) = i_stat p OR push_bit b 1"
  by (simp add: psx_irq_raise_def)

section \<open>Iteration\<close>

lemma funpow_add_app: "(f ^^ (m + n)) x = (f ^^ n) ((f ^^ m) x)"
  by (metis add.commute comp_apply funpow_add)

lemma funpow_Suc_app: "(f ^^ Suc n) x = f ((f ^^ n) x)"
  by simp

lemma funpow_invariant:
  assumes "P x" and "\<And>y. P y \<Longrightarrow> P (f y)"
  shows "P ((f ^^ n) x)"
  using assms by (induction n) auto

section \<open>Words and naturals\<close>

lemma unat_u32_less: "unat (w::u32) < 4294967296"
  using unsigned_less [of w] by simp

lemma unat_u16_less: "unat (w::u16) < 65536"
  using unsigned_less [of w] by simp

lemma unat_u8_less: "unat (w::u8) < 256"
  using unsigned_less [of w] by simp

lemma unat_ucast_u16_u32 [simp]: "unat (ucast (w::u16) :: u32) = unat w"
proof -
  have "unat w < 2 ^ 32"
    by (rule less_trans [OF unat_u16_less]) simp
  then show ?thesis
    by (simp add: unsigned_ucast_eq take_bit_nat_eq_self_iff)
qed

lemma ucast_u16_u32_eq_0 [simp]: "(ucast (w::u16) :: u32) = 0 \<longleftrightarrow> w = 0"
  by (metis unat_ucast_u16_u32 unat_eq_zero unsigned_0)

lemma sub_mask16: "(ucast (a::u16) - ucast b :: u32) AND 0xFFFF = ucast (a - b)"
proof -
  have "(ucast a - ucast b :: u32) AND 0xFFFF = take_bit 16 (ucast a - ucast b)"
    by (simp add: take_bit_eq_mask mask_eq_exp_minus_1)
  also have "\<dots> = ucast (a - b)"
    by transfer (simp add: take_bit_diff)
  finally show ?thesis .
qed

lemma and3_cases: "(w::u32) AND 3 = 0 \<or> w AND 3 = 1 \<or> w AND 3 = 2 \<or> w AND 3 = 3"
proof -
  have "unat (w AND 3) \<le> 3"
    using word_and_le1 [of w 3] by (simp add: word_le_nat_alt)
  then show ?thesis
    by (auto simp: word_unat_eq_iff)
qed

lemma unat_sub_u32: "b \<le> a \<Longrightarrow> unat (a - b :: u32) = unat a - unat b"
  by (simp add: unat_sub)

lemma unat_and_mask: "unat (w AND mask n) = unat w mod 2 ^ n" for w :: "'a::len word"
  unfolding take_bit_eq_mask [symmetric] unsigned_take_bit_eq by (rule take_bit_eq_mod)

lemma unat_of_nat64: "n < 2 ^ 64 \<Longrightarrow> unat (of_nat n :: u64) = n"
  by (simp add: unat_of_nat)

lemma unat_of_nat32: "n < 4294967296 \<Longrightarrow> unat (of_nat n :: u32) = n"
  by (simp add: unat_of_nat)

lemma product_u: "unat ((ucast (a::u32) :: u64) * ucast (b::u32)) = unat a * unat b"
proof -
  have "unat a * unat b < 2 ^ 32 * 2 ^ 32"
    using unat_u32_less [of a] unat_u32_less [of b] by (intro mult_strict_mono) auto
  moreover have "unat (ucast w :: u64) = unat w" for w :: u32
    using unat_u32_less [of w] by (simp add: unsigned_ucast_eq take_bit_nat_eq_self)
  ultimately show ?thesis by (simp add: unat_word_ariths)
qed

section \<open>Little-endian words\<close>

definition le_word :: "u8 \<Rightarrow> u8 \<Rightarrow> u8 \<Rightarrow> u8 \<Rightarrow> u32" where
  "le_word b0 b1 b2 b3 = ucast b0 OR push_bit 8 (ucast b1) OR push_bit 16 (ucast b2) OR push_bit 24 (ucast b3)"

lemma bit_ucast_u8: "bit (ucast (b :: u8) :: 'a::len word) n \<longleftrightarrow> n < LENGTH('a) \<and> n < 8 \<and> bit b n"
  by (auto simp: bit_simps dest: bit_imp_le_length)

lemma le_word_split: "le_word (ucast v) (ucast (drop_bit 8 v)) (ucast (drop_bit 16 v)) (ucast (drop_bit 24 v)) = v"
proof (rule bit_word_eqI)
  fix n assume "n < LENGTH(32)"
  then have "n < 8 \<or> 8 \<le> n \<and> n < 16 \<or> 16 \<le> n \<and> n < 24 \<or> 24 \<le> n \<and> n < 32" by auto
  then show "bit (le_word (ucast v) (ucast (drop_bit 8 v)) (ucast (drop_bit 16 v)) (ucast (drop_bit 24 v))) n = bit v n"
    by (auto simp: le_word_def bit_simps)
qed

end
