(* ===== verification/Event_Source.thy ===== *)
theory Event_Source
  imports Prelude
begin

text \<open>
  The contract between the cycle scheduler (\<open>psx_cycles.c\<close>) and the devices it services.
  A device offers \<open>advance\<close> (move it forward by some guest cycles) and \<open>horizon\<close> (the
  distance to the next interrupt it can raise under a given mask); \<open>stat\<close> is the
  \<open>I_STAT\<close> word it raises into. The law is that an advance strictly below the horizon
  raises nothing the mask lets through. The scheduler's chunked replay rests on it.
\<close>

text \<open>The scheduler never advances a device by more than this many cycles at once.\<close>

definition max_advance :: u32 where
  "max_advance = 0x7FFFFFFF"

text \<open>A replay in chunks, each strictly below the horizon at the point it starts.\<close>

fun quiet_chunks :: "(u32 \<Rightarrow> 's \<Rightarrow> 's) \<Rightarrow> (u32 \<Rightarrow> 's \<Rightarrow> u32) \<Rightarrow> u32 \<Rightarrow> u32 list \<Rightarrow> 's \<Rightarrow> bool" where
  "quiet_chunks adv hor m [] s = True"
| "quiet_chunks adv hor m (c # cs) s =
     (c < hor m s \<and> c \<le> max_advance \<and> quiet_chunks adv hor m cs (adv c s))"

text \<open>
  The contract in its weak form: an advance strictly below the horizon is silent and leads to a
  state the contract still speaks about. Chunks that stay strictly below the horizon can then be
  replayed in any number without a new interrupt.
\<close>

locale quiet_source =
  fixes ok :: "'s \<Rightarrow> bool"
    and advance :: "u32 \<Rightarrow> 's \<Rightarrow> 's"
    and horizon :: "u32 \<Rightarrow> 's \<Rightarrow> u32"
    and stat :: "'s \<Rightarrow> u32"
  assumes quiet_ok: "ok s \<Longrightarrow> c < horizon m s \<Longrightarrow> c \<le> max_advance \<Longrightarrow> ok (advance c s)"
    and quiet: "ok s \<Longrightarrow> c < horizon m s \<Longrightarrow> c \<le> max_advance \<Longrightarrow>
                  stat (advance c s) AND m = stat s AND m"
begin

lemma quiet_replay:
  "ok s \<Longrightarrow> quiet_chunks advance horizon m cs s \<Longrightarrow>
     ok (fold advance cs s) \<and> stat (fold advance cs s) AND m = stat s AND m"
proof (induction cs arbitrary: s)
  case (Cons c cs)
  then have c: "c < horizon m s" "c \<le> max_advance" "quiet_chunks advance horizon m cs (advance c s)" by simp_all
  show ?case
    using Cons.IH [OF quiet_ok [OF Cons.prems(1) c(1,2)] c(3)] quiet [OF Cons.prems(1) c(1,2)] by simp
qed simp

lemma no_new_interrupt:
  "ok s \<Longrightarrow> quiet_chunks advance horizon m cs s \<Longrightarrow> stat s AND m = 0 \<Longrightarrow> stat (fold advance cs s) AND m = 0"
  using quiet_replay by simp

end

text \<open>
  The strong form: every advance, past the horizon too, leads to a state the contract speaks
  about.
\<close>

locale event_source =
  fixes ok :: "'s \<Rightarrow> bool"
    and advance :: "u32 \<Rightarrow> 's \<Rightarrow> 's"
    and horizon :: "u32 \<Rightarrow> 's \<Rightarrow> u32"
    and stat :: "'s \<Rightarrow> u32"
  assumes ok_advance: "ok s \<Longrightarrow> ok (advance c s)"
    and silent: "ok s \<Longrightarrow> c < horizon m s \<Longrightarrow> c \<le> max_advance \<Longrightarrow>
                  stat (advance c s) AND m = stat s AND m"
begin

lemma ok_fold: "ok s \<Longrightarrow> ok (fold advance cs s)"
  by (induction cs arbitrary: s) (simp_all add: ok_advance)

end

sublocale event_source \<subseteq> quiet_source ok advance horizon stat
  by unfold_locales (simp_all add: ok_advance silent)

end
