(* ===== verification/Timers.thy ===== *)
theory Timers
  imports Event_Source
begin

text \<open>
  Root counters: \<open>psxrecomp/runtime/src/timers.c\<close>.

  The static arrays \<open>timers\<close>, \<open>timer_frac\<close> and \<open>g_timer_irq_fired\<close> (three entries
  each) are functions of the index; \<open>port\<close> is the interrupt port the block raises into.
  \<open>timer_advance_counts\<close> is the runtime's bulk advance; the reference is the one-count
  \<open>timer_tick_one\<close> of the same file. The first group of lemmas shows the two agree, the
  second that \<open>timers_cycles_to_irq\<close> never overshoots the next deliverable interrupt.
\<close>

section \<open>State\<close>

record timer =
  counter :: u16
  tmode :: u32
  target :: u16
  irq_line :: u32

record timers_st =
  timers :: "nat \<Rightarrow> timer"
  timer_frac :: "nat \<Rightarrow> u32"
  g_timer_irq_fired :: "nat \<Rightarrow> u64"
  port :: irq_port

abbreviation (input) MODE_RESET_TARGET :: u32 where "MODE_RESET_TARGET \<equiv> push_bit 3 1"
abbreviation (input) MODE_IRQ_TARGET :: u32 where "MODE_IRQ_TARGET \<equiv> push_bit 4 1"
abbreviation (input) MODE_IRQ_OVERFLOW :: u32 where "MODE_IRQ_OVERFLOW \<equiv> push_bit 5 1"
abbreviation (input) MODE_IRQ_REPEAT :: u32 where "MODE_IRQ_REPEAT \<equiv> push_bit 6 1"
abbreviation (input) MODE_IRQ_TOGGLE :: u32 where "MODE_IRQ_TOGGLE \<equiv> push_bit 7 1"
abbreviation (input) MODE_CLK_SRC1 :: u32 where "MODE_CLK_SRC1 \<equiv> push_bit 9 1"
abbreviation (input) MODE_IRQ_REQUEST :: u32 where "MODE_IRQ_REQUEST \<equiv> push_bit 10 1"
abbreviation (input) MODE_TARGET_FLAG :: u32 where "MODE_TARGET_FLAG \<equiv> push_bit 11 1"
abbreviation (input) MODE_OVERFLOW_FLAG :: u32 where "MODE_OVERFLOW_FLAG \<equiv> push_bit 12 1"

definition timer_irq :: "nat \<Rightarrow> nat" where
  "timer_irq t = [4, 5, 6] ! t"

definition set_timer :: "nat \<Rightarrow> timer \<Rightarrow> timers_st \<Rightarrow> timers_st" where
  "set_timer t tm s = s\<lparr>timers := (timers s)(t := tm)\<rparr>"

definition zero_timer :: timer where
  "zero_timer = \<lparr>counter = 0, tmode = 0, target = 0, irq_line = 0\<rparr>"

definition timers_init :: "timers_st \<Rightarrow> timers_st" where
  "timers_init s = s\<lparr>timers := (\<lambda>_. zero_timer), timer_frac := (\<lambda>_. 0)\<rparr>"

section \<open>Clock sources and interrupts\<close>

definition timer_src :: "nat \<Rightarrow> timers_st \<Rightarrow> u32" where
  "timer_src t s = drop_bit 8 (tmode (timers s t)) AND 3"

definition timer_uses_sysclk :: "nat \<Rightarrow> timers_st \<Rightarrow> bool" where
  "timer_uses_sysclk t s =
     (let src = timer_src t s in
      if t = 0 then src = 0 \<or> src = 2
      else if t = 1 then src = 0 \<or> src = 2
      else if t = 2 then src = 0 \<or> src = 1
      else True)"

definition timer_fire_irq :: "nat \<Rightarrow> timers_st \<Rightarrow> timers_st" where
  "timer_fire_irq t s =
     (let tm = timers s t;
          fired = (g_timer_irq_fired s)(t := g_timer_irq_fired s t + 1);
          raised = psx_irq_raise (timer_irq t) (of_nat t) (port s);
          (tm1, p1) =
            (if has (tmode tm) MODE_IRQ_TOGGLE then
               (let line = irq_line tm XOR 1 in
                if line \<noteq> 0
                then (tm\<lparr>irq_line := line, tmode := clear_bits (tmode tm) MODE_IRQ_REQUEST\<rparr>, raised)
                else (tm\<lparr>irq_line := line, tmode := tmode tm OR MODE_IRQ_REQUEST\<rparr>, port s))
             else (tm\<lparr>tmode := clear_bits (tmode tm) MODE_IRQ_REQUEST OR MODE_IRQ_REQUEST\<rparr>, raised));
          tm2 = (if has (tmode tm1) MODE_IRQ_REPEAT then tm1
                 else tm1\<lparr>tmode := clear_bits (tmode tm1) (MODE_IRQ_TARGET OR MODE_IRQ_OVERFLOW)\<rparr>)
      in s\<lparr>timers := (timers s)(t := tm2), g_timer_irq_fired := fired,
           port := event_ring_record_aux EV_DEQ (24 + of_nat t) (ucast (counter tm2)) p1\<rparr>)"

text \<open>The two events a count can reach: the target, and the wrap to zero.\<close>

definition timer_at_target :: "nat \<Rightarrow> timers_st \<Rightarrow> timers_st" where
  "timer_at_target t s =
     (let tm = timers s t;
          s1 = set_timer t (tm\<lparr>tmode := tmode tm OR MODE_TARGET_FLAG\<rparr>) s;
          s2 = (if has (tmode (timers s1 t)) MODE_IRQ_TARGET then timer_fire_irq t s1 else s1)
      in if has (tmode (timers s2 t)) MODE_RESET_TARGET
         then set_timer t ((timers s2 t)\<lparr>counter := 0\<rparr>) s2 else s2)"

definition timer_at_overflow :: "nat \<Rightarrow> timers_st \<Rightarrow> timers_st" where
  "timer_at_overflow t s =
     (let tm = timers s t;
          s1 = set_timer t (tm\<lparr>tmode := tmode tm OR MODE_OVERFLOW_FLAG\<rparr>) s
      in if has (tmode (timers s1 t)) MODE_IRQ_OVERFLOW then timer_fire_irq t s1 else s1)"

section \<open>Counting\<close>

definition timer_add_count :: "nat \<Rightarrow> u16 \<Rightarrow> timers_st \<Rightarrow> timers_st" where
  "timer_add_count t n s = set_timer t ((timers s t)\<lparr>counter := counter (timers s t) + n\<rparr>) s"

definition timer_tick_one :: "nat \<Rightarrow> timers_st \<Rightarrow> timers_st" where
  "timer_tick_one t s =
     (let old = counter (timers s t);
          s1 = timer_add_count t 1 s;
          s2 = (if counter (timers s1 t) = target (timers s1 t) then timer_at_target t s1 else s1)
      in if old = 0xFFFF then timer_at_overflow t s2 else s2)"

definition timer_target_dist :: "timer \<Rightarrow> u32" where
  "timer_target_dist tm =
     (let d = (ucast (target tm) - ucast (counter tm)) AND 0xFFFF
      in if d = 0 then 0x10000 else d)"

definition timer_overflow_dist :: "timer \<Rightarrow> u32" where
  "timer_overflow_dist tm = 0x10000 - ucast (counter tm)"

definition timer_step :: "timer \<Rightarrow> u32 \<Rightarrow> u32" where
  "timer_step tm ticks =
     (let td = timer_target_dist tm; od = timer_overflow_dist tm;
          a = (if ticks > td then td else ticks);
          b = (if a > od then od else a)
      in if b = 0 then 1 else b)"

text \<open>One iteration of the bulk loop: the count, then the events the step reached.\<close>

definition timer_advance_step :: "nat \<Rightarrow> u32 \<Rightarrow> timers_st \<Rightarrow> timers_st" where
  "timer_advance_step t ticks s =
     (let tm = timers s t; td = timer_target_dist tm; od = timer_overflow_dist tm;
          step = timer_step tm ticks; old = counter tm;
          s1 = timer_add_count t (ucast step) s;
          s2 = (if step = td then timer_at_target t s1 else s1)
      in if ucast old + step > 0xFFFF \<or> step = od then timer_at_overflow t s2 else s2)"

lemma timer_dist_bounds:
  "1 \<le> unat (timer_target_dist tm)" "unat (timer_target_dist tm) \<le> 65536"
  "1 \<le> unat (timer_overflow_dist tm)" "unat (timer_overflow_dist tm) \<le> 65536"
proof -
  have le: "w AND 0xFFFF \<le> (0xFFFF :: u32)" for w
    by (rule word_and_le1)
  show "1 \<le> unat (timer_target_dist tm)"
    by (auto simp: timer_target_dist_def Let_def Suc_le_eq unat_gt_0)
  show "unat (timer_target_dist tm) \<le> 65536"
    using le [of "ucast (target tm) - ucast (counter tm)"]
    by (auto simp: timer_target_dist_def Let_def word_le_nat_alt)
  have c: "unat (ucast (counter tm) :: u32) < 65536"
    by (simp add: unat_u16_less)
  have "unat (timer_overflow_dist tm) = 65536 - unat (counter tm)"
  proof -
    have "(ucast (counter tm) :: u32) \<le> 65536"
      using c by (simp add: word_le_nat_alt less_imp_le)
    then show ?thesis by (simp add: timer_overflow_dist_def unat_sub)
  qed
  then show "1 \<le> unat (timer_overflow_dist tm)" "unat (timer_overflow_dist tm) \<le> 65536"
    using unat_u16_less [of "counter tm"] by arith+
qed

lemma timer_step_bounds:
  "0 < ticks \<Longrightarrow> 0 < unat (timer_step tm ticks) \<and> timer_step tm ticks \<le> ticks"
  using timer_dist_bounds [of tm]
  by (auto simp: timer_step_def Let_def word_le_nat_alt word_less_nat_alt)

function timer_advance_counts :: "nat \<Rightarrow> u32 \<Rightarrow> timers_st \<Rightarrow> timers_st" where
  "timer_advance_counts t ticks s =
     (if ticks > 0
      then timer_advance_counts t (ticks - timer_step (timers s t) ticks)
             (timer_advance_step t ticks s)
      else s)"
  by pat_completeness auto
termination
proof (relation "measure (\<lambda>(t, ticks, s). unat ticks)", goal_cases)
  case (2 t ticks s)
  from timer_step_bounds [OF 2, of "timers s t"]
  show ?case
    by (simp add: unat_sub word_le_nat_alt)
qed simp

declare timer_advance_counts.simps [simp del]

definition timer_advance_divided :: "nat \<Rightarrow> u32 \<Rightarrow> u32 \<Rightarrow> timers_st \<Rightarrow> timers_st" where
  "timer_advance_divided t cycles divisor s =
     (let d = (if divisor = 0 then 1 else divisor);
          total = timer_frac s t + cycles;
          ticks = total div d;
          s1 = s\<lparr>timer_frac := (timer_frac s)(t := total mod d)\<rparr>
      in if ticks \<noteq> 0 then timer_advance_counts t ticks s1 else s1)"

definition timer_advance_one :: "u32 \<Rightarrow> nat \<Rightarrow> timers_st \<Rightarrow> timers_st" where
  "timer_advance_one cycles t s =
     (let src = timer_src t s in
      if t = 2 \<and> (src = 2 \<or> src = 3) then timer_advance_divided t cycles 8 s
      else if timer_uses_sysclk t s then timer_advance_counts t cycles s
      else if t = 1 then timer_advance_divided t cycles 2146 s
      else if t = 0 then timer_advance_divided t cycles 5 s
      else s)"

definition timers_advance :: "u32 \<Rightarrow> timers_st \<Rightarrow> timers_st" where
  "timers_advance cycles s =
     (if cycles = 0 then s else fold (timer_advance_one cycles) [0, 1, 2] s)"

definition timer_divisor :: "nat \<Rightarrow> timers_st \<Rightarrow> u32" where
  "timer_divisor t s =
     (let src = timer_src t s in
      if t = 2 \<and> (src = 2 \<or> src = 3) then 8
      else if timer_uses_sysclk t s then 1
      else if t = 1 then 2146
      else if t = 0 then 5
      else 1)"

section \<open>The distance to the next deliverable interrupt\<close>

definition timer_ticks_to_irq :: "timer \<Rightarrow> u32" where
  "timer_ticks_to_irq tm =
     (let want_target = has (tmode tm) MODE_IRQ_TARGET;
          want_overflow = has (tmode tm) MODE_IRQ_OVERFLOW;
          t1 = (if want_target \<and> timer_target_dist tm < 0xFFFFFFFF
                then timer_target_dist tm else 0xFFFFFFFF)
      in if want_overflow \<and> timer_overflow_dist tm < t1 then timer_overflow_dist tm else t1)"

definition timer_cycles_dist :: "timers_st \<Rightarrow> nat \<Rightarrow> u32" where
  "timer_cycles_dist s t =
     (let cyc0 = (ucast (timer_ticks_to_irq (timers s t)) :: u64) * ucast (timer_divisor t s);
          frac = (ucast (timer_frac s t) :: u64);
          cyc1 = (if cyc0 > frac then cyc0 - frac else 0)
      in ucast (if cyc1 > 0xFFFFFFFF then 0xFFFFFFFF else cyc1))"

definition timer_cycles_to_irq_one :: "u32 \<Rightarrow> timers_st \<Rightarrow> nat \<Rightarrow> u32 \<Rightarrow> u32" where
  "timer_cycles_to_irq_one imask s t best =
     (let tm = timers s t in
      if \<not> has imask (push_bit (timer_irq t) 1) then best
      else if \<not> has (tmode tm) MODE_IRQ_TARGET \<and> \<not> has (tmode tm) MODE_IRQ_OVERFLOW then best
      else if timer_ticks_to_irq tm = 0xFFFFFFFF then best
      else if timer_cycles_dist s t < best then timer_cycles_dist s t else best)"

definition timers_cycles_to_irq :: "u32 \<Rightarrow> timers_st \<Rightarrow> u32" where
  "timers_cycles_to_irq imask s = fold (timer_cycles_to_irq_one imask s) [0, 1, 2] 0xFFFFFFFF"

section \<open>Register access and the legacy tick\<close>

abbreviation (input) TIMER_BASE :: u32 where "TIMER_BASE \<equiv> 0x1F801100"

definition timer_index :: "u32 \<Rightarrow> nat" where
  "timer_index addr = unat (drop_bit 4 (addr - TIMER_BASE))"

definition timer_reg :: "u32 \<Rightarrow> u32" where
  "timer_reg addr = (addr - TIMER_BASE) AND 0x0F"

text \<open>
  A counter read differs between the two builds: without \<open>PSX_ENABLE_BLOCK_CYCLES\<close>
  (\<open>block_cycles\<close> false) it first nudges the counter.
\<close>

definition timer_read_nudge :: "nat \<Rightarrow> timers_st \<Rightarrow> timers_st" where
  "timer_read_nudge t s =
     (let inc = (if t = 2 \<and> has (tmode (timers s t)) MODE_CLK_SRC1 then 1 else 8);
          old = counter (timers s t);
          s1 = timer_add_count t inc s;
          tm = timers s1 t
      in if target tm \<noteq> 0 \<and> old < target tm \<and> counter tm \<ge> target tm
         then let tm1 = tm\<lparr>tmode := tmode tm OR MODE_TARGET_FLAG\<rparr>
              in set_timer t (if has (tmode tm1) MODE_RESET_TARGET then tm1\<lparr>counter := 0\<rparr> else tm1) s1
         else s1)"

definition timers_read :: "bool \<Rightarrow> u32 \<Rightarrow> timers_st \<Rightarrow> u32 \<times> timers_st" where
  "timers_read block_cycles addr s =
     (let t = timer_index addr; reg = timer_reg addr in
      if t > 2 then (0, s)
      else if reg = 0 then
        let s1 = (if block_cycles then s else timer_read_nudge t s)
        in (ucast (counter (timers s1 t)), s1)
      else if reg = 4 then
        (tmode (timers s t),
         set_timer t ((timers s t)\<lparr>tmode := clear_bits (tmode (timers s t))
                                     (MODE_TARGET_FLAG OR MODE_OVERFLOW_FLAG)\<rparr>) s)
      else if reg = 8 then (ucast (target (timers s t)), s)
      else (0, s))"

definition timers_write :: "u32 \<Rightarrow> u32 \<Rightarrow> timers_st \<Rightarrow> timers_st" where
  "timers_write addr value s =
     (let t = timer_index addr; reg = timer_reg addr; tm = timers s t in
      if t > 2 then s
      else if reg = 0 then set_timer t (tm\<lparr>counter := ucast (value AND 0xFFFF)\<rparr>) s
      else if reg = 4 then
        s\<lparr>timers := (timers s)(t := tm\<lparr>tmode := (value AND 0x03FF) OR MODE_IRQ_REQUEST,
                                       counter := 0, irq_line := 0\<rparr>),
          timer_frac := (timer_frac s)(t := 0),
          port := event_ring_record_aux EV_ENQ (24 + of_nat t) (ucast (target tm)) (port s)\<rparr>
      else if reg = 8 then set_timer t (tm\<lparr>target := ucast (value AND 0xFFFF)\<rparr>) s
      else s)"

definition timer_tick_legacy :: "int \<Rightarrow> nat \<Rightarrow> timers_st \<Rightarrow> timers_st" where
  "timer_tick_legacy cycles t s =
     (if timer_uses_sysclk t s then (timer_tick_one t ^^ nat cycles) s
      else if t = 2 then (timer_tick_one t ^^ nat (sgn cycles * (\<bar>cycles\<bar> div 8))) s
      else s)"

definition timers_tick :: "int \<Rightarrow> timers_st \<Rightarrow> timers_st" where
  "timers_tick cycles s =
     (let s1 = (if timer_uses_sysclk 1 s then s else (timer_tick_one 1 ^^ 263) s)
      in fold (timer_tick_legacy cycles) [0, 1, 2] s1)"

text \<open>Snapshots copy the guest state of the block, not the fire counters.\<close>

type_synonym timers_snapshot = "(nat \<Rightarrow> u16) \<times> (nat \<Rightarrow> u32) \<times> (nat \<Rightarrow> u16) \<times> (nat \<Rightarrow> u32) \<times> (nat \<Rightarrow> u32)"

definition timers_get_snapshot :: "timers_st \<Rightarrow> timers_snapshot" where
  "timers_get_snapshot s =
     ((\<lambda>i. counter (timers s i)), (\<lambda>i. tmode (timers s i)), (\<lambda>i. target (timers s i)),
      (\<lambda>i. irq_line (timers s i)), (\<lambda>i. timer_frac s i))"

definition timers_set_snapshot :: "timers_snapshot \<Rightarrow> timers_st \<Rightarrow> timers_st" where
  "timers_set_snapshot sn s =
     (case sn of (c, m, tg, l, f) \<Rightarrow>
        s\<lparr>timers := (\<lambda>i. if i < 3 then \<lparr>counter = c i, tmode = m i, target = tg i, irq_line = l i\<rparr>
                         else timers s i),
          timer_frac := (\<lambda>i. if i < 3 then f i else timer_frac s i)\<rparr>)"

section \<open>The bulk advance is the iterated single count\<close>

lemma unat_target_dist:
  "unat (timer_target_dist tm) =
     (if target tm = counter tm then 65536 else unat (target tm - counter tm))"
  by (simp add: timer_target_dist_def Let_def sub_mask16)

lemma unat_overflow_dist:
  "unat (timer_overflow_dist tm) = 65536 - unat (counter tm)"
proof -
  have "(ucast (counter tm) :: u32) \<le> 65536"
    using unat_u16_less [of "counter tm"] by (simp add: word_le_nat_alt less_imp_le)
  then show ?thesis by (simp add: timer_overflow_dist_def unat_sub)
qed

lemma count_reaches_target:
  assumes "0 < k" and "k \<le> unat (timer_target_dist tm)"
  shows "counter tm + of_nat k = target tm \<longleftrightarrow> k = unat (timer_target_dist tm)"
proof -
  have "counter tm + of_nat k = target tm \<longleftrightarrow> of_nat k = target tm - counter tm"
    by (auto simp: algebra_simps)
  also have "\<dots> \<longleftrightarrow> k mod 65536 = unat (target tm - counter tm)"
    by (simp add: word_unat_eq_iff unat_of_nat)
  also have "\<dots> \<longleftrightarrow> k = unat (timer_target_dist tm)"
    using assms unat_u16_less [of "target tm - counter tm"]
    by (auto simp: unat_target_dist split: if_splits)
  finally show ?thesis .
qed

lemma count_reaches_overflow:
  assumes "k < unat (timer_overflow_dist tm)"
  shows "counter tm + of_nat k = 0xFFFF \<longleftrightarrow> Suc k = unat (timer_overflow_dist tm)"
proof -
  have "unat (counter tm) + k < 65536"
    using assms by (simp add: unat_overflow_dist)
  then have "unat (counter tm + of_nat k) = unat (counter tm) + k"
    by (simp add: unat_word_ariths unat_of_nat)
  then show ?thesis
    by (auto simp: word_unat_eq_iff unat_overflow_dist)
qed

lemma timers_add_count [simp]:
  "timers (timer_add_count t n s) t = (timers s t)\<lparr>counter := counter (timers s t) + n\<rparr>"
  by (simp add: timer_add_count_def set_timer_def)

lemma timer_add_count_0 [simp]: "timer_add_count t 0 s = s"
  by (simp add: timer_add_count_def set_timer_def)

lemma timer_add_count_add [simp]:
  "timer_add_count t m (timer_add_count t n s) = timer_add_count t (n + m) s"
  by (simp add: timer_add_count_def set_timer_def add.assoc)

lemma quiet_ticks:
  "k < unat (timer_target_dist (timers s t)) \<Longrightarrow> k < unat (timer_overflow_dist (timers s t)) \<Longrightarrow>
   (timer_tick_one t ^^ k) s = timer_add_count t (of_nat k) s"
proof (induction k)
  case 0
  then show ?case by simp
next
  case (Suc k)
  let ?tm = "timers s t"
  have "counter ?tm + of_nat (Suc k) \<noteq> target ?tm"
    using Suc.prems count_reaches_target [of "Suc k" ?tm] by simp
  moreover have "counter ?tm + of_nat k \<noteq> 0xFFFF"
    using Suc.prems count_reaches_overflow [of k ?tm] by simp
  ultimately have "timer_tick_one t (timer_add_count t (of_nat k) s) = timer_add_count t (of_nat (Suc k)) s"
    by (simp add: timer_tick_one_def Let_def add_ac)
  then show ?case
    using Suc by simp
qed

lemma unat_timer_step:
  assumes "0 < ticks"
  shows "unat (timer_step tm ticks) =
    min (unat ticks) (min (unat (timer_target_dist tm)) (unat (timer_overflow_dist tm)))"
  using assms timer_dist_bounds [of tm]
  by (auto simp: timer_step_def Let_def word_less_nat_alt min_def unat_gt_0)

lemma timer_advance_step_ticks:
  assumes "0 < ticks"
  shows "timer_advance_step t ticks s = (timer_tick_one t ^^ unat (timer_step (timers s t) ticks)) s"
proof -
  let ?tm = "timers s t"
  let ?n = "unat (timer_step ?tm ticks)"
  have n: "0 < ?n" "?n \<le> unat (timer_target_dist ?tm)" "?n \<le> unat (timer_overflow_dist ?tm)"
    using assms timer_dist_bounds [of ?tm] by (auto simp: unat_timer_step word_less_nat_alt)
  then obtain k where k: "?n = Suc k"
    by (cases ?n) auto
  have quiet: "(timer_tick_one t ^^ k) s = timer_add_count t (of_nat k) s"
    using n k by (intro quiet_ticks) auto
  have tgt: "counter ?tm + of_nat (Suc k) = target ?tm \<longleftrightarrow> timer_step ?tm ticks = timer_target_dist ?tm"
    using n k count_reaches_target [of "Suc k" ?tm] by (simp add: word_unat_eq_iff)
  have ovf: "counter ?tm + of_nat k = 0xFFFF \<longleftrightarrow> timer_step ?tm ticks = timer_overflow_dist ?tm"
    using n k count_reaches_overflow [of k ?tm] by (simp add: word_unat_eq_iff)
  have past: "ucast (counter ?tm) + timer_step ?tm ticks > 0xFFFF
      \<longleftrightarrow> timer_step ?tm ticks = timer_overflow_dist ?tm"
  proof -
    have le: "unat (counter ?tm) + ?n \<le> 65536"
      using n(3) unat_u16_less [of "counter ?tm"] by (simp add: unat_overflow_dist)
    then have "unat (ucast (counter ?tm) + timer_step ?tm ticks) = unat (counter ?tm) + ?n"
      by (simp add: unat_word_ariths)
    then show ?thesis
      using le by (auto simp: word_less_nat_alt word_unat_eq_iff unat_overflow_dist)
  qed
  have cast: "ucast (timer_step ?tm ticks) = (of_nat (Suc k) :: u16)"
    by (metis k of_nat_unat)
  show ?thesis
    unfolding k funpow.simps comp_def quiet timer_advance_step_def timer_tick_one_def Let_def
      cast past disj_absorb tgt [symmetric] ovf [symmetric]
    by (simp add: add_ac)
qed

lemma timer_advance_counts_ticks:
  "timer_advance_counts t ticks s = (timer_tick_one t ^^ unat ticks) s"
proof (induction t ticks s rule: timer_advance_counts.induct)
  case (1 t ticks s)
  show ?case
  proof (cases "ticks > 0")
    case True
    let ?st = "timer_step (timers s t) ticks"
    have le: "?st \<le> ticks"
      using timer_step_bounds [OF True] by simp
    have "timer_advance_counts t ticks s =
        (timer_tick_one t ^^ unat (ticks - ?st)) ((timer_tick_one t ^^ unat ?st) s)"
      using 1 [OF True] True by (simp add: timer_advance_counts.simps [of t ticks] timer_advance_step_ticks)
    also have "\<dots> = (timer_tick_one t ^^ (unat ?st + unat (ticks - ?st))) s"
      by (simp only: funpow_add_app)
    also have "unat ?st + unat (ticks - ?st) = unat ticks"
      using le by (simp add: unat_sub_u32 word_le_nat_alt)
    finally show ?thesis .
  next
    case False
    then show ?thesis
      by (subst timer_advance_counts.simps) (simp add: word_gt_0)
  qed
qed


section \<open>One timer seen alone\<close>

text \<open>
  The abstract view of timer \<open>t\<close>: its registers, its fire counter and its \<open>I_STAT\<close> bit.
  Every operation of the block on timer \<open>t\<close> is a function of that view and leaves the view
  of the other timers alone, which is what makes the block's fixed 0, 1, 2 service order
  unobservable in the guest state.
\<close>

type_synonym timer_cell = "timer \<times> u64 \<times> bool"

definition timer_cell :: "nat \<Rightarrow> timers_st \<Rightarrow> timer_cell" where
  "timer_cell t s = (timers s t, g_timer_irq_fired s t, bit (i_stat (port s)) (timer_irq t))"

fun cell_fire :: "timer_cell \<Rightarrow> timer_cell" where
  "cell_fire (tm, n, b) =
     (let toggle = has (tmode tm) MODE_IRQ_TOGGLE;
          line = irq_line tm XOR 1;
          tm1 = (if toggle
                 then tm\<lparr>irq_line := line,
                         tmode := (if line \<noteq> 0 then clear_bits (tmode tm) MODE_IRQ_REQUEST
                                   else tmode tm OR MODE_IRQ_REQUEST)\<rparr>
                 else tm\<lparr>tmode := clear_bits (tmode tm) MODE_IRQ_REQUEST OR MODE_IRQ_REQUEST\<rparr>)
      in (if has (tmode tm1) MODE_IRQ_REPEAT then tm1
          else tm1\<lparr>tmode := clear_bits (tmode tm1) (MODE_IRQ_TARGET OR MODE_IRQ_OVERFLOW)\<rparr>,
          n + 1, b \<or> \<not> toggle \<or> line \<noteq> 0))"

fun cell_at_target :: "timer_cell \<Rightarrow> timer_cell" where
  "cell_at_target (tm, n, b) =
     (let tm1 = tm\<lparr>tmode := tmode tm OR MODE_TARGET_FLAG\<rparr>;
          (tm2, r) = (if has (tmode tm1) MODE_IRQ_TARGET then cell_fire (tm1, n, b) else (tm1, n, b))
      in (if has (tmode tm2) MODE_RESET_TARGET then tm2\<lparr>counter := 0\<rparr> else tm2, r))"

fun cell_at_overflow :: "timer_cell \<Rightarrow> timer_cell" where
  "cell_at_overflow (tm, n, b) =
     (let tm1 = tm\<lparr>tmode := tmode tm OR MODE_OVERFLOW_FLAG\<rparr>
      in if has (tmode tm1) MODE_IRQ_OVERFLOW then cell_fire (tm1, n, b) else (tm1, n, b))"

fun cell_tick :: "timer_cell \<Rightarrow> timer_cell" where
  "cell_tick (tm, n, b) =
     (let tm1 = tm\<lparr>counter := counter tm + 1\<rparr>;
          c = (if counter tm1 = target tm1 then cell_at_target (tm1, n, b) else (tm1, n, b))
      in if counter tm = 0xFFFF then cell_at_overflow c else c)"

lemma timer_irq_less_32 [simp]: "t < 3 \<Longrightarrow> timer_irq t < 32"
  by (auto simp: timer_irq_def less_Suc_eq numeral_3_eq_3)

lemma timer_irq_inj: "t < 3 \<Longrightarrow> t' < 3 \<Longrightarrow> timer_irq t = timer_irq t' \<longleftrightarrow> t = t'"
  by (auto simp: timer_irq_def less_Suc_eq numeral_3_eq_3)

lemma bit_raise [simp]: "bit (w OR 2 ^ n :: u32) m \<longleftrightarrow> bit w m \<or> (n = m \<and> m < 32)"
  by (auto simp: bit_simps)

lemma timer_cell_fire: "t < 3 \<Longrightarrow> timer_cell t (timer_fire_irq t s) = cell_fire (timer_cell t s)"
  by (simp add: timer_cell_def timer_fire_irq_def Let_def)

lemma timer_cell_set_timer:
  "timer_cell t (set_timer t tm s) = (tm, snd (timer_cell t s))"
  by (simp add: timer_cell_def set_timer_def)

lemma fst_timer_cell: "fst (timer_cell t s) = timers s t"
  by (simp add: timer_cell_def)

lemma timer_cell_at_target:
  assumes "t < 3"
  shows "timer_cell t (timer_at_target t s) = cell_at_target (timer_cell t s)"
proof -
  obtain tm n b where c: "timer_cell t s = (tm, n, b)" and tm: "timers s t = tm"
    by (simp add: timer_cell_def)
  define s1 where "s1 = set_timer t (tm\<lparr>tmode := tmode tm OR MODE_TARGET_FLAG\<rparr>) s"
  define s2 where "s2 = (if has (tmode (timers s1 t)) MODE_IRQ_TARGET then timer_fire_irq t s1 else s1)"
  have c1: "timer_cell t s1 = (tm\<lparr>tmode := tmode tm OR MODE_TARGET_FLAG\<rparr>, n, b)"
    using c by (simp add: s1_def timer_cell_set_timer)
  have t1: "timers s1 t = tm\<lparr>tmode := tmode tm OR MODE_TARGET_FLAG\<rparr>"
    using c1 by (simp flip: fst_timer_cell)
  have c2: "timer_cell t s2 =
      (if has (tmode (timers s1 t)) MODE_IRQ_TARGET then cell_fire (timer_cell t s1) else timer_cell t s1)"
    using assms by (simp add: s2_def timer_cell_fire)
  have "timer_at_target t s = (if has (tmode (timers s2 t)) MODE_RESET_TARGET
      then set_timer t ((timers s2 t)\<lparr>counter := 0\<rparr>) s2 else s2)"
    unfolding timer_at_target_def Let_def tm s1_def [symmetric] s2_def [symmetric] by (rule refl)
  then have "timer_cell t (timer_at_target t s) =
      (if has (tmode (fst (timer_cell t s2))) MODE_RESET_TARGET
       then ((fst (timer_cell t s2))\<lparr>counter := 0\<rparr>, snd (timer_cell t s2)) else timer_cell t s2)"
    by (simp add: timer_cell_set_timer fst_timer_cell)
  then show ?thesis
    by (simp add: c c1 c2 t1 Let_def split: prod.split)
qed

lemma timer_cell_at_overflow:
  assumes "t < 3"
  shows "timer_cell t (timer_at_overflow t s) = cell_at_overflow (timer_cell t s)"
proof -
  obtain tm n b where c: "timer_cell t s = (tm, n, b)" and tm: "timers s t = tm"
    by (simp add: timer_cell_def)
  show ?thesis
    using assms by (simp add: timer_at_overflow_def Let_def c tm timer_cell_fire timer_cell_set_timer
        flip: fst_timer_cell)
qed

lemma timer_cell_add_count:
  "timer_cell t (timer_add_count t n s) =
     ((timers s t)\<lparr>counter := counter (timers s t) + n\<rparr>, snd (timer_cell t s))"
  by (simp add: timer_add_count_def timer_cell_set_timer)

lemma timer_cell_tick:
  assumes "t < 3"
  shows "timer_cell t (timer_tick_one t s) = cell_tick (timer_cell t s)"
proof -
  obtain tm n b where c: "timer_cell t s = (tm, n, b)" and tm: "timers s t = tm"
    by (simp add: timer_cell_def)
  have "timer_cell t (timer_add_count t 1 s) = (tm\<lparr>counter := counter tm + 1\<rparr>, n, b)"
    using c tm by (simp add: timer_cell_add_count)
  with assms show ?thesis
    by (simp add: timer_tick_one_def Let_def c tm timer_cell_at_target timer_cell_at_overflow)
qed

lemma timer_cell_ticks: "t < 3 \<Longrightarrow> timer_cell t ((timer_tick_one t ^^ n) s) = (cell_tick ^^ n) (timer_cell t s)"
  by (induction n) (simp_all add: timer_cell_tick)

text \<open>What the operations on timer \<open>t\<close> leave alone.\<close>

definition timer_frame :: "nat \<Rightarrow> timers_st \<Rightarrow> timers_st \<Rightarrow> bool" where
  "timer_frame t s s' \<longleftrightarrow>
     (\<forall>u. u \<noteq> t \<longrightarrow> timers s' u = timers s u \<and> g_timer_irq_fired s' u = g_timer_irq_fired s u) \<and>
     timer_frac s' = timer_frac s \<and>
     (\<forall>n. n \<noteq> timer_irq t \<longrightarrow> bit (i_stat (port s')) n = bit (i_stat (port s)) n)"

lemma timer_frame_refl [intro]: "timer_frame t s s"
  by (simp add: timer_frame_def)

lemma timer_frame_set [intro]: "timer_frame t s x \<Longrightarrow> timer_frame t s (set_timer t tm x)"
  by (simp add: timer_frame_def set_timer_def)

lemma timer_frame_fire [intro]: "timer_frame t s x \<Longrightarrow> timer_frame t s (timer_fire_irq t x)"
  by (simp add: timer_frame_def timer_fire_irq_def Let_def)

lemma timer_frame_at_target [intro]: "timer_frame t s x \<Longrightarrow> timer_frame t s (timer_at_target t x)"
  unfolding timer_at_target_def Let_def by (auto split: if_split)

lemma timer_frame_at_overflow [intro]: "timer_frame t s x \<Longrightarrow> timer_frame t s (timer_at_overflow t x)"
  unfolding timer_at_overflow_def Let_def by auto

lemma timer_frame_tick [intro]: "timer_frame t s x \<Longrightarrow> timer_frame t s (timer_tick_one t x)"
  unfolding timer_tick_one_def timer_add_count_def Let_def by auto

lemma timer_frame_ticks: "timer_frame t s ((timer_tick_one t ^^ n) s)"
  by (induction n) auto

text \<open>Advancing by cycles, on a cell together with its divider remainder.\<close>

definition cell_divisor :: "nat \<Rightarrow> timer \<Rightarrow> u32" where
  "cell_divisor t tm =
     (let src = drop_bit 8 (tmode tm) AND 3 in
      if t = 2 then (if src = 2 \<or> src = 3 then 8 else 1)
      else if src = 0 \<or> src = 2 then 1
      else if t = 1 then 2146 else if t = 0 then 5 else 1)"

definition cell_advance :: "nat \<Rightarrow> u32 \<Rightarrow> u32 \<times> timer_cell \<Rightarrow> u32 \<times> timer_cell" where
  "cell_advance t c fc =
     (let (f, cell) = fc; d = cell_divisor t (fst cell) in
      if d = 1 then (f, (cell_tick ^^ unat c) cell)
      else ((f + c) mod d, (cell_tick ^^ unat ((f + c) div d)) cell))"

definition timer_fcell :: "nat \<Rightarrow> timers_st \<Rightarrow> u32 \<times> timer_cell" where
  "timer_fcell t s = (timer_frac s t, timer_cell t s)"

lemma timer_divisor_cell: "t < 3 \<Longrightarrow> timer_divisor t s = cell_divisor t (timers s t)"
  using and3_cases [of "drop_bit 8 (tmode (timers s t))"]
  by (auto simp: timer_divisor_def cell_divisor_def timer_uses_sysclk_def timer_src_def Let_def
      less_Suc_eq numeral_3_eq_3)

lemma timer_advance_divided_ticks:
  "d \<noteq> 0 \<Longrightarrow> timer_advance_divided t c d s =
     (timer_tick_one t ^^ unat ((timer_frac s t + c) div d))
       (s\<lparr>timer_frac := (timer_frac s)(t := (timer_frac s t + c) mod d)\<rparr>)"
  by (simp add: timer_advance_divided_def Let_def timer_advance_counts_ticks)

lemma timer_advance_one_ticks:
  assumes "t < 3"
  shows "timer_advance_one c t s =
    (let d = timer_divisor t s in
     if d = 1 then (timer_tick_one t ^^ unat c) s
     else (timer_tick_one t ^^ unat ((timer_frac s t + c) div d))
            (s\<lparr>timer_frac := (timer_frac s)(t := (timer_frac s t + c) mod d)\<rparr>))"
  using assms and3_cases [of "drop_bit 8 (tmode (timers s t))"]
  by (auto simp: timer_advance_one_def timer_divisor_def timer_uses_sysclk_def timer_src_def Let_def
      timer_advance_divided_ticks timer_advance_counts_ticks less_Suc_eq numeral_3_eq_3)

lemma timer_cell_frac [simp]: "timer_cell t (s\<lparr>timer_frac := f\<rparr>) = timer_cell t s"
  by (simp add: timer_cell_def)

lemma timer_frac_ticks: "timer_frac ((timer_tick_one t ^^ n) s) = timer_frac s"
  using timer_frame_ticks [of t s n] by (simp add: timer_frame_def)

lemma timer_fcell_advance_one:
  assumes "t < 3"
  shows "timer_fcell t (timer_advance_one c t s) = cell_advance t c (timer_fcell t s)"
  using assms
  by (simp add: timer_fcell_def cell_advance_def timer_advance_one_ticks timer_divisor_cell Let_def
      timer_cell_ticks timer_frac_ticks fst_timer_cell)

lemma timer_frame_fcell:
  assumes "u \<noteq> t" "t < 3" "u < 3"
  shows "timer_fcell u (timer_advance_one c t s) = timer_fcell u s"
proof -
  have irq: "timer_irq u \<noteq> timer_irq t"
    using assms timer_irq_inj by blast
  have "timer_fcell u ((timer_tick_one t ^^ n) x) = timer_fcell u x" for n x
    using timer_frame_ticks [of t x n] assms(1) irq
    by (simp add: timer_frame_def timer_fcell_def timer_cell_def)
  then show ?thesis
    using assms by (simp add: timer_advance_one_ticks Let_def) (simp add: timer_fcell_def)
qed

lemma timers_advance_fcell:
  assumes "t < 3" "c \<noteq> 0"
  shows "timer_fcell t (timers_advance c s) = cell_advance t c (timer_fcell t s)"
proof -
  from assms(1) have "t = 0 \<or> t = 1 \<or> t = 2" by auto
  then show ?thesis
    using assms(2) by (auto simp: timers_advance_def timer_fcell_advance_one timer_frame_fcell)
qed


section \<open>Advancing in chunks\<close>

definition cell_src :: "timer_cell \<Rightarrow> u32" where
  "cell_src c = drop_bit 8 (tmode (fst c)) AND 3"

lemma src_eq_bits:
  "bit w 8 = bit w' 8 \<Longrightarrow> bit w 9 = bit w' 9 \<Longrightarrow> drop_bit 8 w AND 3 = drop_bit 8 (w'::u32) AND 3"
proof (rule bit_word_eqI)
  fix n assume "bit w 8 = bit w' 8" "bit w 9 = bit w' 9" "n < LENGTH(32)"
  moreover have "bit (3::u32) n \<longleftrightarrow> n = 0 \<or> n = 1"
    by (cases n) (auto simp: bit_Suc bit_1_iff)
  ultimately show "bit (drop_bit 8 w AND 3) n = bit (drop_bit 8 w' AND 3) n"
    by (auto simp: bit_simps eval_nat_numeral)
qed

lemma cell_fire_src: "cell_src (cell_fire c) = cell_src c"
  unfolding cell_src_def by (cases c, rule src_eq_bits) (auto simp: Let_def bit_simps)

lemma cell_at_target_src: "cell_src (cell_at_target c) = cell_src c"
proof (cases c)
  case (fields tm n b)
  let ?c1 = "(tm\<lparr>tmode := tmode tm OR MODE_TARGET_FLAG\<rparr>, n, b)"
  have "cell_src ?c1 = cell_src c"
    unfolding cell_src_def fields by (rule src_eq_bits) (auto simp: bit_simps)
  moreover have "cell_src (cell_fire ?c1) = cell_src ?c1"
    by (rule cell_fire_src)
  ultimately show ?thesis
    by (auto simp: fields Let_def cell_src_def split: prod.split)
qed

lemma cell_at_overflow_src: "cell_src (cell_at_overflow c) = cell_src c"
proof (cases c)
  case (fields tm n b)
  let ?c1 = "(tm\<lparr>tmode := tmode tm OR MODE_OVERFLOW_FLAG\<rparr>, n, b)"
  have "cell_src ?c1 = cell_src c"
    unfolding cell_src_def fields by (rule src_eq_bits) (auto simp: bit_simps)
  moreover have "cell_src (cell_fire ?c1) = cell_src ?c1"
    by (rule cell_fire_src)
  ultimately show ?thesis
    by (auto simp: fields Let_def)
qed

declare cell_fire.simps [simp del] cell_at_target.simps [simp del] cell_at_overflow.simps [simp del]

lemma cell_tick_src: "cell_src (cell_tick c) = cell_src c"
proof (cases c)
  case (fields tm n b)
  have "cell_src (tm\<lparr>counter := x\<rparr>, n, b) = cell_src (tm, n, b)" for x
    by (simp add: cell_src_def)
  then show ?thesis
    by (simp add: fields Let_def cell_at_overflow_src cell_at_target_src)
qed

lemma cell_divisor_src:
  "cell_divisor t (fst c) = (let src = cell_src c in
      if t = 2 then (if src = 2 \<or> src = 3 then 8 else 1)
      else if src = 0 \<or> src = 2 then 1
      else if t = 1 then 2146 else if t = 0 then 5 else 1)"
  by (simp add: cell_divisor_def cell_src_def)

lemma cell_divisor_ticks: "cell_divisor t (fst ((cell_tick ^^ n) c)) = cell_divisor t (fst c)"
proof -
  have "cell_src ((cell_tick ^^ n) c) = cell_src c"
    by (induction n) (simp_all add: cell_tick_src)
  then show ?thesis by (simp add: cell_divisor_src)
qed

lemma cell_divisor_nz [simp]: "cell_divisor t tm \<noteq> 0"
  by (simp add: cell_divisor_def Let_def)

lemma div_split_carry: "(x + y) div d = x div d + (x mod d + y) div (d::nat)"
proof (cases "d = 0")
  case False
  have "x + y = (x mod d + y) + (x div d) * d"
    using div_mult_mod_eq [of x d] by linarith
  then show ?thesis
    using False by (metis div_mult_self1)
qed simp

lemma cell_advance_split:
  assumes "unat f + unat a + unat b < 4294967296"
  shows "cell_advance t b (cell_advance t a (f, c)) = cell_advance t (a + b) (f, c)"
proof -
  let ?d = "cell_divisor t (fst c)"
  have ab: "unat (a + b) = unat a + unat b"
    using assms by (simp add: unat_word_ariths)
  have fa: "unat (f + a) = unat f + unat a" and fab: "unat (f + (a + b)) = unat f + unat a + unat b"
    using assms by (simp_all add: unat_word_ariths)
  have "(unat f + unat a) mod unat ?d + unat b < 4294967296"
    using assms mod_less_eq_dividend [of "unat f + unat a" "unat ?d"] by linarith
  then have fb: "unat ((f + a) mod ?d + b) = (unat f + unat a) mod unat ?d + unat b"
    by (simp add: unat_word_ariths(1) [of "(f + a) mod ?d" b] unat_mod fa)
  have q: "unat ((f + (a + b)) div ?d) = unat ((f + a) div ?d) + unat (((f + a) mod ?d + b) div ?d)"
    using div_split_carry [of "unat f + unat a" "unat b" "unat ?d"]
    by (simp add: unat_div fa fab fb)
  have r: "(f + (a + b)) mod ?d = ((f + a) mod ?d + b) mod ?d"
    by (simp add: word_unat_eq_iff unat_mod fab fb mod_add_left_eq)
  show ?thesis
    by (simp add: cell_advance_def Let_def cell_divisor_ticks ab q r funpow_add_app)
qed

text \<open>The guest-visible part of the block, for the block-level statement.\<close>

definition timers_core :: "timers_st \<Rightarrow> (u32 \<times> timer_cell) list \<times> u32" where
  "timers_core s = (map (\<lambda>t. timer_fcell t s) [0, 1, 2], i_stat (port s))"

lemma i_stat_advance_other:
  assumes "t < 3" "n \<noteq> timer_irq t"
  shows "bit (i_stat (port (timer_advance_one c t s))) n = bit (i_stat (port s)) n"
  using assms timer_frame_ticks [of t] by (auto simp: timer_advance_one_ticks timer_frame_def Let_def)

lemma i_stat_timers_advance_other:
  assumes "n \<notin> {4, 5, 6}"
  shows "bit (i_stat (port (timers_advance c s))) n = bit (i_stat (port s)) n"
  using assms by (simp add: timers_advance_def i_stat_advance_other timer_irq_def)

lemma timers_core_eqI:
  assumes "\<And>t. t < 3 \<Longrightarrow> timer_fcell t s = timer_fcell t s'"
    and "\<And>n. n \<notin> {4, 5, 6} \<Longrightarrow> bit (i_stat (port s)) n = bit (i_stat (port s')) n"
  shows "timers_core s = timers_core s'"
proof -
  have "bit (i_stat (port s)) n = bit (i_stat (port s')) n" for n
  proof (cases "n \<in> {4, 5, 6}")
    case True
    then have "n = timer_irq (n - 4)" "n - 4 < 3"
      by (auto simp: timer_irq_def)
    then show ?thesis
      using assms(1) [of "n - 4"] by (simp add: timer_fcell_def timer_cell_def)
  qed (use assms(2) in simp)
  then have "i_stat (port s) = i_stat (port s')"
    by (intro bit_word_eqI) simp
  then show ?thesis
    using assms(1) by (simp add: timers_core_def)
qed

lemma timers_advance_split_core:
  assumes "\<And>t. t < 3 \<Longrightarrow> unat (timer_frac s t) + unat a + unat b < 4294967296"
  shows "timers_core (timers_advance b (timers_advance a s)) = timers_core (timers_advance (a + b) s)"
proof (cases "a = 0 \<or> b = 0")
  case True
  then show ?thesis by (auto simp: timers_advance_def)
next
  case False
  then have nz: "a \<noteq> 0" "b \<noteq> 0" by auto
  have "a + b \<noteq> 0"
    using assms [of 0] nz by (auto simp: word_unat_eq_iff unat_word_ariths)
  show ?thesis
  proof (rule timers_core_eqI)
    fix t :: nat assume "t < 3"
    with nz \<open>a + b \<noteq> 0\<close> assms
    show "timer_fcell t (timers_advance b (timers_advance a s)) = timer_fcell t (timers_advance (a + b) s)"
      by (simp add: timers_advance_fcell cell_advance_split) (simp add: timer_fcell_def cell_advance_split)
  qed (simp add: i_stat_timers_advance_other)
qed

section \<open>No interrupt before the predicted distance\<close>

definition armed_dist :: "timer \<Rightarrow> nat" where
  "armed_dist tm = unat (timer_ticks_to_irq tm)"

lemma armed_dist_eq:
  "armed_dist tm =
     (let wt = has (tmode tm) MODE_IRQ_TARGET; wo = has (tmode tm) MODE_IRQ_OVERFLOW;
          td = unat (timer_target_dist tm); od = unat (timer_overflow_dist tm)
      in if wt \<and> wo then min td od else if wt then td else if wo then od else 4294967295)"
  using timer_dist_bounds [of tm]
  by (auto simp: armed_dist_def timer_ticks_to_irq_def Let_def word_less_nat_alt min_def)

lemma dist_after_count:
  assumes "tm' = tm\<lparr>counter := counter tm + 1\<rparr>"
  shows "counter tm + 1 \<noteq> target tm \<Longrightarrow> unat (timer_target_dist tm') + 1 = unat (timer_target_dist tm)"
    and "counter tm \<noteq> 0xFFFF \<Longrightarrow> unat (timer_overflow_dist tm') + 1 = unat (timer_overflow_dist tm)"
proof -
  assume ne: "counter tm + 1 \<noteq> target tm"
  have d: "target tm' - counter tm' = (target tm - counter tm) - 1"
    by (simp add: assms)
  show "unat (timer_target_dist tm') + 1 = unat (timer_target_dist tm)"
  proof (cases "target tm = counter tm")
    case True
    then show ?thesis
      using ne d by (simp add: unat_target_dist assms unsigned_minus_1_eq_mask mask_eq_exp_minus_1)
  next
    case False
    then have "1 \<le> target tm - counter tm"
      by (simp add: word_le_nat_alt Suc_le_eq unat_gt_0)
    then have "unat (target tm' - counter tm') + 1 = unat (target tm - counter tm)"
      unfolding d by (subst unat_sub) (auto simp: word_le_nat_alt)
    then show ?thesis
      using False ne by (auto simp: unat_target_dist assms)
  qed
next
  assume ne: "counter tm \<noteq> 0xFFFF"
  then have "unat (counter tm) \<noteq> 65535"
    by (simp add: word_unat_eq_iff)
  then have "unat (counter tm) < 65535"
    using unat_u16_less [of "counter tm"] by linarith
  then show "unat (timer_overflow_dist tm') + 1 = unat (timer_overflow_dist tm)"
    by (simp add: unat_overflow_dist assms unat_word_ariths)
qed

lemma armed_dist_pos: "0 < armed_dist tm"
  using timer_dist_bounds [of tm] by (simp add: armed_dist_eq Let_def)

lemma armed_dist_flags [simp]:
  "armed_dist (tm\<lparr>tmode := tmode tm OR 2048\<rparr>) = armed_dist tm"
  "armed_dist (tm\<lparr>tmode := tmode tm OR 4096\<rparr>) = armed_dist tm"
  by (simp_all add: armed_dist_eq Let_def unat_target_dist unat_overflow_dist has_def [of 2048] has_def [of 4096])

lemma armed_dist_reset:
  "\<not> has (tmode tm) MODE_IRQ_TARGET \<Longrightarrow> armed_dist tm \<le> armed_dist (tm\<lparr>counter := 0\<rparr>)"
  by (simp add: armed_dist_eq Let_def unat_overflow_dist)

lemma armed_dist_count:
  assumes "1 < armed_dist tm"
  shows "armed_dist tm \<le> armed_dist (tm\<lparr>counter := counter tm + 1\<rparr>) + 1"
    and "has (tmode tm) MODE_IRQ_TARGET \<Longrightarrow> counter tm + 1 \<noteq> target tm"
    and "has (tmode tm) MODE_IRQ_OVERFLOW \<Longrightarrow> counter tm \<noteq> 0xFFFF"
proof -
  let ?tm' = "tm\<lparr>counter := counter tm + 1\<rparr>"
  show t: "has (tmode tm) MODE_IRQ_TARGET \<Longrightarrow> counter tm + 1 \<noteq> target tm"
    using assms count_reaches_target [of 1 tm] timer_dist_bounds [of tm]
    by (auto simp: armed_dist_eq Let_def split: if_splits)
  show o: "has (tmode tm) MODE_IRQ_OVERFLOW \<Longrightarrow> counter tm \<noteq> 0xFFFF"
    using assms count_reaches_overflow [of 0 tm] timer_dist_bounds [of tm]
    by (auto simp: armed_dist_eq Let_def split: if_splits)
  have "has (tmode tm) MODE_IRQ_TARGET \<Longrightarrow> unat (timer_target_dist ?tm') + 1 = unat (timer_target_dist tm)"
    using t by (rule dist_after_count(1) [OF refl])
  moreover have "has (tmode tm) MODE_IRQ_OVERFLOW \<Longrightarrow> unat (timer_overflow_dist ?tm') + 1 = unat (timer_overflow_dist tm)"
    using o by (rule dist_after_count(2) [OF refl])
  ultimately show "armed_dist tm \<le> armed_dist ?tm' + 1"
    by (auto simp: armed_dist_eq Let_def)
qed

lemma quiet_tick:
  assumes "1 < armed_dist (fst c)"
  shows "snd (cell_tick c) = snd c" and "armed_dist (fst c) \<le> armed_dist (fst (cell_tick c)) + 1"
proof -
  obtain tm n b where c: "c = (tm, n, b)" by (cases c)
  let ?tm1 = "tm\<lparr>counter := counter tm + 1\<rparr>"
  note cnt = armed_dist_count [of tm]
  have d: "1 < armed_dist tm" using assms by (simp add: c)
  define c2 where "c2 = (if counter ?tm1 = target ?tm1 then cell_at_target (?tm1, n, b) else (?tm1, n, b))"
  have c2: "snd c2 = (n, b) \<and> has (tmode (fst c2)) MODE_IRQ_OVERFLOW = has (tmode tm) MODE_IRQ_OVERFLOW
      \<and> armed_dist tm \<le> armed_dist (fst c2) + 1"
  proof (cases "counter tm + 1 = target tm")
    case True
    then have nt: "\<not> has (tmode tm) MODE_IRQ_TARGET"
      using cnt(2) d by blast
    let ?tm2 = "?tm1\<lparr>tmode := tmode tm OR 2048\<rparr>"
    have "armed_dist ?tm2 = armed_dist ?tm1"
      using armed_dist_flags(1) [of ?tm1] by simp
    moreover have "armed_dist ?tm2 \<le> armed_dist (?tm2\<lparr>counter := 0\<rparr>)"
      using nt by (intro armed_dist_reset) (simp add: has_def [of 2048])
    moreover have "c2 = (if has (tmode ?tm2) MODE_RESET_TARGET then ?tm2\<lparr>counter := 0\<rparr> else ?tm2, n, b)"
      using True nt by (simp add: c2_def cell_at_target.simps Let_def has_def [of 2048])
    ultimately show ?thesis
      using cnt(1) [OF d] by (auto simp: has_def [of 2048])
  next
    case False
    then show ?thesis
      using cnt(1) [OF d] by (simp add: c2_def)
  qed
  have ovf: "snd (cell_at_overflow c2) = snd c2 \<and> armed_dist (fst (cell_at_overflow c2)) = armed_dist (fst c2)"
    if "counter tm = 0xFFFF"
    using c2 cnt(3) [OF d] that
    by (cases c2) (auto simp: cell_at_overflow.simps Let_def has_def [of 4096])
  have "cell_tick c = (if counter tm = 0xFFFF then cell_at_overflow c2 else c2)"
    unfolding c cell_tick.simps Let_def c2_def by simp
  then show "snd (cell_tick c) = snd c" "armed_dist (fst c) \<le> armed_dist (fst (cell_tick c)) + 1"
    using c2 ovf by (auto simp: c)
qed


lemma quiet_cell_ticks:
  "k < armed_dist (fst c) \<Longrightarrow>
   snd ((cell_tick ^^ k) c) = snd c \<and> armed_dist (fst c) \<le> armed_dist (fst ((cell_tick ^^ k) c)) + k"
proof (induction k)
  case (Suc k)
  then have "1 < armed_dist (fst ((cell_tick ^^ k) c))" by simp
  from quiet_tick [OF this] Suc show ?case by simp
qed simp

text \<open>At the predicted count the interrupt is raised, so the bound is exact in counts.\<close>

lemma cell_fire_raises:
  "snd (snd c) \<Longrightarrow> snd (snd (cell_fire c))"
  "\<not> has (tmode (fst c)) MODE_IRQ_TOGGLE \<Longrightarrow> snd (snd (cell_fire c))"
  by (cases c, simp add: cell_fire.simps Let_def)+

lemma cell_at_overflow_raises:
  "snd (snd c) \<Longrightarrow> snd (snd (cell_at_overflow c))"
  "has (tmode (fst c)) MODE_IRQ_OVERFLOW \<Longrightarrow> \<not> has (tmode (fst c)) MODE_IRQ_TOGGLE \<Longrightarrow>
     snd (snd (cell_at_overflow c))"
  by (cases c, simp add: cell_at_overflow.simps Let_def has_def [of 4096] cell_fire_raises)+

lemma cell_at_target_raises:
  assumes "has (tmode tm) MODE_IRQ_TARGET" "\<not> has (tmode tm) MODE_IRQ_TOGGLE"
  shows "snd (snd (cell_at_target (tm, n, b)))"
proof -
  let ?c = "cell_fire (tm\<lparr>tmode := tmode tm OR MODE_TARGET_FLAG\<rparr>, n, b)"
  have "snd (snd ?c)"
    using assms by (intro cell_fire_raises(2)) (simp add: has_def [of 2048])
  then show ?thesis
    using assms by (cases ?c) (simp add: cell_at_target.simps Let_def)
qed

lemma hit_raises:
  assumes "has (tmode (fst c)) MODE_IRQ_TARGET \<and> counter (fst c) + 1 = target (fst c)
      \<or> has (tmode (fst c)) MODE_IRQ_OVERFLOW \<and> counter (fst c) = 0xFFFF"
    and "\<not> has (tmode (fst c)) MODE_IRQ_TOGGLE"
  shows "snd (snd (cell_tick c))"
proof -
  obtain tm n b where c: "c = (tm, n, b)" by (cases c)
  let ?tm1 = "tm\<lparr>counter := counter tm + 1\<rparr>"
  show ?thesis
  proof (cases "has (tmode tm) MODE_IRQ_TARGET \<and> counter tm + 1 = target tm")
    case True
    then have "snd (snd (cell_at_target (?tm1, n, b)))"
      using assms(2) by (intro cell_at_target_raises) (simp_all add: c)
    then show ?thesis
      using True cell_at_overflow_raises(1) by (auto simp: c Let_def)
  next
    case False
    with assms(1) have o: "has (tmode tm) MODE_IRQ_OVERFLOW" "counter tm = 0xFFFF" by (auto simp: c)
    have "has (tmode (fst (cell_at_target (?tm1, n, b)))) MODE_IRQ_OVERFLOW
        \<and> \<not> has (tmode (fst (cell_at_target (?tm1, n, b)))) MODE_IRQ_TOGGLE" if "counter tm + 1 = target tm"
      using False o that assms(2)
      by (simp add: c cell_at_target.simps Let_def has_def [of 2048])
    then show ?thesis
      using o assms(2) cell_at_overflow_raises(2) by (auto simp: c Let_def)
  qed
qed

lemma armed_dist_hit:
  assumes "armed_dist tm = Suc k"
    and "armed_dist tm \<le> unat (timer_target_dist tm)" "armed_dist tm \<le> unat (timer_overflow_dist tm)"
  shows "has (tmode tm) MODE_IRQ_TARGET \<and> counter tm + of_nat k + 1 = target tm
      \<or> has (tmode tm) MODE_IRQ_OVERFLOW \<and> counter tm + of_nat k = 0xFFFF"
  using assms count_reaches_target [of "Suc k" tm] count_reaches_overflow [of k tm] timer_dist_bounds [of tm]
  by (auto simp: armed_dist_eq Let_def min_def add_ac split: if_splits)

lemma deadline_raises:
  assumes "t < 3" and no_toggle: "\<not> has (tmode (timers s t)) MODE_IRQ_TOGGLE"
    and first: "armed_dist (timers s t) \<le> unat (timer_target_dist (timers s t))"
      "armed_dist (timers s t) \<le> unat (timer_overflow_dist (timers s t))"
  shows "bit (i_stat (port ((timer_tick_one t ^^ armed_dist (timers s t)) s))) (timer_irq t)"
proof -
  let ?tm = "timers s t"
  obtain k where k: "armed_dist ?tm = Suc k"
    using armed_dist_pos [of ?tm] by (cases "armed_dist ?tm") auto
  have q: "(timer_tick_one t ^^ k) s = timer_add_count t (of_nat k) s"
    using first k by (intro quiet_ticks) auto
  let ?c = "timer_cell t ((timer_tick_one t ^^ k) s)"
  have fst: "fst ?c = ?tm\<lparr>counter := counter ?tm + of_nat k\<rparr>"
    by (simp add: q fst_timer_cell)
  have "snd (snd (cell_tick ?c))"
    using no_toggle armed_dist_hit [OF k first] by (intro hit_raises) (simp_all add: fst)
  then show ?thesis
    using assms(1) k by (simp add: timer_cell_tick [symmetric]) (simp add: timer_cell_def)
qed

text \<open>The horizon of the block is the least of the three.\<close>

lemma timer_cycles_to_irq_one_min:
  "timer_cycles_to_irq_one imask s t b =
     (if has imask (push_bit (timer_irq t) 1) \<and> timer_ticks_to_irq (timers s t) \<noteq> 0xFFFFFFFF
      then min (timer_cycles_dist s t) b else b)"
proof -
  have none: "timer_ticks_to_irq (timers s t) = 0xFFFFFFFF"
    if "\<not> has (tmode (timers s t)) MODE_IRQ_TARGET \<and> \<not> has (tmode (timers s t)) MODE_IRQ_OVERFLOW"
    using that by (simp add: timer_ticks_to_irq_def)
  then show ?thesis
    by (auto simp: timer_cycles_to_irq_one_def Let_def min_def simp del: push_bit_numeral)
qed

lemma timers_cycles_to_irq_le:
  assumes "t < 3" and "has imask (push_bit (timer_irq t) 1)" and "timer_ticks_to_irq (timers s t) \<noteq> 0xFFFFFFFF"
  shows "timers_cycles_to_irq imask s \<le> timer_cycles_dist s t"
proof -
  let ?one = "timer_cycles_to_irq_one imask s"
  have le: "?one u b \<le> b" for u b
    by (simp add: timer_cycles_to_irq_one_min)
  have self: "?one t b \<le> timer_cycles_dist s t" for b
    unfolding timer_cycles_to_irq_one_min using assms(2,3) by simp
  have "timers_cycles_to_irq imask s = ?one 2 (?one 1 (?one 0 0xFFFFFFFF))"
    by (simp add: timers_cycles_to_irq_def)
  moreover define x where "x = ?one 0 0xFFFFFFFF"
  moreover define y where "y = ?one 1 x"
  ultimately have e: "timers_cycles_to_irq imask s = ?one 2 y" and yx: "y \<le> x" and y2: "?one 2 y \<le> y"
    using le by simp_all
  from assms(1) have "t = 0 \<or> t = 1 \<or> t = 2" by auto
  then have "x \<le> timer_cycles_dist s t \<or> y \<le> timer_cycles_dist s t \<or> ?one 2 y \<le> timer_cycles_dist s t"
    using self unfolding x_def y_def by fast
  then show ?thesis
    unfolding e using y2 yx by (elim disjE) (blast intro: order_trans)+
qed

lemma cell_divisor_le: "unat (cell_divisor t tm) \<le> 2146"
  by (simp add: cell_divisor_def Let_def)

lemma unat_ucast_u32_u64 [simp]: "unat (ucast (w::u32) :: u64) = unat w"
  using unat_u32_less [of w] by (simp add: unsigned_ucast_eq take_bit_nat_eq_self_iff)

lemma armed_dist_le: "timer_ticks_to_irq tm \<noteq> 0xFFFFFFFF \<Longrightarrow> armed_dist tm \<le> 65536"
  using timer_dist_bounds [of tm]
  by (auto simp: armed_dist_eq Let_def word_unat_eq_iff armed_dist_def [symmetric] split: if_splits)

lemma timer_cycles_dist_bound:
  assumes "t < 3" "timer_ticks_to_irq (timers s t) \<noteq> 0xFFFFFFFF" "c < timer_cycles_dist s t"
  shows "unat (timer_frac s t) + unat c < armed_dist (timers s t) * unat (timer_divisor t s)"
proof -
  let ?n = "armed_dist (timers s t) * unat (timer_divisor t s)"
  let ?cyc = "(ucast (timer_ticks_to_irq (timers s t)) :: u64) * ucast (timer_divisor t s)"
  let ?f = "ucast (timer_frac s t) :: u64"
  have "?n \<le> 65536 * 2146"
    using armed_dist_le [OF assms(2)] assms(1)
    by (intro mult_le_mono) (simp_all add: timer_divisor_cell cell_divisor_le)
  then have cyc: "unat ?cyc = ?n"
    by (simp add: unat_word_ariths armed_dist_def)
  define cyc1 where "cyc1 = (if ?cyc > ?f then ?cyc - ?f else 0)"
  define cyc2 where "cyc2 = (if cyc1 > 0xFFFFFFFF then 0xFFFFFFFF else cyc1)"
  have "timer_cycles_dist s t = ucast cyc2"
    by (simp add: timer_cycles_dist_def Let_def cyc2_def cyc1_def)
  moreover have "unat cyc2 \<le> unat cyc1"
    by (auto simp: cyc2_def word_less_nat_alt)
  ultimately have le: "unat (timer_cycles_dist s t) \<le> unat cyc1"
    using order_trans [OF take_bit_nat_less_eq_self [of 32 "unat cyc2"]] by (simp add: unsigned_ucast_eq)
  have c: "unat c < unat (timer_cycles_dist s t)"
    using assms(3) by (simp add: word_less_nat_alt)
  have "?f < ?cyc"
    using c le by (auto simp: cyc1_def split: if_splits)
  then have "unat cyc1 = ?n - unat (timer_frac s t)"
    using cyc by (simp add: cyc1_def unat_sub)
  then show ?thesis
    using c le by linarith
qed

lemma quiet_advance_cell:
  assumes "unat (fst fc) + unat c < armed_dist (fst (snd fc)) * unat (cell_divisor t (fst (snd fc)))"
    and "unat (fst fc) + unat c < 4294967296"
  shows "snd (snd (cell_advance t c fc)) = snd (snd fc)"
proof -
  obtain f cell where fc: "fc = (f, cell)" by (cases fc)
  let ?d = "cell_divisor t (fst cell)"
  let ?k = "if ?d = 1 then unat c else unat ((f + c) div ?d)"
  have "unat (f + c) = unat f + unat c"
    using assms(2) by (simp add: fc unat_word_ariths)
  moreover have "unat ?d \<noteq> 0"
    by (simp add: unat_eq_zero)
  ultimately have "?k < armed_dist (fst cell)"
    using assms(1) by (auto simp: fc unat_div less_mult_imp_div_less)
  from quiet_cell_ticks [OF this] show ?thesis
    by (auto simp: fc cell_advance_def Let_def)
qed

lemma unarmed_dist: "timer_ticks_to_irq tm = 0xFFFFFFFF \<Longrightarrow> armed_dist tm = 4294967295"
  by (simp add: armed_dist_def)

text \<open>The divider remainder stays below the divisor between register writes.\<close>

definition timers_wf :: "timers_st \<Rightarrow> bool" where
  "timers_wf s \<longleftrightarrow> (\<forall>t<3. unat (timer_frac s t) < 2146)"

lemma quiet_advance_timer:
  assumes "timers_wf s" "t < 3" "has imask (push_bit (timer_irq t) 1)"
    and "c < timers_cycles_to_irq imask s" and "unat c + 2146 < 4294967296" and "c \<noteq> 0"
  shows "snd (timer_cell t (timers_advance c s)) = snd (timer_cell t s)"
proof -
  have f: "unat (timer_frac s t) < 2146"
    using assms(1,2) by (simp add: timers_wf_def)
  have "unat (timer_frac s t) + unat c < armed_dist (timers s t) * unat (cell_divisor t (timers s t))"
  proof (cases "timer_ticks_to_irq (timers s t) = 0xFFFFFFFF")
    case True
    have "unat (timer_frac s t) + unat c < 4294967295 * 1"
      using f assms(5) by linarith
    also have "\<dots> \<le> armed_dist (timers s t) * unat (cell_divisor t (timers s t))"
      using cell_divisor_nz [of t "timers s t"]
      by (intro mult_le_mono) (auto simp: unarmed_dist [OF True] Suc_le_eq unat_gt_0)
    finally show ?thesis .
  next
    case False
    have "c < timer_cycles_dist s t"
      using timers_cycles_to_irq_le [OF assms(2,3) False] assms(4) by (rule less_le_trans [rotated])
    then show ?thesis
      using timer_cycles_dist_bound [OF assms(2) False] by (simp add: timer_divisor_cell assms(2))
  qed
  then have "snd (snd (timer_fcell t (timers_advance c s))) = snd (snd (timer_fcell t s))"
    using f assms(5) unfolding timers_advance_fcell [OF assms(2,6)]
    by (intro quiet_advance_cell) (simp_all add: timer_fcell_def fst_timer_cell)
  then show ?thesis
    by (simp add: timer_fcell_def)
qed

lemma cell_advance_frac: "unat (fst fc) < 2146 \<Longrightarrow> unat (fst (cell_advance t c fc)) < 2146"
  using cell_divisor_le [of t "fst (snd fc)"]
  by (cases fc) (auto simp: cell_advance_def Let_def unat_mod unat_gt_0 intro: less_le_trans [OF mod_less_divisor])

lemma timers_wf_init: "timers_wf (timers_init s)"
  by (simp add: timers_wf_def timers_init_def)

lemma timers_wf_advance: "timers_wf s \<Longrightarrow> timers_wf (timers_advance c s)"
proof (cases "c = 0")
  case False
  assume "timers_wf s"
  have "unat (fst (timer_fcell t (timers_advance c s))) < 2146" if "t < 3" for t
    using that False \<open>timers_wf s\<close>
    by (simp add: timers_advance_fcell timers_wf_def cell_advance_frac) (simp add: timer_fcell_def cell_advance_frac)
  then show ?thesis
    by (simp add: timers_wf_def timer_fcell_def)
qed (simp add: timers_advance_def)

lemma timers_wf_write: "timers_wf s \<Longrightarrow> timers_wf (timers_write a v s)"
  by (auto simp: timers_wf_def timers_write_def Let_def set_timer_def)

lemma timers_wf_read: "timers_wf s \<Longrightarrow> timers_wf (snd (timers_read bc a s))"
  by (auto simp: timers_wf_def timers_read_def timer_read_nudge_def timer_add_count_def Let_def set_timer_def)

lemma quiet_advance_stat:
  assumes "timers_wf s" "c < timers_cycles_to_irq imask s" "unat c + 2146 < 4294967296"
  shows "i_stat (port (timers_advance c s)) AND imask = i_stat (port s) AND imask"
proof (cases "c = 0")
  case False
  show ?thesis
  proof (rule bit_word_eqI)
    fix n
    have "bit (i_stat (port (timers_advance c s))) n = bit (i_stat (port s)) n" if m: "bit imask n"
    proof (cases "n \<in> {4, 5, 6}")
      case True
      then have n: "n = timer_irq (n - 4)" "n - 4 < 3"
        by (auto simp: timer_irq_def)
      then have "snd (timer_cell (n - 4) (timers_advance c s)) = snd (timer_cell (n - 4) s)"
        using assms m False by (intro quiet_advance_timer) (simp_all only: has_single_bit not_False_eq_True)
      then show ?thesis
        using n by (simp add: timer_cell_def)
    qed (simp add: i_stat_timers_advance_other)
    then show "bit (i_stat (port (timers_advance c s)) AND imask) n = bit (i_stat (port s) AND imask) n"
      by (auto simp: bit_simps)
  qed
qed (simp add: timers_advance_def)

section \<open>The block is an event source\<close>

lemma max_advance_room: "c \<le> max_advance \<Longrightarrow> unat c + 2146 < 4294967296"
  by (simp add: max_advance_def word_le_nat_alt)

interpretation tm: event_source timers_wf timers_advance timers_cycles_to_irq "\<lambda>s. i_stat (port s)"
  by unfold_locales (simp_all add: timers_wf_advance quiet_advance_stat max_advance_room)

section \<open>Properties\<close>

text \<open>C32: The bulk advance is the one-count reference: advancing a timer by \<open>ticks\<close> source
  edges in distance-bounded steps leaves exactly the state, flags, fire counters and
  interrupt log that ticking it \<open>ticks\<close> times, one count at a time, leaves.\<close>

theorem timer_bulk_advance_correct:
  "timer_advance_counts t ticks s = (timer_tick_one t ^^ unat ticks) s"
  by (rule timer_advance_counts_ticks)

text \<open>Splitting an advance of the whole block is unobservable: advancing by \<open>a\<close> and then
  by \<open>b\<close> gives the same registers, divider remainders, fire counters and \<open>I_STAT\<close> as
  advancing by \<open>a + b\<close> at once, as long as the cycle sums stay inside 32 bits.\<close>

theorem timers_advance_split:
  assumes "\<And>t. t < 3 \<Longrightarrow> unat (timer_frac s t) + unat a + unat b < 4294967296"
  shows "timers_core (timers_advance b (timers_advance a s)) = timers_core (timers_advance (a + b) s)"
  using assms by (rule timers_advance_split_core)

definition demo_timers :: timers_st where
  "demo_timers =
     \<lparr>timers = (\<lambda>_. \<lparr>counter = 0x10, tmode = 0x0158, target = 20, irq_line = 0\<rparr>),
      timer_frac = (\<lambda>_. 3), g_timer_irq_fired = (\<lambda>_. 0),
      port = \<lparr>i_stat = 0, dev_log = [], event_log = []\<rparr>\<rparr>"

lemma timers_advance_split_witness:
  "timers_core (timers_advance 30 (timers_advance 12 demo_timers))
     = timers_core (timers_advance (12 + 30) demo_timers)"
  by (rule timers_advance_split) (simp add: demo_timers_def)

text \<open>C33: \<open>timers_cycles_to_irq\<close> never overshoots: replaying any sequence of chunks, each
  strictly below the predicted distance at its start, leaves every \<open>I_STAT\<close> bit the mask
  lets through as it was.\<close>

theorem timers_horizon_safe:
  assumes "timers_wf s" and "quiet_chunks timers_advance timers_cycles_to_irq imask cs s"
  shows "i_stat (port (fold timers_advance cs s)) AND imask = i_stat (port s) AND imask"
  using tm.quiet_replay [OF assms] by blast

lemma timers_horizon_safe_witness:
  "i_stat (port (fold timers_advance [10, 6] demo_timers)) AND 0x10 = i_stat (port demo_timers) AND 0x10"
proof (rule timers_horizon_safe)
  show "timers_wf demo_timers"
    by (simp add: timers_wf_def demo_timers_def)
  show "quiet_chunks timers_advance timers_cycles_to_irq 0x10 [10, 6] demo_timers"
    by code_simp
qed

text \<open>The prediction is tight: a timer whose nearest event is armed and that is not in
  toggle mode has raised its \<open>I_STAT\<close> bit once it has counted the predicted distance.\<close>

theorem timer_deadline_raises:
  assumes "t < 3" and "\<not> has (tmode (timers s t)) (push_bit 7 1)"
    and "timer_ticks_to_irq (timers s t) \<le> timer_target_dist (timers s t)"
    and "timer_ticks_to_irq (timers s t) \<le> timer_overflow_dist (timers s t)"
  shows "bit (i_stat (port (timer_advance_counts t (timer_ticks_to_irq (timers s t)) s))) (timer_irq t)"
  using deadline_raises [of t s] assms
  by (simp add: armed_dist_def word_le_nat_alt timer_advance_counts_ticks)

lemma timer_deadline_raises_witness:
  "bit (i_stat (port (timer_advance_counts 0 4 demo_timers))) 4"
proof -
  have "timer_ticks_to_irq (timers demo_timers 0) = 4"
    by code_simp
  moreover have "timer_target_dist (timers demo_timers 0) = 4" "timer_overflow_dist (timers demo_timers 0) = 0xFFF0"
    "\<not> has (tmode (timers demo_timers 0)) (push_bit 7 1)"
    by code_simp+
  ultimately show ?thesis
    using timer_deadline_raises [of 0 demo_timers] by (simp add: timer_irq_def)
qed

text \<open>A counter-mode write restarts the timer: the counter and divider remainder are
  cleared, the stored mode is the low ten bits with the interrupt-request bit set, and the
  next mode read returns exactly that.\<close>

theorem timer_mode_write_read:
  assumes "t < 3"
  shows "let a = TIMER_BASE + 16 * of_nat t + 4; s' = timers_write a v s in
     fst (timers_read bc a s') = (v AND 0x3FF) OR 0x400 \<and>
     counter (timers s' t) = 0 \<and> timer_frac s' t = 0 \<and> irq_line (timers s' t) = 0 \<and>
     target (timers s' t) = target (timers s t)"
proof -
  from assms have "t = 0 \<or> t = 1 \<or> t = 2" by auto
  then show ?thesis
    by (elim disjE) (simp_all add: Let_def timers_write_def timers_read_def timer_index_def timer_reg_def)
qed

lemma timer_mode_write_read_witness:
  "let a = 0x1F801110 + 4; s' = timers_write a 0xFFFF demo_timers in
     fst (timers_read True a s') = (0xFFFF AND 0x3FF) OR 0x400 \<and>
     counter (timers s' 1) = 0 \<and> timer_frac s' 1 = 0 \<and> irq_line (timers s' 1) = 0 \<and>
     target (timers s' 1) = target (timers demo_timers 1)"
  using timer_mode_write_read [of 1 "0xFFFF" demo_timers True] by simp

text \<open>A snapshot restores the guest state of the block: whatever happened in between,
  setting a snapshot taken from \<open>s\<close> gives back the three timers and their divider
  remainders as they were in \<open>s\<close>.\<close>

theorem timers_snapshot_roundtrip:
  "\<forall>t\<in>{0, 1, 2}. timers (timers_set_snapshot (timers_get_snapshot s) s') t = timers s t \<and>
     timer_frac (timers_set_snapshot (timers_get_snapshot s) s') t = timer_frac s t"
  by (simp add: timers_set_snapshot_def timers_get_snapshot_def)

lemma timers_snapshot_roundtrip_witness:
  "timers (timers_set_snapshot (timers_get_snapshot demo_timers) (timers_init demo_timers)) 2
     = timers demo_timers 2"
  using timers_snapshot_roundtrip [of demo_timers "timers_init demo_timers"] by simp

end
