(* ===== verification/Code_Guard.thy ===== *)
theory Code_Guard
  imports Prelude
begin

text \<open>
  Main RAM and the machinery that decides whether statically recompiled code may still run:
  the dirty-page bitmap, the kernel-image bless table, the text-image divergence guard and
  the watched overlay pages of \<open>psxrecomp/runtime/src/memory.c\<close>, with the guarded RAM
  store that all CPU and DMA writes go through.

  A byte array is a function of the index. The table of kernel bodies is generated with
  the BIOS code and the environment switches are fixed at start-up: both are the
  parameter \<open>code_host\<close>. The tracing hooks of a store are the log \<open>cm_notes\<close> of their
  arguments, \<open>overlay_loader_active_write_check\<close> the log \<open>cm_active_checks\<close>.
\<close>

section \<open>State\<close>

record kernel_body =
  kb_key :: u32
  kb_lo :: u32
  kb_hi :: u32

record code_host =
  ch_bodies :: "kernel_body list"
  ch_bless_off :: bool
  ch_force_interp :: bool
  ch_shellwin :: bool

record code_mem =
  cm_ram :: "nat \<Rightarrow> u8"
  cm_rom :: "nat \<Rightarrow> u8"
  cm_dirty :: "nat \<Rightarrow> u32"
  cm_code_gen :: u32
  cm_kbless :: "nat \<Rightarrow> u8"
  cm_kbless_enabled :: int
  cm_native_hits :: u64
  cm_verifies :: u64
  cm_mismatches :: u64
  cm_invalidations :: u64
  cm_text_ref :: "(nat \<Rightarrow> u8) option"
  cm_text_lo :: u32
  cm_text_hi :: u32
  cm_modified :: "nat \<Rightarrow> u32"
  cm_diverged :: "nat \<Rightarrow> u32"
  cm_native_blocked :: u64
  cm_diverged_pages :: u32
  cm_exact_mismatches :: u64
  cm_exact_last :: "u32 \<times> u32 \<times> u32 \<times> u32 \<times> u32"
  cm_watch :: "nat \<Rightarrow> u32"
  cm_page_gen :: "nat \<Rightarrow> u32"
  cm_floor :: u32
  cm_active_checks :: "(u32 \<times> nat) list"
  cm_notes :: "(u32 \<times> u32 \<times> u32 \<times> nat) list"

abbreviation (input) RAM_SIZE :: u32 where "RAM_SIZE \<equiv> 0x200000"
abbreviation (input) KERNEL_TRACK :: u32 where "KERNEL_TRACK \<equiv> 0x10000"
abbreviation (input) KBLESS_UNKNOWN :: u8 where "KBLESS_UNKNOWN \<equiv> 0"
abbreviation (input) KBLESS_CLEAN :: u8 where "KBLESS_CLEAN \<equiv> 1"
abbreviation (input) KBLESS_MISMATCH :: u8 where "KBLESS_MISMATCH \<equiv> 2"

section \<open>Page bitmaps\<close>

definition page_of :: "u32 \<Rightarrow> nat" where
  "page_of phys = unat (drop_bit 12 phys)"

definition bitmap_test :: "(nat \<Rightarrow> u32) \<Rightarrow> nat \<Rightarrow> bool" where
  "bitmap_test bm page \<longleftrightarrow> bit (bm (page div 32)) (page mod 32)"

definition bitmap_set :: "nat \<Rightarrow> (nat \<Rightarrow> u32) \<Rightarrow> nat \<Rightarrow> u32" where
  "bitmap_set page bm = bm(page div 32 := bm (page div 32) OR push_bit (page mod 32) 1)"

definition bitmap_clear :: "nat \<Rightarrow> (nat \<Rightarrow> u32) \<Rightarrow> nat \<Rightarrow> u32" where
  "bitmap_clear page bm = bm(page div 32 := bm (page div 32) AND NOT (push_bit (page mod 32) 1))"

text \<open>The pages of \<open>[phys, phys + len)\<close>, clamped to RAM as the range functions do.\<close>

definition range_end :: "u32 \<Rightarrow> u32 \<Rightarrow> u32" where
  "range_end phys len = (let fin = phys + len - 1 in if fin \<ge> RAM_SIZE \<or> fin < phys then RAM_SIZE - 1 else fin)"

definition page_range :: "u32 \<Rightarrow> u32 \<Rightarrow> nat list" where
  "page_range phys len = [page_of phys ..< Suc (page_of (range_end phys len))]"

definition dirty_ram_mark_page :: "u32 \<Rightarrow> code_mem \<Rightarrow> code_mem" where
  "dirty_ram_mark_page phys s =
     (if phys \<ge> RAM_SIZE then s
      else
        let page = page_of phys;
            s1 = (if bitmap_test (cm_dirty s) page then s else s\<lparr>cm_code_gen := cm_code_gen s + 1\<rparr>)
        in s1\<lparr>cm_dirty := bitmap_set page (cm_dirty s1)\<rparr>)"

section \<open>Kernel-image bless\<close>

definition kbless_on :: "code_host \<Rightarrow> code_mem \<Rightarrow> bool \<times> code_mem" where
  "kbless_on h s =
     (let s1 = (if cm_kbless_enabled s < 0
                then s\<lparr>cm_kbless_enabled := (if length (ch_bodies h) > 4096 then 0 else if ch_bless_off h then 0 else 1)\<rparr>
                else s)
      in (cm_kbless_enabled s1 \<noteq> 0, s1))"

function kbless_search :: "kernel_body list \<Rightarrow> u32 \<Rightarrow> nat \<Rightarrow> nat \<Rightarrow> nat option" where
  "kbless_search bodies phys lo hi =
     (if lo < hi then
        let mid = (lo + hi) div 2; k = kb_key (bodies ! mid) in
        if k = phys then Some mid
        else if k < phys then kbless_search bodies phys (mid + 1) hi
        else kbless_search bodies phys lo mid
      else None)"
  by pat_completeness auto
termination
  by (relation "measure (\<lambda>(bodies, phys, lo, hi). hi - lo)") auto

declare kbless_search.simps [simp del]

definition kbless_find :: "kernel_body list \<Rightarrow> u32 \<Rightarrow> nat option" where
  "kbless_find bodies phys = kbless_search bodies phys 0 (length bodies)"

definition mem_equal :: "(nat \<Rightarrow> u8) \<Rightarrow> nat \<Rightarrow> (nat \<Rightarrow> u8) \<Rightarrow> nat \<Rightarrow> nat \<Rightarrow> bool" where
  "mem_equal f a g b n \<longleftrightarrow> list_all (\<lambda>i. f (a + i) = g (b + i)) [0..<n]"

definition in_kernel_window :: "u32 \<Rightarrow> bool" where
  "in_kernel_window phys \<longleftrightarrow> phys - 0x500 < 0x8500 - 0x500"

definition kbless_matches :: "kernel_body \<Rightarrow> code_mem \<Rightarrow> bool" where
  "kbless_matches b s \<longleftrightarrow>
     mem_equal (cm_ram s) (unat (kb_lo b)) (cm_rom s) (0x10000 + unat (kb_lo b - 0x500)) (unat (kb_hi b - kb_lo b))"

definition psx_kernel_bless_dispatchable :: "code_host \<Rightarrow> u32 \<Rightarrow> code_mem \<Rightarrow> bool \<times> code_mem" where
  "psx_kernel_bless_dispatchable h phys s =
     (if \<not> in_kernel_window phys then (False, s)
      else case kbless_on h s of
        (False, s1) \<Rightarrow> (False, s1)
      | (True, s1) \<Rightarrow>
          (case kbless_find (ch_bodies h) phys of
             None \<Rightarrow> (False, s1)
           | Some i \<Rightarrow>
               if cm_kbless s1 i = KBLESS_CLEAN then (True, s1\<lparr>cm_native_hits := cm_native_hits s1 + 1\<rparr>)
               else if cm_kbless s1 i = KBLESS_MISMATCH then (False, s1)
               else
                 let s2 = s1\<lparr>cm_verifies := cm_verifies s1 + 1\<rparr>
                 in if kbless_matches (ch_bodies h ! i) s2
                    then (True, s2\<lparr>cm_kbless := (cm_kbless s2)(i := KBLESS_CLEAN), cm_native_hits := cm_native_hits s2 + 1\<rparr>)
                    else (False, s2\<lparr>cm_kbless := (cm_kbless s2)(i := KBLESS_MISMATCH), cm_mismatches := cm_mismatches s2 + 1\<rparr>)))"

definition kbless_reset :: "nat \<Rightarrow> code_mem \<Rightarrow> code_mem" where
  "kbless_reset i s =
     (if cm_kbless s i \<noteq> KBLESS_UNKNOWN
      then s\<lparr>cm_kbless := (cm_kbless s)(i := KBLESS_UNKNOWN), cm_invalidations := cm_invalidations s + 1\<rparr>
      else s)"

definition kbless_note_write :: "code_host \<Rightarrow> u32 \<Rightarrow> code_mem \<Rightarrow> code_mem" where
  "kbless_note_write h phys s =
     (if \<not> in_kernel_window phys \<or> cm_kbless_enabled s = 0 \<or> length (ch_bodies h) > 4096 then s
      else fold (\<lambda>i st. let b = ch_bodies h ! i in if phys \<ge> kb_lo b \<and> phys < kb_hi b then kbless_reset i st else st)
             [0..<length (ch_bodies h)] s)"

definition psx_kernel_bless_note_range :: "code_host \<Rightarrow> u32 \<Rightarrow> u32 \<Rightarrow> code_mem \<Rightarrow> code_mem" where
  "psx_kernel_bless_note_range h phys len s =
     (let fin = (if phys + len < phys then 0xFFFFFFFF else phys + len)
      in if len = 0 \<or> fin \<le> 0x500 \<or> phys \<ge> 0x8500 \<or> length (ch_bodies h) > 4096 then s
         else fold kbless_reset [0..<length (ch_bodies h)] s)"

definition psx_kernel_bless_stats :: "code_host \<Rightarrow> code_mem \<Rightarrow> u64 list" where
  "psx_kernel_bless_stats h s =
     (let n = min (length (ch_bodies h)) 4096
      in [of_nat (length (ch_bodies h)),
          of_nat (length (filter (\<lambda>i. cm_kbless s i = KBLESS_CLEAN) [0..<n])),
          of_nat (length (filter (\<lambda>i. cm_kbless s i = KBLESS_MISMATCH) [0..<n])),
          cm_native_hits s, cm_verifies s, cm_invalidations s])"

definition dirty_ram_mark_kernel_write :: "code_host \<Rightarrow> u32 \<Rightarrow> code_mem \<Rightarrow> code_mem" where
  "dirty_ram_mark_kernel_write h phys s =
     (if phys \<ge> KERNEL_TRACK then s else kbless_note_write h phys (dirty_ram_mark_page phys s))"

definition dirty_ram_mark_executable_range :: "code_host \<Rightarrow> u32 \<Rightarrow> u32 \<Rightarrow> code_mem \<Rightarrow> code_mem" where
  "dirty_ram_mark_executable_range h phys len s =
     (if len = 0 \<or> phys \<ge> RAM_SIZE then s
      else
        let s1 = psx_kernel_bless_note_range h phys len s
        in s1\<lparr>cm_dirty := fold bitmap_set (page_range phys len) (cm_dirty s1), cm_code_gen := cm_code_gen s1 + 1\<rparr>)"

definition dirty_ram_is_dirty :: "code_host \<Rightarrow> u32 \<Rightarrow> code_mem \<Rightarrow> bool" where
  "dirty_ram_is_dirty h phys s \<longleftrightarrow>
     phys < RAM_SIZE \<and>
     (ch_force_interp h \<and> phys \<ge> KERNEL_TRACK \<or>
      ch_shellwin h \<and> phys \<ge> 0x30000 \<and> phys \<le> 0x5AFFF \<or>
      bitmap_test (cm_dirty s) (page_of phys))"

definition dirty_ram_set_bitmap_words :: "u32 list \<Rightarrow> code_mem \<Rightarrow> code_mem" where
  "dirty_ram_set_bitmap_words ws s =
     s\<lparr>cm_dirty := (\<lambda>i. if i < length ws \<and> i < 16 then ws ! i else cm_dirty s i)\<rparr>"

section \<open>The text image\<close>

definition dirty_ram_clear_image_baseline :: "code_mem \<Rightarrow> code_mem" where
  "dirty_ram_clear_image_baseline s =
     (if cm_floor s \<le> KERNEL_TRACK then s
      else
        let fl = (if cm_floor s > RAM_SIZE then RAM_SIZE else cm_floor s);
            pages = [page_of KERNEL_TRACK ..< Suc (page_of (fl - 1))]
        in s\<lparr>cm_dirty := fold bitmap_clear pages (cm_dirty s),
             cm_modified := fold bitmap_clear pages (cm_modified s),
             cm_diverged := fold bitmap_clear pages (cm_diverged s)\<rparr>)"

definition dirty_ram_register_text_image :: "u32 \<Rightarrow> (nat \<Rightarrow> u8) \<Rightarrow> u32 \<Rightarrow> code_mem \<Rightarrow> code_mem" where
  "dirty_ram_register_text_image phys_lo bytes len s =
     (if len = 0 \<or> phys_lo \<ge> RAM_SIZE then s
      else
        let len1 = (if len > RAM_SIZE - phys_lo then RAM_SIZE - phys_lo else len)
        in s\<lparr>cm_text_ref := Some bytes, cm_text_lo := phys_lo, cm_text_hi := phys_lo + len1,
             cm_modified := (\<lambda>_. 0), cm_diverged := (\<lambda>_. 0), cm_native_blocked := 0,
             cm_diverged_pages := 0, cm_exact_mismatches := 0, cm_exact_last := (0, 0, 0, 0, 0)\<rparr>)"

definition store_byte :: "u32 \<Rightarrow> nat \<Rightarrow> u8" where
  "store_byte val i = ucast (drop_bit (8 * i) val)"

definition text_guard_note_write :: "u32 \<Rightarrow> u32 \<Rightarrow> nat \<Rightarrow> code_mem \<Rightarrow> code_mem" where
  "text_guard_note_write phys val w s =
     (case cm_text_ref s of
        None \<Rightarrow> s
      | Some ref \<Rightarrow>
          if phys < cm_text_lo s \<or> phys + of_nat w > cm_text_hi s then s
          else if mem_equal ref (unat (phys - cm_text_lo s)) (store_byte val) 0 w then s
          else s\<lparr>cm_modified := bitmap_set (page_of phys) (cm_modified s)\<rparr>)"

definition dirty_ram_text_native_ok :: "code_host \<Rightarrow> u32 \<Rightarrow> code_mem \<Rightarrow> bool \<times> code_mem" where
  "dirty_ram_text_native_ok h phys s =
     (case cm_text_ref s of
        None \<Rightarrow> (\<not> dirty_ram_is_dirty h phys s, s)
      | Some ref \<Rightarrow>
          if phys < cm_text_lo s \<or> phys \<ge> cm_text_hi s then (\<not> dirty_ram_is_dirty h phys s, s)
          else
            let page = page_of phys;
                n = (if 256 > cm_text_hi s - phys then cm_text_hi s - phys else 256)
            in if bitmap_test (cm_diverged s) page then (False, s\<lparr>cm_native_blocked := cm_native_blocked s + 1\<rparr>)
               else if \<not> bitmap_test (cm_modified s) page \<and> \<not> dirty_ram_is_dirty h phys s then (True, s)
               else if mem_equal (cm_ram s) (unat phys) ref (unat (phys - cm_text_lo s)) (unat n) then (True, s)
               else (False, s\<lparr>cm_diverged := bitmap_set page (cm_diverged s),
                              cm_diverged_pages := cm_diverged_pages s + 1,
                              cm_native_blocked := cm_native_blocked s + 1\<rparr>))"

definition diverge_page :: "nat \<Rightarrow> code_mem \<Rightarrow> code_mem" where
  "diverge_page page s =
     (if bitmap_test (cm_diverged s) page then s
      else s\<lparr>cm_diverged := bitmap_set page (cm_diverged s), cm_diverged_pages := cm_diverged_pages s + 1\<rparr>)"

definition exact_mismatch :: "(nat \<Rightarrow> u8) \<Rightarrow> u32 \<Rightarrow> u32 \<Rightarrow> code_mem \<Rightarrow> code_mem" where
  "exact_mismatch ref phys len s =
     (let r = unat (phys - cm_text_lo s);
          off = length (takeWhile (\<lambda>i. cm_ram s (unat phys + i) = ref (r + i)) [0..<unat len]);
          live = (if off < unat len then ucast (cm_ram s (unat phys + off)) else 0);
          orig = (if off < unat len then ucast (ref (r + off)) else 0);
          s1 = s\<lparr>cm_exact_mismatches := cm_exact_mismatches s + 1,
                 cm_exact_last := (phys, len, phys + of_nat off, live, orig)\<rparr>;
          s2 = fold diverge_page [page_of phys ..< Suc (page_of (phys + len - 1))] s1
      in s2\<lparr>cm_native_blocked := cm_native_blocked s2 + 1\<rparr>)"

fun text_ranges_ok :: "(nat \<Rightarrow> u8) \<Rightarrow> (u32 \<times> u32) list \<Rightarrow> code_mem \<Rightarrow> bool \<times> code_mem" where
  "text_ranges_ok ref [] s = (True, s)"
| "text_ranges_ok ref ((vaddr, len) # rs) s =
     (let phys = vaddr AND 0x1FFFFFFF in
      if len = 0 \<or> phys < cm_text_lo s \<or> phys \<ge> cm_text_hi s \<or> len > cm_text_hi s - phys
      then (False, s\<lparr>cm_native_blocked := cm_native_blocked s + 1\<rparr>)
      else if mem_equal (cm_ram s) (unat phys) ref (unat (phys - cm_text_lo s)) (unat len)
      then text_ranges_ok ref rs s
      else (False, exact_mismatch ref phys len s))"

definition dirty_ram_text_native_ok_ranges :: "(u32 \<times> u32) list \<Rightarrow> code_mem \<Rightarrow> bool \<times> code_mem" where
  "dirty_ram_text_native_ok_ranges pairs s =
     (case cm_text_ref s of
        None \<Rightarrow> (False, s)
      | Some ref \<Rightarrow> if pairs = [] then (False, s) else text_ranges_ok ref pairs s)"

definition dirty_ram_text_bless :: "u32 \<Rightarrow> (nat \<Rightarrow> u8) \<Rightarrow> u32 \<Rightarrow> code_mem \<Rightarrow> code_mem" where
  "dirty_ram_text_bless phys bytes len s =
     (case cm_text_ref s of
        None \<Rightarrow> s
      | Some ref \<Rightarrow>
          let lo = (if phys < cm_text_lo s then cm_text_lo s else phys);
              hi = (if phys + len > cm_text_hi s then cm_text_hi s else phys + len);
              r = unat (lo - cm_text_lo s); src = unat (lo - phys); n = unat (hi - lo)
          in if len = 0 \<or> phys \<ge> cm_text_hi s \<or> phys + len \<le> cm_text_lo s \<or> hi \<le> lo
                \<or> mem_equal ref r bytes src n then s
             else s\<lparr>cm_text_ref := Some (\<lambda>i. if r \<le> i \<and> i < r + n then bytes (src + (i - r)) else ref i),
                    cm_diverged := fold bitmap_clear [page_of lo ..< Suc (page_of (hi - 1))] (cm_diverged s)\<rparr>)"

section \<open>Watched overlay pages\<close>

definition overlay_watch_set_range :: "u32 \<Rightarrow> u32 \<Rightarrow> code_mem \<Rightarrow> code_mem" where
  "overlay_watch_set_range phys len s =
     (if len = 0 \<or> phys \<ge> RAM_SIZE then s else s\<lparr>cm_watch := fold bitmap_set (page_range phys len) (cm_watch s)\<rparr>)"

definition overlay_watch_clear_range :: "u32 \<Rightarrow> u32 \<Rightarrow> code_mem \<Rightarrow> code_mem" where
  "overlay_watch_clear_range phys len s =
     (if len = 0 \<or> phys \<ge> RAM_SIZE then s else s\<lparr>cm_watch := fold bitmap_clear (page_range phys len) (cm_watch s)\<rparr>)"

definition overlay_watch_pagegen_sum :: "u32 \<Rightarrow> u32 \<Rightarrow> code_mem \<Rightarrow> u32" where
  "overlay_watch_pagegen_sum phys len s =
     (if len = 0 \<or> phys \<ge> RAM_SIZE then 0 else sum_list (map (cm_page_gen s) (page_range phys len)))"

definition overlay_watch_note_write :: "u32 \<Rightarrow> nat \<Rightarrow> code_mem \<Rightarrow> code_mem" where
  "overlay_watch_note_write phys w s =
     (let pg = page_of phys in
      if pg \<ge> 512 then s
      else if bitmap_test (cm_watch s) pg
      then s\<lparr>cm_page_gen := (cm_page_gen s)(pg := cm_page_gen s pg + 1),
             cm_active_checks := (phys, w) # cm_active_checks s\<rparr>
      else s)"

section \<open>The RAM store\<close>

definition put_bytes :: "nat \<Rightarrow> u32 \<Rightarrow> nat \<Rightarrow> (nat \<Rightarrow> u8) \<Rightarrow> nat \<Rightarrow> u8" where
  "put_bytes w val a f = (\<lambda>i. if a \<le> i \<and> i < a + w then store_byte val (i - a) else f i)"

definition get_word :: "(nat \<Rightarrow> u8) \<Rightarrow> nat \<Rightarrow> u32" where
  "get_word f a = le_word (f a) (f (a + 1)) (f (a + 2)) (f (a + 3))"

definition get_half :: "(nat \<Rightarrow> u8) \<Rightarrow> nat \<Rightarrow> u16" where
  "get_half f a = ucast (f a) OR push_bit 8 (ucast (f (a + 1)))"

definition ram_value :: "nat \<Rightarrow> code_mem \<Rightarrow> u32 \<Rightarrow> u32" where
  "ram_value w s phys =
     (if w = 4 then get_word (cm_ram s) (unat phys)
      else if w = 2 then ucast (get_half (cm_ram s) (unat phys))
      else ucast (cm_ram s (unat phys)))"

text \<open>The part of \<open>psx_write_word_raw\<close>, \<open>psx_write_half_raw\<close> and \<open>psx_write_byte_raw\<close>
  below \<open>phys < RAM_SIZE\<close>; \<open>w\<close> is the width in bytes.\<close>

definition ram_store :: "code_host \<Rightarrow> nat \<Rightarrow> u32 \<Rightarrow> u32 \<Rightarrow> code_mem \<Rightarrow> code_mem" where
  "ram_store h w phys val s =
     (let s1 = s\<lparr>cm_notes := (phys, ram_value w s phys, val, w) # cm_notes s\<rparr>;
          s2 = dirty_ram_mark_kernel_write h phys s1;
          s3 = text_guard_note_write phys val w s2;
          s4 = overlay_watch_note_write phys w s3
      in s4\<lparr>cm_ram := put_bytes w val (unat phys) (cm_ram s4)\<rparr>)"

section \<open>Bitmaps and ranges\<close>

lemma div_mod_eq: "p div 32 = q div 32 \<Longrightarrow> p mod 32 = q mod 32 \<Longrightarrow> p = q" for p q :: nat
  by (metis div_mult_mod_eq)

lemma bit_page: "bit (2 ^ (p mod 32) :: u32) (q mod 32) \<longleftrightarrow> p mod 32 = q mod 32"
  by (auto simp: bit_simps)

lemma bitmap_test_set [simp]: "bitmap_test (bitmap_set p bm) q \<longleftrightarrow> p = q \<or> bitmap_test bm q"
  by (auto simp: bitmap_test_def bitmap_set_def bit_or_iff bit_page dest: div_mod_eq)

lemma bitmap_test_clear [simp]: "bitmap_test (bitmap_clear p bm) q \<longleftrightarrow> p \<noteq> q \<and> bitmap_test bm q"
proof -
  have "bit (NOT (2 ^ (p mod 32)) :: u32) (q mod 32) \<longleftrightarrow> p mod 32 \<noteq> q mod 32"
    by (simp add: bit_not_iff bit_page)
  then show ?thesis
    by (auto simp: bitmap_test_def bitmap_clear_def bit_and_iff dest: div_mod_eq)
qed

lemma mem_equal_iff: "mem_equal f a g b n \<longleftrightarrow> (\<forall>i<n. f (a + i) = g (b + i))"
  by (auto simp: mem_equal_def list_all_iff)

lemma page_of_div: "page_of phys = unat phys div 4096"
  unfolding page_of_def unat_drop_bit_eq by (simp only: drop_bit_eq_div) simp

lemma window_iff: "in_kernel_window phys \<longleftrightarrow> 0x500 \<le> phys \<and> phys < 0x8500"
  by (simp add: in_kernel_window_def word_less_nat_alt word_le_nat_alt unat_sub_if') (use unat_u32_less [of phys] in auto)

section \<open>Loads and stores of bytes\<close>


lemma put_bytes_out: "i < a \<or> a + w \<le> i \<Longrightarrow> put_bytes w v a f i = f i"
  by (auto simp: put_bytes_def)

lemma get_put_word [simp]: "get_word (put_bytes 4 v a f) a = v"
  using le_word_split [of v] by (simp add: get_word_def put_bytes_def store_byte_def)

lemma get_word_other: "b + 4 \<le> a \<or> a + w \<le> b \<Longrightarrow> get_word (put_bytes w v a f) b = get_word f b"
  by (auto simp: get_word_def put_bytes_def)

section \<open>What each operation leaves alone\<close>

lemmas guard_defs = dirty_ram_mark_page_def kbless_on_def kbless_reset_def text_guard_note_write_def
  overlay_watch_note_write_def dirty_ram_text_native_ok_def diverge_page_def Let_def

lemma mark_page_frame [simp]:
  "cm_ram (dirty_ram_mark_page p s) = cm_ram s" "cm_rom (dirty_ram_mark_page p s) = cm_rom s"
  "cm_kbless (dirty_ram_mark_page p s) = cm_kbless s"
  "cm_kbless_enabled (dirty_ram_mark_page p s) = cm_kbless_enabled s"
  "cm_text_ref (dirty_ram_mark_page p s) = cm_text_ref s" "cm_text_lo (dirty_ram_mark_page p s) = cm_text_lo s"
  "cm_text_hi (dirty_ram_mark_page p s) = cm_text_hi s" "cm_modified (dirty_ram_mark_page p s) = cm_modified s"
  "cm_watch (dirty_ram_mark_page p s) = cm_watch s" "cm_page_gen (dirty_ram_mark_page p s) = cm_page_gen s"
  by (simp_all add: guard_defs)

lemma text_guard_frame [simp]:
  "cm_ram (text_guard_note_write p v w s) = cm_ram s" "cm_rom (text_guard_note_write p v w s) = cm_rom s"
  "cm_kbless (text_guard_note_write p v w s) = cm_kbless s"
  "cm_kbless_enabled (text_guard_note_write p v w s) = cm_kbless_enabled s"
  "cm_text_ref (text_guard_note_write p v w s) = cm_text_ref s" "cm_text_lo (text_guard_note_write p v w s) = cm_text_lo s"
  "cm_text_hi (text_guard_note_write p v w s) = cm_text_hi s"
  "cm_watch (text_guard_note_write p v w s) = cm_watch s" "cm_page_gen (text_guard_note_write p v w s) = cm_page_gen s"
  by (simp_all add: guard_defs split: option.splits)

lemma watch_note_frame [simp]:
  "cm_ram (overlay_watch_note_write p w s) = cm_ram s" "cm_rom (overlay_watch_note_write p w s) = cm_rom s"
  "cm_kbless (overlay_watch_note_write p w s) = cm_kbless s"
  "cm_kbless_enabled (overlay_watch_note_write p w s) = cm_kbless_enabled s"
  "cm_text_ref (overlay_watch_note_write p w s) = cm_text_ref s" "cm_text_lo (overlay_watch_note_write p w s) = cm_text_lo s"
  "cm_text_hi (overlay_watch_note_write p w s) = cm_text_hi s" "cm_modified (overlay_watch_note_write p w s) = cm_modified s"
  "cm_watch (overlay_watch_note_write p w s) = cm_watch s"
  by (simp_all add: guard_defs)

text \<open>Resetting bless entries touches the bless table and its counter only.\<close>

definition unblessed :: "code_mem \<Rightarrow> code_mem" where
  "unblessed s = s\<lparr>cm_kbless := (\<lambda>_. 0), cm_invalidations := 0\<rparr>"

lemma unblessed_sel [simp]:
  "cm_ram (unblessed s) = cm_ram s" "cm_rom (unblessed s) = cm_rom s"
  "cm_kbless_enabled (unblessed s) = cm_kbless_enabled s" "cm_text_ref (unblessed s) = cm_text_ref s"
  "cm_text_lo (unblessed s) = cm_text_lo s" "cm_text_hi (unblessed s) = cm_text_hi s"
  "cm_modified (unblessed s) = cm_modified s" "cm_watch (unblessed s) = cm_watch s"
  "cm_page_gen (unblessed s) = cm_page_gen s"
  by (simp_all add: unblessed_def)

lemma unblessed_reset: "unblessed (kbless_reset i s) = unblessed s"
  by (simp add: unblessed_def kbless_reset_def)

lemma cm_kbless_reset: "cm_kbless (kbless_reset i s) j = (if j = i then 0 else cm_kbless s j)"
  by (simp add: kbless_reset_def)

lemma kbless_fold:
  "unblessed (fold (\<lambda>i st. if P i then kbless_reset i st else st) xs s) = unblessed s"
  "cm_kbless (fold (\<lambda>i st. if P i then kbless_reset i st else st) xs s) j =
     (if j \<in> set xs \<and> P j then 0 else cm_kbless s j)"
  by (induction xs arbitrary: s) (auto simp: unblessed_reset cm_kbless_reset)

lemma unblessed_note_write: "unblessed (kbless_note_write h p s) = unblessed s"
  by (simp add: kbless_note_write_def Let_def kbless_fold)

lemma cm_kbless_note_write:
  "cm_kbless (kbless_note_write h p s) j =
     (if in_kernel_window p \<and> cm_kbless_enabled s \<noteq> 0 \<and> length (ch_bodies h) \<le> 4096 \<and> j < length (ch_bodies h)
         \<and> kb_lo (ch_bodies h ! j) \<le> p \<and> p < kb_hi (ch_bodies h ! j) then 0 else cm_kbless s j)"
  by (simp add: kbless_note_write_def Let_def kbless_fold)

lemma unblessed_note_range: "unblessed (psx_kernel_bless_note_range h p l s) = unblessed s"
  using kbless_fold(1) [of "\<lambda>_. True"] by (simp add: psx_kernel_bless_note_range_def Let_def)

lemma cm_kbless_note_range:
  "cm_kbless (psx_kernel_bless_note_range h p l s) j = cm_kbless s j \<or> cm_kbless (psx_kernel_bless_note_range h p l s) j = 0"
  using kbless_fold(2) [of "\<lambda>_. True"] by (simp add: psx_kernel_bless_note_range_def Let_def)

lemma note_write_frame [simp]:
  "cm_ram (kbless_note_write h p s) = cm_ram s" "cm_rom (kbless_note_write h p s) = cm_rom s"
  "cm_kbless_enabled (kbless_note_write h p s) = cm_kbless_enabled s"
  "cm_text_ref (kbless_note_write h p s) = cm_text_ref s" "cm_text_lo (kbless_note_write h p s) = cm_text_lo s"
  "cm_text_hi (kbless_note_write h p s) = cm_text_hi s" "cm_modified (kbless_note_write h p s) = cm_modified s"
  "cm_watch (kbless_note_write h p s) = cm_watch s" "cm_page_gen (kbless_note_write h p s) = cm_page_gen s"
  by (metis unblessed_note_write unblessed_sel)+

lemma note_range_frame [simp]:
  "cm_ram (psx_kernel_bless_note_range h p l s) = cm_ram s" "cm_rom (psx_kernel_bless_note_range h p l s) = cm_rom s"
  "cm_kbless_enabled (psx_kernel_bless_note_range h p l s) = cm_kbless_enabled s"
  "cm_text_ref (psx_kernel_bless_note_range h p l s) = cm_text_ref s" "cm_text_lo (psx_kernel_bless_note_range h p l s) = cm_text_lo s"
  "cm_text_hi (psx_kernel_bless_note_range h p l s) = cm_text_hi s" "cm_modified (psx_kernel_bless_note_range h p l s) = cm_modified s"
  "cm_watch (psx_kernel_bless_note_range h p l s) = cm_watch s" "cm_page_gen (psx_kernel_bless_note_range h p l s) = cm_page_gen s"
  by (metis unblessed_note_range unblessed_sel)+

lemma kernel_write_frame [simp]:
  "cm_ram (dirty_ram_mark_kernel_write h p s) = cm_ram s" "cm_rom (dirty_ram_mark_kernel_write h p s) = cm_rom s"
  "cm_kbless_enabled (dirty_ram_mark_kernel_write h p s) = cm_kbless_enabled s"
  "cm_text_ref (dirty_ram_mark_kernel_write h p s) = cm_text_ref s" "cm_text_lo (dirty_ram_mark_kernel_write h p s) = cm_text_lo s"
  "cm_text_hi (dirty_ram_mark_kernel_write h p s) = cm_text_hi s" "cm_modified (dirty_ram_mark_kernel_write h p s) = cm_modified s"
  "cm_watch (dirty_ram_mark_kernel_write h p s) = cm_watch s" "cm_page_gen (dirty_ram_mark_kernel_write h p s) = cm_page_gen s"
  by (simp_all add: dirty_ram_mark_kernel_write_def)

lemma mark_exec_frame [simp]:
  "cm_ram (dirty_ram_mark_executable_range h p l s) = cm_ram s" "cm_rom (dirty_ram_mark_executable_range h p l s) = cm_rom s"
  "cm_kbless_enabled (dirty_ram_mark_executable_range h p l s) = cm_kbless_enabled s"
  "cm_text_ref (dirty_ram_mark_executable_range h p l s) = cm_text_ref s"
  "cm_text_lo (dirty_ram_mark_executable_range h p l s) = cm_text_lo s"
  "cm_text_hi (dirty_ram_mark_executable_range h p l s) = cm_text_hi s"
  "cm_modified (dirty_ram_mark_executable_range h p l s) = cm_modified s"
  "cm_watch (dirty_ram_mark_executable_range h p l s) = cm_watch s"
  "cm_page_gen (dirty_ram_mark_executable_range h p l s) = cm_page_gen s"
  by (simp_all add: dirty_ram_mark_executable_range_def Let_def)

lemma ram_store_frame [simp]:
  "cm_rom (ram_store h w p v s) = cm_rom s" "cm_kbless_enabled (ram_store h w p v s) = cm_kbless_enabled s"
  "cm_text_ref (ram_store h w p v s) = cm_text_ref s" "cm_text_lo (ram_store h w p v s) = cm_text_lo s"
  "cm_text_hi (ram_store h w p v s) = cm_text_hi s" "cm_watch (ram_store h w p v s) = cm_watch s"
  by (simp_all add: ram_store_def Let_def)

lemma cm_ram_store [simp]: "cm_ram (ram_store h w p v s) = put_bytes w v (unat p) (cm_ram s)"
  by (simp add: ram_store_def Let_def)

section \<open>Histories of guarded memory\<close>

datatype code_op =
    Ram_Store nat u32 u32
  | Mark_Executable u32 u32
  | Query_Kernel u32
  | Query_Text u32
  | Query_Ranges "(u32 \<times> u32) list"
  | Watch_Set u32 u32
  | Watch_Clear u32 u32

fun code_step :: "code_host \<Rightarrow> code_op \<Rightarrow> code_mem \<Rightarrow> code_mem" where
  "code_step h (Ram_Store w p v) s = ram_store h w p v s"
| "code_step h (Mark_Executable p l) s = dirty_ram_mark_executable_range h p l s"
| "code_step h (Query_Kernel p) s = snd (psx_kernel_bless_dispatchable h p s)"
| "code_step h (Query_Text p) s = snd (dirty_ram_text_native_ok h p s)"
| "code_step h (Query_Ranges rs) s = snd (dirty_ram_text_native_ok_ranges rs s)"
| "code_step h (Watch_Set p l) s = overlay_watch_set_range p l s"
| "code_step h (Watch_Clear p l) s = overlay_watch_clear_range p l s"

text \<open>Stores are naturally aligned, as the CPU's and the DMA controller's are.\<close>

fun op_aligned :: "code_op \<Rightarrow> bool" where
  "op_aligned (Ram_Store w p v) \<longleftrightarrow> w \<in> {1, 2, 4} \<and> p < RAM_SIZE \<and> unat p mod w = 0"
| "op_aligned _ \<longleftrightarrow> True"

lemma block_inside:
  assumes "w \<in> {1, 2, 4}" "a mod w = 0" "lo mod 4 = 0" "lo \<le> a + j" "j < w"
  shows "lo \<le> (a::nat)"
  using assms by (auto; presburger)


section \<open>Frames of the queries\<close>

lemma native_ok_frame [simp]:
  "cm_ram (snd (dirty_ram_text_native_ok h p s)) = cm_ram s" "cm_rom (snd (dirty_ram_text_native_ok h p s)) = cm_rom s"
  "cm_kbless (snd (dirty_ram_text_native_ok h p s)) = cm_kbless s"
  "cm_kbless_enabled (snd (dirty_ram_text_native_ok h p s)) = cm_kbless_enabled s"
  "cm_text_ref (snd (dirty_ram_text_native_ok h p s)) = cm_text_ref s"
  "cm_text_lo (snd (dirty_ram_text_native_ok h p s)) = cm_text_lo s"
  "cm_text_hi (snd (dirty_ram_text_native_ok h p s)) = cm_text_hi s"
  "cm_modified (snd (dirty_ram_text_native_ok h p s)) = cm_modified s"
  "cm_watch (snd (dirty_ram_text_native_ok h p s)) = cm_watch s"
  "cm_page_gen (snd (dirty_ram_text_native_ok h p s)) = cm_page_gen s"
  by (simp_all add: dirty_ram_text_native_ok_def Let_def split: option.splits)

definition undiverged :: "code_mem \<Rightarrow> code_mem" where
  "undiverged s = s\<lparr>cm_diverged := (\<lambda>_. 0), cm_diverged_pages := 0, cm_native_blocked := 0,
                    cm_exact_mismatches := 0, cm_exact_last := (0, 0, 0, 0, 0)\<rparr>"

lemma undiverged_sel [simp]:
  "cm_ram (undiverged s) = cm_ram s" "cm_rom (undiverged s) = cm_rom s" "cm_kbless (undiverged s) = cm_kbless s"
  "cm_kbless_enabled (undiverged s) = cm_kbless_enabled s" "cm_text_ref (undiverged s) = cm_text_ref s"
  "cm_text_lo (undiverged s) = cm_text_lo s" "cm_text_hi (undiverged s) = cm_text_hi s"
  "cm_modified (undiverged s) = cm_modified s" "cm_watch (undiverged s) = cm_watch s"
  "cm_page_gen (undiverged s) = cm_page_gen s"
  by (simp_all add: undiverged_def)

lemma undiverged_page: "undiverged (diverge_page p s) = undiverged s"
  by (simp add: undiverged_def diverge_page_def)

lemma undiverged_pages: "undiverged (fold diverge_page ps s) = undiverged s"
  by (induction ps arbitrary: s) (simp_all add: undiverged_page)

lemma undiverged_upd:
  "undiverged (s\<lparr>cm_native_blocked := n\<rparr>) = undiverged s"
  "undiverged (s\<lparr>cm_exact_mismatches := m, cm_exact_last := l\<rparr>) = undiverged s"
  by (simp_all add: undiverged_def)

lemma undiverged_mismatch: "undiverged (exact_mismatch ref p l s) = undiverged s"
  by (simp only: exact_mismatch_def Let_def undiverged_upd undiverged_pages)

lemma undiverged_ranges: "undiverged (snd (text_ranges_ok ref rs s)) = undiverged s"
  by (induction ref rs s rule: text_ranges_ok.induct) (simp_all add: Let_def undiverged_upd undiverged_mismatch)

lemma ranges_frame [simp]:
  "cm_ram (snd (dirty_ram_text_native_ok_ranges rs s)) = cm_ram s"
  "cm_rom (snd (dirty_ram_text_native_ok_ranges rs s)) = cm_rom s"
  "cm_kbless (snd (dirty_ram_text_native_ok_ranges rs s)) = cm_kbless s"
  "cm_kbless_enabled (snd (dirty_ram_text_native_ok_ranges rs s)) = cm_kbless_enabled s"
  "cm_text_ref (snd (dirty_ram_text_native_ok_ranges rs s)) = cm_text_ref s"
  "cm_text_lo (snd (dirty_ram_text_native_ok_ranges rs s)) = cm_text_lo s"
  "cm_text_hi (snd (dirty_ram_text_native_ok_ranges rs s)) = cm_text_hi s"
  "cm_modified (snd (dirty_ram_text_native_ok_ranges rs s)) = cm_modified s"
  "cm_watch (snd (dirty_ram_text_native_ok_ranges rs s)) = cm_watch s"
  "cm_page_gen (snd (dirty_ram_text_native_ok_ranges rs s)) = cm_page_gen s"
proof -
  have "undiverged (snd (dirty_ram_text_native_ok_ranges rs s)) = undiverged s"
    by (simp add: dirty_ram_text_native_ok_ranges_def undiverged_ranges split: option.splits)
  then show "cm_ram (snd (dirty_ram_text_native_ok_ranges rs s)) = cm_ram s"
    "cm_rom (snd (dirty_ram_text_native_ok_ranges rs s)) = cm_rom s"
    "cm_kbless (snd (dirty_ram_text_native_ok_ranges rs s)) = cm_kbless s"
    "cm_kbless_enabled (snd (dirty_ram_text_native_ok_ranges rs s)) = cm_kbless_enabled s"
    "cm_text_ref (snd (dirty_ram_text_native_ok_ranges rs s)) = cm_text_ref s"
    "cm_text_lo (snd (dirty_ram_text_native_ok_ranges rs s)) = cm_text_lo s"
    "cm_text_hi (snd (dirty_ram_text_native_ok_ranges rs s)) = cm_text_hi s"
    "cm_modified (snd (dirty_ram_text_native_ok_ranges rs s)) = cm_modified s"
    "cm_watch (snd (dirty_ram_text_native_ok_ranges rs s)) = cm_watch s"
    "cm_page_gen (snd (dirty_ram_text_native_ok_ranges rs s)) = cm_page_gen s"
    by (metis undiverged_sel)+
qed

lemma kbless_on_frame:
  "kbless_on h s = (b, s1) \<Longrightarrow> s1 = s\<lparr>cm_kbless_enabled := cm_kbless_enabled s1\<rparr> \<and> (b \<longleftrightarrow> cm_kbless_enabled s1 \<noteq> 0) \<and>
     (cm_kbless_enabled s \<ge> 0 \<longrightarrow> cm_kbless_enabled s1 = cm_kbless_enabled s)"
  by (auto simp: kbless_on_def Let_def)

definition query_mask :: "code_mem \<Rightarrow> code_mem" where
  "query_mask s = s\<lparr>cm_kbless := (\<lambda>_. 0), cm_kbless_enabled := 0, cm_native_hits := 0, cm_verifies := 0, cm_mismatches := 0\<rparr>"

lemma query_mask_sel [simp]:
  "cm_ram (query_mask s) = cm_ram s" "cm_rom (query_mask s) = cm_rom s" "cm_text_ref (query_mask s) = cm_text_ref s"
  "cm_text_lo (query_mask s) = cm_text_lo s" "cm_text_hi (query_mask s) = cm_text_hi s"
  "cm_modified (query_mask s) = cm_modified s" "cm_watch (query_mask s) = cm_watch s" "cm_page_gen (query_mask s) = cm_page_gen s"
  by (simp_all add: query_mask_def)

lemma query_mask_upd: "query_mask (s\<lparr>cm_kbless_enabled := e\<rparr>) = query_mask s"
  by (simp add: query_mask_def)

lemma query_kernel_mask: "query_mask (snd (psx_kernel_bless_dispatchable h p s)) = query_mask s"
proof -
  obtain b s1 where k: "kbless_on h s = (b, s1)" by (metis prod.exhaust)
  have "query_mask s1 = query_mask s"
    using kbless_on_frame [OF k] by (metis query_mask_upd)
  moreover have "query_mask (snd (psx_kernel_bless_dispatchable h p s)) = query_mask (if in_kernel_window p then s1 else s)"
    by (simp add: psx_kernel_bless_dispatchable_def k query_mask_def Let_def split: bool.splits option.splits)
  ultimately show ?thesis by simp
qed

lemma query_kernel_frame [simp]:
  "cm_ram (snd (psx_kernel_bless_dispatchable h p s)) = cm_ram s"
  "cm_rom (snd (psx_kernel_bless_dispatchable h p s)) = cm_rom s"
  "cm_text_ref (snd (psx_kernel_bless_dispatchable h p s)) = cm_text_ref s"
  "cm_text_lo (snd (psx_kernel_bless_dispatchable h p s)) = cm_text_lo s"
  "cm_text_hi (snd (psx_kernel_bless_dispatchable h p s)) = cm_text_hi s"
  "cm_modified (snd (psx_kernel_bless_dispatchable h p s)) = cm_modified s"
  "cm_watch (snd (psx_kernel_bless_dispatchable h p s)) = cm_watch s"
  "cm_page_gen (snd (psx_kernel_bless_dispatchable h p s)) = cm_page_gen s"
  by (metis query_kernel_mask query_mask_sel)+

lemma watch_set_frame [simp]:
  "cm_ram (overlay_watch_set_range p l s) = cm_ram s" "cm_rom (overlay_watch_set_range p l s) = cm_rom s"
  "cm_kbless (overlay_watch_set_range p l s) = cm_kbless s"
  "cm_kbless_enabled (overlay_watch_set_range p l s) = cm_kbless_enabled s"
  "cm_text_ref (overlay_watch_set_range p l s) = cm_text_ref s" "cm_text_lo (overlay_watch_set_range p l s) = cm_text_lo s"
  "cm_text_hi (overlay_watch_set_range p l s) = cm_text_hi s" "cm_modified (overlay_watch_set_range p l s) = cm_modified s"
  "cm_page_gen (overlay_watch_set_range p l s) = cm_page_gen s"
  by (simp_all add: overlay_watch_set_range_def)

lemma watch_clear_frame [simp]:
  "cm_ram (overlay_watch_clear_range p l s) = cm_ram s" "cm_rom (overlay_watch_clear_range p l s) = cm_rom s"
  "cm_kbless (overlay_watch_clear_range p l s) = cm_kbless s"
  "cm_kbless_enabled (overlay_watch_clear_range p l s) = cm_kbless_enabled s"
  "cm_text_ref (overlay_watch_clear_range p l s) = cm_text_ref s" "cm_text_lo (overlay_watch_clear_range p l s) = cm_text_lo s"
  "cm_text_hi (overlay_watch_clear_range p l s) = cm_text_hi s" "cm_modified (overlay_watch_clear_range p l s) = cm_modified s"
  "cm_page_gen (overlay_watch_clear_range p l s) = cm_page_gen s"
  by (simp_all add: overlay_watch_clear_range_def)

section \<open>A blessed kernel body still is the ROM image\<close>

definition bodies_wf :: "code_host \<Rightarrow> bool" where
  "bodies_wf h \<longleftrightarrow> length (ch_bodies h) \<le> 4096 \<and>
     (\<forall>b \<in> set (ch_bodies h). 0x500 \<le> unat (kb_lo b) \<and> kb_lo b \<le> kb_hi b \<and> unat (kb_hi b) \<le> 0x8500 \<and> unat (kb_lo b) mod 4 = 0)"

definition kernel_ok :: "code_host \<Rightarrow> code_mem \<Rightarrow> bool" where
  "kernel_ok h s \<longleftrightarrow> (\<forall>i < length (ch_bodies h). cm_kbless s i = KBLESS_CLEAN \<longrightarrow>
     0 < cm_kbless_enabled s \<and> kbless_matches (ch_bodies h ! i) s)"

lemma kernel_ok_mono:
  assumes "kernel_ok h s" "cm_ram s' = cm_ram s" "cm_rom s' = cm_rom s" "cm_kbless_enabled s' = cm_kbless_enabled s"
    "\<And>i. cm_kbless s' i = cm_kbless s i \<or> cm_kbless s' i = 0"
  shows "kernel_ok h s'"
  using assms unfolding kernel_ok_def kbless_matches_def by (metis zero_neq_one)

lemma kernel_ok_store:
  assumes h: "bodies_wf h" and s: "kernel_ok h s" and a: "op_aligned (Ram_Store w p v)"
  shows "kernel_ok h (ram_store h w p v s)"
  unfolding kernel_ok_def
proof (intro allI impI)
  fix i assume i: "i < length (ch_bodies h)" and c: "cm_kbless (ram_store h w p v s) i = KBLESS_CLEAN"
  let ?b = "ch_bodies h ! i"
  have b: "?b \<in> set (ch_bodies h)" using i by simp
  have bw: "0x500 \<le> unat (kb_lo ?b)" "unat (kb_hi ?b) \<le> 0x8500" "unat (kb_lo ?b) mod 4 = 0" "kb_lo ?b \<le> kb_hi ?b"
    using h b by (auto simp: bodies_wf_def)
  have k: "cm_kbless (ram_store h w p v s) i = (if p \<ge> KERNEL_TRACK then cm_kbless s i else cm_kbless (kbless_note_write h p s) i)"
    by (simp add: ram_store_def Let_def dirty_ram_mark_kernel_write_def cm_kbless_note_write)
  have old: "cm_kbless s i = KBLESS_CLEAN"
    using c k by (auto simp: cm_kbless_note_write split: if_splits)
  then have m: "0 < cm_kbless_enabled s" "kbless_matches ?b s"
    using s i by (auto simp: kernel_ok_def)
  have out: "\<not> (unat (kb_lo ?b) \<le> unat p \<and> unat p < unat (kb_hi ?b))"
  proof
    assume r: "unat (kb_lo ?b) \<le> unat p \<and> unat p < unat (kb_hi ?b)"
    then have "in_kernel_window p" "\<not> p \<ge> KERNEL_TRACK" "kb_lo ?b \<le> p" "p < kb_hi ?b"
      using bw by (simp_all add: window_iff word_le_nat_alt word_less_nat_alt)
    then show False
      using c k m(1) i h by (simp add: cm_kbless_note_write bodies_wf_def)
  qed
  have keep: "put_bytes w v (unat p) (cm_ram s) x = cm_ram s x" if "unat (kb_lo ?b) \<le> x" "x < unat (kb_hi ?b)" for x
  proof (rule put_bytes_out)
    show "x < unat p \<or> unat p + w \<le> x"
    proof (rule ccontr)
      assume "\<not> (x < unat p \<or> unat p + w \<le> x)"
      then have "x = unat p + (x - unat p)" "x - unat p < w" by auto
      then have "unat (kb_lo ?b) \<le> unat p"
        using block_inside [of w "unat p" "unat (kb_lo ?b)" "x - unat p"] a bw that by auto
      then show False using out that \<open>\<not> (x < unat p \<or> unat p + w \<le> x)\<close> by auto
    qed
  qed
  have "unat (kb_hi ?b - kb_lo ?b) = unat (kb_hi ?b) - unat (kb_lo ?b)"
    using bw(4) by (rule unat_sub)
  then have "kbless_matches ?b (ram_store h w p v s)"
    using m(2) keep bw(4) by (auto simp: kbless_matches_def mem_equal_iff word_le_nat_alt)
  then show "0 < cm_kbless_enabled (ram_store h w p v s) \<and> kbless_matches ?b (ram_store h w p v s)"
    using m(1) by simp
qed

lemma kbless_search_sound:
  "kbless_search bodies p lo hi = Some i \<Longrightarrow> lo \<le> i \<and> i < hi \<and> kb_key (bodies ! i) = p"
proof (induction bodies p lo hi rule: kbless_search.induct)
  case (1 bodies p lo hi)
  from "1.prems" show ?case
    using "1.IH" by (subst (asm) kbless_search.simps) (fastforce simp: Let_def split: if_splits)
qed

lemma kbless_find_sound: "kbless_find bodies p = Some i \<Longrightarrow> i < length bodies \<and> kb_key (bodies ! i) = p"
  using kbless_search_sound [of bodies p 0 "length bodies" i] by (simp add: kbless_find_def)

lemma kbless_search_complete:
  assumes "\<And>i j. i < j \<Longrightarrow> j < length bodies \<Longrightarrow> kb_key (bodies ! i) < kb_key (bodies ! j)"
  shows "lo \<le> i \<Longrightarrow> i < hi \<Longrightarrow> hi \<le> length bodies \<Longrightarrow> kb_key (bodies ! i) = p \<Longrightarrow> kbless_search bodies p lo hi = Some i"
proof (induction "hi - lo" arbitrary: lo hi rule: less_induct)
  case less
  let ?m = "(lo + hi) div 2"
  have m: "lo \<le> ?m" "?m < hi" using less.prems by auto
  consider "i = ?m" | "?m < i" | "i < ?m" by linarith
  then show ?case
  proof cases
    case 1
    then show ?thesis using less.prems by (subst kbless_search.simps) (auto simp: Let_def)
  next
    case 2
    then have "kb_key (bodies ! ?m) < p" using assms [of ?m i] less.prems by auto
    then show ?thesis
      using less.hyps [of hi "?m + 1"] less.prems m 2 by (subst kbless_search.simps) (auto simp: Let_def)
  next
    case 3
    then have "p < kb_key (bodies ! ?m)" using assms [of i ?m] less.prems m by auto
    then show ?thesis
      using less.hyps [of ?m lo] less.prems m 3 by (subst kbless_search.simps) (auto simp: Let_def)
  qed
qed

lemma kernel_ok_enabled:
  "kernel_ok h s \<Longrightarrow> kbless_on h s = (b, s1) \<Longrightarrow> kernel_ok h s1"
  using kbless_on_frame [of h s b s1] unfolding kernel_ok_def kbless_matches_def
  by (auto simp: kbless_on_def Let_def split: if_splits)

lemma kbless_on_pos: "kbless_on h s = (e, s1) \<Longrightarrow> e \<longleftrightarrow> 0 < cm_kbless_enabled s1"
  by (auto simp: kbless_on_def Let_def split: if_splits)

lemma matches_upd: "kbless_matches b (s\<lparr>cm_verifies := n\<rparr>) = kbless_matches b s"
  by (simp add: kbless_matches_def)

lemma query_kernel:
  assumes s: "kernel_ok h s" and q: "psx_kernel_bless_dispatchable h p s = (r, s')"
  shows "kernel_ok h s'" "r \<Longrightarrow> \<exists>b \<in> set (ch_bodies h). kb_key b = p \<and> kbless_matches b s"
proof -
  obtain e s1 where k: "kbless_on h s = (e, s1)" by (metis prod.exhaust)
  have f: "s1 = s\<lparr>cm_kbless_enabled := cm_kbless_enabled s1\<rparr>" "e \<longleftrightarrow> 0 < cm_kbless_enabled s1"
    using kbless_on_frame [OF k] kbless_on_pos [OF k] by blast+
  have ok: "kernel_ok h s1" by (rule kernel_ok_enabled [OF s k])
  have same: "kbless_matches b s1 = kbless_matches b s" for b
    by (subst f(1)) (simp add: kbless_matches_def)
  show "kernel_ok h s'"
  proof (cases "in_kernel_window p")
    case True
    then show ?thesis
      using q ok f(2) unfolding psx_kernel_bless_dispatchable_def k
      by (auto simp: Let_def kernel_ok_def kbless_matches_def split: bool.splits option.splits if_splits)
  next
    case False
    then show ?thesis
      using q s by (simp add: psx_kernel_bless_dispatchable_def)
  qed
  assume r
  then obtain i where i: "kbless_find (ch_bodies h) p = Some i" "cm_kbless s1 i = KBLESS_CLEAN \<or> kbless_matches (ch_bodies h ! i) s1"
    using q unfolding psx_kernel_bless_dispatchable_def k
    by (auto simp: Let_def matches_upd split: bool.splits option.splits if_splits)
  have "kbless_matches (ch_bodies h ! i) s" "kb_key (ch_bodies h ! i) = p" "ch_bodies h ! i \<in> set (ch_bodies h)"
    using kbless_find_sound [OF i(1)] i(2) ok same by (auto simp: kernel_ok_def)
  then show "\<exists>b \<in> set (ch_bodies h). kb_key b = p \<and> kbless_matches b s" by blast
qed

lemma kernel_ok_step: "bodies_wf h \<Longrightarrow> kernel_ok h s \<Longrightarrow> op_aligned c \<Longrightarrow> kernel_ok h (code_step h c s)"
proof (cases c)
  case (Ram_Store w p v)
  assume "bodies_wf h" "kernel_ok h s" "op_aligned c"
  then show ?thesis
    unfolding Ram_Store code_step.simps by (rule kernel_ok_store)
next
  case (Mark_Executable p l)
  assume "kernel_ok h s"
  then show ?thesis
    unfolding Mark_Executable code_step.simps
    by (rule kernel_ok_mono) (auto simp: dirty_ram_mark_executable_range_def Let_def cm_kbless_note_range)
next
  case (Query_Kernel p)
  assume "kernel_ok h s"
  then show ?thesis
    using query_kernel(1) [of h s p] by (cases "psx_kernel_bless_dispatchable h p s") (simp add: Query_Kernel)
qed (simp_all add: kernel_ok_def kbless_matches_def)

lemma kernel_ok_steps:
  "bodies_wf h \<Longrightarrow> kernel_ok h s \<Longrightarrow> list_all op_aligned cs \<Longrightarrow> kernel_ok h (fold (code_step h) cs s)"
  by (induction cs arbitrary: s) (simp_all add: kernel_ok_step)

section \<open>A text page that was never modified still is the compiled image\<close>








lemma text_ranges_exact:
  "fst (text_ranges_ok ref rs s) \<Longrightarrow> (v, l) \<in> set rs \<Longrightarrow>
   mem_equal (cm_ram s) (unat (v AND 0x1FFFFFFF)) ref (unat ((v AND 0x1FFFFFFF) - cm_text_lo s)) (unat l)"
  by (induction ref rs s rule: text_ranges_ok.induct) (auto simp: Let_def split: if_splits)

section \<open>Watched pages count their stores\<close>

definition hits_watched :: "code_mem \<Rightarrow> u32 \<Rightarrow> u32 \<Rightarrow> code_op \<Rightarrow> bool" where
  "hits_watched s lo len c \<longleftrightarrow>
     (case c of Ram_Store w p v \<Rightarrow> page_of p \<in> set (page_range lo len) \<and> bitmap_test (cm_watch s) (page_of p) | _ \<Rightarrow> False)"

lemma sum_list_bump:
  "distinct xs \<Longrightarrow> sum_list (map (f(k := f k + (1::u32))) xs) = sum_list (map f xs) + (if k \<in> set xs then 1 else 0)"
  by (induction xs) auto

lemma cm_page_gen_store:
  "p < RAM_SIZE \<Longrightarrow> cm_page_gen (ram_store h w p v s) =
     (if bitmap_test (cm_watch s) (page_of p) then (cm_page_gen s)(page_of p := cm_page_gen s (page_of p) + 1) else cm_page_gen s)"
proof -
  assume "p < RAM_SIZE"
  then have "page_of p < 512"
    unfolding page_of_div by (simp add: word_less_nat_alt)
  then show ?thesis
    by (simp add: ram_store_def overlay_watch_note_write_def Let_def)
qed

lemma pagegen_store:
  "p < RAM_SIZE \<Longrightarrow> 0 < len \<Longrightarrow> lo < RAM_SIZE \<Longrightarrow>
   overlay_watch_pagegen_sum lo len (ram_store h w p v s) =
     overlay_watch_pagegen_sum lo len s + (if hits_watched s lo len (Ram_Store w p v) then 1 else 0)"
proof -
  assume a: "p < RAM_SIZE" "0 < len" "lo < RAM_SIZE"
  then have "\<not> (len = 0 \<or> lo \<ge> RAM_SIZE)" by auto
  note sum = if_not_P [OF this]
  have "distinct (page_range lo len)" by (simp add: page_range_def)
  then show ?thesis
    by (simp add: overlay_watch_pagegen_sum_def sum cm_page_gen_store [OF a(1)] sum_list_bump hits_watched_def)
qed

definition changes_watch :: "code_op \<Rightarrow> bool" where
  "changes_watch c \<longleftrightarrow> (case c of Watch_Set _ _ \<Rightarrow> True | Watch_Clear _ _ \<Rightarrow> True | _ \<Rightarrow> False)"

lemma cm_watch_step: "\<not> changes_watch c \<Longrightarrow> cm_watch (code_step h c s) = cm_watch s"
  by (cases c) (simp_all add: changes_watch_def)

lemma pagegen_step:
  "\<not> changes_watch c \<Longrightarrow> op_aligned c \<Longrightarrow> 0 < len \<Longrightarrow> lo < RAM_SIZE \<Longrightarrow>
   overlay_watch_pagegen_sum lo len (code_step h c s) =
     overlay_watch_pagegen_sum lo len s + (if hits_watched s lo len c then 1 else 0)"
  by (cases c) (simp_all add: pagegen_store, simp_all add: overlay_watch_pagegen_sum_def hits_watched_def changes_watch_def)

lemma pagegen_steps:
  assumes "0 < len" "lo < RAM_SIZE"
  shows "list_all (\<lambda>c. op_aligned c \<and> \<not> changes_watch c) cs \<Longrightarrow>
   overlay_watch_pagegen_sum lo len (fold (code_step h) cs s) =
     overlay_watch_pagegen_sum lo len s + of_nat (length (filter (hits_watched s lo len) cs))"
proof (induction cs arbitrary: s)
  case (Cons c cs)
  have "hits_watched (code_step h c s) lo len = hits_watched s lo len"
    using Cons.prems by (simp add: fun_eq_iff hits_watched_def cm_watch_step split: code_op.split)
  then show ?case
    using Cons assms by (simp add: pagegen_step)
qed simp

lemma text_store_diverged: "cm_diverged (ram_store h w p v s) = cm_diverged s"
proof -
  have "cm_diverged (kbless_note_write h p t) = cm_diverged t" for t
    using unblessed_note_write [of h p t] by (metis unblessed_def code_mem.select_convs(15) code_mem.surjective code_mem.update_convs(5,10))
  then show ?thesis
    by (simp add: ram_store_def Let_def overlay_watch_note_write_def text_guard_note_write_def
        dirty_ram_mark_kernel_write_def dirty_ram_mark_page_def split: option.splits)
qed

lemma store_dirty_above: "p \<ge> KERNEL_TRACK \<Longrightarrow> cm_dirty (ram_store h w p v s) = cm_dirty s"
  by (simp add: ram_store_def Let_def overlay_watch_note_write_def text_guard_note_write_def
      dirty_ram_mark_kernel_write_def split: option.splits)

lemma store_modified_other:
  "page_of q \<noteq> pg \<Longrightarrow> bitmap_test (cm_modified (ram_store h w q v s)) pg = bitmap_test (cm_modified s) pg"
  by (simp add: ram_store_def Let_def text_guard_note_write_def split: option.splits)

section \<open>Properties\<close>

definition demo_host :: code_host where
  "demo_host = \<lparr>ch_bodies = [\<lparr>kb_key = 0x600, kb_lo = 0x600, kb_hi = 0x604\<rparr>, \<lparr>kb_key = 0x700, kb_lo = 0x6F0, kb_hi = 0x704\<rparr>],
     ch_bless_off = False, ch_force_interp = False, ch_shellwin = False\<rparr>"

definition demo_code :: code_mem where
  "demo_code = \<lparr>cm_ram = \<lambda>_. 0, cm_rom = \<lambda>_. 0, cm_dirty = \<lambda>_. 0, cm_code_gen = 1, cm_kbless = \<lambda>_. 0,
     cm_kbless_enabled = -1, cm_native_hits = 0, cm_verifies = 0, cm_mismatches = 0, cm_invalidations = 0,
     cm_text_ref = None, cm_text_lo = 0, cm_text_hi = 0, cm_modified = \<lambda>_. 0, cm_diverged = \<lambda>_. 0,
     cm_native_blocked = 0, cm_diverged_pages = 0, cm_exact_mismatches = 0, cm_exact_last = (0, 0, 0, 0, 0),
     cm_watch = \<lambda>_. 0, cm_page_gen = \<lambda>_. 0, cm_floor = 0x80000, cm_active_checks = [], cm_notes = []\<rparr>"

lemma demo_host_sel:
  "ch_bodies demo_host = [\<lparr>kb_key = 0x600, kb_lo = 0x600, kb_hi = 0x604\<rparr>, \<lparr>kb_key = 0x700, kb_lo = 0x6F0, kb_hi = 0x704\<rparr>]"
  "ch_bless_off demo_host = False" "ch_force_interp demo_host = False" "ch_shellwin demo_host = False"
  by (simp_all add: demo_host_def)

definition demo_text :: code_mem where
  "demo_text = dirty_ram_register_text_image 0x10000 (\<lambda>_. 0) 0x2000 demo_code"

text \<open>C1: A kernel function is dispatched to its static native code only while RAM still
  holds the ROM image: after any history of aligned stores, loads marked executable and
  queries, if \<open>psx_kernel_bless_dispatchable\<close> accepts a target then every byte of the body
  the table gives for it equals the byte of the BIOS ROM it was copied from.\<close>

theorem guard_kernel_sound:
  assumes "bodies_wf h" and "list_all op_aligned ops" and "cm_kbless s0 = (\<lambda>_. KBLESS_UNKNOWN)"
    and "fst (psx_kernel_bless_dispatchable h phys (fold (code_step h) ops s0))"
  shows "\<exists>b \<in> set (ch_bodies h). kb_key b = phys \<and>
     mem_equal (cm_ram (fold (code_step h) ops s0)) (unat (kb_lo b)) (cm_rom (fold (code_step h) ops s0))
       (0x10000 + unat (kb_lo b - 0x500)) (unat (kb_hi b - kb_lo b))"
proof -
  have "kernel_ok h s0"
    using assms(3) by (simp add: kernel_ok_def)
  then have "kernel_ok h (fold (code_step h) ops s0)"
    using assms by (intro kernel_ok_steps)
  then show ?thesis
    using query_kernel(2) assms(4) unfolding kbless_matches_def by (metis prod.collapse)
qed

lemma guard_kernel_sound_witness:
  "\<exists>b \<in> set (ch_bodies demo_host). kb_key b = 0x700 \<and>
     mem_equal (cm_ram (ram_store demo_host 4 0x900 7 demo_code)) (unat (kb_lo b)) (\<lambda>_. 0)
       (0x10000 + unat (kb_lo b - 0x500)) (unat (kb_hi b - kb_lo b))"
proof -
  have wf: "bodies_wf demo_host" by (simp add: bodies_wf_def demo_host_def)
  have f: "kbless_find (ch_bodies demo_host) 0x700 = Some 1"
    by (simp add: kbless_find_def demo_host_sel kbless_search.simps Let_def)
  have k: "cm_kbless (ram_store demo_host 4 0x900 7 demo_code) = (\<lambda>_. 0)" "cm_kbless_enabled demo_code = -1"
    by (simp_all add: ram_store_def Let_def dirty_ram_mark_kernel_write_def fun_eq_iff cm_kbless_note_write demo_code_def)
  have r: "kbless_matches (ch_bodies demo_host ! 1) (ram_store demo_host 4 0x900 7 demo_code\<lparr>cm_kbless_enabled := 1, cm_verifies := n\<rparr>)" for n
    by (simp add: kbless_matches_def mem_equal_iff put_bytes_def demo_host_sel demo_code_def)
  have "fst (psx_kernel_bless_dispatchable demo_host 0x700 (ram_store demo_host 4 0x900 7 demo_code))"
    unfolding psx_kernel_bless_dispatchable_def f option.case
    using r by (simp add: window_iff kbless_on_def Let_def k) (simp add: demo_host_sel)
  then show ?thesis
    using guard_kernel_sound [of demo_host "[Ram_Store 4 0x900 7]" demo_code "0x700"] wf
    by (simp add: demo_code_def)
qed

text \<open>The lookup of a dispatch key in the generated table of kernel bodies is exact: on a
  table sorted by key the binary search returns an index precisely when the entry at that
  index has the key.\<close>

theorem guard_lookup_exact:
  assumes "\<forall>i j. i < j \<and> j < length bodies \<longrightarrow> kb_key (bodies ! i) < kb_key (bodies ! j)"
  shows "kbless_find bodies phys = Some i \<longleftrightarrow> i < length bodies \<and> kb_key (bodies ! i) = phys"
  using kbless_find_sound [of bodies phys i] kbless_search_complete [of bodies 0 i "length bodies" phys] assms
  by (auto simp: kbless_find_def)

lemma guard_lookup_exact_witness: "kbless_find (ch_bodies demo_host) 0x700 = Some 1"
proof -
  have "kb_key (ch_bodies demo_host ! i) < kb_key (ch_bodies demo_host ! j)"
    if "i < j" "j < length (ch_bodies demo_host)" for i j
  proof -
    have "i = 0" "j = 1" using that by (simp_all add: demo_host_sel)
    then show ?thesis by (simp add: demo_host_sel)
  qed
  then have "\<forall>i j. i < j \<and> j < length (ch_bodies demo_host) \<longrightarrow> kb_key (ch_bodies demo_host ! i) < kb_key (ch_bodies demo_host ! j)"
    by blast
  moreover have "1 < length (ch_bodies demo_host) \<and> kb_key (ch_bodies demo_host ! 1) = 0x700"
    by (simp add: demo_host_sel)
  ultimately show ?thesis
    using guard_lookup_exact [of "ch_bodies demo_host" "0x700" 1] by blast
qed



text \<open>The guard does not look past the entry's page: a store that rewrites code on
  another page, even bytes inside the 256-byte window of the entry, leaves an entry on a
  clean page accepted.\<close>

theorem guard_text_other_page:
  assumes "cm_text_ref s = Some ref" and "cm_text_lo s \<le> phys" and "phys < cm_text_hi s"
    and "\<not> bitmap_test (cm_diverged s) (page_of phys)" and "\<not> bitmap_test (cm_modified s) (page_of phys)"
    and "\<not> dirty_ram_is_dirty h phys s" and "KERNEL_TRACK \<le> q" and "page_of q \<noteq> page_of phys"
  shows "fst (dirty_ram_text_native_ok h phys (ram_store h w q val s))"
proof -
  have "\<not> dirty_ram_is_dirty h phys (ram_store h w q val s)"
    using assms(6,7) by (simp add: dirty_ram_is_dirty_def store_dirty_above)
  then show ?thesis
    using assms by (simp add: dirty_ram_text_native_ok_def Let_def text_store_diverged store_modified_other not_less not_le)
qed

lemma guard_text_other_page_witness:
  "fst (dirty_ram_text_native_ok demo_host 0x10FF0 (ram_store demo_host 4 0x11000 0x0800ABCD demo_text)) \<and>
   get_word (cm_ram (ram_store demo_host 4 0x11000 0x0800ABCD demo_text)) (0x10FF0 + 16) = 0x0800ABCD"
  using guard_text_other_page [of demo_text "\<lambda>_. 0" "0x10FF0" demo_host "0x11000" 4 "0x0800ABCD"]
    get_put_word [of "0x0800ABCD" "0x11000" "cm_ram demo_text"]
  by (simp add: demo_text_def demo_code_def dirty_ram_register_text_image_def bitmap_test_def
      dirty_ram_is_dirty_def demo_host_def page_of_div)

text \<open>The exact-range guard accepts only unmodified code: when
  \<open>dirty_ram_text_native_ok_ranges\<close> accepts a list of ranges, every byte of every range
  equals the reference image, in any state.\<close>

theorem guard_text_ranges_exact:
  assumes "fst (dirty_ram_text_native_ok_ranges rs s)" and "(vaddr, len) \<in> set rs"
  shows "\<exists>ref. cm_text_ref s = Some ref \<and>
     mem_equal (cm_ram s) (unat (vaddr AND 0x1FFFFFFF)) ref (unat ((vaddr AND 0x1FFFFFFF) - cm_text_lo s)) (unat len)"
  using assms text_ranges_exact
  by (auto simp: dirty_ram_text_native_ok_ranges_def split: option.splits if_splits)

lemma guard_text_ranges_exact_witness:
  "\<exists>ref. cm_text_ref demo_text = Some ref \<and> mem_equal (cm_ram demo_text) 0x10010 ref 0x10 8"
  using guard_text_ranges_exact [of "[(0x80010010, 8)]" demo_text "0x80010010" 8]
  by (simp add: dirty_ram_text_native_ok_ranges_def demo_text_def demo_code_def dirty_ram_register_text_image_def
      mem_equal_iff)

text \<open>The generation sum of a range of overlay pages counts the stores to its watched
  pages: after any history of aligned stores, executable marks and queries that does not
  change the watch list, it has grown by the number of stores that hit a watched page of
  the range, modulo \<open>2 ^ 32\<close>.\<close>

theorem guard_watch_counts:
  assumes "0 < len" and "lo < RAM_SIZE" and "list_all (\<lambda>c. op_aligned c \<and> \<not> changes_watch c) ops"
  shows "overlay_watch_pagegen_sum lo len (fold (code_step h) ops s) =
     overlay_watch_pagegen_sum lo len s + of_nat (length (filter (hits_watched s lo len) ops))"
  using assms by (rule pagegen_steps)

lemma guard_watch_counts_witness:
  "overlay_watch_pagegen_sum 0x80000 0x1000
     (fold (code_step demo_host) [Ram_Store 4 0x80010 1, Ram_Store 1 0x90000 2, Ram_Store 2 0x80FFE 3]
        (overlay_watch_set_range 0x80000 4 demo_code)) =
   overlay_watch_pagegen_sum 0x80000 0x1000 (overlay_watch_set_range 0x80000 4 demo_code) + 2"
  using guard_watch_counts [of "0x1000" "0x80000" "[Ram_Store 4 0x80010 1, Ram_Store 1 0x90000 2, Ram_Store 2 0x80FFE 3]"
      demo_host "overlay_watch_set_range 0x80000 4 demo_code"]
  by (simp add: changes_watch_def hits_watched_def page_range_def range_end_def page_of_div
      overlay_watch_set_range_def demo_code_def bitmap_test_def bitmap_set_def Let_def)

end
