(* ===== verification/Guest_Memory.thy ===== *)
theory Guest_Memory
  imports Code_Guard
begin

text \<open>
  The guest bus: address folding and the word, half and byte accessors of
  \<open>psxrecomp/runtime/src/memory.c\<close> (\<open>psx_read_word_raw\<close> and its siblings).

  \<open>gm_code\<close> is main RAM with its code guards (theory \<open>Code_Guard\<close>); the device registers
  behind 0x1F801000 are reached through the parameter \<open>mmio_ports\<close>, whose functions may
  change the whole memory, because a register write can start a DMA transfer. Arrays are
  total functions; \<open>mem_in_bounds\<close> states which accesses stay inside the C arrays. The
  lockstep recorder around the accessors is off (\<open>g_ls_mode = 0\<close>); the debug read watch
  and the pending-cycles callback of overlays are not modelled.
\<close>

section \<open>State\<close>

record 'd guest_mem =
  gm_code :: code_mem
  gm_scratch :: "nat \<Rightarrow> u8"
  gm_cache_ctrl :: u32
  gm_sr :: "u32 option"
  gm_kseg2_reads :: u64
  gm_kseg2_writes :: u64
  gm_stores :: u64
  gm_game_started :: bool
  gm_store_pc :: u32
  gm_scratch_notes :: "(u32 \<times> u32 \<times> u32 \<times> nat) list"
  gm_precision :: "u32 list"
  gm_dev :: 'd

record 'd mmio_ports =
  mmio_read32 :: "u32 \<Rightarrow> 'd guest_mem \<Rightarrow> u32 \<times> 'd guest_mem"
  mmio_read16 :: "u32 \<Rightarrow> 'd guest_mem \<Rightarrow> u16 \<times> 'd guest_mem"
  mmio_read8 :: "u32 \<Rightarrow> 'd guest_mem \<Rightarrow> u8 \<times> 'd guest_mem"
  mmio_write32 :: "u32 \<Rightarrow> u32 \<Rightarrow> 'd guest_mem \<Rightarrow> 'd guest_mem"
  mmio_write16 :: "u32 \<Rightarrow> u16 \<Rightarrow> 'd guest_mem \<Rightarrow> 'd guest_mem"
  mmio_write8 :: "u32 \<Rightarrow> u8 \<Rightarrow> 'd guest_mem \<Rightarrow> 'd guest_mem"

abbreviation gm_ram :: "'d guest_mem \<Rightarrow> nat \<Rightarrow> u8" where "gm_ram m \<equiv> cm_ram (gm_code m)"
abbreviation gm_rom :: "'d guest_mem \<Rightarrow> nat \<Rightarrow> u8" where "gm_rom m \<equiv> cm_rom (gm_code m)"

definition psx_phys_addr :: "u32 \<Rightarrow> u32" where
  "psx_phys_addr addr = (let phys = addr AND 0x1FFFFFFF in if phys < 0x800000 then phys AND (RAM_SIZE - 1) else phys)"

definition in_exp1 :: "u32 \<Rightarrow> bool" where
  "in_exp1 phys \<longleftrightarrow> phys \<ge> 0x1F000000 \<and> phys \<le> 0x1F7FFFFF"

definition in_scratch :: "u32 \<Rightarrow> bool" where
  "in_scratch phys \<longleftrightarrow> phys \<ge> 0x1F800000 \<and> phys \<le> 0x1F8003FF"

definition in_mmio :: "u32 \<Rightarrow> bool" where
  "in_mmio phys \<longleftrightarrow> phys \<ge> 0x1F801000 \<and> phys \<le> 0x1F803FFF"

definition in_rom :: "u32 \<Rightarrow> bool" where
  "in_rom phys \<longleftrightarrow> phys \<ge> 0x1FC00000 \<and> phys \<le> 0x1FC7FFFF"

definition isolated :: "'d guest_mem \<Rightarrow> bool" where
  "isolated m \<longleftrightarrow> (case gm_sr m of None \<Rightarrow> False | Some sr \<Rightarrow> has sr 0x10000)"

section \<open>Reads\<close>

definition psx_read_word :: "'d mmio_ports \<Rightarrow> u32 \<Rightarrow> 'd guest_mem \<Rightarrow> u32 \<times> 'd guest_mem" where
  "psx_read_word io addr m =
     (if addr = 0xFFFE0130 then (gm_cache_ctrl m, m)
      else if addr \<ge> 0xC0000000 then (0, m\<lparr>gm_kseg2_reads := gm_kseg2_reads m + 1\<rparr>)
      else
        let phys = psx_phys_addr addr in
        if phys < RAM_SIZE then (get_word (gm_ram m) (unat phys), m)
        else if in_exp1 phys then (0xFFFFFFFF, m)
        else if in_scratch phys then (get_word (gm_scratch m) (unat (phys - 0x1F800000)), m)
        else if in_mmio phys then mmio_read32 io phys m
        else if in_rom phys then (get_word (gm_rom m) (unat (phys - 0x1FC00000)), m)
        else (0, m))"

definition psx_read_half :: "'d mmio_ports \<Rightarrow> u32 \<Rightarrow> 'd guest_mem \<Rightarrow> u16 \<times> 'd guest_mem" where
  "psx_read_half io addr m =
     (if addr \<ge> 0xC0000000 then (0, m\<lparr>gm_kseg2_reads := gm_kseg2_reads m + 1\<rparr>)
      else
        let phys = psx_phys_addr addr in
        if phys < RAM_SIZE then (get_half (gm_ram m) (unat phys), m)
        else if in_exp1 phys then (0xFFFF, m)
        else if in_scratch phys then (get_half (gm_scratch m) (unat (phys - 0x1F800000)), m)
        else if in_mmio phys then mmio_read16 io phys m
        else if in_rom phys then (get_half (gm_rom m) (unat (phys - 0x1FC00000)), m)
        else (0, m))"

definition psx_read_byte :: "'d mmio_ports \<Rightarrow> u32 \<Rightarrow> 'd guest_mem \<Rightarrow> u8 \<times> 'd guest_mem" where
  "psx_read_byte io addr m =
     (if addr \<ge> 0xC0000000 then (0, m\<lparr>gm_kseg2_reads := gm_kseg2_reads m + 1\<rparr>)
      else
        let phys = psx_phys_addr addr in
        if phys < RAM_SIZE then (gm_ram m (unat phys), m)
        else if in_exp1 phys then (0xFF, m)
        else if in_scratch phys then (gm_scratch m (unat (phys - 0x1F800000)), m)
        else if in_mmio phys then mmio_read8 io phys m
        else if in_rom phys then (gm_rom m (unat (phys - 0x1FC00000)), m)
        else (0, m))"

section \<open>Writes\<close>

definition count_store :: "u32 \<Rightarrow> 'd guest_mem \<Rightarrow> 'd guest_mem" where
  "count_store addr m = m\<lparr>gm_stores := gm_stores m + 1, gm_precision := addr # gm_precision m\<rparr>"

definition scratch_store :: "nat \<Rightarrow> u32 \<Rightarrow> u32 \<Rightarrow> u32 \<Rightarrow> 'd guest_mem \<Rightarrow> 'd guest_mem" where
  "scratch_store w phys old val m =
     m\<lparr>gm_scratch_notes := (phys, old, val, w) # gm_scratch_notes m,
       gm_scratch := put_bytes w val (unat (phys - 0x1F800000)) (gm_scratch m)\<rparr>"

text \<open>The BIOS stores that must stay invisible once the game runs.\<close>

definition delay_store_pcs :: "u32 list" where
  "delay_store_pcs = [0xBFC04E90, 0xBFC04EF0, 0xBFC05164, 0xBFC0D634, 0xBFC3EEB4, 0xBFC405E4,
     0xBFC40788, 0xBFC41C50, 0x80012434, 0x800125AC]"

definition low_store_hidden :: "u32 \<Rightarrow> 'd guest_mem \<Rightarrow> bool" where
  "low_store_hidden phys m \<longleftrightarrow> gm_game_started m \<and>
     (phys < 0x10 \<and> gm_store_pc m = 0xBFC10A00 \<or> phys = 0 \<and> gm_store_pc m \<in> set delay_store_pcs)"

definition card_event_rearm :: "u32 \<Rightarrow> u32 \<Rightarrow> 'd guest_mem \<Rightarrow> bool" where
  "card_event_rearm phys val m \<longleftrightarrow>
     gm_game_started m \<and> gm_store_pc m = 0xBFC117E4 \<and> val = 0x2000 \<and> phys \<ge> 4 \<and> phys + 8 < RAM_SIZE \<and>
     get_word (gm_ram m) (unat phys) = 0x4000 \<and> get_word (gm_ram m) (unat (phys - 4)) = 0xF0000011 \<and>
     get_word (gm_ram m) (unat (phys + 8)) = 0x2000 \<and>
     get_word (gm_ram m) (unat (phys + 4)) \<in> {0x4, 0x8000, 0x100, 0x200, 0x2000}"

definition psx_write_word :: "code_host \<Rightarrow> 'd mmio_ports \<Rightarrow> u32 \<Rightarrow> u32 \<Rightarrow> 'd guest_mem \<Rightarrow> 'd guest_mem" where
  "psx_write_word h io addr val m0 =
     (let m = count_store addr m0 in
      if addr = 0xFFFE0130 then m\<lparr>gm_cache_ctrl := val\<rparr>
      else if addr \<ge> 0xC0000000 then m\<lparr>gm_kseg2_writes := gm_kseg2_writes m + 1\<rparr>
      else if isolated m then m
      else
        let phys = psx_phys_addr addr in
        if low_store_hidden phys m then m
        else if phys < RAM_SIZE then
          if card_event_rearm phys val m then m else m\<lparr>gm_code := ram_store h 4 phys val (gm_code m)\<rparr>
        else if in_exp1 phys then m
        else if in_scratch phys then
          scratch_store 4 phys (get_word (gm_scratch m) (unat (phys - 0x1F800000))) val m
        else if in_mmio phys then mmio_write32 io phys val m
        else m)"

definition psx_write_half :: "code_host \<Rightarrow> 'd mmio_ports \<Rightarrow> u32 \<Rightarrow> u16 \<Rightarrow> 'd guest_mem \<Rightarrow> 'd guest_mem" where
  "psx_write_half h io addr val m0 =
     (let m = count_store addr m0 in
      if isolated m then m
      else if addr \<ge> 0xC0000000 then m\<lparr>gm_kseg2_writes := gm_kseg2_writes m + 1\<rparr>
      else
        let phys = psx_phys_addr addr in
        if phys < RAM_SIZE then m\<lparr>gm_code := ram_store h 2 phys (ucast val) (gm_code m)\<rparr>
        else if in_exp1 phys then m
        else if in_scratch phys then
          scratch_store 2 phys (ucast (get_half (gm_scratch m) (unat (phys - 0x1F800000)))) (ucast val) m
        else if in_mmio phys then mmio_write16 io phys val m
        else m)"

definition psx_write_byte :: "code_host \<Rightarrow> 'd mmio_ports \<Rightarrow> u32 \<Rightarrow> u8 \<Rightarrow> 'd guest_mem \<Rightarrow> 'd guest_mem" where
  "psx_write_byte h io addr val m0 =
     (let m = count_store addr m0 in
      if isolated m then m
      else if addr \<ge> 0xC0000000 then m\<lparr>gm_kseg2_writes := gm_kseg2_writes m + 1\<rparr>
      else
        let phys = psx_phys_addr addr in
        if phys < RAM_SIZE then m\<lparr>gm_code := ram_store h 1 phys (ucast val) (gm_code m)\<rparr>
        else if in_exp1 phys then m
        else if in_scratch phys then
          scratch_store 1 phys (ucast (gm_scratch m (unat (phys - 0x1F800000)))) (ucast val) m
        else if in_mmio phys then mmio_write8 io phys val m
        else m)"

text \<open>\<open>psx_mmio_read_wait\<close> with the default switch: the device part of a load's cost.\<close>

definition psx_mmio_read_wait :: "u32 \<Rightarrow> u32 \<Rightarrow> u32" where
  "psx_mmio_read_wait phys w =
     (if phys < 0x800000 then 3
      else if in_rom phys then 0
      else if in_exp1 phys then 0
      else if phys \<ge> 0x1F801000 \<and> phys \<le> 0x1F802FFF then
        if phys \<ge> 0x1F801C00 \<and> phys \<le> 0x1F801FFF then (if w = 4 then 36 else 16)
        else if phys \<ge> 0x1F801800 \<and> phys \<le> 0x1F80180F then 6 * w
        else if phys \<ge> 0x1F801810 \<and> phys \<le> 0x1F801817 then 1
        else if phys \<ge> 0x1F801820 \<and> phys \<le> 0x1F801827 then 1
        else if phys \<ge> 0x1F801000 \<and> phys \<le> 0x1F801023 then 1
        else if phys \<ge> 0x1F801040 \<and> phys \<le> 0x1F80104F then 1
        else if phys \<ge> 0x1F801050 \<and> phys \<le> 0x1F80105F then 1
        else if phys \<ge> 0x1F801070 \<and> phys \<le> 0x1F801077 then 1
        else if phys \<ge> 0x1F801080 \<and> phys \<le> 0x1F8010FF then 1
        else if phys \<ge> 0x1F801100 \<and> phys \<le> 0x1F80113F then 1
        else 0
      else 0)"

section \<open>Addresses\<close>

lemma unat_mod4: "(a::u32) AND 3 = 0 \<longleftrightarrow> unat a mod 4 = 0"
  using unat_and_mask [of a 2] by (simp add: mask_eq_exp_minus_1 unat_eq_zero [symmetric] del: unat_eq_zero)

lemma phys_aligned: "a AND 3 = 0 \<Longrightarrow> unat (psx_phys_addr a) mod 4 = 0"
proof -
  assume a: "a AND 3 = 0"
  then have "(a AND m) AND 3 = 0" for m
    by (metis and.assoc and.commute and_zero_eq)
  then have "((a AND m) AND n) AND 3 = 0" for m n
    by (metis and.assoc and.commute and_zero_eq)
  then show ?thesis
    using \<open>\<And>m. (a AND m) AND 3 = 0\<close> by (simp add: psx_phys_addr_def Let_def unat_mod4 [symmetric])
qed

lemma kseg2_not_ctrl: "a < (0xC0000000::u32) \<Longrightarrow> a \<noteq> 0xFFFE0130 \<and> \<not> a \<ge> 0xC0000000"
  by auto

lemma read_word_ram:
  "a < 0xC0000000 \<Longrightarrow> psx_phys_addr a < RAM_SIZE \<Longrightarrow> psx_read_word io a m = (get_word (gm_ram m) (unat (psx_phys_addr a)), m)"
  using kseg2_not_ctrl [of a] by (simp add: psx_read_word_def Let_def)

text \<open>
  Which word stores reach RAM: the cache is not isolated, and neither of the two filters on named
  BIOS stores applies. Both filters need the game to be running and the store to come from a listed
  program counter, so a store from anywhere else passes (\<open>plain_stores\<close>).
\<close>

definition visible_store :: "u32 \<Rightarrow> u32 \<Rightarrow> 'd guest_mem \<Rightarrow> bool" where
  "visible_store phys v m \<longleftrightarrow> \<not> isolated m \<and> \<not> low_store_hidden phys m \<and> \<not> card_event_rearm phys v m"

definition plain_stores :: "'d guest_mem \<Rightarrow> bool" where
  "plain_stores m \<longleftrightarrow> \<not> isolated m \<and>
     (gm_game_started m \<longrightarrow> gm_store_pc m \<notin> set (0xBFC10A00 # 0xBFC117E4 # delay_store_pcs))"

lemma plain_visible: "plain_stores m \<Longrightarrow> visible_store phys v m"
  by (auto simp: plain_stores_def visible_store_def low_store_hidden_def card_event_rearm_def)

lemma count_store_keeps [simp]:
  "isolated (count_store a m) = isolated m" "low_store_hidden p (count_store a m) = low_store_hidden p m"
  "card_event_rearm p v (count_store a m) = card_event_rearm p v m" "gm_code (count_store a m) = gm_code m"
  by (simp_all add: count_store_def isolated_def low_store_hidden_def card_event_rearm_def)

lemma plain_stores_code [simp]: "plain_stores ((count_store a m)\<lparr>gm_code := c\<rparr>) = plain_stores m"
  by (simp add: plain_stores_def count_store_def isolated_def)

lemma write_word_ram:
  assumes "a < 0xC0000000" "psx_phys_addr a < RAM_SIZE" "visible_store (psx_phys_addr a) v m"
  shows "psx_write_word h io a v m = (count_store a m)\<lparr>gm_code := ram_store h 4 (psx_phys_addr a) v (gm_code m)\<rparr>"
  using assms kseg2_not_ctrl [of a] by (simp add: psx_write_word_def Let_def visible_store_def)

lemma write_word_dropped:
  assumes "a < 0xC0000000" "psx_phys_addr a < RAM_SIZE" "\<not> visible_store (psx_phys_addr a) v m"
  shows "psx_write_word h io a v m = count_store a m"
  using assms kseg2_not_ctrl [of a] by (auto simp: psx_write_word_def Let_def visible_store_def)

lemma phys_low: "p < 0x200000 \<Longrightarrow> psx_phys_addr p = p"
proof -
  assume p: "p < 0x200000"
  have "p = take_bit 21 p" using p by (simp add: take_bit_eq_mod word_unat_eq_iff unat_mod word_less_nat_alt)
  then have "p AND 0x1FFFFF = p" by (simp add: take_bit_eq_mask mask_eq_exp_minus_1)
  moreover have "(0x1FFFFF::u32) AND 0x1FFFFFFF = 0x1FFFFF" by simp
  ultimately have "p AND 0x1FFFFFFF = p" by (metis and.assoc)
  then show ?thesis using p \<open>p AND 0x1FFFFF = p\<close> by (simp add: psx_phys_addr_def Let_def)
qed

lemma read_low: "p < 0x200000 \<Longrightarrow> psx_read_word io p m = (get_word (gm_ram m) (unat p), m)"
  using phys_low [of p] read_word_ram [of p io m] by (simp add: word_less_nat_alt)

lemma write_low:
  "p < 0x200000 \<Longrightarrow> plain_stores m \<Longrightarrow>
   psx_write_word h io p w m = (count_store p m)\<lparr>gm_code := ram_store h 4 p w (gm_code m)\<rparr>"
  using phys_low [of p] write_word_ram [of p w m h io] by (simp add: plain_visible word_less_nat_alt)

lemma aligned_apart: "p mod 4 = 0 \<Longrightarrow> q mod 4 = 0 \<Longrightarrow> p \<noteq> q \<Longrightarrow> p + 4 \<le> q \<or> q + 4 \<le> (p::nat)"
  by presburger

definition same_bytes :: "'d guest_mem \<Rightarrow> 'd guest_mem \<Rightarrow> bool" where
  "same_bytes m m' \<longleftrightarrow> gm_cache_ctrl m = gm_cache_ctrl m' \<and>
     (\<forall>i < 0x200000. gm_ram m i = gm_ram m' i) \<and> (\<forall>i < 0x400. gm_scratch m i = gm_scratch m' i) \<and>
     (\<forall>i < 0x80000. gm_rom m i = gm_rom m' i)"

lemma get_word_cong: "(\<And>i. i < n \<Longrightarrow> f i = g i) \<Longrightarrow> a + 3 < n \<Longrightarrow> get_word f a = get_word g a"
  by (simp add: get_word_def)

lemma aligned_below: "p mod 4 = 0 \<Longrightarrow> n mod 4 = 0 \<Longrightarrow> p < n \<Longrightarrow> p + 3 < (n::nat)"
  by presburger

lemma window_offset:
  assumes "lo \<le> p" "p \<le> lo + (n - 1)" "unat lo mod 4 = 0" "unat p mod 4 = 0" "unat n mod 4 = 0" "0 < n"
    "unat lo + unat n < 2 ^ 32"
  shows "unat (p - lo :: u32) + 3 < unat n"
proof -
  have n: "unat (n - 1) = unat n - 1"
    using assms(6) by (simp add: unat_minus_one word_gt_0)
  have s: "unat (p - lo) = unat p - unat lo"
    using assms(1) by (rule unat_sub)
  have "unat (lo + (n - 1)) = unat lo + (unat n - 1)"
    using assms(7) n by (simp add: unat_word_ariths)
  then have "unat p - unat lo < unat n" "unat lo \<le> unat p"
    using assms(1,2,6) by (auto simp: word_le_nat_alt word_less_nat_alt)
  moreover have "(unat p - unat lo) mod 4 = 0"
    using assms(3,4) \<open>unat lo \<le> unat p\<close> by presburger
  ultimately show ?thesis
    using assms(5) s by (metis aligned_below)
qed

lemma scratch_offset: "in_scratch p \<Longrightarrow> unat p mod 4 = 0 \<Longrightarrow> unat (p - 0x1F800000) + 3 < 0x400"
  using window_offset [of "0x1F800000" p "0x400"] by (simp add: in_scratch_def)

lemma rom_offset: "in_rom p \<Longrightarrow> unat p mod 4 = 0 \<Longrightarrow> unat (p - 0x1FC00000) + 3 < 0x80000"
  using window_offset [of "0x1FC00000" p "0x80000"] by (simp add: in_rom_def)

section \<open>Properties\<close>

definition demo_mem :: "unit guest_mem" where
  "demo_mem = \<lparr>gm_code = demo_code, gm_scratch = \<lambda>_. 0, gm_cache_ctrl = 0, gm_sr = Some 0, gm_kseg2_reads = 0,
     gm_kseg2_writes = 0, gm_stores = 0, gm_game_started = False, gm_store_pc = 0, gm_scratch_notes = [],
     gm_precision = [], gm_dev = ()\<rparr>"

definition demo_ports :: "unit mmio_ports" where
  "demo_ports = \<lparr>mmio_read32 = \<lambda>a m. (0, m), mmio_read16 = \<lambda>a m. (0, m), mmio_read8 = \<lambda>a m. (0, m),
     mmio_write32 = \<lambda>a v m. m, mmio_write16 = \<lambda>a v m. m, mmio_write8 = \<lambda>a v m. m\<rparr>"

text \<open>C3: Main RAM behaves as one array behind all its mirrors: after an aligned word write,
  an aligned word read through any segment and any of the four mirrors returns the written
  value when it folds to the same physical word and the store was visible, and the old value
  otherwise. A store is invisible exactly when the cache is isolated or one of the two filters
  on named BIOS stores, which act only while a game runs, drops it.\<close>

theorem mem_mirror_roundtrip:
  assumes "a AND 3 = 0" and "b AND 3 = 0" and "a < 0xC0000000" and "b < 0xC0000000"
    and "psx_phys_addr a < RAM_SIZE" and "psx_phys_addr b < RAM_SIZE"
  shows "fst (psx_read_word io b (psx_write_word h io a v m)) =
     (if psx_phys_addr a = psx_phys_addr b \<and> visible_store (psx_phys_addr a) v m then v else fst (psx_read_word io b m))"
proof (cases "visible_store (psx_phys_addr a) v m")
  case False
  then show ?thesis
    using assms by (simp add: read_word_ram write_word_dropped)
next
  case True
  have "unat (psx_phys_addr a) + 4 \<le> unat (psx_phys_addr b) \<or> unat (psx_phys_addr b) + 4 \<le> unat (psx_phys_addr a)"
    if "psx_phys_addr a \<noteq> psx_phys_addr b"
    using that phys_aligned [OF assms(1)] phys_aligned [OF assms(2)] aligned_apart by (metis word_unat_eq_iff)
  then show ?thesis
    using assms True by (auto simp: read_word_ram write_word_ram get_word_other)
qed

lemma mem_mirror_roundtrip_witness:
  "fst (psx_read_word demo_ports 0x807FFFF8 (psx_write_word demo_host demo_ports 0xA01FFFF8 0x12345678 demo_mem)) = 0x12345678"
proof -
  have "psx_phys_addr 0xA01FFFF8 = 0x1FFFF8" "psx_phys_addr 0x807FFFF8 = 0x1FFFF8"
    by (simp_all add: psx_phys_addr_def)
  then show ?thesis
    using mem_mirror_roundtrip [of "0xA01FFFF8" "0x807FFFF8" demo_ports demo_host "0x12345678" demo_mem]
    by (simp add: plain_visible plain_stores_def isolated_def demo_mem_def has_def)
qed

text \<open>An isolated cache shields the machine: while \<open>SR.IsC\<close> is set, no store of any
  width changes main RAM or its guards, the scratchpad, or a device.\<close>

theorem mem_isolated_stores:
  assumes "isolated m" and "m' \<in> {psx_write_word h io a v m, psx_write_half h io a x m, psx_write_byte h io a y m}"
  shows "gm_code m' = gm_code m \<and> gm_scratch m' = gm_scratch m \<and> gm_dev m' = gm_dev m"
  using assms by (auto simp: psx_write_word_def psx_write_half_def psx_write_byte_def Let_def isolated_def count_store_def)

lemma mem_isolated_stores_witness:
  "gm_scratch (psx_write_half demo_host demo_ports 0x1F800010 0xFFFF (demo_mem\<lparr>gm_sr := Some 0x10000\<rparr>)) = (\<lambda>_. 0)"
  using mem_isolated_stores [of "demo_mem\<lparr>gm_sr := Some 0x10000\<rparr>"
      "psx_write_half demo_host demo_ports 0x1F800010 0xFFFF (demo_mem\<lparr>gm_sr := Some 0x10000\<rparr>)" demo_host demo_ports "0x1F800010" 0 "0xFFFF" 0]
  by (simp add: isolated_def demo_mem_def has_def)

text \<open>Aligned word reads stay inside the C arrays: outside the device registers their
  value depends only on bytes below the sizes of RAM, scratchpad and ROM.\<close>

theorem mem_in_bounds:
  assumes "a AND 3 = 0" and "same_bytes m m'" and "\<not> in_mmio (psx_phys_addr a)"
  shows "fst (psx_read_word io a m) = fst (psx_read_word io a m')"
proof -
  let ?p = "psx_phys_addr a"
  have al: "unat ?p mod 4 = 0" by (rule phys_aligned [OF assms(1)])
  have "get_word (gm_ram m) (unat ?p) = get_word (gm_ram m') (unat ?p)" if "?p < RAM_SIZE"
    by (rule get_word_cong [where n = "0x200000"])
      (use assms(2) al that aligned_below [of "unat ?p" "0x200000"] in \<open>auto simp: same_bytes_def word_less_nat_alt\<close>)
  moreover have "get_word (gm_scratch m) (unat (?p - 0x1F800000)) = get_word (gm_scratch m') (unat (?p - 0x1F800000))" if "in_scratch ?p"
    by (rule get_word_cong [where n = "0x400"]) (use assms(2) scratch_offset [OF that al] in \<open>auto simp: same_bytes_def\<close>)
  moreover have "get_word (gm_rom m) (unat (?p - 0x1FC00000)) = get_word (gm_rom m') (unat (?p - 0x1FC00000))" if "in_rom ?p"
    by (rule get_word_cong [where n = "0x80000"]) (use assms(2) rom_offset [OF that al] in \<open>auto simp: same_bytes_def\<close>)
  ultimately show ?thesis
    using assms(2,3) by (simp add: psx_read_word_def Let_def same_bytes_def)
qed

lemma mem_in_bounds_witness:
  "fst (psx_read_word demo_ports 0x1F8003FC demo_mem) =
   fst (psx_read_word demo_ports 0x1F8003FC (demo_mem\<lparr>gm_scratch := (\<lambda>i. if i < 0x400 then 0 else 7)\<rparr>))"
  using mem_in_bounds [of "0x1F8003FC" demo_mem "demo_mem\<lparr>gm_scratch := (\<lambda>i. if i < 0x400 then 0 else 7)\<rparr>" demo_ports]
  by (simp add: same_bytes_def demo_mem_def in_mmio_def psx_phys_addr_def)

text \<open>Unaligned word reads are not checked: one at the top of RAM takes its last bytes
  from beyond the 2 MB array.\<close>

theorem mem_unaligned_overrun:
  "fst (psx_read_word io 0x801FFFFD m) =
     le_word (gm_ram m 0x1FFFFD) (gm_ram m 0x1FFFFE) (gm_ram m 0x1FFFFF) (gm_ram m 0x200000)"
proof -
  have "psx_phys_addr 0x801FFFFD = 0x1FFFFD" by (simp add: psx_phys_addr_def)
  then show ?thesis
    by (simp add: psx_read_word_def Let_def get_word_def)
qed

end
