(* ===== verification/R3000.thy ===== *)
theory R3000
  imports Guest_Memory "HOL-Library.Signed_Division"
begin

text \<open>
  The oracle interpreter of the R3000A: \<open>psxrecomp/runtime/src/psx_interpreter.c\<close>.

  \<open>interp_st\<close> is the part of \<open>CPUState\<close> the interpreter uses together with the statics of
  the file; \<open>x_bus\<close> is everything behind the bus. The bus accessors are function pointers
  of \<open>CPUState\<close> and the GTE, the devices and the interrupt registers live in other files:
  all of them are the parameter \<open>cpu_bus\<close>. Theory \<open>Guest_Memory\<close> provides the instance
  used by \<open>guest_bus\<close>.

  \<open>exec_one\<close> calls itself for the delay slot of a taken branch, so it carries fuel and
  returns \<open>None\<close> when the fuel is used up; \<open>exec_one_walled\<close> gives the fuel that is
  enough. An instruction ends in one of three ways (\<open>outcome\<close>): it falls out of the switch,
  it returns early after an exception, or it executes its delay slot and jumps. Messages to
  \<open>stderr\<close> are not modelled.
\<close>

section \<open>State\<close>

record trace_entry =
  te_pc :: u32
  te_insn :: u32
  te_gpr :: "nat \<Rightarrow> u32"
  te_hi :: u32
  te_lo :: u32
  te_sr :: u32
  te_cause :: u32
  te_epc :: u32
  te_seq :: u64

record 'm interp_st =
  x_gpr :: "nat \<Rightarrow> u32"
  x_pc :: u32
  x_hi :: u32
  x_lo :: u32
  x_cop0 :: "nat \<Rightarrow> u32"
  x_load_reg :: nat
  x_load_val :: u32
  x_vblank_count :: u32
  x_hit_bp :: bool
  x_trace_on :: bool
  x_halted :: bool
  x_bps :: "u32 list"
  x_trace :: "nat \<Rightarrow> trace_entry"
  x_trace_seq :: u64
  x_trace_idx :: u32
  x_bus :: 'm

record 'm cpu_bus =
  bus_read_word :: "u32 \<Rightarrow> 'm \<Rightarrow> u32 \<times> 'm"
  bus_read_half :: "u32 \<Rightarrow> 'm \<Rightarrow> u16 \<times> 'm"
  bus_read_byte :: "u32 \<Rightarrow> 'm \<Rightarrow> u8 \<times> 'm"
  bus_write_word :: "u32 \<Rightarrow> u32 \<Rightarrow> 'm \<Rightarrow> 'm"
  bus_write_half :: "u32 \<Rightarrow> u16 \<Rightarrow> 'm \<Rightarrow> 'm"
  bus_write_byte :: "u32 \<Rightarrow> u8 \<Rightarrow> 'm \<Rightarrow> 'm"
  gte_read_data :: "nat \<Rightarrow> 'm \<Rightarrow> u32 \<times> 'm"
  gte_read_ctrl :: "nat \<Rightarrow> 'm \<Rightarrow> u32 \<times> 'm"
  gte_write_data :: "nat \<Rightarrow> u32 \<Rightarrow> 'm \<Rightarrow> 'm"
  gte_write_ctrl :: "nat \<Rightarrow> u32 \<Rightarrow> 'm \<Rightarrow> 'm"
  gte_execute :: "u32 \<Rightarrow> 'm \<Rightarrow> 'm"
  gte_store_note :: "u32 \<Rightarrow> nat \<Rightarrow> 'm \<Rightarrow> 'm"
  dev_sio_tick :: "'m \<Rightarrow> 'm"
  dev_vblank :: "'m \<Rightarrow> 'm"
  irq_pending :: "'m \<Rightarrow> u32"

datatype 'm outcome =
    Next "'m interp_st"
  | Trap "'m interp_st"
  | Branch u32 "'m interp_st"

section \<open>Decoding\<close>

definition op_of :: "u32 \<Rightarrow> u32" where "op_of i = drop_bit 26 i AND 0x3F"
definition rs_of :: "u32 \<Rightarrow> nat" where "rs_of i = unat (drop_bit 21 i AND 0x1F)"
definition rt_of :: "u32 \<Rightarrow> nat" where "rt_of i = unat (drop_bit 16 i AND 0x1F)"
definition rd_of :: "u32 \<Rightarrow> nat" where "rd_of i = unat (drop_bit 11 i AND 0x1F)"
definition sa_of :: "u32 \<Rightarrow> nat" where "sa_of i = unat (drop_bit 6 i AND 0x1F)"
definition func_of :: "u32 \<Rightarrow> u32" where "func_of i = i AND 0x3F"
definition imm_of :: "u32 \<Rightarrow> u32" where "imm_of i = ucast (ucast i :: u16)"
definition simm_of :: "u32 \<Rightarrow> u32" where "simm_of i = scast (ucast i :: u16)"
definition jtarget :: "u32 \<Rightarrow> u32 \<Rightarrow> u32" where
  "jtarget i pc = ((pc + 4) AND 0xF0000000) OR push_bit 2 (i AND 0x03FFFFFF)"
definition branch_target :: "u32 \<Rightarrow> u32 \<Rightarrow> u32" where
  "branch_target i pc = pc + 4 + push_bit 2 (simm_of i)"

section \<open>Registers, load delay, exceptions\<close>

definition set_reg :: "nat \<Rightarrow> u32 \<Rightarrow> 'm interp_st \<Rightarrow> 'm interp_st" where
  "set_reg r v s = (if r \<noteq> 0 then s\<lparr>x_gpr := (x_gpr s)(r := v)\<rparr> else s)"

definition apply_load_delay :: "'m interp_st \<Rightarrow> 'm interp_st" where
  "apply_load_delay s =
     (if x_load_reg s \<noteq> 0
      then s\<lparr>x_gpr := (x_gpr s)(x_load_reg s := x_load_val s), x_load_reg := 0\<rparr> else s)"

definition set_load_delay :: "nat \<Rightarrow> u32 \<Rightarrow> 'm interp_st \<Rightarrow> 'm interp_st" where
  "set_load_delay r v s = s\<lparr>x_load_reg := r, x_load_val := v\<rparr>"

definition sr_push :: "u32 \<Rightarrow> u32" where
  "sr_push sr = (sr AND NOT 0x3F) OR push_bit 2 (sr AND 0x0F)"

definition sr_pop :: "u32 \<Rightarrow> u32" where
  "sr_pop sr = (sr AND 0xFFFFFFC0) OR (drop_bit 2 sr AND 0x0F)"

definition exc_vector :: "u32 \<Rightarrow> u32" where
  "exc_vector sr = (if has sr 0x00400000 then 0xBFC00180 else 0x80000080)"

definition raise_exception :: "u32 \<Rightarrow> bool \<Rightarrow> 'm interp_st \<Rightarrow> 'm interp_st" where
  "raise_exception exccode in_delay s =
     (let sr = x_cop0 s 12;
          cause = (x_cop0 s 13 AND NOT 0x7C) OR push_bit 2 exccode;
          cause1 = (if in_delay then cause OR 0x80000000 else cause AND NOT 0x80000000);
          epc = (if in_delay then x_pc s - 4 else x_pc s)
      in s\<lparr>x_cop0 := (x_cop0 s)(12 := sr_push sr, 13 := cause1, 14 := epc), x_pc := exc_vector sr\<rparr>)"

section \<open>Bus accesses\<close>

definition read_word :: "'m cpu_bus \<Rightarrow> u32 \<Rightarrow> 'm interp_st \<Rightarrow> u32 \<times> 'm interp_st" where
  "read_word b a s = (let (v, m) = bus_read_word b a (x_bus s) in (v, s\<lparr>x_bus := m\<rparr>))"

definition read_half :: "'m cpu_bus \<Rightarrow> u32 \<Rightarrow> 'm interp_st \<Rightarrow> u16 \<times> 'm interp_st" where
  "read_half b a s = (let (v, m) = bus_read_half b a (x_bus s) in (v, s\<lparr>x_bus := m\<rparr>))"

definition read_byte8 :: "'m cpu_bus \<Rightarrow> u32 \<Rightarrow> 'm interp_st \<Rightarrow> u8 \<times> 'm interp_st" where
  "read_byte8 b a s = (let (v, m) = bus_read_byte b a (x_bus s) in (v, s\<lparr>x_bus := m\<rparr>))"

definition upd_bus :: "('m \<Rightarrow> 'm) \<Rightarrow> 'm interp_st \<Rightarrow> 'm interp_st" where
  "upd_bus f s = s\<lparr>x_bus := f (x_bus s)\<rparr>"

definition rd_gte :: "(nat \<Rightarrow> 'm \<Rightarrow> u32 \<times> 'm) \<Rightarrow> nat \<Rightarrow> 'm interp_st \<Rightarrow> u32 \<times> 'm interp_st" where
  "rd_gte f n s = (let (v, m) = f n (x_bus s) in (v, s\<lparr>x_bus := m\<rparr>))"

section \<open>Instructions\<close>

definition mult_s :: "u32 \<Rightarrow> u32 \<Rightarrow> 'm interp_st \<Rightarrow> 'm interp_st" where
  "mult_s rs rt s = (let r = sint rs * sint rt in s\<lparr>x_lo := word_of_int r, x_hi := word_of_int (drop_bit 32 r)\<rparr>)"

definition mult_u :: "u32 \<Rightarrow> u32 \<Rightarrow> 'm interp_st \<Rightarrow> 'm interp_st" where
  "mult_u rs rt s = (let r = (ucast rs :: u64) * ucast rt in s\<lparr>x_lo := ucast r, x_hi := ucast (drop_bit 32 r)\<rparr>)"

definition div_s :: "u32 \<Rightarrow> u32 \<Rightarrow> 'm interp_st \<Rightarrow> 'm interp_st" where
  "div_s rs rt s =
     (if rt = 0 then s\<lparr>x_lo := (if has rs 0x80000000 then 1 else 0xFFFFFFFF), x_hi := rs\<rparr>
      else if rs = 0x80000000 \<and> rt = 0xFFFFFFFF then s\<lparr>x_lo := 0x80000000, x_hi := 0\<rparr>
      else s\<lparr>x_lo := word_of_int (sint rs sdiv sint rt), x_hi := word_of_int (sint rs smod sint rt)\<rparr>)"

definition div_u :: "u32 \<Rightarrow> u32 \<Rightarrow> 'm interp_st \<Rightarrow> 'm interp_st" where
  "div_u rs rt s =
     (if rt = 0 then s\<lparr>x_lo := 0xFFFFFFFF, x_hi := rs\<rparr>
      else s\<lparr>x_lo := rs div rt, x_hi := rs mod rt\<rparr>)"

definition in_int32 :: "int \<Rightarrow> bool" where
  "in_int32 r \<longleftrightarrow> - 2147483648 \<le> r \<and> r \<le> 2147483647"

text \<open>ADD, SUB and ADDI: the sum is written unless it leaves the 32-bit range.\<close>

definition trapping :: "int \<Rightarrow> nat \<Rightarrow> 'm interp_st \<Rightarrow> 'm outcome" where
  "trapping r rd s = (if in_int32 r then Next (set_reg rd (word_of_int r) s) else Trap (raise_exception 12 False s))"

definition exec_special :: "u32 \<Rightarrow> u32 \<Rightarrow> 'm interp_st \<Rightarrow> 'm outcome" where
  "exec_special insn pc s =
     (let f = func_of insn; rd = rd_of insn; sa = sa_of insn;
          rs = x_gpr s (rs_of insn); rt = x_gpr s (rt_of insn)
      in if f = 0x00 then Next (set_reg rd (push_bit sa rt) s)
         else if f = 0x02 then Next (set_reg rd (drop_bit sa rt) s)
         else if f = 0x03 then Next (set_reg rd (signed_drop_bit sa rt) s)
         else if f = 0x04 then Next (set_reg rd (push_bit (unat (rs AND 31)) rt) s)
         else if f = 0x06 then Next (set_reg rd (drop_bit (unat (rs AND 31)) rt) s)
         else if f = 0x07 then Next (set_reg rd (signed_drop_bit (unat (rs AND 31)) rt) s)
         else if f = 0x08 then Branch rs s
         else if f = 0x09 then Branch rs (set_reg rd (pc + 8) s)
         else if f = 0x0C then Trap (raise_exception 8 False s)
         else if f = 0x0D then Trap (raise_exception 9 False s)
         else if f = 0x10 then Next (set_reg rd (x_hi s) s)
         else if f = 0x11 then Next (s\<lparr>x_hi := rs\<rparr>)
         else if f = 0x12 then Next (set_reg rd (x_lo s) s)
         else if f = 0x13 then Next (s\<lparr>x_lo := rs\<rparr>)
         else if f = 0x18 then Next (mult_s rs rt s)
         else if f = 0x19 then Next (mult_u rs rt s)
         else if f = 0x1A then Next (div_s rs rt s)
         else if f = 0x1B then Next (div_u rs rt s)
         else if f = 0x20 then trapping (sint rs + sint rt) rd s
         else if f = 0x21 then Next (set_reg rd (rs + rt) s)
         else if f = 0x22 then trapping (sint rs - sint rt) rd s
         else if f = 0x23 then Next (set_reg rd (rs - rt) s)
         else if f = 0x24 then Next (set_reg rd (rs AND rt) s)
         else if f = 0x25 then Next (set_reg rd (rs OR rt) s)
         else if f = 0x26 then Next (set_reg rd (rs XOR rt) s)
         else if f = 0x27 then Next (set_reg rd (NOT (rs OR rt)) s)
         else if f = 0x2A then Next (set_reg rd (if sint rs < sint rt then 1 else 0) s)
         else if f = 0x2B then Next (set_reg rd (if rs < rt then 1 else 0) s)
         else Next s)"

definition exec_regimm :: "u32 \<Rightarrow> u32 \<Rightarrow> 'm interp_st \<Rightarrow> 'm outcome" where
  "exec_regimm insn pc s =
     (let rt = rt_of insn; rs = x_gpr s (rs_of insn);
          link = bit insn 20;
          cond = (if bit insn 16 then sint rs \<ge> 0 else sint rs < 0);
          s1 = (if link then set_reg 31 (pc + 8) s else s)
      in if cond then Branch (branch_target insn pc) s1 else Next s1)"

definition cond_branch :: "bool \<Rightarrow> u32 \<Rightarrow> u32 \<Rightarrow> 'm interp_st \<Rightarrow> 'm outcome" where
  "cond_branch c insn pc s = (if c then Branch (branch_target insn pc) s else Next s)"

definition exec_immediate :: "u32 \<Rightarrow> u32 \<Rightarrow> 'm interp_st \<Rightarrow> 'm outcome" where
  "exec_immediate op insn s =
     (let rs = x_gpr s (rs_of insn); rt = rt_of insn
      in if op = 0x08 then trapping (sint rs + sint (simm_of insn)) rt s
         else if op = 0x09 then Next (set_reg rt (rs + simm_of insn) s)
         else if op = 0x0A then Next (set_reg rt (if sint rs < sint (simm_of insn) then 1 else 0) s)
         else if op = 0x0B then Next (set_reg rt (if rs < simm_of insn then 1 else 0) s)
         else if op = 0x0C then Next (set_reg rt (rs AND imm_of insn) s)
         else if op = 0x0D then Next (set_reg rt (rs OR imm_of insn) s)
         else if op = 0x0E then Next (set_reg rt (rs XOR imm_of insn) s)
         else Next (set_reg rt (push_bit 16 (imm_of insn)) s))"

definition exec_cop0 :: "u32 \<Rightarrow> 'm interp_st \<Rightarrow> 'm outcome" where
  "exec_cop0 insn s =
     (let c = rs_of insn
      in if c = 0x00 then Next (set_load_delay (rt_of insn) (x_cop0 s (rd_of insn)) s)
         else if c = 0x04 then Next (s\<lparr>x_cop0 := (x_cop0 s)(rd_of insn := x_gpr s (rt_of insn))\<rparr>)
         else if c = 0x10 then
           (if func_of insn = 0x10 then Next (s\<lparr>x_cop0 := (x_cop0 s)(12 := sr_pop (x_cop0 s 12))\<rparr>) else Next s)
         else Next s)"

definition exec_cop2 :: "'m cpu_bus \<Rightarrow> u32 \<Rightarrow> 'm interp_st \<Rightarrow> 'm outcome" where
  "exec_cop2 b insn s =
     (let c = rs_of insn; rt = rt_of insn; rd = rd_of insn
      in if c = 0x00 then (let (v, s1) = rd_gte (gte_read_data b) rd s in Next (set_load_delay rt v s1))
         else if c = 0x02 then (let (v, s1) = rd_gte (gte_read_ctrl b) rd s in Next (set_load_delay rt v s1))
         else if c = 0x04 then Next (upd_bus (gte_write_data b rd (x_gpr s rt)) s)
         else if c = 0x06 then Next (upd_bus (gte_write_ctrl b rd (x_gpr s rt)) s)
         else if bit insn 25 then Next (upd_bus (gte_execute b (insn AND 0x1FFFFFF)) s)
         else Next s)"

definition lwl_merge :: "u32 \<Rightarrow> u32 \<Rightarrow> u32 \<Rightarrow> u32" where
  "lwl_merge addr word cur =
     (let n = addr AND 3
      in if n = 0 then (cur AND 0x00FFFFFF) OR push_bit 24 word
         else if n = 1 then (cur AND 0x0000FFFF) OR push_bit 16 word
         else if n = 2 then (cur AND 0x000000FF) OR push_bit 8 word
         else word)"

definition lwr_merge :: "u32 \<Rightarrow> u32 \<Rightarrow> u32 \<Rightarrow> u32" where
  "lwr_merge addr word cur =
     (let n = addr AND 3
      in if n = 0 then word
         else if n = 1 then (cur AND 0xFF000000) OR drop_bit 8 word
         else if n = 2 then (cur AND 0xFFFF0000) OR drop_bit 16 word
         else (cur AND 0xFFFFFF00) OR drop_bit 24 word)"

definition swl_merge :: "u32 \<Rightarrow> u32 \<Rightarrow> u32 \<Rightarrow> u32" where
  "swl_merge addr rt cur =
     (let n = addr AND 3
      in if n = 0 then (cur AND 0xFFFFFF00) OR drop_bit 24 rt
         else if n = 1 then (cur AND 0xFFFF0000) OR drop_bit 16 rt
         else if n = 2 then (cur AND 0xFF000000) OR drop_bit 8 rt
         else rt)"

definition swr_merge :: "u32 \<Rightarrow> u32 \<Rightarrow> u32 \<Rightarrow> u32" where
  "swr_merge addr rt cur =
     (let n = addr AND 3
      in if n = 0 then rt
         else if n = 1 then (cur AND 0x000000FF) OR push_bit 8 rt
         else if n = 2 then (cur AND 0x0000FFFF) OR push_bit 16 rt
         else (cur AND 0x00FFFFFF) OR push_bit 24 rt)"

definition exec_load :: "'m cpu_bus \<Rightarrow> u32 \<Rightarrow> u32 \<Rightarrow> 'm interp_st \<Rightarrow> 'm outcome" where
  "exec_load b op insn s =
     (let rt = rt_of insn; addr = x_gpr s (rs_of insn) + simm_of insn
      in if op = 0x20 then (let (v, s1) = read_byte8 b addr s in Next (set_load_delay rt (scast v) s1))
         else if op = 0x21 then (let (v, s1) = read_half b addr s in Next (set_load_delay rt (scast v) s1))
         else if op = 0x22 then
           (let (w, s1) = read_word b (addr AND NOT 3) s in Next (set_reg rt (lwl_merge addr w (x_gpr s1 rt)) s1))
         else if op = 0x23 then (let (v, s1) = read_word b addr s in Next (set_load_delay rt v s1))
         else if op = 0x24 then (let (v, s1) = read_byte8 b addr s in Next (set_load_delay rt (ucast v) s1))
         else if op = 0x25 then (let (v, s1) = read_half b addr s in Next (set_load_delay rt (ucast v) s1))
         else (let (w, s1) = read_word b (addr AND NOT 3) s in Next (set_reg rt (lwr_merge addr w (x_gpr s1 rt)) s1)))"

definition exec_store :: "'m cpu_bus \<Rightarrow> u32 \<Rightarrow> u32 \<Rightarrow> 'm interp_st \<Rightarrow> 'm outcome" where
  "exec_store b op insn s =
     (let rt = x_gpr s (rt_of insn); addr = x_gpr s (rs_of insn) + simm_of insn; al = addr AND NOT 3
      in if op = 0x28 then Next (upd_bus (bus_write_byte b addr (ucast rt)) s)
         else if op = 0x29 then Next (upd_bus (bus_write_half b addr (ucast rt)) s)
         else if op = 0x2A then
           (let (cur, s1) = read_word b al s in Next (upd_bus (bus_write_word b al (swl_merge addr rt cur)) s1))
         else if op = 0x2B then Next (upd_bus (bus_write_word b addr rt) s)
         else (let (cur, s1) = read_word b al s in Next (upd_bus (bus_write_word b al (swr_merge addr rt cur)) s1)))"

definition exec_gte_mem :: "'m cpu_bus \<Rightarrow> u32 \<Rightarrow> u32 \<Rightarrow> 'm interp_st \<Rightarrow> 'm outcome" where
  "exec_gte_mem b op insn s =
     (let rt = rt_of insn; addr = x_gpr s (rs_of insn) + simm_of insn
      in if op = 0x32 then (let (v, s1) = read_word b addr s in Next (upd_bus (gte_write_data b rt v) s1))
         else (let (v, s1) = rd_gte (gte_read_data b) rt s;
                   s2 = upd_bus (bus_write_word b addr v) s1
               in Next (upd_bus (gte_store_note b addr rt) s2)))"

text \<open>The switch on the opcode; \<open>pc\<close> is the address of the instruction.\<close>

definition exec_insn :: "'m cpu_bus \<Rightarrow> u32 \<Rightarrow> u32 \<Rightarrow> 'm interp_st \<Rightarrow> 'm outcome" where
  "exec_insn b insn pc s =
     (let op = op_of insn; rs = x_gpr s (rs_of insn); rt = x_gpr s (rt_of insn)
      in if op = 0x00 then exec_special insn pc s
         else if op = 0x01 then exec_regimm insn pc s
         else if op = 0x02 then Branch (jtarget insn pc) s
         else if op = 0x03 then Branch (jtarget insn pc) (set_reg 31 (pc + 8) s)
         else if op = 0x04 then cond_branch (rs = rt) insn pc s
         else if op = 0x05 then cond_branch (rs \<noteq> rt) insn pc s
         else if op = 0x06 then cond_branch (sint rs \<le> 0) insn pc s
         else if op = 0x07 then cond_branch (sint rs > 0) insn pc s
         else if op \<ge> 0x08 \<and> op \<le> 0x0F then exec_immediate op insn s
         else if op = 0x10 then exec_cop0 insn s
         else if op = 0x12 then exec_cop2 b insn s
         else if op \<ge> 0x20 \<and> op \<le> 0x26 then exec_load b op insn s
         else if op = 0x28 \<or> op = 0x29 \<or> op = 0x2A \<or> op = 0x2B \<or> op = 0x2E then exec_store b op insn s
         else if op = 0x32 \<or> op = 0x3A then exec_gte_mem b op insn s
         else Next s)"

section \<open>One instruction\<close>

definition trace_record :: "u32 \<Rightarrow> 'm interp_st \<Rightarrow> 'm interp_st" where
  "trace_record insn s =
     s\<lparr>x_trace := (x_trace s)(unat (x_trace_idx s) :=
         \<lparr>te_pc = x_pc s, te_insn = insn, te_gpr = x_gpr s, te_hi = x_hi s, te_lo = x_lo s,
          te_sr = x_cop0 s 12, te_cause = x_cop0 s 13, te_epc = x_cop0 s 14, te_seq = x_trace_seq s\<rparr>),
       x_trace_seq := x_trace_seq s + 1, x_trace_idx := (x_trace_idx s + 1) AND 0xFFFFF\<rparr>"

text \<open>Fetch, trace, advance the program counter and commit the pending load.\<close>

definition fetch :: "'m cpu_bus \<Rightarrow> 'm interp_st \<Rightarrow> u32 \<times> 'm interp_st" where
  "fetch b s =
     (let (insn, s1) = read_word b (x_pc s) s;
          s2 = (if x_trace_on s1 then trace_record insn s1 else s1);
          s3 = s2\<lparr>x_pc := x_pc s + 4\<rparr>
      in (insn, apply_load_delay s3))"

fun exec_one :: "'m cpu_bus \<Rightarrow> nat \<Rightarrow> 'm interp_st \<Rightarrow> 'm interp_st option" where
  "exec_one b 0 s = None"
| "exec_one b (Suc n) s =
     (if x_pc s = 0 then Some (s\<lparr>x_halted := True\<rparr>)
      else
        let (insn, s1) = fetch b s
        in case exec_insn b insn (x_pc s) s1 of
             Next s2 \<Rightarrow> Some (s2\<lparr>x_gpr := (x_gpr s2)(0 := 0)\<rparr>)
           | Trap s2 \<Rightarrow> Some s2
           | Branch target s2 \<Rightarrow> map_option (\<lambda>s3. s3\<lparr>x_pc := target\<rparr>) (exec_one b n s2))"

section \<open>Interrupts and stepping\<close>

definition fire_interrupt :: "'m interp_st \<Rightarrow> 'm interp_st" where
  "fire_interrupt s =
     (let sr = x_cop0 s 12
      in s\<lparr>x_cop0 := (x_cop0 s)(13 := (x_cop0 s 13 AND NOT 0x7C) OR push_bit 10 1, 12 := sr_push sr, 14 := x_pc s),
           x_pc := exc_vector sr\<rparr>)"

definition interp_check_interrupts :: "'m cpu_bus \<Rightarrow> 'm interp_st \<Rightarrow> 'm interp_st" where
  "interp_check_interrupts b s =
     (let s1 = upd_bus (dev_sio_tick b) s;
          s2 = s1\<lparr>x_vblank_count := x_vblank_count s1 + 1\<rparr>;
          s3 = (if x_vblank_count s2 \<ge> 50000 then upd_bus (dev_vblank b) (s2\<lparr>x_vblank_count := 0\<rparr>) else s2);
          sr = x_cop0 s3 12
      in if irq_pending b (x_bus s3) = 0 then s3
         else if \<not> bit sr 0 then s3
         else if \<not> bit sr 10 then s3
         else fire_interrupt s3)"

text \<open>The loop of \<open>interp_step\<close> with \<open>k\<close> iterations left; each instruction gets \<open>fuel\<close>.\<close>

fun step_loop :: "'m cpu_bus \<Rightarrow> nat \<Rightarrow> nat \<Rightarrow> u32 \<Rightarrow> 'm interp_st \<Rightarrow> (u32 \<times> 'm interp_st) option" where
  "step_loop b fuel 0 executed s = Some (executed, s)"
| "step_loop b fuel (Suc k) executed s =
     (if x_pc s \<in> set (x_bps s) then Some (executed, s\<lparr>x_hit_bp := True\<rparr>)
      else case exec_one b fuel s of
             None \<Rightarrow> None
           | Some s1 \<Rightarrow>
               let ex = executed + 1
               in if x_halted s1 then Some (ex, s1)
                  else step_loop b fuel k ex (if ex AND 0xF = 0 then interp_check_interrupts b s1 else s1))"

definition interp_step :: "'m cpu_bus \<Rightarrow> nat \<Rightarrow> u32 \<Rightarrow> 'm interp_st \<Rightarrow> (u32 \<times> 'm interp_st) option" where
  "interp_step b fuel count s = step_loop b fuel (unat count) 0 (s\<lparr>x_hit_bp := False\<rparr>)"

definition interp_run :: "'m cpu_bus \<Rightarrow> nat \<Rightarrow> u32 \<Rightarrow> 'm interp_st \<Rightarrow> (u32 \<times> 'm interp_st) option" where
  "interp_run b fuel max_instructions s = interp_step b fuel max_instructions s"

section \<open>Start-up, breakpoints, trace\<close>

definition zero_trace_entry :: trace_entry where
  "zero_trace_entry = \<lparr>te_pc = 0, te_insn = 0, te_gpr = (\<lambda>_. 0), te_hi = 0, te_lo = 0, te_sr = 0, te_cause = 0,
     te_epc = 0, te_seq = 0\<rparr>"

definition interp_init :: "'m interp_st \<Rightarrow> 'm interp_st" where
  "interp_init s = s\<lparr>x_hit_bp := False, x_trace_on := False, x_halted := False, x_bps := [], x_trace_seq := 0,
     x_trace_idx := 0, x_load_reg := 0, x_load_val := 0, x_vblank_count := 0, x_trace := (\<lambda>_. zero_trace_entry)\<rparr>"

definition interp_break_add :: "u32 \<Rightarrow> 'm interp_st \<Rightarrow> int \<times> 'm interp_st" where
  "interp_break_add pc s =
     (if length (x_bps s) \<ge> 64 then (-1, s) else (int (length (x_bps s)), s\<lparr>x_bps := x_bps s @ [pc]\<rparr>))"

text \<open>Removal moves the last breakpoint into the hole of the first match.\<close>

definition interp_break_remove :: "u32 \<Rightarrow> 'm interp_st \<Rightarrow> bool \<times> 'm interp_st" where
  "interp_break_remove pc s =
     (let i = length (takeWhile (\<lambda>x. x \<noteq> pc) (x_bps s))
      in if i < length (x_bps s) then (True, s\<lparr>x_bps := butlast ((x_bps s)[i := last (x_bps s)])\<rparr>) else (False, s))"

definition interp_break_clear_all :: "'m interp_st \<Rightarrow> 'm interp_st" where
  "interp_break_clear_all s = s\<lparr>x_bps := []\<rparr>"

definition interp_trace_enable :: "bool \<Rightarrow> 'm interp_st \<Rightarrow> 'm interp_st" where
  "interp_trace_enable on s = s\<lparr>x_trace_on := on\<rparr>"

definition interp_trace_get :: "u32 \<Rightarrow> 'm interp_st \<Rightarrow> trace_entry option" where
  "interp_trace_get ring_idx s =
     (let avail = (if x_trace_seq s < 0x100000 then ucast (x_trace_seq s) else 0x100000)
      in if ring_idx \<ge> 0x100000 \<or> ring_idx \<ge> avail then None
         else Some (x_trace s (unat ((x_trace_idx s - avail + ring_idx) AND 0xFFFFF))))"

section \<open>The guest memory as a bus\<close>

definition guest_bus :: "code_host \<Rightarrow> 'd mmio_ports \<Rightarrow> 'd guest_mem cpu_bus \<Rightarrow> 'd guest_mem cpu_bus" where
  "guest_bus h io b = b\<lparr>bus_read_word := psx_read_word io, bus_read_half := psx_read_half io,
     bus_read_byte := psx_read_byte io, bus_write_word := psx_write_word h io,
     bus_write_half := psx_write_half h io, bus_write_byte := psx_write_byte h io\<rparr>"

section \<open>Registers stay in their arrays\<close>

fun outcome_st :: "'m outcome \<Rightarrow> 'm interp_st" where
  "outcome_st (Next s) = s"
| "outcome_st (Trap s) = s"
| "outcome_st (Branch t s) = s"

definition reg_frame :: "'m interp_st \<Rightarrow> 'm interp_st \<Rightarrow> bool" where
  "reg_frame s s' \<longleftrightarrow> x_gpr s' 0 = x_gpr s 0 \<and> (\<forall>r \<ge> 32. x_gpr s' r = x_gpr s r \<and> x_cop0 s' r = x_cop0 s r) \<and>
     (x_load_reg s < 32 \<longrightarrow> x_load_reg s' < 32)"

lemma reg_frame_refl [simp]: "reg_frame s s"
  by (simp add: reg_frame_def)

lemma reg_frame_trans: "reg_frame s t \<Longrightarrow> reg_frame t u \<Longrightarrow> reg_frame s u"
  by (simp add: reg_frame_def)

lemma five_bits: "unat ((w::u32) AND 0x1F) < 32"
  using unat_and_mask [of w 5] by (simp add: mask_eq_exp_minus_1)

lemma reg_fields [simp]: "rs_of i < 32" "rt_of i < 32" "rd_of i < 32" "sa_of i < 32"
  by (simp_all add: rs_of_def rt_of_def rd_of_def sa_of_def five_bits)

lemma reg_fields_ne [simp]: "r \<ge> 32 \<Longrightarrow> r \<noteq> rt_of i" "r \<ge> 32 \<Longrightarrow> r \<noteq> rd_of i"
  using reg_fields [of i] by linarith+

lemma reg_frame_set_reg [simp]: "r < 32 \<Longrightarrow> reg_frame s (set_reg r v s)"
  by (simp add: reg_frame_def set_reg_def)

lemma reg_frame_trap [simp]: "reg_frame s (raise_exception e d s)"
  by (simp add: reg_frame_def raise_exception_def Let_def)

lemma reg_frame_trapping [simp]: "r < 32 \<Longrightarrow> reg_frame s (outcome_st (trapping x r s))"
  by (simp add: trapping_def)

lemma reg_frame_hilo [simp]:
  "reg_frame s (mult_s a b s)" "reg_frame s (mult_u a b s)" "reg_frame s (div_s a b s)" "reg_frame s (div_u a b s)"
  "reg_frame s (s\<lparr>x_hi := h\<rparr>)" "reg_frame s (s\<lparr>x_lo := l\<rparr>)"
  by (simp_all add: reg_frame_def mult_s_def mult_u_def div_s_def div_u_def Let_def)

lemma reg_frame_special: "reg_frame s (outcome_st (exec_special insn pc s))"
  by (simp add: exec_special_def Let_def)

lemma reg_frame_regimm: "reg_frame s (outcome_st (exec_regimm insn pc s))"
  by (simp add: exec_regimm_def Let_def)

lemma reg_frame_cond: "outcome_st (cond_branch c insn pc s) = s"
  by (simp add: cond_branch_def)

lemma reg_frame_immediate: "reg_frame s (outcome_st (exec_immediate op insn s))"
  by (simp add: exec_immediate_def Let_def)

lemma reg_frame_load_delay [simp]: "r < 32 \<Longrightarrow> reg_frame s t \<Longrightarrow> reg_frame s (set_load_delay r v t)"
  by (simp add: reg_frame_def set_load_delay_def)

lemma reg_frame_set_reg' [simp]: "r < 32 \<Longrightarrow> reg_frame s t \<Longrightarrow> reg_frame s (set_reg r v t)"
  using reg_frame_trans reg_frame_set_reg by blast

lemma reg_frame_bus [simp]: "reg_frame s (t\<lparr>x_bus := m\<rparr>) = reg_frame s t" "reg_frame s (upd_bus f t) = reg_frame s t"
  by (simp_all add: reg_frame_def upd_bus_def)

lemma reg_frame_cop0: "reg_frame s (outcome_st (exec_cop0 insn s))"
  by (simp add: exec_cop0_def Let_def) (simp add: reg_frame_def)

lemma reg_frame_cop2: "reg_frame s (outcome_st (exec_cop2 b insn s))"
  by (simp add: exec_cop2_def Let_def rd_gte_def split: prod.split)

lemma reg_frame_load: "reg_frame s (outcome_st (exec_load b op insn s))"
  by (simp add: exec_load_def Let_def read_word_def read_half_def read_byte8_def split: prod.split)

lemma reg_frame_store: "reg_frame s (outcome_st (exec_store b op insn s))"
  by (simp add: exec_store_def Let_def read_word_def split: prod.split)

lemma reg_frame_gte_mem: "reg_frame s (outcome_st (exec_gte_mem b op insn s))"
  by (simp add: exec_gte_mem_def Let_def read_word_def rd_gte_def split: prod.split)

lemma reg_frame_insn: "reg_frame s (outcome_st (exec_insn b insn pc s))"
  by (simp add: exec_insn_def Let_def reg_frame_special reg_frame_regimm reg_frame_cond reg_frame_immediate
      reg_frame_cop0 reg_frame_cop2 reg_frame_load reg_frame_store reg_frame_gte_mem)

lemma reg_frame_fetch: "x_load_reg s < 32 \<Longrightarrow> reg_frame s (snd (fetch b s))"
  by (auto simp: fetch_def read_word_def apply_load_delay_def trace_record_def reg_frame_def Let_def split: prod.split)

definition regs_ok :: "'m interp_st \<Rightarrow> bool" where
  "regs_ok s \<longleftrightarrow> x_gpr s 0 = 0 \<and> x_load_reg s < 32"

lemma exec_one_frame:
  "exec_one b n s = Some s' \<Longrightarrow> regs_ok s \<Longrightarrow> reg_frame s s' \<and> regs_ok s'"
proof (induction b n s arbitrary: s' rule: exec_one.induct)
  case (2 b n s)
  show ?case
  proof (cases "x_pc s = 0")
    case True
    then show ?thesis using 2 by (auto simp: regs_ok_def reg_frame_def)
  next
    case False
    obtain insn s1 where f: "fetch b s = (insn, s1)" by (metis prod.exhaust)
    have "reg_frame s s1"
      using reg_frame_fetch [of s b] f "2.prems"(2) by (simp add: regs_ok_def)
    moreover define oc where "oc = exec_insn b insn (x_pc s) s1"
    ultimately have fr: "reg_frame s (outcome_st oc)"
      using reg_frame_insn reg_frame_trans by blast
    then have ok: "regs_ok (outcome_st oc)"
      using "2.prems"(2) by (simp add: regs_ok_def reg_frame_def)
    show ?thesis
    proof (cases oc)
      case (Next t)
      then have "s' = t\<lparr>x_gpr := (x_gpr t)(0 := 0)\<rparr>" using "2.prems"(1) False f oc_def by simp
      then show ?thesis using fr ok Next "2.prems"(2) by (simp add: regs_ok_def reg_frame_def)
    next
      case (Trap t)
      then show ?thesis using fr ok "2.prems"(1) False f oc_def by simp
    next
      case (Branch tg t)
      then obtain u where u: "exec_one b n t = Some u" "s' = u\<lparr>x_pc := tg\<rparr>"
        using "2.prems"(1) False f oc_def by auto
      have "reg_frame t u \<and> regs_ok u"
        using "2.IH" [OF False refl f [symmetric] _ u(1)] Branch oc_def ok by simp
      then show ?thesis
        using fr Branch u(2) by (auto simp: regs_ok_def reg_frame_def)
    qed
  qed
qed simp

section \<open>Fuel\<close>

definition is_transfer :: "u32 \<Rightarrow> bool" where
  "is_transfer insn \<longleftrightarrow> 0x01 \<le> op_of insn \<and> op_of insn \<le> 0x07 \<or> op_of insn = 0 \<and> (func_of insn = 0x08 \<or> func_of insn = 0x09)"

lemma set_reg_keeps [simp]: "x_pc (set_reg r v s) = x_pc s" "x_bus (set_reg r v s) = x_bus s"
  by (simp_all add: set_reg_def)

lemma no_branch [simp]:
  "trapping x r s \<noteq> Branch t u" "exec_immediate op insn s \<noteq> Branch t u" "exec_cop0 insn s \<noteq> Branch t u"
  "exec_cop2 b insn s \<noteq> Branch t u" "exec_load b op insn s \<noteq> Branch t u" "exec_store b op insn s \<noteq> Branch t u"
  "exec_gte_mem b op insn s \<noteq> Branch t u"
  by (simp_all add: trapping_def exec_immediate_def exec_cop0_def exec_cop2_def exec_load_def exec_store_def
      exec_gte_mem_def Let_def split: prod.split)

lemma branch_special:
  "exec_special insn pc s = Branch t u \<Longrightarrow> (func_of insn = 0x08 \<or> func_of insn = 0x09) \<and> x_pc u = x_pc s \<and> x_bus u = x_bus s"
  by (auto simp: exec_special_def Let_def split: if_splits)

lemma branch_keeps:
  assumes "exec_insn b insn pc s = Branch t u"
  shows "is_transfer insn \<and> x_pc u = x_pc s \<and> x_bus u = x_bus s"
proof -
  have "op_of insn = 0 \<Longrightarrow> exec_special insn pc s = Branch t u"
    using assms by (simp add: exec_insn_def)
  then show ?thesis
    using assms branch_special [of insn pc s t u]
    by (auto simp: exec_insn_def Let_def exec_regimm_def cond_branch_def is_transfer_def split: if_splits)
qed

lemma fetch_keeps: "x_pc (snd (fetch b s)) = x_pc s + 4" "x_bus (snd (fetch b s)) = snd (bus_read_word b (x_pc s) (x_bus s))"
  by (auto simp: fetch_def read_word_def apply_load_delay_def trace_record_def Let_def split: prod.split)

lemma fetch_insn: "fst (fetch b s) = fst (bus_read_word b (x_pc s) (x_bus s))"
  by (auto simp: fetch_def read_word_def Let_def split: prod.split)

lemma exec_one_more: "exec_one b n s = Some s' \<Longrightarrow> n \<le> m \<Longrightarrow> exec_one b m s = Some s'"
proof (induction b n s arbitrary: s' m rule: exec_one.induct)
  case (2 b n s)
  then obtain k where m: "m = Suc k" "n \<le> k" by (cases m) auto
  show ?case
  proof (cases "x_pc s = 0")
    case False
    obtain insn s1 where f: "fetch b s = (insn, s1)" by (metis prod.exhaust)
    show ?thesis
      using "2.prems"(1) "2.IH" [OF False refl f [symmetric] _ _ m(2)] False f m
      by (auto split: outcome.splits)
  qed (use 2 m in simp)
qed simp

lemma next_slot:
  assumes "p mod 4 = 0" "p < 4294967296" "p \<noteq> 0" "Suc n = (4294967296 - p) div 4" "q = (p + 4) mod (4294967296::nat)"
  shows "q mod 4 = 0 \<and> n = (if q = 0 then 0 else (4294967296 - q) div 4)"
proof -
  obtain k where k: "p = 4 * k" using assms(1) by (auto elim: dvdE simp: mod_eq_0_iff_dvd)
  have "(4294967296 - p) div 4 = 1073741824 - k" using k by simp
  then have n: "Suc n = 1073741824 - k" "k < 1073741824" using assms(2,4) k by simp_all
  show ?thesis
  proof (cases "Suc k = 1073741824")
    case True
    then show ?thesis using assms(5) k n by simp
  next
    case False
    then have "q = 4 * Suc k" using assms(5) k n by simp
    then show ?thesis using n False by simp
  qed
qed

lemma exec_one_aligned:
  "unat (x_pc s) mod 4 = 0 \<Longrightarrow> n = (if x_pc s = 0 then 0 else (2 ^ 32 - unat (x_pc s)) div 4) \<Longrightarrow>
   \<exists>s'. exec_one b (Suc n) s = Some s'"
proof (induction n arbitrary: s)
  case 0
  have "x_pc s = 0" using 0 unat_u32_less [of "x_pc s"] by (auto split: if_splits)
  then show ?case by simp
next
  case (Suc n)
  then have nz: "x_pc s \<noteq> 0" by auto
  obtain insn s1 where f: "fetch b s = (insn, s1)" by (metis prod.exhaust)
  have pc1: "x_pc s1 = x_pc s + 4" using fetch_keeps(1) [of b s] f by simp
  show ?case
  proof (cases "exec_insn b insn (x_pc s) s1")
    case (Branch t u)
    have pu: "x_pc u = x_pc s + 4" using branch_keeps [OF Branch] pc1 by simp
    have al: "unat (x_pc u) mod 4 = 0" "n = (if x_pc u = 0 then 0 else (2 ^ 32 - unat (x_pc u)) div 4)"
      using next_slot [of "unat (x_pc s)" n "unat (x_pc u)"] Suc.prems nz unat_u32_less [of "x_pc s"] unfolding pu
      by (simp_all add: unat_word_ariths word_unat_eq_iff)
    obtain v where "exec_one b (Suc n) u = Some v" using Suc.IH [OF al] by (elim exE)
    then show ?thesis using nz f Branch by simp
  qed (use nz f in simp_all)
qed

lemma exec_one_slot:
  assumes "\<not> is_transfer (fst (bus_read_word b (x_pc s) (x_bus s)))"
  shows "\<exists>s'. exec_one b (Suc n) s = Some s'"
proof -
  obtain insn s1 where f: "fetch b s = (insn, s1)" by (metis prod.exhaust)
  then have "\<not> is_transfer insn" using assms fetch_insn [of b s] by simp
  then show ?thesis
    using f by (cases "exec_insn b insn (x_pc s) s1") (auto dest: branch_keeps)
qed

lemma exec_one_fuel:
  assumes pure: "\<And>a m. snd (bus_read_word b a m) = m"
  shows "\<not> is_transfer (fst (bus_read_word b (x_pc s + of_nat (4 * n)) (x_bus s))) \<Longrightarrow> \<exists>s'. exec_one b (Suc n) s = Some s'"
proof (induction n arbitrary: s)
  case 0
  then show ?case using exec_one_slot [of b s 0] by simp
next
  case (Suc n)
  obtain insn s1 where f: "fetch b s = (insn, s1)" by (metis prod.exhaust)
  show ?case
  proof (cases "exec_insn b insn (x_pc s) s1")
    case (Branch t u)
    have "x_pc u = x_pc s + 4" "x_bus u = x_bus s"
      using branch_keeps [OF Branch] fetch_keeps [of b s] f pure by simp_all
    then have "\<exists>v. exec_one b (Suc n) u = Some v"
      using Suc.IH [of u] Suc.prems by (simp add: algebra_simps)
    then show ?thesis using f Branch by auto
  qed (use f in simp_all)
qed

text \<open>
  An address space with nothing executable at its top ends every chain of branches in delay slots,
  from any program counter: the chain climbs a word at a time into the unmapped segment, where the
  fetched word is no transfer of control. The one exception is a single readable register, whose
  next word is again unmapped.
\<close>

definition walled :: "'m cpu_bus \<Rightarrow> bool" where
  "walled b \<longleftrightarrow> (\<forall>a m. 0xC0000000 \<le> a \<and> a \<noteq> 0xFFFE0130 \<longrightarrow> \<not> is_transfer (fst (bus_read_word b a m)))"

lemma walled_guest_bus: "walled (guest_bus h io b)"
proof -
  have z: "\<not> is_transfer 0" by (simp add: is_transfer_def op_of_def func_of_def)
  have "fst (psx_read_word io a m) = 0" if "0xC0000000 \<le> a" "a \<noteq> 0xFFFE0130" for a and m :: "'a guest_mem"
    using that by (simp add: psx_read_word_def)
  then show ?thesis using z by (simp add: walled_def guest_bus_def)
qed

lemma exec_one_branch:
  assumes "\<And>u. x_pc u = x_pc s + 4 \<Longrightarrow> \<exists>v. exec_one b n u = Some v"
  shows "\<exists>s'. exec_one b (Suc n) s = Some s'"
proof -
  obtain insn s1 where f: "fetch b s = (insn, s1)" by (metis prod.exhaust)
  show ?thesis
  proof (cases "exec_insn b insn (x_pc s) s1")
    case (Branch t u)
    have "x_pc u = x_pc s + 4" using branch_keeps [OF Branch] fetch_keeps(1) [of b s] f by simp
    then show ?thesis using assms [of u] f Branch by auto
  qed (use f in simp_all)
qed

lemma exec_one_walled:
  assumes w: "walled b"
  shows "0xC0000000 \<le> unat (x_pc s) + 4 * n \<Longrightarrow> \<exists>s'. exec_one b (Suc (Suc n)) s = Some s'"
proof (induction n arbitrary: s)
  case 0
  then have top: "0xC0000000 \<le> x_pc s" by (simp add: word_le_nat_alt)
  show ?case
  proof (cases "x_pc s = 0xFFFE0130")
    case True
    have "\<exists>v. exec_one b (Suc 0) u = Some v" if "x_pc u = x_pc s + 4" for u
      using w that True by (intro exec_one_slot) (simp add: walled_def)
    then show ?thesis by (rule exec_one_branch)
  next
    case False
    then show ?thesis using w top by (intro exec_one_slot) (simp add: walled_def)
  qed
next
  case (Suc n)
  show ?case
  proof (cases "0xC0000000 \<le> unat (x_pc s) + 4 * n")
    case True
    then show ?thesis using Suc.IH [of s] exec_one_more [of b "Suc (Suc n)" s _ "Suc (Suc (Suc n))"] by fastforce
  next
    case False
    have "\<exists>v. exec_one b (Suc (Suc n)) u = Some v" if "x_pc u = x_pc s + 4" for u
    proof -
      have "unat (x_pc u) = unat (x_pc s) + 4"
        using that False by (simp add: unat_word_ariths)
      then show ?thesis using Suc.IH [of u] Suc.prems by simp
    qed
    then show ?thesis by (rule exec_one_branch)
  qed
qed

section \<open>Arithmetic\<close>

lemma sint_range: "- 2147483648 \<le> sint (w::u32)" "sint (w::u32) \<le> 2147483647"
  using sint_lt [of w] sint_ge [of w] by simp_all

lemma sint_id: "in_int32 x \<Longrightarrow> sint (word_of_int x :: u32) = x"
  by (simp add: in_int32_def sint_sbintrunc' signed_take_bit_int_eq_self)

lemma quot_range:
  assumes "b \<noteq> 0" "- 2147483648 \<le> a" "a \<le> 2147483647" "\<not> (a = - 2147483648 \<and> b = -1)"
  shows "in_int32 (a sdiv b :: int)"
proof -
  have r: "a sdiv b \<le> \<bar>a\<bar>" "- \<bar>a\<bar> \<le> a sdiv b"
    using sdiv_int_range [of a b] by auto
  show ?thesis
  proof (cases "a = - 2147483648")
    case True
    then have "a sdiv b \<noteq> 2147483648"
      using int_sdiv_negated_is_minus1 [of a b] assms(4) by auto
    then show ?thesis using r True by (simp add: in_int32_def)
  next
    case False
    then have "\<bar>a\<bar> \<le> 2147483647" using assms(2,3) by simp
    then show ?thesis using r unfolding in_int32_def by linarith
  qed
qed

lemma rem_range: "b \<noteq> 0 \<Longrightarrow> - 2147483648 \<le> b \<Longrightarrow> b \<le> 2147483647 \<Longrightarrow> in_int32 (a smod b)"
  using smod_int_range [of b a] by (auto simp: in_int32_def)

lemma smod_sign: "0 \<le> a * (a smod b :: int)"
  by (cases "b = 0") (simp_all add: smod_int_alt_def zero_le_mult_iff sgn_if)

section \<open>Bytes of unaligned words\<close>

lemma bit_le_word:
  "bit (le_word b0 b1 b2 b3) n \<longleftrightarrow>
     (if n < 8 then bit b0 n else if n < 16 then bit b1 (n - 8) else if n < 24 then bit b2 (n - 16)
      else n < 32 \<and> bit b3 (n - 24))"
proof -
  have "bit (ucast (b :: u8) :: u32) k \<longleftrightarrow> k < 8 \<and> bit b k" for b k
    by (auto simp: bit_ucast_u8)
  then show ?thesis
    by (auto simp: le_word_def bit_or_iff bit_push_bit_iff)
qed

lemmas merge_defs = lwl_merge_def lwr_merge_def swl_merge_def swr_merge_def

lemma unat_low2: "unat ((w::u32) AND 3) = unat w mod 4"
  using unat_and_mask [of w 2] by (simp add: mask_eq_exp_minus_1)

lemma low2: "(w::u32) AND 3 = of_nat (unat w mod 4)"
  unfolding unat_low2 [symmetric] by simp

lemma and_not_minus: "w AND NOT m = w - (w AND m)" for w :: "'a::len word"
proof -
  have "(w AND NOT m) AND (w AND m) = 0" "(w AND NOT m) OR (w AND m) = w"
    by (rule bit_word_eqI, auto simp: bit_and_iff bit_or_iff bit_not_iff)+
  then have "(w AND NOT m) + (w AND m) = w"
    using word_plus_and_or [of "w AND NOT m" "w AND m"] by simp
  then show ?thesis by (simp add: eq_diff_eq)
qed

lemma align_unat: "unat (w AND NOT 3 :: u32) = unat w - unat w mod 4"
  unfolding and_not_minus unat_low2 [symmetric] by (rule unat_sub) (rule word_and_le2)

lemma low_masks:
  "bit (0xFF::u32) n \<longleftrightarrow> n < 8" "bit (0xFFFF::u32) n \<longleftrightarrow> n < 16" "bit (0xFFFFFF::u32) n \<longleftrightarrow> n < 24"
proof -
  have "(0xFF::u32) = mask 8" "(0xFFFF::u32) = mask 16" "(0xFFFFFF::u32) = mask 24"
    by (simp_all add: mask_eq_exp_minus_1)
  then show "bit (0xFF::u32) n \<longleftrightarrow> n < 8" "bit (0xFFFF::u32) n \<longleftrightarrow> n < 16" "bit (0xFFFFFF::u32) n \<longleftrightarrow> n < 24"
    by (simp_all only: bit_mask_iff) auto
qed

lemma high_masks:
  "bit (0xFF000000::u32) n \<longleftrightarrow> 24 \<le> n \<and> n < 32" "bit (0xFFFF0000::u32) n \<longleftrightarrow> 16 \<le> n \<and> n < 32"
  "bit (0xFFFFFF00::u32) n \<longleftrightarrow> 8 \<le> n \<and> n < 32"
proof -
  have "(0xFF000000::u32) = NOT 0xFFFFFF" "(0xFFFF0000::u32) = NOT 0xFFFF" "(0xFFFFFF00::u32) = NOT 0xFF"
    by simp_all
  then show "bit (0xFF000000::u32) n \<longleftrightarrow> 24 \<le> n \<and> n < 32" "bit (0xFFFF0000::u32) n \<longleftrightarrow> 16 \<le> n \<and> n < 32"
    "bit (0xFFFFFF00::u32) n \<longleftrightarrow> 8 \<le> n \<and> n < 32"
    by (simp_all only: bit_not_iff low_masks) auto
qed

lemmas byte_bits = bit_and_iff bit_or_iff bit_push_bit_iff bit_drop_bit_eq o_apply bit_le_word low_masks high_masks

lemma join_words:
  "(((c AND 0x00FFFFFF) OR push_bit 24 (le_word b4 b5 b6 b7)) AND 0xFF000000) OR drop_bit 8 (le_word b0 b1 b2 b3) = le_word b1 b2 b3 b4"
  "(((c AND 0x0000FFFF) OR push_bit 16 (le_word b4 b5 b6 b7)) AND 0xFFFF0000) OR drop_bit 16 (le_word b0 b1 b2 b3) = le_word b2 b3 b4 b5"
  "(((c AND 0x000000FF) OR push_bit 8 (le_word b4 b5 b6 b7)) AND 0xFFFFFF00) OR drop_bit 24 (le_word b0 b1 b2 b3) = le_word b3 b4 b5 b6"
  by (rule bit_word_eqI, (simp only: byte_bits), (auto)[1])+

end
