(* ===== verification/R3000_Props.thy ===== *)
theory R3000_Props
  imports R3000
begin

text \<open>
  What the interpreter of theory \<open>R3000\<close> guarantees: the register file, termination, the
  arithmetic instructions, unaligned transfers, the status stack, and stepping. The examples
  run on \<open>word_bus\<close>, a memory of words with no devices.
\<close>

section \<open>An example machine\<close>

definition word_bus :: "(u32 \<Rightarrow> u32) cpu_bus" where
  "word_bus = \<lparr>bus_read_word = \<lambda>a m. (m a, m), bus_read_half = \<lambda>a m. (ucast (m a), m),
     bus_read_byte = \<lambda>a m. (ucast (m a), m), bus_write_word = \<lambda>a v m. m(a := v),
     bus_write_half = \<lambda>a v m. m, bus_write_byte = \<lambda>a v m. m,
     gte_read_data = \<lambda>n m. (0, m), gte_read_ctrl = \<lambda>n m. (0, m), gte_write_data = \<lambda>n v m. m,
     gte_write_ctrl = \<lambda>n v m. m, gte_execute = \<lambda>c m. m, gte_store_note = \<lambda>a n m. m,
     dev_sio_tick = \<lambda>m. m, dev_vblank = \<lambda>m. m, irq_pending = \<lambda>m. 0\<rparr>"

definition boot_st :: "(u32 \<Rightarrow> u32) \<Rightarrow> (u32 \<Rightarrow> u32) interp_st" where
  "boot_st prog = \<lparr>x_gpr = (\<lambda>_. 0), x_pc = 0x80010000, x_hi = 0, x_lo = 0, x_cop0 = (\<lambda>_. 0), x_load_reg = 0,
     x_load_val = 0, x_vblank_count = 0, x_hit_bp = False, x_trace_on = False, x_halted = False, x_bps = [],
     x_trace = (\<lambda>_. zero_trace_entry), x_trace_seq = 0, x_trace_idx = 0, x_bus = prog\<rparr>"

lemma boot_st_sel [simp]:
  "x_gpr (boot_st p) = (\<lambda>_. 0)" "x_pc (boot_st p) = 0x80010000" "x_cop0 (boot_st p) = (\<lambda>_. 0)"
  "x_load_reg (boot_st p) = 0" "x_trace_on (boot_st p) = False" "x_bps (boot_st p) = []" "x_bus (boot_st p) = p"
  "x_halted (boot_st p) = False" "x_hit_bp (boot_st p) = False"
  by (simp_all add: boot_st_def)

lemma word_bus_sel [simp]: "bus_read_word word_bus a m = (m a, m)"
  by (simp add: word_bus_def)

lemmas decode_defs = op_of_def rs_of_def rt_of_def rd_of_def sa_of_def func_of_def imm_of_def simm_of_def

section \<open>Stepping\<close>

lemma reg_frame_interrupts: "reg_frame s (interp_check_interrupts b s)"
  by (simp add: interp_check_interrupts_def Let_def fire_interrupt_def reg_frame_def upd_bus_def)

lemma regs_ok_frame: "regs_ok s \<Longrightarrow> reg_frame s t \<Longrightarrow> regs_ok t"
  by (simp add: regs_ok_def reg_frame_def)

lemma step_loop_frame:
  "step_loop b fuel k ex s = Some (n, s') \<Longrightarrow> regs_ok s \<Longrightarrow> reg_frame s s' \<and> regs_ok s'"
proof (induction k arbitrary: ex s)
  case (Suc k)
  show ?case
  proof (cases "x_pc s \<in> set (x_bps s)")
    case True
    then show ?thesis using Suc.prems by (auto simp: regs_ok_def reg_frame_def)
  next
    case False
    then obtain s1 where s1: "exec_one b fuel s = Some s1"
      using Suc.prems(1) by (auto split: option.splits)
    have fr: "reg_frame s s1" "regs_ok s1" using exec_one_frame [OF s1 Suc.prems(2)] by simp_all
    show ?thesis
    proof (cases "x_halted s1")
      case True
      then show ?thesis using Suc.prems(1) s1 False fr by simp
    next
      case not_halted: False
      define s2 where "s2 = (if (ex + 1) AND 0xF = 0 then interp_check_interrupts b s1 else s1)"
      have "step_loop b fuel k (ex + 1) s2 = Some (n, s')"
        using Suc.prems(1) s1 False not_halted by (simp add: s2_def Let_def)
      moreover have "reg_frame s1 s2" "regs_ok s2"
        using fr reg_frame_interrupts regs_ok_frame by (simp_all add: s2_def) blast+
      ultimately show ?thesis using Suc.IH fr reg_frame_trans by blast
    qed
  qed
qed simp

lemma step_loop_count:
  "step_loop b fuel k ex s = Some (n, s') \<Longrightarrow> unat ex + k < 2 ^ 32 \<Longrightarrow>
   unat ex \<le> unat n \<and> unat n \<le> unat ex + k \<and> (unat n < unat ex + k \<longrightarrow> x_halted s' \<or> x_pc s' \<in> set (x_bps s') \<and> x_hit_bp s')"
proof (induction k arbitrary: ex s)
  case (Suc k)
  have ex: "unat (ex + 1) = unat ex + 1"
    using Suc.prems(2) by (simp add: unat_word_ariths)
  show ?case
  proof (cases "x_pc s \<in> set (x_bps s)")
    case True
    then show ?thesis using Suc.prems(1) by auto
  next
    case False
    then obtain s1 where s1: "exec_one b fuel s = Some s1"
      using Suc.prems(1) by (auto split: option.splits)
    show ?thesis
    proof (cases "x_halted s1")
      case True
      then show ?thesis using Suc.prems(1) s1 False ex by auto
    next
      case not_halted: False
      define s2 where "s2 = (if (ex + 1) AND 0xF = 0 then interp_check_interrupts b s1 else s1)"
      have "step_loop b fuel k (ex + 1) s2 = Some (n, s')"
        using Suc.prems(1) s1 False not_halted by (simp add: s2_def Let_def)
      moreover have "unat (ex + 1) + k < 2 ^ 32" using ex Suc.prems(2) by simp
      ultimately show ?thesis using Suc.IH [of "ex + 1" s2] ex by auto
    qed
  qed
qed simp

lemma interp_step_frame:
  assumes "interp_step b fuel count s = Some (n, t)" and "x_gpr s 0 = 0" and "x_load_reg s < 32"
  shows "x_gpr t 0 = 0 \<and> x_load_reg t < 32 \<and> (\<forall>r. x_gpr t (r + 32) = x_gpr s (r + 32) \<and> x_cop0 t (r + 32) = x_cop0 s (r + 32))"
proof -
  have "regs_ok (s\<lparr>x_hit_bp := False\<rparr>)" using assms by (simp add: regs_ok_def)
  then have "reg_frame (s\<lparr>x_hit_bp := False\<rparr>) t \<and> regs_ok t"
    using assms(1) step_loop_frame unfolding interp_step_def by blast
  then show ?thesis using assms(2,3) by (simp add: reg_frame_def regs_ok_def)
qed

lemma step_loop_returns:
  assumes "\<And>u. \<exists>v. exec_one b fuel u = Some v"
  shows "\<exists>n t. step_loop b fuel k ex s = Some (n, t)"
proof (induction k arbitrary: ex s)
  case (Suc k)
  obtain v where v: "exec_one b fuel s = Some v" using assms by blast
  show ?case using Suc.IH by (simp add: v Let_def)
qed simp

lemma interp_step_returns:
  assumes "0x30000002 \<le> fuel"
  shows "\<exists>n t. interp_step (guest_bus h io b) fuel count s = Some (n, t)"
proof -
  have "\<exists>v. exec_one (guest_bus h io b) fuel u = Some v" for u :: "'a guest_mem interp_st"
    using exec_one_walled [OF walled_guest_bus, of u "0x30000000" h io b]
      exec_one_more [of "guest_bus h io b" "Suc (Suc 0x30000000)" u _ fuel] assms by fastforce
  then show ?thesis unfolding interp_step_def by (rule step_loop_returns)
qed

lemma interp_step_bound:
  assumes "interp_step b fuel count s = Some (n, t)"
  shows "n \<le> count"
  using step_loop_count [of b fuel "unat count" 0 "s\<lparr>x_hit_bp := False\<rparr>" n t] assms unat_u32_less [of count]
  by (simp add: interp_step_def word_le_nat_alt)

text \<open>C8: On the machine's own bus the interpreter always comes back, with its registers in order:
  from any program counter, aligned or not, and for any program, \<open>interp_step\<close> returns within
  0x30000002 calls per instruction, after at most the requested number of instructions, with
  \<open>$0\<close> zero, the pending load inside the register file and no general or coprocessor register
  above 31 touched.\<close>

theorem r3000_registers:
  assumes "x_gpr s 0 = 0" and "x_load_reg s < 32" and "0x30000002 \<le> fuel"
  shows "\<exists>n t. interp_step (guest_bus h io b) fuel count s = Some (n, t) \<and> n \<le> count \<and>
     x_gpr t 0 = 0 \<and> x_load_reg t < 32 \<and>
     (\<forall>r. x_gpr t (r + 32) = x_gpr s (r + 32) \<and> x_cop0 t (r + 32) = x_cop0 s (r + 32))"
proof -
  obtain n t where t: "interp_step (guest_bus h io b) fuel count s = Some (n, t)"
    using interp_step_returns [OF assms(3)] by blast
  then show ?thesis
    using interp_step_frame [OF t assms(1,2)] interp_step_bound [OF t] by blast
qed

text \<open>\<open>ADDIU $0, $0, 5\<close> followed by \<open>ADDIU $1, $0, 7\<close>.\<close>

definition demo_prog :: "u32 \<Rightarrow> u32" where
  "demo_prog a = (if a = 0x80010000 then 0x24000005 else if a = 0x80010004 then 0x24010007 else 0)"

lemma demo_run:
  "map_option (\<lambda>(n, t). (n, x_gpr t 0, x_gpr t 1, x_pc t)) (interp_step word_bus 4 2 (boot_st demo_prog)) =
   Some (2, 0, 7, 0x80010008)"
  by code_simp

text \<open>Stepping executes at most the requested number of instructions, and fewer only if
  the CPU jumped to address 0 or stands at a breakpoint.\<close>

theorem r3000_step_budget:
  assumes "interp_step b fuel count s = Some (n, t)"
  shows "n \<le> count \<and> (n = count \<or> x_halted t \<or> x_pc t \<in> set (x_bps t) \<and> x_hit_bp t)"
proof -
  have "unat n \<le> unat count \<and> (unat n < unat count \<longrightarrow> x_halted t \<or> x_pc t \<in> set (x_bps t) \<and> x_hit_bp t)"
    using step_loop_count [of b fuel "unat count" 0 "s\<lparr>x_hit_bp := False\<rparr>" n t] assms unat_u32_less [of count]
    by (simp add: interp_step_def)
  then show ?thesis
    by (metis word_le_nat_alt le_neq_implies_less word_unat_eq_iff)
qed

lemma r3000_step_budget_witness:
  "\<exists>t. interp_step word_bus 4 2 (boot_st demo_prog) = Some (2, t) \<and> (2::u32) \<le> 2"
proof -
  obtain t where t: "interp_step word_bus 4 2 (boot_st demo_prog) = Some (2, t)"
    using demo_run by auto
  then show ?thesis using r3000_step_budget [OF t] by simp
qed

section \<open>Termination\<close>

text \<open>C9: One instruction always finishes, however its delay slots nest: from a word-aligned
  program counter \<open>exec_one\<close> returns within one call per remaining word of the address space,
  because a chain of branches in delay slots walks up to address 0 and halts there.\<close>

theorem r3000_terminates:
  assumes "unat (x_pc s) mod 4 = 0" and "(2 ^ 32 - unat (x_pc s)) div 4 < fuel"
  shows "\<exists>t. exec_one b fuel s = Some t"
proof -
  let ?n = "if x_pc s = 0 then 0 else (2 ^ 32 - unat (x_pc s)) div 4"
  obtain t where "exec_one b (Suc ?n) s = Some t"
    using exec_one_aligned [OF assms(1) refl] by blast
  moreover have "Suc ?n \<le> fuel" using assms(2) by (auto split: if_splits)
  ultimately show ?thesis using exec_one_more by blast
qed

lemma r3000_terminates_witness: "\<exists>t. exec_one word_bus 536854530 (boot_st demo_prog) = Some t"
  by (rule r3000_terminates) simp_all

section \<open>Multiplication, division, overflow\<close>

lemma exec_insn_special [simp]: "op_of insn = 0 \<Longrightarrow> exec_insn b insn pc s = exec_special insn pc s"
  by (simp add: exec_insn_def)

lemma mult_halves_s: "sint (word_of_int (drop_bit 32 r) :: u32) * 2 ^ 32 + uint (word_of_int r :: u32) = r"
  if "- (2 ^ 63) \<le> r" "r < 2 ^ 63" for r :: int
proof -
  have "in_int32 (r div 2 ^ 32)"
    using zdiv_mono1 [of "- (2 ^ 63)" r "2 ^ 32"] zdiv_mono1 [of r "2 ^ 63 - 1" "2 ^ 32"] that by (simp add: in_int32_def)
  then have "sint (word_of_int (drop_bit 32 r) :: u32) = r div 2 ^ 32"
    unfolding drop_bit_eq_div by (rule sint_id)
  moreover have "uint (word_of_int r :: u32) = r mod 2 ^ 32"
    by (simp add: uint_word_of_int)
  ultimately show ?thesis
    by (simp only: div_mult_mod_eq)
qed

lemma product_range: "\<bar>sint (a::u32) * sint (b::u32)\<bar> \<le> 2 ^ 62"
proof -
  have "\<bar>sint a\<bar> \<le> 2 ^ 31" "\<bar>sint b\<bar> \<le> 2 ^ 31" using sint_range [of a] sint_range [of b] by auto
  then have "\<bar>sint a\<bar> * \<bar>sint b\<bar> \<le> 2 ^ 31 * 2 ^ 31" by (intro mult_mono) auto
  then show ?thesis by (simp add: abs_mult)
qed

lemma mult_halves_u: "unat (ucast (drop_bit 32 r) :: u32) * 2 ^ 32 + unat (ucast r :: u32) = unat r" for r :: u64
proof -
  have "unat (drop_bit 32 r) < 2 ^ 32"
  proof -
    have "unat r < 2 ^ 32 * 2 ^ 32" using unsigned_less [of r] by simp
    then have "unat r div 2 ^ 32 < 2 ^ 32" by (rule less_mult_imp_div_less)
    then show ?thesis unfolding unat_drop_bit_eq unfolding drop_bit_eq_div .
  qed
  then have "unat (ucast (drop_bit 32 r) :: u32) = unat (drop_bit 32 r)"
    by (simp add: unsigned_ucast_eq take_bit_nat_eq_self)
  also have "\<dots> = unat r div 2 ^ 32" unfolding unat_drop_bit_eq unfolding drop_bit_eq_div ..
  finally have "unat (ucast (drop_bit 32 r) :: u32) = unat r div 2 ^ 32" .
  moreover have "unat (ucast r :: u32) = unat r mod 2 ^ 32"
    by (simp add: unsigned_ucast_eq take_bit_eq_mod)
  ultimately show ?thesis by (simp only: div_mult_mod_eq)
qed

text \<open>\<open>MULT\<close> and \<open>MULTU\<close> leave the exact 64-bit product in \<open>HI:LO\<close>, signed and
  unsigned, and change no general register.\<close>

theorem r3000_mult:
  assumes "op_of insn = 0" and "func_of insn = f"
  shows "(f = 0x18 \<longrightarrow> (\<exists>t. exec_insn b insn pc s = Next t \<and> x_gpr t = x_gpr s \<and>
            sint (x_hi t) * 2 ^ 32 + uint (x_lo t) = sint (x_gpr s (rs_of insn)) * sint (x_gpr s (rt_of insn)))) \<and>
         (f = 0x19 \<longrightarrow> (\<exists>t. exec_insn b insn pc s = Next t \<and> x_gpr t = x_gpr s \<and>
            unat (x_hi t) * 2 ^ 32 + unat (x_lo t) = unat (x_gpr s (rs_of insn)) * unat (x_gpr s (rt_of insn))))"
proof -
  let ?a = "x_gpr s (rs_of insn)" and ?b = "x_gpr s (rt_of insn)"
  have "- (2 ^ 63) \<le> sint ?a * sint ?b" "sint ?a * sint ?b < 2 ^ 63" using product_range [of ?a ?b] by auto
  then have "sint (x_hi (mult_s ?a ?b s)) * 2 ^ 32 + uint (x_lo (mult_s ?a ?b s)) = sint ?a * sint ?b"
    using mult_halves_s [of "sint ?a * sint ?b"] by (simp add: mult_s_def Let_def)
  moreover have "unat (x_hi (mult_u ?a ?b s)) * 2 ^ 32 + unat (x_lo (mult_u ?a ?b s)) = unat ?a * unat ?b"
    using mult_halves_u [of "ucast ?a * ucast ?b"] by (simp add: mult_u_def product_u Let_def)
  moreover have "x_gpr (mult_s ?a ?b s) = x_gpr s" "x_gpr (mult_u ?a ?b s) = x_gpr s"
    by (simp_all add: mult_s_def mult_u_def Let_def)
  ultimately show ?thesis using assms by (simp add: exec_special_def)
qed

definition arith_st :: "u32 \<Rightarrow> u32 \<Rightarrow> (u32 \<Rightarrow> u32) interp_st" where
  "arith_st a b = (boot_st (\<lambda>_. 0))\<lparr>x_gpr := (\<lambda>r. if r = 1 then a else if r = 2 then b else 0)\<rparr>"

text \<open>\<open>MULT $1, $2\<close> on -3 and 5.\<close>

lemma r3000_mult_witness:
  "\<exists>t. exec_insn word_bus 0x00220018 0 (arith_st 0xFFFFFFFD 5) = Next t \<and> sint (x_hi t) * 2 ^ 32 + uint (x_lo t) = -15"
proof -
  have "op_of 0x00220018 = 0" "func_of 0x00220018 = 0x18" "rs_of 0x00220018 = 1" "rt_of 0x00220018 = 2"
    by (simp_all add: decode_defs)
  then show ?thesis
    using r3000_mult [of "0x00220018" "0x18" word_bus 0 "arith_st 0xFFFFFFFD 5"] by (auto simp: arith_st_def)
qed

text \<open>C10: \<open>DIV\<close> is division towards zero: for a non-zero divisor and outside the single
  overflowing pair, \<open>LO\<close> and \<open>HI\<close> are the unique quotient and remainder whose remainder is
  smaller than the divisor and has the sign of the dividend.\<close>

theorem r3000_div:
  assumes "op_of insn = 0" and "func_of insn = 0x1A"
    and "n = sint (x_gpr s (rs_of insn))" and "d = sint (x_gpr s (rt_of insn))" and "d \<noteq> 0"
    and "\<not> (n = - (2 ^ 31) \<and> d = -1)"
  shows "\<exists>t. exec_insn b insn pc s = Next t \<and> n = sint (x_lo t) * d + sint (x_hi t) \<and>
             \<bar>sint (x_hi t)\<bar> < \<bar>d\<bar> \<and> 0 \<le> n * sint (x_hi t)"
proof -
  let ?a = "x_gpr s (rs_of insn)" and ?b = "x_gpr s (rt_of insn)"
  have "?b \<noteq> 0" using assms(4,5) by auto
  moreover have "\<not> (?a = 0x80000000 \<and> ?b = 0xFFFFFFFF)" using assms(3,4,6) by auto
  ultimately have t: "exec_insn b insn pc s = Next (s\<lparr>x_lo := word_of_int (n sdiv d), x_hi := word_of_int (n smod d)\<rparr>)"
    using assms(1-4) by (auto simp: exec_special_def div_s_def Let_def)
  have "in_int32 (n sdiv d)" "in_int32 (n smod d)"
    using quot_range [of d n] rem_range [of d n] sint_range [of ?a] sint_range [of ?b] assms(3-6) by simp_all
  then have v: "sint (word_of_int (n sdiv d) :: u32) = n sdiv d" "sint (word_of_int (n smod d) :: u32) = n smod d"
    by (simp_all only: sint_id)
  have "n = (n sdiv d) * d + n smod d" by (simp add: sdiv_mult_smod_eq)
  moreover have "\<bar>n smod d\<bar> < \<bar>d\<bar>" using smod_int_range [of d n] assms(5) by auto
  ultimately show ?thesis using t v smod_sign [of n d] by simp
qed

text \<open>\<open>DIV $1, $2\<close> on -7 and 2.\<close>

lemma r3000_div_witness:
  "\<exists>t. exec_insn word_bus 0x0022001A 0 (arith_st 0xFFFFFFF9 2) = Next t \<and> -7 = sint (x_lo t) * 2 + sint (x_hi t)"
proof -
  have d: "op_of 0x0022001A = 0" "func_of 0x0022001A = 0x1A" "rs_of 0x0022001A = 1" "rt_of 0x0022001A = 2"
    by (simp_all add: decode_defs)
  have v: "-7 = sint (x_gpr (arith_st 0xFFFFFFF9 2) (rs_of 0x0022001A))" "2 = sint (x_gpr (arith_st 0xFFFFFFF9 2) (rt_of 0x0022001A))"
    unfolding d by (simp_all add: arith_st_def)
  have "\<exists>t. exec_insn word_bus 0x0022001A 0 (arith_st 0xFFFFFFF9 2) = Next t \<and> -7 = sint (x_lo t) * 2 + sint (x_hi t) \<and>
     \<bar>sint (x_hi t)\<bar> < \<bar>2\<bar> \<and> 0 \<le> -7 * sint (x_hi t)"
    by (rule r3000_div [OF d(1,2) v]) simp_all
  then show ?thesis by blast
qed

text \<open>C11: \<open>ADD\<close> never wraps silently: a sum that fits is written exactly, one that does not
  raises exception 12, leaves every general register alone and enters the handler.\<close>

theorem r3000_overflow_traps:
  assumes "op_of insn = 0" and "func_of insn = 0x20" and "r = sint (x_gpr s (rs_of insn)) + sint (x_gpr s (rt_of insn))"
  shows "if - (2 ^ 31) \<le> r \<and> r < 2 ^ 31
         then exec_insn b insn pc s = Next (set_reg (rd_of insn) (word_of_int r) s) \<and> sint (word_of_int r :: u32) = r
         else \<exists>t. exec_insn b insn pc s = Trap t \<and> x_gpr t = x_gpr s \<and> x_cop0 t 13 AND 0x7C = push_bit 2 12 \<and>
                  x_pc t = exc_vector (x_cop0 s 12) \<and> x_cop0 t 14 = x_pc s"
proof -
  have code: "(((c AND NOT 0x7C) OR 0x30) AND NOT 0x80000000) AND 0x7C = (0x30::u32)" for c :: u32
    by (simp add: word_ao_dist word_bw_assocs)
  have r: "in_int32 r = (- (2 ^ 31) \<le> r \<and> r < 2 ^ 31)" by (auto simp: in_int32_def)
  have e: "exec_insn b insn pc s = trapping r (rd_of insn) s"
    using assms by (simp add: exec_special_def Let_def)
  show ?thesis
  proof (cases "in_int32 r")
    case True
    then show ?thesis using e r sint_id [of r] by (simp add: trapping_def)
  next
    case False
    let ?t = "raise_exception 12 False s"
    have "x_cop0 ?t 13 = ((x_cop0 s 13 AND NOT 0x7C) OR 0x30) AND NOT 0x80000000"
      by (simp add: raise_exception_def Let_def)
    then have "x_cop0 ?t 13 AND 0x7C = push_bit 2 12" by (simp only: code) simp
    moreover have "x_gpr ?t = x_gpr s" "x_pc ?t = exc_vector (x_cop0 s 12)" "x_cop0 ?t 14 = x_pc s"
      by (simp_all add: raise_exception_def Let_def)
    ultimately show ?thesis using e r False by (auto simp: trapping_def)
  qed
qed

text \<open>\<open>ADD $3, $1, $2\<close> on the largest positive number and 1.\<close>

lemma r3000_overflow_traps_witness:
  "\<exists>t. exec_insn word_bus 0x00221820 0 (arith_st 0x7FFFFFFF 1) = Trap t \<and> x_gpr t 3 = 0 \<and> x_pc t = 0x80000080"
proof -
  have d: "op_of 0x00221820 = 0" "func_of 0x00221820 = 0x20" "rs_of 0x00221820 = 1" "rt_of 0x00221820 = 2"
    by (simp_all add: decode_defs)
  have r: "2 ^ 31 = sint (x_gpr (arith_st 0x7FFFFFFF 1) (rs_of 0x00221820)) + sint (x_gpr (arith_st 0x7FFFFFFF 1) (rt_of 0x00221820))"
    unfolding d by (simp add: arith_st_def)
  obtain t where "exec_insn word_bus 0x00221820 0 (arith_st 0x7FFFFFFF 1) = Trap t" "x_gpr t = x_gpr (arith_st 0x7FFFFFFF 1)"
    "x_pc t = exc_vector (x_cop0 (arith_st 0x7FFFFFFF 1) 12)"
    using r3000_overflow_traps [OF d(1,2) r, of word_bus 0] by auto
  then show ?thesis by (intro exI [of _ t]) (simp add: arith_st_def exc_vector_def has_def)
qed

section \<open>Unaligned transfers\<close>

lemma low2_word: "unat a mod 4 = k \<Longrightarrow> (a::u32) AND 3 = of_nat k"
  by (simp only: low2)

lemma merge_cases:
  assumes "unat (a::u32) mod 4 = k" "unat a + 3 < 2 ^ 32"
  shows "unat (a + 3) mod 4 = (k + 3) mod 4" "unat (a AND NOT 3) = unat a - k"
    "unat ((a + 3) AND NOT 3) = unat a + 3 - (k + 3) mod 4"
proof -
  have u: "unat (a + 3) = unat a + 3" using assms(2) by (simp add: unat_word_ariths)
  show m: "unat (a + 3) mod 4 = (k + 3) mod 4" unfolding u assms(1) [symmetric] by (rule mod_add_left_eq [symmetric])
  show "unat (a AND NOT 3) = unat a - k" unfolding align_unat assms(1) ..
  show "unat ((a + 3) AND NOT 3) = unat a + 3 - (k + 3) mod 4"
    unfolding align_unat m unfolding u ..
qed

lemma mod4_cases: "n mod 4 = 0 \<or> n mod 4 = 1 \<or> n mod 4 = 2 \<or> n mod 4 = (3::nat)"
  by presburger

lemma get_word_off:
  "get_word f (m + 1) = le_word (f (m + 1)) (f (m + 2)) (f (m + 3)) (f (m + 4))"
  "get_word f (m + 2) = le_word (f (m + 2)) (f (m + 3)) (f (m + 4)) (f (m + 5))"
  "get_word f (m + 3) = le_word (f (m + 3)) (f (m + 4)) (f (m + 5)) (f (m + 6))"
  "get_word f (m + 4) = le_word (f (m + 4)) (f (m + 5)) (f (m + 6)) (f (m + 7))"
  by (simp_all add: get_word_def eval_nat_numeral)

lemma unaligned_split:
  fixes a :: u32
  assumes "unat a + 3 < 2 ^ 32"
  obtains (aligned) "a AND 3 = 0" "(a + 3) AND 3 = 3" "unat (a AND NOT 3) = unat a" "unat ((a + 3) AND NOT 3) = unat a"
    | (one) m where "unat a = m + 1" "a AND 3 = 1" "(a + 3) AND 3 = 0" "unat (a AND NOT 3) = m" "unat ((a + 3) AND NOT 3) = m + 4"
    | (two) m where "unat a = m + 2" "a AND 3 = 2" "(a + 3) AND 3 = 1" "unat (a AND NOT 3) = m" "unat ((a + 3) AND NOT 3) = m + 4"
    | (three) m where "unat a = m + 3" "a AND 3 = 3" "(a + 3) AND 3 = 2" "unat (a AND NOT 3) = m" "unat ((a + 3) AND NOT 3) = m + 4"
proof -
  define k where "k = unat a mod 4"
  then have k: "unat a mod 4 = k" by simp
  define m where "m = unat a - k"
  have m: "unat a = m + k" using k mod_less_eq_dividend [of "unat a" 4] by (simp add: m_def)
  note mc = merge_cases [OF k assms]
  have l: "a AND 3 = of_nat k" "(a + 3) AND 3 = of_nat ((k + 3) mod 4)"
    using low2_word [OF k] low2_word [OF mc(1)] by simp_all
  consider "k = 0" | "k = 1" | "k = 2" | "k = 3" using mod4_cases [of "unat a"] k by auto
  then show thesis
  proof cases
    case 1 then show ?thesis using aligned l mc(2,3) by simp
  next
    case 2 then show ?thesis using one [of m] l mc(2,3) m by simp
  next
    case 3 then show ?thesis using two [of m] l mc(2,3) m by simp
  next
    case 4 then show ?thesis using three [of m] l mc(2,3) m by simp
  qed
qed

lemma join_load:
  assumes "unat a + 3 < 2 ^ 32"
  shows "lwr_merge a (get_word f (unat (a AND NOT 3))) (lwl_merge (a + 3) (get_word f (unat ((a + 3) AND NOT 3))) c) =
         get_word f (unat a)"
  using assms
proof (cases rule: unaligned_split)
  case aligned
  then show ?thesis by (simp add: lwr_merge_def del: bit.double_compl)
next
  case (one m)
  then show ?thesis using join_words(1) unfolding merge_defs Let_def one get_word_off by (simp add: get_word_def)
next
  case (two m)
  then show ?thesis using join_words(2) unfolding merge_defs Let_def two get_word_off by (simp add: get_word_def)
next
  case (three m)
  then show ?thesis using join_words(3) unfolding merge_defs Let_def three get_word_off by (simp add: get_word_def)
qed


lemma align_low: "unat a + 4 \<le> 0x200000 \<Longrightarrow> (a AND NOT 3) < 0x200000 \<and> ((a + 3) AND NOT 3) < (0x200000::u32)"
  by (simp only: word_less_nat_alt align_unat) (simp add: unat_word_ariths, linarith)


text \<open>C12: The \<open>LWL\<close>/\<open>LWR\<close> pair loads an unaligned word: run on the last and the first
  byte of any word in RAM, the two instructions together leave its little-endian value in the
  destination register, whatever that register held.\<close>

theorem r3000_unaligned_load:
  assumes "rt_of i2 = rt_of i1" and "rs_of i2 = rs_of i1" and "rs_of i1 \<noteq> rt_of i1" and "rt_of i1 \<noteq> 0"
    and "a = x_gpr s (rs_of i1) + simm_of i2" and "simm_of i1 = simm_of i2 + 3" and "unat a + 4 \<le> 0x200000"
  shows "\<exists>s1 s2. exec_load (guest_bus h io b) 0x22 i1 s = Next s1 \<and> exec_load (guest_bus h io b) 0x26 i2 s1 = Next s2 \<and>
     x_gpr s2 (rt_of i1) = get_word (gm_ram (x_bus s)) (unat a) \<and> x_bus s2 = x_bus s"
proof -
  let ?b = "guest_bus h io b" and ?f = "gm_ram (x_bus s)"
  have al: "(a AND NOT 3) < 0x200000" "((a + 3) AND NOT 3) < 0x200000" using align_low [OF assms(7)] by blast+
  have rd: "read_word ?b p s = (get_word (gm_ram (x_bus s)) (unat p), s)" if "p < 0x200000" for p and s :: "'a guest_mem interp_st"
    using read_low [OF that, of io "x_bus s"] by (simp add: read_word_def guest_bus_def)
  define v where "v = lwl_merge (a + 3) (get_word ?f (unat ((a + 3) AND NOT 3))) (x_gpr s (rt_of i1))"
  define s1 where "s1 = set_reg (rt_of i1) v s"
  define s2 where "s2 = set_reg (rt_of i1) (lwr_merge a (get_word ?f (unat (a AND NOT 3))) v) s1"
  have ad: "x_gpr s (rs_of i1) + simm_of i1 = a + 3" using assms(5,6) by simp
  have "exec_load ?b 0x22 i1 s = Next s1"
    unfolding exec_load_def Let_def ad rd [OF al(2)] prod.case by (simp add: s1_def v_def)
  moreover have e: "x_gpr s1 (rs_of i2) + simm_of i2 = a" "x_bus s1 = x_bus s" "x_gpr s1 (rt_of i2) = v"
    using assms(1-5) by (simp_all add: s1_def set_reg_def)
  have "exec_load ?b 0x26 i2 s1 = Next s2"
    unfolding exec_load_def Let_def e rd [OF al(1)] prod.case assms(1) by (simp add: s2_def e assms(1) [symmetric])
  moreover have "x_gpr s2 (rt_of i1) = get_word ?f (unat a)" "x_bus s2 = x_bus s"
    using assms(4,7) join_load [of a ?f "x_gpr s (rt_of i1)"] by (simp_all add: s2_def s1_def set_reg_def v_def)
  ultimately show ?thesis by blast
qed

definition guest_st :: "(nat \<Rightarrow> u32) \<Rightarrow> unit guest_mem interp_st" where
  "guest_st g = \<lparr>x_gpr = g, x_pc = 0x80010000, x_hi = 0, x_lo = 0, x_cop0 = (\<lambda>_. 0), x_load_reg = 0,
     x_load_val = 0, x_vblank_count = 0, x_hit_bp = False, x_trace_on = False, x_halted = False, x_bps = [],
     x_trace = (\<lambda>_. zero_trace_entry), x_trace_seq = 0, x_trace_idx = 0, x_bus = demo_mem\<rparr>"

definition unit_bus :: "unit guest_mem cpu_bus" where
  "unit_bus = guest_bus demo_host demo_ports
     \<lparr>bus_read_word = \<lambda>a m. (0, m), bus_read_half = \<lambda>a m. (0, m), bus_read_byte = \<lambda>a m. (0, m),
      bus_write_word = \<lambda>a v m. m, bus_write_half = \<lambda>a v m. m, bus_write_byte = \<lambda>a v m. m,
      gte_read_data = \<lambda>n m. (0, m), gte_read_ctrl = \<lambda>n m. (0, m), gte_write_data = \<lambda>n v m. m,
      gte_write_ctrl = \<lambda>n v m. m, gte_execute = \<lambda>c m. m, gte_store_note = \<lambda>a n m. m,
      dev_sio_tick = \<lambda>m. m, dev_vblank = \<lambda>m. m, irq_pending = \<lambda>m. 0\<rparr>"

text \<open>A hundred instructions of zeroed memory, from an odd program counter.\<close>

lemma r3000_registers_witness:
  "\<exists>n t. interp_step unit_bus 0x30000002 100 ((guest_st (\<lambda>_. 0))\<lparr>x_pc := 0x80010001\<rparr>) = Some (n, t) \<and> n \<le> 100 \<and> x_gpr t 0 = 0"
proof -
  have "x_gpr ((guest_st (\<lambda>_. 0))\<lparr>x_pc := 0x80010001\<rparr>) 0 = 0" "x_load_reg ((guest_st (\<lambda>_. 0))\<lparr>x_pc := 0x80010001\<rparr>) < 32"
    by (simp_all add: guest_st_def)
  then show ?thesis
    using r3000_registers [of "(guest_st (\<lambda>_. 0))\<lparr>x_pc := 0x80010001\<rparr>" "0x30000002" demo_host demo_ports _ 100]
    unfolding unit_bus_def by blast
qed

text \<open>\<open>LWL $2, 3($1)\<close> and \<open>LWR $2, 0($1)\<close> at the address 0x1001.\<close>

lemma r3000_unaligned_load_witness:
  "\<exists>s1 s2. exec_load unit_bus 0x22 0x88220003 (guest_st (\<lambda>r. 0x1001)) = Next s1 \<and> exec_load unit_bus 0x26 0x98220000 s1 = Next s2 \<and>
     x_gpr s2 2 = get_word (gm_ram demo_mem) 0x1001"
proof -
  have d: "rt_of 0x88220003 = 2" "rs_of 0x88220003 = 1" "rt_of 0x98220000 = 2" "rs_of 0x98220000 = 1"
    "simm_of 0x88220003 = 3" "simm_of 0x98220000 = 0"
    by (simp_all add: decode_defs)
  have x: "x_gpr (guest_st (\<lambda>r. 0x1001)) r = 0x1001" "x_bus (guest_st (\<lambda>r. 0x1001)) = demo_mem" for r
    by (simp_all add: guest_st_def)
  show ?thesis
    using r3000_unaligned_load [of "0x98220000" "0x88220003" "0x1001" "guest_st (\<lambda>r. 0x1001)" demo_host demo_ports]
    unfolding unit_bus_def d x by simp blast
qed

lemma store_merges:
  "(le_word b4 b5 b6 b7 AND 0xFFFFFF00) OR drop_bit 24 v = le_word (store_byte v 3) b5 b6 b7"
  "(le_word b4 b5 b6 b7 AND 0xFFFF0000) OR drop_bit 16 v = le_word (store_byte v 2) (store_byte v 3) b6 b7"
  "(le_word b4 b5 b6 b7 AND 0xFF000000) OR drop_bit 8 v = le_word (store_byte v 1) (store_byte v 2) (store_byte v 3) b7"
  "(le_word b0 b1 b2 b3 AND 0x000000FF) OR push_bit 8 v = le_word b0 (store_byte v 0) (store_byte v 1) (store_byte v 2)"
  "(le_word b0 b1 b2 b3 AND 0x0000FFFF) OR push_bit 16 v = le_word b0 b1 (store_byte v 0) (store_byte v 1)"
  "(le_word b0 b1 b2 b3 AND 0x00FFFFFF) OR push_bit 24 v = le_word b0 b1 b2 (store_byte v 0)"
proof -
  have sb: "bit (store_byte v j) n \<longleftrightarrow> n < 8 \<and> 8 * j + n < 32 \<and> bit v (8 * j + n)" for j n
    by (auto simp: store_byte_def bit_simps dest: bit_imp_le_length)
  show "(le_word b4 b5 b6 b7 AND 0xFFFFFF00) OR drop_bit 24 v = le_word (store_byte v 3) b5 b6 b7"
  "(le_word b4 b5 b6 b7 AND 0xFFFF0000) OR drop_bit 16 v = le_word (store_byte v 2) (store_byte v 3) b6 b7"
  "(le_word b4 b5 b6 b7 AND 0xFF000000) OR drop_bit 8 v = le_word (store_byte v 1) (store_byte v 2) (store_byte v 3) b7"
  "(le_word b0 b1 b2 b3 AND 0x000000FF) OR push_bit 8 v = le_word b0 (store_byte v 0) (store_byte v 1) (store_byte v 2)"
  "(le_word b0 b1 b2 b3 AND 0x0000FFFF) OR push_bit 16 v = le_word b0 b1 (store_byte v 0) (store_byte v 1)"
  "(le_word b0 b1 b2 b3 AND 0x00FFFFFF) OR push_bit 24 v = le_word b0 b1 b2 (store_byte v 0)"
    by (rule bit_word_eqI, (simp only: byte_bits sb), (auto dest: bit_imp_le_length)[1])+
qed

lemma store_le_word [simp]:
  "store_byte (le_word b0 b1 b2 b3) 0 = b0" "store_byte (le_word b0 b1 b2 b3) (Suc 0) = b1"
  "store_byte (le_word b0 b1 b2 b3) 2 = b2" "store_byte (le_word b0 b1 b2 b3) 3 = b3"
  by (rule bit_word_eqI, simp add: store_byte_def bit_simps bit_le_word)+

lemma put_le_word: "put_bytes 4 (le_word b0 b1 b2 b3) m f = f(m := b0, m + 1 := b1, m + 2 := b2, m + 3 := b3)"
proof (rule ext)
  fix i
  have "m \<le> i \<Longrightarrow> i < m + 4 \<Longrightarrow> i = m \<or> i = m + 1 \<or> i = m + 2 \<or> i = m + 3" by auto
  then show "put_bytes 4 (le_word b0 b1 b2 b3) m f i = (f(m := b0, m + 1 := b1, m + 2 := b2, m + 3 := b3)) i"
    by (auto simp: put_bytes_def)
qed

lemma put_word_bytes:
  "put_bytes 4 v m f = f(m := store_byte v 0, m + 1 := store_byte v 1, m + 2 := store_byte v 2, m + 3 := store_byte v 3)"
  using put_le_word [of "store_byte v 0" "store_byte v 1" "store_byte v 2" "store_byte v 3" m f] le_word_split [of v]
  by (simp add: store_byte_def)

lemma join_store:
  fixes a v :: u32
  assumes "unat a + 3 < 2 ^ 32"
    and "f1 = put_bytes 4 (swl_merge (a + 3) v (get_word f (unat ((a + 3) AND NOT 3)))) (unat ((a + 3) AND NOT 3)) f"
  shows "put_bytes 4 (swr_merge a v (get_word f1 (unat (a AND NOT 3)))) (unat (a AND NOT 3)) f1 = put_bytes 4 v (unat a) f"
  using assms(1)
proof (cases rule: unaligned_split)
  case aligned
  then have "f1 = put_bytes 4 v (unat a) f" unfolding assms(2) merge_defs Let_def aligned by simp
  then show ?thesis unfolding merge_defs Let_def aligned put_word_bytes by auto
next
  case (one m)
  have f1: "f1 = f(m + 4 := store_byte v 3)"
    unfolding assms(2) merge_defs Let_def one get_word_off by (simp add: store_merges put_le_word) (auto simp: fun_eq_iff add.commute)
  show ?thesis
    unfolding merge_defs Let_def one get_word_def f1 put_word_bytes [of v]
    by (simp add: store_merges put_le_word) (auto simp: fun_eq_iff add.commute)
next
  case (two m)
  have f1: "f1 = f(m + 4 := store_byte v 2, m + 5 := store_byte v 3)"
    unfolding assms(2) merge_defs Let_def two get_word_off by (simp add: store_merges put_le_word) (auto simp: fun_eq_iff add.commute)
  show ?thesis
    unfolding merge_defs Let_def two get_word_def f1 put_word_bytes [of v]
    by (simp add: store_merges put_le_word) (auto simp: fun_eq_iff add.commute)
next
  case (three m)
  have f1: "f1 = f(m + 4 := store_byte v 1, m + 5 := store_byte v 2, m + 6 := store_byte v 3)"
    unfolding assms(2) merge_defs Let_def three get_word_off by (simp add: store_merges put_le_word) (auto simp: fun_eq_iff add.commute)
  show ?thesis
    unfolding merge_defs Let_def three get_word_def f1 put_word_bytes [of v]
    by (simp add: store_merges put_le_word) (auto simp: fun_eq_iff add.commute)
qed

text \<open>The \<open>SWL\<close>/\<open>SWR\<close> pair stores an unaligned word: run on the last and the first
  byte of any word in RAM, the two instructions together write exactly the four bytes of the
  register, little-endian, and restore every neighbouring byte they touch.\<close>

theorem r3000_unaligned_store:
  assumes "rt_of i2 = rt_of i1" and "rs_of i2 = rs_of i1"
    and "a = x_gpr s (rs_of i1) + simm_of i2" and "simm_of i1 = simm_of i2 + 3" and "unat a + 4 \<le> 0x200000"
    and "plain_stores (x_bus s)"
  shows "\<exists>s1 s2. exec_store (guest_bus h io b) 0x2A i1 s = Next s1 \<and> exec_store (guest_bus h io b) 0x2E i2 s1 = Next s2 \<and>
     gm_ram (x_bus s2) = put_bytes 4 (x_gpr s (rt_of i1)) (unat a) (gm_ram (x_bus s)) \<and> x_gpr s2 = x_gpr s"
proof -
  let ?b = "guest_bus h io b" and ?v = "x_gpr s (rt_of i1)"
  have al: "(a AND NOT 3) < 0x200000" "((a + 3) AND NOT 3) < 0x200000" using align_low [OF assms(5)] by blast+
  have rd: "read_word ?b p s = (get_word (gm_ram (x_bus s)) (unat p), s)" if "p < 0x200000" for p and s :: "'a guest_mem interp_st"
    using read_low [OF that, of io "x_bus s"] by (simp add: read_word_def guest_bus_def)
  define put where "put p w t = t\<lparr>x_bus := (count_store p (x_bus t))\<lparr>gm_code := ram_store h 4 p w (gm_code (x_bus t))\<rparr>\<rparr>"
    for p w and t :: "'a guest_mem interp_st"
  have wr: "upd_bus (bus_write_word ?b p w) t = put p w t"
    if "p < 0x200000" "plain_stores (x_bus t)" for p w and t :: "'a guest_mem interp_st"
    using write_low [OF that, of h io w] by (simp add: upd_bus_def guest_bus_def put_def)
  have put: "gm_ram (x_bus (put p w t)) = put_bytes 4 w (unat p) (gm_ram (x_bus t))" "x_gpr (put p w t) = x_gpr t"
    "plain_stores (x_bus (put p w t)) = plain_stores (x_bus t)" for p w and t :: "'a guest_mem interp_st"
    by (simp_all add: put_def count_store_def [symmetric])
  define s1 where "s1 = put ((a + 3) AND NOT 3) (swl_merge (a + 3) ?v (get_word (gm_ram (x_bus s)) (unat ((a + 3) AND NOT 3)))) s"
  define s2 where "s2 = put (a AND NOT 3) (swr_merge a ?v (get_word (gm_ram (x_bus s1)) (unat (a AND NOT 3)))) s1"
  have ad: "x_gpr s (rs_of i1) + simm_of i1 = a + 3" "x_gpr s1 (rs_of i2) + simm_of i2 = a" "x_gpr s1 (rt_of i2) = ?v"
    using assms(1-4) by (simp_all add: s1_def put)
  have "exec_store ?b 0x2A i1 s = Next s1"
    unfolding exec_store_def Let_def ad rd [OF al(2)] prod.case wr [OF al(2) assms(6)] s1_def by simp
  moreover have i1: "plain_stores (x_bus s1)" using assms(6) by (simp_all add: s1_def put)
  have "exec_store ?b 0x2E i2 s1 = Next s2"
    unfolding exec_store_def Let_def ad rd [OF al(1)] prod.case wr [OF al(1) i1] s2_def by simp
  moreover have "gm_ram (x_bus s2) = put_bytes 4 ?v (unat a) (gm_ram (x_bus s))" "x_gpr s2 = x_gpr s"
    using assms(5) join_store [of a "gm_ram (x_bus s1)" ?v "gm_ram (x_bus s)"] by (simp_all add: s2_def s1_def put)
  ultimately show ?thesis by blast
qed

text \<open>\<open>SWL $2, 3($1)\<close> and \<open>SWR $2, 0($1)\<close> at the address 0x1002.\<close>

lemma r3000_unaligned_store_witness:
  "\<exists>s1 s2. exec_store unit_bus 0x2A 0xA8220003 (guest_st (\<lambda>r. 0x1002)) = Next s1 \<and> exec_store unit_bus 0x2E 0xB8220000 s1 = Next s2 \<and>
     get_word (gm_ram (x_bus s2)) 0x1002 = 0x1002"
proof -
  have d: "rt_of 0xA8220003 = 2" "rs_of 0xA8220003 = 1" "rt_of 0xB8220000 = 2" "rs_of 0xB8220000 = 1"
    "simm_of 0xA8220003 = 3" "simm_of 0xB8220000 = 0"
    by (simp_all add: decode_defs)
  have x: "x_gpr (guest_st (\<lambda>r. 0x1002)) r = 0x1002" "x_bus (guest_st (\<lambda>r. 0x1002)) = demo_mem" for r
    by (simp_all add: guest_st_def)
  have i: "plain_stores demo_mem" by (simp add: plain_stores_def demo_mem_def isolated_def has_def)
  obtain s1 s2 where "exec_store unit_bus 0x2A 0xA8220003 (guest_st (\<lambda>r. 0x1002)) = Next s1" "exec_store unit_bus 0x2E 0xB8220000 s1 = Next s2"
    "gm_ram (x_bus s2) = put_bytes 4 0x1002 0x1002 (gm_ram demo_mem)"
    using r3000_unaligned_store [of "0xB8220000" "0xA8220003" "0x1002" "guest_st (\<lambda>r. 0x1002)" demo_host demo_ports] i
    unfolding unit_bus_def d x by simp blast
  then show ?thesis by (intro exI [of _ s1] exI [of _ s2]) simp
qed

section \<open>Exceptions\<close>

lemma pop_push: "sr_pop (sr_push sr) = sr AND NOT 0x30"
proof -
  have m: "(0x3F::u32) = mask 6" "(0x0F::u32) = mask 4" "(0xFFFFFFC0::u32) = NOT (mask 6)" "(0x30::u32) = push_bit 4 (mask 2)"
    by (simp_all add: mask_eq_exp_minus_1)
  show ?thesis
    unfolding sr_pop_def sr_push_def m
    by (rule bit_word_eqI) (auto simp: bit_simps simp del: push_bit_of_1)
qed

text \<open>\<open>RFE\<close> after an exception restores the status register, except that it also clears the
  oldest mode bits 4 and 5, which the R3000A keeps.\<close>

lemma r3000_rfe_clears_old_mode:
  "\<exists>t. exec_insn b 0x42000010 pc (raise_exception e d s) = Next t \<and> x_cop0 t 12 = x_cop0 s 12 AND NOT 0x30 \<and> x_gpr t = x_gpr s"
proof -
  have d: "op_of 0x42000010 = 0x10" "rs_of 0x42000010 = 0x10" "func_of 0x42000010 = 0x10"
    by (simp_all add: decode_defs)
  have "x_cop0 (raise_exception e d s) 12 = sr_push (x_cop0 s 12)" "x_gpr (raise_exception e d s) = x_gpr s"
    by (simp_all add: raise_exception_def Let_def)
  then show ?thesis
    unfolding exec_insn_def Let_def d exec_cop0_def by (simp only: pop_push) simp
qed

text \<open>\<open>SYSCALL\<close> saves the address of the instruction after it, because the program counter
  has already been advanced.\<close>

lemma r3000_syscall_epc:
  assumes "x_pc s \<noteq> 0" and "fst (bus_read_word b (x_pc s) (x_bus s)) = 0x0000000C"
  shows "\<exists>t. exec_one b (Suc n) s = Some t \<and> x_cop0 t 14 = x_pc s + 4"
proof -
  obtain s1 where f: "fetch b s = (0x0000000C, s1)" using fetch_insn [of b s] assms(2) by (metis prod.collapse)
  have "x_pc s1 = x_pc s + 4" using fetch_keeps(1) [of b s] f by simp
  then show ?thesis
    using assms(1) f by (simp add: exec_special_def decode_defs raise_exception_def Let_def)
qed

text \<open>The value of a load is already visible to the very next instruction.\<close>

lemma r3000_load_not_delayed:
  "x_load_reg s \<noteq> 0 \<Longrightarrow> x_gpr (snd (fetch b s)) (x_load_reg s) = x_load_val s"
  by (cases "bus_read_word b (x_pc s) (x_bus s)") (simp add: fetch_def Let_def read_word_def apply_load_delay_def trace_record_def)

text \<open>\<open>J 0x80020000\<close> with \<open>SYSCALL\<close> in its delay slot: the exception is recorded in the
  coprocessor but the jump then overwrites the handler address.\<close>

definition demo_slot :: "u32 \<Rightarrow> u32" where
  "demo_slot a = (if a = 0x80010000 then 0x08008000 else if a = 0x80010004 then 0x0000000C else 0)"

lemma r3000_delay_slot_trap_lost:
  "map_option (\<lambda>t. (x_pc t, x_cop0 t 13)) (exec_one word_bus 3 (boot_st demo_slot)) = Some (0x80020000, push_bit 2 8)"
  by code_simp

end
