(* ===== verification/Log_Rings.thy ===== *)
theory Log_Rings
  imports Prelude
begin

text \<open>
  The always-on rings of the runtime. \<open>log_ring\<close> is the contract they share: entries are
  written at a cursor that runs modulo a power of two, the oldest being overwritten, and a
  dump returns the newest entries oldest first. It is interpreted on the device-event ring
  (\<open>psxrecomp/runtime/src/device_trace.c\<close>) and the event timeline
  (\<open>psxrecomp/runtime/src/event_ring.c\<close>) below and on the SPU's event ring in \<open>Spu\<close>.
  \<open>bounded_queue\<close> is the contract of a FIFO that drops its oldest elements when it
  overflows, as the CD-audio input of the SPU does.
\<close>

section \<open>Rings that overwrite their oldest entry\<close>

locale log_ring =
  fixes cap :: nat
    and ok :: "'s \<Rightarrow> bool"
    and cells :: "'s \<Rightarrow> nat \<Rightarrow> 'e"
    and wpos :: "'s \<Rightarrow> nat"
    and note_ev :: "'x \<Rightarrow> 's \<Rightarrow> 's"
    and entry :: "'x \<Rightarrow> 's \<Rightarrow> 'e"
  assumes cap_pos: "0 < cap"
    and ok_note: "ok s \<Longrightarrow> ok (note_ev x s)"
    and wpos_less: "ok s \<Longrightarrow> wpos s < cap"
    and wpos_note: "ok s \<Longrightarrow> wpos (note_ev x s) = (wpos s + 1) mod cap"
    and cells_note: "ok s \<Longrightarrow> cells (note_ev x s) i = (if i = wpos s then entry x s else cells s i)"
begin

fun entries :: "'x list \<Rightarrow> 's \<Rightarrow> 'e list" where
  "entries [] s = []"
| "entries (x # xs) s = entry x s # entries xs (note_ev x s)"

lemma entries_snoc: "entries (xs @ [x]) s = entries xs s @ [entry x (fold note_ev xs s)]"
  by (induction xs arbitrary: s) simp_all

lemma length_entries [simp]: "length (entries xs s) = length xs"
  by (induction xs arbitrary: s) simp_all

lemma ok_notes: "ok s \<Longrightarrow> ok (fold note_ev xs s)"
  by (induction xs arbitrary: s) (simp_all add: ok_note)

lemma wpos_notes: "ok s \<Longrightarrow> wpos (fold note_ev xs s) = (wpos s + length xs) mod cap"
proof (induction xs rule: rev_induct)
  case Nil
  then show ?case by (simp add: wpos_less)
next
  case (snoc x xs)
  then show ?case by (simp add: wpos_note ok_notes mod_Suc_eq)
qed

lemma slot_distinct:
  assumes "a < b" "b < a + cap"
  shows "a mod cap \<noteq> b mod cap"
proof
  assume "a mod cap = b mod cap"
  then have "cap dvd b - a"
    using assms by (metis less_imp_le mod_eq_dvd_iff_nat)
  then show False
    using assms by (auto dest: dvd_imp_le)
qed

lemma cells_notes:
  "ok s \<Longrightarrow> j < length xs \<Longrightarrow> length xs \<le> j + cap \<Longrightarrow>
   cells (fold note_ev xs s) ((wpos s + j) mod cap) = entries xs s ! j"
proof (induction xs rule: rev_induct)
  case (snoc x xs)
  show ?case
  proof (cases "j = length xs")
    case True
    then show ?thesis
      using snoc.prems by (simp add: cells_note ok_notes wpos_notes entries_snoc nth_append)
  next
    case False
    then have "(wpos s + j) mod cap \<noteq> (wpos s + length xs) mod cap"
      using snoc.prems by (intro slot_distinct) auto
    then show ?thesis
      using snoc False by (simp add: cells_note ok_notes wpos_notes entries_snoc nth_append)
  qed
qed simp

lemma cells_other:
  "ok s \<Longrightarrow> (\<And>j. j < length xs \<Longrightarrow> i \<noteq> (wpos s + j) mod cap) \<Longrightarrow>
   cells (fold note_ev xs s) i = cells s i"
proof (induction xs rule: rev_induct)
  case (snoc x xs)
  have "i \<noteq> (wpos s + length xs) mod cap"
    using snoc.prems by simp
  then show ?case
    using snoc by (simp add: cells_note ok_notes wpos_notes)
qed simp

text \<open>The dump: the newest \<open>n\<close> entries, oldest first.\<close>

lemma newest:
  assumes "ok s" "n \<le> length xs" "n \<le> cap"
    and "start mod cap = (wpos s + (length xs - n)) mod cap"
  shows "map (\<lambda>i. cells (fold note_ev xs s) ((start + i) mod cap)) [0..<n] = drop (length xs - n) (entries xs s)"
proof (rule nth_equalityI)
  fix i assume "i < length (map (\<lambda>i. cells (fold note_ev xs s) ((start + i) mod cap)) [0..<n])"
  then have i: "i < n" by simp
  have "(start + i) mod cap = (wpos s + (length xs - n + i)) mod cap"
    using mod_add_cong [OF assms(4) refl, of i] by (simp add: add.assoc)
  then show "map (\<lambda>i. cells (fold note_ev xs s) ((start + i) mod cap)) [0..<n] ! i
      = drop (length xs - n) (entries xs s) ! i"
    using assms i cells_notes [of s "length xs - n + i" xs] by simp
qed (use assms in simp)

end

section \<open>FIFOs that drop their oldest elements\<close>

definition take_last :: "nat \<Rightarrow> 'a list \<Rightarrow> 'a list" where
  "take_last n xs = drop (length xs - n) xs"

lemma take_last_append: "take_last n (take_last n xs @ ys) = take_last n (xs @ ys)"
proof (cases "length xs \<le> n")
  case False
  have "length (take_last n xs @ ys) - n = length ys"
    using False by (simp add: take_last_def)
  then show ?thesis
    using False by (simp add: take_last_def min_def add.commute)
qed (simp add: take_last_def)

locale bounded_queue =
  fixes cap :: nat
    and ok :: "'s \<Rightarrow> bool"
    and queue :: "'s \<Rightarrow> 'a list"
    and push :: "'a list \<Rightarrow> 's \<Rightarrow> 's"
    and pop :: "'s \<Rightarrow> ('a \<times> 's) option"
  assumes ok_push: "ok s \<Longrightarrow> ok (push xs s)"
    and ok_pop: "ok s \<Longrightarrow> pop s = Some (x, s') \<Longrightarrow> ok s'"
    and queue_push: "ok s \<Longrightarrow> queue (push xs s) = take_last cap (queue s @ xs)"
    and pop_empty: "ok s \<Longrightarrow> queue s = [] \<Longrightarrow> pop s = None"
    and pop_some: "ok s \<Longrightarrow> queue s = x # q \<Longrightarrow> \<exists>s'. pop s = Some (x, s') \<and> queue s' = q"
begin

lemma push_pieces: "ok s \<Longrightarrow> queue (push ys (push xs s)) = queue (push (xs @ ys) s)"
  by (simp add: queue_push ok_push take_last_append)

fun drain :: "nat \<Rightarrow> 's \<Rightarrow> 'a list" where
  "drain 0 s = []"
| "drain (Suc n) s = (case pop s of None \<Rightarrow> [] | Some (x, s') \<Rightarrow> x # drain n s')"

lemma drain_queue: "ok s \<Longrightarrow> drain n s = take n (queue s)"
proof (induction n arbitrary: s)
  case (Suc n)
  show ?case
  proof (cases "queue s")
    case Nil
    then show ?thesis using Suc by (simp add: pop_empty)
  next
    case (Cons x q)
    then obtain s' where "pop s = Some (x, s')" "queue s' = q"
      using pop_some Suc.prems by blast
    then show ?thesis
      using Suc Cons ok_pop by simp
  qed
qed simp

lemma drain_push: "ok s \<Longrightarrow> queue s = [] \<Longrightarrow> drain n (push xs s) = take n (take_last cap xs)"
  by (simp add: drain_queue ok_push queue_push)

end

end
