(* ===== verification/Mdec.thy ===== *)
theory Mdec
  imports Log_Rings
begin

text \<open>
  The motion decoder: \<open>psxrecomp/runtime/src/mdec.c\<close>.

  \<open>mdec_st\<close> is the static \<open>MDECState\<close> together with the trace ring, the decode counter and
  the colour-decode stamp of the file. The two heap buffers are functions of the index with
  their capacities; whether the host's \<open>realloc\<close> grants a request is the field
  \<open>m_realloc_ok\<close>, which nothing changes, and \<open>m_frame\<close> is \<open>s_frame_count\<close>. Blocks of
  \<open>int16_t\<close> are functions to HOL integers; the lemmas bound them, so that no \<open>int\<close>
  arithmetic of the decoder can overflow.
\<close>

section \<open>State\<close>

record mdec_event =
  me_seq :: u64
  me_frame :: u32
  me_kind :: u32
  me_value :: u32
  me_command :: u32
  me_input_count :: u32
  me_expected_halfwords :: u32
  me_output_size :: u32
  me_output_pos :: u32
  me_macroblocks :: u32
  me_blocks :: u32
  me_stop_reason :: u32
  me_underruns :: u32

record mdec_st =
  m_command :: u32
  m_expected :: u32
  m_input_count :: u32
  m_input :: "nat \<Rightarrow> u16"
  m_input_cap :: u32
  m_output :: "nat \<Rightarrow> u8"
  m_output_size :: u32
  m_output_pos :: u32
  m_output_cap :: u32
  m_y_quant :: "nat \<Rightarrow> u8"
  m_uv_quant :: "nat \<Rightarrow> u8"
  m_scale :: "nat \<Rightarrow> int"
  m_bit15 :: bool
  m_signed :: bool
  m_depth :: u8
  m_current_block :: u8
  m_busy :: bool
  m_input_full :: bool
  m_dma_in_en :: bool
  m_dma_out_en :: bool
  m_last_status :: u32
  m_macroblocks :: u32
  m_blocks :: u32
  m_stop_reason :: u32
  m_input_pos :: u32
  m_input_end :: u32
  m_dma_in_words :: u32
  m_dma_out_words :: u32
  m_underflows :: u32
  m_trace :: "nat \<Rightarrow> mdec_event"
  m_trace_seq :: u64
  m_trace_head :: u32
  m_decode_count :: u32
  m_last_color_frame :: u64
  m_frame :: u64
  m_realloc_ok :: "nat \<Rightarrow> bool"

abbreviation (input) MDEC_CMD_DECODE :: u32 where "MDEC_CMD_DECODE \<equiv> 1"
abbreviation (input) MDEC_CMD_SET_QUANT :: u32 where "MDEC_CMD_SET_QUANT \<equiv> 2"
abbreviation (input) MDEC_CMD_SET_SCALE :: u32 where "MDEC_CMD_SET_SCALE \<equiv> 3"

abbreviation (input) MDEC_EVT_RESET :: u32 where "MDEC_EVT_RESET \<equiv> 1"
abbreviation (input) MDEC_EVT_CTRL_WRITE :: u32 where "MDEC_EVT_CTRL_WRITE \<equiv> 2"
abbreviation (input) MDEC_EVT_CMD_BEGIN :: u32 where "MDEC_EVT_CMD_BEGIN \<equiv> 3"
abbreviation (input) MDEC_EVT_CMD_DONE :: u32 where "MDEC_EVT_CMD_DONE \<equiv> 4"
abbreviation (input) MDEC_EVT_DECODE_DONE :: u32 where "MDEC_EVT_DECODE_DONE \<equiv> 5"
abbreviation (input) MDEC_EVT_OUTPUT_DRAINED :: u32 where "MDEC_EVT_OUTPUT_DRAINED \<equiv> 10"
abbreviation (input) MDEC_EVT_READ_UNDERFLOW :: u32 where "MDEC_EVT_READ_UNDERFLOW \<equiv> 11"

definition zigzag_to_linear :: "nat \<Rightarrow> nat" where
  "zigzag_to_linear k =
     [0x00, 0x08, 0x01, 0x02, 0x09, 0x10, 0x18, 0x11,
      0x0a, 0x03, 0x04, 0x0b, 0x12, 0x19, 0x20, 0x28,
      0x21, 0x1a, 0x13, 0x0c, 0x05, 0x06, 0x0d, 0x14,
      0x1b, 0x22, 0x29, 0x30, 0x38, 0x31, 0x2a, 0x23,
      0x1c, 0x15, 0x0e, 0x07, 0x0f, 0x16, 0x1d, 0x24,
      0x2b, 0x32, 0x39, 0x3a, 0x33, 0x2c, 0x25, 0x1e,
      0x17, 0x1f, 0x26, 0x2d, 0x34, 0x3b, 0x3c, 0x35,
      0x2e, 0x27, 0x2f, 0x36, 0x3d, 0x3e, 0x37, 0x3f] ! k"

definition zero_mdec_event :: mdec_event where
  "zero_mdec_event = \<lparr>me_seq = 0, me_frame = 0, me_kind = 0, me_value = 0, me_command = 0,
     me_input_count = 0, me_expected_halfwords = 0, me_output_size = 0, me_output_pos = 0,
     me_macroblocks = 0, me_blocks = 0, me_stop_reason = 0, me_underruns = 0\<rparr>"

definition mdec_row :: "u32 \<Rightarrow> u32 \<Rightarrow> mdec_st \<Rightarrow> mdec_event" where
  "mdec_row kind val s =
     \<lparr>me_seq = m_trace_seq s, me_frame = ucast (m_frame s), me_kind = kind, me_value = val,
      me_command = m_command s, me_input_count = m_input_count s, me_expected_halfwords = m_expected s,
      me_output_size = m_output_size s, me_output_pos = m_output_pos s, me_macroblocks = m_macroblocks s,
      me_blocks = m_blocks s, me_stop_reason = m_stop_reason s, me_underruns = m_underflows s\<rparr>"

definition trace_event :: "u32 \<Rightarrow> u32 \<Rightarrow> mdec_st \<Rightarrow> mdec_st" where
  "trace_event kind val s =
     s\<lparr>m_trace := (m_trace s)(unat (m_trace_head s) := mdec_row kind val s),
       m_trace_seq := m_trace_seq s + 1, m_trace_head := (m_trace_head s + 1) mod 4096\<rparr>"

section \<open>Buffers\<close>

definition clamp_int :: "int \<Rightarrow> int \<Rightarrow> int \<Rightarrow> int" where
  "clamp_int val lo hi = (if val < lo then lo else if val > hi then hi else val)"

definition sign_extend_10 :: "u16 \<Rightarrow> int" where
  "sign_extend_10 val = drop_bit 6 (s16 (push_bit 6 (uint val)))"

definition clear_output :: "mdec_st \<Rightarrow> mdec_st" where
  "clear_output s = s\<lparr>m_output_size := 0, m_output_pos := 0\<rparr>"

text \<open>
  The doubling loop of both capacity functions, on naturals: requests stay far below
  \<open>2 ^ 31\<close> (\<open>mdec_output_bound\<close> below), so the \<open>uint32_t\<close> doubling does not wrap.
\<close>

function grow_cap :: "nat \<Rightarrow> nat \<Rightarrow> nat" where
  "grow_cap new_cap need = (if 0 < new_cap \<and> new_cap < need then grow_cap (2 * new_cap) need else new_cap)"
  by pat_completeness auto
termination
  by (relation "measure (\<lambda>(c, n). n - c)") auto

declare grow_cap.simps [simp del]

definition ensure_input_capacity :: "u32 \<Rightarrow> mdec_st \<Rightarrow> bool \<times> mdec_st" where
  "ensure_input_capacity halfwords s =
     (if halfwords \<le> m_input_cap s then (True, s)
      else
        let c0 = (if m_input_cap s \<noteq> 0 then unat (m_input_cap s) else 256);
            new_cap = grow_cap c0 (unat halfwords)
        in if m_realloc_ok s (new_cap * 2) then (True, s\<lparr>m_input_cap := of_nat new_cap\<rparr>) else (False, s))"

definition ensure_output_capacity :: "u32 \<Rightarrow> mdec_st \<Rightarrow> bool \<times> mdec_st" where
  "ensure_output_capacity bytes s =
     (if bytes \<le> m_output_cap s then (True, s)
      else
        let c0 = (if m_output_cap s \<noteq> 0 then unat (m_output_cap s) else 4096);
            new_cap = grow_cap c0 (unat bytes)
        in if m_realloc_ok s new_cap then (True, s\<lparr>m_output_cap := of_nat new_cap\<rparr>) else (False, s))"

definition append_byte :: "u8 \<Rightarrow> mdec_st \<Rightarrow> mdec_st" where
  "append_byte val s =
     (let (ok, s1) = ensure_output_capacity (m_output_size s + 1) s in
      if \<not> ok then s1
      else s1\<lparr>m_output := (m_output s1)(unat (m_output_size s1) := val), m_output_size := m_output_size s1 + 1\<rparr>)"

definition input_byte :: "mdec_st \<Rightarrow> nat \<Rightarrow> u8" where
  "input_byte s byte_index =
     (let hw = m_input s (byte_index div 2) in
      if byte_index mod 2 = 1 then ucast (drop_bit 8 hw) else ucast hw)"

definition finish_command :: "mdec_st \<Rightarrow> mdec_st" where
  "finish_command s =
     trace_event MDEC_EVT_CMD_DONE (m_command s)
       (s\<lparr>m_expected := 0, m_input_count := 0, m_busy := False, m_input_full := False\<rparr>)"

definition soft_reset :: "mdec_st \<Rightarrow> mdec_st" where
  "soft_reset s =
     s\<lparr>m_command := 0, m_expected := 0, m_input_count := 0, m_output_size := 0, m_output_pos := 0,
       m_bit15 := False, m_signed := False, m_depth := 3, m_current_block := 4, m_busy := False,
       m_input_full := False, m_dma_in_en := False, m_dma_out_en := False, m_last_status := 0,
       m_macroblocks := 0, m_blocks := 0, m_stop_reason := 0, m_input_pos := 0, m_input_end := 0,
       m_dma_in_words := 0, m_dma_out_words := 0, m_underflows := 0\<rparr>"

section \<open>The inverse transform\<close>

definition sign_x_to_s32 :: "nat \<Rightarrow> int \<Rightarrow> int" where
  "sign_x_to_s32 bits v = (let shift = 32 - bits in drop_bit shift (s32 (push_bit shift v)))"

definition mask9_clamp_s8 :: "int \<Rightarrow> int" where
  "mask9_clamp_s8 v =
     (let v1 = sign_x_to_s32 9 v; v2 = (if v1 < -128 then -128 else v1) in if v2 > 127 then 127 else v2)"

definition idct_sum :: "(nat \<Rightarrow> int) \<Rightarrow> (nat \<Rightarrow> int) \<Rightarrow> nat \<Rightarrow> nat \<Rightarrow> int" where
  "idct_sum blk scale col x = sum_list (map (\<lambda>u. blk (col * 8 + u) * scale (x * 8 + u)) [0..<8])"

definition idct_pass1 :: "(nat \<Rightarrow> int) \<Rightarrow> (nat \<Rightarrow> int) \<Rightarrow> nat \<Rightarrow> int" where
  "idct_pass1 scale blk i =
     (let x = i div 8; col = i mod 8 in s16 (drop_bit 15 (idct_sum blk scale col x + 0x4000)))"

definition idct_block :: "(nat \<Rightarrow> int) \<Rightarrow> (nat \<Rightarrow> int) \<Rightarrow> nat \<Rightarrow> int" where
  "idct_block scale blk i =
     (let col = i div 8; x = i mod 8
      in mask9_clamp_s8 (drop_bit 15 (idct_sum (idct_pass1 scale blk) scale col x + 0x4000)))"

section \<open>Run-length blocks\<close>

definition sign_bias :: "int \<Rightarrow> int" where
  "sign_bias ci = (if ci \<noteq> 0 then (if ci < 0 then 8 else -8) else 0)"

function skip_pad :: "(nat \<Rightarrow> u16) \<Rightarrow> nat \<Rightarrow> u16 \<Rightarrow> nat \<Rightarrow> u16 \<times> nat" where
  "skip_pad inp fin word pos =
     (if word = 0xFE00 \<and> pos < fin then skip_pad inp fin (inp pos) (pos + 1) else (word, pos))"
  by pat_completeness auto
termination
  by (relation "measure (\<lambda>(inp, fin, word, pos). fin - pos)") auto

definition dc_coeff :: "u16 \<Rightarrow> int \<Rightarrow> int" where
  "dc_coeff word q =
     (let ci = sign_extend_10 (word AND 0x03FF);
          tmp = (if q \<noteq> 0 then push_bit 4 (ci * q) + sign_bias ci else push_bit 4 (ci * 2))
      in clamp_int tmp (-0x4000) 0x3FFF)"

definition ac_coeff :: "u16 \<Rightarrow> int \<Rightarrow> int" where
  "ac_coeff word q =
     (let ci = sign_extend_10 (word AND 0x03FF);
          tmp = (if q \<noteq> 0 then push_bit 4 (drop_bit 3 (ci * q)) + sign_bias ci else push_bit 4 (ci * 2))
      in clamp_int tmp (-0x4000) 0x3FFF)"

function rle_loop :: "(nat \<Rightarrow> u16) \<Rightarrow> (nat \<Rightarrow> u8) \<Rightarrow> nat \<Rightarrow> nat \<Rightarrow> nat \<Rightarrow> nat \<Rightarrow> (nat \<Rightarrow> int) \<Rightarrow> (nat \<Rightarrow> int) \<times> nat" where
  "rle_loop inp quant qscale fin pos k blk =
     (if pos < fin \<and> k < 63 then
        let word = inp pos; pos1 = pos + 1 in
        if word = 0xFE00 then (blk, pos1)
        else
          let k1 = k + unat (drop_bit 10 word AND 0x3F) + 1 in
          if k1 \<ge> 64 then (blk, pos1)
          else rle_loop inp quant qscale fin pos1 k1
                 (blk(zigzag_to_linear k1 := ac_coeff word (int qscale * uint (quant k1))))
      else (blk, pos))"
  by pat_completeness auto
termination
  by (relation "measure (\<lambda>(inp, quant, qscale, fin, pos, k, blk). fin - pos)") auto

declare skip_pad.simps [simp del] rle_loop.simps [simp del]

text \<open>The body of \<open>decode_rle_block\<close> once \<open>pos < end\<close> is known: the block and the new position.\<close>

definition rle_block :: "(nat \<Rightarrow> u16) \<Rightarrow> (nat \<Rightarrow> u8) \<Rightarrow> (nat \<Rightarrow> int) \<Rightarrow> nat \<Rightarrow> nat \<Rightarrow> (nat \<Rightarrow> int) \<times> nat" where
  "rle_block inp quant scale pos fin =
     (let (word, pos1) = skip_pad inp fin (inp pos) (pos + 1);
          qscale = unat (drop_bit 10 word AND 0x3F);
          blk0 = (\<lambda>_. 0)(0 := dc_coeff word (uint (quant 0)));
          (blk, pos2) = rle_loop inp quant qscale fin pos1 0 blk0
      in (idct_block scale blk, pos2))"

definition decode_rle_block :: "(nat \<Rightarrow> u8) \<Rightarrow> nat \<Rightarrow> nat \<Rightarrow> mdec_st \<Rightarrow> (nat \<Rightarrow> int) option \<times> nat \<times> mdec_st" where
  "decode_rle_block quant pos fin s =
     (if pos \<ge> fin then (None, pos, s)
      else
        let (blk, pos1) = rle_block (m_input s) quant (m_scale s) pos fin
        in (Some blk, pos1, s\<lparr>m_blocks := m_blocks s + 1\<rparr>))"

lemma skip_pad_pos: "pos \<le> snd (skip_pad inp fin word pos)"
proof (induction inp fin word pos rule: skip_pad.induct)
  case (1 inp fin word pos)
  then show ?case by (subst skip_pad.simps) auto
qed

lemma rle_loop_pos: "pos \<le> snd (rle_loop inp quant qs fin pos k blk)"
proof (induction inp quant qs fin pos k blk rule: rle_loop.induct)
  case (1 inp quant qs fin pos k blk)
  let ?k1 = "k + unat (drop_bit 10 (inp pos) AND 0x3F) + 1"
  show ?case
  proof (cases "pos < fin \<and> k < 63 \<and> inp pos \<noteq> 0xFE00 \<and> ?k1 < 64")
    case True
    then have "pos + 1 \<le> snd (rle_loop inp quant qs fin (pos + 1) ?k1
        (blk(zigzag_to_linear ?k1 := ac_coeff (inp pos) (int qs * uint (quant ?k1)))))"
      by (intro 1 [OF _ refl refl _ refl]) (use True in auto)
    then show ?thesis
      using True by (subst rle_loop.simps) (simp add: Let_def)
  next
    case False
    then show ?thesis
      by (subst rle_loop.simps) (auto simp: Let_def)
  qed
qed

lemma rle_block_pos: "pos < snd (rle_block inp quant scale pos fin)"
proof -
  obtain w p1 where p1: "skip_pad inp fin (inp pos) (pos + 1) = (w, p1)" by (metis prod.exhaust)
  let ?b = "(\<lambda>_. 0)(0 := dc_coeff w (uint (quant 0)))" and ?q = "unat (drop_bit 10 w AND 0x3F)"
  obtain b p2 where p2: "rle_loop inp quant ?q fin p1 0 ?b = (b, p2)" by (metis prod.exhaust)
  have "pos + 1 \<le> p1"
    using skip_pad_pos [of "pos + 1" inp fin "inp pos"] p1 by simp
  moreover have "p1 \<le> p2"
    using rle_loop_pos [of p1 inp quant ?q fin 0 ?b] p2 by simp
  ultimately show ?thesis
    by (simp add: rle_block_def p1 [simplified] p2)
qed

lemma decode_rle_block_pos: "pos < fin \<Longrightarrow> pos < fst (snd (decode_rle_block quant pos fin s))"
  using rle_block_pos [of pos "m_input s" quant "m_scale s" fin]
  by (cases "rle_block (m_input s) quant (m_scale s) pos fin") (simp add: decode_rle_block_def)

lemma decode_rle_block_pos': "decode_rle_block quant pos fin s = (r, p, s1) \<Longrightarrow> pos < fin \<Longrightarrow> pos < p"
  using decode_rle_block_pos [of pos fin quant s] by simp

lemma decode_rle_block_le: "pos \<le> fst (snd (decode_rle_block quant pos fin s))"
  using decode_rle_block_pos [of pos fin quant s] by (cases "pos < fin") (simp_all add: decode_rle_block_def)

section \<open>Pixels\<close>

definition to_output_u8 :: "bool \<Rightarrow> int \<Rightarrow> u8" where
  "to_output_u8 sg val =
     (let v = clamp_int val (-128) 127 in if sg then word_of_int v else word_of_int (v + 128))"

definition rgb_to_555_chan :: "u8 \<Rightarrow> nat" where
  "rgb_to_555_chan c = (let v = (unat c + 4) div 8 in if v > 0x1F then 0x1F else v)"

definition pixel_rgb :: "int \<Rightarrow> int \<Rightarrow> int \<Rightarrow> int \<times> int \<times> int" where
  "pixel_rgb y cr cb =
     (mask9_clamp_s8 (y + drop_bit 8 (359 * cr + 0x80)),
      mask9_clamp_s8 (y + drop_bit 8 (((-88 * cb) AND NOT 0x1F) + ((-183 * cr) AND NOT 0x07) + 0x80)),
      mask9_clamp_s8 (y + drop_bit 8 (454 * cb + 0x80)))"

text \<open>The bytes one pixel appends: two at 15 bits, three at 24.\<close>

definition rgb_pixel_bytes :: "u8 \<Rightarrow> bool \<Rightarrow> bool \<Rightarrow> int \<Rightarrow> int \<Rightarrow> int \<Rightarrow> u8 list" where
  "rgb_pixel_bytes depth sg bit15 y cr cb =
     (let (r, g, b) = pixel_rgb y cr cb;
          ru = r XOR 0x80; gu = g XOR 0x80; bu = b XOR 0x80
      in if depth = 3 then
           let packed = (of_nat (rgb_to_555_chan (word_of_int ru)) :: u16)
                          OR push_bit 5 (of_nat (rgb_to_555_chan (word_of_int gu)))
                          OR push_bit 10 (of_nat (rgb_to_555_chan (word_of_int bu)));
               pixel_xor = (if bit15 then 0x8000 else 0) OR (if sg then 0x4210 else 0);
               p = packed XOR pixel_xor
           in [ucast p, ucast (drop_bit 8 p)]
         else
           let rgb_xor = (if sg then 0x80 else 0) :: u8
           in [word_of_int ru XOR rgb_xor, word_of_int gu XOR rgb_xor, word_of_int bu XOR rgb_xor])"

definition append_rgb_pixel :: "int \<Rightarrow> int \<Rightarrow> int \<Rightarrow> mdec_st \<Rightarrow> mdec_st" where
  "append_rgb_pixel y cr cb s =
     fold append_byte (rgb_pixel_bytes (m_depth s) (m_signed s) (m_bit15 s) y cr cb) s"

definition append_luma_block :: "(nat \<Rightarrow> int) \<Rightarrow> mdec_st \<Rightarrow> mdec_st" where
  "append_luma_block yblk s = fold (\<lambda>i st. append_byte (to_output_u8 (m_signed st) (yblk i)) st) [0..<64] s"

definition append_color_macroblock ::
  "(nat \<Rightarrow> int) \<Rightarrow> (nat \<Rightarrow> int) \<Rightarrow> (nat \<Rightarrow> nat \<Rightarrow> int) \<Rightarrow> mdec_st \<Rightarrow> mdec_st" where
  "append_color_macroblock crblk cbblk yblk s =
     fold (\<lambda>py st. fold (\<lambda>px st1.
         let y_index = (if py \<ge> 8 then 2 else 0) + (if px \<ge> 8 then 1 else 0);
             lx = px mod 8; ly = py mod 8; chroma = px div 2 + (py div 2) * 8
         in append_rgb_pixel (yblk y_index (lx + ly * 8)) (crblk chroma) (cbblk chroma) st1)
       [0..<16] st) [0..<16] s"

section \<open>Decoding\<close>

function luma_loop :: "nat \<Rightarrow> nat \<Rightarrow> mdec_st \<Rightarrow> nat \<times> mdec_st" where
  "luma_loop fin pos s =
     (if pos < fin then
        case decode_rle_block (m_y_quant s) pos fin s of
          (None, pos1, s1) \<Rightarrow> (pos1, s1)
        | (Some blk, pos1, s1) \<Rightarrow>
            let s2 = append_luma_block blk s1
            in luma_loop fin pos1 (s2\<lparr>m_macroblocks := m_macroblocks s2 + 1\<rparr>)
      else (pos, s))"
  by pat_completeness auto
termination
proof (relation "measure (\<lambda>(fin, pos, s). fin - pos)", goal_cases)
  case 2
  then show ?case
    using decode_rle_block_pos' [OF sym] by (clarsimp simp: diff_less_mono2)
qed simp

text \<open>The six blocks of a colour macroblock, each with the stop code of its failure.\<close>

fun decode_blocks :: "(bool \<times> u32) list \<Rightarrow> nat \<Rightarrow> nat \<Rightarrow> mdec_st \<Rightarrow> u32 option \<times> (nat \<Rightarrow> int) list \<times> nat \<times> mdec_st" where
  "decode_blocks [] pos fin s = (None, [], pos, s)"
| "decode_blocks ((luma, stop) # bs) pos fin s =
     (case decode_rle_block (if luma then m_y_quant s else m_uv_quant s) pos fin s of
        (None, pos1, s1) \<Rightarrow> (Some stop, [], pos1, s1)
      | (Some blk, pos1, s1) \<Rightarrow>
          let (r, blks, pos2, s2) = decode_blocks bs pos1 fin s1 in (r, blk # blks, pos2, s2))"

definition macroblock_plan :: "(bool \<times> u32) list" where
  "macroblock_plan = [(False, 2), (False, 3), (True, 4), (True, 5), (True, 6), (True, 7)]"

lemma decode_blocks_le: "pos \<le> fst (snd (snd (decode_blocks bs pos fin s)))"
proof (induction bs arbitrary: pos s)
  case (Cons b bs)
  obtain luma stop where b: "b = (luma, stop)" by (cases b)
  obtain r p1 s1 where d: "decode_rle_block (if luma then m_y_quant s else m_uv_quant s) pos fin s = (r, p1, s1)"
    by (metis prod_cases3)
  then have "pos \<le> p1"
    using decode_rle_block_le [of pos "if luma then m_y_quant s else m_uv_quant s" fin s] by simp
  then show ?case
    using Cons [of p1 s1] by (cases r) (auto simp: b d split: prod.splits dest: order_trans)
qed simp

lemma decode_blocks_pos:
  assumes "pos < fin" "bs \<noteq> []"
  shows "pos < fst (snd (snd (decode_blocks bs pos fin s)))"
proof -
  obtain luma stop bs' where b: "bs = (luma, stop) # bs'" using assms by (cases bs) auto
  obtain r p1 s1 where d: "decode_rle_block (if luma then m_y_quant s else m_uv_quant s) pos fin s = (r, p1, s1)"
    by (metis prod_cases3)
  then have "pos < p1"
    using decode_rle_block_pos [OF assms(1), of "if luma then m_y_quant s else m_uv_quant s" s] by simp
  then show ?thesis
    using decode_blocks_le [of p1 bs' fin s1] by (cases r) (auto simp: b d split: prod.splits dest: less_le_trans)
qed

lemma decode_blocks_pos':
  "decode_blocks macroblock_plan pos fin s = (r, blks, p, s1) \<Longrightarrow> pos < fin \<Longrightarrow> pos < p"
  using decode_blocks_pos [of pos fin macroblock_plan s] by (simp add: macroblock_plan_def)

function color_loop :: "nat \<Rightarrow> nat \<Rightarrow> mdec_st \<Rightarrow> nat \<times> mdec_st" where
  "color_loop fin pos s =
     (if pos < fin then
        case decode_blocks macroblock_plan pos fin s of
          (Some stop, _, pos1, s1) \<Rightarrow> (pos1, s1\<lparr>m_stop_reason := stop\<rparr>)
        | (None, blks, pos1, s1) \<Rightarrow>
            let s2 = append_color_macroblock (blks ! 0) (blks ! 1) (\<lambda>i. blks ! (2 + i)) s1
            in color_loop fin pos1 (s2\<lparr>m_macroblocks := m_macroblocks s2 + 1\<rparr>)
      else (pos, s))"
  by pat_completeness auto
termination
proof (relation "measure (\<lambda>(fin, pos, s). fin - pos)", goal_cases)
  case 2
  then show ?case
    using decode_blocks_pos' [OF sym] by (clarsimp simp: diff_less_mono2)
qed simp

declare luma_loop.simps [simp del] color_loop.simps [simp del]

definition execute_decode :: "mdec_st \<Rightarrow> mdec_st" where
  "execute_decode s =
     (let fin = unat (m_input_count s);
          s0 = clear_output (s\<lparr>m_decode_count := m_decode_count s + 1\<rparr>);
          s1 = s0\<lparr>m_macroblocks := 0, m_blocks := 0, m_stop_reason := 0, m_input_pos := 0,
                  m_input_end := m_input_count s, m_dma_out_words := 0, m_underflows := 0\<rparr>
      in if m_depth s1 < 2 then
           let (pos, s2) = luma_loop fin 0 s1;
               s3 = s2\<lparr>m_stop_reason := (if pos \<ge> fin then 1 else 4), m_input_pos := of_nat pos\<rparr>
           in trace_event MDEC_EVT_DECODE_DONE (m_output_size s3) s3
         else
           let (pos, s2) = color_loop fin 0 s1;
               s3 = (if pos \<ge> fin \<and> m_stop_reason s2 = 0 then s2\<lparr>m_stop_reason := 1\<rparr> else s2);
               s4 = s3\<lparr>m_input_pos := of_nat pos, m_last_color_frame := m_frame s3\<rparr>
           in trace_event MDEC_EVT_DECODE_DONE (m_output_size s4) s4)"

section \<open>Commands\<close>

definition set_quant :: "mdec_st \<Rightarrow> mdec_st" where
  "set_quant s =
     (let s1 = s\<lparr>m_y_quant := (\<lambda>i. if i < 64 then input_byte s i else m_y_quant s i)\<rparr>
      in if has (m_command s1) 1
         then s1\<lparr>m_uv_quant := (\<lambda>i. if i < 64 then input_byte s1 (64 + i) else m_uv_quant s1 i)\<rparr>
         else s1\<lparr>m_uv_quant := m_y_quant s1\<rparr>)"

definition set_scale :: "mdec_st \<Rightarrow> mdec_st" where
  "set_scale s =
     s\<lparr>m_scale := (\<lambda>t. if t < 64 then drop_bit 3 (sint (m_input s ((t mod 8) * 8 + t div 8))) else m_scale s t)\<rparr>"

definition execute_command :: "mdec_st \<Rightarrow> mdec_st" where
  "execute_command s =
     (let op = drop_bit 29 (m_command s);
          s1 = (if op = MDEC_CMD_SET_QUANT then set_quant s
                else if op = MDEC_CMD_SET_SCALE then set_scale s
                else if op = MDEC_CMD_DECODE then execute_decode s
                else s)
      in finish_command s1)"

definition begin_command :: "u32 \<Rightarrow> mdec_st \<Rightarrow> mdec_st" where
  "begin_command val s =
     (let op = drop_bit 29 val;
          s1 = s\<lparr>m_command := val, m_bit15 := bit val 25, m_signed := bit val 26,
                 m_depth := ucast (drop_bit 27 val AND 3), m_current_block := 4, m_input_count := 0,
                 m_input_full := False, m_busy := True,
                 m_expected := (if op = MDEC_CMD_DECODE then (val AND 0xFFFF) * 2
                                else if op = MDEC_CMD_SET_QUANT then (if has val 1 then 64 else 32)
                                else if op = MDEC_CMD_SET_SCALE then 64 else 0)\<rparr>
      in if m_expected s1 = 0 then finish_command s1
         else
           let (ok, s2) = ensure_input_capacity (m_expected s1) s1
           in if \<not> ok then finish_command s2 else trace_event MDEC_EVT_CMD_BEGIN val s2)"

definition push_input :: "u16 \<Rightarrow> mdec_st \<Rightarrow> mdec_st" where
  "push_input hw s =
     s\<lparr>m_input := (m_input s)(unat (m_input_count s) := hw), m_input_count := m_input_count s + 1\<rparr>"

definition write_data :: "u32 \<Rightarrow> mdec_st \<Rightarrow> mdec_st" where
  "write_data val s =
     (if m_busy s \<and> m_input_count s < m_expected s then
        let s1 = push_input (ucast val) s;
            s2 = (if m_input_count s1 < m_expected s1 then push_input (ucast (drop_bit 16 val)) s1 else s1)
        in if m_input_count s2 \<ge> m_expected s2 then execute_command s2 else s2
      else begin_command val s)"

section \<open>Host interface\<close>

definition mdec_recently_active :: "u32 \<Rightarrow> mdec_st \<Rightarrow> bool" where
  "mdec_recently_active within_frames s \<longleftrightarrow> m_frame s - m_last_color_frame s \<le> ucast within_frames"

definition mdec_init :: "mdec_st \<Rightarrow> mdec_st" where
  "mdec_init s =
     (soft_reset s)\<lparr>m_input_cap := 0, m_output_cap := 0, m_scale := (\<lambda>_. 0),
        m_trace := (\<lambda>_. zero_mdec_event), m_trace_seq := 0, m_trace_head := 0,
        m_y_quant := (\<lambda>i. if i < 64 then 1 else 0), m_uv_quant := (\<lambda>i. if i < 64 then 1 else 0)\<rparr>"

definition mdec_dma_write_ready :: "mdec_st \<Rightarrow> bool" where
  "mdec_dma_write_ready s \<longleftrightarrow>
     \<not> m_output_pos s < m_output_size s \<and> (\<not> m_busy s \<or> m_input_count s < m_expected s)"

definition mdec_dma_read_ready :: "mdec_st \<Rightarrow> bool" where
  "mdec_dma_read_ready s \<longleftrightarrow> m_output_pos s < m_output_size s"

definition mdec_dma_write_word :: "u32 \<Rightarrow> mdec_st \<Rightarrow> mdec_st" where
  "mdec_dma_write_word val s = write_data val s"

definition read_byte :: "nat \<Rightarrow> u32 \<times> mdec_st \<Rightarrow> u32 \<times> mdec_st" where
  "read_byte i vs =
     (let (v, s) = vs in
      if m_output_pos s < m_output_size s
      then (v OR push_bit (i * 8) (ucast (m_output s (unat (m_output_pos s)))), s\<lparr>m_output_pos := m_output_pos s + 1\<rparr>)
      else (v, s))"

definition mdec_dma_read_word :: "mdec_st \<Rightarrow> u32 \<times> mdec_st" where
  "mdec_dma_read_word s =
     (let start_pos = m_output_pos s;
          (v, s1) = fold read_byte [0..<4] (0, s);
          s2 = s1\<lparr>m_dma_out_words := m_dma_out_words s1 + 1\<rparr>;
          s3 = (if start_pos \<ge> m_output_size s2 then
                  let s' = s2\<lparr>m_underflows := m_underflows s2 + 1\<rparr>
                  in if m_underflows s' = 1 then trace_event MDEC_EVT_READ_UNDERFLOW (m_dma_out_words s') s' else s'
                else s2);
          s4 = (if m_output_pos s3 \<ge> m_output_size s3
                then clear_output (trace_event MDEC_EVT_OUTPUT_DRAINED (m_output_size s3) s3) else s3)
      in (v, s4))"

definition flag :: "bool \<Rightarrow> nat \<Rightarrow> u32" where
  "flag b n = (if b then push_bit n 1 else 0)"

definition mdec_status :: "mdec_st \<Rightarrow> u32" where
  "mdec_status s =
     (let remaining_words = (if m_busy s \<and> m_expected s > m_input_count s
                             then (m_expected s - m_input_count s + 1) div 2 else 0);
          write_ready = mdec_dma_write_ready s
      in (if remaining_words \<noteq> 0 then (remaining_words - 1) AND 0xFFFF else 0xFFFF)
         OR push_bit 16 (ucast (m_current_block s) AND 7)
         OR flag (m_bit15 s) 23 OR flag (m_signed s) 24 OR push_bit 25 (ucast (m_depth s) AND 3)
         OR flag (\<not> write_ready) 30 OR flag (m_dma_out_en s \<and> mdec_dma_read_ready s) 27
         OR flag (m_dma_in_en s \<and> write_ready) 28 OR flag (m_busy s) 29
         OR flag (m_output_pos s \<ge> m_output_size s) 31)"

definition mdec_read :: "u32 \<Rightarrow> mdec_st \<Rightarrow> u32 \<times> mdec_st" where
  "mdec_read addr s =
     (if addr AND 7 = 0 then mdec_dma_read_word s
      else (mdec_status s, s\<lparr>m_last_status := mdec_status s\<rparr>))"

definition mdec_write :: "u32 \<Rightarrow> u32 \<Rightarrow> mdec_st \<Rightarrow> mdec_st" where
  "mdec_write addr val s =
     (if addr AND 7 = 0 then write_data val s
      else
        let s1 = (if has val 0x80000000 then trace_event MDEC_EVT_RESET val (soft_reset s) else s);
            s2 = s1\<lparr>m_dma_in_en := bit val 30, m_dma_out_en := bit val 29\<rparr>
        in trace_event MDEC_EVT_CTRL_WRITE val s2)"

text \<open>The trace ring as the debug server reads it, and the DMA notifications.\<close>

definition mdec_debug_copy_events :: "u64 \<Rightarrow> u64 \<Rightarrow> u32 \<Rightarrow> mdec_st \<Rightarrow> mdec_event list" where
  "mdec_debug_copy_events seq_lo seq_hi max_count s =
     (let oldest = (if m_trace_seq s > 4096 then m_trace_seq s - 4096 else 0);
          lo = (if seq_lo < oldest then oldest else seq_lo);
          hi = (if seq_hi > m_trace_seq s then m_trace_seq s else seq_hi)
      in map (\<lambda>i. m_trace s (unat ((lo + of_nat i) mod 4096))) [0..<min (unat hi - unat lo) (unat max_count)])"

definition mdec_debug_clear :: "mdec_st \<Rightarrow> mdec_st" where
  "mdec_debug_clear s = s\<lparr>m_trace := (\<lambda>_. zero_mdec_event), m_trace_seq := 0, m_trace_head := 0\<rparr>"

definition mdec_debug_dma_in_start :: "u32 \<Rightarrow> mdec_st \<Rightarrow> mdec_st" where
  "mdec_debug_dma_in_start words s = trace_event 6 words s"

definition mdec_debug_dma_in_end :: "u32 \<Rightarrow> mdec_st \<Rightarrow> mdec_st" where
  "mdec_debug_dma_in_end words s = trace_event 7 words (s\<lparr>m_dma_in_words := m_dma_in_words s + words\<rparr>)"

definition mdec_debug_dma_out_start :: "u32 \<Rightarrow> mdec_st \<Rightarrow> mdec_st" where
  "mdec_debug_dma_out_start words s = trace_event 8 words s"

definition mdec_debug_dma_out_end :: "u32 \<Rightarrow> mdec_st \<Rightarrow> mdec_st" where
  "mdec_debug_dma_out_end words s = trace_event 9 words s"

section \<open>What decoding may change\<close>

definition out_ok :: "mdec_st \<Rightarrow> bool" where
  "out_ok s \<longleftrightarrow> unat (m_output_size s) \<le> unat (m_output_cap s) \<and> unat (m_output_cap s) \<le> 67108864"

definition out_mask :: "mdec_st \<Rightarrow> mdec_st" where
  "out_mask s = s\<lparr>m_output := (\<lambda>_. 0), m_output_size := 0, m_output_cap := 0, m_blocks := 0,
                   m_macroblocks := 0, m_stop_reason := 0\<rparr>"

text \<open>
  \<open>out_ext n s s'\<close>: from \<open>s\<close> to \<open>s'\<close> at most \<open>n\<close> bytes were appended, exactly \<open>n\<close> when the
  allocator never refuses; only the output buffer and the decode counters changed.
\<close>

definition out_ext :: "nat \<Rightarrow> mdec_st \<Rightarrow> mdec_st \<Rightarrow> bool" where
  "out_ext n s s' \<longleftrightarrow>
     out_mask s' = out_mask s \<and>
     out_ok s' \<and> unat (m_output_size s') \<le> unat (m_output_size s) + n \<and>
     ((\<forall>k. m_realloc_ok s k) \<longrightarrow> unat (m_output_size s') = unat (m_output_size s) + n)"

lemma out_ext_refl: "out_ok s \<Longrightarrow> out_ext 0 s s"
  by (simp add: out_ext_def)

lemma out_mask_sel:
  "m_input (out_mask s) = m_input s" "m_input_cap (out_mask s) = m_input_cap s" "m_y_quant (out_mask s) = m_y_quant s" "m_uv_quant (out_mask s) = m_uv_quant s" "m_scale (out_mask s) = m_scale s" "m_bit15 (out_mask s) = m_bit15 s" "m_signed (out_mask s) = m_signed s" "m_depth (out_mask s) = m_depth s" "m_realloc_ok (out_mask s) = m_realloc_ok s" "m_output_pos (out_mask s) = m_output_pos s" "m_expected (out_mask s) = m_expected s" "m_input_count (out_mask s) = m_input_count s" "m_busy (out_mask s) = m_busy s"
  unfolding out_mask_def by simp_all

lemma out_mask_fields:
  assumes "out_mask s' = out_mask s"
  shows "m_input s' = m_input s" "m_input_cap s' = m_input_cap s" "m_y_quant s' = m_y_quant s"
    "m_uv_quant s' = m_uv_quant s" "m_scale s' = m_scale s" "m_bit15 s' = m_bit15 s" "m_signed s' = m_signed s"
    "m_depth s' = m_depth s" "m_realloc_ok s' = m_realloc_ok s" "m_output_pos s' = m_output_pos s"
    "m_expected s' = m_expected s" "m_input_count s' = m_input_count s" "m_busy s' = m_busy s"
  by (simp_all only: out_mask_sel [of s', symmetric] out_mask_sel [of s, symmetric] assms)

lemma out_ext_fields:
  assumes "out_ext n s s'"
  shows "out_mask s' = out_mask s" "out_ok s'" "m_depth s' = m_depth s" "m_realloc_ok s' = m_realloc_ok s"
    "unat (m_output_size s') \<le> unat (m_output_size s) + n"
proof -
  show m: "out_mask s' = out_mask s" using assms unfolding out_ext_def by blast
  show "out_ok s'" "unat (m_output_size s') \<le> unat (m_output_size s) + n"
    using assms unfolding out_ext_def by blast+
  show "m_depth s' = m_depth s" "m_realloc_ok s' = m_realloc_ok s"
    using out_mask_fields [OF m] by blast+
qed

lemma out_ext_trans: "out_ext m s s' \<Longrightarrow> out_ext n s' s'' \<Longrightarrow> out_ext (m + n) s s''"
  using out_ext_fields(4) [of m s s'] unfolding out_ext_def by simp

lemma out_mask_upd [simp]:
  "out_mask (s\<lparr>m_macroblocks := a\<rparr>) = out_mask s" "out_mask (s\<lparr>m_blocks := a\<rparr>) = out_mask s"
  "out_mask (s\<lparr>m_stop_reason := a\<rparr>) = out_mask s" "out_mask (s\<lparr>m_output := o1\<rparr>) = out_mask s"
  "out_mask (s\<lparr>m_output_size := z\<rparr>) = out_mask s" "out_mask (s\<lparr>m_output_cap := z\<rparr>) = out_mask s"
  unfolding out_mask_def by simp_all

lemma out_ext_counters:
  "out_ext n s (s'\<lparr>m_macroblocks := a\<rparr>) = out_ext n s s'" "out_ext n s (s'\<lparr>m_blocks := a\<rparr>) = out_ext n s s'"
  "out_ext n s (s'\<lparr>m_stop_reason := a\<rparr>) = out_ext n s s'"
  unfolding out_ext_def out_ok_def out_mask_upd by simp_all

lemma grow_cap_ge: "0 < c \<Longrightarrow> n \<le> grow_cap c n"
  by (induction c n rule: grow_cap.induct) (subst grow_cap.simps, auto)

lemma grow_cap_le: "0 < c \<Longrightarrow> grow_cap c n \<le> max c (2 * n)"
proof (induction c n rule: grow_cap.induct)
  case (1 c n)
  show ?case
  proof (cases "c < n")
    case True
    then have "grow_cap (2 * c) n \<le> max (2 * c) (2 * n)" using 1 by simp
    then show ?thesis using True 1(2) by (subst grow_cap.simps) auto
  qed (subst grow_cap.simps, auto)
qed

lemma ensure_output:
  assumes "unat bytes \<le> 33554432" "unat (m_output_cap s) \<le> 67108864"
    and "ensure_output_capacity bytes s = (ok, s')"
  shows "(\<exists>c. s' = s\<lparr>m_output_cap := c\<rparr>) \<and> unat (m_output_cap s') \<le> 67108864 \<and>
     unat (m_output_cap s) \<le> unat (m_output_cap s') \<and> (ok \<longrightarrow> unat bytes \<le> unat (m_output_cap s')) \<and>
     ((\<forall>k. m_realloc_ok s k) \<longrightarrow> ok)"
proof (cases "bytes \<le> m_output_cap s")
  case True
  then show ?thesis
    using assms by (auto simp: ensure_output_capacity_def word_le_nat_alt intro: exI [of _ "m_output_cap s"])
next
  case False
  let ?c0 = "if m_output_cap s \<noteq> 0 then unat (m_output_cap s) else 4096"
  let ?n = "grow_cap ?c0 (unat bytes)"
  have c0: "0 < ?c0" by (simp add: unat_gt_0)
  have n: "unat bytes \<le> ?n" "?n \<le> max ?c0 (2 * unat bytes)"
    using grow_cap_ge [OF c0] grow_cap_le [OF c0] by blast+
  then have b: "?n \<le> 67108864" using assms by auto
  then have u: "unat (of_nat ?n :: u32) = ?n" by (intro unat_of_nat32) simp
  have e: "ensure_output_capacity bytes s =
      (if m_realloc_ok s ?n then (True, s\<lparr>m_output_cap := of_nat ?n\<rparr>) else (False, s))"
    using False by (simp add: ensure_output_capacity_def Let_def)
  have le: "unat (m_output_cap s) \<le> unat bytes" using False by (simp add: word_le_nat_alt)
  show ?thesis
  proof (cases "m_realloc_ok s ?n")
    case True
    then have "ok" "s' = s\<lparr>m_output_cap := of_nat ?n\<rparr>" using e assms(3) by auto
    then show ?thesis using u b n le by (auto simp del: of_nat_numeral)
  next
    case False
    then have "\<not> ok" "s' = s" using e assms(3) by auto
    then show ?thesis using False assms by (auto intro: exI [of _ "m_output_cap s"])
  qed
qed

lemma append_ext:
  assumes ok: "out_ok s" and room: "unat (m_output_size s) + 1 \<le> 33554432"
  shows "out_ext 1 s (append_byte v s)"
proof -
  have sz: "unat (m_output_size s + 1) = unat (m_output_size s) + 1"
    using room by (simp add: unat_word_ariths)
  obtain b s1 where e: "ensure_output_capacity (m_output_size s + 1) s = (b, s1)" by (metis prod.exhaust)
  note p = ensure_output [OF _ _ e]
  have "(\<exists>c. s1 = s\<lparr>m_output_cap := c\<rparr>) \<and> unat (m_output_cap s1) \<le> 67108864 \<and>
      unat (m_output_cap s) \<le> unat (m_output_cap s1) \<and>
      (b \<longrightarrow> unat (m_output_size s) + 1 \<le> unat (m_output_cap s1)) \<and> ((\<forall>k. m_realloc_ok s k) \<longrightarrow> b)"
    using p ok room sz by (simp add: out_ok_def)
  then obtain c where c: "s1 = s\<lparr>m_output_cap := c\<rparr>" "unat c \<le> 67108864" "unat (m_output_cap s) \<le> unat c"
    "b \<longrightarrow> unat (m_output_size s) + 1 \<le> unat c" "(\<forall>k. m_realloc_ok s k) \<longrightarrow> b"
    by (elim exE conjE) simp
  show ?thesis
  proof (cases b)
    case True
    then have "append_byte v s = s\<lparr>m_output := (m_output s)(unat (m_output_size s) := v),
        m_output_size := m_output_size s + 1, m_output_cap := c\<rparr>"
      by (simp add: append_byte_def e c(1))
    then show ?thesis
      using c sz True by (simp add: out_ext_def out_ok_def)
  next
    case False
    then have "append_byte v s = s\<lparr>m_output_cap := c\<rparr>"
      by (simp add: append_byte_def e c(1))
    then show ?thesis
      using c False ok by (auto simp: out_ext_def out_ok_def)
  qed
qed

lemma fold_ext:
  assumes "\<And>x t. x \<in> set xs \<Longrightarrow> m_depth t = m_depth s \<Longrightarrow> out_ok t \<Longrightarrow> unat (m_output_size t) + k \<le> 33554432 \<Longrightarrow> out_ext k t (f x t)"
    and "out_ok s" "unat (m_output_size s) + k * length xs \<le> 33554432"
  shows "out_ext (k * length xs) s (fold f xs s)"
  using assms
proof (induction xs arbitrary: s)
  case (Cons x xs)
  have e: "out_ext k s (f x s)"
    using Cons.prems by (intro Cons.prems(1)) auto
  have d: "m_depth (f x s) = m_depth s"
    by (rule out_ext_fields(3) [OF e])
  have "out_ext (k * length xs) (f x s) (fold f xs (f x s))"
    using Cons.prems out_ext_fields(2,5) [OF e] by (intro Cons.IH) (auto simp: d)
  from out_ext_trans [OF e this] show ?case
    by simp
qed (simp add: out_ext_refl)

section \<open>The size of the decoded output\<close>

lemma fold_keeps: "(\<And>x t. g (f x t) = g t) \<Longrightarrow> g (fold f xs s) = g s"
  by (induction xs arbitrary: s) simp_all

lemma append_byte_keeps:
  "m_macroblocks (append_byte v s) = m_macroblocks s" "m_stop_reason (append_byte v s) = m_stop_reason s"
  by (simp_all add: append_byte_def ensure_output_capacity_def Let_def)

lemma append_keeps:
  "m_macroblocks (append_luma_block b s) = m_macroblocks s" "m_stop_reason (append_luma_block b s) = m_stop_reason s"
  "m_macroblocks (append_color_macroblock cr cb yb s) = m_macroblocks s"
  "m_stop_reason (append_color_macroblock cr cb yb s) = m_stop_reason s"
  unfolding append_luma_block_def append_color_macroblock_def append_rgb_pixel_def Let_def
  by (intro fold_keeps append_byte_keeps)+

definition pixel_size :: "u8 \<Rightarrow> nat" where
  "pixel_size depth = (if depth = 3 then 2 else 3)"

lemma length_rgb_pixel_bytes: "length (rgb_pixel_bytes depth sg b15 y cr cb) = pixel_size depth"
  by (simp add: rgb_pixel_bytes_def pixel_size_def Let_def split: prod.split)

lemma append_bytes_ext:
  "out_ok s \<Longrightarrow> unat (m_output_size s) + length bs \<le> 33554432 \<Longrightarrow> out_ext (length bs) s (fold append_byte bs s)"
  using fold_ext [of bs s 1 append_byte, OF append_ext] by simp

lemma append_luma_ext:
  "out_ok s \<Longrightarrow> unat (m_output_size s) + 64 \<le> 33554432 \<Longrightarrow> out_ext 64 s (append_luma_block blk s)"
  using fold_ext [of "[0..<64]" s 1 "\<lambda>i st. append_byte (to_output_u8 (m_signed st) (blk i)) st", OF append_ext]
  by (simp add: append_luma_block_def)

lemma append_pixel_ext:
  "out_ok s \<Longrightarrow> unat (m_output_size s) + pixel_size (m_depth s) \<le> 33554432 \<Longrightarrow>
   out_ext (pixel_size (m_depth s)) s (append_rgb_pixel y cr cb s)"
  using append_bytes_ext [of s "rgb_pixel_bytes (m_depth s) (m_signed s) (m_bit15 s) y cr cb"]
  by (simp add: append_rgb_pixel_def length_rgb_pixel_bytes)

lemma append_color_ext:
  assumes "out_ok s" "unat (m_output_size s) + pixel_size (m_depth s) * 256 \<le> 33554432"
  shows "out_ext (pixel_size (m_depth s) * 256) s (append_color_macroblock cr cb yb s)"
proof -
  let ?k = "pixel_size (m_depth s)"
  let ?f = "\<lambda>py px st1. let y_index = (if py \<ge> 8 then 2 else 0) + (if px \<ge> 8 then 1 else 0);
             lx = px mod 8; ly = py mod 8; chroma = px div 2 + (py div 2) * 8
         in append_rgb_pixel (yb y_index (lx + ly * 8)) (cr chroma) (cb chroma) st1"
  have px: "out_ext ?k t (?f py x t)" if "m_depth t = m_depth s" "out_ok t" "unat (m_output_size t) + ?k \<le> 33554432" for t py x
    using append_pixel_ext [of t] that by (simp add: Let_def)
  have row: "out_ext (?k * 16) t (fold (?f py) [0..<16] t)"
    if "m_depth t = m_depth s" "out_ok t" "unat (m_output_size t) + ?k * 16 \<le> 33554432" for t py
    using fold_ext [of "[0..<16]" t ?k "?f py"] px that by simp
  have "out_ext ((?k * 16) * 16) s (fold (\<lambda>py st. fold (?f py) [0..<16] st) [0..<16] s)"
    using fold_ext [of "[0..<16]" s "?k * 16" "\<lambda>py st. fold (?f py) [0..<16] st"] row assms by (simp add: mult.assoc)
  then show ?thesis
    by (simp add: append_color_macroblock_def mult.assoc)
qed

lemma decode_rle_block_ext:
  assumes "decode_rle_block quant pos fin s = (r, p, s1)" "out_ok s"
  shows "out_ext 0 s s1" "pos \<le> p" "r \<noteq> None \<Longrightarrow> pos < p"
    "m_macroblocks s1 = m_macroblocks s" "m_stop_reason s1 = m_stop_reason s" "r = None \<Longrightarrow> fin \<le> pos"
proof -
  show "out_ext 0 s s1" "m_macroblocks s1 = m_macroblocks s" "m_stop_reason s1 = m_stop_reason s" "r = None \<Longrightarrow> fin \<le> pos"
    using assms out_ext_refl [OF assms(2)]
    by (auto simp: decode_rle_block_def out_ext_counters split: if_splits prod.splits)
  show "pos \<le> p"
    using decode_rle_block_le [of pos quant fin s] assms(1) by simp
  show "r \<noteq> None \<Longrightarrow> pos < p"
    using decode_rle_block_pos [of pos fin quant s] assms(1)
    by (auto simp: decode_rle_block_def split: if_splits)
qed

lemma decode_blocks_ext:
  "decode_blocks bs pos fin s = (r, blks, p, s1) \<Longrightarrow> out_ok s \<Longrightarrow>
   out_ext 0 s s1 \<and> m_macroblocks s1 = m_macroblocks s \<and> pos \<le> p \<and> (r = None \<longrightarrow> pos + length bs \<le> p \<and> length blks = length bs)"
proof (induction bs arbitrary: pos s r blks p s1)
  case Nil
  then show ?case using out_ext_refl by auto
next
  case (Cons b bs)
  obtain luma stop where b: "b = (luma, stop)" by (cases b)
  obtain r1 p1 t where d: "decode_rle_block (if luma then m_y_quant s else m_uv_quant s) pos fin s = (r1, p1, t)"
    by (metis prod_cases3)
  note e = decode_rle_block_ext [OF d Cons.prems(2)]
  show ?case
  proof (cases r1)
    case None
    then show ?thesis using Cons.prems e(1,2,4) by (auto simp: b d)
  next
    case (Some blk)
    obtain r2 blks2 p2 t2 where d2: "decode_blocks bs p1 fin t = (r2, blks2, p2, t2)"
      by (metis prod_cases4)
    have IH: "out_ext 0 t t2 \<and> m_macroblocks t2 = m_macroblocks t \<and> p1 \<le> p2 \<and> (r2 = None \<longrightarrow> p1 + length bs \<le> p2 \<and> length blks2 = length bs)"
      by (rule Cons.IH [OF d2 out_ext_fields(2) [OF e(1)]])
    have "r = r2" "blks = blk # blks2" "p = p2" "s1 = t2"
      using Cons.prems(1) Some by (auto simp: b d d2)
    then show ?thesis
      using IH e(3,4) Some out_ext_trans [OF e(1), of 0 t2] by auto
  qed
qed

text \<open>Both loops append a whole number of units and consume input for each.\<close>

lemma luma_loop_ext:
  "luma_loop fin pos s = (p, s') \<Longrightarrow> out_ok s \<Longrightarrow> fin \<le> 131070 \<Longrightarrow> unat (m_output_size s) \<le> 64 * pos \<Longrightarrow>
   \<exists>k. out_ext (64 * k) s s' \<and> m_macroblocks s' = m_macroblocks s + of_nat k \<and> k \<le> 131070 - pos"
proof (induction fin pos s rule: luma_loop.induct)
  case (1 fin pos s)
  show ?case
  proof (cases "pos < fin")
    case False
    then have "s' = s" using "1.prems"(1) by (subst (asm) luma_loop.simps) auto
    then show ?thesis using out_ext_refl [OF "1.prems"(2)] by (intro exI [of _ 0]) simp
  next
    case True
    obtain r p1 t where d: "decode_rle_block (m_y_quant s) pos fin s = (r, p1, t)" by (metis prod_cases3)
    note e = decode_rle_block_ext [OF d "1.prems"(2)]
    show ?thesis
    proof (cases r)
      case None
      then show ?thesis using e(6) True by simp
    next
      case (Some blk)
      define u where "u = append_luma_block blk t"
      let ?v = "u\<lparr>m_macroblocks := m_macroblocks u + 1\<rparr>"
      have room: "unat (m_output_size t) + 64 \<le> 33554432"
        using out_ext_fields(5) [OF e(1)] "1.prems"(3,4) True by simp
      have u: "out_ext 64 t u"
        unfolding u_def by (rule append_luma_ext [OF out_ext_fields(2) [OF e(1)] room])
      have v: "out_ext 64 s ?v"
        using out_ext_trans [OF e(1) u] by (simp add: out_ext_counters)
      have mb: "m_macroblocks ?v = m_macroblocks s + 1"
        using e(4) by (simp add: u_def append_keeps)
      have l: "luma_loop fin p1 ?v = (p, s')"
        using "1.prems"(1) True by (subst (asm) luma_loop.simps) (simp add: d Some Let_def u_def)
      have p1: "pos < p1" using e(3) Some by simp
      have sz: "unat (m_output_size ?v) \<le> 64 * p1"
        using out_ext_fields(5) [OF v] "1.prems"(4) p1 by simp
      from "1.IH" [OF True d [symmetric] Some refl u_def l out_ext_fields(2) [OF v] "1.prems"(3) sz]
      obtain k where k: "out_ext (64 * k) ?v s'" "m_macroblocks s' = m_macroblocks ?v + of_nat k" "k \<le> 131070 - p1"
        by blast
      have "out_ext (64 * Suc k) s s'"
        using out_ext_trans [OF v k(1)] by simp
      then show ?thesis
        using k(2,3) p1 "1.prems"(3) True unfolding mb by (intro exI [of _ "Suc k"]) simp
    qed
  qed
qed

lemma color_loop_ext:
  "color_loop fin pos s = (p, s') \<Longrightarrow> out_ok s \<Longrightarrow> fin \<le> 131070 \<Longrightarrow> unat (m_output_size s) \<le> 128 * pos \<Longrightarrow>
   \<exists>k. out_ext (pixel_size (m_depth s) * 256 * k) s s' \<and> m_macroblocks s' = m_macroblocks s + of_nat k \<and> k \<le> 131070 - pos"
proof (induction fin pos s rule: color_loop.induct)
  case (1 fin pos s)
  let ?n = "pixel_size (m_depth s) * 256"
  have n: "?n \<le> 768" by (simp add: pixel_size_def)
  show ?case
  proof (cases "pos < fin")
    case False
    then have "s' = s" using "1.prems"(1) by (subst (asm) color_loop.simps) auto
    then show ?thesis using out_ext_refl [OF "1.prems"(2)] by (intro exI [of _ 0]) simp
  next
    case True
    obtain r blks p1 t where d: "decode_blocks macroblock_plan pos fin s = (r, blks, p1, t)" by (metis prod_cases4)
    note e = decode_blocks_ext [OF d "1.prems"(2)]
    show ?thesis
    proof (cases r)
      case (Some stop)
      then have "s' = t\<lparr>m_stop_reason := stop\<rparr>"
        using "1.prems"(1) True by (subst (asm) color_loop.simps) (simp add: d)
      then show ?thesis
        using e by (intro exI [of _ 0]) (simp add: out_ext_counters)
    next
      case None
      define u where "u = append_color_macroblock (blks ! 0) (blks ! 1) (\<lambda>i. blks ! (2 + i)) t"
      let ?v = "u\<lparr>m_macroblocks := m_macroblocks u + 1\<rparr>"
      have t: "out_ext 0 s t" using e by blast
      have dep: "m_depth t = m_depth s" by (rule out_ext_fields(3) [OF t])
      have room: "unat (m_output_size t) + pixel_size (m_depth t) * 256 \<le> 33554432"
        using out_ext_fields(5) [OF t] "1.prems"(3,4) True n by (simp add: dep)
      have u: "out_ext ?n t u"
        unfolding u_def using append_color_ext [OF out_ext_fields(2) [OF t] room] by (simp add: dep)
      have v: "out_ext ?n s ?v"
        using out_ext_trans [OF t u] by (simp add: out_ext_counters)
      have mb: "m_macroblocks ?v = m_macroblocks s + 1"
        using e by (simp add: u_def append_keeps)
      have l: "color_loop fin p1 ?v = (p, s')"
        using "1.prems"(1) True by (subst (asm) color_loop.simps) (simp add: d None Let_def u_def)
      have p1: "pos + 6 \<le> p1" using e None by (simp add: macroblock_plan_def)
      have sz: "unat (m_output_size ?v) \<le> 128 * p1"
        using out_ext_fields(5) [OF v] "1.prems"(4) p1 n by simp
      have dv: "m_depth ?v = m_depth s" by (rule out_ext_fields(3) [OF v])
      from "1.IH" [OF True d [symmetric] None refl refl u_def l out_ext_fields(2) [OF v] "1.prems"(3) sz]
      obtain k where k: "out_ext (?n * k) ?v s'" "m_macroblocks s' = m_macroblocks ?v + of_nat k" "k \<le> 131070 - p1"
        unfolding dv by blast
      have "out_ext (?n * Suc k) s s'"
        using out_ext_trans [OF v k(1)] by simp
      then show ?thesis
        using k(2,3) p1 "1.prems"(3) True unfolding mb by (intro exI [of _ "Suc k"]) simp
    qed
  qed
qed

section \<open>The whole decode\<close>

definition decode_unit :: "mdec_st \<Rightarrow> nat" where
  "decode_unit s = (if m_depth s < 2 then 64 else pixel_size (m_depth s) * 256)"

definition decode_start :: "mdec_st \<Rightarrow> mdec_st" where
  "decode_start s =
     (clear_output (s\<lparr>m_decode_count := m_decode_count s + 1\<rparr>))
       \<lparr>m_macroblocks := 0, m_blocks := 0, m_stop_reason := 0, m_input_pos := 0,
        m_input_end := m_input_count s, m_dma_out_words := 0, m_underflows := 0\<rparr>"

lemma decode_start_fields [simp]:
  "m_output_size (decode_start s) = 0" "m_output_pos (decode_start s) = 0" "m_macroblocks (decode_start s) = 0"
  "m_depth (decode_start s) = m_depth s" "m_realloc_ok (decode_start s) = m_realloc_ok s"
  "m_output_cap (decode_start s) = m_output_cap s" "m_input_cap (decode_start s) = m_input_cap s"
  "m_scale (decode_start s) = m_scale s" "m_input (decode_start s) = m_input s"
  "m_y_quant (decode_start s) = m_y_quant s"
  by (simp_all add: decode_start_def clear_output_def)

lemma decode_start_ok: "out_ok s \<Longrightarrow> out_ok (decode_start s)"
  by (simp add: out_ok_def)

text \<open>The loop of the selected depth.\<close>

definition decode_loop :: "mdec_st \<Rightarrow> nat \<times> mdec_st" where
  "decode_loop s = (if m_depth s < 2 then luma_loop (unat (m_input_count s)) 0 (decode_start s)
                    else color_loop (unat (m_input_count s)) 0 (decode_start s))"

lemma decode_loop_ext:
  assumes "decode_loop s = (p, s')" "out_ok s" "unat (m_input_count s) \<le> 131070"
  shows "\<exists>k. out_ext (decode_unit s * k) (decode_start s) s' \<and> m_macroblocks s' = of_nat k \<and> k \<le> 131070"
proof (cases "m_depth s < 2")
  case True
  then show ?thesis
    using luma_loop_ext [of "unat (m_input_count s)" 0 "decode_start s" p s'] assms decode_start_ok
    by (simp add: decode_loop_def decode_unit_def)
next
  case False
  then show ?thesis
    using color_loop_ext [of "unat (m_input_count s)" 0 "decode_start s" p s'] assms decode_start_ok
    by (simp add: decode_loop_def decode_unit_def)
qed

lemma trace_event_fields [simp]:
  "m_output_size (trace_event k v s) = m_output_size s" "m_output_pos (trace_event k v s) = m_output_pos s"
  "m_output_cap (trace_event k v s) = m_output_cap s" "m_macroblocks (trace_event k v s) = m_macroblocks s"
  "m_input_cap (trace_event k v s) = m_input_cap s" "m_scale (trace_event k v s) = m_scale s"
  "m_busy (trace_event k v s) = m_busy s" "m_input_count (trace_event k v s) = m_input_count s"
  "m_expected (trace_event k v s) = m_expected s" "m_output (trace_event k v s) = m_output s"
  "m_stop_reason (trace_event k v s) = m_stop_reason s" "m_command (trace_event k v s) = m_command s"
  "m_underflows (trace_event k v s) = m_underflows s" "m_depth (trace_event k v s) = m_depth s"
  by (simp_all add: trace_event_def)

lemma execute_decode_fields:
  assumes "decode_loop s = (p, s')"
  shows "m_output_size (execute_decode s) = m_output_size s'" "m_output_pos (execute_decode s) = m_output_pos s'"
    "m_output_cap (execute_decode s) = m_output_cap s'" "m_macroblocks (execute_decode s) = m_macroblocks s'"
    "m_input_cap (execute_decode s) = m_input_cap s'" "m_scale (execute_decode s) = m_scale s'"
    "m_output (execute_decode s) = m_output s'"
proof -
  have e: "execute_decode s = (let (pos, s2) = decode_loop s in
      if m_depth s < 2 then
        let s3 = s2\<lparr>m_stop_reason := (if pos \<ge> unat (m_input_count s) then 1 else 4), m_input_pos := of_nat pos\<rparr>
        in trace_event MDEC_EVT_DECODE_DONE (m_output_size s3) s3
      else
        let s3 = (if pos \<ge> unat (m_input_count s) \<and> m_stop_reason s2 = 0 then s2\<lparr>m_stop_reason := 1\<rparr> else s2);
            s4 = s3\<lparr>m_input_pos := of_nat pos, m_last_color_frame := m_frame s3\<rparr>
        in trace_event MDEC_EVT_DECODE_DONE (m_output_size s4) s4)"
    by (simp add: execute_decode_def decode_loop_def decode_start_def Let_def clear_output_def split: prod.split)
  show "m_output_size (execute_decode s) = m_output_size s'" "m_output_pos (execute_decode s) = m_output_pos s'"
    "m_output_cap (execute_decode s) = m_output_cap s'" "m_macroblocks (execute_decode s) = m_macroblocks s'"
    "m_input_cap (execute_decode s) = m_input_cap s'" "m_scale (execute_decode s) = m_scale s'"
    "m_output (execute_decode s) = m_output s'"
    unfolding e assms by simp_all
qed

section \<open>The invariant\<close>

definition mdec_ok :: "mdec_st \<Rightarrow> bool" where
  "mdec_ok s \<longleftrightarrow> out_ok s \<and> m_output_pos s \<le> m_output_size s \<and> unat (m_input_cap s) \<le> 262144 \<and>
     (\<forall>i. - 4096 \<le> m_scale s i \<and> m_scale s i \<le> 4095) \<and>
     (m_busy s \<longrightarrow> m_input_count s < m_expected s \<and> m_expected s \<le> m_input_cap s \<and> unat (m_expected s) \<le> 131070)"

lemma execute_decode_ok:
  assumes "out_ok s" "unat (m_input_count s) \<le> 131070" "unat (m_input_cap s) \<le> 262144"
    and "\<forall>i. - 4096 \<le> m_scale s i \<and> m_scale s i \<le> 4095"
  shows "mdec_ok (finish_command (execute_decode s))"
proof -
  obtain p s' where l: "decode_loop s = (p, s')" by (metis prod.exhaust)
  obtain k where "out_ext (decode_unit s * k) (decode_start s) s'"
    using decode_loop_ext [OF l assms(1,2)] by blast
  then have m: "out_mask s' = out_mask (decode_start s)" and ok: "out_ok s'"
    by (rule out_ext_fields)+
  show ?thesis
    using out_mask_fields [OF m] ok assms
    by (simp add: mdec_ok_def finish_command_def execute_decode_fields [OF l] out_ok_def)
qed

lemma drop_bit3_range: "- 4096 \<le> drop_bit 3 (sint (w::u16)) \<and> drop_bit 3 (sint w) \<le> 4095"
proof -
  have "- 32768 \<le> sint w" "sint w \<le> 32767"
    using sint_ge [of w] sint_lt [of w] by simp_all
  then have "- 4096 \<le> sint w div 8" "sint w div 8 \<le> 4095" by linarith+
  then show ?thesis by (simp add: drop_bit_eq_div)
qed

lemma execute_command_ok:
  assumes "out_ok s" "m_output_pos s \<le> m_output_size s" "unat (m_input_count s) \<le> 131070"
    "unat (m_input_cap s) \<le> 262144" "\<forall>i. - 4096 \<le> m_scale s i \<and> m_scale s i \<le> 4095"
  shows "mdec_ok (execute_command s)"
proof -
  have "mdec_ok (finish_command s)" "mdec_ok (finish_command (set_quant s))" "mdec_ok (finish_command (set_scale s))"
    using assms drop_bit3_range
    by (simp_all add: mdec_ok_def finish_command_def out_ok_def set_quant_def set_scale_def Let_def)
  moreover have "mdec_ok (finish_command (execute_decode s))"
    by (rule execute_decode_ok) (use assms in auto)
  ultimately show ?thesis
    by (simp add: execute_command_def Let_def)
qed

lemma ensure_input:
  assumes "ensure_input_capacity hw s = (ok, s')" "unat hw \<le> 131070" "unat (m_input_cap s) \<le> 262144"
  shows "\<exists>c. s' = s\<lparr>m_input_cap := c\<rparr> \<and> unat c \<le> 262144 \<and> (ok \<longrightarrow> hw \<le> c)"
proof (cases "hw \<le> m_input_cap s")
  case True
  then show ?thesis using assms by (intro exI [of _ "m_input_cap s"]) (auto simp: ensure_input_capacity_def)
next
  case False
  let ?c0 = "if m_input_cap s \<noteq> 0 then unat (m_input_cap s) else 256"
  let ?n = "grow_cap ?c0 (unat hw)"
  have c0: "0 < ?c0" by (simp add: unat_gt_0)
  have n: "unat hw \<le> ?n" "?n \<le> max ?c0 (2 * unat hw)"
    using grow_cap_ge [OF c0] grow_cap_le [OF c0] by blast+
  then have b: "?n \<le> 262144" using assms by auto
  then have u: "unat (of_nat ?n :: u32) = ?n" by (intro unat_of_nat32) simp
  have e: "ensure_input_capacity hw s =
      (if m_realloc_ok s (?n * 2) then (True, s\<lparr>m_input_cap := of_nat ?n\<rparr>) else (False, s))"
    using False by (simp add: ensure_input_capacity_def Let_def)
  show ?thesis
  proof (cases "m_realloc_ok s (?n * 2)")
    case True
    then show ?thesis using e assms(1) u b n by (intro exI [of _ "of_nat ?n"]) (auto simp: word_le_nat_alt)
  next
    case False
    then show ?thesis using e assms by (intro exI [of _ "m_input_cap s"]) auto
  qed
qed

lemma begin_command_ok:
  assumes "mdec_ok s"
  shows "mdec_ok (begin_command v s)"
proof -
  have le: "unat ((v AND 0xFFFF) * 2) \<le> 131070"
  proof -
    have "unat (v AND 0xFFFF) \<le> 65535"
      using word_and_le1 [of v "0xFFFF"] by (simp add: word_le_nat_alt)
    then show ?thesis by (simp add: unat_word_ariths)
  qed
  define e :: u32 where "e = (if drop_bit 29 v = MDEC_CMD_DECODE then (v AND 0xFFFF) * 2
      else if drop_bit 29 v = MDEC_CMD_SET_QUANT then (if has v 1 then 64 else 32)
      else if drop_bit 29 v = MDEC_CMD_SET_SCALE then 64 else 0)"
  define s1 where "s1 = s\<lparr>m_command := v, m_bit15 := bit v 25, m_signed := bit v 26,
      m_depth := ucast (drop_bit 27 v AND 3), m_current_block := 4, m_input_count := 0,
      m_input_full := False, m_busy := True, m_expected := e\<rparr>"
  have e: "unat e \<le> 131070" using le by (simp add: e_def)
  have b: "begin_command v s = (if m_expected s1 = 0 then finish_command s1
      else let (ok, s2) = ensure_input_capacity (m_expected s1) s1
           in if \<not> ok then finish_command s2 else trace_event MDEC_EVT_CMD_BEGIN v s2)"
    unfolding begin_command_def Let_def s1_def e_def by (rule refl)
  have fin: "mdec_ok (finish_command x)" if "out_ok x" "m_output_pos x \<le> m_output_size x"
      "unat (m_input_cap x) \<le> 262144" "\<forall>i. - 4096 \<le> m_scale x i \<and> m_scale x i \<le> 4095" for x
    using that by (simp add: mdec_ok_def finish_command_def out_ok_def)
  obtain ok s2 where s2: "ensure_input_capacity (m_expected s1) s1 = (ok, s2)" by (metis prod.exhaust)
  then obtain c where c: "s2 = s1\<lparr>m_input_cap := c\<rparr>" "unat c \<le> 262144" "ok \<longrightarrow> e \<le> c"
    using ensure_input [OF s2] e assms by (auto simp: s1_def mdec_ok_def)
  have "mdec_ok (finish_command s1)"
    by (rule fin) (use assms in \<open>simp_all add: s1_def mdec_ok_def out_ok_def\<close>)
  moreover have "mdec_ok (finish_command s2)"
    by (rule fin) (use assms c in \<open>simp_all add: s1_def mdec_ok_def out_ok_def\<close>)
  moreover have "mdec_ok (trace_event MDEC_EVT_CMD_BEGIN v s2)" if "ok" "e \<noteq> 0"
    using assms c e that by (simp add: s1_def mdec_ok_def out_ok_def word_gt_0)
  ultimately show ?thesis
    using s2 by (simp add: b) (simp add: s1_def)
qed

lemma push_input_count: "m_input_count s < m_expected s \<Longrightarrow> unat (m_input_count (push_input h s)) = unat (m_input_count s) + 1"
  using unat_u32_less [of "m_expected s"] by (simp add: push_input_def unat_word_ariths word_less_nat_alt)

lemma push_input_fields [simp]:
  "m_expected (push_input h s) = m_expected s" "m_input_cap (push_input h s) = m_input_cap s"
  "m_busy (push_input h s) = m_busy s" "m_scale (push_input h s) = m_scale s"
  "m_output_pos (push_input h s) = m_output_pos s" "m_output_size (push_input h s) = m_output_size s"
  "m_output_cap (push_input h s) = m_output_cap s"
  by (simp_all add: push_input_def)

lemma write_data_ok:
  assumes "mdec_ok s"
  shows "mdec_ok (write_data v s)"
proof (cases "m_busy s \<and> m_input_count s < m_expected s")
  case True
  let ?s1 = "push_input (ucast v) s"
  define s2 where "s2 = (if m_input_count ?s1 < m_expected ?s1 then push_input (ucast (drop_bit 16 v)) ?s1 else ?s1)"
  have e: "write_data v s = (if m_input_count s2 \<ge> m_expected s2 then execute_command s2 else s2)"
    using True by (simp add: write_data_def s2_def Let_def)
  have ex: "unat (m_expected s) \<le> 131070" and cap: "m_expected s \<le> m_input_cap s" "unat (m_input_cap s) \<le> 262144"
    using assms True by (auto simp: mdec_ok_def)
  have c1: "unat (m_input_count ?s1) = unat (m_input_count s) + 1"
    using True by (simp add: push_input_count)
  have c2: "unat (m_input_count s2) \<le> unat (m_expected s)"
    using c1 True push_input_count [of ?s1 "ucast (drop_bit 16 v)"]
    by (auto simp: s2_def word_less_nat_alt)
  have f: "m_expected s2 = m_expected s" "m_input_cap s2 = m_input_cap s" "m_scale s2 = m_scale s"
    "m_output_pos s2 = m_output_pos s" "m_output_size s2 = m_output_size s" "m_output_cap s2 = m_output_cap s"
    by (simp_all add: s2_def)
  have "mdec_ok (execute_command s2)"
    using assms c2 ex f cap by (intro execute_command_ok) (simp_all add: mdec_ok_def out_ok_def)
  moreover have "mdec_ok s2" if "\<not> m_input_count s2 \<ge> m_expected s2"
    using that assms f ex cap by (simp add: mdec_ok_def out_ok_def not_le)
  ultimately show ?thesis by (simp add: e)
next
  case False
  show ?thesis
    unfolding write_data_def if_not_P [OF False] by (rule begin_command_ok [OF assms])
qed

lemma mdec_ok_trace [simp]: "mdec_ok (trace_event k v s) = mdec_ok s"
  by (simp add: mdec_ok_def out_ok_def)

lemma soft_reset_ok: "mdec_ok s \<Longrightarrow> mdec_ok (soft_reset s)"
  by (simp add: mdec_ok_def out_ok_def soft_reset_def)

lemma mdec_init_ok: "mdec_ok (mdec_init s)"
  by (simp add: mdec_ok_def out_ok_def mdec_init_def soft_reset_def)

lemma mdec_write_ok:
  assumes "mdec_ok s"
  shows "mdec_ok (mdec_write a v s)"
proof -
  have "mdec_ok (x\<lparr>m_dma_in_en := p, m_dma_out_en := q\<rparr>) = mdec_ok x" for x p q
    by (simp add: mdec_ok_def out_ok_def)
  then show ?thesis
    using assms write_data_ok soft_reset_ok by (simp add: mdec_write_def Let_def)
qed

section \<open>Reading\<close>

lemma read_byte_step:
  "unat (m_output_pos s) < unat (m_output_size s) \<Longrightarrow>
   read_byte i (v, s) = (v OR push_bit (i * 8) (ucast (m_output s (unat (m_output_pos s)))), s\<lparr>m_output_pos := m_output_pos s + 1\<rparr>)"
  by (simp add: read_byte_def word_less_nat_alt)

lemma unat_inc: "unat (w::u32) < unat (z::u32) \<Longrightarrow> unat (w + 1) = unat w + 1"
  using unat_u32_less [of z] by (simp add: unat_word_ariths)

lemma read_word_full:
  assumes "unat (m_output_pos s) + 4 \<le> unat (m_output_size s)"
  defines "p \<equiv> unat (m_output_pos s)"
  shows "fst (mdec_dma_read_word s) = le_word (m_output s p) (m_output s (p + 1)) (m_output s (p + 2)) (m_output s (p + 3))"
    and "unat (m_output_pos (snd (mdec_dma_read_word s))) = (if p + 4 < unat (m_output_size s) then p + 4 else 0)"
    and "m_output_size (snd (mdec_dma_read_word s)) = (if p + 4 < unat (m_output_size s) then m_output_size s else 0)"
    and "m_output (snd (mdec_dma_read_word s)) = m_output s"
proof -
  let ?w = "m_output_pos s" and ?z = "m_output_size s"
  have u: "unat (?w + 1) = p + 1" "unat (?w + 1 + 1) = p + 2" "unat (?w + 1 + 1 + 1) = p + 3" "unat (?w + 1 + 1 + 1 + 1) = p + 4"
    using assms unat_inc [of ?w ?z] unat_inc [of "?w + 1" ?z] unat_inc [of "?w + 1 + 1" ?z] unat_inc [of "?w + 1 + 1 + 1" ?z]
    by (simp_all add: p_def)
  have four: "[0..<4] = [0, 1, 2, 3::nat]" by (simp add: upt_rec)
  have r: "fold read_byte [0..<4] (0, s) = (le_word (m_output s p) (m_output s (p + 1)) (m_output s (p + 2)) (m_output s (p + 3)),
      s\<lparr>m_output_pos := ?w + 1 + 1 + 1 + 1\<rparr>)"
    unfolding four using assms u
    by (simp add: read_byte_step p_def le_word_def add.assoc or.assoc)
  have n: "\<not> ?w \<ge> ?z" using assms by (simp add: word_le_nat_alt)
  have e: "(?w + 1 + 1 + 1 + 1 \<ge> ?z) = (\<not> p + 4 < unat ?z)"
    using u(4) by (simp add: word_le_nat_alt not_less)
  show "fst (mdec_dma_read_word s) = le_word (m_output s p) (m_output s (p + 1)) (m_output s (p + 2)) (m_output s (p + 3))"
    unfolding mdec_dma_read_word_def Let_def r by simp
  show "unat (m_output_pos (snd (mdec_dma_read_word s))) = (if p + 4 < unat ?z then p + 4 else 0)"
    "m_output_size (snd (mdec_dma_read_word s)) = (if p + 4 < unat ?z then ?z else 0)"
    "m_output (snd (mdec_dma_read_word s)) = m_output s"
    unfolding mdec_dma_read_word_def Let_def r using n e u(4) by (simp_all add: clear_output_def)
qed

fun mdec_reads :: "nat \<Rightarrow> mdec_st \<Rightarrow> u32 list \<times> mdec_st" where
  "mdec_reads 0 s = ([], s)"
| "mdec_reads (Suc n) s =
     (let (w, s1) = mdec_dma_read_word s; (ws, s2) = mdec_reads n s1 in (w # ws, s2))"

definition output_word :: "mdec_st \<Rightarrow> nat \<Rightarrow> u32" where
  "output_word s p = le_word (m_output s p) (m_output s (p + 1)) (m_output s (p + 2)) (m_output s (p + 3))"

lemma mdec_reads_output:
  "unat (m_output_size s) = unat (m_output_pos s) + 4 * Suc n \<Longrightarrow>
   fst (mdec_reads (Suc n) s) = map (\<lambda>k. output_word s (unat (m_output_pos s) + 4 * k)) [0..<Suc n] \<and>
   m_output_size (snd (mdec_reads (Suc n) s)) = 0 \<and> m_output_pos (snd (mdec_reads (Suc n) s)) = 0"
proof (induction n arbitrary: s)
  case 0
  then show ?case
    using read_word_full [of s] by (cases "mdec_dma_read_word s") (simp add: output_word_def unat_eq_zero)
next
  case (Suc n)
  obtain w s1 where r: "mdec_dma_read_word s = (w, s1)" by (metis prod.exhaust)
  have f: "w = output_word s (unat (m_output_pos s))" "unat (m_output_pos s1) = unat (m_output_pos s) + 4"
    "m_output_size s1 = m_output_size s" "m_output s1 = m_output s"
    using read_word_full [of s] Suc.prems r by (simp_all add: output_word_def)
  have IH: "fst (mdec_reads (Suc n) s1) = map (\<lambda>k. output_word s1 (unat (m_output_pos s1) + 4 * k)) [0..<Suc n] \<and>
     m_output_size (snd (mdec_reads (Suc n) s1)) = 0 \<and> m_output_pos (snd (mdec_reads (Suc n) s1)) = 0"
    by (rule Suc.IH) (use f Suc.prems in simp)
  have ow: "output_word s1 = output_word s" by (rule ext) (simp add: output_word_def f)
  have "map (\<lambda>k. output_word s (unat (m_output_pos s) + 4 * k)) [0..<Suc (Suc n)]
      = output_word s (unat (m_output_pos s)) # map (\<lambda>k. output_word s (unat (m_output_pos s) + 4 + 4 * k)) [0..<Suc n]"
    by (subst upt_conv_Cons) (simp_all add: map_Suc_upt [symmetric] add.assoc del: upt_Suc)
  note split = this
  obtain ws s2 where rs: "mdec_reads (Suc n) s1 = (ws, s2)" by (metis prod.exhaust)
  have "mdec_reads (Suc (Suc n)) s = (w # ws, s2)"
    using rs r by (simp only: mdec_reads.simps(2) [of "Suc n"] Let_def prod.case)
  then show ?case
    using IH unfolding rs split by (simp only: f(1,2) ow fst_conv snd_conv)
qed

lemma read_word_ok:
  assumes "mdec_ok s"
  shows "mdec_ok (snd (mdec_dma_read_word s))"
proof -
  have b: "mdec_ok (snd (read_byte i vs))" if "mdec_ok (snd vs)" for i vs
  proof (cases "m_output_pos (snd vs) < m_output_size (snd vs)")
    case True
    then have "unat (m_output_pos (snd vs) + 1) \<le> unat (m_output_size (snd vs))"
      by (subst unat_inc) (auto simp: word_less_nat_alt)
    then show ?thesis
      using that by (cases vs) (simp add: read_byte_def mdec_ok_def out_ok_def word_le_nat_alt)
  qed (use that in \<open>cases vs; simp add: read_byte_def\<close>)
  have f: "mdec_ok (snd (fold read_byte xs vs))" if "mdec_ok (snd vs)" for xs vs
    using that by (induction xs arbitrary: vs) (simp_all add: b)
  have c: "mdec_ok (clear_output x)" if "mdec_ok x" for x
    using that by (simp add: mdec_ok_def out_ok_def clear_output_def)
  have u: "mdec_ok (x\<lparr>m_dma_out_words := p\<rparr>) = mdec_ok x" "mdec_ok (x\<lparr>m_underflows := p\<rparr>) = mdec_ok x" for x p
    by (simp_all add: mdec_ok_def out_ok_def)
  obtain v s1 where r: "fold read_byte [0..<4] (0, s) = (v, s1)" by (metis prod.exhaust)
  have "mdec_ok s1" using f [of "(0, s)" "[0..<4]"] assms r by simp
  then show ?thesis
    unfolding mdec_dma_read_word_def Let_def r by (simp add: u c)
qed

section \<open>The transform stays in range\<close>

lemma sum_list_bound: "(\<And>x. x \<in> set xs \<Longrightarrow> \<bar>f x\<bar> \<le> K) \<Longrightarrow> \<bar>sum_list (map f xs)\<bar> \<le> int (length xs) * K" for f :: "nat \<Rightarrow> int"
proof (induction xs)
  case (Cons x xs)
  have "\<bar>f x + sum_list (map f xs)\<bar> \<le> \<bar>f x\<bar> + \<bar>sum_list (map f xs)\<bar>" by (rule abs_triangle_ineq)
  also have "\<dots> \<le> K + int (length xs) * K" using Cons by (intro add_mono) auto
  finally show ?case by (simp add: algebra_simps)
qed simp

lemma idct_sum_bound:
  assumes "\<And>i. \<bar>blk i\<bar> \<le> 16384" "\<And>i. \<bar>sc i\<bar> \<le> 4096"
  shows "\<bar>idct_sum blk sc c x\<bar> \<le> 536870912"
proof -
  have "\<bar>blk i * sc j\<bar> \<le> 16384 * 4096" for i j
    unfolding abs_mult using assms by (intro mult_mono) auto
  then show ?thesis
    using sum_list_bound [of "[0..<8]" "\<lambda>u. blk (c * 8 + u) * sc (x * 8 + u)" "16384 * 4096"]
    by (simp add: idct_sum_def)
qed

lemma round_bound:
  assumes "\<bar>a\<bar> \<le> (536870912 :: int)"
  shows "\<bar>drop_bit 15 (a + 0x4000)\<bar> \<le> 16384"
proof -
  have "- 16384 \<le> (a + 16384) div 32768" "(a + 16384) div 32768 \<le> 16384"
    using assms by linarith+
  then show ?thesis by (simp add: drop_bit_eq_div abs_le_iff)
qed

lemma idct_pass1_exact:
  assumes "\<And>i. \<bar>blk i\<bar> \<le> 16384" "\<And>i. \<bar>sc i\<bar> \<le> 4096"
  shows "idct_pass1 sc blk i = drop_bit 15 (idct_sum blk sc (i mod 8) (i div 8) + 0x4000)" "\<bar>idct_pass1 sc blk i\<bar> \<le> 16384"
proof -
  have b: "\<bar>drop_bit 15 (idct_sum blk sc (i mod 8) (i div 8) + 0x4000)\<bar> \<le> 16384"
    by (rule round_bound [OF idct_sum_bound [OF assms]])
  then have "s16 (drop_bit 15 (idct_sum blk sc (i mod 8) (i div 8) + 0x4000)) = drop_bit 15 (idct_sum blk sc (i mod 8) (i div 8) + 0x4000)"
    by (intro s16_id) linarith+
  then show "idct_pass1 sc blk i = drop_bit 15 (idct_sum blk sc (i mod 8) (i div 8) + 0x4000)" "\<bar>idct_pass1 sc blk i\<bar> \<le> 16384"
    using b by (simp_all add: idct_pass1_def Let_def)
qed

lemma mask9_range: "- 128 \<le> mask9_clamp_s8 v \<and> mask9_clamp_s8 v \<le> 127"
  by (simp add: mask9_clamp_s8_def Let_def)

lemma coeff_range: "\<bar>dc_coeff w q\<bar> \<le> 16384" "\<bar>ac_coeff w q\<bar> \<le> 16384"
proof -
  have c: "\<bar>clamp_int t (- 0x4000) 0x3FFF\<bar> \<le> 16384" for t
    by (auto simp: clamp_int_def abs_le_iff)
  show "\<bar>dc_coeff w q\<bar> \<le> 16384" "\<bar>ac_coeff w q\<bar> \<le> 16384"
    unfolding dc_coeff_def ac_coeff_def Let_def by (rule c)+
qed

lemma rle_loop_range:
  "(\<And>i. \<bar>blk i\<bar> \<le> 16384) \<Longrightarrow> \<bar>fst (rle_loop inp quant qs fin pos k blk) i\<bar> \<le> 16384"
proof (induction inp quant qs fin pos k blk rule: rle_loop.induct)
  case (1 inp quant qs fin pos k blk)
  let ?k1 = "k + unat (drop_bit 10 (inp pos) AND 0x3F) + 1"
  let ?blk = "blk(zigzag_to_linear ?k1 := ac_coeff (inp pos) (int qs * uint (quant ?k1)))"
  show ?case
  proof (cases "pos < fin \<and> k < 63 \<and> inp pos \<noteq> 0xFE00 \<and> ?k1 < 64")
    case True
    have "\<bar>?blk j\<bar> \<le> 16384" for j
      using "1.prems" coeff_range(2) by simp
    then have "\<bar>fst (rle_loop inp quant qs fin (pos + 1) ?k1 ?blk) i\<bar> \<le> 16384"
      by (intro "1.IH" [OF _ refl refl _ refl]) (use True in auto)
    then show ?thesis
      using True by (subst rle_loop.simps) (simp add: Let_def)
  next
    case False
    then show ?thesis
      using "1.prems" by (subst rle_loop.simps) (auto simp: Let_def)
  qed
qed

section \<open>Sizes\<close>

lemma decode_size:
  assumes "mdec_ok s" and "unat (m_input_count s) \<le> 131070" and "\<forall>k. m_realloc_ok s k"
  shows "unat (m_output_size (execute_decode s)) = decode_unit s * unat (m_macroblocks (execute_decode s))"
proof -
  obtain p s' where l: "decode_loop s = (p, s')" by (metis prod.exhaust)
  obtain k where k: "out_ext (decode_unit s * k) (decode_start s) s'" "m_macroblocks s' = of_nat k" "k \<le> 131070"
    using decode_loop_ext [OF l] assms by (auto simp: mdec_ok_def)
  have "unat (of_nat k :: u32) = k"
    using k(3) by (intro unat_of_nat32) simp
  then show ?thesis
    using k assms(3) by (simp add: execute_decode_fields [OF l] out_ext_def)
qed

section \<open>Padding\<close>

lemma skip_pad_all:
  "pos \<le> fin \<Longrightarrow> (\<And>i. i < fin \<Longrightarrow> inp i = 0xFE00) \<Longrightarrow> skip_pad inp fin 0xFE00 pos = (0xFE00, fin)"
proof (induction "fin - pos" arbitrary: pos)
  case 0
  then show ?case by (subst skip_pad.simps) simp
next
  case (Suc n)
  then show ?case by (subst skip_pad.simps) simp
qed

lemma rle_loop_at_end: "rle_loop inp quant q fin fin k b = (b, fin)"
  by (subst rle_loop.simps) simp

lemma rle_block_at_end:
  assumes "skip_pad inp fin (inp pos) (pos + 1) = (w, fin)"
  shows "snd (rle_block inp quant sc pos fin) = fin"
  unfolding rle_block_def assms Let_def prod.case rle_loop_at_end snd_conv by (rule refl)

lemma padding_block:
  assumes "0 < fin" "\<And>i. i < fin \<Longrightarrow> inp i = 0xFE00"
  shows "snd (rle_block inp quant sc 0 fin) = fin"
proof (rule rle_block_at_end)
  have "skip_pad inp fin 0xFE00 (0 + 1) = (0xFE00, fin)"
    by (rule skip_pad_all) (use assms in auto)
  then show "skip_pad inp fin (inp 0) (0 + 1) = (0xFE00, fin)"
    using assms(2) [OF assms(1)] by (simp only:)
qed

lemma padding_luma_loop:
  assumes "0 < fin" "\<And>i. i < fin \<Longrightarrow> m_input s i = 0xFE00" "m_macroblocks s = 0"
  shows "fst (luma_loop fin 0 s) = fin \<and> m_macroblocks (snd (luma_loop fin 0 s)) = 1"
proof -
  have "snd (rle_block (m_input s) (m_y_quant s) (m_scale s) 0 fin) = fin"
    by (rule padding_block) (use assms in auto)
  then obtain blk where b: "rle_block (m_input s) (m_y_quant s) (m_scale s) 0 fin = (blk, fin)"
    by (cases "rle_block (m_input s) (m_y_quant s) (m_scale s) 0 fin") (simp only: snd_conv)
  then have d: "decode_rle_block (m_y_quant s) 0 fin s = (Some blk, fin, s\<lparr>m_blocks := m_blocks s + 1\<rparr>)"
    using assms(1) by (simp add: decode_rle_block_def)
  define u where "u = append_luma_block blk (s\<lparr>m_blocks := m_blocks s + 1\<rparr>)"
  have "luma_loop fin 0 s = luma_loop fin fin (u\<lparr>m_macroblocks := m_macroblocks u + 1\<rparr>)"
    using assms(1) by (subst luma_loop.simps) (simp add: d u_def Let_def)
  also have "\<dots> = (fin, u\<lparr>m_macroblocks := m_macroblocks u + 1\<rparr>)"
    by (subst luma_loop.simps) simp
  finally show ?thesis
    using assms(3) by (simp add: u_def append_keeps)
qed

section \<open>The trace ring\<close>

interpretation mtr: log_ring 4096 "\<lambda>s. unat (m_trace_head s) < 4096" m_trace "\<lambda>s. unat (m_trace_head s)"
  "\<lambda>(k, v). trace_event k v" "\<lambda>(k, v) s. mdec_row k v s"
proof (unfold_locales, goal_cases)
  case (4 s x)
  then show ?case by (cases x) (simp add: trace_event_def unat_mod unat_word_ariths(1) [of "m_trace_head s" 1])
qed (auto simp: trace_event_def unat_mod)

section \<open>Histories\<close>

datatype mdec_op = Mdec_Init | Mdec_Write u32 u32 | Mdec_Read u32 | Mdec_Dma_Write u32 | Mdec_Dma_Read

fun mdec_step :: "mdec_op \<Rightarrow> mdec_st \<Rightarrow> mdec_st" where
  "mdec_step Mdec_Init s = mdec_init s"
| "mdec_step (Mdec_Write a v) s = mdec_write a v s"
| "mdec_step (Mdec_Read a) s = snd (mdec_read a s)"
| "mdec_step (Mdec_Dma_Write v) s = mdec_dma_write_word v s"
| "mdec_step Mdec_Dma_Read s = snd (mdec_dma_read_word s)"

lemma mdec_read_ok: "mdec_ok s \<Longrightarrow> mdec_ok (snd (mdec_read a s))"
  by (simp add: mdec_read_def read_word_ok) (simp add: mdec_ok_def out_ok_def)

lemma mdec_step_ok: "mdec_ok s \<Longrightarrow> mdec_ok (mdec_step op s)"
  by (cases op) (simp_all add: mdec_init_ok mdec_write_ok mdec_read_ok write_data_ok read_word_ok mdec_dma_write_word_def)

lemma mdec_steps_ok: "mdec_ok s \<Longrightarrow> mdec_ok (fold mdec_step ops s)"
  by (induction ops arbitrary: s) (simp_all add: mdec_step_ok)

section \<open>Properties\<close>

definition demo_mdec :: mdec_st where
  "demo_mdec = mdec_init
     \<lparr>m_command = 0, m_expected = 0, m_input_count = 0, m_input = \<lambda>_. 0xFE00, m_input_cap = 0, m_output = \<lambda>_. 0,
      m_output_size = 0, m_output_pos = 0, m_output_cap = 0, m_y_quant = \<lambda>_. 1, m_uv_quant = \<lambda>_. 1,
      m_scale = \<lambda>_. 0, m_bit15 = False, m_signed = False, m_depth = 3, m_current_block = 4, m_busy = False,
      m_input_full = False, m_dma_in_en = False, m_dma_out_en = False, m_last_status = 0, m_macroblocks = 0,
      m_blocks = 0, m_stop_reason = 0, m_input_pos = 0, m_input_end = 0, m_dma_in_words = 0, m_dma_out_words = 0,
      m_underflows = 0, m_trace = \<lambda>_. zero_mdec_event, m_trace_seq = 0, m_trace_head = 0, m_decode_count = 0,
      m_last_color_frame = 0, m_frame = 0, m_realloc_ok = \<lambda>_. True\<rparr>"

lemma demo_mdec_ok: "mdec_ok demo_mdec"
  unfolding demo_mdec_def by (rule mdec_init_ok)

text \<open>C36: No history of register accesses and DMA words makes the decoder touch memory it
  does not own: afterwards, while a command is collecting input the next halfword to store
  is below the expected count and inside the input buffer, the output cursor is within the
  decoded bytes, and those are within the allocated output buffer, even if \<open>realloc\<close> fails
  at any point.\<close>

theorem mdec_reachable_safe:
  "let s = fold mdec_step ops (mdec_init s0) in
     (\<not> m_busy s \<or> m_input_count s < m_expected s \<and> m_expected s \<le> m_input_cap s) \<and>
     m_output_pos s \<le> m_output_size s \<and> m_output_size s \<le> m_output_cap s"
  using mdec_steps_ok [OF mdec_init_ok, of ops s0] by (auto simp: Let_def mdec_ok_def out_ok_def word_le_nat_alt)

lemma mdec_reachable_safe_witness:
  "let s = fold mdec_step [Mdec_Write 0 0x40000001, Mdec_Dma_Write 0x01020304] (mdec_init demo_mdec)
   in m_output_pos s \<le> m_output_size s \<and> m_output_size s \<le> m_output_cap s"
  using mdec_reachable_safe [of "[Mdec_Write 0 0x40000001, Mdec_Dma_Write 0x01020304]" demo_mdec]
  by (simp only: Let_def)

text \<open>With an allocator that does not fail, a decode produces a whole number of output
  units: exactly 64 bytes per luma block, 512 bytes per 15-bit and 768 bytes per other colour
  macroblock, as counted by \<open>decode_macroblocks\<close>.\<close>

theorem mdec_decode_size:
  assumes "mdec_ok s" and "unat (m_input_count s) \<le> 131070" and "\<forall>k. m_realloc_ok s k"
  shows "unat (m_output_size (execute_decode s)) = decode_unit s * unat (m_macroblocks (execute_decode s))"
  using assms by (rule decode_size)

lemma mdec_decode_size_witness:
  "unat (m_output_size (execute_decode demo_mdec)) = 512 * unat (m_macroblocks (execute_decode demo_mdec))"
  using mdec_decode_size [of demo_mdec, OF demo_mdec_ok]
  by (simp add: demo_mdec_def mdec_init_def soft_reset_def decode_unit_def pixel_size_def)

text \<open>C37: The integer arithmetic of the inverse transform cannot overflow: for any
  coefficients the run-length decoder can produce and any matrix \<open>SET_SCALE\<close> can load, the
  rounded sums of both passes stay below \<open>2 ^ 30\<close>, the \<open>int16_t\<close> intermediate of the
  first pass is exact, and every sample is in -128..127.\<close>

theorem mdec_idct_in_range:
  assumes "\<forall>i. - 4096 \<le> sc i \<and> sc i \<le> 4095"
  shows "let blk = fst (rle_loop inp quant qs fin pos 0 ((\<lambda>_. 0)(0 := dc_coeff w q))) in
     \<bar>idct_sum blk sc c x + 0x4000\<bar> < 2 ^ 30 \<and>
     idct_pass1 sc blk i = drop_bit 15 (idct_sum blk sc (i mod 8) (i div 8) + 0x4000) \<and>
     \<bar>idct_sum (idct_pass1 sc blk) sc c x + 0x4000\<bar> < 2 ^ 30 \<and>
     - 128 \<le> idct_block sc blk i \<and> idct_block sc blk i \<le> 127"
proof -
  define blk where "blk = fst (rle_loop inp quant qs fin pos 0 ((\<lambda>_. 0)(0 := dc_coeff w q)))"
  have b: "\<bar>blk j\<bar> \<le> 16384" for j
    unfolding blk_def by (rule rle_loop_range) (simp add: coeff_range(1))
  have s: "\<bar>sc j\<bar> \<le> 4096" for j
  proof -
    have "- 4096 \<le> sc j" "sc j \<le> 4095" using assms by auto
    then show ?thesis by linarith
  qed
  have p: "\<bar>idct_pass1 sc blk j\<bar> \<le> 16384" for j
    by (rule idct_pass1_exact(2)) (rule b s)+
  have "\<bar>idct_sum blk sc c x\<bar> \<le> 536870912" "\<bar>idct_sum (idct_pass1 sc blk) sc c x\<bar> \<le> 536870912"
    by (rule idct_sum_bound, rule b p, rule s)+
  moreover have "idct_pass1 sc blk i = drop_bit 15 (idct_sum blk sc (i mod 8) (i div 8) + 0x4000)"
    by (rule idct_pass1_exact(1)) (rule b s)+
  moreover have "- 128 \<le> idct_block sc blk i \<and> idct_block sc blk i \<le> 127"
    unfolding idct_block_def Let_def by (rule mask9_range)
  ultimately show ?thesis
    unfolding Let_def blk_def [symmetric] by (simp add: abs_le_iff abs_less_iff)
qed

lemma mdec_idct_in_range_witness:
  "let blk = fst (rle_loop (\<lambda>_. 0x05FF) (\<lambda>_. 255) 63 64 1 0 ((\<lambda>_. 0)(0 := dc_coeff 0x1FF 255))) in
     \<bar>idct_sum blk (\<lambda>_. 4095) 3 4 + 0x4000\<bar> < 2 ^ 30"
  using mdec_idct_in_range [of "\<lambda>_. 4095" "\<lambda>_. 0x05FF" "\<lambda>_. 255" 63 64 1 "0x1FF" 255 3 4 0]
  by (simp add: Let_def)

text \<open>The output FIFO hands the decoded bytes over in order: with a whole number of words
  waiting, that many word reads return the buffer's bytes packed little-endian, one after
  the other, and leave the decoder drained.\<close>

theorem mdec_reads_in_order:
  assumes "m_output_pos s = 0" and "unat (m_output_size s) = 4 * Suc n"
  shows "fst (mdec_reads (Suc n) s) = map (\<lambda>k. output_word s (4 * k)) [0..<Suc n] \<and>
     \<not> mdec_dma_read_ready (snd (mdec_reads (Suc n) s))"
  using mdec_reads_output [of s n] assms by (simp add: mdec_dma_read_ready_def del: upt_Suc mdec_reads.simps)

lemma mdec_reads_in_order_witness:
  "fst (mdec_reads (Suc 1) (demo_mdec\<lparr>m_output_size := 8, m_output := of_nat\<rparr>)) = [0x03020100, 0x07060504]"
  using mdec_reads_in_order [of "demo_mdec\<lparr>m_output_size := 8, m_output := of_nat\<rparr>" 1]
  by (simp add: demo_mdec_def mdec_init_def soft_reset_def output_word_def le_word_def upt_rec
      del: mdec_reads.simps)

text \<open>Trailing padding is decoded as picture data: in the luma depths an input that is
  nothing but 0xFE00 padding words yields one full 64-byte block instead of none, because
  the padding skip stops at the last word and takes it for a DC coefficient.\<close>

theorem mdec_padding_decodes_block:
  assumes "mdec_ok s" and "\<forall>k. m_realloc_ok s k" and "m_depth s < 2"
    and "0 < unat (m_input_count s)" and "unat (m_input_count s) \<le> 131070"
    and "\<forall>i < unat (m_input_count s). m_input s i = 0xFE00"
  shows "m_macroblocks (execute_decode s) = 1 \<and> unat (m_output_size (execute_decode s)) = 64"
proof -
  obtain p s' where l: "decode_loop s = (p, s')" by (metis prod.exhaust)
  have "m_macroblocks s' = 1"
    using padding_luma_loop [of "unat (m_input_count s)" "decode_start s"] assms l by (simp add: decode_loop_def)
  then have m: "m_macroblocks (execute_decode s) = 1"
    by (simp add: execute_decode_fields [OF l])
  moreover have "unat (m_output_size (execute_decode s)) = decode_unit s * unat (m_macroblocks (execute_decode s))"
    using assms by (intro decode_size) auto
  ultimately show ?thesis
    using assms(3) by (simp add: decode_unit_def)
qed

lemma mdec_padding_decodes_block_witness:
  "m_macroblocks (execute_decode (demo_mdec\<lparr>m_input_count := 4, m_depth := 1\<rparr>)) = 1"
proof -
  let ?s = "demo_mdec\<lparr>m_input_count := 4, m_depth := 1\<rparr>"
  have "mdec_ok ?s"
    using demo_mdec_ok by (simp add: mdec_ok_def out_ok_def demo_mdec_def mdec_init_def soft_reset_def)
  then show ?thesis
    using mdec_padding_decodes_block [of ?s]
    by (simp add: demo_mdec_def mdec_init_def soft_reset_def)
qed

end
