(* ===== verification/Spu_Sweep.thy ===== *)
theory Spu_Sweep
  imports Prelude
begin

text \<open>
  The fixed/sweep volume envelope: \<open>psxrecomp/runtime/src/spu_sweep.c\<close>.

  \<open>SpuSweep\<close> is a record of the three 16-bit registers. The intermediate \<open>int32_t\<close> step
  is an HOL integer (it stays inside 29 bits); the shifts the C code does through
  \<open>uint32_t\<close> are written with \<open>s32\<close>. The lemmas show that a sweep never leaves its phase,
  that increasing sweeps climb to the signed endpoint and that zero absorbs decreasing ones.
\<close>

record spu_sweep =
  sw_control :: u16
  sw_current :: u16
  sw_divider :: u16

abbreviation (input) sw_exponential :: "u16 \<Rightarrow> bool" where "sw_exponential c \<equiv> has c 0x4000"
abbreviation (input) sw_decreasing :: "u16 \<Rightarrow> bool" where "sw_decreasing c \<equiv> has c 0x2000"
abbreviation (input) sw_negative :: "u16 \<Rightarrow> bool" where "sw_negative c \<equiv> has c 0x1000"

definition sweep_rate :: "u16 \<Rightarrow> nat" where
  "sweep_rate control = unat (control AND 0x7F)"

definition sweep_delta :: "u16 \<Rightarrow> int \<Rightarrow> int \<times> u16" where
  "sweep_delta control phase_level =
     (let rate = sweep_rate control;
          exponential = sw_exponential control;
          decreasing = sw_decreasing control;
          negative_phase = sw_negative control;
          reverse_step = (decreasing \<noteq> negative_phase \<or> decreasing \<and> exponential);
          step0 = 7 - int (rate mod 4);
          step1 = (if reverse_step then NOT step0 else step0);
          step2 = (if rate < 0x2C then s32 (push_bit ((0x2F - rate) div 4) step1) else step1);
          cnt0 = (if rate \<ge> 0x30 then drop_bit ((rate - 0x2C) div 4) (0x8000 :: u32) else 0x8000);
          (step3, cnt1) =
            (if exponential then
               (if decreasing then (drop_bit 15 (phase_level * step2), cnt0)
                else if (word_of_int phase_level :: u16) AND 0x7FFF \<ge> 0x6000 then
                  (if rate < 0x28 then (drop_bit 2 step2, cnt0)
                   else if rate \<ge> 0x2C then (step2, drop_bit 2 cnt0)
                   else (drop_bit 1 step2, drop_bit 1 cnt0))
                else (step2, cnt0))
             else (step2, cnt0));
          cnt2 = (if cnt1 = 0 \<and> rate \<noteq> 0x7F then 1 else cnt1)
      in (step3, ucast cnt2))"

definition decrease_has_reached_zero :: "u16 \<Rightarrow> u16 \<Rightarrow> bool" where
  "decrease_has_reached_zero control current =
     (let stop_sign = (if sw_negative control then 0x0000 else 0x8000) in
      if \<not> sw_decreasing control then False
      else if sw_negative control \<and> sw_exponential control then False
      else current = 0 \<or> current AND 0x8000 = stop_sign)"

definition sweep_phase_mask :: "u16 \<Rightarrow> u16" where
  "sweep_phase_mask control = (if sw_negative control then 0xFFFF else 0)"

definition add_step_with_saturation :: "u16 \<Rightarrow> u16 \<Rightarrow> int \<Rightarrow> u16" where
  "add_step_with_saturation control current step =
     (let decreasing = sw_decreasing control; phase_mask = sweep_phase_mask control in
      if \<not> decreasing \<and> current XOR phase_mask = 0x7FFF then current
      else
        let previous = current; nxt = word_of_int (uint current + step) in
        if \<not> decreasing \<and> has (nxt XOR previous) 0x8000 \<and> has (nxt XOR phase_mask) 0x8000
        then 0x7FFF XOR phase_mask else nxt)"

definition spu_sweep_reset :: "spu_sweep" where
  "spu_sweep_reset = \<lparr>sw_control = 0, sw_current = 0, sw_divider = 0\<rparr>"

definition spu_sweep_write_control :: "u16 \<Rightarrow> spu_sweep \<Rightarrow> spu_sweep" where
  "spu_sweep_write_control value sw = sw\<lparr>sw_control := value\<rparr>"

definition spu_sweep_write_current :: "u16 \<Rightarrow> spu_sweep \<Rightarrow> spu_sweep" where
  "spu_sweep_write_current value sw = sw\<lparr>sw_current := value\<rparr>"

definition spu_sweep_read_current :: "spu_sweep \<Rightarrow> int" where
  "spu_sweep_read_current sw = sint (sw_current sw)"

definition sweep_phase_xor :: "u16 \<Rightarrow> u16" where
  "sweep_phase_xor control =
     (if sw_negative control \<and> \<not> (sw_decreasing control \<and> sw_exponential control)
      then 0xFFFF else 0)"

definition spu_sweep_clock :: "spu_sweep \<Rightarrow> spu_sweep" where
  "spu_sweep_clock sw =
     (if \<not> has (sw_control sw) 0x8000 then
        sw\<lparr>sw_current := push_bit 1 (sw_control sw AND 0x7FFF)\<rparr>
      else if decrease_has_reached_zero (sw_control sw) (sw_current sw) then
        sw\<lparr>sw_current := 0\<rparr>
      else
        let (step, counter_add) =
              sweep_delta (sw_control sw) (sint (sw_current sw XOR sweep_phase_xor (sw_control sw)));
            divider = sw_divider sw + counter_add
        in if \<not> has divider 0x8000 then sw\<lparr>sw_divider := divider\<rparr>
           else sw\<lparr>sw_divider := 0,
                   sw_current := add_step_with_saturation (sw_control sw) (sw_current sw) step\<rparr>)"

section \<open>The step and the divider increment\<close>

lemma shifted_step:
  assumes "n \<le> 11"
  shows "4 \<le> x \<Longrightarrow> x \<le> 7 \<Longrightarrow> 4 \<le> push_bit n (x::int) \<and> push_bit n x \<le> 14336"
    and "-8 \<le> x \<Longrightarrow> x \<le> -5 \<Longrightarrow> - 16384 \<le> push_bit n (x::int) \<and> push_bit n x \<le> -5"
proof -
  have p: "(2::int) ^ n \<le> 2048" "(1::int) \<le> 2 ^ n"
    using power_increasing [OF assms, of "2::int"] by simp_all
  show "4 \<le> push_bit n (x::int) \<and> push_bit n x \<le> 14336" if "4 \<le> x" "x \<le> 7"
  proof -
    have "4 * 1 \<le> x * 2 ^ n" using that p by (intro mult_mono) auto
    moreover have "x * 2 ^ n \<le> 7 * 2048" using that p by (intro mult_mono) auto
    ultimately show ?thesis by (simp add: push_bit_eq_mult)
  qed
  show "- 16384 \<le> push_bit n (x::int) \<and> push_bit n x \<le> -5" if "-8 \<le> x" "x \<le> -5"
  proof -
    have "5 * 1 \<le> - x * 2 ^ n" using that p by (intro mult_mono) auto
    moreover have "- x * 2 ^ n \<le> 8 * 2048" using that p by (intro mult_mono) auto
    ultimately show ?thesis by (simp add: push_bit_eq_mult)
  qed
qed

definition sweep_base_step :: "u16 \<Rightarrow> int" where
  "sweep_base_step control =
     (let rate = sweep_rate control; step0 = 7 - int (rate mod 4);
          step1 = (if sw_decreasing control \<noteq> sw_negative control
                      \<or> sw_decreasing control \<and> sw_exponential control then NOT step0 else step0)
      in if rate < 0x2C then push_bit ((0x2F - rate) div 4) step1 else step1)"

lemma sweep_base_step_range:
  assumes "\<not> sw_decreasing control"
  shows "\<not> sw_negative control \<Longrightarrow> 4 \<le> sweep_base_step control \<and> sweep_base_step control \<le> 14336"
    and "sw_negative control \<Longrightarrow> - 16384 \<le> sweep_base_step control \<and> sweep_base_step control \<le> - 5"
proof -
  let ?r = "sweep_rate control"
  have n: "(0x2F - ?r) div 4 \<le> 11" by simp
  have m: "?r mod 4 \<le> 3" using mod_less_divisor [of 4 ?r] by linarith
  show "4 \<le> sweep_base_step control \<and> sweep_base_step control \<le> 14336" if "\<not> sw_negative control"
    using that assms m shifted_step(1) [OF n, of "7 - int (?r mod 4)"]
    by (simp add: sweep_base_step_def Let_def)
  show "- 16384 \<le> sweep_base_step control \<and> sweep_base_step control \<le> - 5" if "sw_negative control"
    using that assms m shifted_step(2) [OF n, of "NOT (7 - int (?r mod 4))"]
    by (simp add: sweep_base_step_def Let_def not_int_def)
qed

lemma sweep_delta_step:
  "fst (sweep_delta control lvl) =
     (let rate = sweep_rate control; b = s32 (sweep_base_step control) in
      if sw_exponential control then
        if sw_decreasing control then drop_bit 15 (lvl * b)
        else if (word_of_int lvl :: u16) AND 0x7FFF \<ge> 0x6000 then
          (if rate < 0x28 then drop_bit 2 b else if rate \<ge> 0x2C then b else drop_bit 1 b)
        else b
      else b)"
proof -
  let ?s1 = "\<lambda>r. if sw_decreasing control \<noteq> sw_negative control
       \<or> sw_decreasing control \<and> sw_exponential control then NOT (7 - int (r mod 4)) else 7 - int (r mod 4)"
  have "\<not> sweep_rate control < 0x2C \<Longrightarrow> s32 (sweep_base_step control) = sweep_base_step control"
    by (rule s32_id) (auto simp: sweep_base_step_def Let_def not_int_def)
  moreover have "\<not> sweep_rate control < 0x2C \<Longrightarrow> sweep_base_step control = ?s1 (sweep_rate control)"
    by (simp add: sweep_base_step_def Let_def)
  moreover have "sweep_rate control < 0x2C \<Longrightarrow>
      sweep_base_step control = push_bit ((0x2F - sweep_rate control) div 4) (?s1 (sweep_rate control))"
    by (simp add: sweep_base_step_def Let_def)
  ultimately show ?thesis
    by (auto simp: sweep_delta_def Let_def)
qed

lemma sweep_step_range:
  assumes "\<not> sw_decreasing control"
  shows "\<not> sw_negative control \<Longrightarrow>
           1 \<le> fst (sweep_delta control lvl) \<and> fst (sweep_delta control lvl) \<le> 14336"
    and "sw_negative control \<Longrightarrow>
           - 16384 \<le> fst (sweep_delta control lvl) \<and> fst (sweep_delta control lvl) \<le> - 1"
proof -
  let ?b = "sweep_base_step control"
  have d: "fst (sweep_delta control lvl) \<in> {?b, drop_bit 1 ?b, drop_bit 2 ?b}"
    if "- 16384 \<le> ?b" "?b \<le> 14336"
    using assms that s32_id [of ?b] by (simp add: sweep_delta_step Let_def)
  show "1 \<le> fst (sweep_delta control lvl) \<and> fst (sweep_delta control lvl) \<le> 14336" if "\<not> sw_negative control"
    using sweep_base_step_range(1) [OF assms that] d by (auto simp: drop_bit_eq_div)
  show "- 16384 \<le> fst (sweep_delta control lvl) \<and> fst (sweep_delta control lvl) \<le> - 1" if "sw_negative control"
    using sweep_base_step_range(2) [OF assms that] d by (auto simp: drop_bit_eq_div)
qed

lemma sweep_counter_pos:
  assumes "sweep_rate control \<noteq> 0x7F"
  shows "0 < unat (snd (sweep_delta control lvl)) \<and> unat (snd (sweep_delta control lvl)) \<le> 0x8000"
proof -
  obtain c1 :: u32 where c1: "unat c1 \<le> 0x8000"
    "snd (sweep_delta control lvl) = ucast (if c1 = 0 then 1 else c1)"
  proof -
    define c0 :: u32 where "c0 = (if sweep_rate control \<ge> 0x30
        then drop_bit ((sweep_rate control - 0x2C) div 4) 0x8000 else 0x8000)"
    have c0: "unat c0 \<le> 0x8000"
      by (simp add: c0_def drop_bit_eq_div unat_div)
    have d: "unat (drop_bit n c0) \<le> 0x8000" for n
      by (simp only: unat_drop_bit_eq) (simp only: drop_bit_eq_div order_trans [OF div_le_dividend c0])
    have "\<exists>c1 \<in> {c0, drop_bit 1 c0, drop_bit 2 c0}.
        snd (sweep_delta control lvl) = ucast (if c1 = 0 then 1 else c1)"
      using assms unfolding sweep_delta_def Let_def c0_def [symmetric]
      by (simp split: if_split)
    then show ?thesis
      using that c0 d by blast
  qed
  show ?thesis
  proof (cases "c1 = 0")
    case False
    have "unat (ucast c1 :: u16) = unat c1"
      using c1(1) by (simp add: unsigned_ucast_eq take_bit_nat_eq_self_iff)
    then show ?thesis
      using c1 False by (simp add: unat_gt_0)
  qed (use c1 in simp)
qed

section \<open>Increasing sweeps\<close>

text \<open>The level seen from the phase: the volume itself, or its inversion in the negative phase.\<close>

definition sweep_level :: "spu_sweep \<Rightarrow> int" where
  "sweep_level sw = sint (sw_current sw XOR sweep_phase_mask (sw_control sw))"

lemma sint_u16_not: "sint (NOT w :: u16) = - sint w - 1"
proof -
  have "sint (NOT w :: u16) = NOT (sint w)"
    by (rule bit_eqI) (auto simp: bit_simps min_def)
  then show ?thesis by (simp add: not_int_def)
qed

lemma has_sign16: "has (w::u16) 0x8000 \<longleftrightarrow> sint w < 0"
  using has_single_bit [of w 15] bit_last_iff [of w] by simp

lemma sint_xor16: "sint (a XOR b :: u16) < 0 \<longleftrightarrow> (sint a < 0) \<noteq> (sint b < 0)"
  using bit_last_iff [of "a XOR b"] bit_last_iff [of a] bit_last_iff [of b] by (simp add: bit_xor_iff)

lemma xor_eq_iff: "a XOR b = c \<longleftrightarrow> a = c XOR b" for a :: "'a::len word"
  by (metis xor.assoc xor_self_eq xor.right_neutral)

lemma sint_u16_range: "- 32768 \<le> sint (w::u16)" "sint (w::u16) \<le> 32767"
  using sint_ge [of w] sint_lt [of w] by simp_all

lemma signed16_id: "- 32768 \<le> x \<Longrightarrow> x \<le> 32767 \<Longrightarrow> signed_take_bit 15 (x::int) = x"
  by (rule signed_take_bit_id) simp_all

lemma sint_step16: "sint (w + word_of_int k :: u16) = signed_take_bit 15 (sint w + k)"
proof -
  have "signed_take_bit 15 (sint w) = sint w"
    using sint_u16_range [of w] by (simp add: signed16_id)
  then have "signed_take_bit 15 (sint w + k) = signed_take_bit 15 (sint w + signed_take_bit 15 k)"
    using signed_take_bit_add [of 15 "sint w" k] by simp
  then show ?thesis
    by (simp add: sint_word_add signed_of_int)
qed

lemma signed16_over: "32767 < x \<Longrightarrow> x \<le> 65535 \<Longrightarrow> signed_take_bit 15 (x::int) = x - 65536"
  and signed16_under: "x < - 32768 \<Longrightarrow> - 65536 \<le> x \<Longrightarrow> signed_take_bit 15 (x::int) = x + 65536"
proof -
  have e: "signed_take_bit 15 x = (x + 32768) mod 65536 - 32768"
    by (simp add: signed_take_bit_eq_take_bit_shift take_bit_eq_mod)
  have "(x + 32768) mod 65536 = (x - 32768) mod 65536" "(x + 32768) mod 65536 = (x + 98304) mod 65536"
    using mod_add_self2 [of "x - 32768" 65536] mod_add_self2 [of "x + 32768" 65536] by (simp_all add: algebra_simps)
  then show "32767 < x \<Longrightarrow> x \<le> 65535 \<Longrightarrow> signed_take_bit 15 x = x - 65536"
    "x < - 32768 \<Longrightarrow> - 65536 \<le> x \<Longrightarrow> signed_take_bit 15 x = x + 65536"
    unfolding e by simp_all
qed

text \<open>One step of an increasing sweep saturates at the endpoint of its phase.\<close>

lemma increase_positive:
  assumes "\<not> sw_decreasing control" "\<not> sw_negative control" "0 \<le> sint cur" "0 \<le> step" "step \<le> 16384"
  shows "sint (add_step_with_saturation control cur step) = min 32767 (sint cur + step)"
proof -
  have s: "sint (word_of_int (uint cur + step) :: u16) = (if sint cur + step \<le> 32767 then sint cur + step else sint cur + step - 65536)"
    using assms sint_u16_range [of cur] by (simp add: sint_step16 signed16_id signed16_over)
  show ?thesis
    using assms s sint_u16_range [of cur]
    by (auto simp: add_step_with_saturation_def sweep_phase_mask_def Let_def has_sign16 sint_xor16 simp del: of_int_add)
qed

lemma increase_negative:
  assumes "\<not> sw_decreasing control" "sw_negative control" "sint cur < 0" "step \<le> 0" "- 16384 \<le> step"
  shows "sint (add_step_with_saturation control cur step) = max (- 32768) (sint cur + step)"
proof -
  have s: "sint (word_of_int (uint cur + step) :: u16) = (if - 32768 \<le> sint cur + step then sint cur + step else sint cur + step + 65536)"
    using assms sint_u16_range [of cur] by (simp add: sint_step16 signed16_id signed16_under)
  have m: "(cur XOR 0xFFFF = 0x7FFF) = (cur = 0x8000)"
    by (simp add: xor_eq_iff)
  show ?thesis
    using assms s sint_u16_range [of cur]
    by (auto simp: add_step_with_saturation_def sweep_phase_mask_def Let_def has_sign16 sint_xor16 m simp del: of_int_add)
qed

lemma sweep_level_alt:
  "sweep_level sw = (if sw_negative (sw_control sw) then - sint (sw_current sw) - 1 else sint (sw_current sw))"
proof -
  have m: "(0xFFFF :: u16) = - 1" by simp
  have "w XOR 0xFFFF = NOT w" for w :: u16
    unfolding m by (rule bit_word_eqI) (simp add: bit_simps)
  then show ?thesis
    by (simp add: sweep_level_def sweep_phase_mask_def sint_u16_not)
qed

lemma sweep_level_le: "sweep_level sw \<le> 32767"
  using sint_u16_range by (simp add: sweep_level_def)

lemma sweep_clock_cases:
  assumes "has (sw_control sw) 0x8000" "\<not> sw_decreasing (sw_control sw)"
  shows "\<exists>step cnt. sweep_delta (sw_control sw) (sint (sw_current sw XOR sweep_phase_xor (sw_control sw))) = (step, cnt) \<and>
     spu_sweep_clock sw =
       (if \<not> has (sw_divider sw + cnt) 0x8000 then sw\<lparr>sw_divider := sw_divider sw + cnt\<rparr>
        else sw\<lparr>sw_divider := 0, sw_current := add_step_with_saturation (sw_control sw) (sw_current sw) step\<rparr>)"
  using assms
  by (cases "sweep_delta (sw_control sw) (sint (sw_current sw XOR sweep_phase_xor (sw_control sw)))")
     (simp add: spu_sweep_clock_def decrease_has_reached_zero_def Let_def)

lemma increase_step_level:
  assumes "\<not> sw_decreasing (sw_control sw)" "0 \<le> sweep_level sw"
    and "step = fst (sweep_delta (sw_control sw) lvl)"
  shows "\<exists>m\<ge>1. sweep_level (sw\<lparr>sw_divider := d,
           sw_current := add_step_with_saturation (sw_control sw) (sw_current sw) step\<rparr>)
         = min 32767 (sweep_level sw + m)"
proof (cases "sw_negative (sw_control sw)")
  case True
  then have r: "- 16384 \<le> step" "step \<le> -1" "sint (sw_current sw) < 0"
    using assms sweep_step_range(2) [of "sw_control sw" lvl] by (auto simp: sweep_level_alt)
  then show ?thesis
    using increase_negative [OF assms(1) True, of "sw_current sw" step] True
    by (intro exI [of _ "- step"]) (auto simp: sweep_level_alt)
next
  case False
  then have r: "1 \<le> step" "step \<le> 16384" "0 \<le> sint (sw_current sw)"
    using assms sweep_step_range(1) [of "sw_control sw" lvl] by (auto simp: sweep_level_alt)
  then show ?thesis
    using increase_positive [OF assms(1) False, of "sw_current sw" step] False
    by (intro exI [of _ step]) (auto simp: sweep_level_alt)
qed

definition sweep_increasing :: "spu_sweep \<Rightarrow> bool" where
  "sweep_increasing sw \<longleftrightarrow> has (sw_control sw) 0x8000 \<and> \<not> sw_decreasing (sw_control sw) \<and>
     0 \<le> sweep_level sw \<and> unat (sw_divider sw) < 0x8000"

lemma has_top16: "has (w::u16) 0x8000 \<longleftrightarrow> 0x8000 \<le> unat w"
proof -
  have "bit w 15 \<longleftrightarrow> bit (unat w) 15"
    by (simp add: bit_unsigned_iff)
  also have "\<dots> \<longleftrightarrow> odd (unat w div 32768)"
    by (simp add: bit_iff_odd)
  also have "\<dots> \<longleftrightarrow> 0x8000 \<le> unat w"
  proof (cases "32768 \<le> unat w")
    case True
    then have "unat w div 32768 = 1"
      using unat_u16_less [of w] by (intro div_nat_eqI) simp_all
    with True show ?thesis by simp
  qed simp
  finally show ?thesis
    using has_single_bit [of w 15] by simp
qed

lemma increase_clock_cases:
  assumes "sweep_increasing sw"
  obtains (tick) cnt where "spu_sweep_clock sw = sw\<lparr>sw_divider := sw_divider sw + cnt\<rparr>"
      "unat (sw_divider sw + cnt) < 0x8000"
      "sweep_rate (sw_control sw) \<noteq> 0x7F \<Longrightarrow> unat (sw_divider sw) < unat (sw_divider sw + cnt)"
  | (step) m cur where "spu_sweep_clock sw = sw\<lparr>sw_divider := 0, sw_current := cur\<rparr>" "1 \<le> m"
      "sweep_level (sw\<lparr>sw_divider := 0, sw_current := cur\<rparr>) = min 32767 (sweep_level sw + m)"
proof -
  let ?l = "sint (sw_current sw XOR sweep_phase_xor (sw_control sw))"
  obtain step cnt where sc: "sweep_delta (sw_control sw) ?l = (step, cnt)"
    and e: "spu_sweep_clock sw = (if \<not> has (sw_divider sw + cnt) 0x8000 then sw\<lparr>sw_divider := sw_divider sw + cnt\<rparr>
        else sw\<lparr>sw_divider := 0, sw_current := add_step_with_saturation (sw_control sw) (sw_current sw) step\<rparr>)"
    using sweep_clock_cases [of sw] assms by (auto simp: sweep_increasing_def)
  show thesis
  proof (cases "has (sw_divider sw + cnt) 0x8000")
    case True
    obtain m where "1 \<le> m" "sweep_level (sw\<lparr>sw_divider := 0,
           sw_current := add_step_with_saturation (sw_control sw) (sw_current sw) step\<rparr>)
         = min 32767 (sweep_level sw + m)"
      using increase_step_level [of sw step ?l 0] assms sc by (auto simp: sweep_increasing_def)
    with True e step show thesis by simp
  next
    case False
    have "unat (sw_divider sw) < unat (sw_divider sw + cnt)"
      if "sweep_rate (sw_control sw) \<noteq> 0x7F"
      using sweep_counter_pos [OF that, of ?l] sc assms
      by (simp add: sweep_increasing_def unat_word_ariths(1) [of "sw_divider sw" cnt])
    with False e tick show thesis by (simp add: has_top16)
  qed
qed

lemma increase_clock:
  assumes "sweep_increasing sw"
  shows "sweep_increasing (spu_sweep_clock sw)"
    and "sw_control (spu_sweep_clock sw) = sw_control sw"
    and "sweep_level sw \<le> sweep_level (spu_sweep_clock sw)"
  using assms
  by (cases rule: increase_clock_cases; simp add: sweep_increasing_def sweep_level_def sint_u16_range(2))+

lemma increase_reaches:
  assumes "sweep_increasing sw" "sweep_rate (sw_control sw) \<noteq> 0x7F"
  shows "\<exists>n. sweep_level ((spu_sweep_clock ^^ n) sw) = 32767"
  using assms
proof (induction "nat (32767 - sweep_level sw) * 65536 + (65536 - unat (sw_divider sw))"
    arbitrary: sw rule: less_induct)
  case less
  show ?case
  proof (cases "sweep_level sw = 32767")
    case True
    then show ?thesis by (intro exI [of _ 0]) simp
  next
    case False
    let ?sw' = "spu_sweep_clock sw"
    note c = increase_clock [OF less.prems(1)]
    have lt: "sweep_level sw < 32767"
      using False sweep_level_le [of sw] by simp
    have lt': "nat (32767 - sweep_level ?sw') * 65536 + (65536 - unat (sw_divider ?sw'))
        < nat (32767 - sweep_level sw) * 65536 + (65536 - unat (sw_divider sw))"
      using less.prems(1)
    proof (cases rule: increase_clock_cases)
      case (tick cnt)
      then have "sweep_level ?sw' = sweep_level sw" "unat (sw_divider sw) < unat (sw_divider ?sw')"
        using less.prems(2) by (simp_all add: sweep_level_def)
      then show ?thesis
        using unat_u16_less [of "sw_divider ?sw'"] by simp
    next
      case (step m cur)
      then have "nat (32767 - sweep_level ?sw') + 1 \<le> nat (32767 - sweep_level sw)" "sw_divider ?sw' = 0"
        using lt by auto
      then show ?thesis
        using unat_u16_less [of "sw_divider sw"] by simp
    qed
    then obtain n where "sweep_level ((spu_sweep_clock ^^ n) ?sw') = 32767"
      using less.hyps [OF lt' c(1)] c(2) less.prems(2) by auto
    then show ?thesis
      by (intro exI [of _ "Suc n"]) (simp add: funpow_swap1)
  qed
qed

lemma sweep_level_ticks:
  "sweep_increasing sw \<Longrightarrow> sweep_increasing ((spu_sweep_clock ^^ n) sw) \<and>
     sweep_level sw \<le> sweep_level ((spu_sweep_clock ^^ n) sw)"
  by (induction n) (auto simp: increase_clock(1) intro: order_trans [OF _ increase_clock(3)])

section \<open>Properties\<close>

text \<open>Fixed mode: with the sweep bit clear, one clock sets the live volume to twice the
  signed 15-bit volume field, whatever the volume was.\<close>

theorem sweep_fixed_volume:
  assumes "\<not> has (sw_control sw) 0x8000"
  shows "spu_sweep_read_current (spu_sweep_clock sw) = 2 * signed_take_bit 14 (uint (sw_control sw))"
proof -
  have "sint (push_bit 1 (w AND 0x7FFF) :: u16) = 2 * signed_take_bit 14 (uint w)" for w :: u16
  proof -
    have m: "(0x7FFF :: u16) = mask 15" by (simp add: mask_eq_exp_minus_1)
    have "sint (push_bit k (w AND mask (16 - k)) :: u16) = push_bit k (signed_take_bit (15 - k) (uint w))"
      if "k \<le> 15" for k
    proof (rule bit_eqI)
      fix n :: nat
      show "bit (sint (push_bit k (w AND mask (16 - k)) :: u16)) n = bit (push_bit k (signed_take_bit (15 - k) (uint w))) n"
      proof (cases "15 \<le> n")
        case True
        then have "min 15 n = 15" "min (15 - k) (n - k) = 15 - k" using that by simp_all
        moreover have "15 - k < 16 - k" "15 - k < 16" using that by linarith+
        ultimately show ?thesis using that True by (simp add: bit_simps)
      next
        case False
        then have "min 15 n = n" "min (15 - k) (n - k) = n - k" using that by simp_all
        then show ?thesis using that False by (auto simp: bit_simps)
      qed
    qed
    from this [of 1] show ?thesis
      unfolding m by (simp add: push_bit_eq_mult)
  qed
  then show ?thesis
    using assms by (simp add: spu_sweep_clock_def spu_sweep_read_current_def)
qed

lemma sweep_fixed_volume_witness:
  "spu_sweep_read_current (spu_sweep_clock \<lparr>sw_control = 0x7000, sw_current = 5, sw_divider = 0\<rparr>)
     = 2 * signed_take_bit 14 0x7000"
  using sweep_fixed_volume [of "\<lparr>sw_control = 0x7000, sw_current = 5, sw_divider = 0\<rparr>"]
  by (simp add: has_def)

text \<open>An increasing sweep never leaves its phase and never falls: from a volume on the
  right side of zero, any number of clocks keeps the level between where it was and the
  endpoint, and every rate but 0x7F does reach the endpoint.\<close>

theorem sweep_increase_saturates:
  assumes "sweep_increasing sw"
  shows "(\<forall>n. sweep_level sw \<le> sweep_level ((spu_sweep_clock ^^ n) sw) \<and>
              sweep_level ((spu_sweep_clock ^^ n) sw) \<le> 32767) \<and>
         (sweep_rate (sw_control sw) = 0x7F \<or> (\<exists>n. sweep_level ((spu_sweep_clock ^^ n) sw) = 32767))"
  using sweep_level_ticks [OF assms] sweep_level_le increase_reaches [OF assms] by auto

lemma sweep_increase_saturates_witness:
  "\<exists>n. sweep_level ((spu_sweep_clock ^^ n) \<lparr>sw_control = 0xC02D, sw_current = 0x100, sw_divider = 0\<rparr>) = 32767"
proof -
  let ?sw = "\<lparr>sw_control = 0xC02D, sw_current = 0x100, sw_divider = 0\<rparr>"
  have "sweep_increasing ?sw" "sweep_rate (sw_control ?sw) \<noteq> 0x7F"
    by (simp_all add: sweep_increasing_def sweep_level_alt sweep_rate_def has_def)
  then show ?thesis
    using sweep_increase_saturates [of ?sw] by blast
qed

text \<open>Zero absorbs a decreasing sweep: once a decreasing sweep (other than the
  exponential negative-phase one) is at zero, or has just stepped across it, the next clock
  and every later one leave the volume at zero.\<close>

theorem sweep_decrease_absorbs:
  assumes "has (sw_control sw) 0x8000" "sw_decreasing (sw_control sw)"
    and "\<not> (sw_negative (sw_control sw) \<and> sw_exponential (sw_control sw))"
    and "sw_current sw = 0 \<or> sint (sw_current sw) < 0 \<longleftrightarrow> \<not> sw_negative (sw_control sw)"
  shows "sw_current ((spu_sweep_clock ^^ Suc n) sw) = 0"
proof -
  have z: "spu_sweep_clock x = x\<lparr>sw_current := 0\<rparr>"
    if "sw_control x = sw_control sw" "sw_current x = 0 \<or> sw_current x = sw_current sw" for x
    using that assms and_single_bit [of "sw_current sw" 15] bit_last_iff [of "sw_current sw"]
    by (auto simp: spu_sweep_clock_def decrease_has_reached_zero_def Let_def has_def)
  have "(spu_sweep_clock ^^ Suc n) sw = sw\<lparr>sw_current := 0\<rparr>"
    by (induction n) (simp_all add: z)
  then show ?thesis by simp
qed

lemma sweep_decrease_absorbs_witness:
  "sw_current ((spu_sweep_clock ^^ Suc 4) \<lparr>sw_control = 0xA000, sw_current = 0xFFF9, sw_divider = 0\<rparr>) = 0"
proof (rule sweep_decrease_absorbs)
  let ?sw = "\<lparr>sw_control = 0xA000, sw_current = 0xFFF9, sw_divider = 0\<rparr> :: spu_sweep"
  show "has (sw_control ?sw) 0x8000" "sw_decreasing (sw_control ?sw)"
    "\<not> (sw_negative (sw_control ?sw) \<and> sw_exponential (sw_control ?sw))"
    "sw_current ?sw = 0 \<or> sint (sw_current ?sw) < 0 \<longleftrightarrow> \<not> sw_negative (sw_control ?sw)"
    by (simp_all add: has_def)
qed

end
