(* ===== verification/Spu.thy ===== *)
theory Spu
  imports Spu_Sweep Log_Rings
begin

text \<open>
  The sound processing unit: \<open>psxrecomp/runtime/src/spu.c\<close>.

  The file-scope statics are the fields of \<open>spu_st\<close>; C arrays are functions of the index
  (the decoded block of a voice is a list of its 28 samples). \<open>s_frame_count\<close> and
  \<open>spu_cycle\<close> stand for the two clocks the file reads from other modules, and
  \<open>audio_log\<close> collects the \<open>audio_trace\<close> calls, newest first. The model is the default
  build: no \<open>PEPSIMAN_SFX_RETRIGGER_GUARD\<close>, and the opt-in float shadow renderer off.
  Signed 16- and 32-bit quantities are HOL integers, truncated where C stores them.
\<close>

section \<open>State\<close>

abbreviation (input) SPU_RAM_SIZE :: nat where "SPU_RAM_SIZE \<equiv> 524288"
abbreviation (input) SPU_VOICE_COUNT :: nat where "SPU_VOICE_COUNT \<equiv> 24"
abbreviation (input) SPU_BLOCK_SAMPLES :: nat where "SPU_BLOCK_SAMPLES \<equiv> 28"
abbreviation (input) SPU_CD_RING_FRAMES :: nat where "SPU_CD_RING_FRAMES \<equiv> 352800"

abbreviation (input) ADSR_ATTACK :: u8 where "ADSR_ATTACK \<equiv> 0"
abbreviation (input) ADSR_DECAY :: u8 where "ADSR_DECAY \<equiv> 1"
abbreviation (input) ADSR_SUSTAIN :: u8 where "ADSR_SUSTAIN \<equiv> 2"
abbreviation (input) ADSR_RELEASE :: u8 where "ADSR_RELEASE \<equiv> 3"

abbreviation (input) SPU_EV_KEYON :: u8 where "SPU_EV_KEYON \<equiv> 1"
abbreviation (input) SPU_EV_KEYOFF :: u8 where "SPU_EV_KEYOFF \<equiv> 2"
abbreviation (input) SPU_EV_END_STOP :: u8 where "SPU_EV_END_STOP \<equiv> 3"
abbreviation (input) SPU_EV_END_LOOP :: u8 where "SPU_EV_END_LOOP \<equiv> 4"

record spu_voice =
  v_active :: bool
  v_start_addr :: u32
  v_cur_addr :: u32
  v_repeat_addr :: u32
  v_samples :: "int list"
  v_sample_idx :: nat
  v_phase :: u32
  v_hist1 :: int
  v_hist2 :: int
  v_flags :: u8
  v_env_level :: u16
  v_adsr_divider :: u32
  v_adsr_phase :: u8

record spu_event =
  se_seq :: u64
  se_frame :: u32
  se_kind :: u8
  se_voice :: u8
  se_pitch :: u16
  se_addr :: u32
  se_adsr_lo :: u16
  se_adsr_hi :: u16
  se_vol_l :: u16
  se_vol_r :: u16

datatype audio_tap = AUDIO_TAP_VOICES | AUDIO_TAP_SPU_OUT | AUDIO_TAP_CD_IN

datatype audio_note =
  Audio_Pcm audio_tap "int list"
| Audio_Cd_Push u32 u32
| Audio_Reg_Write u32 u32
| Audio_Xa_Zero u32 u32

record spu_st =
  spu_ram :: "nat \<Rightarrow> u8"
  spu_regs :: "nat \<Rightarrow> u16"
  transfer_addr :: u32
  key_on_count :: u32
  render_frames :: u64
  nonzero_frames :: u64
  last_peak :: int
  peak :: int
  endx_latch :: u32
  kon_latch :: u32
  koff_latch :: u32
  s_events :: "nat \<Rightarrow> spu_event"
  s_event_idx :: u32
  s_event_seq :: u64
  cd_ring :: "nat \<Rightarrow> int"
  cd_read_pos :: u32
  cd_write_pos :: u32
  cd_frame_count :: u32
  cd_push_frames :: u64
  cd_overflow_frames :: u64
  cd_underflow_frames :: u64
  voices :: "nat \<Rightarrow> spu_voice"
  voice_sweep :: "nat \<Rightarrow> nat \<Rightarrow> spu_sweep"
  main_sweep :: "nat \<Rightarrow> spu_sweep"
  s_frame_count :: u64
  spu_cycle :: u64
  audio_log :: "audio_note list"

definition zero_voice :: spu_voice where
  "zero_voice = \<lparr>v_active = False, v_start_addr = 0, v_cur_addr = 0, v_repeat_addr = 0,
     v_samples = replicate 28 0, v_sample_idx = 0, v_phase = 0, v_hist1 = 0, v_hist2 = 0, v_flags = 0,
     v_env_level = 0, v_adsr_divider = 0, v_adsr_phase = 0\<rparr>"

definition zero_spu_event :: spu_event where
  "zero_spu_event = \<lparr>se_seq = 0, se_frame = 0, se_kind = 0, se_voice = 0, se_pitch = 0, se_addr = 0,
     se_adsr_lo = 0, se_adsr_hi = 0, se_vol_l = 0, se_vol_r = 0\<rparr>"

definition voice_reg :: "(nat \<Rightarrow> u16) \<Rightarrow> nat \<Rightarrow> nat \<Rightarrow> u16" where
  "voice_reg regs voice reg = regs (voice * 8 + reg)"

definition set_voice :: "nat \<Rightarrow> spu_voice \<Rightarrow> spu_st \<Rightarrow> spu_st" where
  "set_voice idx v s = s\<lparr>voices := (voices s)(idx := v)\<rparr>"

definition audio_trace :: "audio_note \<Rightarrow> spu_st \<Rightarrow> spu_st" where
  "audio_trace a s = s\<lparr>audio_log := a # audio_log s\<rparr>"

definition reg_index :: "u32 \<Rightarrow> nat" where
  "reg_index addr = unat (drop_bit 1 (addr - 0x1F801C00))"

section \<open>The event ring\<close>

definition spu_event_slot :: "u32 \<Rightarrow> nat" where
  "spu_event_slot idx = unat (idx AND mask 20)"

definition spu_event_row :: "u8 \<Rightarrow> nat \<Rightarrow> u32 \<Rightarrow> spu_st \<Rightarrow> spu_event" where
  "spu_event_row kind voice addr s =
     \<lparr>se_seq = s_event_seq s, se_frame = ucast (s_frame_count s), se_kind = kind, se_voice = of_nat voice,
      se_pitch = voice_reg (spu_regs s) voice 2, se_addr = addr,
      se_adsr_lo = voice_reg (spu_regs s) voice 4, se_adsr_hi = voice_reg (spu_regs s) voice 5,
      se_vol_l = voice_reg (spu_regs s) voice 0, se_vol_r = voice_reg (spu_regs s) voice 1\<rparr>"

definition spu_event_record :: "u8 \<Rightarrow> nat \<Rightarrow> u32 \<Rightarrow> spu_st \<Rightarrow> spu_st" where
  "spu_event_record kind voice addr s =
     s\<lparr>s_events := (s_events s)(spu_event_slot (s_event_idx s) := spu_event_row kind voice addr s),
       s_event_seq := s_event_seq s + 1, s_event_idx := s_event_idx s + 1\<rparr>"

definition spu_event_get :: "u32 \<Rightarrow> spu_st \<Rightarrow> spu_event list" where
  "spu_event_get max_count s =
     (let avail = (if s_event_seq s < 2 ^ 20 then s_event_seq s else 2 ^ 20);
          n = (if ucast max_count > avail then ucast avail else max_count);
          start = (s_event_idx s + 2 ^ 20 - n) AND mask 20
      in map (\<lambda>i. s_events s (spu_event_slot (start + of_nat i))) [0..<unat n])"

definition spu_event_reset :: "spu_st \<Rightarrow> spu_st" where
  "spu_event_reset s = s\<lparr>s_event_idx := 0, s_event_seq := 0, s_events := (\<lambda>_. zero_spu_event)\<rparr>"

section \<open>The ADSR envelope\<close>

text \<open>Result: the level increment and the divider increment.\<close>

definition calc_vc_delta :: "nat \<Rightarrow> nat \<Rightarrow> bool \<Rightarrow> bool \<Rightarrow> bool \<Rightarrow> int \<Rightarrow> int \<times> int" where
  "calc_vc_delta zs speed log_mode dec_mode inv_increment current =
     (let i0 = 7 - int (speed mod 4);
          i1 = (if inv_increment then NOT i0 else i0);
          d0 = (32768 :: int);
          i2 = (if speed < 0x2C then s32 (push_bit ((0x2F - speed) div 4) i1) else i1);
          d1 = (if speed \<ge> 0x30 then drop_bit ((speed - 0x2C) div 4) d0 else d0);
          (i3, d2) =
            (if log_mode then
               (if dec_mode then (drop_bit 15 (current * i2), d1)
                else if current AND 0x7FFF \<ge> 0x6000 then
                  (if speed < 0x28 then (drop_bit 2 i2, d1)
                   else if speed \<ge> 0x2C then (i2, drop_bit 2 d1)
                   else (drop_bit 1 i2, drop_bit 1 d1))
                else (i2, d1))
             else (i2, d1));
          d3 = (if d2 = 0 \<and> speed < zs then 1 else d2)
      in (i3, d3))"

definition adsr_raw :: "(nat \<Rightarrow> u16) \<Rightarrow> nat \<Rightarrow> u32" where
  "adsr_raw regs idx = ucast (voice_reg regs idx 4) OR push_bit 16 (ucast (voice_reg regs idx 5))"

definition raw_field :: "u32 \<Rightarrow> nat \<Rightarrow> u32 \<Rightarrow> nat" where
  "raw_field raw sh m = unat (drop_bit sh raw AND m)"

text \<open>The parameters of the current phase: level increment, divider increment, overflow reset.\<close>

definition adsr_params :: "u32 \<Rightarrow> spu_voice \<Rightarrow> (int \<times> int \<times> u16) option" where
  "adsr_params raw v =
     (let cur = sint (v_env_level v);
          sustain_dec = (raw_field raw 30 1 = 1)
      in if v_adsr_phase v = ADSR_ATTACK then
           (let (i, d) = calc_vc_delta 0x7F (raw_field raw 8 0x7F) (raw_field raw 15 1 = 1) False False cur
            in Some (i, d, 0x7FFF))
         else if v_adsr_phase v = ADSR_DECAY then
           (let (i, d) = calc_vc_delta 0x7C (raw_field raw 4 0x0F * 4) True True True cur
            in Some (i, d, 0))
         else if v_adsr_phase v = ADSR_SUSTAIN then
           (let (i, d) = calc_vc_delta 0x7F (raw_field raw 22 0x7F) (raw_field raw 31 1 = 1)
                           sustain_dec sustain_dec cur
            in Some (i, d, if sustain_dec then 0 else 0x7FFF))
         else if v_adsr_phase v = ADSR_RELEASE then
           (let (i, d) = calc_vc_delta 0x7C (raw_field raw 16 0x1F * 4) (raw_field raw 21 1 = 1) True True cur
            in Some (i, d, 0))
         else None)"

text \<open>The level update on a divider overflow.\<close>

definition adsr_level :: "u32 \<Rightarrow> int \<Rightarrow> u16 \<Rightarrow> spu_voice \<Rightarrow> spu_voice" where
  "adsr_level raw increment uoflow_reset v =
     (let prev = v_env_level v;
          lvl = word_of_int (uint prev + increment);
          lvl1 = (if v_adsr_phase v = ADSR_ATTACK
                  then (if has ((prev XOR lvl) AND lvl) 0x8000 then uoflow_reset else lvl)
                  else (if has lvl 0x8000 then uoflow_reset else lvl));
          sustain_lvl = push_bit 11 (of_nat (raw_field raw 0 0x0F) + 1)
      in v\<lparr>v_adsr_divider := 0, v_env_level := lvl1,
           v_adsr_phase := (if v_adsr_phase v = ADSR_DECAY \<and> lvl1 < sustain_lvl
                            then ADSR_SUSTAIN else v_adsr_phase v)\<rparr>)"

definition adsr_run :: "(nat \<Rightarrow> u16) \<Rightarrow> nat \<Rightarrow> spu_voice \<Rightarrow> spu_voice" where
  "adsr_run regs idx v =
     (let raw = adsr_raw regs idx;
          v0 = (if v_adsr_phase v = ADSR_ATTACK \<and> v_env_level v = 0x7FFF
                then v\<lparr>v_adsr_phase := ADSR_DECAY\<rparr> else v)
      in case adsr_params raw v0 of
           None \<Rightarrow> v0
         | Some (increment, divinco, uoflow_reset) \<Rightarrow>
             let v1 = v0\<lparr>v_adsr_divider := v_adsr_divider v0 + word_of_int divinco\<rparr>
             in if has (v_adsr_divider v1) 0x8000 then adsr_level raw increment uoflow_reset v1 else v1)"

section \<open>The CD input FIFO\<close>

definition spu_cd_audio_reset :: "spu_st \<Rightarrow> spu_st" where
  "spu_cd_audio_reset s =
     s\<lparr>cd_ring := (\<lambda>_. 0), cd_read_pos := 0, cd_write_pos := 0, cd_frame_count := 0,
       cd_push_frames := 0, cd_overflow_frames := 0, cd_underflow_frames := 0\<rparr>"

text \<open>A stereo frame is a pair; \<open>cd_store\<close> is one turn of the copy loop.\<close>

definition cd_store :: "int \<times> int \<Rightarrow> spu_st \<Rightarrow> spu_st" where
  "cd_store fr s =
     (let w = unat (cd_write_pos s) in
      s\<lparr>cd_ring := (cd_ring s)(w * 2 + 0 := fst fr, w * 2 + 1 := snd fr),
        cd_write_pos := (cd_write_pos s + 1) mod 352800\<rparr>)"

definition cd_make_room :: "u32 \<Rightarrow> spu_st \<Rightarrow> spu_st" where
  "cd_make_room in_frames s =
     (if cd_frame_count s + in_frames > 352800 then
        let drop = cd_frame_count s + in_frames - 352800
        in s\<lparr>cd_read_pos := (cd_read_pos s + drop) mod 352800,
             cd_frame_count := cd_frame_count s - drop,
             cd_overflow_frames := cd_overflow_frames s + ucast drop\<rparr>
      else s)"

definition spu_cd_audio_push :: "(int \<times> int) list \<Rightarrow> spu_st \<Rightarrow> spu_st" where
  "spu_cd_audio_push stereo s =
     (if stereo = [] then s
      else
        let frames = length stereo;
            skip = (if frames > SPU_CD_RING_FRAMES then frames - SPU_CD_RING_FRAMES else 0);
            stereo1 = List.drop skip stereo;
            in1 = (of_nat (if frames > SPU_CD_RING_FRAMES then SPU_CD_RING_FRAMES else frames) :: u32);
            s1 = s\<lparr>cd_overflow_frames := cd_overflow_frames s + of_nat skip\<rparr>;
            s3 = fold cd_store stereo1 (cd_make_room in1 s1);
            s4 = s3\<lparr>cd_frame_count := cd_frame_count s3 + in1, cd_push_frames := cd_push_frames s3 + ucast in1\<rparr>;
            s5 = audio_trace (Audio_Pcm AUDIO_TAP_CD_IN (concat (map (\<lambda>(l, r). [l, r]) stereo1))) s4
        in audio_trace (Audio_Cd_Push (ucast (spu_cycle s5)) (cd_frame_count s5)) s5)"

definition cd_audio_pop :: "spu_st \<Rightarrow> ((int \<times> int) \<times> spu_st) option" where
  "cd_audio_pop s =
     (if cd_frame_count s = 0 then None
      else let r = unat (cd_read_pos s) in
        Some ((cd_ring s (r * 2 + 0), cd_ring s (r * 2 + 1)),
              s\<lparr>cd_read_pos := (cd_read_pos s + 1) mod 352800, cd_frame_count := cd_frame_count s - 1\<rparr>))"

section \<open>ADPCM decoding\<close>

definition clamp16 :: "int \<Rightarrow> int" where
  "clamp16 v = (if v > 32767 then 32767 else if v < -32768 then -32768 else v)"

definition adpcm_f0 :: "nat \<Rightarrow> int" where "adpcm_f0 i = [0, 60, 115, 98, 122] ! i"
definition adpcm_f1 :: "nat \<Rightarrow> int" where "adpcm_f1 i = [0, 0, -52, -55, -60] ! i"

text \<open>One nibble: the sample, from the nibble and the two previous samples.\<close>

definition adpcm_sample :: "nat \<Rightarrow> nat \<Rightarrow> int \<Rightarrow> int \<Rightarrow> nat \<Rightarrow> int" where
  "adpcm_sample filter_idx shift hist1 hist2 nib =
     (let sample4 = (if nib \<ge> 8 then int nib - 16 else int nib);
          s0 = drop_bit shift (sample4 * 4096);
          s1 = s0 + drop_bit 6 (hist1 * adpcm_f0 filter_idx + hist2 * adpcm_f1 filter_idx + 32)
      in clamp16 s1)"

fun adpcm_decode :: "nat \<Rightarrow> nat \<Rightarrow> int \<Rightarrow> int \<Rightarrow> nat list \<Rightarrow> int list \<times> int \<times> int" where
  "adpcm_decode filter_idx shift h1 h2 [] = ([], h1, h2)"
| "adpcm_decode filter_idx shift h1 h2 (nib # nibs) =
     (let smp = adpcm_sample filter_idx shift h1 h2 nib;
          (out, h1', h2') = adpcm_decode filter_idx shift smp h1 nibs
      in (smp # out, h1', h2'))"

definition block_addr :: "u32 \<Rightarrow> nat" where
  "block_addr cur_addr =
     (let addr = unat (cur_addr AND 0x7FFFF) in if addr + 16 > SPU_RAM_SIZE then 0 else addr)"

definition block_nibbles :: "(nat \<Rightarrow> u8) \<Rightarrow> nat \<Rightarrow> nat list" where
  "block_nibbles ram addr =
     concat (map (\<lambda>b. let packed = ram (addr + 2 + b) in [unat (packed AND 0x0F), unat (drop_bit 4 packed)]) [0..<14])"

definition decode_block :: "nat \<Rightarrow> spu_st \<Rightarrow> spu_st" where
  "decode_block idx s =
     (let v = voices s idx;
          addr = block_addr (v_cur_addr v);
          header = spu_ram s (addr + 0);
          flags = spu_ram s (addr + 1);
          shift0 = unat (header AND 0x0F);
          filter0 = unat (drop_bit 4 header AND 0x0F);
          filter_idx = (if filter0 > 4 then 0 else filter0);
          shift = (if shift0 > 12 then 12 else shift0);
          (out, h1, h2) = adpcm_decode filter_idx shift (v_hist1 v) (v_hist2 v) (block_nibbles (spu_ram s) addr);
          v1 = v\<lparr>v_samples := out, v_hist1 := h1, v_hist2 := h2\<rparr>;
          v2 = (if has flags 4 then v1\<lparr>v_repeat_addr := of_nat addr\<rparr> else v1);
          s1 = (if has flags 4 then s\<lparr>spu_regs := (spu_regs s)(idx * 8 + 7 := of_nat (addr div 8))\<rparr> else s);
          v3 = v2\<lparr>v_flags := flags, v_sample_idx := 0, v_cur_addr := (of_nat addr + 16) AND 0x7FFFF\<rparr>;
          s2 = set_voice idx v3 s1
      in if has flags 1 then s2\<lparr>endx_latch := endx_latch s2 OR push_bit idx 1\<rparr> else s2)"

section \<open>Voices\<close>

text \<open>The end-of-block jump of \<open>voice_next_sample\<close>.\<close>

definition voice_block_end :: "nat \<Rightarrow> spu_st \<Rightarrow> spu_st" where
  "voice_block_end idx s =
     (let v = voices s idx in
      if has (v_flags v) 1 then
        let v1 = v\<lparr>v_cur_addr := v_repeat_addr v AND 0x7FFFF\<rparr>;
            s1 = set_voice idx v1 s
        in if has (v_flags v) 2 then spu_event_record SPU_EV_END_LOOP idx (v_repeat_addr v) s1
           else
             let s2 = spu_event_record SPU_EV_END_STOP idx (v_cur_addr v1) s1
             in set_voice idx (v1\<lparr>v_cur_addr := v_repeat_addr v1 AND 0x7FFFF, v_adsr_phase := ADSR_RELEASE,
                                  v_adsr_divider := 0, v_env_level := 0\<rparr>) s2
      else s)"

function phase_loop :: "u32 \<Rightarrow> nat \<Rightarrow> u32 \<times> nat" where
  "phase_loop phase idx =
     (if phase \<ge> 0x1000 then
        let phase1 = phase - 0x1000; idx1 = idx + 1
        in if idx1 \<ge> SPU_BLOCK_SAMPLES then (phase1, idx1) else phase_loop phase1 idx1
      else (phase, idx))"
  by pat_completeness auto
termination
  by (relation "measure (\<lambda>(phase, idx). unat phase)") (auto simp: unat_sub_u32 word_le_nat_alt)

definition voice_pitch :: "(nat \<Rightarrow> u16) \<Rightarrow> nat \<Rightarrow> u32" where
  "voice_pitch regs idx =
     (let pitch = (ucast (voice_reg regs idx 2) :: u32) AND 0x3FFF in if pitch = 0 then 0x1000 else pitch)"

definition voice_next_sample :: "nat \<Rightarrow> spu_st \<Rightarrow> int \<times> spu_st" where
  "voice_next_sample idx s =
     (if \<not> v_active (voices s idx) then (0, s)
      else
        let s1 = (if v_sample_idx (voices s idx) \<ge> SPU_BLOCK_SAMPLES
                  then decode_block idx (voice_block_end idx s) else s);
            v = voices s1 idx;
            raw_s = v_samples v ! v_sample_idx v;
            shaped = clamp16 (drop_bit 15 (raw_s * uint (v_env_level v)));
            v1 = adsr_run (spu_regs s1) idx v;
            v2 = (if v_adsr_phase v1 = ADSR_RELEASE \<and> v_env_level v1 = 0 then v1\<lparr>v_active := False\<rparr> else v1);
            (phase, si) = phase_loop (v_phase v2 + voice_pitch (spu_regs s1) idx) (v_sample_idx v2)
        in (shaped, set_voice idx (v2\<lparr>v_phase := phase, v_sample_idx := si\<rparr>) s1))"

definition key_on_voice :: "u32 \<Rightarrow> nat \<Rightarrow> spu_st \<Rightarrow> spu_st" where
  "key_on_voice kmask i s =
     (if \<not> has kmask (push_bit i 1) then s
      else
        let start_addr = push_bit 3 (ucast (voice_reg (spu_regs s) i 3)) AND 0x7FFFF;
            v = zero_voice\<lparr>v_active := True, v_start_addr := start_addr, v_cur_addr := start_addr,
                  v_repeat_addr := push_bit 3 (ucast (voice_reg (spu_regs s) i 7)) AND 0x7FFFF,
                  v_sample_idx := SPU_BLOCK_SAMPLES, v_env_level := 0, v_adsr_divider := 0,
                  v_adsr_phase := ADSR_ATTACK\<rparr>;
            s1 = (set_voice i v s)\<lparr>key_on_count := key_on_count s + 1,
                    endx_latch := clear_bits (endx_latch s) (push_bit i 1)\<rparr>
        in spu_event_record SPU_EV_KEYON i (v_cur_addr v) s1)"

definition key_on :: "u32 \<Rightarrow> spu_st \<Rightarrow> spu_st" where
  "key_on kmask s = fold (key_on_voice kmask) [0..<SPU_VOICE_COUNT] s"

definition key_off_voice :: "u32 \<Rightarrow> nat \<Rightarrow> spu_st \<Rightarrow> spu_st" where
  "key_off_voice kmask i s =
     (if \<not> has kmask (push_bit i 1) then s
      else if \<not> v_active (voices s i) then s
      else
        let s1 = spu_event_record SPU_EV_KEYOFF i (v_cur_addr (voices s i)) s
        in set_voice i ((voices s1 i)\<lparr>v_adsr_phase := ADSR_RELEASE, v_adsr_divider := 0\<rparr>) s1)"

definition key_off :: "u32 \<Rightarrow> spu_st \<Rightarrow> spu_st" where
  "key_off kmask s = fold (key_off_voice kmask) [0..<SPU_VOICE_COUNT] s"

section \<open>Initialisation and rendering\<close>

definition spu_init :: "spu_st \<Rightarrow> spu_st" where
  "spu_init s =
     spu_cd_audio_reset
       (s\<lparr>spu_ram := (\<lambda>_. 0), spu_regs := (\<lambda>_. 0), voices := (\<lambda>_. zero_voice),
          voice_sweep := (\<lambda>_ _. spu_sweep_reset), main_sweep := (\<lambda>_. spu_sweep_reset),
          s_events := (\<lambda>_. zero_spu_event), transfer_addr := 0, key_on_count := 0, render_frames := 0,
          nonzero_frames := 0, last_peak := 0, peak := 0, endx_latch := 0, kon_latch := 0, koff_latch := 0,
          s_event_idx := 0, s_event_seq := 0\<rparr>)"

text \<open>One voice of the mix loop.\<close>

definition mix_voice :: "nat \<Rightarrow> int \<times> int \<times> spu_st \<Rightarrow> int \<times> int \<times> spu_st" where
  "mix_voice v acc =
     (let (mix_l, mix_r, s) = acc;
          (sample, s1) = voice_next_sample v s;
          vol_l = spu_sweep_read_current (voice_sweep s1 v 0);
          vol_r = spu_sweep_read_current (voice_sweep s1 v 1)
      in if sample \<noteq> 0
         then (mix_l + drop_bit 15 (sample * vol_l), mix_r + drop_bit 15 (sample * vol_r), s1)
         else (mix_l, mix_r, s1))"

text \<open>The CD input, popped only when bit 0 of the control register is set.\<close>

definition mix_cd :: "u16 \<Rightarrow> int \<Rightarrow> int \<Rightarrow> int \<times> int \<times> spu_st \<Rightarrow> int \<times> int \<times> spu_st" where
  "mix_cd ctrl cd_vol_l cd_vol_r acc =
     (let (mix_l, mix_r, s) = acc in
      if has ctrl 1 then
        case cd_audio_pop s of
          Some ((cd_l, cd_r), s1) \<Rightarrow>
            (mix_l + drop_bit 15 (cd_l * cd_vol_l), mix_r + drop_bit 15 (cd_r * cd_vol_r), s1)
        | None \<Rightarrow>
            (mix_l, mix_r,
             if cd_push_frames s \<noteq> 0 then s\<lparr>cd_underflow_frames := cd_underflow_frames s + 1\<rparr> else s)
      else (mix_l, mix_r, s))"

text \<open>Main volume: an \<open>int32_t\<close> product, shifted. The product wraps at 32 bits.\<close>

definition mix_main :: "int \<Rightarrow> int \<Rightarrow> int" where
  "mix_main mix main_vol = drop_bit 15 (s32 (mix * main_vol))"

definition clock_sweeps :: "spu_st \<Rightarrow> spu_st" where
  "clock_sweeps s =
     s\<lparr>voice_sweep := (\<lambda>v lr. if v < SPU_VOICE_COUNT \<and> lr < 2 then spu_sweep_clock (voice_sweep s v lr)
                              else voice_sweep s v lr),
       main_sweep := (\<lambda>lr. if lr < 2 then spu_sweep_clock (main_sweep s lr) else main_sweep s lr)\<rparr>"

text \<open>One output frame; \<open>block_peak\<close> is the running peak of the block.\<close>

definition render_frame :: "u16 \<Rightarrow> int \<Rightarrow> int \<Rightarrow> int \<times> spu_st \<Rightarrow> (int \<times> int) \<times> int \<times> spu_st" where
  "render_frame ctrl cd_vol_l cd_vol_r st =
     (let (block_peak, s) = st;
          main_l = spu_sweep_read_current (main_sweep s 0);
          main_r = spu_sweep_read_current (main_sweep s 1);
          (mix_l, mix_r, s1) =
            (if has ctrl 0x8000 then
               let (vl, vr, sv) = fold mix_voice [0..<SPU_VOICE_COUNT] (0, 0, s);
                   sv1 = audio_trace (Audio_Pcm AUDIO_TAP_VOICES [clamp16 vl, clamp16 vr]) sv;
                   (cl, cr, sc) = mix_cd ctrl cd_vol_l cd_vol_r (vl, vr, sv1)
               in (mix_main cl main_l, mix_main cr main_r, sc)
             else (0, 0, s));
          out_l = clamp16 mix_l; out_r = clamp16 mix_r;
          frame_peak = (if \<bar>out_r\<bar> > \<bar>out_l\<bar> then \<bar>out_r\<bar> else \<bar>out_l\<bar>);
          s2 = (if frame_peak \<noteq> 0 then s1\<lparr>nonzero_frames := nonzero_frames s1 + 1\<rparr> else s1)
      in ((out_l, out_r), if frame_peak > block_peak then frame_peak else block_peak, clock_sweeps s2))"

fun render_frames_loop :: "u16 \<Rightarrow> int \<Rightarrow> int \<Rightarrow> nat \<Rightarrow> int \<times> spu_st \<Rightarrow> (int \<times> int) list \<times> int \<times> spu_st" where
  "render_frames_loop ctrl cl cr 0 st = ([], st)"
| "render_frames_loop ctrl cl cr (Suc n) st =
     (let (fr, st1) = render_frame ctrl cl cr st;
          (frs, st2) = render_frames_loop ctrl cl cr n st1
      in (fr # frs, st2))"

definition cd_input_volume :: "u16 \<Rightarrow> int" where
  "cd_input_volume raw = sint raw"

definition spu_render :: "nat \<Rightarrow> spu_st \<Rightarrow> (int \<times> int) list \<times> spu_st" where
  "spu_render frames s =
     (if frames = 0 then ([], s)
      else
        let ctrl = spu_regs s (reg_index 0x1F801DAA);
            cd_vol_l = cd_input_volume (spu_regs s (reg_index 0x1F801DB0));
            cd_vol_r = cd_input_volume (spu_regs s (reg_index 0x1F801DB2));
            (out, block_peak, s1) = render_frames_loop ctrl cd_vol_l cd_vol_r frames (0, s);
            s2 = s1\<lparr>render_frames := render_frames s1 + of_nat frames, last_peak := block_peak,
                     peak := (if block_peak > peak s1 then block_peak else peak s1)\<rparr>
        in (out, audio_trace (Audio_Pcm AUDIO_TAP_SPU_OUT (concat (map (\<lambda>(l, r). [l, r]) out))) s2))"

section \<open>Registers and DMA\<close>

definition spu_read :: "u32 \<Rightarrow> spu_st \<Rightarrow> u32" where
  "spu_read addr s =
     (if addr \<ge> 0x1F801E00 \<and> addr \<le> 0x1F801E5F then
        let off = addr - 0x1F801E00;
            voice = unat (drop_bit 2 off); lr = unat (drop_bit 1 off AND 1)
        in ucast (sw_current (voice_sweep s voice lr))
      else if addr \<ge> 0x1F801C00 \<and> addr \<le> 0x1F801DFF then
        let idx = reg_index addr in
        if addr = 0x1F801DAE then 0x0400
        else if addr = 0x1F801D9C then endx_latch s AND 0xFFFF
        else if addr = 0x1F801D9E then drop_bit 16 (endx_latch s) AND 0xFF
        else if addr = 0x1F801DB8 then ucast (sw_current (main_sweep s 0))
        else if addr = 0x1F801DBA then ucast (sw_current (main_sweep s 1))
        else if addr < 0x1F801D80 \<and> idx mod 8 = 6 then ucast (v_env_level (voices s (idx div 8)))
        else ucast (spu_regs s idx)
      else 0)"

definition set_voice_sweep :: "nat \<Rightarrow> nat \<Rightarrow> spu_sweep \<Rightarrow> spu_st \<Rightarrow> spu_st" where
  "set_voice_sweep v lr sw s = s\<lparr>voice_sweep := (voice_sweep s)(v := (voice_sweep s v)(lr := sw))\<rparr>"

definition set_main_sweep :: "nat \<Rightarrow> spu_sweep \<Rightarrow> spu_st \<Rightarrow> spu_st" where
  "set_main_sweep lr sw s = s\<lparr>main_sweep := (main_sweep s)(lr := sw)\<rparr>"

text \<open>Manual transfer through the data FIFO register.\<close>

definition spu_fifo_write :: "u32 \<Rightarrow> spu_st \<Rightarrow> spu_st" where
  "spu_fifo_write value s =
     (let a = unat (transfer_addr s);
          s1 = (if transfer_addr s + 1 < 0x80000
                then s\<lparr>spu_ram := (spu_ram s)(a := ucast (value AND 0xFF), a + 1 := ucast (drop_bit 8 value AND 0xFF))\<rparr>
                else s)
      in s1\<lparr>transfer_addr := (transfer_addr s1 + 2) mod 0x80000\<rparr>)"

text \<open>The volume and loop registers that shadow live state.\<close>

definition write_voice_volume :: "nat \<Rightarrow> u16 \<Rightarrow> spu_st \<Rightarrow> spu_st" where
  "write_voice_volume idx v16 s =
     (if idx < SPU_VOICE_COUNT * 8 \<and> idx mod 8 < 2
      then set_voice_sweep (idx div 8) (idx mod 2)
             (spu_sweep_write_control v16 (voice_sweep s (idx div 8) (idx mod 2))) s
      else s)"

definition write_main_volume :: "bool \<Rightarrow> nat \<Rightarrow> (spu_sweep \<Rightarrow> spu_sweep) \<Rightarrow> spu_st \<Rightarrow> spu_st" where
  "write_main_volume here lr f s = (if here then set_main_sweep lr (f (main_sweep s lr)) s else s)"

definition write_voice_repeat :: "nat \<Rightarrow> u16 \<Rightarrow> spu_st \<Rightarrow> spu_st" where
  "write_voice_repeat idx v16 s =
     (if idx < SPU_VOICE_COUNT * 8 \<and> idx mod 8 = 7
      then set_voice (idx div 8) ((voices s (idx div 8))\<lparr>v_repeat_addr := push_bit 3 (ucast v16) AND 0x7FFFF\<rparr>) s
      else s)"

definition spu_write_live :: "u32 \<Rightarrow> u16 \<Rightarrow> nat \<Rightarrow> spu_st \<Rightarrow> spu_st" where
  "spu_write_live addr v16 idx s =
     write_voice_repeat idx v16
       (write_main_volume (addr = 0x1F801DBA) 1 (spu_sweep_write_current v16)
         (write_main_volume (addr = 0x1F801DB8) 0 (spu_sweep_write_current v16)
           (write_main_volume (addr = 0x1F801D82) 1 (spu_sweep_write_control v16)
             (write_main_volume (addr = 0x1F801D80) 0 (spu_sweep_write_control v16)
               (write_voice_volume idx v16 s)))))"

definition spu_write_keys :: "u32 \<Rightarrow> u32 \<Rightarrow> spu_st \<Rightarrow> spu_st" where
  "spu_write_keys addr value s =
     (let v16 = ucast (ucast value :: u16) :: u32 in
      if addr = 0x1F801D88 then key_on v16 (s\<lparr>kon_latch := (kon_latch s AND 0xFFFF0000) OR v16\<rparr>)
      else if addr = 0x1F801D8A then
        key_on (push_bit 16 v16) (s\<lparr>kon_latch := (kon_latch s AND 0x0000FFFF) OR push_bit 16 v16\<rparr>)
      else if addr = 0x1F801D8C then key_off v16 (s\<lparr>koff_latch := (koff_latch s AND 0xFFFF0000) OR v16\<rparr>)
      else if addr = 0x1F801D8E then
        key_off (push_bit 16 v16) (s\<lparr>koff_latch := (koff_latch s AND 0x0000FFFF) OR push_bit 16 v16\<rparr>)
      else s)"

definition spu_write_transfer :: "u32 \<Rightarrow> u32 \<Rightarrow> spu_st \<Rightarrow> spu_st" where
  "spu_write_transfer addr value s =
     (if addr = 0x1F801DA6 then
        let a = push_bit 3 (ucast (ucast value :: u16)) in s\<lparr>transfer_addr := (if a \<ge> 0x80000 then 0 else a)\<rparr>
      else if addr = 0x1F801DA8 then spu_fifo_write value s
      else s)"

definition spu_write :: "u32 \<Rightarrow> u32 \<Rightarrow> spu_st \<Rightarrow> spu_st" where
  "spu_write addr value s =
     (if addr \<ge> 0x1F801E00 \<and> addr \<le> 0x1F801E5F then
        let off = addr - 0x1F801E00;
            voice = unat (drop_bit 2 off); lr = unat (drop_bit 1 off AND 1)
        in set_voice_sweep voice lr (spu_sweep_write_current (ucast value) (voice_sweep s voice lr)) s
      else if addr \<ge> 0x1F801C00 \<and> addr \<le> 0x1F801DFF then
        let idx = reg_index addr;
            s1 = audio_trace (Audio_Reg_Write addr (value AND 0xFFFF)) s;
            s2 = s1\<lparr>spu_regs := (spu_regs s1)(idx := ucast value)\<rparr>
        in spu_write_transfer addr value (spu_write_keys addr value (spu_write_live addr (ucast value) idx s2))
      else s)"

definition spu_dma_write :: "u32 \<Rightarrow> spu_st \<Rightarrow> spu_st" where
  "spu_dma_write word s =
     (let a = unat (transfer_addr s);
          s1 = (if transfer_addr s + 3 < 0x80000
                then s\<lparr>spu_ram := (spu_ram s)
                        (a := ucast (word AND 0xFF), a + 1 := ucast (drop_bit 8 word AND 0xFF),
                         a + 2 := ucast (drop_bit 16 word AND 0xFF), a + 3 := ucast (drop_bit 24 word AND 0xFF))\<rparr>
                else s)
      in s1\<lparr>transfer_addr := (transfer_addr s1 + 4) mod 0x80000\<rparr>)"

definition spu_dma_ready :: bool where
  "spu_dma_ready = True"

text \<open>The bytes copied to \<open>out\<close>; their number is the C return value.\<close>

definition spu_ram_peek :: "u32 \<Rightarrow> u32 \<Rightarrow> spu_st \<Rightarrow> u8 list" where
  "spu_ram_peek addr len s =
     (if addr \<ge> 0x80000 then []
      else let len1 = (if len > 0x80000 - addr then 0x80000 - addr else len)
           in map (\<lambda>i. spu_ram s (unat addr + i)) [0..<unat len1])"

section \<open>The CD input is a bounded queue\<close>

definition cd_frame :: "spu_st \<Rightarrow> nat \<Rightarrow> int \<times> int" where
  "cd_frame s p = (cd_ring s (p * 2 + 0), cd_ring s (p * 2 + 1))"

definition cd_ok :: "spu_st \<Rightarrow> bool" where
  "cd_ok s \<longleftrightarrow> unat (cd_read_pos s) < SPU_CD_RING_FRAMES \<and> unat (cd_frame_count s) \<le> SPU_CD_RING_FRAMES \<and>
     unat (cd_write_pos s) = (unat (cd_read_pos s) + unat (cd_frame_count s)) mod SPU_CD_RING_FRAMES"

definition cd_queue :: "spu_st \<Rightarrow> (int \<times> int) list" where
  "cd_queue s = map (\<lambda>i. cd_frame s ((unat (cd_read_pos s) + i) mod SPU_CD_RING_FRAMES))
                  [0..<unat (cd_frame_count s)]"

lemma unat_ring_inc: "unat w < 352800 \<Longrightarrow> unat ((w + 1) mod 352800 :: u32) = (unat w + 1) mod 352800"
  by (simp add: unat_mod unat_word_ariths(1) [of w 1])

interpretation cdw: log_ring SPU_CD_RING_FRAMES "\<lambda>s. unat (cd_write_pos s) < SPU_CD_RING_FRAMES"
  cd_frame "\<lambda>s. unat (cd_write_pos s)" cd_store "\<lambda>fr s. fr"
proof (unfold_locales, goal_cases)
  case (5 s x i)
  then show ?case
    by (cases x) (auto simp: cd_frame_def cd_store_def Let_def)
qed (simp_all add: cd_store_def Let_def unat_ring_inc)

lemma cdw_entries [simp]: "cdw.entries xs s = xs"
  by (induction xs arbitrary: s) simp_all

lemma cd_store_fields [simp]:
  "cd_read_pos (cd_store fr s) = cd_read_pos s" "cd_frame_count (cd_store fr s) = cd_frame_count s"
  "cd_push_frames (cd_store fr s) = cd_push_frames s"
  by (simp_all add: cd_store_def Let_def)

lemma cd_stores_fields [simp]:
  "cd_read_pos (fold cd_store xs s) = cd_read_pos s" "cd_frame_count (fold cd_store xs s) = cd_frame_count s"
  "cd_push_frames (fold cd_store xs s) = cd_push_frames s"
  by (induction xs arbitrary: s) simp_all

text \<open>Writing \<open>n\<close> frames behind a queue that leaves room for them appends them.\<close>

lemma cd_append:
  assumes ok: "cd_ok s" and room: "unat (cd_frame_count s) + length xs \<le> SPU_CD_RING_FRAMES"
  defines "s' \<equiv> (fold cd_store xs s)\<lparr>cd_frame_count := cd_frame_count s + of_nat (length xs)\<rparr>"
  shows "cd_ok s' \<and> cd_queue s' = cd_queue s @ xs"
proof -
  let ?r = "unat (cd_read_pos s)" and ?c = "unat (cd_frame_count s)" and ?N = "SPU_CD_RING_FRAMES"
  have w: "unat (cd_write_pos s) = (?r + ?c) mod ?N" "unat (cd_write_pos s) < ?N"
    using ok by (simp_all add: cd_ok_def)
  have c': "unat (cd_frame_count s + of_nat (length xs)) = ?c + length xs"
    using room by (simp add: unat_word_ariths unat_of_nat)
  have frame: "cd_frame s' p = cd_frame (fold cd_store xs s) p" for p
    by (simp add: s'_def cd_frame_def)
  have "cd_frame s' ((?r + i) mod ?N) = (cd_queue s @ xs) ! i" if "i < ?c + length xs" for i
  proof (cases "i < ?c")
    case True
    have "cd_frame (fold cd_store xs s) ((?r + i) mod ?N) = cd_frame s ((?r + i) mod ?N)"
    proof (rule cdw.cells_other)
      fix j assume "j < length xs"
      then have "(?r + i) mod ?N \<noteq> (?r + ?c + j) mod ?N"
        using True room by (intro cdw.slot_distinct) auto
      then show "(?r + i) mod ?N \<noteq> (unat (cd_write_pos s) + j) mod ?N"
        unfolding w(1) by (simp add: mod_add_left_eq)
    qed (use w in simp)
    then show ?thesis
      using True by (simp add: frame cd_queue_def nth_append)
  next
    case False
    then obtain k where k: "i = ?c + k" by (metis le_Suc_ex not_less)
    have "cd_frame (fold cd_store xs s) ((unat (cd_write_pos s) + k) mod ?N) = xs ! k"
      using cdw.cells_notes [of s k xs] w that room k by simp
    then show ?thesis
      unfolding w(1) k by (simp add: frame cd_queue_def nth_append mod_add_left_eq add.assoc)
  qed
  then have "cd_queue s' = cd_queue s @ xs"
    by (intro nth_equalityI) (simp_all add: cd_queue_def s'_def c')
  moreover have "cd_ok s'"
    using ok room cdw.wpos_notes [of s xs] w by (simp add: cd_ok_def s'_def c' mod_add_left_eq add.assoc)
  ultimately show ?thesis by blast
qed

text \<open>Dropping the oldest \<open>d\<close> frames.\<close>

lemma cd_drop:
  assumes ok: "cd_ok s" and d: "unat d \<le> unat (cd_frame_count s)"
  defines "s' \<equiv> s\<lparr>cd_read_pos := (cd_read_pos s + d) mod 352800, cd_frame_count := cd_frame_count s - d\<rparr>"
  shows "cd_ok s' \<and> cd_queue s' = drop (unat d) (cd_queue s)"
proof -
  let ?r = "unat (cd_read_pos s)" and ?c = "unat (cd_frame_count s)"
  have r': "unat ((cd_read_pos s + d) mod 352800) = (?r + unat d) mod 352800"
    using ok d by (simp add: cd_ok_def unat_mod unat_word_ariths(1) [of "cd_read_pos s" d])
  have c': "unat (cd_frame_count s - d) = ?c - unat d"
    using d by (simp add: unat_sub_u32 word_le_nat_alt)
  have "cd_queue s' = drop (unat d) (cd_queue s)"
  proof (rule nth_equalityI)
    fix i assume "i < length (cd_queue s')"
    then have "unat d + i < ?c"
      by (simp add: cd_queue_def s'_def c')
    moreover from this have "i < ?c - unat d" by simp
    ultimately show "cd_queue s' ! i = drop (unat d) (cd_queue s) ! i"
      by (simp add: cd_queue_def s'_def c' r' cd_frame_def mod_add_left_eq add.assoc)
  qed (simp add: cd_queue_def s'_def c')
  moreover have "cd_ok s'"
  proof -
    obtain k where "?c = unat d + k" using d by (metis le_Suc_ex)
    then show ?thesis
      using ok by (simp add: cd_ok_def s'_def c' r' mod_add_left_eq add.assoc)
  qed
  ultimately show ?thesis by blast
qed

lemma cd_queue_length: "length (cd_queue s) = unat (cd_frame_count s)"
  by (simp add: cd_queue_def)

lemma cd_queue_log [simp]:
  "cd_ok (audio_trace a s) = cd_ok s" "cd_queue (audio_trace a s) = cd_queue s"
  "cd_ok (s\<lparr>cd_push_frames := p\<rparr>) = cd_ok s" "cd_queue (s\<lparr>cd_push_frames := p\<rparr>) = cd_queue s"
  "cd_ok (s\<lparr>cd_overflow_frames := p\<rparr>) = cd_ok s" "cd_queue (s\<lparr>cd_overflow_frames := p\<rparr>) = cd_queue s"
  by (simp_all add: audio_trace_def cd_ok_def cd_queue_def cd_frame_def)

lemma cd_make_room:
  assumes ok: "cd_ok s" and n: "n \<le> SPU_CD_RING_FRAMES"
  shows "cd_ok (cd_make_room (of_nat n) s) \<and>
     cd_queue (cd_make_room (of_nat n) s) = take_last (SPU_CD_RING_FRAMES - n) (cd_queue s)"
proof -
  let ?c = "unat (cd_frame_count s)" and ?in = "of_nat n :: u32"
  have in1: "unat ?in = n" and c: "?c \<le> 352800"
    using n ok by (simp_all add: unat_of_nat cd_ok_def)
  have sum: "unat (cd_frame_count s + ?in) = ?c + n"
    using in1 c n by (simp add: unat_word_ariths)
  show ?thesis
  proof (cases "?c + n > 352800")
    case True
    let ?d = "cd_frame_count s + ?in - 352800"
    have d: "unat ?d = ?c + n - 352800"
      using True sum by (simp add: unat_sub word_le_nat_alt)
    have "cd_make_room ?in s = (s\<lparr>cd_read_pos := (cd_read_pos s + ?d) mod 352800,
        cd_frame_count := cd_frame_count s - ?d\<rparr>)\<lparr>cd_overflow_frames := cd_overflow_frames s + ucast ?d\<rparr>"
      using True sum by (simp add: cd_make_room_def Let_def word_less_nat_alt)
    then show ?thesis
      using cd_drop [OF ok, of ?d] d c n True by (simp add: take_last_def cd_queue_length)
  next
    case False
    then show ?thesis
      using sum ok by (simp add: cd_make_room_def word_less_nat_alt take_last_def cd_queue_length)
  qed
qed

lemma cd_push_queue:
  assumes "cd_ok s"
  shows "cd_ok (spu_cd_audio_push xs s) \<and>
     cd_queue (spu_cd_audio_push xs s) = take_last SPU_CD_RING_FRAMES (cd_queue s @ xs)"
proof (cases "xs = []")
  case True
  then show ?thesis
    using assms by (simp add: spu_cd_audio_push_def take_last_def cd_queue_length cd_ok_def)
next
  case False
  let ?xs = "take_last SPU_CD_RING_FRAMES xs"
  let ?s = "s\<lparr>cd_overflow_frames := cd_overflow_frames s + of_nat (length xs - SPU_CD_RING_FRAMES)\<rparr>"
  define s2 where "s2 = cd_make_room (of_nat (length ?xs)) ?s"
  have xs: "List.drop (length xs - SPU_CD_RING_FRAMES) xs = ?xs"
    "(if length xs > SPU_CD_RING_FRAMES then SPU_CD_RING_FRAMES else length xs) = length ?xs"
    "(if length xs > SPU_CD_RING_FRAMES then length xs - SPU_CD_RING_FRAMES else 0) = length xs - SPU_CD_RING_FRAMES"
    by (simp_all add: take_last_def)
  have e: "\<exists>pf a b. spu_cd_audio_push xs s =
      audio_trace a (audio_trace b
        ((fold cd_store ?xs s2)\<lparr>cd_frame_count := cd_frame_count s2 + of_nat (length ?xs)\<rparr>\<lparr>cd_push_frames := pf\<rparr>))"
    using False unfolding spu_cd_audio_push_def Let_def xs s2_def by (simp, blast)
  have n: "length ?xs \<le> SPU_CD_RING_FRAMES"
    by (simp add: take_last_def)
  have s2: "cd_ok s2" "cd_queue s2 = take_last (SPU_CD_RING_FRAMES - length ?xs) (cd_queue s)"
    using cd_make_room [of ?s, OF _ n] assms by (simp_all add: s2_def)
  have room: "unat (cd_frame_count s2) + length ?xs \<le> SPU_CD_RING_FRAMES"
    using s2(2) n by (simp flip: cd_queue_length) (simp add: take_last_def)
  have "take_last (SPU_CD_RING_FRAMES - length ?xs) (cd_queue s) @ ?xs = take_last SPU_CD_RING_FRAMES (cd_queue s @ xs)"
  proof (cases "length xs \<le> 352800")
    case True
    then have "length (cd_queue s) - (352800 - length xs) = length (cd_queue s) + length xs - 352800" by simp
    with True show ?thesis by (simp add: take_last_def)
  qed (simp add: take_last_def)
  then show ?thesis
    using e cd_append [OF s2(1) room] unfolding s2(2) by (elim exE) simp
qed

lemma cd_pop_queue:
  assumes ok: "cd_ok s"
  shows "cd_queue s = [] \<Longrightarrow> cd_audio_pop s = None"
    and "cd_queue s = x # q \<Longrightarrow> \<exists>s'. cd_audio_pop s = Some (x, s') \<and> cd_ok s' \<and> cd_queue s' = q"
proof -
  show "cd_queue s = [] \<Longrightarrow> cd_audio_pop s = None"
    by (simp add: cd_audio_pop_def cd_queue_def unat_eq_zero)
  assume q: "cd_queue s = x # q"
  then have c: "0 < unat (cd_frame_count s)"
    using cd_queue_length [of s] by simp
  let ?s' = "s\<lparr>cd_read_pos := (cd_read_pos s + 1) mod 352800, cd_frame_count := cd_frame_count s - 1\<rparr>"
  have "cd_ok ?s' \<and> cd_queue ?s' = drop (unat (1::u32)) (cd_queue s)"
    using c by (intro cd_drop [OF ok]) simp
  moreover have "x = cd_frame s (unat (cd_read_pos s))"
  proof -
    have "cd_queue s ! 0 = x" using q by simp
    then show ?thesis
      using c ok by (simp add: cd_queue_def cd_ok_def)
  qed
  ultimately show "\<exists>s'. cd_audio_pop s = Some (x, s') \<and> cd_ok s' \<and> cd_queue s' = q"
    using q c by (auto simp: cd_audio_pop_def Let_def cd_frame_def unat_gt_0)
qed

interpretation cdq: bounded_queue SPU_CD_RING_FRAMES cd_ok cd_queue spu_cd_audio_push cd_audio_pop
proof (unfold_locales, goal_cases)
  case (2 s x s')
  then show ?case
    using cd_pop_queue [of s] by (cases "cd_queue s") auto
qed (use cd_push_queue cd_pop_queue in \<open>auto, metis\<close>)

section \<open>The well-formedness invariant\<close>

definition is_s16 :: "int \<Rightarrow> bool" where
  "is_s16 x \<longleftrightarrow> - 32768 \<le> x \<and> x \<le> 32767"

definition voice_wf :: "spu_voice \<Rightarrow> bool" where
  "voice_wf v \<longleftrightarrow> v_env_level v \<le> 0x7FFF \<and> v_adsr_phase v \<le> ADSR_RELEASE \<and>
     length (v_samples v) = SPU_BLOCK_SAMPLES \<and> (\<forall>x \<in> set (v_samples v). is_s16 x) \<and>
     v_sample_idx v \<le> SPU_BLOCK_SAMPLES \<and> is_s16 (v_hist1 v) \<and> is_s16 (v_hist2 v) \<and>
     unat (v_cur_addr v) < SPU_RAM_SIZE \<and> unat (v_repeat_addr v) < SPU_RAM_SIZE"

definition spu_wf :: "spu_st \<Rightarrow> bool" where
  "spu_wf s \<longleftrightarrow> (\<forall>i. voice_wf (voices s i)) \<and> cd_ok s \<and> unat (transfer_addr s) < SPU_RAM_SIZE"

lemma is_s16_clamp [simp]: "is_s16 (clamp16 x)"
  by (simp add: is_s16_def clamp16_def)

lemma adpcm_decode_wf:
  assumes "adpcm_decode f sh h1 h2 nibs = (out, h1', h2')" "is_s16 h1" "is_s16 h2"
  shows "length out = length nibs" "\<forall>x \<in> set out. is_s16 x" "is_s16 h1' \<and> is_s16 h2'"
proof -
  have "length out = length nibs \<and> (\<forall>x \<in> set out. is_s16 x) \<and> is_s16 h1' \<and> is_s16 h2'"
    using assms
  proof (induction nibs arbitrary: h1 h2 out)
    case (Cons nib nibs)
    obtain out0 where d: "adpcm_decode f sh (adpcm_sample f sh h1 h2 nib) h1 nibs = (out0, h1', h2')"
      and out: "out = adpcm_sample f sh h1 h2 nib # out0"
      using Cons.prems(1) by (auto simp: Let_def split: prod.splits)
    have s: "is_s16 (adpcm_sample f sh h1 h2 nib)"
      by (simp add: adpcm_sample_def)
    show ?case
      using Cons.IH [OF d s Cons.prems(2)] s by (simp add: out)
  qed simp
  then show "length out = length nibs" "\<forall>x \<in> set out. is_s16 x" "is_s16 h1' \<and> is_s16 h2'"
    by auto
qed

lemma length_block_nibbles [simp]: "length (block_nibbles ram a) = 28"
  by (simp add: block_nibbles_def Let_def length_concat comp_def sum_list_triv)

lemma unat_and_ram: "unat ((w :: u32) AND 0x7FFFF) < SPU_RAM_SIZE"
  using word_and_le1 [of w "0x7FFFF"] by (simp add: word_le_nat_alt)

lemma block_addr_in_ram: "block_addr a + 16 \<le> SPU_RAM_SIZE"
  by (simp add: block_addr_def Let_def)

lemma spu_wf_set_voice: "spu_wf s \<Longrightarrow> voice_wf v \<Longrightarrow> spu_wf (set_voice i v s)"
  by (simp add: spu_wf_def set_voice_def cd_ok_def)

lemma spu_wf_upd [simp]:
  "spu_wf (s\<lparr>spu_regs := r\<rparr>) = spu_wf s" "spu_wf (s\<lparr>endx_latch := e\<rparr>) = spu_wf s"
  "spu_wf (s\<lparr>audio_log := al\<rparr>) = spu_wf s" "spu_wf (s\<lparr>kon_latch := e\<rparr>) = spu_wf s"
  "spu_wf (s\<lparr>koff_latch := e\<rparr>) = spu_wf s" "spu_wf (s\<lparr>key_on_count := e\<rparr>) = spu_wf s"
  "spu_wf (s\<lparr>spu_ram := m\<rparr>) = spu_wf s" "spu_wf (s\<lparr>nonzero_frames := n\<rparr>) = spu_wf s"
  "spu_wf (s\<lparr>render_frames := n\<rparr>) = spu_wf s" "spu_wf (s\<lparr>last_peak := p\<rparr>) = spu_wf s"
  "spu_wf (s\<lparr>peak := p\<rparr>) = spu_wf s" "spu_wf (s\<lparr>cd_underflow_frames := n\<rparr>) = spu_wf s"
  "spu_wf (s\<lparr>voice_sweep := vs\<rparr>) = spu_wf s" "spu_wf (s\<lparr>main_sweep := ms\<rparr>) = spu_wf s"
  "spu_wf (spu_event_record k i ad s) = spu_wf s" "spu_wf (audio_trace x s) = spu_wf s"
  "spu_wf (set_voice_sweep i l sw s) = spu_wf s" "spu_wf (set_main_sweep l sw s) = spu_wf s"
  "spu_wf (clock_sweeps s) = spu_wf s"
  by (simp_all add: spu_wf_def cd_ok_def spu_event_record_def audio_trace_def set_voice_sweep_def
      set_main_sweep_def clock_sweeps_def)

lemma voices_upd [simp]:
  "voices (set_voice i v s) = (voices s)(i := v)" "voices (spu_event_record k j a s) = voices s"
  "voices (audio_trace x s) = voices s" "spu_regs (spu_event_record k j a s) = spu_regs s"
  "spu_regs (set_voice i v s) = spu_regs s" "spu_ram (set_voice i v s) = spu_ram s"
  "spu_ram (spu_event_record k j a s) = spu_ram s"
  by (simp_all add: set_voice_def spu_event_record_def audio_trace_def)

lemma spu_wf_voice: "spu_wf s \<Longrightarrow> voice_wf (voices s i)"
  by (simp add: spu_wf_def)

lemma decode_block_wf:
  assumes "spu_wf s"
  shows "spu_wf (decode_block idx s)" "v_sample_idx (voices (decode_block idx s) idx) = 0"
    "v_env_level (voices (decode_block idx s) idx) = v_env_level (voices s idx)"
    "v_adsr_phase (voices (decode_block idx s) idx) = v_adsr_phase (voices s idx)"
proof -
  let ?v = "voices s idx" and ?a = "block_addr (v_cur_addr (voices s idx))"
  obtain out h1 h2 where d: "adpcm_decode
      (if unat (drop_bit 4 (spu_ram s (?a + 0)) AND 0x0F) > 4 then 0 else unat (drop_bit 4 (spu_ram s (?a + 0)) AND 0x0F))
      (if unat (spu_ram s (?a + 0) AND 0x0F) > 12 then 12 else unat (spu_ram s (?a + 0) AND 0x0F))
      (v_hist1 ?v) (v_hist2 ?v) (block_nibbles (spu_ram s) ?a) = (out, h1, h2)"
    by (metis prod_cases3)
  have v: "voice_wf ?v" using assms by (rule spu_wf_voice)
  have a: "unat (of_nat ?a :: u32) < SPU_RAM_SIZE"
    using block_addr_in_ram [of "v_cur_addr ?v"] by (simp add: unat_of_nat)
  have w: "voice_wf (?v\<lparr>v_samples := out, v_hist1 := h1, v_hist2 := h2, v_repeat_addr := r, v_flags := fl,
      v_sample_idx := 0, v_cur_addr := w AND 0x7FFFF\<rparr>)" if "unat r < SPU_RAM_SIZE" for r fl w
    using v adpcm_decode_wf [OF d] that unat_and_ram [of w] by (simp add: voice_wf_def)
  have r: "unat (v_repeat_addr ?v) < SPU_RAM_SIZE" using v by (simp add: voice_wf_def)
  show "spu_wf (decode_block idx s)"
    unfolding decode_block_def Let_def d
    using assms w [OF a] w [OF r] by (auto intro!: spu_wf_set_voice)
  show "v_sample_idx (voices (decode_block idx s) idx) = 0"
    "v_env_level (voices (decode_block idx s) idx) = v_env_level (voices s idx)"
    "v_adsr_phase (voices (decode_block idx s) idx) = v_adsr_phase (voices s idx)"
    unfolding decode_block_def Let_def d by simp_all
qed

lemma adsr_level_wf:
  assumes "v_env_level v \<le> 0x7FFF" "up \<le> 0x7FFF"
  shows "v_env_level (adsr_level raw inc up v) \<le> 0x7FFF"
proof -
  have top: "\<not> has w 0x8000 \<Longrightarrow> w \<le> 0x7FFF" for w :: u16
    by (simp add: has_top16 word_le_nat_alt)
  let ?l = "word_of_int (uint (v_env_level v) + inc) :: u16"
  have "\<not> has ((v_env_level v XOR ?l) AND ?l) 0x8000 \<Longrightarrow> \<not> has ?l 0x8000"
    using assms(1) has_single_bit [of "(v_env_level v XOR ?l) AND ?l" 15] has_single_bit [of ?l 15]
      has_single_bit [of "v_env_level v" 15] has_top16 [of "v_env_level v"]
    by (auto simp: bit_simps word_le_nat_alt)
  then show ?thesis
    using assms top by (auto simp: adsr_level_def Let_def)
qed

lemma adsr_params_reset: "adsr_params raw v = Some (i, d, up) \<Longrightarrow> up \<le> 0x7FFF"
  by (auto simp: adsr_params_def Let_def split: prod.splits if_splits)

lemma adsr_level_fields [simp]:
  "v_samples (adsr_level raw i u v) = v_samples v" "v_sample_idx (adsr_level raw i u v) = v_sample_idx v"
  "v_cur_addr (adsr_level raw i u v) = v_cur_addr v" "v_repeat_addr (adsr_level raw i u v) = v_repeat_addr v"
  "v_hist1 (adsr_level raw i u v) = v_hist1 v" "v_hist2 (adsr_level raw i u v) = v_hist2 v"
  "v_phase (adsr_level raw i u v) = v_phase v" "v_active (adsr_level raw i u v) = v_active v"
  by (simp_all add: adsr_level_def Let_def)

lemma adsr_level_phase:
  "v_adsr_phase (adsr_level raw i u v) = v_adsr_phase v \<or>
   v_adsr_phase v = ADSR_DECAY \<and> v_adsr_phase (adsr_level raw i u v) = ADSR_SUSTAIN"
  by (simp add: adsr_level_def Let_def)

lemma adsr_run_wf:
  assumes "voice_wf v"
  shows "voice_wf (adsr_run regs idx v)" "v_sample_idx (adsr_run regs idx v) = v_sample_idx v"
proof -
  let ?v0 = "if v_adsr_phase v = ADSR_ATTACK \<and> v_env_level v = 0x7FFF then v\<lparr>v_adsr_phase := ADSR_DECAY\<rparr> else v"
  have v0: "voice_wf ?v0" "v_sample_idx ?v0 = v_sample_idx v"
    using assms by (simp_all add: voice_wf_def)
  have l: "voice_wf (adsr_level raw i u w)" if "voice_wf w" "u \<le> 0x7FFF" for raw i u w
    using that adsr_level_wf [of w u raw i] adsr_level_phase [of raw i u w] by (auto simp: voice_wf_def)
  have d: "voice_wf (w\<lparr>v_adsr_divider := x\<rparr>)" if "voice_wf w" for w x
    using that by (simp add: voice_wf_def)
  have "voice_wf (adsr_run regs idx v) \<and> v_sample_idx (adsr_run regs idx v) = v_sample_idx v"
  proof (cases "adsr_params (adsr_raw regs idx) ?v0")
    case None
    then show ?thesis using v0 by (simp add: adsr_run_def Let_def)
  next
    case (Some p)
    obtain i dv u where p: "p = (i, dv, u)" by (cases p)
    have "u \<le> 0x7FFF" using Some p adsr_params_reset by blast
    then show ?thesis
      using v0 Some p l [OF d [OF v0(1)]] d [OF v0(1)] unfolding adsr_run_def Let_def by simp
  qed
  then show "voice_wf (adsr_run regs idx v)" "v_sample_idx (adsr_run regs idx v) = v_sample_idx v" by auto
qed

declare phase_loop.simps [simp del]

lemma phase_loop_idx: "i < SPU_BLOCK_SAMPLES \<Longrightarrow> snd (phase_loop ph i) \<le> SPU_BLOCK_SAMPLES"
proof (induction ph i rule: phase_loop.induct)
  case (1 ph i)
  then show ?case
    by (subst phase_loop.simps) (auto simp: Let_def)
qed

lemma voice_block_end_wf: "spu_wf s \<Longrightarrow> spu_wf (voice_block_end idx s)"
proof -
  assume s: "spu_wf s"
  have v: "voice_wf (voices s idx)" using s by (rule spu_wf_voice)
  have w: "voice_wf ((voices s idx)\<lparr>v_cur_addr := x AND 0x7FFFF\<rparr>)"
    "voice_wf ((voices s idx)\<lparr>v_cur_addr := x AND 0x7FFFF, v_adsr_phase := ADSR_RELEASE,
       v_adsr_divider := 0, v_env_level := 0\<rparr>)" for x
    using v unat_and_ram [of x] by (simp_all add: voice_wf_def)
  show ?thesis
    unfolding voice_block_end_def Let_def
    using s w by (auto intro!: spu_wf_set_voice)
qed

text \<open>The block a voice reads from, after a possible decode.\<close>

definition voice_fetch :: "nat \<Rightarrow> spu_st \<Rightarrow> spu_st" where
  "voice_fetch idx s = (if v_sample_idx (voices s idx) \<ge> SPU_BLOCK_SAMPLES
                        then decode_block idx (voice_block_end idx s) else s)"

lemma voice_fetch_wf:
  assumes "spu_wf s"
  shows "spu_wf (voice_fetch idx s)" "v_sample_idx (voices (voice_fetch idx s) idx) < SPU_BLOCK_SAMPLES"
  using assms decode_block_wf(1,2) [OF voice_block_end_wf [OF assms]]
  by (auto simp: voice_fetch_def)

lemma voice_next_sample_wf:
  assumes "spu_wf s"
  shows "spu_wf (snd (voice_next_sample idx s))" "is_s16 (fst (voice_next_sample idx s))"
proof -
  let ?s1 = "voice_fetch idx s"
  let ?v = "voices ?s1 idx"
  let ?v1 = "adsr_run (spu_regs ?s1) idx ?v"
  let ?v2 = "if v_adsr_phase ?v1 = ADSR_RELEASE \<and> v_env_level ?v1 = 0 then ?v1\<lparr>v_active := False\<rparr> else ?v1"
  have s1: "spu_wf ?s1" "voice_wf ?v"
    using voice_fetch_wf [OF assms] spu_wf_voice by blast+
  have v2: "voice_wf ?v2"
    using adsr_run_wf(1) [OF s1(2)] by (simp add: voice_wf_def)
  obtain ph si where pl: "phase_loop (v_phase ?v2 + voice_pitch (spu_regs ?s1) idx) (v_sample_idx ?v2) = (ph, si)"
    by (metis prod.exhaust)
  have "v_sample_idx ?v2 < SPU_BLOCK_SAMPLES"
    using voice_fetch_wf(2) [OF assms, of idx] adsr_run_wf(2) [OF s1(2)] by simp
  then have "si \<le> SPU_BLOCK_SAMPLES"
    using phase_loop_idx [of "v_sample_idx ?v2" "v_phase ?v2 + voice_pitch (spu_regs ?s1) idx"] pl by simp
  then have v3: "voice_wf (?v2\<lparr>v_phase := ph, v_sample_idx := si\<rparr>)"
    using v2 by (simp add: voice_wf_def)
  have e: "voice_next_sample idx s = (if \<not> v_active (voices s idx) then (0, s) else
     (clamp16 (drop_bit 15 (v_samples ?v ! v_sample_idx ?v * uint (v_env_level ?v))),
      set_voice idx (?v2\<lparr>v_phase := ph, v_sample_idx := si\<rparr>) ?s1))"
    unfolding voice_next_sample_def voice_fetch_def [symmetric] Let_def using pl by simp
  show "spu_wf (snd (voice_next_sample idx s))"
    unfolding e using assms spu_wf_set_voice [OF s1(1) v3] by simp
  show "is_s16 (fst (voice_next_sample idx s))"
    unfolding e by (simp add: is_s16_def [of 0])
qed

lemma key_on_voice_wf: "spu_wf s \<Longrightarrow> spu_wf (key_on_voice m i s)"
proof -
  assume s: "spu_wf s"
  have "voice_wf (zero_voice\<lparr>v_active := True, v_start_addr := a, v_cur_addr := x AND 0x7FFFF,
      v_repeat_addr := y AND 0x7FFFF, v_sample_idx := SPU_BLOCK_SAMPLES, v_env_level := 0, v_adsr_divider := 0,
      v_adsr_phase := ADSR_ATTACK\<rparr>)" for a x y
    using unat_and_ram [of x] unat_and_ram [of y] by (simp add: voice_wf_def zero_voice_def is_s16_def)
  then show ?thesis
    using s unfolding key_on_voice_def Let_def by (auto intro!: spu_wf_set_voice)
qed

lemma key_off_voice_wf: "spu_wf s \<Longrightarrow> spu_wf (key_off_voice m i s)"
proof -
  assume s: "spu_wf s"
  have "voice_wf ((voices s i)\<lparr>v_adsr_phase := ADSR_RELEASE, v_adsr_divider := 0\<rparr>)"
    using spu_wf_voice [OF s, of i] by (simp add: voice_wf_def)
  then show ?thesis
    using s unfolding key_off_voice_def Let_def by (auto intro!: spu_wf_set_voice)
qed

lemma spu_wf_fold: "(\<And>i s. spu_wf s \<Longrightarrow> spu_wf (f i s)) \<Longrightarrow> spu_wf s \<Longrightarrow> spu_wf (fold f xs s)"
  by (induction xs arbitrary: s) auto

lemma spu_wf_transfer: "spu_wf s \<Longrightarrow> unat a < SPU_RAM_SIZE \<Longrightarrow> spu_wf (s\<lparr>transfer_addr := a\<rparr>)"
  by (simp add: spu_wf_def cd_ok_def)

lemma unat_mod_ram: "unat ((a :: u32) mod 0x80000) < SPU_RAM_SIZE"
  by (simp add: unat_mod)

lemma write_live_parts_wf:
  "spu_wf (write_voice_volume i v s) = spu_wf s" "spu_wf (write_main_volume h lr f s) = spu_wf s"
  "spu_wf s \<Longrightarrow> spu_wf (write_voice_repeat i v s)"
proof -
  show "spu_wf (write_voice_volume i v s) = spu_wf s" "spu_wf (write_main_volume h lr f s) = spu_wf s"
    by (simp_all add: write_voice_volume_def write_main_volume_def)
  assume s: "spu_wf s"
  have "voice_wf ((voices s j)\<lparr>v_repeat_addr := y AND 0x7FFFF\<rparr>)" for j y
    using spu_wf_voice [OF s, of j] unat_and_ram [of y] by (simp add: voice_wf_def)
  then show "spu_wf (write_voice_repeat i v s)"
    using s by (auto simp: write_voice_repeat_def intro!: spu_wf_set_voice)
qed

lemma spu_write_live_wf: "spu_wf s \<Longrightarrow> spu_wf (spu_write_live a v i s)"
  unfolding spu_write_live_def by (rule write_live_parts_wf(3)) (simp add: write_live_parts_wf(1,2))

lemma spu_write_wf: "spu_wf s \<Longrightarrow> spu_wf (spu_write a v s)"
proof -
  assume s: "spu_wf s"
  have k: "spu_wf (spu_write_keys a v x)" if "spu_wf x" for x
    unfolding spu_write_keys_def Let_def key_on_def key_off_def
    using that by (auto intro!: spu_wf_fold key_on_voice_wf key_off_voice_wf)
  have t: "spu_wf (spu_write_transfer a v x)" if "spu_wf x" for x
    using that unat_mod_ram
    by (auto simp: spu_write_transfer_def spu_fifo_write_def Let_def not_le word_less_nat_alt intro!: spu_wf_transfer)
  show ?thesis
    unfolding spu_write_def Let_def using s by (auto intro!: k t spu_write_live_wf)
qed

lemma spu_dma_write_wf: "spu_wf s \<Longrightarrow> spu_wf (spu_dma_write w s)"
  using unat_mod_ram by (auto simp: spu_dma_write_def Let_def intro!: spu_wf_transfer)

lemma spu_wf_cd: "spu_wf s \<Longrightarrow> cd_ok s' \<Longrightarrow> voices s' = voices s \<Longrightarrow> transfer_addr s' = transfer_addr s \<Longrightarrow> spu_wf s'"
  by (simp add: spu_wf_def)

lemma cd_stores_keep [simp]:
  "voices (fold cd_store xs s) = voices s" "transfer_addr (fold cd_store xs s) = transfer_addr s"
  by (induction xs arbitrary: s) (simp_all add: cd_store_def Let_def)

lemma cd_push_keep [simp]:
  "voices (spu_cd_audio_push xs s) = voices s" "transfer_addr (spu_cd_audio_push xs s) = transfer_addr s"
  by (simp_all add: spu_cd_audio_push_def cd_make_room_def audio_trace_def Let_def)

lemma cd_push_wf: "spu_wf s \<Longrightarrow> spu_wf (spu_cd_audio_push xs s)"
  by (rule spu_wf_cd) (simp_all add: spu_wf_def cd_push_queue)

lemma cd_reset_wf: "spu_wf s \<Longrightarrow> spu_wf (spu_cd_audio_reset s)"
  by (simp add: spu_wf_def spu_cd_audio_reset_def cd_ok_def)

lemma spu_init_wf: "spu_wf (spu_init s)"
  by (simp add: spu_wf_def spu_init_def spu_cd_audio_reset_def cd_ok_def voice_wf_def zero_voice_def is_s16_def)

lemma cd_pop_wf: "spu_wf s \<Longrightarrow> cd_audio_pop s = Some (x, s') \<Longrightarrow> spu_wf s'"
  using cdq.ok_pop [of s x s'] by (auto simp: spu_wf_def cd_audio_pop_def Let_def split: if_splits)

section \<open>Rendering keeps the invariant\<close>

lemma mix_voices_wf: "spu_wf (snd (snd acc)) \<Longrightarrow> spu_wf (snd (snd (fold mix_voice xs acc)))"
proof (induction xs arbitrary: acc)
  case (Cons i xs)
  obtain l r s where acc: "acc = (l, r, s)" by (cases acc)
  have "spu_wf (snd (snd (mix_voice i acc)))"
    using voice_next_sample_wf(1) [of s i] Cons.prems
    by (auto simp: acc mix_voice_def Let_def split: prod.split)
  then show ?case using Cons.IH by simp
qed simp

lemma mix_cd_wf: "spu_wf (snd (snd acc)) \<Longrightarrow> spu_wf (snd (snd (mix_cd c l r acc)))"
  using cd_pop_wf by (cases acc) (auto simp: mix_cd_def Let_def split: option.split prod.split)

lemma render_frame_wf:
  assumes "spu_wf (snd st)"
  shows "spu_wf (snd (snd (render_frame ctrl cl cr st)))"
    and "is_s16 (fst (fst (render_frame ctrl cl cr st)))" "is_s16 (snd (fst (render_frame ctrl cl cr st)))"
proof -
  obtain bp s where st: "st = (bp, s)" by (cases st)
  obtain vl vr sv where v: "fold mix_voice [0..<24] (0, 0, s) = (vl, vr, sv)"
    by (metis prod_cases3)
  have sv: "spu_wf sv"
    using mix_voices_wf [of "(0, 0, s)" "[0..<24]"] assms v by (simp add: st)
  obtain ml mr sc where c: "mix_cd ctrl cl cr (vl, vr, audio_trace (Audio_Pcm AUDIO_TAP_VOICES [clamp16 vl, clamp16 vr]) sv) = (ml, mr, sc)"
    by (metis prod_cases3)
  have sc: "spu_wf sc"
    using mix_cd_wf [of "(vl, vr, audio_trace (Audio_Pcm AUDIO_TAP_VOICES [clamp16 vl, clamp16 vr]) sv)" ctrl cl cr] sv c by simp
  show "spu_wf (snd (snd (render_frame ctrl cl cr st)))"
    using sc assms unfolding st render_frame_def Let_def by (simp add: v c)
  show "is_s16 (fst (fst (render_frame ctrl cl cr st)))" "is_s16 (snd (fst (render_frame ctrl cl cr st)))"
    unfolding st render_frame_def Let_def by (simp_all split: prod.split)
qed

lemma render_loop_wf:
  "spu_wf (snd st) \<Longrightarrow> render_frames_loop c l r n st = (out, st') \<Longrightarrow>
   spu_wf (snd st') \<and> length out = n \<and> (\<forall>fr \<in> set out. is_s16 (fst fr) \<and> is_s16 (snd fr))"
proof (induction n arbitrary: st out)
  case (Suc n)
  obtain fr st1 where f: "render_frame c l r st = (fr, st1)" by (cases "render_frame c l r st")
  obtain frs where g: "render_frames_loop c l r n st1 = (frs, st')" and out: "out = fr # frs"
    using Suc.prems(2) f by (auto simp: Let_def split: prod.splits)
  show ?case
    using Suc.IH [OF _ g] render_frame_wf [OF Suc.prems(1), of c l r] by (simp add: f out)
qed simp

lemma spu_render_wf:
  assumes "spu_wf s" "spu_render n s = (out, s')"
  shows "spu_wf s' \<and> length out = n \<and> (\<forall>fr \<in> set out. is_s16 (fst fr) \<and> is_s16 (snd fr))"
proof (cases "n = 0")
  case False
  obtain out1 bp s1 where r: "render_frames_loop (spu_regs s (reg_index 0x1F801DAA))
      (cd_input_volume (spu_regs s (reg_index 0x1F801DB0))) (cd_input_volume (spu_regs s (reg_index 0x1F801DB2)))
      n (0, s) = (out1, bp, s1)"
    by (metis prod_cases3)
  show ?thesis
    using render_loop_wf [OF _ r] assms False unfolding spu_render_def Let_def by (auto simp: r)
qed (use assms in \<open>simp add: spu_render_def\<close>)

section \<open>Envelope steps\<close>

lemma calc_vc_delta_down:
  assumes "0 \<le> current" "current \<le> 32767"
  shows "- 16384 \<le> fst (calc_vc_delta zs speed lg True True current) \<and>
         fst (calc_vc_delta zs speed lg True True current) \<le> 0"
proof -
  define i2 where "i2 = (if speed < 0x2C then s32 (push_bit ((0x2F - speed) div 4) (NOT (7 - int (speed mod 4))))
                         else NOT (7 - int (speed mod 4)))"
  have m: "speed mod 4 \<le> 3" using mod_less_divisor [of 4 speed] by linarith
  have r1: "-8 \<le> NOT (7 - int (speed mod 4))" "NOT (7 - int (speed mod 4)) \<le> - 5"
    using m by (simp_all add: not_int_def)
  have "(0x2F - speed) div 4 \<le> 11" by simp
  from shifted_step(2) [OF this r1] have i2: "- 16384 \<le> i2" "i2 \<le> - 5"
    using r1 s32_id [of "push_bit ((0x2F - speed) div 4) (NOT (7 - int (speed mod 4)))"]
    by (simp_all add: i2_def)
  have "0 \<le> current * - i2" "current * - i2 \<le> 32767 * 16384"
    using assms i2 by (intro mult_nonneg_nonneg mult_mono; simp)+
  then have "- 16384 \<le> (current * i2) div 32768" "(current * i2) div 32768 \<le> 0"
    by simp_all
  then have "- 16384 \<le> drop_bit 15 (current * i2) \<and> drop_bit 15 (current * i2) \<le> 0"
    by (simp add: drop_bit_eq_div)
  moreover have "fst (calc_vc_delta zs speed lg True True current) = (if lg then drop_bit 15 (current * i2) else i2)"
    by (simp add: calc_vc_delta_def Let_def i2_def)
  ultimately show ?thesis
    using i2 by simp
qed

lemma calc_vc_delta_zero: "fst (calc_vc_delta zs speed True True True 0) = 0"
  by (simp add: calc_vc_delta_def Let_def)

lemma sint_low16: "uint w \<le> 32767 \<Longrightarrow> sint (w :: u16) = uint w"
proof -
  assume "uint w \<le> 32767"
  moreover have "- 32768 \<le> uint w" using uint_ge_0 [of w] by linarith
  ultimately show ?thesis by (simp add: sint_uint signed16_id)
qed

lemma not_top16: "\<not> has w 0x8000 \<Longrightarrow> uint (w :: u16) \<le> 32767"
proof -
  assume "\<not> has w 0x8000"
  then have "w \<le> 0x7FFF" by (simp add: has_top16 word_le_nat_alt)
  then show ?thesis by (simp add: word_le_def)
qed

lemma env_int: "voice_wf v \<Longrightarrow> sint (v_env_level v) = uint (v_env_level v) \<and> uint (v_env_level v) \<le> 32767"
  by (simp add: voice_wf_def word_le_def sint_low16)

lemma level_down:
  assumes "uint e \<le> 32767" "- 16384 \<le> i" "i \<le> 0"
  shows "(if has (e + word_of_int i :: u16) 0x8000 then 0 else e + word_of_int i) \<le> e"
proof -
  have s: "sint e = uint e"
    using assms(1) by (rule sint_low16)
  then have e: "sint (e + word_of_int i) = uint e + i"
  proof -
    have "- 32768 \<le> uint e + i" using assms(2) uint_ge_0 [of e] by linarith
    then show ?thesis using assms s by (simp add: sint_step16 signed16_id)
  qed
  show ?thesis
  proof (cases "has (e + word_of_int i) 0x8000")
    case False
    then have "uint (e + word_of_int i) = uint e + i"
      using e sint_low16 [OF not_top16 [OF False]] by simp
    then show ?thesis
      using assms False by (simp add: word_le_def)
  qed simp
qed

text \<open>Release never raises the level.\<close>

lemma release_down:
  assumes "voice_wf v" "v_adsr_phase v = ADSR_RELEASE"
  shows "v_env_level (adsr_run regs idx v) \<le> v_env_level v"
    and "v_adsr_phase (adsr_run regs idx v) = ADSR_RELEASE"
proof -
  let ?raw = "adsr_raw regs idx"
  obtain i d where c: "calc_vc_delta 0x7C (raw_field ?raw 16 0x1F * 4) (raw_field ?raw 21 1 = 1) True True
      (sint (v_env_level v)) = (i, d)" by (metis prod.exhaust)
  have "- 16384 \<le> i \<and> i \<le> 0"
    using calc_vc_delta_down [of "sint (v_env_level v)"] env_int [OF assms(1)] c by (metis fst_conv uint_ge_0)
  then have l: "(if has (v_env_level v + word_of_int i) 0x8000 then 0
      else v_env_level v + word_of_int i) \<le> v_env_level v"
    using env_int [OF assms(1)] by (intro level_down) auto
  have "adsr_params ?raw v = Some (i, d, 0)"
    using assms(2) c by (simp add: adsr_params_def Let_def)
  then show "v_env_level (adsr_run regs idx v) \<le> v_env_level v"
    "v_adsr_phase (adsr_run regs idx v) = ADSR_RELEASE"
    using l assms(2) by (simp_all add: adsr_run_def adsr_level_def Let_def split: if_splits)
qed

lemma adsr_run_zero:
  assumes "voice_wf v" "v_adsr_phase v = ADSR_RELEASE" "v_env_level v = 0"
  shows "v_env_level (adsr_run regs idx v) = 0"
  using release_down(1) [OF assms(1,2), of regs idx] assms(3) by simp

lemma clamp16_0 [simp]: "clamp16 0 = 0"
  by (simp add: clamp16_def)

text \<open>A voice whose block ended without the repeat flag is silenced and freed at once.\<close>

lemma end_stop:
  assumes s: "spu_wf s" and act: "v_active (voices s i)" and idx: "SPU_BLOCK_SAMPLES \<le> v_sample_idx (voices s i)"
    and fl: "has (v_flags (voices s i)) 1" "\<not> has (v_flags (voices s i)) 2"
  shows "fst (voice_next_sample i s) = 0 \<and> \<not> v_active (voices (snd (voice_next_sample i s)) i)"
proof -
  let ?s1 = "decode_block i (voice_block_end i s)"
  let ?v = "voices ?s1 i"
  let ?v1 = "adsr_run (spu_regs ?s1) i ?v"
  have be: "v_env_level (voices (voice_block_end i s) i) = 0" "v_adsr_phase (voices (voice_block_end i s) i) = ADSR_RELEASE"
    using fl by (simp_all add: voice_block_end_def Let_def)
  note d = decode_block_wf [OF voice_block_end_wf [OF s], of i i]
  have v: "voice_wf ?v" "v_env_level ?v = 0" "v_adsr_phase ?v = ADSR_RELEASE"
    using d be decode_block_wf [OF voice_block_end_wf [OF s]] by (simp_all add: spu_wf_voice)
  have v1: "v_env_level ?v1 = 0" "v_adsr_phase ?v1 = ADSR_RELEASE"
    using adsr_run_zero [OF v(1,3,2)] release_down(2) [OF v(1,3)] by simp_all
  obtain ph si where "phase_loop (v_phase (?v1\<lparr>v_active := False\<rparr>) + voice_pitch (spu_regs ?s1) i)
      (v_sample_idx (?v1\<lparr>v_active := False\<rparr>)) = (ph, si)" by (metis prod.exhaust)
  then have "voice_next_sample i s = (clamp16 (drop_bit 15 (v_samples ?v ! v_sample_idx ?v * uint (v_env_level ?v))),
      set_voice i (?v1\<lparr>v_active := False, v_phase := ph, v_sample_idx := si\<rparr>) ?s1)"
    using act idx v1 unfolding voice_next_sample_def Let_def by simp
  then show ?thesis
    using v by simp
qed

section \<open>Key on\<close>

definition keyed_voice :: "(nat \<Rightarrow> u16) \<Rightarrow> nat \<Rightarrow> spu_voice" where
  "keyed_voice regs i =
     (let start = push_bit 3 (ucast (voice_reg regs i 3)) AND 0x7FFFF in
      zero_voice\<lparr>v_active := True, v_start_addr := start, v_cur_addr := start,
        v_repeat_addr := push_bit 3 (ucast (voice_reg regs i 7)) AND 0x7FFFF,
        v_sample_idx := SPU_BLOCK_SAMPLES\<rparr>)"

lemma key_on_voice_eq:
  "voices (key_on_voice m i s) = (if has m (push_bit i 1) then (voices s)(i := keyed_voice (spu_regs s) i) else voices s)"
  "endx_latch (key_on_voice m i s) = (if has m (push_bit i 1) then clear_bits (endx_latch s) (push_bit i 1) else endx_latch s)"
  "spu_regs (key_on_voice m i s) = spu_regs s"
  by (simp_all add: key_on_voice_def Let_def keyed_voice_def zero_voice_def spu_event_record_def set_voice_def)

lemma key_on_fold:
  "n \<le> 32 \<Longrightarrow> spu_regs (fold (key_on_voice m) [0..<n] s) = spu_regs s \<and>
   (\<forall>i. voices (fold (key_on_voice m) [0..<n] s) i =
     (if i < n \<and> bit m i then keyed_voice (spu_regs s) i else voices s i)) \<and>
   (\<forall>i. bit (endx_latch (fold (key_on_voice m) [0..<n] s)) i = (bit (endx_latch s) i \<and> \<not> (i < n \<and> bit m i)))"
proof (induction n)
  case (Suc n)
  then have IH: "spu_regs (fold (key_on_voice m) [0..<n] s) = spu_regs s"
    "\<And>i. voices (fold (key_on_voice m) [0..<n] s) i =
     (if i < n \<and> bit m i then keyed_voice (spu_regs s) i else voices s i)"
    "\<And>i. bit (endx_latch (fold (key_on_voice m) [0..<n] s)) i = (bit (endx_latch s) i \<and> \<not> (i < n \<and> bit m i))"
    by auto
  have hb: "has m (push_bit n 1) = bit m n" by (rule has_single_bit)
  show ?case
    unfolding upt_Suc fold_append using Suc.prems
    by (auto simp add: key_on_voice_eq IH hb less_Suc_eq bit_simps simp del: push_bit_of_1 dest: bit_imp_le_length)
qed simp

section \<open>DMA upload\<close>

definition word_bytes :: "u32 \<Rightarrow> u8 list" where
  "word_bytes w = [ucast (w AND 0xFF), ucast (drop_bit 8 w AND 0xFF), ucast (drop_bit 16 w AND 0xFF),
                   ucast (drop_bit 24 w AND 0xFF)]"

lemma length_word_bytes [simp]: "length (word_bytes w) = 4"
  by (simp add: word_bytes_def)

lemma dma_write_step:
  assumes "unat (transfer_addr s) + 4 \<le> SPU_RAM_SIZE"
  shows "unat (transfer_addr (spu_dma_write w s)) = (unat (transfer_addr s) + 4) mod SPU_RAM_SIZE"
    and "spu_ram (spu_dma_write w s) i =
      (if unat (transfer_addr s) \<le> i \<and> i < unat (transfer_addr s) + 4
       then word_bytes w ! (i - unat (transfer_addr s)) else spu_ram s i)"
proof -
  let ?a = "unat (transfer_addr s)"
  have a4: "unat (transfer_addr s + 4) = ?a + 4" "unat (transfer_addr s + 3) = ?a + 3"
    using assms by (simp_all add: unat_word_ariths)
  have lt: "transfer_addr s + 3 < 0x80000"
    using a4 assms by (simp add: word_less_nat_alt)
  show "unat (transfer_addr (spu_dma_write w s)) = (?a + 4) mod SPU_RAM_SIZE"
    using lt a4 by (simp add: spu_dma_write_def Let_def unat_mod)
  have "spu_ram (spu_dma_write w s) = (spu_ram s)(?a := word_bytes w ! 0, ?a + 1 := word_bytes w ! 1,
      ?a + 2 := word_bytes w ! 2, ?a + 3 := word_bytes w ! 3)"
    using lt by (simp add: spu_dma_write_def Let_def word_bytes_def numeral_eq_Suc)
  moreover consider "i < ?a" | "i = ?a" | "i = ?a + 1" | "i = ?a + 2" | "i = ?a + 3" | "?a + 4 \<le> i"
    by linarith
  ultimately show "spu_ram (spu_dma_write w s) i = (if ?a \<le> i \<and> i < ?a + 4 then word_bytes w ! (i - ?a) else spu_ram s i)"
    by cases simp_all
qed

lemma dma_writes:
  "unat (transfer_addr s) + 4 * length ws \<le> SPU_RAM_SIZE \<Longrightarrow>
   (\<forall>i. spu_ram (fold spu_dma_write ws s) i =
      (if unat (transfer_addr s) \<le> i \<and> i < unat (transfer_addr s) + 4 * length ws
       then concat (map word_bytes ws) ! (i - unat (transfer_addr s)) else spu_ram s i)) \<and>
   unat (transfer_addr (fold spu_dma_write ws s)) mod SPU_RAM_SIZE
     = (unat (transfer_addr s) + 4 * length ws) mod SPU_RAM_SIZE"
proof (induction ws arbitrary: s)
  case (Cons w ws)
  let ?a = "unat (transfer_addr s)" and ?s = "spu_dma_write w s"
  have st: "unat (transfer_addr ?s) = (?a + 4) mod SPU_RAM_SIZE"
    "\<And>i. spu_ram ?s i = (if ?a \<le> i \<and> i < ?a + 4 then word_bytes w ! (i - ?a) else spu_ram s i)"
    using dma_write_step [of s w] Cons.prems by simp_all
  show ?case
  proof (cases "ws = []")
    case True
    then show ?thesis using st by simp
  next
    case False
    then have "?a + 4 < SPU_RAM_SIZE" using Cons.prems by (cases ws) auto
    then have a: "unat (transfer_addr ?s) = ?a + 4" using st(1) by simp
    note IH = Cons.IH [of ?s, unfolded a]
    have len: "?a + 4 + 4 * length ws \<le> SPU_RAM_SIZE" using Cons.prems by simp
    have "spu_ram (fold spu_dma_write ws ?s) i =
      (if ?a \<le> i \<and> i < ?a + 4 * length (w # ws)
       then concat (map word_bytes (w # ws)) ! (i - ?a) else spu_ram s i)" for i
    proof (cases "?a + 4 \<le> i")
      case True
      then obtain k where k: "i = ?a + 4 + k" by (metis le_Suc_ex)
      then show ?thesis
        using IH len by (simp add: nth_append st(2))
    next
      case False
      then show ?thesis
        using IH len by (auto simp: nth_append st(2))
    qed
    then show ?thesis
      using IH len by (simp add: add.assoc)
  qed
qed auto

section \<open>The event ring\<close>

interpretation sev: log_ring "2 ^ 20" "\<lambda>_. True" s_events "\<lambda>s. spu_event_slot (s_event_idx s)"
  "\<lambda>(kind, voice, addr). spu_event_record kind voice addr"
  "\<lambda>(kind, voice, addr) s. spu_event_row kind voice addr s"
proof (unfold_locales, goal_cases)
  case (4 s x)
  have "unat (s_event_idx s + 1) mod 2 ^ 20 = (unat (s_event_idx s) + 1) mod 2 ^ 20"
    by (simp add: unat_word_ariths mod_mod_cancel)
  then show ?case
    by (cases x) (simp add: spu_event_record_def spu_event_slot_def unat_and_mask mod_Suc_eq)
qed (auto simp: spu_event_record_def spu_event_slot_def unat_and_mask simp del: power_numeral)

section \<open>Histories\<close>

datatype spu_op = Spu_Init | Spu_Write u32 u32 | Spu_Dma u32 | Spu_Render nat
  | Spu_Cd_Push "(int \<times> int) list" | Spu_Cd_Reset

fun spu_step :: "spu_op \<Rightarrow> spu_st \<Rightarrow> spu_st" where
  "spu_step Spu_Init s = spu_init s"
| "spu_step (Spu_Write a v) s = spu_write a v s"
| "spu_step (Spu_Dma w) s = spu_dma_write w s"
| "spu_step (Spu_Render n) s = snd (spu_render n s)"
| "spu_step (Spu_Cd_Push xs) s = spu_cd_audio_push xs s"
| "spu_step Spu_Cd_Reset s = spu_cd_audio_reset s"

lemma spu_step_wf: "spu_wf s \<Longrightarrow> spu_wf (spu_step op s)"
proof (cases op)
  case (Spu_Render n)
  assume "spu_wf s"
  then show ?thesis
    using spu_render_wf [of s n "fst (spu_render n s)" "snd (spu_render n s)"] Spu_Render by simp
qed (simp_all add: spu_init_wf spu_write_wf spu_dma_write_wf cd_push_wf cd_reset_wf)

lemma spu_steps_wf: "spu_wf s \<Longrightarrow> spu_wf (fold spu_step ops s)"
  by (induction ops arbitrary: s) (simp_all add: spu_step_wf)

section \<open>Properties\<close>

text \<open>A freshly initialised unit, for the concrete instances below.\<close>

definition demo_spu :: spu_st where
  "demo_spu = spu_init
     \<lparr>spu_ram = \<lambda>_. 0, spu_regs = \<lambda>_. 0, transfer_addr = 0, key_on_count = 0, render_frames = 0,
      nonzero_frames = 0, last_peak = 0, peak = 0, endx_latch = 0, kon_latch = 0, koff_latch = 0,
      s_events = \<lambda>_. zero_spu_event, s_event_idx = 0, s_event_seq = 0, cd_ring = \<lambda>_. 0, cd_read_pos = 0,
      cd_write_pos = 0, cd_frame_count = 0, cd_push_frames = 0, cd_overflow_frames = 0, cd_underflow_frames = 0,
      voices = \<lambda>_. zero_voice, voice_sweep = \<lambda>_ _. spu_sweep_reset, main_sweep = \<lambda>_. spu_sweep_reset,
      s_frame_count = 0, spu_cycle = 0, audio_log = []\<rparr>"

lemma demo_spu_wf: "spu_wf demo_spu"
  unfolding demo_spu_def by (rule spu_init_wf)

text \<open>C34: Nothing the guest or the host does after \<open>spu_init\<close> can make the voice model index
  outside its arrays: after any sequence of register writes, DMA words, CD pushes and
  renders, every voice has an envelope in 0..0x7FFF, a block of 28 samples and a sample
  index that is inside the block once a decode has refilled it, and every block it decodes
  lies inside SPU RAM.\<close>

theorem spu_reachable_safe:
  "let s = fold spu_step ops (spu_init s0) in
     v_env_level (voices s i) \<le> 0x7FFF \<and>
     v_sample_idx (voices (voice_fetch i s) i) < length (v_samples (voices (voice_fetch i s) i)) \<and>
     block_addr (v_cur_addr (voices s i)) + 16 \<le> SPU_RAM_SIZE \<and>
     unat (transfer_addr s) < SPU_RAM_SIZE"
proof -
  have wf: "spu_wf (fold spu_step ops (spu_init s0))"
    by (rule spu_steps_wf [OF spu_init_wf])
  note f = voice_fetch_wf [OF wf, of i]
  show ?thesis
    using wf f(2) spu_wf_voice [OF wf, of i] spu_wf_voice [OF f(1), of i] block_addr_in_ram
    by (simp add: Let_def voice_wf_def spu_wf_def)
qed

text \<open>C35: The CD input is a FIFO that drops its oldest frames: pushing two chunks of stereo
  frames and then popping \<open>n\<close> times yields the first \<open>n\<close> of the last 352800 frames of
  what was queued followed by both chunks, in order.\<close>

theorem spu_cd_fifo_order:
  assumes "cd_ok s"
  shows "cdq.drain n (spu_cd_audio_push ys (spu_cd_audio_push xs s))
     = take n (take_last SPU_CD_RING_FRAMES (cd_queue s @ xs @ ys))"
  using assms cdq.push_pieces [OF assms, of ys xs]
  by (simp add: cdq.drain_queue cdq.ok_push cdq.queue_push)

lemma spu_cd_fifo_order_witness:
  "cdq.drain 2 (spu_cd_audio_push [(5, 6)] (spu_cd_audio_push [(1, 2), (3, 4)] demo_spu)) = [(1, 2), (3, 4)]"
proof -
  have "cd_queue demo_spu = []"
    by (simp add: cd_queue_def demo_spu_def spu_init_def spu_cd_audio_reset_def)
  moreover have "cd_ok demo_spu"
    using demo_spu_wf by (simp add: spu_wf_def)
  ultimately show ?thesis
    using spu_cd_fifo_order [of demo_spu 2 "[(5, 6)]" "[(1, 2), (3, 4)]"] by (simp add: take_last_def)
qed

text \<open>An \<open>END\<close> block without \<open>REPEAT\<close> silences its voice at once: the next sample is 0 and
  the voice is freed, whatever data follows the block in SPU RAM.\<close>

theorem spu_end_stop_silences:
  assumes "spu_wf s" and "v_active (voices s i)" and "28 \<le> v_sample_idx (voices s i)"
    and "has (v_flags (voices s i)) 1" and "\<not> has (v_flags (voices s i)) 2"
  shows "fst (voice_next_sample i s) = 0 \<and> \<not> v_active (voices (snd (voice_next_sample i s)) i)"
  using assms by (rule end_stop)

lemma spu_end_stop_silences_witness:
  "fst (voice_next_sample 3 (set_voice 3
     (zero_voice\<lparr>v_active := True, v_sample_idx := 28, v_flags := 1, v_env_level := 0x7FFF\<rparr>) demo_spu)) = 0"
proof -
  let ?v = "zero_voice\<lparr>v_active := True, v_sample_idx := 28, v_flags := 1, v_env_level := 0x7FFF\<rparr>"
  have "spu_wf (set_voice 3 ?v demo_spu)"
    by (rule spu_wf_set_voice [OF demo_spu_wf]) (simp add: voice_wf_def zero_voice_def is_s16_def)
  then show ?thesis
    using spu_end_stop_silences [of "set_voice 3 ?v demo_spu" 3] by (simp add: has_def)
qed

text \<open>Key on starts exactly the selected voices, each from its start and loop registers
  with an empty envelope in attack, clears exactly their ENDX bits and leaves every other
  voice as it was.\<close>

theorem spu_key_on_selected:
  "(\<forall>i. voices (key_on m s) i =
      (if i < SPU_VOICE_COUNT \<and> bit m i then keyed_voice (spu_regs s) i else voices s i)) \<and>
   endx_latch (key_on m s) = endx_latch s AND NOT (m AND mask 24)"
proof -
  have "bit (endx_latch (key_on m s)) i = bit (endx_latch s AND NOT (m AND mask 24)) i" if "i < 32" for i
    using key_on_fold [of 24 m s] that by (auto simp: key_on_def bit_simps)
  then show ?thesis
    using key_on_fold [of 24 m s] by (auto simp: key_on_def intro: bit_word_eqI)
qed

text \<open>A key-off fade never gets louder: while a voice is in release, stepping its envelope
  keeps it in release and never raises the level.\<close>

theorem spu_release_falls:
  assumes "voice_wf v" and "v_adsr_phase v = 3"
  shows "v_adsr_phase ((adsr_run regs i ^^ n) v) = 3 \<and> v_env_level ((adsr_run regs i ^^ n) v) \<le> v_env_level v"
proof (induction n)
  case (Suc n)
  have wf: "voice_wf ((adsr_run regs i ^^ n) v)" for n
    by (induction n) (simp_all add: assms(1) adsr_run_wf)
  show ?case
    using release_down [OF wf [of n], of regs i] Suc by auto
qed (simp add: assms)

lemma spu_release_falls_witness:
  "v_env_level ((adsr_run (\<lambda>_. 0x0A05) 2 ^^ 100) (zero_voice\<lparr>v_adsr_phase := 3, v_env_level := 0x4000\<rparr>)) \<le> 0x4000"
  using spu_release_falls [of "zero_voice\<lparr>v_adsr_phase := 3, v_env_level := 0x4000\<rparr>" 100 "\<lambda>_. 0x0A05" 2]
  by (simp add: voice_wf_def zero_voice_def is_s16_def)

text \<open>DMA into SPU RAM is byte exact: a run of words written from the transfer address
  is read back by \<open>spu_ram_peek\<close> as their little-endian bytes.\<close>

theorem spu_dma_peek:
  assumes "unat (transfer_addr s) + 4 * length ws \<le> SPU_RAM_SIZE" and "ws \<noteq> []"
  shows "spu_ram_peek (transfer_addr s) (of_nat (4 * length ws)) (fold spu_dma_write ws s)
     = concat (map word_bytes ws)"
proof -
  let ?a = "unat (transfer_addr s)" and ?n = "4 * length ws"
  have n: "unat (of_nat ?n :: u32) = ?n"
    using assms(1) by (intro unat_of_nat32) simp
  have a: "\<not> transfer_addr s \<ge> 0x80000"
    using assms by (cases ws) (simp_all add: word_le_nat_alt)
  then have "unat (0x80000 - transfer_addr s) = SPU_RAM_SIZE - ?a"
    by (simp add: unat_sub word_le_nat_alt)
  then have len: "\<not> of_nat ?n > 0x80000 - transfer_addr s"
    using assms(1) n by (simp add: word_less_nat_alt)
  have l: "length (concat (map word_bytes ws)) = ?n"
    by (induction ws) simp_all
  have "spu_ram_peek (transfer_addr s) (of_nat ?n) (fold spu_dma_write ws s)
      = map (\<lambda>i. spu_ram (fold spu_dma_write ws s) (?a + i)) [0..<?n]"
    using a len n unfolding spu_ram_peek_def Let_def by simp
  also have "\<dots> = concat (map word_bytes ws)"
    using dma_writes [OF assms(1)] l by (intro nth_equalityI) simp_all
  finally show ?thesis .
qed

lemma spu_dma_peek_witness:
  "spu_ram_peek 0 8 (fold spu_dma_write [0x12345678, 0xCAFE] demo_spu)
     = [0x78, 0x56, 0x34, 0x12, 0xFE, 0xCA, 0, 0]"
proof -
  have "transfer_addr demo_spu = 0"
    by (simp add: demo_spu_def spu_init_def spu_cd_audio_reset_def)
  then show ?thesis
    using spu_dma_peek [of demo_spu "[0x12345678, 0xCAFE]"] by (simp add: word_bytes_def)
qed

text \<open>The main-volume stage is exact for mixes of up to two full-scale voices, and beyond
  that it is not: three voices at full scale drive the \<open>int32_t\<close> product past 31 bits, and
  the sample that should clip at +32767 comes out as -32768.\<close>

theorem spu_mix_main_wraps:
  "(\<forall>m v. \<bar>m\<bar> \<le> 65535 \<and> \<bar>v\<bar> \<le> 32768 \<longrightarrow> mix_main m v = drop_bit 15 (m * v)) \<and>
   clamp16 (mix_main (3 * 32764) 32766) = - 32768 \<and> clamp16 (drop_bit 15 (3 * 32764 * 32766)) = 32767"
proof (intro conjI allI impI)
  fix m v :: int assume "\<bar>m\<bar> \<le> 65535 \<and> \<bar>v\<bar> \<le> 32768"
  then have "\<bar>m * v\<bar> \<le> 65535 * 32768"
    unfolding abs_mult by (intro mult_mono) auto
  then show "mix_main m v = drop_bit 15 (m * v)"
    by (simp add: mix_main_def s32_id abs_le_iff)
qed (simp_all add: mix_main_def s32_def clamp16_def)

lemma spu_mix_main_wraps_witness:
  "mix_main (2 * 32764) 32766 = drop_bit 15 (2 * 32764 * 32766)"
  using spu_mix_main_wraps by simp

end
