(* ===== verification/Dma.thy ===== *)
theory Dma
  imports Event_Source Guest_Memory Mdec Spu
begin

text \<open>
  The DMA controller: \<open>psxrecomp/runtime/src/dma.c\<close>.

  \<open>dma_st\<close> holds the statics of the file, the interrupt port, main memory, and the two
  devices whose models are part of this development (MDEC, SPU). The GPU, the CD-ROM
  controller and the overlay capture are the parameter \<open>dma_env\<close> acting on a state \<open>d_ext\<close>
  of their own, together with the host parameters of the memory model. RAM is accessed with
  \<open>psx_read_word\<close> and \<open>psx_write_word\<close> of theory \<open>Guest_Memory\<close>.

  The transfer loops are recursions on the number of words left. \<open>psx_fatal_halt\<close> does not
  return to the caller, so the operations that call it set \<open>d_halted\<close> and stop there.
\<close>

section \<open>State\<close>

record dma_channel =
  dm_madr :: u32
  dm_bcr :: u32
  dm_chcr :: u32

record dma_async =
  as_active :: bool
  as_debug_started :: bool
  as_total :: u32
  as_remaining :: u32
  as_accum :: u32
  as_start :: u32

record dma_delayed =
  dl_active :: bool
  dl_total :: u32
  dl_cycles :: u32

record cd_dma_entry =
  cl_lba :: int
  cl_dest :: u32
  cl_size :: u32

record dma_trace_entry =
  dt_seq :: u64
  dt_frame :: u32
  dt_kind :: u32
  dt_channel :: u32
  dt_total_words :: u32
  dt_addr :: u32
  dt_val :: u32
  dt_mask :: u32
  dt_madr :: u32
  dt_bcr :: u32
  dt_chcr :: u32
  dt_dpcr :: u32
  dt_dicr_before :: u32
  dt_dicr_after :: u32
  dt_i_stat_before :: u32
  dt_i_stat_after :: u32
  dt_func :: u32
  dt_pc :: u32

record cd_history =
  hs_seq :: u64
  hs_frame_start :: u32
  hs_frame_end :: u32
  hs_start_addr :: u32
  hs_final_addr :: u32
  hs_requested :: u32
  hs_moved :: u32
  hs_bcr :: u32
  hs_chcr :: u32
  hs_dpcr :: u32
  hs_dicr_start :: u32
  hs_dicr_end :: u32
  hs_i_stat_start :: u32
  hs_i_stat_end :: u32
  hs_func :: u32
  hs_pc :: u32
  hs_lba :: int
  hs_sector_size :: int
  hs_read_pos_start :: int
  hs_read_pos_end :: int
  hs_mode :: u8
  hs_available_start :: bool
  hs_available_end :: bool
  hs_completed :: bool
  hs_first_count :: u8
  hs_last_count :: u8
  hs_first :: "nat \<Rightarrow> u32"
  hs_last :: "nat \<Rightarrow> u32"

text \<open>The fields of \<open>CDROMDebugState\<close> the capture uses.\<close>

record cd_snap =
  sn_last_lba :: int
  sn_sector_size :: int
  sn_last_size :: int
  sn_read_pos :: int
  sn_last_mode :: u8
  sn_mode_reg :: u8
  sn_available :: bool

record ('d, 'x) dma_env =
  de_host :: code_host
  de_io :: "'d mmio_ports"
  gpu_read_gpuread :: "'x \<Rightarrow> u32 \<times> 'x"
  gpu_write_gp0 :: "u32 \<Rightarrow> u32 \<Rightarrow> 'x \<Rightarrow> 'x"
  gpu_ws_begin_linked_list :: "'x \<Rightarrow> 'x"
  cdrom_dma_ready :: "'x \<Rightarrow> bool"
  cdrom_dma_read :: "'x \<Rightarrow> u32 \<times> 'x"
  cdrom_dma_sector_word_count :: "'x \<Rightarrow> u32"
  cdrom_get_setloc_lba :: "'x \<Rightarrow> int"
  cdrom_debug_snapshot :: "'x \<Rightarrow> cd_snap"
  overlay_capture_on_dma :: "u32 \<Rightarrow> u32 \<Rightarrow> (nat \<Rightarrow> u8) \<Rightarrow> 'x \<Rightarrow> 'x"

record ('d, 'x) dma_st =
  d_ch :: "nat \<Rightarrow> dma_channel"
  d_mdec_async :: "nat \<Rightarrow> dma_async"
  d_cdrom_async :: dma_async
  d_cdlog :: "nat \<Rightarrow> cd_dma_entry"
  d_cdlog_head :: u32
  d_cdlog_total :: u32
  d_exec_depth :: int
  d_cur_ch :: int
  d_cur_madr :: u32
  d_cur_bcr :: u32
  d_initiator_pc :: u32
  d_ch_initiator_pc :: "nat \<Rightarrow> u32"
  d_delayed :: "nat \<Rightarrow> dma_delayed"
  d_dpcr :: u32
  d_dicr :: u32
  d_trace :: "nat \<Rightarrow> dma_trace_entry"
  d_trace_seq :: u64
  d_hist :: "nat \<Rightarrow> cd_history"
  d_hist_seq :: u64
  d_hist_entry :: cd_history
  d_hist_active :: bool
  d_irq :: irq_port
  d_openbus_reads :: u64
  d_openbus_writes :: u64
  d_frame :: u64
  d_func :: u32
  d_audio_log :: "(u32 \<times> u32) list"
  d_halted :: bool
  d_mem :: "'d guest_mem"
  d_mdec :: mdec_st
  d_spu :: spu_st
  d_ext :: 'x

abbreviation (input) DMA_MDEC_IN_CYCLES_PER_WORD :: u32 where "DMA_MDEC_IN_CYCLES_PER_WORD \<equiv> 1"
abbreviation (input) DMA_MDEC_OUT_CYCLES_PER_WORD :: u32 where "DMA_MDEC_OUT_CYCLES_PER_WORD \<equiv> 14"
abbreviation (input) DMA_GPU_CYCLES_PER_WORD :: u32 where "DMA_GPU_CYCLES_PER_WORD \<equiv> 1"
abbreviation (input) DMA_CDROM_CYCLES_PER_WORD :: u32 where "DMA_CDROM_CYCLES_PER_WORD \<equiv> 1"
abbreviation (input) DMA_SPU_CYCLES_PER_WORD :: u32 where "DMA_SPU_CYCLES_PER_WORD \<equiv> 48"
abbreviation (input) DICR_WRITE_MASK :: u32 where "DICR_WRITE_MASK \<equiv> 0x00FF807F"
abbreviation (input) DICR_RESET_MASK :: u32 where "DICR_RESET_MASK \<equiv> 0x7F000000"
abbreviation (input) DMA_MAX_TRANSFER_WORDS :: u32 where "DMA_MAX_TRANSFER_WORDS \<equiv> 0x80000"

abbreviation madr :: "('d, 'x) dma_st \<Rightarrow> nat \<Rightarrow> u32" where "madr s ch \<equiv> dm_madr (d_ch s ch)"
abbreviation bcr :: "('d, 'x) dma_st \<Rightarrow> nat \<Rightarrow> u32" where "bcr s ch \<equiv> dm_bcr (d_ch s ch)"
abbreviation chcr :: "('d, 'x) dma_st \<Rightarrow> nat \<Rightarrow> u32" where "chcr s ch \<equiv> dm_chcr (d_ch s ch)"
abbreviation start_addr :: "('d, 'x) dma_st \<Rightarrow> nat \<Rightarrow> u32" where "start_addr s ch \<equiv> madr s ch AND 0x1FFFFC"

definition set_madr :: "nat \<Rightarrow> u32 \<Rightarrow> ('d, 'x) dma_st \<Rightarrow> ('d, 'x) dma_st" where
  "set_madr ch v s = s\<lparr>d_ch := (d_ch s)(ch := (d_ch s ch)\<lparr>dm_madr := v\<rparr>)\<rparr>"

definition set_chcr :: "nat \<Rightarrow> u32 \<Rightarrow> ('d, 'x) dma_st \<Rightarrow> ('d, 'x) dma_st" where
  "set_chcr ch v s = s\<lparr>d_ch := (d_ch s)(ch := (d_ch s ch)\<lparr>dm_chcr := v\<rparr>)\<rparr>"

definition clear_busy :: "nat \<Rightarrow> ('d, 'x) dma_st \<Rightarrow> ('d, 'x) dma_st" where
  "clear_busy ch s = set_chcr ch (chcr s ch AND NOT 0x11000000) s"

definition ram_read :: "('d, 'x) dma_env \<Rightarrow> u32 \<Rightarrow> ('d, 'x) dma_st \<Rightarrow> u32 \<times> ('d, 'x) dma_st" where
  "ram_read e addr s = (let (v, m) = psx_read_word (de_io e) addr (d_mem s) in (v, s\<lparr>d_mem := m\<rparr>))"

definition ram_write :: "('d, 'x) dma_env \<Rightarrow> u32 \<Rightarrow> u32 \<Rightarrow> ('d, 'x) dma_st \<Rightarrow> ('d, 'x) dma_st" where
  "ram_write e addr v s = s\<lparr>d_mem := psx_write_word (de_host e) (de_io e) addr v (d_mem s)\<rparr>"

definition ring_event :: "u16 \<Rightarrow> u8 \<Rightarrow> u32 \<Rightarrow> ('d, 'x) dma_st \<Rightarrow> ('d, 'x) dma_st" where
  "ring_event kind detail aux s = s\<lparr>d_irq := event_ring_record_aux kind detail aux (d_irq s)\<rparr>"

section \<open>The log of CD transfers\<close>

definition cd_dma_log_push :: "int \<Rightarrow> u32 \<Rightarrow> u32 \<Rightarrow> ('d, 'x) dma_st \<Rightarrow> ('d, 'x) dma_st" where
  "cd_dma_log_push lba dest sz s =
     s\<lparr>d_cdlog := (d_cdlog s)(unat (d_cdlog_head s mod 65536) := \<lparr>cl_lba = lba, cl_dest = dest, cl_size = sz\<rparr>),
       d_cdlog_head := (d_cdlog_head s + 1) mod 65536, d_cdlog_total := d_cdlog_total s + 1\<rparr>"

definition cd_dma_log_get_entry :: "u32 \<Rightarrow> ('d, 'x) dma_st \<Rightarrow> cd_dma_entry option" where
  "cd_dma_log_get_entry idx s =
     (let oldest = (if d_cdlog_total s > 65536 then d_cdlog_total s - 65536 else 0)
      in if idx < oldest \<or> idx \<ge> d_cdlog_total s then None else Some (d_cdlog s (unat (idx mod 65536))))"

section \<open>The interrupt register\<close>

definition dicr_master_flag :: "u32 \<Rightarrow> u32" where
  "dicr_master_flag v = (if bit v 15 \<or> bit v 23 \<and> has v DICR_RESET_MASK then 0x80000000 else 0)"

definition dicr_read_value :: "u32 \<Rightarrow> u32" where
  "dicr_read_value v = (v AND NOT 0x80000000) OR dicr_master_flag v"

definition raise_dma_irq_on_master_edge :: "u32 \<Rightarrow> ('d, 'x) dma_st \<Rightarrow> ('d, 'x) dma_st" where
  "raise_dma_irq_on_master_edge before s =
     (if dicr_master_flag before = 0 \<and> dicr_master_flag (d_dicr s) \<noteq> 0
      then s\<lparr>d_irq := psx_irq_raise 3 (drop_bit 24 (d_dicr s) AND 0x7F) (d_irq s)\<rparr> else s)"

section \<open>Traces\<close>

definition trace_put :: "dma_trace_entry \<Rightarrow> ('d, 'x) dma_st \<Rightarrow> ('d, 'x) dma_st" where
  "trace_put en s = s\<lparr>d_trace := (d_trace s)(unat (d_trace_seq s mod 0x4000) := en), d_trace_seq := d_trace_seq s + 1\<rparr>"

definition trace_dma :: "u32 \<Rightarrow> nat \<Rightarrow> u32 \<Rightarrow> u32 \<Rightarrow> u32 \<Rightarrow> ('d, 'x) dma_st \<Rightarrow> ('d, 'x) dma_st" where
  "trace_dma kind ch total_words dicr_before i_stat_before s =
     trace_put \<lparr>dt_seq = d_trace_seq s, dt_frame = ucast (d_frame s), dt_kind = kind, dt_channel = of_nat ch,
       dt_total_words = total_words, dt_addr = 0, dt_val = 0, dt_mask = 0,
       dt_madr = (if ch < 7 then madr s ch else 0), dt_bcr = (if ch < 7 then bcr s ch else 0),
       dt_chcr = (if ch < 7 then chcr s ch else 0), dt_dpcr = d_dpcr s,
       dt_dicr_before = dicr_read_value dicr_before, dt_dicr_after = dicr_read_value (d_dicr s),
       dt_i_stat_before = i_stat_before, dt_i_stat_after = i_stat (d_irq s),
       dt_func = d_func s, dt_pc = gm_store_pc (d_mem s)\<rparr> s"

definition trace_dma_reg_write :: "u32 \<Rightarrow> u32 \<Rightarrow> u32 \<Rightarrow> u32 \<Rightarrow> u32 \<Rightarrow> ('d, 'x) dma_st \<Rightarrow> ('d, 'x) dma_st" where
  "trace_dma_reg_write addr val m dicr_before i_stat_before s =
     trace_put \<lparr>dt_seq = d_trace_seq s, dt_frame = ucast (d_frame s), dt_kind = 0x57, dt_channel = 0xFFFFFFFF,
       dt_total_words = 0, dt_addr = addr, dt_val = val, dt_mask = m, dt_madr = 0, dt_bcr = 0, dt_chcr = 0,
       dt_dpcr = d_dpcr s, dt_dicr_before = dicr_read_value dicr_before, dt_dicr_after = dicr_read_value (d_dicr s),
       dt_i_stat_before = i_stat_before, dt_i_stat_after = i_stat (d_irq s),
       dt_func = d_func s, dt_pc = gm_store_pc (d_mem s)\<rparr> s"

section \<open>The history of CD transfers\<close>

definition zero_history :: cd_history where
  "zero_history = \<lparr>hs_seq = 0, hs_frame_start = 0, hs_frame_end = 0, hs_start_addr = 0, hs_final_addr = 0,
     hs_requested = 0, hs_moved = 0, hs_bcr = 0, hs_chcr = 0, hs_dpcr = 0, hs_dicr_start = 0, hs_dicr_end = 0,
     hs_i_stat_start = 0, hs_i_stat_end = 0, hs_func = 0, hs_pc = 0, hs_lba = 0, hs_sector_size = 0,
     hs_read_pos_start = 0, hs_read_pos_end = 0, hs_mode = 0, hs_available_start = False,
     hs_available_end = False, hs_completed = False, hs_first_count = 0, hs_last_count = 0,
     hs_first = (\<lambda>_. 0), hs_last = (\<lambda>_. 0)\<rparr>"

definition start_cdrom_dma_capture :: "('d, 'x) dma_env \<Rightarrow> u32 \<Rightarrow> ('d, 'x) dma_st \<Rightarrow> ('d, 'x) dma_st" where
  "start_cdrom_dma_capture e requested_words s =
     (let sn = cdrom_debug_snapshot e (d_ext s)
      in s\<lparr>d_hist_entry := zero_history
             \<lparr>hs_seq := d_hist_seq s, hs_frame_start := ucast (d_frame s), hs_start_addr := start_addr s 3,
              hs_final_addr := start_addr s 3, hs_requested := requested_words, hs_bcr := bcr s 3, hs_chcr := chcr s 3,
              hs_dpcr := d_dpcr s, hs_dicr_start := dicr_read_value (d_dicr s), hs_i_stat_start := i_stat (d_irq s),
              hs_func := d_func s, hs_pc := gm_store_pc (d_mem s), hs_lba := sn_last_lba sn,
              hs_sector_size := (if sn_sector_size sn > 0 then sn_sector_size sn else sn_last_size sn),
              hs_read_pos_start := sn_read_pos sn,
              hs_mode := (if sn_last_mode sn \<noteq> 0 then sn_last_mode sn else sn_mode_reg sn),
              hs_available_start := sn_available sn\<rparr>,
           d_hist_seq := d_hist_seq s + 1, d_hist_active := True\<rparr>)"

definition push_first :: "u32 \<Rightarrow> cd_history \<Rightarrow> cd_history" where
  "push_first w h =
     (if hs_first_count h < 16
      then h\<lparr>hs_first := (hs_first h)(unat (hs_first_count h) := w), hs_first_count := hs_first_count h + 1\<rparr> else h)"

text \<open>Keeps the newest sixteen words; \<open>memmove\<close> shifts the array down by one.\<close>

definition push_last :: "u32 \<Rightarrow> cd_history \<Rightarrow> cd_history" where
  "push_last w h =
     (if hs_last_count h < 16
      then h\<lparr>hs_last := (hs_last h)(unat (hs_last_count h) := w), hs_last_count := hs_last_count h + 1\<rparr>
      else h\<lparr>hs_last := (\<lambda>i. if i < 15 then hs_last h (i + 1) else if i = 15 then w else hs_last h i)\<rparr>)"

definition record_cdrom_dma_word :: "u32 \<Rightarrow> ('d, 'x) dma_st \<Rightarrow> ('d, 'x) dma_st" where
  "record_cdrom_dma_word w s =
     (if \<not> d_hist_active s then s
      else let h = push_last w (push_first w (d_hist_entry s)) in s\<lparr>d_hist_entry := h\<lparr>hs_moved := hs_moved h + 1\<rparr>\<rparr>)"

definition finish_cdrom_dma_capture :: "('d, 'x) dma_env \<Rightarrow> u32 \<Rightarrow> bool \<Rightarrow> ('d, 'x) dma_st \<Rightarrow> ('d, 'x) dma_st" where
  "finish_cdrom_dma_capture e final_addr completed s =
     (if \<not> d_hist_active s then s
      else let sn = cdrom_debug_snapshot e (d_ext s);
               h = (d_hist_entry s)\<lparr>hs_frame_end := ucast (d_frame s), hs_final_addr := final_addr AND 0x1FFFFC,
                     hs_dicr_end := dicr_read_value (d_dicr s), hs_i_stat_end := i_stat (d_irq s),
                     hs_read_pos_end := sn_read_pos sn, hs_available_end := sn_available sn, hs_completed := completed\<rparr>
           in s\<lparr>d_hist_entry := h, d_hist := (d_hist s)(unat (hs_seq h mod 0x2000) := h), d_hist_active := False\<rparr>)"

section \<open>Channel state\<close>

definition channel_enabled :: "nat \<Rightarrow> ('d, 'x) dma_st \<Rightarrow> bool" where
  "channel_enabled ch s \<longleftrightarrow> bit (d_dpcr s) (ch * 4 + 3)"

definition channel_irq_flag_armed :: "nat \<Rightarrow> ('d, 'x) dma_st \<Rightarrow> bool" where
  "channel_irq_flag_armed ch s \<longleftrightarrow> bit (d_dicr s) (16 + ch) \<and> bit (d_dicr s) 23"

definition sync_mode :: "u32 \<Rightarrow> u32" where "sync_mode c = drop_bit 9 c AND 3"

definition transfer_word_count :: "('d, 'x) dma_env \<Rightarrow> nat \<Rightarrow> ('d, 'x) dma_st \<Rightarrow> u32" where
  "transfer_word_count e ch s =
     (let block_size = bcr s ch AND 0xFFFF; block_count = drop_bit 16 (bcr s ch) AND 0xFFFF
      in if ch = 3 \<and> block_size = 0 then cdrom_dma_sector_word_count e (d_ext s)
         else if sync_mode (chcr s ch) = 1 then
           (if block_size = 0 then 0x10000 else block_size) * (if block_count = 0 then 1 else block_count)
         else if block_size = 0 then 0x10000 else block_size)"

definition validate_transfer_length :: "('d, 'x) dma_env \<Rightarrow> nat \<Rightarrow> ('d, 'x) dma_st \<Rightarrow> ('d, 'x) dma_st" where
  "validate_transfer_length e ch s =
     (if ch = 2 \<and> sync_mode (chcr s ch) = 2 then s
      else if transfer_word_count e ch s > DMA_MAX_TRANSFER_WORDS then s\<lparr>d_halted := True\<rparr> else s)"

definition complete_transfer :: "nat \<Rightarrow> ('d, 'x) dma_st \<Rightarrow> ('d, 'x) dma_st" where
  "complete_transfer ch s0 =
     (let dicr_before = d_dicr s0; i_stat_before = i_stat (d_irq s0);
          s1 = clear_busy ch s0;
          s2 = (if channel_irq_flag_armed ch s1
                then raise_dma_irq_on_master_edge dicr_before (s1\<lparr>d_dicr := d_dicr s1 OR push_bit (24 + ch) 1\<rparr>) else s1);
          s3 = trace_dma 0x43 ch 0 dicr_before i_stat_before s2;
          s4 = ring_event EV_DMA_DONE (of_nat ch) (chcr s3 ch) s3
      in ring_event EV_DEQ (of_nat (1 + ch)) (chcr s4 ch) s4)"

section \<open>Asynchronous channels\<close>

definition idle_async :: "dma_async \<Rightarrow> dma_async" where
  "idle_async a = a\<lparr>as_active := False, as_debug_started := False, as_total := 0, as_remaining := 0, as_accum := 0\<rparr>"

definition idle_delayed :: dma_delayed where
  "idle_delayed = \<lparr>dl_active = False, dl_total = 0, dl_cycles = 0\<rparr>"

definition cancel_async_transfer :: "('d, 'x) dma_env \<Rightarrow> nat \<Rightarrow> ('d, 'x) dma_st \<Rightarrow> ('d, 'x) dma_st" where
  "cancel_async_transfer e ch s =
     (let s1 = (if ch < 2 then s\<lparr>d_mdec_async := (d_mdec_async s)(ch := idle_async (d_mdec_async s ch))\<rparr> else s);
          s2 = (if ch = 3 then (finish_cdrom_dma_capture e (start_addr s1 3) False s1)
                                 \<lparr>d_cdrom_async := idle_async (d_cdrom_async s1)\<rparr> else s1)
      in if ch < 7 then s2\<lparr>d_delayed := (d_delayed s2)(ch := idle_delayed)\<rparr> else s2)"

definition schedule_delayed_complete :: "nat \<Rightarrow> u32 \<Rightarrow> u32 \<Rightarrow> ('d, 'x) dma_st \<Rightarrow> ('d, 'x) dma_st" where
  "schedule_delayed_complete ch total_words cycles_per_word s =
     (if total_words = 0 \<or> cycles_per_word = 0 then complete_transfer ch s
      else let cycles = (ucast total_words :: u64) * ucast cycles_per_word;
               c = (if cycles > 0xFFFFFFFF then 0xFFFFFFFF else ucast cycles);
               s1 = s\<lparr>d_delayed := (d_delayed s)(ch := \<lparr>dl_active = True, dl_total = total_words, dl_cycles = c\<rparr>)\<rparr>
           in ring_event EV_DMA_SCHED (of_nat ch) (chcr s1 ch) s1)"

definition advance_delayed_complete :: "nat \<Rightarrow> u32 \<Rightarrow> ('d, 'x) dma_st \<Rightarrow> ('d, 'x) dma_st" where
  "advance_delayed_complete ch cycles s =
     (let d = d_delayed s ch
      in if \<not> dl_active d then s
         else if cycles < dl_cycles d
         then s\<lparr>d_delayed := (d_delayed s)(ch := d\<lparr>dl_cycles := dl_cycles d - cycles\<rparr>)\<rparr>
         else complete_transfer ch (s\<lparr>d_delayed := (d_delayed s)(ch := idle_delayed)\<rparr>))"

definition on_mdec :: "(mdec_st \<Rightarrow> mdec_st) \<Rightarrow> ('d, 'x) dma_st \<Rightarrow> ('d, 'x) dma_st" where
  "on_mdec f s = s\<lparr>d_mdec := f (d_mdec s)\<rparr>"

definition start_async_mdec_transfer :: "('d, 'x) dma_env \<Rightarrow> nat \<Rightarrow> ('d, 'x) dma_st \<Rightarrow> ('d, 'x) dma_st" where
  "start_async_mdec_transfer e ch s =
     (let a = d_mdec_async s ch; n = transfer_word_count e ch s
      in if as_active a then s
         else let s1 = on_mdec (if ch = 0 then mdec_debug_dma_in_start n else mdec_debug_dma_out_start n) s
              in s1\<lparr>d_mdec_async := (d_mdec_async s1)(ch :=
                    a\<lparr>as_active := True, as_debug_started := True, as_total := n, as_remaining := n, as_accum := 0\<rparr>)\<rparr>)"

definition finish_async_mdec_transfer :: "('d, 'x) dma_env \<Rightarrow> nat \<Rightarrow> u32 \<Rightarrow> ('d, 'x) dma_st \<Rightarrow> ('d, 'x) dma_st" where
  "finish_async_mdec_transfer e ch total_words s =
     complete_transfer ch (cancel_async_transfer e ch
       (on_mdec (if ch = 0 then mdec_debug_dma_in_end total_words else mdec_debug_dma_out_end total_words) s))"

definition start_async_cdrom_transfer :: "('d, 'x) dma_env \<Rightarrow> ('d, 'x) dma_st \<Rightarrow> ('d, 'x) dma_st" where
  "start_async_cdrom_transfer e s =
     (if as_active (d_cdrom_async s) then s
      else let n = transfer_word_count e 3 s;
               s1 = s\<lparr>d_cdrom_async := \<lparr>as_active = True, as_debug_started = False, as_total = n, as_remaining = n,
                                         as_accum = 0, as_start = start_addr s 3\<rparr>\<rparr>;
               s2 = start_cdrom_dma_capture e n s1
           in if n = 0
              then complete_transfer 3 (cancel_async_transfer e 3 (finish_cdrom_dma_capture e (start_addr s2 3) True s2))
              else s2)"

definition finish_async_cdrom_transfer :: "('d, 'x) dma_env \<Rightarrow> u32 \<Rightarrow> ('d, 'x) dma_st \<Rightarrow> ('d, 'x) dma_st" where
  "finish_async_cdrom_transfer e final_addr s =
     (let s1 = finish_cdrom_dma_capture e final_addr True s;
          load_start = as_start (d_cdrom_async s1); sz = as_total (d_cdrom_async s1) * 4;
          s2 = (if \<not> bit (chcr s1 3) 1 \<and> sz > 0 \<and> load_start < 0x1C0000
                then let sz1 = (if sz > 0x200000 - load_start then 0x200000 - load_start else sz);
                         lba = cdrom_get_setloc_lba e (d_ext s1);
                         t = (if lba \<ge> 0 then cd_dma_log_push lba load_start sz1 s1 else s1)
                     in t\<lparr>d_ext := overlay_capture_on_dma e load_start sz1
                                     (\<lambda>i. gm_ram (d_mem t) (unat load_start + i)) (d_ext t)\<rparr>
                else s1)
      in complete_transfer 3 (cancel_async_transfer e 3 (set_madr 3 final_addr s2)))"

section \<open>Transfers\<close>

text \<open>\<open>for (i = 0; i < n; i++) { body(addr); addr = (addr + step) & 0x1FFFFC; }\<close>\<close>

fun transfer_loop :: "(u32 \<Rightarrow> 's \<Rightarrow> 's) \<Rightarrow> u32 \<Rightarrow> nat \<Rightarrow> u32 \<Rightarrow> 's \<Rightarrow> u32 \<times> 's" where
  "transfer_loop body step 0 addr s = (addr, s)"
| "transfer_loop body step (Suc n) addr s = transfer_loop body step n ((addr + step) AND 0x1FFFFC) (body addr s)"

definition addr_step :: "u32 \<Rightarrow> u32" where
  "addr_step c = (if bit c 1 then -4 else 4)"

definition gpu_word :: "('d, 'x) dma_env \<Rightarrow> u32 \<Rightarrow> ('d, 'x) dma_st \<Rightarrow> ('d, 'x) dma_st" where
  "gpu_word e addr s = (let (w, s1) = ram_read e addr s in s1\<lparr>d_ext := gpu_write_gp0 e addr w (d_ext s1)\<rparr>)"

definition gpuread_word :: "('d, 'x) dma_env \<Rightarrow> u32 \<Rightarrow> ('d, 'x) dma_st \<Rightarrow> ('d, 'x) dma_st" where
  "gpuread_word e addr s = (let (w, x) = gpu_read_gpuread e (d_ext s) in ram_write e addr w (s\<lparr>d_ext := x\<rparr>))"

definition spu_word :: "('d, 'x) dma_env \<Rightarrow> u32 \<Rightarrow> ('d, 'x) dma_st \<Rightarrow> ('d, 'x) dma_st" where
  "spu_word e addr s = (let (w, s1) = ram_read e addr s in s1\<lparr>d_spu := spu_dma_write w (d_spu s1)\<rparr>)"

definition mdec_in_word :: "('d, 'x) dma_env \<Rightarrow> u32 \<Rightarrow> ('d, 'x) dma_st \<Rightarrow> ('d, 'x) dma_st" where
  "mdec_in_word e addr s = (let (w, s1) = ram_read e addr s in on_mdec (mdec_dma_write_word w) s1)"

definition mdec_out_word :: "('d, 'x) dma_env \<Rightarrow> u32 \<Rightarrow> ('d, 'x) dma_st \<Rightarrow> ('d, 'x) dma_st" where
  "mdec_out_word e addr s = (let (w, m) = mdec_dma_read_word (d_mdec s) in ram_write e addr w (s\<lparr>d_mdec := m\<rparr>))"

text \<open>The two synchronous MDEC transfers are kept in the file but no longer called.\<close>

definition execute_ch0_mdec_in :: "('d, 'x) dma_env \<Rightarrow> ('d, 'x) dma_st \<Rightarrow> ('d, 'x) dma_st" where
  "execute_ch0_mdec_in e s =
     (let c = chcr s 0; n = transfer_word_count e 0 s
      in complete_transfer 0
        (if bit c 0 then
           let (addr, s1) = transfer_loop (mdec_in_word e) (addr_step c) (unat n) (start_addr s 0) (on_mdec (mdec_debug_dma_in_start n) s)
           in set_madr 0 addr (on_mdec (mdec_debug_dma_in_end n) s1)
         else s))"

definition execute_ch1_mdec_out :: "('d, 'x) dma_env \<Rightarrow> ('d, 'x) dma_st \<Rightarrow> ('d, 'x) dma_st" where
  "execute_ch1_mdec_out e s =
     (let c = chcr s 1; n = transfer_word_count e 1 s
      in complete_transfer 1
        (if \<not> bit c 0 then
           let (addr, s1) = transfer_loop (mdec_out_word e) (addr_step c) (unat n) (start_addr s 1) (on_mdec (mdec_debug_dma_out_start n) s)
           in set_madr 1 addr (on_mdec (mdec_debug_dma_out_end n) s1)
         else s))"

text \<open>
  The walk over a linked list; \<open>n\<close> is the number of nodes the cap still allows. A list that
  ends exactly at the cap also leaves \<open>MADR\<close> at its last node, because the test after the
  loop compares the same counter.
\<close>

fun list_walk :: "('d, 'x) dma_env \<Rightarrow> nat \<Rightarrow> u32 \<Rightarrow> u32 \<Rightarrow> ('d, 'x) dma_st \<Rightarrow> u32 \<times> ('d, 'x) dma_st" where
  "list_walk e 0 addr words s = (words, set_madr 2 addr s)"
| "list_walk e (Suc n) addr words s =
     (let (header, s1) = ram_read e addr s;
          num_words = drop_bit 24 header AND 0xFF;
          (_, s2) = transfer_loop (gpu_word e) 4 (unat num_words) ((addr + 4) AND 0x1FFFFC) s1;
          words1 = words + 1 + num_words;
          next_node = header AND 0xFFFFFF
      in if next_node = 0xFFFFFF then (words1, set_madr 2 (if n = 0 then addr else 0x00FFFFFF) s2)
         else list_walk e n (next_node AND 0x1FFFFC) words1 s2)"

definition execute_ch2_gpu :: "('d, 'x) dma_env \<Rightarrow> ('d, 'x) dma_st \<Rightarrow> u32 \<times> ('d, 'x) dma_st" where
  "execute_ch2_gpu e s =
     (let c = chcr s 2; mode = sync_mode c; step = addr_step c; a0 = start_addr s 2;
          block = (bcr s 2 AND 0xFFFF) * (drop_bit 16 (bcr s 2) AND 0xFFFF);
          burst = (if bcr s 2 AND 0xFFFF = 0 then 0x10000 else bcr s 2 AND 0xFFFF)
      in if \<not> bit c 0 then
           (if mode = 1 then
              let (addr, s1) = transfer_loop (gpuread_word e) step (unat block) a0 s in (block, set_madr 2 addr s1)
            else (0, s))
         else if mode = 1 then
           (let (addr, s1) = transfer_loop (gpu_word e) step (unat block) a0 s in (block, set_madr 2 addr s1))
         else if mode = 2 then
           list_walk e 0x40001 a0 0 (s\<lparr>d_ext := gpu_ws_begin_linked_list e (d_ext s)\<rparr>)
         else
           (let (addr, s1) = transfer_loop (gpu_word e) step (unat burst) a0 s in (burst, set_madr 2 addr s1)))"

definition execute_ch3_cdrom :: "('d, 'x) dma_env \<Rightarrow> ('d, 'x) dma_st \<Rightarrow> ('d, 'x) dma_st" where
  "execute_ch3_cdrom e s = (if bit (chcr s 3) 0 then clear_busy 3 s else start_async_cdrom_transfer e s)"

definition execute_ch4_spu :: "('d, 'x) dma_env \<Rightarrow> ('d, 'x) dma_st \<Rightarrow> u32 \<times> ('d, 'x) dma_st" where
  "execute_ch4_spu e s =
     (let c = chcr s 4; n = transfer_word_count e 4 s; a0 = start_addr s 4
      in if bit c 0 then
           let (addr, s1) = transfer_loop (spu_word e) (addr_step c) (unat n) a0 s
           in (n, set_madr 4 addr (s1\<lparr>d_audio_log := (n, start_addr s1 4) # d_audio_log s1\<rparr>))
         else
           let (addr, s1) = transfer_loop (\<lambda>a. ram_write e a 0) (addr_step c) (unat n) a0 s in (n, set_madr 4 addr s1))"

text \<open>\<open>n\<close> entries left; the last one is the terminator.\<close>

fun otc_loop :: "('d, 'x) dma_env \<Rightarrow> nat \<Rightarrow> u32 \<Rightarrow> ('d, 'x) dma_st \<Rightarrow> ('d, 'x) dma_st" where
  "otc_loop e 0 addr s = s"
| "otc_loop e (Suc n) addr s =
     otc_loop e n ((addr - 4) AND 0x1FFFFC) (ram_write e addr (if n = 0 then 0x00FFFFFF else (addr - 4) AND 0x00FFFFFF) s)"

definition execute_ch6_otc :: "('d, 'x) dma_env \<Rightarrow> ('d, 'x) dma_st \<Rightarrow> ('d, 'x) dma_st" where
  "execute_ch6_otc e s =
     (let n = (if bcr s 6 AND 0xFFFF = 0 then 0x10000 else bcr s 6 AND 0xFFFF)
      in complete_transfer 6 (otc_loop e (unat n) (start_addr s 6) s))"

definition run_channel :: "('d, 'x) dma_env \<Rightarrow> nat \<Rightarrow> ('d, 'x) dma_st \<Rightarrow> ('d, 'x) dma_st" where
  "run_channel e ch s =
     (if ch = 0 then start_async_mdec_transfer e 0 s
      else if ch = 1 then start_async_mdec_transfer e 1 s
      else if ch = 2 then (let (n, s1) = execute_ch2_gpu e s in schedule_delayed_complete 2 n DMA_GPU_CYCLES_PER_WORD s1)
      else if ch = 3 then execute_ch3_cdrom e s
      else if ch = 4 then (let (n, s1) = execute_ch4_spu e s in schedule_delayed_complete 4 n DMA_SPU_CYCLES_PER_WORD s1)
      else if ch = 6 then execute_ch6_otc e s
      else s\<lparr>d_halted := True\<rparr>)"

text \<open>The kick is recorded in the rings before its length is validated.\<close>

definition announce_kick :: "('d, 'x) dma_env \<Rightarrow> nat \<Rightarrow> ('d, 'x) dma_st \<Rightarrow> ('d, 'x) dma_st" where
  "announce_kick e ch s =
     (let s1 = set_chcr ch (chcr s ch AND NOT 0x10000000) s;
          s2 = trace_dma 0x53 ch (transfer_word_count e ch s1) (d_dicr s1) (i_stat (d_irq s1)) s1;
          s3 = ring_event EV_DMA_KICK (of_nat ch) (chcr s2 ch) s2
      in ring_event EV_ENQ (of_nat (1 + ch)) (transfer_word_count e ch s3) s3)"

definition begin_kick :: "nat \<Rightarrow> ('d, 'x) dma_st \<Rightarrow> ('d, 'x) dma_st" where
  "begin_kick ch s =
     (let pc = gm_store_pc (d_mem s)
      in s\<lparr>d_ch_initiator_pc := (d_ch_initiator_pc s)(ch := pc), d_initiator_pc := pc,
           d_exec_depth := d_exec_depth s + 1, d_cur_ch := int ch, d_cur_madr := madr s ch, d_cur_bcr := bcr s ch\<rparr>)"

definition end_kick :: "('d, 'x) dma_st \<Rightarrow> ('d, 'x) dma_st" where
  "end_kick s = s\<lparr>d_exec_depth := d_exec_depth s - 1, d_cur_ch := -1\<rparr>"

definition try_execute :: "('d, 'x) dma_env \<Rightarrow> nat \<Rightarrow> ('d, 'x) dma_st \<Rightarrow> ('d, 'x) dma_st" where
  "try_execute e ch s =
     (if \<not> bit (chcr s ch) 24 then s
      else if \<not> channel_enabled ch s then s
      else
        let s1 = validate_transfer_length e ch (announce_kick e ch s)
        in if d_halted s1 then s1
           else let s2 = run_channel e ch (begin_kick ch s1) in if d_halted s2 then s2 else end_kick s2)"

section \<open>The cycle clock\<close>

text \<open>Moves at most \<open>n\<close> words between RAM and the MDEC while it is ready.\<close>

definition mdec_ready :: "nat \<Rightarrow> ('d, 'x) dma_st \<Rightarrow> bool" where
  "mdec_ready ch s = (if ch = 0 then mdec_dma_write_ready (d_mdec s) else mdec_dma_read_ready (d_mdec s))"

fun mdec_move :: "('d, 'x) dma_env \<Rightarrow> nat \<Rightarrow> u32 \<Rightarrow> nat \<Rightarrow> u32 \<Rightarrow> u32 \<Rightarrow> ('d, 'x) dma_st \<Rightarrow> u32 \<times> u32 \<times> ('d, 'x) dma_st" where
  "mdec_move e ch step 0 addr moved s = (addr, moved, s)"
| "mdec_move e ch step (Suc n) addr moved s =
     (if \<not> mdec_ready ch s then (addr, moved, s)
      else mdec_move e ch step n ((addr + step) AND 0x1FFFFC) (moved + 1)
             (if ch = 0 then mdec_in_word e addr s else mdec_out_word e addr (s\<lparr>d_cur_madr := addr\<rparr>)))"

definition accumulate :: "u32 \<Rightarrow> u32 \<Rightarrow> u32" where
  "accumulate accum cycles = (if cycles > 0xFFFFFFFF - accum then 0xFFFFFFFF else accum + cycles)"

definition mdec_cost :: "nat \<Rightarrow> u32" where
  "mdec_cost ch = (if ch = 0 then DMA_MDEC_IN_CYCLES_PER_WORD else DMA_MDEC_OUT_CYCLES_PER_WORD)"

definition set_mdec_async :: "nat \<Rightarrow> dma_async \<Rightarrow> ('d, 'x) dma_st \<Rightarrow> ('d, 'x) dma_st" where
  "set_mdec_async ch a s = s\<lparr>d_mdec_async := (d_mdec_async s)(ch := a)\<rparr>"

definition advance_mdec_channel :: "('d, 'x) dma_env \<Rightarrow> nat \<Rightarrow> u32 \<Rightarrow> ('d, 'x) dma_st \<Rightarrow> ('d, 'x) dma_st" where
  "advance_mdec_channel e ch cycles s =
     (let a = d_mdec_async s ch; c = chcr s ch
      in if \<not> as_active a then s
         else if \<not> bit c 24 \<or> \<not> channel_enabled ch s then s
         else if ch = 0 \<and> \<not> bit c 0 \<or> ch = 1 \<and> bit c 0 then finish_async_mdec_transfer e ch (as_total a) s
         else if \<not> mdec_ready ch s then s
         else
           let a1 = a\<lparr>as_accum := accumulate (as_accum a) cycles\<rparr>;
               s1 = set_mdec_async ch a1 s;
               budget = as_accum a1 div mdec_cost ch
           in if budget = 0 then s1
              else
                let s2 = (if ch = 1 then s1\<lparr>d_exec_depth := d_exec_depth s1 + 1, d_cur_ch := 1, d_cur_bcr := bcr s1 1,
                                           d_initiator_pc := d_ch_initiator_pc s1 1\<rparr> else s1);
                    (addr, moved, s3) = mdec_move e ch (addr_step c) (unat (min (as_remaining a1) budget)) (start_addr s2 ch) 0 s2;
                    s4 = (if ch = 1 then s3\<lparr>d_cur_ch := -1, d_exec_depth := d_exec_depth s3 - 1\<rparr> else s3);
                    a2 = a1\<lparr>as_remaining := as_remaining a1 - moved, as_accum := as_accum a1 - moved * mdec_cost ch\<rparr>
                in if moved = 0 then s4
                   else
                     let s5 = set_madr ch addr (set_mdec_async ch a2 s4)
                     in if as_remaining a2 = 0 then finish_async_mdec_transfer e ch (as_total a2) s5 else s5)"

definition dma_cdrom_transfer_active :: "('d, 'x) dma_st \<Rightarrow> bool" where
  "dma_cdrom_transfer_active s \<longleftrightarrow>
     as_active (d_cdrom_async s) \<and> bit (chcr s 3) 24 \<and> channel_enabled 3 s \<and> \<not> bit (chcr s 3) 0"

definition cdrom_word :: "('d, 'x) dma_env \<Rightarrow> u32 \<Rightarrow> ('d, 'x) dma_st \<Rightarrow> ('d, 'x) dma_st" where
  "cdrom_word e addr s =
     (let (w, x) = cdrom_dma_read e (d_ext s);
          s1 = ram_write e addr w (s\<lparr>d_ext := x, d_cur_madr := addr\<rparr>);
          s2 = record_cdrom_dma_word w s1
      in s2\<lparr>d_mem := (d_mem s2)\<lparr>gm_code := dirty_ram_mark_executable_range (de_host e) addr 4 (gm_code (d_mem s2))\<rparr>\<rparr>)"

fun cdrom_move :: "('d, 'x) dma_env \<Rightarrow> u32 \<Rightarrow> nat \<Rightarrow> u32 \<Rightarrow> u32 \<Rightarrow> ('d, 'x) dma_st \<Rightarrow> u32 \<times> u32 \<times> ('d, 'x) dma_st" where
  "cdrom_move e step 0 addr moved s = (addr, moved, s)"
| "cdrom_move e step (Suc n) addr moved s =
     (if \<not> cdrom_dma_ready e (d_ext s) then (addr, moved, s)
      else cdrom_move e step n ((addr + step) AND 0x1FFFFC) (moved + 1) (cdrom_word e addr s))"

definition advance_cdrom :: "('d, 'x) dma_env \<Rightarrow> u32 \<Rightarrow> ('d, 'x) dma_st \<Rightarrow> ('d, 'x) dma_st" where
  "advance_cdrom e cycles s =
     (if \<not> dma_cdrom_transfer_active s then s
      else if bit (chcr s 3) 0 then clear_busy 3 (cancel_async_transfer e 3 s)
      else if \<not> cdrom_dma_ready e (d_ext s) then s
      else
        let a = d_cdrom_async s;
            a1 = a\<lparr>as_accum := accumulate (as_accum a) cycles\<rparr>;
            budget = as_accum a1 div DMA_CDROM_CYCLES_PER_WORD;
            s1 = s\<lparr>d_cdrom_async := a1, d_cur_ch := 3, d_cur_bcr := bcr s 3, d_initiator_pc := d_ch_initiator_pc s 3\<rparr>;
            (addr, moved, s2) = cdrom_move e (addr_step (chcr s 3)) (unat (min (as_remaining a1) budget)) (start_addr s 3) 0 s1
        in if moved = 0 then s2
           else
             let a2 = a1\<lparr>as_remaining := as_remaining a1 - moved, as_accum := as_accum a1 - moved * DMA_CDROM_CYCLES_PER_WORD\<rparr>;
                 s3 = set_madr 3 addr (s2\<lparr>d_cdrom_async := a2\<rparr>)
             in if as_remaining a2 = 0 then finish_async_cdrom_transfer e addr s3 else s3)"

definition dma_advance :: "('d, 'x) dma_env \<Rightarrow> u32 \<Rightarrow> ('d, 'x) dma_st \<Rightarrow> ('d, 'x) dma_st" where
  "dma_advance e cycles s =
     (if cycles = 0 then s
      else
        let s1 = s\<lparr>d_exec_depth := d_exec_depth s + 1\<rparr>;
            s2 = advance_mdec_channel e 1 cycles (advance_mdec_channel e 0 cycles s1);
            s3 = advance_cdrom e cycles s2;
            s4 = fold (\<lambda>ch. advance_delayed_complete ch cycles) [0..<7] s3
        in s4\<lparr>d_cur_ch := -1, d_exec_depth := d_exec_depth s4 - 1\<rparr>)"

section \<open>Interrupt forecasts\<close>

definition async_estimate :: "dma_async \<Rightarrow> u32" where
  "async_estimate a = (if as_remaining a > as_accum a then as_remaining a - as_accum a else 0)"

definition dma_cycles_to_irq :: "u32 \<Rightarrow> ('d, 'x) dma_st \<Rightarrow> u32" where
  "dma_cycles_to_irq i_mask s =
     (if \<not> bit i_mask 3 then 0xFFFFFFFF
      else
        let best = fold (\<lambda>a b. if \<not> as_active a \<or> as_remaining a = 0 then b else min (async_estimate a) b)
                     [d_mdec_async s 0, d_mdec_async s 1, d_cdrom_async s] 0xFFFFFFFF
        in fold (\<lambda>ch b. if dl_active (d_delayed s ch) \<and> dl_cycles (d_delayed s ch) < b then dl_cycles (d_delayed s ch) else b)
             [0..<7] best)"

definition dma_cycles_to_deliverable_irq :: "u32 \<Rightarrow> ('d, 'x) dma_st \<Rightarrow> u32" where
  "dma_cycles_to_deliverable_irq i_mask s =
     (if \<not> bit i_mask 3 then 0xFFFFFFFF
      else
        let best = fold (\<lambda>(ch, a) b. if \<not> channel_irq_flag_armed ch s \<or> \<not> as_active a \<or> as_remaining a = 0 then b
                                   else min (async_estimate a) b)
                     [(0, d_mdec_async s 0), (1, d_mdec_async s 1), (3, d_cdrom_async s)] 0xFFFFFFFF
        in fold (\<lambda>ch b. if channel_irq_flag_armed ch s \<and> dl_active (d_delayed s ch) \<and> dl_cycles (d_delayed s ch) < b
                       then dl_cycles (d_delayed s ch) else b)
             [0..<7] best)"

section \<open>Registers\<close>

definition masked :: "u32 \<Rightarrow> u32 \<Rightarrow> u32 \<Rightarrow> u32" where
  "masked m val old = (old AND NOT m) OR (val AND m)"

definition in_channel_block :: "u32 \<Rightarrow> bool" where
  "in_channel_block addr \<longleftrightarrow> addr \<ge> 0x1F801080 \<and> addr \<le> 0x1F8010EF"

definition dma_read :: "u32 \<Rightarrow> ('d, 'x) dma_st \<Rightarrow> u32 \<times> ('d, 'x) dma_st" where
  "dma_read addr s =
     (let bad = (0, s\<lparr>d_openbus_reads := d_openbus_reads s + 1\<rparr>);
          ch = unat ((addr - 0x1F801080) div 0x10); reg = (addr - 0x1F801080) mod 0x10
      in if addr = 0x1F8010F0 then (d_dpcr s, s)
         else if addr = 0x1F8010F4 then (dicr_read_value (d_dicr s), s)
         else if in_channel_block addr then
           (if ch > 6 then bad
            else if reg = 0x00 then (madr s ch, s)
            else if reg = 0x04 then (bcr s ch, s)
            else if reg = 0x08 then (chcr s ch, s)
            else if reg = 0x0C then (0, s)
            else bad)
         else bad)"

definition write_dicr :: "u32 \<Rightarrow> u32 \<Rightarrow> u32 \<Rightarrow> ('d, 'x) dma_st \<Rightarrow> ('d, 'x) dma_st" where
  "write_dicr addr val m s =
     (let d1 = masked (DICR_WRITE_MASK AND m) val (d_dicr s);
          d2 = d1 AND NOT (val AND (DICR_RESET_MASK AND m));
          s1 = raise_dma_irq_on_master_edge (d_dicr s) (s\<lparr>d_dicr := d2\<rparr>)
      in trace_dma_reg_write addr val m (d_dicr s) (i_stat (d_irq s)) s1)"

definition write_chcr :: "('d, 'x) dma_env \<Rightarrow> nat \<Rightarrow> u32 \<Rightarrow> u32 \<Rightarrow> ('d, 'x) dma_st \<Rightarrow> ('d, 'x) dma_st" where
  "write_chcr e ch val m s =
     (let s1 = set_chcr ch (masked m val (chcr s ch)) s;
          s2 = (if bit m 24 \<and> \<not> bit (chcr s1 ch) 24 then cancel_async_transfer e ch s1 else s1)
      in if bit m 24 \<and> bit (chcr s2 ch) 24 then try_execute e ch s2 else s2)"

definition dma_write_masked :: "('d, 'x) dma_env \<Rightarrow> u32 \<Rightarrow> u32 \<Rightarrow> u32 \<Rightarrow> ('d, 'x) dma_st \<Rightarrow> ('d, 'x) dma_st" where
  "dma_write_masked e addr val m s =
     (let bad = s\<lparr>d_openbus_writes := d_openbus_writes s + 1\<rparr>;
          ch = unat ((addr - 0x1F801080) div 0x10); reg = (addr - 0x1F801080) mod 0x10; c = d_ch s ch
      in if addr = 0x1F8010F0 then s\<lparr>d_dpcr := masked m val (d_dpcr s)\<rparr>
         else if addr = 0x1F8010F4 then write_dicr addr val m s
         else if in_channel_block addr then
           (if ch > 6 then bad
            else if reg = 0x00 then set_madr ch (masked m val (madr s ch)) s
            else if reg = 0x04 then s\<lparr>d_ch := (d_ch s)(ch := c\<lparr>dm_bcr := masked m val (dm_bcr c)\<rparr>)\<rparr>
            else if reg = 0x08 then write_chcr e ch val m s
            else if reg = 0x0C then s
            else bad)
         else bad)"

definition dma_write :: "('d, 'x) dma_env \<Rightarrow> u32 \<Rightarrow> u32 \<Rightarrow> ('d, 'x) dma_st \<Rightarrow> ('d, 'x) dma_st" where
  "dma_write e addr val s = dma_write_masked e addr val 0xFFFFFFFF s"

section \<open>Reset and snapshots\<close>

definition zero_dma_trace :: dma_trace_entry where
  "zero_dma_trace = \<lparr>dt_seq = 0, dt_frame = 0, dt_kind = 0, dt_channel = 0, dt_total_words = 0, dt_addr = 0,
     dt_val = 0, dt_mask = 0, dt_madr = 0, dt_bcr = 0, dt_chcr = 0, dt_dpcr = 0, dt_dicr_before = 0,
     dt_dicr_after = 0, dt_i_stat_before = 0, dt_i_stat_after = 0, dt_func = 0, dt_pc = 0\<rparr>"

definition zero_async :: dma_async where
  "zero_async = \<lparr>as_active = False, as_debug_started = False, as_total = 0, as_remaining = 0, as_accum = 0, as_start = 0\<rparr>"

definition dma_debug_clear_trace :: "('d, 'x) dma_st \<Rightarrow> ('d, 'x) dma_st" where
  "dma_debug_clear_trace s = s\<lparr>d_trace := (\<lambda>_. zero_dma_trace), d_trace_seq := 0\<rparr>"

definition dma_debug_clear_cdrom_history :: "('d, 'x) dma_st \<Rightarrow> ('d, 'x) dma_st" where
  "dma_debug_clear_cdrom_history s =
     s\<lparr>d_hist := (\<lambda>_. zero_history), d_hist_entry := zero_history, d_hist_seq := 0, d_hist_active := False\<rparr>"

definition dma_init :: "('d, 'x) dma_st \<Rightarrow> ('d, 'x) dma_st" where
  "dma_init s =
     dma_debug_clear_cdrom_history (dma_debug_clear_trace
       (s\<lparr>d_ch := (\<lambda>_. \<lparr>dm_madr = 0, dm_bcr = 0, dm_chcr = 0\<rparr>), d_mdec_async := (\<lambda>_. zero_async),
          d_cdrom_async := zero_async, d_delayed := (\<lambda>_. idle_delayed), d_dpcr := 0x07654321, d_dicr := 0\<rparr>))"

record dma_debug_channel =
  dd_madr :: u32
  dd_bcr :: u32
  dd_chcr :: u32
  dd_active :: bool
  dd_remaining :: u32
  dd_accum :: u32

definition dma_debug_get_state :: "nat \<Rightarrow> ('d, 'x) dma_st \<Rightarrow> dma_debug_channel" where
  "dma_debug_get_state i s =
     (let m = d_mdec_async s i; cd = d_cdrom_async s; d = d_delayed s i
      in \<lparr>dd_madr = madr s i, dd_bcr = bcr s i, dd_chcr = chcr s i,
          dd_active = (i < 2 \<and> as_active m \<or> i = 3 \<and> as_active cd \<or> dl_active d),
          dd_remaining = (if i < 2 \<and> as_active m then as_remaining m
                          else if i = 3 \<and> as_active cd then as_remaining cd else dl_total d),
          dd_accum = (if i < 2 \<and> as_active m then as_accum m
                      else if i = 3 \<and> as_active cd then as_accum cd else dl_cycles d)\<rparr>)"

text \<open>The boot snapshot is the tuple of the six hardware fields; the byte layout is C's.\<close>

definition dma_snapshot :: "('d, 'x) dma_st \<Rightarrow>
    (nat \<Rightarrow> dma_channel) \<times> u32 \<times> u32 \<times> (nat \<Rightarrow> dma_async) \<times> dma_async \<times> (nat \<Rightarrow> dma_delayed)" where
  "dma_snapshot s = (d_ch s, d_dpcr s, d_dicr s, d_mdec_async s, d_cdrom_async s, d_delayed s)"

definition dma_snapshot_read :: "(nat \<Rightarrow> dma_channel) \<times> u32 \<times> u32 \<times> (nat \<Rightarrow> dma_async) \<times> dma_async \<times> (nat \<Rightarrow> dma_delayed)
    \<Rightarrow> ('d, 'x) dma_st \<Rightarrow> ('d, 'x) dma_st" where
  "dma_snapshot_read p s =
     (let (c, dp, di, ma, ca, dl) = p
      in s\<lparr>d_ch := c, d_dpcr := dp, d_dicr := di, d_mdec_async := ma, d_cdrom_async := ca, d_delayed := dl\<rparr>)"

end
