(* ===== verification/Dma_Props.thy ===== *)
theory Dma_Props
  imports Dma
begin

text \<open>
  What the DMA controller of theory \<open>Dma\<close> guarantees. \<open>dma_core\<close> is the part of its state
  that moving data never touches; the first section shows that of every data-moving step.
\<close>

section \<open>Moving data leaves the controller alone\<close>

definition dma_core :: "('d, 'x) dma_st \<Rightarrow> (nat \<Rightarrow> dma_channel) \<times> (nat \<Rightarrow> dma_async) \<times> dma_async \<times>
    (nat \<Rightarrow> dma_delayed) \<times> u32 \<times> u32 \<times> irq_port \<times> bool" where
  "dma_core s = (d_ch s, d_mdec_async s, d_cdrom_async s, d_delayed s, d_dpcr s, d_dicr s, d_irq s, d_halted s)"

lemma core_eq_iff: "dma_core s = dma_core t \<longleftrightarrow> d_ch s = d_ch t \<and> d_mdec_async s = d_mdec_async t \<and>
    d_cdrom_async s = d_cdrom_async t \<and> d_delayed s = d_delayed t \<and> d_dpcr s = d_dpcr t \<and> d_dicr s = d_dicr t \<and>
    d_irq s = d_irq t \<and> d_halted s = d_halted t"
  by (simp add: dma_core_def)

lemma core_ram_write [simp]: "dma_core (ram_write e a v s) = dma_core s"
  by (simp add: ram_write_def dma_core_def)

lemma core_ram_read [simp]: "dma_core (snd (ram_read e a s)) = dma_core s"
  by (simp add: ram_read_def dma_core_def split: prod.split)

lemma core_on_mdec [simp]: "dma_core (on_mdec f s) = dma_core s"
  by (simp add: on_mdec_def dma_core_def)

lemma core_put [simp]:
  "dma_core (s\<lparr>d_ext := x\<rparr>) = dma_core s" "dma_core (s\<lparr>d_spu := sp\<rparr>) = dma_core s" "dma_core (s\<lparr>d_mdec := md\<rparr>) = dma_core s"
  "dma_core (s\<lparr>d_mem := m\<rparr>) = dma_core s" "dma_core (s\<lparr>d_cur_madr := v\<rparr>) = dma_core s"
  "dma_core (s\<lparr>d_audio_log := al\<rparr>) = dma_core s" "dma_core (s\<lparr>d_hist_entry := h\<rparr>) = dma_core s"
  "dma_core (s\<lparr>d_ext := x, d_cur_madr := v\<rparr>) = dma_core s"
  by (simp_all add: dma_core_def)

lemma core_words [simp]:
  "dma_core (gpu_word e a s) = dma_core s" "dma_core (gpuread_word e a s) = dma_core s" "dma_core (spu_word e a s) = dma_core s"
  "dma_core (mdec_in_word e a s) = dma_core s" "dma_core (mdec_out_word e a s) = dma_core s"
  by (simp_all add: gpu_word_def gpuread_word_def spu_word_def mdec_in_word_def mdec_out_word_def Let_def case_prod_beta)

lemma core_cdrom_word [simp]: "dma_core (cdrom_word e a s) = dma_core s"
  by (simp add: cdrom_word_def record_cdrom_dma_word_def Let_def case_prod_beta)

lemma transfer_loop_keeps:
  "(\<And>a s. f (body a s) = f s) \<Longrightarrow> f (snd (transfer_loop body step n a s)) = f s"
  by (induction n arbitrary: a s) simp_all

lemma core_transfer [simp]:
  "dma_core (snd (transfer_loop (gpu_word e) step n a s)) = dma_core s"
  "dma_core (snd (transfer_loop (gpuread_word e) step n a s)) = dma_core s"
  "dma_core (snd (transfer_loop (spu_word e) step n a s)) = dma_core s"
  "dma_core (snd (transfer_loop (\<lambda>a. ram_write e a v) step n a s)) = dma_core s"
  by (simp_all add: transfer_loop_keeps)

lemma core_otc [simp]: "dma_core (otc_loop e n a s) = dma_core s"
  by (induction n arbitrary: a s) simp_all

lemma mdec_move_keeps:
  "mdec_move e ch step n a mv s = (a', mv', s') \<Longrightarrow> dma_core s' = dma_core s \<and> unat mv' \<le> unat mv + n"
proof (induction n arbitrary: a mv s)
  case (Suc n)
  show ?case
  proof (cases "mdec_ready ch s")
    case True
    then have "dma_core s' = dma_core s \<and> unat mv' \<le> unat (mv + 1) + n"
      using Suc.IH Suc.prems by (fastforce split: if_splits)
    moreover have "unat (mv + 1) \<le> unat mv + 1" by (simp add: unat_word_ariths)
    ultimately show ?thesis by linarith
  qed (use Suc.prems in simp)
qed simp

lemma cdrom_move_keeps:
  "cdrom_move e step n a mv s = (a', mv', s') \<Longrightarrow> dma_core s' = dma_core s \<and> unat mv' \<le> unat mv + n"
proof (induction n arbitrary: a mv s)
  case (Suc n)
  show ?case
  proof (cases "cdrom_dma_ready e (d_ext s)")
    case True
    then have "dma_core s' = dma_core s \<and> unat mv' \<le> unat (mv + 1) + n"
      using Suc.IH Suc.prems by fastforce
    moreover have "unat (mv + 1) \<le> unat mv + 1" by (simp add: unat_word_ariths)
    ultimately show ?thesis by linarith
  qed (use Suc.prems in simp)
qed simp

section \<open>The interrupt line\<close>

abbreviation master :: "('d, 'x) dma_st \<Rightarrow> bool" where "master s \<equiv> dicr_master_flag (d_dicr s) \<noteq> 0"
abbreviation stat :: "('d, 'x) dma_st \<Rightarrow> u32" where "stat s \<equiv> i_stat (d_irq s)"

definition edge_step :: "('d, 'x) dma_st \<Rightarrow> ('d, 'x) dma_st \<Rightarrow> bool" where
  "edge_step s t \<longleftrightarrow> stat t = stat s OR (if \<not> master s \<and> master t then push_bit 3 1 else 0)"

definition edge_mono :: "('d, 'x) dma_st \<Rightarrow> ('d, 'x) dma_st \<Rightarrow> bool" where
  "edge_mono s t \<longleftrightarrow> edge_step s t \<and> (master s \<longrightarrow> master t)"

lemma edge_mono_trans: "edge_mono s t \<Longrightarrow> edge_mono t u \<Longrightarrow> edge_mono s u"
  by (auto simp: edge_mono_def edge_step_def or.assoc)

lemma edge_mono_same: "d_dicr t = d_dicr s \<Longrightarrow> stat t = stat s \<Longrightarrow> edge_mono s t"
  by (simp add: edge_mono_def edge_step_def)

lemma edge_mono_core: "dma_core t = dma_core s \<Longrightarrow> edge_mono s t"
  by (simp add: edge_mono_same core_eq_iff)

lemma edge_mono_refl [simp]: "edge_mono s s"
  by (simp add: edge_mono_same)

lemma master_or: "dicr_master_flag v \<noteq> 0 \<Longrightarrow> dicr_master_flag (v OR push_bit (24 + ch) 1) \<noteq> 0"
  by (auto simp: dicr_master_flag_def bit_or_iff split: if_splits)

lemma set_reg_sel [simp]:
  "d_dicr (set_madr ch v s) = d_dicr s" "d_irq (set_madr ch v s) = d_irq s"
  "d_dicr (set_chcr ch v s) = d_dicr s" "d_irq (set_chcr ch v s) = d_irq s"
  "d_dicr (clear_busy ch s) = d_dicr s" "d_irq (clear_busy ch s) = d_irq s"
  "d_delayed (set_madr ch v s) = d_delayed s" "d_delayed (set_chcr ch v s) = d_delayed s" "d_delayed (clear_busy ch s) = d_delayed s"
  "d_mdec_async (set_madr ch v s) = d_mdec_async s" "d_mdec_async (set_chcr ch v s) = d_mdec_async s" "d_mdec_async (clear_busy ch s) = d_mdec_async s"
  "d_cdrom_async (set_madr ch v s) = d_cdrom_async s" "d_cdrom_async (set_chcr ch v s) = d_cdrom_async s" "d_cdrom_async (clear_busy ch s) = d_cdrom_async s"
  "chcr (set_madr ch v s) k = chcr s k" "chcr (set_chcr ch v s) k = (if k = ch then v else chcr s k)"
  "d_halted (set_madr ch v s) = d_halted s" "d_halted (set_chcr ch v s) = d_halted s" "d_halted (clear_busy ch s) = d_halted s"
  by (simp_all add: set_madr_def set_chcr_def clear_busy_def)

lemma ring_event_sel [simp]:
  "d_dicr (ring_event k d x s) = d_dicr s" "stat (ring_event k d x s) = stat s" "d_ch (ring_event k d x s) = d_ch s"
  "d_delayed (ring_event k d x s) = d_delayed s" "d_mdec_async (ring_event k d x s) = d_mdec_async s"
  "d_cdrom_async (ring_event k d x s) = d_cdrom_async s" "d_halted (ring_event k d x s) = d_halted s"
  by (simp_all add: ring_event_def)

lemma trace_put_sel [simp]:
  "d_dicr (trace_put en s) = d_dicr s" "d_irq (trace_put en s) = d_irq s" "d_ch (trace_put en s) = d_ch s"
  "d_delayed (trace_put en s) = d_delayed s" "d_mdec_async (trace_put en s) = d_mdec_async s"
  "d_cdrom_async (trace_put en s) = d_cdrom_async s" "d_halted (trace_put en s) = d_halted s"
  by (simp_all add: trace_put_def)

lemma trace_dma_sel [simp]:
  "d_dicr (trace_dma k ch n a b s) = d_dicr s" "d_irq (trace_dma k ch n a b s) = d_irq s" "d_ch (trace_dma k ch n a b s) = d_ch s"
  "d_delayed (trace_dma k ch n a b s) = d_delayed s" "d_mdec_async (trace_dma k ch n a b s) = d_mdec_async s"
  "d_cdrom_async (trace_dma k ch n a b s) = d_cdrom_async s" "d_halted (trace_dma k ch n a b s) = d_halted s"
  by (simp_all add: trace_dma_def)

lemma capture_sel [simp]:
  "dma_core (start_cdrom_dma_capture e n s) = dma_core s" "dma_core (finish_cdrom_dma_capture e a c s) = dma_core s"
  "dma_core (cd_dma_log_push l d z s) = dma_core s"
  by (simp_all add: start_cdrom_dma_capture_def finish_cdrom_dma_capture_def cd_dma_log_push_def Let_def dma_core_def)

lemma capture_fields [simp]:
  "d_ch (finish_cdrom_dma_capture e a c s) = d_ch s" "d_mdec_async (finish_cdrom_dma_capture e a c s) = d_mdec_async s"
  "d_cdrom_async (finish_cdrom_dma_capture e a c s) = d_cdrom_async s" "d_delayed (finish_cdrom_dma_capture e a c s) = d_delayed s"
  "d_dicr (finish_cdrom_dma_capture e a c s) = d_dicr s" "d_irq (finish_cdrom_dma_capture e a c s) = d_irq s"
  "d_halted (finish_cdrom_dma_capture e a c s) = d_halted s"
  by (simp_all add: finish_cdrom_dma_capture_def Let_def)

lemma cancel_sel [simp]:
  "d_dicr (cancel_async_transfer e ch s) = d_dicr s" "d_irq (cancel_async_transfer e ch s) = d_irq s"
  "d_ch (cancel_async_transfer e ch s) = d_ch s" "d_halted (cancel_async_transfer e ch s) = d_halted s"
  "d_mdec_async (cancel_async_transfer e ch s) k = (if k = ch \<and> ch < 2 then idle_async (d_mdec_async s ch) else d_mdec_async s k)"
  "d_cdrom_async (cancel_async_transfer e ch s) = (if ch = 3 then idle_async (d_cdrom_async s) else d_cdrom_async s)"
  "d_delayed (cancel_async_transfer e ch s) k = (if k = ch \<and> ch < 7 then idle_delayed else d_delayed s k)"
  by (simp_all add: cancel_async_transfer_def Let_def)

lemma raise_edge: "edge_step (s\<lparr>d_dicr := b\<rparr>) (raise_dma_irq_on_master_edge b s)"
  by (auto simp: edge_step_def raise_dma_irq_on_master_edge_def)

lemma raise_edge_sel [simp]:
  "d_dicr (raise_dma_irq_on_master_edge b s) = d_dicr s" "d_ch (raise_dma_irq_on_master_edge b s) = d_ch s"
  "d_delayed (raise_dma_irq_on_master_edge b s) = d_delayed s" "d_mdec_async (raise_dma_irq_on_master_edge b s) = d_mdec_async s"
  "d_cdrom_async (raise_dma_irq_on_master_edge b s) = d_cdrom_async s" "d_halted (raise_dma_irq_on_master_edge b s) = d_halted s"
  by (simp_all add: raise_dma_irq_on_master_edge_def)

lemma complete_edge: "edge_mono s (complete_transfer ch s)"
  using master_or [of "d_dicr s" ch]
  by (auto simp: edge_mono_def edge_step_def complete_transfer_def Let_def raise_dma_irq_on_master_edge_def)

lemma complete_sel [simp]:
  "d_delayed (complete_transfer ch s) = d_delayed s" "d_mdec_async (complete_transfer ch s) = d_mdec_async s"
  "d_cdrom_async (complete_transfer ch s) = d_cdrom_async s" "d_halted (complete_transfer ch s) = d_halted s"
  "chcr (complete_transfer ch s) k = (if k = ch then chcr s ch AND NOT 0x11000000 else chcr s k)"
  by (simp_all add: complete_transfer_def Let_def clear_busy_def)

lemma cancel_edge: "edge_mono s (cancel_async_transfer e ch s)"
  by (rule edge_mono_same) simp_all

lemma delayed_edge: "edge_mono s (advance_delayed_complete ch c s)"
proof -
  have "edge_mono s (s\<lparr>d_delayed := d\<rparr>)" for d by (rule edge_mono_same) simp_all
  note d = this
  show ?thesis
    using d edge_mono_trans [OF d complete_edge] by (simp add: advance_delayed_complete_def Let_def)
qed

lemma schedule_edge: "edge_mono s (schedule_delayed_complete ch n k s)"
  using complete_edge by (auto simp: schedule_delayed_complete_def Let_def intro: edge_mono_same)

lemma finish_edge: "dma_core t = dma_core s \<Longrightarrow> edge_mono s (complete_transfer ch (cancel_async_transfer e ch t))"
  by (rule edge_mono_trans [OF edge_mono_core edge_mono_trans [OF cancel_edge complete_edge]])

lemma finish_mdec_edge: "edge_mono s (finish_async_mdec_transfer e ch n s)"
  unfolding finish_async_mdec_transfer_def by (rule finish_edge) simp

lemma finish_cdrom_edge: "edge_mono s (finish_async_cdrom_transfer e a s)"
proof -
  have *: "edge_mono s (complete_transfer 3 (cancel_async_transfer e 3 (set_madr 3 a t)))" if t: "dma_core t = dma_core s" for t
  proof -
    have "edge_mono s (set_madr 3 a t)" using t by (intro edge_mono_same) (simp_all add: core_eq_iff)
    then show ?thesis by (rule edge_mono_trans) (rule finish_edge, simp)
  qed
  show ?thesis
    unfolding finish_async_cdrom_transfer_def Let_def by (rule *) simp
qed

lemma start_mdec_edge: "edge_mono s (start_async_mdec_transfer e ch s)"
  by (auto simp: start_async_mdec_transfer_def Let_def on_mdec_def intro: edge_mono_same)

lemma start_cdrom_edge: "edge_mono s (start_async_cdrom_transfer e s)"
proof -
  have a: "edge_mono s (start_cdrom_dma_capture e n (s\<lparr>d_cdrom_async := x\<rparr>))" for n x
    by (rule edge_mono_same) (simp_all add: start_cdrom_dma_capture_def Let_def)
  have "edge_mono t (complete_transfer 3 (cancel_async_transfer e 3 (finish_cdrom_dma_capture e m True t)))" for t m
    by (rule finish_edge) simp
  note b = edge_mono_trans [OF a this]
  show ?thesis
    unfolding start_async_cdrom_transfer_def Let_def using a b by (auto split: if_splits)
qed

definition quiet_step :: "('d, 'x) dma_st \<Rightarrow> ('d, 'x) dma_st \<Rightarrow> bool" where
  "quiet_step s t \<longleftrightarrow> (\<forall>k. chcr t k = chcr s k \<and> bcr t k = bcr s k) \<and> d_mdec_async t = d_mdec_async s \<and>
     d_cdrom_async t = d_cdrom_async s \<and> d_delayed t = d_delayed s \<and> d_dpcr t = d_dpcr s \<and> d_dicr t = d_dicr s \<and>
     d_irq t = d_irq s \<and> d_halted t = d_halted s"

lemma quiet_step_trans: "quiet_step s t \<Longrightarrow> quiet_step t u \<Longrightarrow> quiet_step s u"
  by (simp add: quiet_step_def)

lemma quiet_core: "dma_core t = dma_core s \<Longrightarrow> quiet_step s t"
  by (simp add: quiet_step_def core_eq_iff)

lemma quiet_madr: "quiet_step s t \<Longrightarrow> quiet_step s (set_madr ch v t)"
  by (simp add: quiet_step_def set_madr_def)

lemma quiet_edge: "quiet_step s t \<Longrightarrow> edge_mono s t"
  by (simp add: quiet_step_def edge_mono_same)

lemma quiet_list_walk: "quiet_step s (snd (list_walk e n a w s))"
proof (induction n arbitrary: a w s)
  case 0
  show ?case using quiet_madr [OF quiet_core [OF refl]] by simp
next
  case (Suc n)
  define hr where "hr = ram_read e a s"
  define s2 where "s2 = snd (transfer_loop (gpu_word e) 4 (unat (drop_bit 24 (fst hr) AND 0xFF)) ((a + 4) AND 0x1FFFFC) (snd hr))"
  have q: "quiet_step s s2" by (rule quiet_core) (simp add: s2_def hr_def)
  show ?case
    using quiet_madr [OF q] quiet_step_trans [OF q Suc.IH] by (simp add: Let_def case_prod_beta s2_def hr_def)
qed

lemma quiet_ch2: "quiet_step s (snd (execute_ch2_gpu e s))"
proof -
  have l: "quiet_step s (set_madr 2 a (snd (transfer_loop (gpu_word e) st n b s)))"
    "quiet_step s (set_madr 2 a (snd (transfer_loop (gpuread_word e) st n b s)))" for st n b a
    by (rule quiet_madr, rule quiet_core, simp)+
  have "quiet_step s (snd (list_walk e n b w (s\<lparr>d_ext := x\<rparr>)))" for n b w x
    by (rule quiet_step_trans [OF quiet_core quiet_list_walk]) simp
  then show ?thesis
    using l quiet_core [of s s] by (simp add: execute_ch2_gpu_def Let_def case_prod_beta)
qed

lemma quiet_ch4: "quiet_step s (snd (execute_ch4_spu e s))"
proof -
  have "quiet_step s (set_madr 4 a (snd (transfer_loop (\<lambda>a. ram_write e a v) st n b s)))"
    "quiet_step s (set_madr 4 a ((snd (transfer_loop (spu_word e) st n b s))\<lparr>d_audio_log := al\<rparr>))" for st n b a v al
    by (rule quiet_madr, rule quiet_core, simp)+
  then show ?thesis by (simp add: execute_ch4_spu_def Let_def case_prod_beta)
qed

lemma halt_edge: "edge_mono s (s\<lparr>d_halted := h\<rparr>)"
  by (rule edge_mono_same) simp_all

lemma busy_edge: "edge_mono s (clear_busy ch s)"
  by (rule edge_mono_same) simp_all

lemma run_channel_edge: "edge_mono s (run_channel e ch s)"
proof -
  have "edge_mono s (schedule_delayed_complete k n c (snd (execute_ch2_gpu e s)))"
    "edge_mono s (schedule_delayed_complete k n c (snd (execute_ch4_spu e s)))" for k n c
    by (rule edge_mono_trans [OF quiet_edge [OF quiet_ch2] schedule_edge] edge_mono_trans [OF quiet_edge [OF quiet_ch4] schedule_edge])+
  moreover have "edge_mono s (execute_ch3_cdrom e s)"
    by (simp add: execute_ch3_cdrom_def busy_edge start_cdrom_edge)
  moreover have "edge_mono s (execute_ch6_otc e s)"
    unfolding execute_ch6_otc_def Let_def by (rule edge_mono_trans [OF edge_mono_core complete_edge]) simp
  ultimately show ?thesis
    by (simp add: run_channel_def case_prod_beta start_mdec_edge halt_edge)
qed

lemma validate_sel [simp]:
  "d_dicr (validate_transfer_length e ch s) = d_dicr s" "d_irq (validate_transfer_length e ch s) = d_irq s"
  by (simp_all add: validate_transfer_length_def)

lemma kick_sel [simp]:
  "d_dicr (announce_kick e ch s) = d_dicr s" "stat (announce_kick e ch s) = stat s" "d_halted (announce_kick e ch s) = d_halted s"
  "dma_core (begin_kick ch s) = dma_core s" "dma_core (end_kick s) = dma_core s"
  by (simp_all add: announce_kick_def begin_kick_def end_kick_def Let_def dma_core_def)

lemma kick_edge: "edge_mono s (end_kick (run_channel e ch (begin_kick ch s)))" "edge_mono s (run_channel e ch (begin_kick ch s))"
proof -
  show r: "edge_mono s (run_channel e ch (begin_kick ch s))"
    by (rule edge_mono_trans [OF edge_mono_core run_channel_edge]) simp
  show "edge_mono s (end_kick (run_channel e ch (begin_kick ch s)))"
    by (rule edge_mono_trans [OF r edge_mono_core]) simp
qed

lemma try_execute_edge: "edge_mono s (try_execute e ch s)"
proof -
  have v: "edge_mono s (validate_transfer_length e ch (announce_kick e ch s))" by (rule edge_mono_same) simp_all
  show ?thesis
    using v edge_mono_trans [OF v kick_edge(1)] edge_mono_trans [OF v kick_edge(2)] by (simp add: try_execute_def Let_def)
qed

lemma write_chcr_edge: "edge_mono s (write_chcr e ch val m s)"
proof -
  have a: "edge_mono s (set_chcr ch v s)" for v by (rule edge_mono_same) simp_all
  note b = edge_mono_trans [OF a cancel_edge]
  show ?thesis
    unfolding write_chcr_def Let_def using a b edge_mono_trans [OF a try_execute_edge] edge_mono_trans [OF b try_execute_edge] by simp
qed

lemma write_dicr_edge: "edge_step s (write_dicr addr val m s)"
  by (auto simp: write_dicr_def Let_def edge_step_def trace_dma_reg_write_def raise_dma_irq_on_master_edge_def)

lemma write_edge: "edge_step s (dma_write_masked e addr val m s)"
proof -
  have "edge_mono s (s\<lparr>d_openbus_writes := w\<rparr>)" "edge_mono s (s\<lparr>d_dpcr := v\<rparr>)" "edge_mono s (set_madr k v s)"
    "edge_mono s (s\<lparr>d_ch := c\<rparr>)" for w v k c
    by (rule edge_mono_same; simp)+
  then have o: "edge_step s (s\<lparr>d_openbus_writes := w\<rparr>)" "edge_step s (s\<lparr>d_dpcr := v\<rparr>)" "edge_step s (set_madr k v s)"
    "edge_step s (s\<lparr>d_ch := c\<rparr>)" for w v k c
    by (simp_all add: edge_mono_def)
  have r: "edge_step s s" by (simp add: edge_step_def)
  have "edge_step s (write_chcr e k val m s)" for k using write_chcr_edge [of s e k val m] by (simp add: edge_mono_def)
  then show ?thesis
    by (simp add: dma_write_masked_def Let_def o r write_dicr_edge)
qed

lemma async_edge: "edge_mono s (set_mdec_async ch a s)"
  by (rule edge_mono_same) (simp_all add: set_mdec_async_def)

text \<open>The tail of \<open>advance_mdec_channel\<close> once the words have moved.\<close>

lemma advance_mdec_edge: "edge_mono s (advance_mdec_channel e ch c s)"
proof -
  define a where "a = d_mdec_async s ch"
  define a1 where "a1 = a\<lparr>as_accum := accumulate (as_accum a) c\<rparr>"
  define budget where "budget = as_accum a1 div mdec_cost ch"
  define s1 where "s1 = set_mdec_async ch a1 s"
  define s2 where "s2 = (if ch = 1 then s1\<lparr>d_exec_depth := d_exec_depth s1 + 1, d_cur_ch := 1, d_cur_bcr := bcr s1 1,
                                           d_initiator_pc := d_ch_initiator_pc s1 1\<rparr> else s1)"
  obtain addr moved s3 where mv: "mdec_move e ch (addr_step (chcr s ch)) (unat (min (as_remaining a1) budget)) (start_addr s2 ch) 0 s2 = (addr, moved, s3)"
    by (metis prod.exhaust)
  define s4 where "s4 = (if ch = 1 then s3\<lparr>d_cur_ch := -1, d_exec_depth := d_exec_depth s3 - 1\<rparr> else s3)"
  define a2 where "a2 = a1\<lparr>as_remaining := as_remaining a1 - moved, as_accum := as_accum a1 - moved * mdec_cost ch\<rparr>"
  have e1: "edge_mono s s1" unfolding s1_def by (rule async_edge)
  have "dma_core s3 = dma_core s2" using mdec_move_keeps [OF mv] by blast
  then have "edge_mono s1 s4" by (intro edge_mono_same) (auto simp: s2_def s4_def core_eq_iff)
  then have e4: "edge_mono s s4" using e1 edge_mono_trans by blast
  then have e5: "edge_mono s (set_madr ch addr (set_mdec_async ch a2 s4))"
    by (rule edge_mono_trans) (rule edge_mono_same; simp add: set_mdec_async_def)
  show ?thesis
    unfolding advance_mdec_channel_def a_def [symmetric] a1_def [symmetric] Let_def s1_def [symmetric] budget_def [symmetric] s2_def [symmetric]
      mv prod.case s4_def [symmetric] a2_def [symmetric]
    by (simp add: e1 e4 e5 edge_mono_trans [OF e5 finish_mdec_edge] finish_mdec_edge)
qed

lemma advance_cdrom_edge: "edge_mono s (advance_cdrom e c s)"
proof -
  define a1 where "a1 = (d_cdrom_async s)\<lparr>as_accum := accumulate (as_accum (d_cdrom_async s)) c\<rparr>"
  define s1 where "s1 = s\<lparr>d_cdrom_async := a1, d_cur_ch := 3, d_cur_bcr := bcr s 3, d_initiator_pc := d_ch_initiator_pc s 3\<rparr>"
  obtain addr moved s2 where mv: "cdrom_move e (addr_step (chcr s 3)) (unat (min (as_remaining a1) (as_accum a1 div DMA_CDROM_CYCLES_PER_WORD)))
      (start_addr s 3) 0 s1 = (addr, moved, s2)"
    by (metis prod.exhaust)
  define a2 where "a2 = a1\<lparr>as_remaining := as_remaining a1 - moved, as_accum := as_accum a1 - moved * DMA_CDROM_CYCLES_PER_WORD\<rparr>"
  have "dma_core s2 = dma_core s1" using cdrom_move_keeps [OF mv] by blast
  then have e2: "edge_mono s s2" by (intro edge_mono_same) (auto simp: s1_def core_eq_iff)
  then have e3: "edge_mono s (set_madr 3 addr (s2\<lparr>d_cdrom_async := a2\<rparr>))"
    by (rule edge_mono_trans) (rule edge_mono_same; simp)
  have x: "edge_mono s (clear_busy 3 (cancel_async_transfer e 3 s))" by (rule edge_mono_trans [OF cancel_edge busy_edge])
  show ?thesis
    unfolding advance_cdrom_def Let_def a1_def [symmetric] s1_def [symmetric] mv prod.case a2_def [symmetric]
    by (simp add: e2 e3 x edge_mono_trans [OF e3 finish_cdrom_edge])
qed

lemma delayed_fold_edge: "edge_mono s (fold (\<lambda>ch. advance_delayed_complete ch c) chs s)"
proof (induction chs arbitrary: s)
  case (Cons k chs)
  then show ?case using edge_mono_trans [OF delayed_edge Cons.IH] by simp
qed simp

lemma advance_edge: "edge_mono s (dma_advance e c s)"
proof -
  have d: "edge_mono t (t\<lparr>d_cur_ch := k, d_exec_depth := n\<rparr>)" "edge_mono t (t\<lparr>d_exec_depth := n\<rparr>)" for t :: "('a, 'b) dma_st" and k n
    by (rule edge_mono_same; simp)+
  show ?thesis
    unfolding dma_advance_def Let_def
    using edge_mono_trans [OF d(2) edge_mono_trans [OF advance_mdec_edge edge_mono_trans [OF advance_mdec_edge
            edge_mono_trans [OF advance_cdrom_edge edge_mono_trans [OF delayed_fold_edge d(1)]]]]]
    by (simp del: upt_rec_numeral)
qed

text \<open>C13: The DMA interrupt is edge triggered: whatever an access to a DMA register or an
  advance of the cycle clock does, \<open>I_STAT\<close> changes by gaining bit 3 exactly when the master
  flag of DICR goes from 0 to 1, and not at all otherwise. Pending flags do not raise it again.\<close>

theorem dma_irq3_edge:
  "(let t = dma_write_masked e addr val m s
    in stat t = stat s OR (if dicr_master_flag (d_dicr s) = 0 \<and> dicr_master_flag (d_dicr t) \<noteq> 0 then 8 else 0)) \<and>
   (let t = dma_advance e c s
    in stat t = stat s OR (if dicr_master_flag (d_dicr s) = 0 \<and> dicr_master_flag (d_dicr t) \<noteq> 0 then 8 else 0))"
  using write_edge [of s e addr val m] advance_edge [of s e c] by (simp add: edge_mono_def edge_step_def Let_def)

section \<open>Advancing\<close>

text \<open>Everything but the running transfer of one asynchronous channel is the same.\<close>

definition same_but :: "nat \<Rightarrow> ('d, 'x) dma_st \<Rightarrow> ('d, 'x) dma_st \<Rightarrow> bool" where
  "same_but ch s t \<longleftrightarrow> d_dicr t = d_dicr s \<and> stat t = stat s \<and> d_delayed t = d_delayed s \<and> d_dpcr t = d_dpcr s \<and>
     (\<forall>k. chcr t k = chcr s k) \<and> (\<forall>k. k \<noteq> ch \<longrightarrow> d_mdec_async t k = d_mdec_async s k) \<and>
     (ch \<noteq> 3 \<longrightarrow> d_cdrom_async t = d_cdrom_async s) \<and>
     (ch < 2 \<longrightarrow> as_active (d_mdec_async t ch) = as_active (d_mdec_async s ch))"

lemma set_dpcr [simp]: "d_dpcr (set_madr ch v s) = d_dpcr s" "d_dpcr (set_chcr ch v s) = d_dpcr s" "d_dpcr (clear_busy ch s) = d_dpcr s"
  by (simp_all add: set_madr_def set_chcr_def clear_busy_def)

lemma same_but_refl [simp]: "same_but ch s s"
  by (simp add: same_but_def)

lemma same_but_core: "dma_core t = dma_core s \<Longrightarrow> same_but ch s t"
  by (simp add: same_but_def core_eq_iff)

definition wrong_way :: "nat \<Rightarrow> ('d, 'x) dma_st \<Rightarrow> bool" where
  "wrong_way ch s \<longleftrightarrow> ch = 0 \<and> \<not> bit (chcr s ch) 0 \<or> ch = 1 \<and> bit (chcr s ch) 0"

lemma unat_div_le: "unat (a div b) \<le> unat (a :: u32)"
  by (simp add: unat_div div_le_dividend)

lemma not_done:
  assumes "unat moved \<le> unat (min (as_remaining a) (accumulate (as_accum a) c div k))" "as_remaining a - moved = 0" "moved \<noteq> 0"
  shows "async_estimate a \<le> c \<and> as_remaining a \<noteq> 0"
proof -
  have eq: "moved = as_remaining a" using assms(2) by simp
  have "unat (as_remaining a) \<le> unat (accumulate (as_accum a) c div k)"
    using assms(1) unfolding eq min_def by (auto simp: word_le_nat_alt split: if_splits)
  then have le: "unat (as_remaining a) \<le> unat (accumulate (as_accum a) c)"
    using unat_div_le le_trans by blast
  have "async_estimate a \<le> c"
  proof (cases "as_remaining a > as_accum a")
    case True
    have "unat (0xFFFFFFFF - x) = 4294967295 - unat x" for x :: u32
      using unat_sub_u32 [of x "0xFFFFFFFF"] unat_u32_less [of x] by (simp add: word_le_nat_alt)
    then have "unat (accumulate (as_accum a) c) \<le> unat (as_accum a) + unat c"
      unfolding accumulate_def by (auto simp: unat_word_ariths word_less_nat_alt)
    then show ?thesis
      using le True unat_sub_u32 [OF less_imp_le [OF True]] by (simp add: async_estimate_def word_le_nat_alt)
  qed (simp add: async_estimate_def)
  then show ?thesis using eq assms(3) by simp
qed

lemma advance_mdec_cases:
  assumes "ch < 2"
  obtains (quiet) "same_but ch s (advance_mdec_channel e ch c s)"
    | (finish) u n where "advance_mdec_channel e ch c s = finish_async_mdec_transfer e ch n u" "same_but ch s u"
        "as_active (d_mdec_async s ch)" "wrong_way ch s \<or> async_estimate (d_mdec_async s ch) \<le> c \<and> as_remaining (d_mdec_async s ch) \<noteq> 0"
proof -
  define a where "a = d_mdec_async s ch"
  define a1 where "a1 = a\<lparr>as_accum := accumulate (as_accum a) c\<rparr>"
  define budget where "budget = as_accum a1 div mdec_cost ch"
  define s1 where "s1 = set_mdec_async ch a1 s"
  define s2 where "s2 = (if ch = 1 then s1\<lparr>d_exec_depth := d_exec_depth s1 + 1, d_cur_ch := 1, d_cur_bcr := bcr s1 1,
                                           d_initiator_pc := d_ch_initiator_pc s1 1\<rparr> else s1)"
  obtain addr moved s3 where mv: "mdec_move e ch (addr_step (chcr s ch)) (unat (min (as_remaining a1) budget)) (start_addr s2 ch) 0 s2 = (addr, moved, s3)"
    by (metis prod.exhaust)
  define s4 where "s4 = (if ch = 1 then s3\<lparr>d_cur_ch := -1, d_exec_depth := d_exec_depth s3 - 1\<rparr> else s3)"
  define a2 where "a2 = a1\<lparr>as_remaining := as_remaining a1 - moved, as_accum := as_accum a1 - moved * mdec_cost ch\<rparr>"
  define s5 where "s5 = set_madr ch addr (set_mdec_async ch a2 s4)"
  have q1: "same_but ch s s1" using assms by (simp add: same_but_def s1_def a1_def a_def set_mdec_async_def)
  have c3: "dma_core s3 = dma_core s2" using mdec_move_keeps [OF mv] by blast
  then have c4: "dma_core s4 = dma_core s1" by (auto simp: s2_def s4_def core_eq_iff)
  then have q4: "same_but ch s s4" using q1 by (simp add: same_but_def core_eq_iff)
  have q5: "same_but ch s s5"
    using q4 assms by (simp add: same_but_def s5_def set_mdec_async_def a2_def a1_def a_def)
  have over: "async_estimate a \<le> c \<and> as_remaining a \<noteq> 0" if "as_remaining a2 = 0" "moved \<noteq> 0"
    using mdec_move_keeps [OF mv] that not_done [of moved a c "mdec_cost ch"] by (simp add: a2_def a1_def budget_def)
  have t: "advance_mdec_channel e ch c s = (if \<not> as_active a then s
         else if \<not> bit (chcr s ch) 24 \<or> \<not> channel_enabled ch s then s
         else if wrong_way ch s then finish_async_mdec_transfer e ch (as_total a) s
         else if \<not> mdec_ready ch s then s
         else if budget = 0 then s1 else if moved = 0 then s4
         else if as_remaining a2 = 0 then finish_async_mdec_transfer e ch (as_total a2) s5 else s5)"
    unfolding advance_mdec_channel_def wrong_way_def a_def [symmetric] a1_def [symmetric] Let_def s1_def [symmetric]
      budget_def [symmetric] s2_def [symmetric] mv prod.case s4_def [symmetric] a2_def [symmetric] s5_def [symmetric] by (rule refl)
  show thesis
  proof (cases "as_active a \<and> bit (chcr s ch) 24 \<and> channel_enabled ch s")
    case False
    then show ?thesis using quiet t by auto
  next
    case act: True
    show ?thesis
    proof (cases "wrong_way ch s")
      case True
      then show ?thesis using finish [of "as_total a" s] t act by (simp add: a_def)
    next
      case right: False
      show ?thesis
      proof (cases "mdec_ready ch s \<and> budget \<noteq> 0 \<and> moved \<noteq> 0 \<and> as_remaining a2 = 0")
        case True
        then have "advance_mdec_channel e ch c s = finish_async_mdec_transfer e ch (as_total a2) s5"
          using t act right by simp
        then show ?thesis using finish [OF _ q5] True over act by (simp add: a_def)
      next
        case False
        then have "advance_mdec_channel e ch c s \<in> {s, s1, s4, s5}" using t act right by auto
        then show ?thesis using quiet q1 q4 q5 by auto
      qed
    qed
  qed
qed


lemma advance_cdrom_cases:
  obtains (quiet) "same_but 3 s (advance_cdrom e c s)"
      "as_active (d_cdrom_async (advance_cdrom e c s)) = as_active (d_cdrom_async s)"
    | (finish) u a where "advance_cdrom e c s = finish_async_cdrom_transfer e a u" "same_but 3 s u"
        "as_active (d_cdrom_async s)" "async_estimate (d_cdrom_async s) \<le> c" "as_remaining (d_cdrom_async s) \<noteq> 0"
proof -
  define a where "a = d_cdrom_async s"
  define a1 where "a1 = a\<lparr>as_accum := accumulate (as_accum a) c\<rparr>"
  define s1 where "s1 = s\<lparr>d_cdrom_async := a1, d_cur_ch := 3, d_cur_bcr := bcr s 3, d_initiator_pc := d_ch_initiator_pc s 3\<rparr>"
  obtain addr moved s2 where mv: "cdrom_move e (addr_step (chcr s 3)) (unat (min (as_remaining a1) (as_accum a1 div DMA_CDROM_CYCLES_PER_WORD)))
      (start_addr s 3) 0 s1 = (addr, moved, s2)"
    by (metis prod.exhaust)
  define a2 where "a2 = a1\<lparr>as_remaining := as_remaining a1 - moved, as_accum := as_accum a1 - moved * DMA_CDROM_CYCLES_PER_WORD\<rparr>"
  define s3 where "s3 = set_madr 3 addr (s2\<lparr>d_cdrom_async := a2\<rparr>)"
  have c2: "dma_core s2 = dma_core s1" using cdrom_move_keeps [OF mv] by blast
  then have q2: "same_but 3 s s2" "as_active (d_cdrom_async s2) = as_active a"
    by (simp_all add: same_but_def core_eq_iff s1_def a1_def)
  have q3: "same_but 3 s s3" "as_active (d_cdrom_async s3) = as_active a"
    using q2 by (simp_all add: same_but_def s3_def a2_def a1_def)
  have over: "async_estimate a \<le> c \<and> as_remaining a \<noteq> 0" if "as_remaining a2 = 0" "moved \<noteq> 0"
    using cdrom_move_keeps [OF mv] that not_done [of moved a c DMA_CDROM_CYCLES_PER_WORD] by (simp add: a2_def a1_def)
  have t: "advance_cdrom e c s = (if \<not> dma_cdrom_transfer_active s then s
         else if bit (chcr s 3) 0 then clear_busy 3 (cancel_async_transfer e 3 s)
         else if \<not> cdrom_dma_ready e (d_ext s) then s else if moved = 0 then s2
         else if as_remaining a2 = 0 then finish_async_cdrom_transfer e addr s3 else s3)"
    unfolding advance_cdrom_def a_def [symmetric] a1_def [symmetric] Let_def s1_def [symmetric] mv prod.case a2_def [symmetric] s3_def [symmetric]
    by (rule refl)
  show thesis
  proof (cases "dma_cdrom_transfer_active s \<and> cdrom_dma_ready e (d_ext s) \<and> moved \<noteq> 0 \<and> as_remaining a2 = 0")
    case True
    then have "advance_cdrom e c s = finish_async_cdrom_transfer e addr s3" using t by (simp add: dma_cdrom_transfer_active_def)
    then show ?thesis using finish [OF _ q3(1)] True over by (simp add: dma_cdrom_transfer_active_def a_def)
  next
    case False
    then have "advance_cdrom e c s = s \<or> advance_cdrom e c s = s2 \<or> advance_cdrom e c s = s3"
      using t by (auto simp: dma_cdrom_transfer_active_def)
    then show ?thesis using quiet q2 q3 a_def by auto
  qed
qed

lemma finish_mdec_sel [simp]:
  "ch < 2 \<Longrightarrow> d_delayed (finish_async_mdec_transfer e ch n s) k = (if k = ch then idle_delayed else d_delayed s k)"
  "chcr (finish_async_mdec_transfer e ch n s) k = (if k = ch then chcr s ch AND NOT 0x11000000 else chcr s k)"
  "ch < 2 \<Longrightarrow> d_mdec_async (finish_async_mdec_transfer e ch n s) k = (if k = ch then idle_async (d_mdec_async s ch) else d_mdec_async s k)"
  "ch < 2 \<Longrightarrow> d_cdrom_async (finish_async_mdec_transfer e ch n s) = d_cdrom_async s"
  by (simp_all add: finish_async_mdec_transfer_def on_mdec_def)

lemma finish_cdrom_sel [simp]:
  "d_delayed (finish_async_cdrom_transfer e a s) k = (if k = 3 then idle_delayed else d_delayed s k)"
  "chcr (finish_async_cdrom_transfer e a s) k = (if k = 3 then chcr s 3 AND NOT 0x11000000 else chcr s k)"
  "d_mdec_async (finish_async_cdrom_transfer e a s) = d_mdec_async s"
  by (simp_all add: finish_async_cdrom_transfer_def Let_def cd_dma_log_push_def fun_eq_iff)

definition dl_step :: "u32 \<Rightarrow> dma_delayed \<Rightarrow> dma_delayed" where
  "dl_step c d = (if \<not> dl_active d then d else if c < dl_cycles d then d\<lparr>dl_cycles := dl_cycles d - c\<rparr> else idle_delayed)"

lemma delayed_step [simp]:
  "d_delayed (advance_delayed_complete k c s) j = (if j = k then dl_step c (d_delayed s k) else d_delayed s j)"
  "chcr (advance_delayed_complete k c s) j =
     (if j = k \<and> dl_active (d_delayed s k) \<and> dl_cycles (d_delayed s k) \<le> c then chcr s k AND NOT 0x11000000 else chcr s j)"
  "d_mdec_async (advance_delayed_complete k c s) = d_mdec_async s" "d_cdrom_async (advance_delayed_complete k c s) = d_cdrom_async s"
  by (auto simp: advance_delayed_complete_def Let_def dl_step_def)

lemma delayed_fold:
  "distinct ks \<Longrightarrow> d_delayed (fold (\<lambda>ch. advance_delayed_complete ch c) ks s) j =
     (if j \<in> set ks then dl_step c (d_delayed s j) else d_delayed s j)"
  "distinct ks \<Longrightarrow> chcr (fold (\<lambda>ch. advance_delayed_complete ch c) ks s) j =
     (if j \<in> set ks \<and> dl_active (d_delayed s j) \<and> dl_cycles (d_delayed s j) \<le> c then chcr s j AND NOT 0x11000000 else chcr s j)"
  by (induction ks arbitrary: s) auto

lemma advance_asyncs_other:
  assumes "k \<noteq> 0" "k \<noteq> 1" "k \<noteq> 3" "u = advance_cdrom e c (advance_mdec_channel e 1 c (advance_mdec_channel e 0 c s))"
  shows "d_delayed u k = d_delayed s k \<and> chcr u k = chcr s k"
proof -
  have m: "d_delayed (advance_mdec_channel e ch c t) k = d_delayed t k \<and> chcr (advance_mdec_channel e ch c t) k = chcr t k"
    if "ch < 2" "ch \<noteq> k" for ch t
    using that by (cases rule: advance_mdec_cases [OF that(1), of t e c]) (auto simp: same_but_def)
  have "d_delayed (advance_cdrom e c t) k = d_delayed t k \<and> chcr (advance_cdrom e c t) k = chcr t k" for t
    using assms(3) by (cases rule: advance_cdrom_cases [of t e c]) (auto simp: same_but_def)
  then show ?thesis using m [of 0] m [of 1] assms by simp
qed

lemma dma_advance_unfold:
  "dma_advance e c s = (if c = 0 then s else
     let t = fold (\<lambda>ch. advance_delayed_complete ch c) [0..<7]
               (advance_cdrom e c (advance_mdec_channel e 1 c (advance_mdec_channel e 0 c (s\<lparr>d_exec_depth := d_exec_depth s + 1\<rparr>))))
     in t\<lparr>d_cur_ch := -1, d_exec_depth := d_exec_depth t - 1\<rparr>)"
  by (simp add: dma_advance_def Let_def)

lemma advance_delayed:
  assumes "k \<in> {2, 4, 5, 6}" "c \<noteq> 0"
  shows "d_delayed (dma_advance e c s) k = dl_step c (d_delayed s k)"
    and "chcr (dma_advance e c s) k =
      (if dl_active (d_delayed s k) \<and> dl_cycles (d_delayed s k) \<le> c then chcr s k AND NOT 0x11000000 else chcr s k)"
proof -
  define u where "u = advance_cdrom e c (advance_mdec_channel e 1 c (advance_mdec_channel e 0 c (s\<lparr>d_exec_depth := d_exec_depth s + 1\<rparr>)))"
  have u: "d_delayed u k = d_delayed s k \<and> chcr u k = chcr s k"
    using advance_asyncs_other [OF _ _ _ u_def, of k] assms(1) by auto
  have k: "k \<in> set [0..<7]" "distinct [0..<7::nat]" using assms(1) by auto
  show "d_delayed (dma_advance e c s) k = dl_step c (d_delayed s k)"
    unfolding dma_advance_unfold u_def [symmetric] Let_def using assms(2) u k delayed_fold(1) [OF k(2), of c u k] by simp
  show "chcr (dma_advance e c s) k =
      (if dl_active (d_delayed s k) \<and> dl_cycles (d_delayed s k) \<le> c then chcr s k AND NOT 0x11000000 else chcr s k)"
    unfolding dma_advance_unfold u_def [symmetric] Let_def using assms(2) u k delayed_fold(2) [OF k(2), of c u k] by simp
qed

lemma busy_cleared: "\<not> bit (w AND NOT 0x11000000 :: u32) 24"
proof -
  have "(0x11000000::u32) = push_bit 24 1 OR push_bit 28 1" by simp
  then show ?thesis by (simp add: bit_simps del: push_bit_of_1)
qed

lemmas busy_cleared_simps [simp] = busy_cleared busy_cleared [simplified]

lemma delayed_busy:
  assumes "k \<in> {2, 4, 5, 6}" "dl_active (d_delayed s k)" "0 < dl_cycles (d_delayed s k)" "bit (chcr s k) 24"
  shows "dl_active (d_delayed (fold (dma_advance e) cs s) k) \<longleftrightarrow> sum_list (map unat cs) < unat (dl_cycles (d_delayed s k))"
    and "bit (chcr (fold (dma_advance e) cs s) k) 24 \<longleftrightarrow> sum_list (map unat cs) < unat (dl_cycles (d_delayed s k))"
proof -
  have off: "\<not> dl_active (d_delayed (fold (dma_advance e) cs t) k) \<and> \<not> bit (chcr (fold (dma_advance e) cs t) k) 24"
    if "\<not> dl_active (d_delayed t k)" "\<not> bit (chcr t k) 24" for t cs
    using that
  proof (induction cs arbitrary: t)
    case (Cons c cs)
    then have "\<not> dl_active (d_delayed (dma_advance e c t) k)" "\<not> bit (chcr (dma_advance e c t) k) 24"
      using advance_delayed [OF assms(1), of c e t] by (cases "c = 0"; simp add: dma_advance_def dl_step_def)+
    then show ?case using Cons.IH by simp
  qed simp
  have "(dl_active (d_delayed (fold (dma_advance e) cs s) k) \<longleftrightarrow> sum_list (map unat cs) < unat (dl_cycles (d_delayed s k))) \<and>
        (bit (chcr (fold (dma_advance e) cs s) k) 24 \<longleftrightarrow> sum_list (map unat cs) < unat (dl_cycles (d_delayed s k)))"
    using assms(2-4)
  proof (induction cs arbitrary: s)
    case Nil
    then show ?case by (simp add: word_less_nat_alt)
  next
    case (Cons c cs)
    show ?case
    proof (cases "c = 0")
      case True
      then have "dma_advance e c s = s" by (simp add: dma_advance_def)
      then show ?thesis using Cons True by simp
    next
      case c: False
      let ?t = "dma_advance e c s"
      note adv = advance_delayed [OF assms(1) c, of e s]
      show ?thesis
      proof (cases "c < dl_cycles (d_delayed s k)")
        case True
        then have "dl_active (d_delayed ?t k)" "dl_cycles (d_delayed ?t k) = dl_cycles (d_delayed s k) - c" "bit (chcr ?t k) 24"
          using adv Cons.prems True by (auto simp: dl_step_def not_le [symmetric])
        moreover have "unat (dl_cycles (d_delayed s k) - c) = unat (dl_cycles (d_delayed s k)) - unat c"
          using True by (intro unat_sub_u32) simp
        moreover have "0 < dl_cycles (d_delayed s k) - c" "unat c < unat (dl_cycles (d_delayed s k))"
          using True by (auto simp: word_less_nat_alt unat_sub_u32 word_le_nat_alt)
        ultimately show ?thesis using Cons.IH [of ?t] by (simp add: less_diff_conv add.commute)
      next
        case False
        then have "\<not> dl_active (d_delayed ?t k)" "\<not> bit (chcr ?t k) 24"
          using adv Cons.prems by (simp_all add: dl_step_def idle_delayed_def not_less)
        moreover have "unat (dl_cycles (d_delayed s k)) \<le> unat c" using False by (simp add: word_less_nat_alt)
        ultimately show ?thesis using off [of ?t cs] by simp
      qed
    qed
  qed
  then show "dl_active (d_delayed (fold (dma_advance e) cs s) k) \<longleftrightarrow> sum_list (map unat cs) < unat (dl_cycles (d_delayed s k))"
    "bit (chcr (fold (dma_advance e) cs s) k) 24 \<longleftrightarrow> sum_list (map unat cs) < unat (dl_cycles (d_delayed s k))" by blast+
qed


section \<open>Word counts\<close>

lemma low_half: "unat (w AND 0xFFFF :: u32) < 65536"
  using unat_and_mask [of w 16] by (simp add: mask_eq_exp_minus_1)

lemma block_product: "unat b \<le> 65536 \<Longrightarrow> unat k < 65536 \<Longrightarrow> unat (b * k :: u32) = unat b * unat k"
proof -
  assume a: "unat b \<le> 65536" "unat k < 65536"
  have "unat b * unat k \<le> 65536 * 65535" using a by (intro mult_mono) auto
  then show ?thesis by (simp add: unat_word_ariths)
qed

lemma word_count_positive: "ch \<noteq> 3 \<Longrightarrow> transfer_word_count e ch s \<noteq> 0"
proof -
  assume ch: "ch \<noteq> 3"
  define b where "b = (if bcr s ch AND 0xFFFF = 0 then 0x10000 else bcr s ch AND 0xFFFF)"
  define k where "k = (if drop_bit 16 (bcr s ch) AND 0xFFFF = 0 then 1 else drop_bit 16 (bcr s ch) AND 0xFFFF)"
  have nz: "w \<noteq> 0 \<longleftrightarrow> unat w \<noteq> 0" for w :: u32 by (simp add: unat_eq_zero)
  have b: "unat b \<le> 65536" "b \<noteq> 0" using low_half [of "bcr s ch"] unfolding b_def by auto
  have k: "unat k < 65536" "k \<noteq> 0" using low_half [of "drop_bit 16 (bcr s ch)"] unfolding k_def by auto
  have "b * k \<noteq> 0" using block_product [OF b(1) k(1)] b(2) k(2) unfolding nz by simp
  moreover have "transfer_word_count e ch s = (if sync_mode (chcr s ch) = 1 then b * k else b)"
    unfolding transfer_word_count_def Let_def b_def k_def using ch by simp
  ultimately show ?thesis using b(2) by (simp split: if_splits)
qed

lemma schedule_cycles:
  assumes "n \<noteq> 0" "n \<le> 0x80000" "k \<noteq> 0" "k \<le> 48"
  shows "d_delayed (schedule_delayed_complete ch n k s) ch = \<lparr>dl_active = True, dl_total = n, dl_cycles = n * k\<rparr> \<and>
         unat (n * k) = unat n * unat k \<and> chcr (schedule_delayed_complete ch n k s) j = chcr s j"
proof -
  have b: "unat n * unat k \<le> 524288 * 48"
    using assms(2,4) by (intro mult_mono) (auto simp: word_le_nat_alt)
  have u: "unat ((ucast n :: u64) * ucast k) = unat n * unat k" by (rule product_u)
  have "unat (n * k) = unat n * unat k" using b by (simp add: unat_word_ariths)
  moreover have "\<not> (ucast n :: u64) * ucast k > 0xFFFFFFFF" using b u by (simp add: word_less_nat_alt)
  moreover have "(ucast ((ucast n :: u64) * ucast k) :: u32) = n * k"
    unfolding word_unat_eq_iff unsigned_ucast_eq u by (simp add: take_bit_eq_mod unat_word_ariths)
  ultimately show ?thesis using assms(1,3) by (simp add: schedule_delayed_complete_def Let_def)
qed

section \<open>Kicks\<close>

lemma sync_mode_bits: "sync_mode (c AND NOT 0x10000000) = sync_mode c"
proof -
  have m: "(3::u32) = mask 2" "(0x10000000::u32) = push_bit 28 1" by (simp_all add: mask_eq_exp_minus_1)
  show ?thesis
    unfolding sync_mode_def m
    by (rule bit_word_eqI, simp only: bit_and_iff bit_not_iff bit_drop_bit_eq o_apply bit_mask_iff bit_push_bit_iff bit_1_iff, auto)
qed

lemmas sync_mode_simps [simp] = sync_mode_bits sync_mode_bits [simplified]

lemma word_count_cong:
  "ch \<noteq> 3 \<Longrightarrow> bcr s ch = bcr t ch \<Longrightarrow> sync_mode (chcr s ch) = sync_mode (chcr t ch) \<Longrightarrow>
   transfer_word_count e ch s = transfer_word_count e ch t"
  by (simp add: transfer_word_count_def Let_def)

lemma kick_fields [simp]:
  "bcr (announce_kick e ch s) k = bcr s k"
  "chcr (announce_kick e ch s) k = (if k = ch then chcr s ch AND NOT 0x10000000 else chcr s k)"
  "d_mem (announce_kick e ch s) = d_mem s" "d_ext (announce_kick e ch s) = d_ext s" "d_mdec (announce_kick e ch s) = d_mdec s"
  "d_spu (announce_kick e ch s) = d_spu s" "d_delayed (announce_kick e ch s) = d_delayed s"
  "d_mdec_async (announce_kick e ch s) = d_mdec_async s" "d_cdrom_async (announce_kick e ch s) = d_cdrom_async s"
  "d_ch (begin_kick ch s) = d_ch s" "d_ext (begin_kick ch s) = d_ext s" "d_mem (begin_kick ch s) = d_mem s"
  "d_ch (end_kick s) = d_ch s" "d_delayed (end_kick s) = d_delayed s" "d_halted (end_kick s) = d_halted s"
  by (simp_all add: announce_kick_def begin_kick_def end_kick_def set_chcr_def ring_event_def trace_dma_def trace_put_def Let_def)

lemma kick_word_count: "ch \<noteq> 3 \<Longrightarrow> transfer_word_count e ch (announce_kick e ch s) = transfer_word_count e ch s"
  by (rule word_count_cong) simp_all

section \<open>An example controller\<close>

text \<open>The GPU of the example is the list of words it was sent, newest first.\<close>

definition demo_env :: "(unit, u32 list) dma_env" where
  "demo_env = \<lparr>de_host = demo_host, de_io = demo_ports, gpu_read_gpuread = \<lambda>x. (0, x), gpu_write_gp0 = \<lambda>a w x. w # x,
     gpu_ws_begin_linked_list = \<lambda>x. x, cdrom_dma_ready = \<lambda>x. True, cdrom_dma_read = \<lambda>x. (0, x),
     cdrom_dma_sector_word_count = \<lambda>x. 512, cdrom_get_setloc_lba = \<lambda>x. 0,
     cdrom_debug_snapshot = \<lambda>x. \<lparr>sn_last_lba = 0, sn_sector_size = 2048, sn_last_size = 2048, sn_read_pos = 0,
        sn_last_mode = 0, sn_mode_reg = 0, sn_available = True\<rparr>, overlay_capture_on_dma = \<lambda>a n f x. x\<rparr>"

definition demo_dma :: "(unit, u32 list) dma_st" where
  "demo_dma = dma_init \<lparr>d_ch = \<lambda>_. \<lparr>dm_madr = 0, dm_bcr = 0, dm_chcr = 0\<rparr>, d_mdec_async = \<lambda>_. zero_async,
     d_cdrom_async = zero_async, d_cdlog = \<lambda>_. \<lparr>cl_lba = 0, cl_dest = 0, cl_size = 0\<rparr>, d_cdlog_head = 0, d_cdlog_total = 0,
     d_exec_depth = 0, d_cur_ch = -1, d_cur_madr = 0, d_cur_bcr = 0, d_initiator_pc = 0, d_ch_initiator_pc = \<lambda>_. 0,
     d_delayed = \<lambda>_. idle_delayed, d_dpcr = 0, d_dicr = 0, d_trace = \<lambda>_. zero_dma_trace, d_trace_seq = 0,
     d_hist = \<lambda>_. zero_history, d_hist_seq = 0, d_hist_entry = zero_history, d_hist_active = False,
     d_irq = \<lparr>i_stat = 0, dev_log = [], event_log = []\<rparr>, d_openbus_reads = 0, d_openbus_writes = 0, d_frame = 0,
     d_func = 0, d_audio_log = [], d_halted = False, d_mem = demo_mem, d_mdec = demo_mdec, d_spu = demo_spu, d_ext = []\<rparr>"

lemma demo_dma_sel [simp]:
  "d_ch demo_dma = (\<lambda>_. \<lparr>dm_madr = 0, dm_bcr = 0, dm_chcr = 0\<rparr>)" "d_dpcr demo_dma = 0x07654321" "d_dicr demo_dma = 0"
  "d_delayed demo_dma = (\<lambda>_. idle_delayed)" "d_mdec_async demo_dma = (\<lambda>_. zero_async)" "d_cdrom_async demo_dma = zero_async"
  "d_halted demo_dma = False" "d_mem demo_dma = demo_mem" "d_ext demo_dma = []" "d_irq demo_dma = \<lparr>i_stat = 0, dev_log = [], event_log = []\<rparr>"
  by (simp_all add: demo_dma_def dma_init_def dma_debug_clear_cdrom_history_def dma_debug_clear_trace_def)

text \<open>All channels enabled, one channel programmed.\<close>

definition demo_channel :: "nat \<Rightarrow> u32 \<Rightarrow> u32 \<Rightarrow> u32 \<Rightarrow> (unit, u32 list) dma_st" where
  "demo_channel ch a b c = demo_dma\<lparr>d_dpcr := 0x0FEDCBA9, d_ch := (d_ch demo_dma)(ch := \<lparr>dm_madr = a, dm_bcr = b, dm_chcr = c\<rparr>)\<rparr>"

lemma demo_channel_sel [simp]:
  "d_ch (demo_channel ch a b c) = (\<lambda>_. \<lparr>dm_madr = 0, dm_bcr = 0, dm_chcr = 0\<rparr>)(ch := \<lparr>dm_madr = a, dm_bcr = b, dm_chcr = c\<rparr>)"
  "d_dpcr (demo_channel ch a b c) = 0x0FEDCBA9" "d_dicr (demo_channel ch a b c) = 0"
  "d_delayed (demo_channel ch a b c) = (\<lambda>_. idle_delayed)" "d_mdec_async (demo_channel ch a b c) = (\<lambda>_. zero_async)"
  "d_cdrom_async (demo_channel ch a b c) = zero_async" "d_halted (demo_channel ch a b c) = False"
  "d_mem (demo_channel ch a b c) = demo_mem" "d_ext (demo_channel ch a b c) = []"
  "d_irq (demo_channel ch a b c) = \<lparr>i_stat = 0, dev_log = [], event_log = []\<rparr>"
  by (simp_all add: demo_channel_def)

section \<open>Busy time\<close>

lemma begin_sel [simp]:
  "d_halted (begin_kick ch s) = d_halted s" "d_delayed (begin_kick ch s) = d_delayed s" "d_dicr (begin_kick ch s) = d_dicr s"
  "d_mdec_async (begin_kick ch s) = d_mdec_async s" "d_cdrom_async (begin_kick ch s) = d_cdrom_async s"
  "d_mdec (begin_kick ch s) = d_mdec s" "d_spu (begin_kick ch s) = d_spu s"
  by (simp_all add: begin_kick_def Let_def)

lemma kick_ch4:
  assumes "bit (chcr s 4) 24" "channel_enabled 4 s" "\<not> d_halted s" "transfer_word_count e 4 s \<le> 0x80000" "n = transfer_word_count e 4 s"
  shows "dl_active (d_delayed (try_execute e 4 s) 4) \<and> dl_cycles (d_delayed (try_execute e 4 s) 4) = n * 48 \<and>
         unat (n * 48) = unat n * 48 \<and> bit (chcr (try_execute e 4 s) 4) 24"
proof -
  let ?a = "announce_kick e 4 s"
  have v: "validate_transfer_length e 4 ?a = ?a"
    using assms(4) kick_word_count [of 4 e s] by (simp add: validate_transfer_length_def not_less)
  obtain m u where r: "execute_ch4_spu e (begin_kick 4 ?a) = (m, u)" by (metis prod.exhaust)
  have "m = transfer_word_count e 4 (begin_kick 4 ?a)"
    using r by (simp add: execute_ch4_spu_def Let_def case_prod_beta split: if_splits)
  also have "\<dots> = transfer_word_count e 4 ?a" by (rule word_count_cong) simp_all
  also have "\<dots> = n" using kick_word_count [of 4 e s] assms(5) by simp
  finally have m: "m = n" .
  have nz: "n \<noteq> 0" using assms(5) word_count_positive [of 4 e s] by simp
  have le: "n \<le> 0x80000" using assms(4,5) by simp
  note sc = schedule_cycles [OF nz le, of 48 4 u]
  define t where "t = schedule_delayed_complete 4 n 48 u"
  have q: "quiet_step (begin_kick 4 ?a) u" using quiet_ch4 [of "begin_kick 4 ?a" e] r by simp
  then have h: "\<not> d_halted u" "chcr u 4 = chcr s 4 AND NOT 0x10000000"
    using assms(3) kick_sel(4) [of 4 ?a] by (simp_all add: quiet_step_def core_eq_iff)
  have "\<not> d_halted t" using h by (simp add: t_def schedule_delayed_complete_def Let_def nz)
  then have "try_execute e 4 s = end_kick t"
    using assms(1,2,3) v r m by (simp add: try_execute_def Let_def run_channel_def t_def)
  moreover have "bit (chcr s 4 AND NOT 0x10000000) 24"
  proof -
    have "(0x10000000::u32) = push_bit 28 1" by simp
    then show ?thesis using assms(1) by (simp add: bit_simps del: push_bit_of_1)
  qed
  ultimately show ?thesis using sc h(2) by (simp add: t_def)
qed


text \<open>An SPU transfer of \<open>n\<close> words keeps channel 4 busy for exactly 48 n guest cycles,
  however the cycle clock is sliced: the busy bit of CHCR stays set while fewer cycles have
  been advanced and is clear from then on.\<close>

theorem dma_spu_busy_time:
  assumes "bit (chcr s 4) 24" and "channel_enabled 4 s" and "\<not> d_halted s" and "transfer_word_count e 4 s \<le> 0x80000"
  shows "bit (chcr (fold (dma_advance e) cs (try_execute e 4 s)) 4) 24 \<longleftrightarrow>
         sum_list (map unat cs) < 48 * unat (transfer_word_count e 4 s)"
proof -
  define n where "n = transfer_word_count e 4 s"
  note k = kick_ch4 [OF assms n_def]
  have "n \<noteq> 0" using word_count_positive [of 4 e s] by (simp add: n_def)
  then have "0 < n * 48" using k by (simp add: word_less_nat_alt unat_gt_0)
  then show ?thesis
    using delayed_busy(2) [of 4 "try_execute e 4 s" e cs] k by (simp add: n_def [symmetric] mult.commute)
qed

lemma dma_spu_busy_time_witness:
  "bit (chcr (fold (dma_advance demo_env) [100, 91] (try_execute demo_env 4 (demo_channel 4 0x1000 4 0x01000001))) 4) 24"
proof -
  let ?s = "demo_channel 4 0x1000 4 0x01000001"
  have n: "transfer_word_count demo_env 4 ?s = 4" by (simp add: transfer_word_count_def sync_mode_def Let_def)
  have "bit (chcr ?s 4) 24" "channel_enabled 4 ?s" by (simp_all add: channel_enabled_def)
  from dma_spu_busy_time [OF this, of demo_env "[100, 91]"] show ?thesis by (simp add: n)
qed

section \<open>Forecast\<close>

definition dma_ok :: "('d, 'x) dma_st \<Rightarrow> bool" where
  "dma_ok s \<longleftrightarrow> (\<forall>ch < 2. as_active (d_mdec_async s ch) \<longrightarrow> \<not> wrong_way ch s)"

lemma fold_min_le:
  "fold (\<lambda>a b. if P a then b else min (f a) b) xs (w :: u32) \<le> w"
  "a \<in> set xs \<Longrightarrow> \<not> P a \<Longrightarrow> fold (\<lambda>a b. if P a then b else min (f a) b) xs w \<le> f a"
proof -
  show le: "fold (\<lambda>a b. if P a then b else min (f a) b) xs w \<le> w" for xs w
  proof (induction xs arbitrary: w)
    case (Cons a xs)
    show ?case using Cons.IH [of w] order_trans [OF Cons.IH [of "min (f a) w"] min.cobounded2] by simp
  qed simp
  show "a \<in> set xs \<Longrightarrow> \<not> P a \<Longrightarrow> fold (\<lambda>a b. if P a then b else min (f a) b) xs w \<le> f a"
  proof (induction xs arbitrary: w)
    case (Cons x xs)
    have "fold (\<lambda>a b. if P a then b else min (f a) b) xs (min (f a) w) \<le> f a" for w
      by (rule order_trans [OF le min.cobounded1])
    then show ?case using Cons by (cases "a = x") auto
  qed simp
qed

lemma fold_if_min:
  "fold (\<lambda>k b. if P k \<and> f k < b then f k else b) xs (w :: u32) = fold (\<lambda>k b. if \<not> P k then b else min (f k) b) xs w"
  by (rule arg_cong [where f = "\<lambda>g. fold g xs w"]) (auto simp: fun_eq_iff min_def)

lemma horizon_bounds:
  assumes "c < dma_cycles_to_irq m s" "bit m 3"
  shows "ch < 2 \<Longrightarrow> as_active (d_mdec_async s ch) \<Longrightarrow> as_remaining (d_mdec_async s ch) \<noteq> 0 \<Longrightarrow> c < async_estimate (d_mdec_async s ch)"
    and "as_active (d_cdrom_async s) \<Longrightarrow> as_remaining (d_cdrom_async s) \<noteq> 0 \<Longrightarrow> c < async_estimate (d_cdrom_async s)"
    and "k < 7 \<Longrightarrow> dl_active (d_delayed s k) \<Longrightarrow> c < dl_cycles (d_delayed s k)"
proof -
  define as where "as = [d_mdec_async s 0, d_mdec_async s 1, d_cdrom_async s]"
  define best where "best = fold (\<lambda>a b. if \<not> as_active a \<or> as_remaining a = 0 then b else min (async_estimate a) b) as 0xFFFFFFFF"
  have h: "dma_cycles_to_irq m s = fold (\<lambda>k b. if \<not> dl_active (d_delayed s k) then b else min (dl_cycles (d_delayed s k)) b) [0..<7] best"
    using assms(2) unfolding dma_cycles_to_irq_def Let_def fold_if_min [symmetric] best_def as_def by simp
  have cb: "c < best" by (rule order.strict_trans2 [OF assms(1) [unfolded h] fold_min_le(1)])
  have as: "c < async_estimate a" if "a \<in> set as" "as_active a" "as_remaining a \<noteq> 0" for a
    by (rule order.strict_trans2 [OF cb [unfolded best_def] fold_min_le(2)]) (use that in simp_all)
  show "ch < 2 \<Longrightarrow> as_active (d_mdec_async s ch) \<Longrightarrow> as_remaining (d_mdec_async s ch) \<noteq> 0 \<Longrightarrow> c < async_estimate (d_mdec_async s ch)"
    using as by (auto simp: as_def less_Suc_eq numeral_2_eq_2)
  show "as_active (d_cdrom_async s) \<Longrightarrow> as_remaining (d_cdrom_async s) \<noteq> 0 \<Longrightarrow> c < async_estimate (d_cdrom_async s)"
    using as by (simp add: as_def)
  show "c < dl_cycles (d_delayed s k)" if "k < 7" "dl_active (d_delayed s k)"
    by (rule order.strict_trans2 [OF assms(1) [unfolded h] fold_min_le(2)]) (use that in simp_all)
qed

definition dir_kept :: "('d, 'x) dma_st \<Rightarrow> ('d, 'x) dma_st \<Rightarrow> bool" where
  "dir_kept s t \<longleftrightarrow> (\<forall>ch < 2. (as_active (d_mdec_async t ch) \<longrightarrow> as_active (d_mdec_async s ch)) \<and>
     bit (chcr t ch) 0 = bit (chcr s ch) 0)"

lemma dir_kept_trans: "dir_kept s t \<Longrightarrow> dir_kept t u \<Longrightarrow> dir_kept s u"
  by (simp add: dir_kept_def)

lemma dir_kept_ok: "dir_kept s t \<Longrightarrow> dma_ok s \<Longrightarrow> dma_ok t"
proof -
  assume k: "dir_kept s t" and ok: "dma_ok s"
  have "wrong_way ch t = wrong_way ch s" if "ch < 2" for ch using k that by (simp add: dir_kept_def wrong_way_def)
  then show ?thesis using k ok by (simp add: dma_ok_def dir_kept_def)
qed

lemma dir_bit: "bit (w AND NOT 0x11000000 :: u32) 0 = bit w 0"
proof -
  have "(0x11000000::u32) = push_bit 24 1 OR push_bit 28 1" by simp
  then show ?thesis by (simp add: bit_simps del: push_bit_of_1)
qed

lemma same_but_dir: "same_but ch s t \<Longrightarrow> dir_kept s t"
  unfolding same_but_def dir_kept_def by metis

lemma advance_mdec_dir:
  assumes "ch < 2"
  shows "dir_kept s (advance_mdec_channel e ch c s)"
proof (cases rule: advance_mdec_cases [OF assms, of s e c, case_names quiet finish])
  case (finish u n)
  have "dir_kept u (advance_mdec_channel e ch c s)"
    unfolding finish(1) dir_kept_def using assms by (simp add: dir_bit dir_bit [simplified]) (simp add: idle_async_def)
  then show ?thesis using same_but_dir [OF finish(2)] dir_kept_trans by blast
qed (auto intro: same_but_dir)

lemma advance_cdrom_dir: "dir_kept s (advance_cdrom e c s)"
proof (cases rule: advance_cdrom_cases [of s e c])
  case (finish u a)
  have "dir_kept u (advance_cdrom e c s)"
    unfolding finish(1) dir_kept_def by simp
  then show ?thesis using same_but_dir [OF finish(2)] dir_kept_trans by blast
qed (auto intro: same_but_dir)

lemma delayed_fold_async: "d_mdec_async (fold (\<lambda>ch. advance_delayed_complete ch c) ks s) = d_mdec_async s"
  by (induction ks arbitrary: s) simp_all

lemma advance_dir: "dir_kept s (dma_advance e c s)"
proof -
  let ?s = "s\<lparr>d_exec_depth := d_exec_depth s + 1\<rparr>"
  define u where "u = advance_cdrom e c (advance_mdec_channel e 1 c (advance_mdec_channel e 0 c ?s))"
  have "dir_kept s ?s" by (simp add: dir_kept_def)
  also have "dir_kept ?s u"
    unfolding u_def by (rule dir_kept_trans [OF dir_kept_trans [OF advance_mdec_dir advance_mdec_dir] advance_cdrom_dir]) simp_all
  finally (dir_kept_trans) have "dir_kept s u" .
  moreover define t where "t = fold (\<lambda>ch. advance_delayed_complete ch c) [0..<7] u"
  have "dir_kept u (t\<lparr>d_cur_ch := k, d_exec_depth := n\<rparr>)" for k n
    using delayed_fold(2) [of "[0..<7]" c u] by (simp add: dir_kept_def t_def delayed_fold_async dir_bit dir_bit [simplified])
  ultimately have "dir_kept s (t\<lparr>d_cur_ch := k, d_exec_depth := n\<rparr>)" for k n using dir_kept_trans by blast
  moreover have "dir_kept s s" by (simp add: dir_kept_def)
  ultimately show ?thesis unfolding dma_advance_unfold u_def [symmetric] t_def [symmetric] Let_def by simp
qed

lemma delayed_quiet:
  "distinct ks \<Longrightarrow> (\<And>k. k \<in> set ks \<Longrightarrow> dl_active (d_delayed s k) \<Longrightarrow> c < dl_cycles (d_delayed s k)) \<Longrightarrow>
   stat (fold (\<lambda>ch. advance_delayed_complete ch c) ks s) = stat s"
proof (induction ks arbitrary: s)
  case (Cons k ks)
  let ?t = "advance_delayed_complete k c s"
  have "stat ?t = stat s" using Cons.prems(2) [of k] by (auto simp: advance_delayed_complete_def Let_def)
  moreover have "stat (fold (\<lambda>ch. advance_delayed_complete ch c) ks ?t) = stat ?t"
    using Cons.prems by (intro Cons.IH) (auto split: if_splits)
  ultimately show ?case by simp
qed simp

lemma advance_quiet:
  assumes "dma_ok s" "c < dma_cycles_to_irq m s" "bit m 3"
  shows "stat (dma_advance e c s) = stat s"
proof -
  note hb = horizon_bounds [OF assms(2,3)]
  let ?s = "s\<lparr>d_exec_depth := d_exec_depth s + 1\<rparr>"
  define s1 where "s1 = advance_mdec_channel e 0 c ?s"
  define s2 where "s2 = advance_mdec_channel e 1 c s1"
  define s3 where "s3 = advance_cdrom e c s2"
  have ok: "\<not> (as_active (d_mdec_async s ch) \<and> (wrong_way ch s \<or> async_estimate (d_mdec_async s ch) \<le> c \<and> as_remaining (d_mdec_async s ch) \<noteq> 0))"
    if "ch < 2" for ch
    using assms(1) that hb(1) [OF that] by (metis dma_ok_def leD)
  have q1: "same_but 0 ?s s1"
    unfolding s1_def
    by (rule advance_mdec_cases [of 0 ?s e c]) (use ok [of 0] in \<open>auto simp: wrong_way_def\<close>)
  have q2: "same_but 1 s1 s2"
  proof -
    have f: "d_mdec_async s1 1 = d_mdec_async s 1" "chcr s1 1 = chcr s 1" using q1 by (simp_all add: same_but_def)
    show ?thesis
      unfolding s2_def
      by (rule advance_mdec_cases [of 1 s1 e c]) (use ok [of 1] f in \<open>auto simp: wrong_way_def\<close>)
  qed
  have q3: "same_but 3 s2 s3"
  proof -
    have "d_cdrom_async s2 = d_cdrom_async s" using q1 q2 by (simp add: same_but_def)
    then show ?thesis
      unfolding s3_def using hb(2) by (cases rule: advance_cdrom_cases [of s2 e c]) auto
  qed
  have d: "d_delayed s3 = d_delayed s" "stat s3 = stat s" using q1 q2 q3 by (simp_all add: same_but_def)
  have "stat (fold (\<lambda>ch. advance_delayed_complete ch c) [0..<7] s3) = stat s3"
    using hb(3) by (intro delayed_quiet) (auto simp: d)
  then show ?thesis
    unfolding dma_advance_unfold s1_def [symmetric] s2_def [symmetric] s3_def [symmetric] Let_def using d(2) by simp
qed

lemma advance_masked:
  assumes "dma_ok s" "c < dma_cycles_to_irq m s"
  shows "stat (dma_advance e c s) AND m = stat s AND m"
proof (cases "bit m 3")
  case False
  have "(w OR push_bit 3 1) AND m = w AND m" for w
    by (rule bit_word_eqI) (use False in \<open>auto simp: bit_simps simp del: push_bit_of_1\<close>)
  then show ?thesis
    using advance_edge [of s e c] by (simp add: edge_mono_def edge_step_def del: push_bit_of_1)
qed (use advance_quiet [OF assms] in simp)

interpretation dm: event_source dma_ok "dma_advance e" dma_cycles_to_irq "\<lambda>s. i_stat (d_irq s)" for e :: "('d, 'x) dma_env"
  by unfold_locales (use dir_kept_ok [OF advance_dir] advance_masked in auto)

text \<open>C17: The scheduler may trust \<open>dma_cycles_to_irq\<close>: replaying any cycles in chunks, each
  strictly below the forecast at the point it starts, raises no unmasked interrupt, as long as
  the two MDEC transfers run in the direction their channel is wired for.\<close>

theorem dma_horizon_safe:
  assumes "dma_ok s" and "quiet_chunks (dma_advance e) dma_cycles_to_irq m cs s" and "i_stat (d_irq s) AND m = 0"
  shows "i_stat (d_irq (fold (dma_advance e) cs s)) AND m = 0"
  by (rule dm.no_new_interrupt [OF assms])

lemma dma_horizon_safe_witness:
  "i_stat (d_irq (fold (dma_advance demo_env) [100]
     (demo_dma\<lparr>d_delayed := (\<lambda>_. idle_delayed)(4 := \<lparr>dl_active = True, dl_total = 4, dl_cycles = 192\<rparr>)\<rparr>))) AND 8 = 0"
proof -
  let ?s = "demo_dma\<lparr>d_delayed := (\<lambda>_. idle_delayed)(4 := \<lparr>dl_active = True, dl_total = 4, dl_cycles = 192\<rparr>)\<rparr>"
  have "dma_ok ?s" by (simp add: dma_ok_def zero_async_def)
  moreover have "quiet_chunks (dma_advance demo_env) dma_cycles_to_irq 8 [100] ?s"
    by (simp add: dma_cycles_to_irq_def zero_async_def idle_delayed_def upt_rec max_advance_def)
  ultimately show ?thesis
    by (rule dma_horizon_safe) simp
qed

text \<open>A transfer started in the other direction completes at the next advance, whatever the
  forecast says: the branch is taken before any cycles are counted.\<close>

lemma dma_wrong_way_completes:
  "as_active (d_mdec_async s 0) \<Longrightarrow> bit (chcr s 0) 24 \<Longrightarrow> channel_enabled 0 s \<Longrightarrow> \<not> bit (chcr s 0) 0 \<Longrightarrow>
   advance_mdec_channel e 0 c s = finish_async_mdec_transfer e 0 (as_total (d_mdec_async s 0)) s"
  by (simp add: advance_mdec_channel_def Let_def)

section \<open>Corrupt kicks\<close>

text \<open>A kick whose programmed length exceeds the larger of RAM and VRAM never starts: the
  controller halts before any word moves, with memory and every device as they were. Linked
  lists carry no length and are exempt.\<close>

theorem dma_bad_length_halts:
  assumes "bit (chcr s ch) 24" and "channel_enabled ch s" and "ch \<noteq> 3" and "transfer_word_count e ch s > 0x80000"
    and "ch = 2 \<longrightarrow> sync_mode (chcr s ch) \<noteq> 2"
  shows "d_halted (try_execute e ch s) \<and> d_mem (try_execute e ch s) = d_mem s \<and> d_mdec (try_execute e ch s) = d_mdec s \<and>
         d_spu (try_execute e ch s) = d_spu s \<and> d_ext (try_execute e ch s) = d_ext s"
proof -
  let ?a = "announce_kick e ch s"
  have "validate_transfer_length e ch ?a = ?a\<lparr>d_halted := True\<rparr>"
    using assms(3-5) kick_word_count [of ch e s] by (auto simp: validate_transfer_length_def)
  then show ?thesis using assms(1,2) by (simp add: try_execute_def Let_def)
qed

text \<open>An SPU kick in block mode with the largest block size and count.\<close>

lemma dma_bad_length_halts_witness:
  "d_halted (try_execute demo_env 4 (demo_channel 4 0x1000 0xFFFFFFFF 0x01000201)) \<and>
   d_mem (try_execute demo_env 4 (demo_channel 4 0x1000 0xFFFFFFFF 0x01000201)) = demo_mem"
proof -
  let ?s = "demo_channel 4 0x1000 0xFFFFFFFF 0x01000201"
  have "bit (chcr ?s 4) 24" "channel_enabled 4 ?s" by (simp_all add: channel_enabled_def)
  from dma_bad_length_halts [OF this, of demo_env] show ?thesis
    by (simp add: transfer_word_count_def sync_mode_def Let_def)
qed

section \<open>Registers\<close>

lemma masked_all: "masked 0xFFFFFFFF v old = v"
proof -
  have "(0xFFFFFFFF::u32) = -1" by simp
  then show ?thesis unfolding masked_def by (simp only:) simp
qed

lemma dicr_write_bits:
  "d = masked 0x00FF807F v old AND NOT (v AND 0x7F000000) \<Longrightarrow>
   bit d i \<longleftrightarrow> (if i < 7 \<or> i = 15 \<or> 16 \<le> i \<and> i < 24 then bit v i
                else if 24 \<le> i \<and> i < 31 then bit old i \<and> \<not> bit v i else bit old i)"
proof -
  have m: "(0x00FF807F::u32) = mask 7 OR push_bit 15 (mask 9)" "(0x7F000000::u32) = push_bit 24 (mask 7)"
    by (simp_all add: mask_eq_exp_minus_1)
  assume d: "d = masked 0x00FF807F v old AND NOT (v AND 0x7F000000)"
  have "bit d i \<longleftrightarrow> i < 32 \<and> ((bit old i \<and> \<not> (i < 7 \<or> 15 \<le> i \<and> i - 15 < 9)) \<or> (bit v i \<and> (i < 7 \<or> 15 \<le> i \<and> i - 15 < 9))) \<and>
        \<not> (bit v i \<and> 24 \<le> i \<and> i - 24 < 7)"
    unfolding d masked_def m
    by (simp only: bit_and_iff bit_or_iff bit_not_iff bit_push_bit_iff bit_mask_iff) (auto dest: bit_imp_le_length)
  then show ?thesis by (auto dest: bit_imp_le_length)
qed

lemma master_bit: "dicr_master_flag v \<noteq> 0 \<longleftrightarrow> bit v 15 \<or> bit v 23 \<and> (\<exists>i \<in> {24..<31}. bit v i)"
proof -
  have m: "(0x7F000000::u32) = push_bit 24 (mask 7)" by (simp add: mask_eq_exp_minus_1)
  have "has v 0x7F000000 \<longleftrightarrow> (\<exists>i. bit (v AND 0x7F000000) i)"
    unfolding has_def by (metis bit_eqI bit_0_eq bot_apply bot_bool_def)
  also have "\<dots> \<longleftrightarrow> (\<exists>i \<in> {24..<31}. bit v i)"
    unfolding m by (simp only: bit_and_iff bit_push_bit_iff bit_mask_iff) force
  finally show ?thesis by (simp add: dicr_master_flag_def)
qed

lemma read_value_bits: "i < 32 \<Longrightarrow> bit (dicr_read_value v) i \<longleftrightarrow> (if i = 31 then dicr_master_flag v \<noteq> 0 else bit v i)"
proof -
  have m: "(0x80000000::u32) = push_bit 31 1" by simp
  assume "i < 32"
  then show ?thesis
    unfolding dicr_read_value_def dicr_master_flag_def m
    by (cases "bit v 15 \<or> bit v 23 \<and> has v 0x7F000000")
      (simp_all only: if_True if_False simp_thms bit_or_iff bit_and_iff bit_not_iff bit_push_bit_iff bit_1_iff bit_0_eq, auto)
qed

text \<open>A full write to DICR sets its control bits, acknowledges exactly the flags written as
  1, leaves the unused bits, and the next read shows the result with the master flag computed
  from it.\<close>

theorem dma_dicr_write:
  assumes "t = dma_write e 0x1F8010F4 v s" and "d = fst (dma_read 0x1F8010F4 t)"
  shows "(\<forall>i < 24. bit d i \<longleftrightarrow> bit (if i < 7 \<or> 15 \<le> i then v else d_dicr s) i) \<and>
         (\<forall>i \<in> {24..<31}. bit d i \<longleftrightarrow> bit (d_dicr s) i \<and> \<not> bit v i) \<and>
         (bit d 31 \<longleftrightarrow> bit d 15 \<or> bit d 23 \<and> (\<exists>i \<in> {24..<31}. bit d i))"
proof -
  define d0 where "d0 = masked 0x00FF807F v (d_dicr s) AND NOT (v AND 0x7F000000)"
  have "(0x00FF807F::u32) AND 0xFFFFFFFF = 0x00FF807F" "(0x7F000000::u32) AND 0xFFFFFFFF = 0x7F000000" by simp_all
  then have "d_dicr t = d0"
    unfolding assms(1) dma_write_def dma_write_masked_def write_dicr_def d0_def by (simp add: Let_def trace_dma_reg_write_def)
  then have d: "d = dicr_read_value d0" using assms(2) by (simp add: dma_read_def Let_def)
  note db = dicr_write_bits [OF d0_def]
  have "bit d i = bit d0 i" if "i < 31" for i using that read_value_bits [of i d0] by (simp add: d)
  moreover have "bit d 31 = (dicr_master_flag d0 \<noteq> 0)" using read_value_bits [of 31 d0] by (simp add: d)
  ultimately show ?thesis
    unfolding master_bit using db by auto
qed

text \<open>With all flags pending, acknowledging only channel 4 leaves the other flags and the
  master flag.\<close>

lemma dma_dicr_write_witness:
  "bit (fst (dma_read 0x1F8010F4 (dma_write demo_env 0x1F8010F4 0x10FF0000 (demo_dma\<lparr>d_dicr := 0x7FFF0000\<rparr>)))) 25"
  using dma_dicr_write [OF refl refl, of demo_env "0x10FF0000" "demo_dma\<lparr>d_dicr := 0x7FFF0000\<rparr>"] by simp

section \<open>Ordering tables\<close>

abbreviation dram :: "('d, 'x) dma_st \<Rightarrow> nat \<Rightarrow> u8" where "dram s \<equiv> gm_ram (d_mem s)"

text \<open>
  Stores reach RAM: the cache is not isolated and, if a game runs, the last store of the CPU, which
  the two filters of \<open>psx_write_word\<close> look at, did not come from one of the BIOS routines they name.
\<close>

definition plain_ram :: "('d, 'x) dma_st \<Rightarrow> bool" where
  "plain_ram s \<longleftrightarrow> plain_stores (d_mem s)"

lemma read_ram: "a < 0x200000 \<Longrightarrow> ram_read e a s = (get_word (dram s) (unat a), s)"
  by (simp add: ram_read_def read_low)

lemma write_ram:
  assumes "a < 0x200000" "plain_ram s"
  shows "dram (ram_write e a v s) = put_bytes 4 v (unat a) (dram s)" and "plain_ram (ram_write e a v s)"
proof -
  have w: "psx_write_word (de_host e) (de_io e) a v (d_mem s) =
      (count_store a (d_mem s))\<lparr>gm_code := ram_store (de_host e) 4 a v (gm_code (d_mem s))\<rparr>"
    using assms by (intro write_low) (simp_all add: plain_ram_def)
  show "dram (ram_write e a v s) = put_bytes 4 v (unat a) (dram s)" "plain_ram (ram_write e a v s)"
    using assms(2) by (simp_all add: ram_write_def w plain_ram_def)
qed

lemma and_ones_id: "w < 0x200000 \<Longrightarrow> (w::u32) AND 0x1FFFFF = w"
proof -
  assume w: "w < 0x200000"
  have "w = take_bit 21 w" using w by (simp add: take_bit_eq_mod word_unat_eq_iff unat_mod word_less_nat_alt)
  then show ?thesis by (simp add: take_bit_eq_mask mask_eq_exp_minus_1)
qed

lemma mask_addr_less: "(w AND 0x1FFFFC :: u32) < 0x200000"
proof -
  have "w AND 0x1FFFFC \<le> 0x1FFFFC" by (rule word_and_le1)
  then show ?thesis by (simp add: word_le_nat_alt word_less_nat_alt)
qed

lemma mask_addr_id: "unat w mod 4 = 0 \<Longrightarrow> w < 0x200000 \<Longrightarrow> (w::u32) AND 0x1FFFFC = w"
proof -
  assume a: "unat w mod 4 = 0" and w: "w < 0x200000"
  have "w AND 3 = 0" unfolding unat_mod4 by (rule a)
  have c: "(3::u32) OR 0x1FFFFC = 0x1FFFFF" by simp
  have "(w AND 3) OR (w AND 0x1FFFFC) = w AND 0x1FFFFF"
    unfolding bit.conj_disj_distrib [symmetric] c ..
  then show ?thesis using and_ones_id [OF w] \<open>w AND 3 = 0\<close> by simp
qed

lemma low24: "w < 0x200000 \<Longrightarrow> (w::u32) AND 0xFFFFFF = w \<and> drop_bit 24 w AND 0xFF = 0 \<and> w \<noteq> 0xFFFFFF"
proof -
  assume w: "w < 0x200000"
  have "(0x1FFFFF::u32) AND 0xFFFFFF = 0x1FFFFF" by simp
  then have "w AND 0xFFFFFF = w" using and_ones_id [OF w] by (metis and.assoc)
  moreover have "drop_bit 24 w = 0"
    unfolding word_unat_eq_iff unat_drop_bit_eq unfolding drop_bit_eq_div using w by (simp add: word_less_nat_alt)
  ultimately show ?thesis using w by auto
qed

text \<open>The addresses a transfer loop visits.\<close>

fun loop_addrs :: "u32 \<Rightarrow> nat \<Rightarrow> u32 \<Rightarrow> u32 list" where
  "loop_addrs step 0 a = []"
| "loop_addrs step (Suc n) a = a # loop_addrs step n ((a + step) AND 0x1FFFFC)"

lemma gpu_loop:
  "a < 0x200000 \<Longrightarrow> snd (transfer_loop (gpu_word e) step n a s) =
     s\<lparr>d_ext := fold (\<lambda>p. gpu_write_gp0 e p (get_word (dram s) (unat p))) (loop_addrs step n a) (d_ext s)\<rparr>"
  by (induction n arbitrary: a s) (simp_all add: gpu_word_def read_ram mask_addr_less)

text \<open>\<open>list_at f a bs\<close>: in the memory \<open>f\<close>, a linked list of nodes at \<open>bs\<close> starts at \<open>a\<close>.\<close>

fun list_at :: "(nat \<Rightarrow> u8) \<Rightarrow> u32 \<Rightarrow> u32 list \<Rightarrow> bool" where
  "list_at f a [] = False"
| "list_at f a (b # bs) =
     (a = b \<and> (let next_node = get_word f (unat b) AND 0xFFFFFF
               in if bs = [] then next_node = 0xFFFFFF else next_node \<noteq> 0xFFFFFF \<and> list_at f (next_node AND 0x1FFFFC) bs))"

definition node_len :: "(nat \<Rightarrow> u8) \<Rightarrow> u32 \<Rightarrow> nat" where
  "node_len f b = unat (drop_bit 24 (get_word f (unat b)) AND 0xFF)"

definition node_addrs :: "(nat \<Rightarrow> u8) \<Rightarrow> u32 \<Rightarrow> u32 list" where
  "node_addrs f b = loop_addrs 4 (node_len f b) ((b + 4) AND 0x1FFFFC)"

abbreviation send_words :: "('d, 'x) dma_env \<Rightarrow> (nat \<Rightarrow> u8) \<Rightarrow> u32 list \<Rightarrow> 'x \<Rightarrow> 'x" where
  "send_words e f ps \<equiv> fold (\<lambda>p. gpu_write_gp0 e p (get_word f (unat p))) ps"

lemma list_walk_follows:
  "list_at (dram s) a bs \<Longrightarrow> length bs < n \<Longrightarrow> a < 0x200000 \<Longrightarrow>
   list_walk e n a w s =
     (w + of_nat (sum_list (map (\<lambda>b. 1 + node_len (dram s) b) bs)),
      set_madr 2 0x00FFFFFF (s\<lparr>d_ext := send_words e (dram s) (concat (map (node_addrs (dram s)) bs)) (d_ext s)\<rparr>))"
proof (induction bs arbitrary: a n w s)
  case (Cons b bs)
  obtain m where n: "n = Suc m" "length bs < m" using Cons.prems(2) by (cases n) auto
  have ab: "a = b" using Cons.prems(1) by simp
  define hd where "hd = get_word (dram s) (unat a)"
  define t where "t = s\<lparr>d_ext := send_words e (dram s) (node_addrs (dram s) b) (d_ext s)\<rparr>"
  have t: "snd (transfer_loop (gpu_word e) 4 (unat (drop_bit 24 hd AND 0xFF)) ((a + 4) AND 0x1FFFFC) s) = t"
    using gpu_loop [OF mask_addr_less] by (simp add: t_def node_addrs_def node_len_def hd_def ab)
  have len: "drop_bit 24 hd AND 0xFF = of_nat (node_len (dram s) b)"
    by (simp add: node_len_def hd_def ab)
  have walk: "list_walk e (Suc m) a w s =
      (if hd AND 0xFFFFFF = 0xFFFFFF then (w + 1 + (drop_bit 24 hd AND 0xFF), set_madr 2 (if m = 0 then a else 0x00FFFFFF) t)
       else list_walk e m ((hd AND 0xFFFFFF) AND 0x1FFFFC) (w + 1 + (drop_bit 24 hd AND 0xFF)) t)"
    using read_ram [OF Cons.prems(3), of e s] t by (simp add: Let_def case_prod_beta hd_def)
  show ?case
  proof (cases "bs = []")
    case True
    then have "hd AND 0xFFFFFF = 0xFFFFFF" using Cons.prems(1) ab by (simp add: hd_def)
    then show ?thesis using n True walk by (simp add: t_def len add.assoc)
  next
    case False
    then have nx: "hd AND 0xFFFFFF \<noteq> 0xFFFFFF" "list_at (dram t) ((hd AND 0xFFFFFF) AND 0x1FFFFC) bs"
      using Cons.prems(1) ab by (auto simp: hd_def t_def Let_def)
    have "list_walk e (Suc m) a w s =
      (w + 1 + (drop_bit 24 hd AND 0xFF) + of_nat (sum_list (map (\<lambda>b. 1 + node_len (dram t) b) bs)),
       set_madr 2 0x00FFFFFF (t\<lparr>d_ext := send_words e (dram t) (concat (map (node_addrs (dram t)) bs)) (d_ext t)\<rparr>))"
      using Cons.IH [OF nx(2) n(2) mask_addr_less] nx(1) walk by simp
    then show ?thesis unfolding n(1) len by (simp add: t_def add.assoc)
  qed
qed simp

lemma back_four: "unat a mod 4 = 0 \<Longrightarrow> a < 0x200000 \<Longrightarrow> 4 \<le> unat a \<Longrightarrow>
   unat (a - 4) = unat a - 4 \<and> (a - 4 :: u32) < 0x200000 \<and> (a - 4) AND 0x1FFFFC = a - 4 \<and> unat (a - 4) mod 4 = 0"
proof -
  assume a: "unat a mod 4 = 0" "a < 0x200000" "4 \<le> unat a"
  have u: "unat (a - 4) = unat a - 4" using a(3) by (simp add: unat_sub_u32 word_le_nat_alt)
  moreover have l: "(a - 4) < 0x200000" using a(2) u by (simp add: word_less_nat_alt)
  moreover have m: "unat (a - 4) mod 4 = 0" using a(1,3) u by (simp add: mod_eq_0_iff_dvd)
  ultimately show ?thesis using mask_addr_id [OF m l] by simp
qed

text \<open>What a clear of \<open>Suc n\<close> entries leaves: a list of empty nodes, below untouched memory.\<close>

lemma otc_list:
  "plain_ram s \<Longrightarrow> a < 0x200000 \<Longrightarrow> unat a mod 4 = 0 \<Longrightarrow> 4 * n \<le> unat a \<Longrightarrow> t = otc_loop e (Suc n) a s \<Longrightarrow>
   list_at (dram t) a (loop_addrs (-4) (Suc n) a) \<and> (\<forall>b \<in> set (loop_addrs (-4) (Suc n) a). node_len (dram t) b = 0) \<and>
   (\<forall>i \<ge> unat a + 4. dram t i = dram s i) \<and> plain_ram t"
proof (induction n arbitrary: a s)
  case 0
  have "dram t = put_bytes 4 0x00FFFFFF (unat a) (dram s)" "plain_ram t"
    using write_ram [OF 0(2,1)] 0(5) by simp_all
  then show ?case by (simp add: node_len_def put_bytes_out)
next
  case (Suc n)
  define b where "b = a - 4"
  define s1 where "s1 = ram_write e a b s"
  have g: "4 \<le> unat a" using Suc.prems(4) by simp
  have b4: "unat b = unat a - 4" "b < 0x200000" "b AND 0x1FFFFC = b" "unat b mod 4 = 0"
    using back_four [OF Suc.prems(3,2) g] unfolding b_def by blast+
  have l24: "b AND 0x00FFFFFF = b" "drop_bit 24 b AND 0xFF = 0" "b \<noteq> 0xFFFFFF" using low24 [OF b4(2)] by simp_all
  have s1: "dram s1 = put_bytes 4 b (unat a) (dram s)" "plain_ram s1"
    using write_ram [OF Suc.prems(2,1)] by (simp_all add: s1_def)
  have "t = otc_loop e (Suc n) b s1"
    using Suc.prems(5) b4(3) l24(1) by (simp add: s1_def b_def)
  then have ih: "list_at (dram t) b (loop_addrs (-4) (Suc n) b)" "\<forall>c \<in> set (loop_addrs (-4) (Suc n) b). node_len (dram t) c = 0"
    "\<forall>i \<ge> unat b + 4. dram t i = dram s1 i" "plain_ram t"
    using Suc.IH [OF s1(2) b4(2,4)] Suc.prems(4) b4(1) by auto
  have ab: "unat b + 4 = unat a" using b4(1) Suc.prems(4) by simp
  have w: "get_word (dram t) (unat a) = b"
    using ih(3) get_put_word [of b "unat a" "dram s"] unfolding s1(1) get_word_def by (simp add: ab)
  have la: "loop_addrs (-4) (Suc (Suc n)) a = a # loop_addrs (-4) (Suc n) b"
    using b4(3) by (simp add: b_def)
  have "list_at (dram t) a (a # loop_addrs (-4) (Suc n) b)"
    using ih(1) l24(1,3) b4(3) by (simp add: w Let_def)
  moreover have "node_len (dram t) a = 0" by (simp add: node_len_def w l24(2))
  moreover have "dram t i = dram s i" if "i \<ge> unat a + 4" for i
    using ih(3) that b4(1) by (simp add: s1(1) put_bytes_out)
  ultimately show ?case unfolding la using ih(2,4) by simp
qed

lemma no_node_words: "\<forall>b \<in> set bs. node_len f b = 0 \<Longrightarrow> concat (map (node_addrs f) bs) = [] \<and> sum_list (map (\<lambda>b. 1 + node_len f b) bs) = length bs"
  by (induction bs) (simp_all add: node_addrs_def)

lemma length_loop_addrs [simp]: "length (loop_addrs step n a) = n"
  by (induction n arbitrary: a) simp_all

lemma list_kick:
  assumes "bit (chcr s 2) 0" and "sync_mode (chcr s 2) = 2" and "list_at (dram s) (start_addr s 2) bs" and "length bs \<le> 0x40000"
  shows "\<exists>t. execute_ch2_gpu e s = (of_nat (sum_list (map (\<lambda>b. 1 + node_len (dram s) b) bs)), t) \<and>
     d_ext t = send_words e (dram s) (concat (map (node_addrs (dram s)) bs)) (gpu_ws_begin_linked_list e (d_ext s)) \<and>
     d_mem t = d_mem s \<and> madr t 2 = 0x00FFFFFF"
  using list_walk_follows [of "s\<lparr>d_ext := gpu_ws_begin_linked_list e (d_ext s)\<rparr>" "start_addr s 2" bs "0x40001" e 0]
    assms mask_addr_less [of "madr s 2"]
  by (simp add: execute_ch2_gpu_def Let_def set_madr_def)

text \<open>C15: A linked-list kick sends the ordering table in order: for a list of at most 0x40000
  nodes in RAM, channel 2 writes exactly the words of every node to GP0, node by node and word
  by word, leaves RAM alone, reports one word per header and payload word, and leaves the end
  marker in MADR.\<close>

theorem dma_list_in_order:
  assumes "bit (chcr s 2) 0" and "sync_mode (chcr s 2) = 2" and "list_at (dram s) (start_addr s 2) bs" and "length bs \<le> 0x40000"
  shows "\<exists>t. execute_ch2_gpu e s = (of_nat (sum_list (map (\<lambda>b. 1 + node_len (dram s) b) bs)), t) \<and>
     d_ext t = send_words e (dram s) (concat (map (node_addrs (dram s)) bs)) (gpu_ws_begin_linked_list e (d_ext s)) \<and>
     d_mem t = d_mem s \<and> madr t 2 = 0x00FFFFFF"
  by (rule list_kick [OF assms])

text \<open>One node at 0x1000 with one payload word.\<close>

definition demo_table :: "nat \<Rightarrow> u8" where
  "demo_table i = (if i = 0x1003 then 0x01 else if 0x1000 \<le> i \<and> i < 0x1003 then 0xFF
     else if i = 0x1004 then 0x78 else if i = 0x1005 then 0x56 else if i = 0x1006 then 0x34 else if i = 0x1007 then 0x12 else 0)"

lemma dma_list_in_order_witness:
  "\<exists>t. execute_ch2_gpu demo_env ((demo_channel 2 0x1000 0 0x01000401)
        \<lparr>d_mem := demo_mem\<lparr>gm_code := demo_code\<lparr>cm_ram := demo_table\<rparr>\<rparr>\<rparr>) = (2, t) \<and> d_ext t = [0x12345678]"
proof -
  let ?s = "(demo_channel 2 0x1000 0 0x01000401)\<lparr>d_mem := demo_mem\<lparr>gm_code := demo_code\<lparr>cm_ram := demo_table\<rparr>\<rparr>\<rparr>"
  have d: "dram ?s = demo_table" "start_addr ?s 2 = 0x1000" "d_ext ?s = []" by (simp_all add: demo_channel_def)
  have w: "get_word demo_table 0x1000 = 0x01FFFFFF" "get_word demo_table 0x1004 = 0x12345678"
    by (simp_all add: get_word_def demo_table_def le_word_def)
  have l: "list_at (dram ?s) (start_addr ?s 2) [0x1000]" unfolding d by (simp add: w)
  have n: "node_len demo_table 0x1000 = Suc 0" by (simp add: node_len_def w)
  have "node_addrs demo_table 0x1000 = [0x1004]" by (simp add: node_addrs_def n)
  moreover have "bit (chcr ?s 2) 0" "sync_mode (chcr ?s 2) = 2" by (simp_all add: sync_mode_def)
  ultimately show ?thesis
    using dma_list_in_order [OF _ _ l, of demo_env] unfolding d by (auto simp: n w demo_env_def)
qed

text \<open>C14: Clearing an ordering table and walking it agree: after channel 6 clears \<open>n\<close>
  entries, 1 to 65535, ending at an address with room for them below it, a linked-list kick from that address
  visits exactly \<open>n\<close> empty nodes, sends nothing to the GPU and finds the end marker. The clearing
  stores must reach RAM: the cache is not isolated and the kick does not come from one of the BIOS
  routines whose stores \<open>memory.c\<close> filters while a game runs.\<close>

theorem dma_otc_roundtrip:
  assumes "plain_ram s" and "unat (madr s 6 AND 0x1FFFFC) + 4 \<ge> 4 * n" and "n = unat (bcr s 6 AND 0xFFFF)" and "n \<noteq> 0"
    and "t = execute_ch6_otc e s" and "bit (chcr t 2) 0" and "sync_mode (chcr t 2) = 2" and "start_addr t 2 = madr s 6 AND 0x1FFFFC"
  shows "\<exists>u. execute_ch2_gpu e t = (of_nat n, u) \<and> d_ext u = gpu_ws_begin_linked_list e (d_ext s) \<and> madr u 2 = 0x00FFFFFF"
proof -
  let ?a = "madr s 6 AND 0x1FFFFC"
  obtain m where m: "n = Suc m" using assms(4) by (cases n) auto
  define l where "l = otc_loop e n ?a s"
  have nz: "bcr s 6 AND 0xFFFF \<noteq> 0" using assms(3,4) by auto
  have t: "t = complete_transfer 6 l" using assms(3,5) nz by (simp add: execute_ch6_otc_def Let_def l_def)
  have al: "unat ?a mod 4 = 0"
  proof -
    have c: "(0x1FFFFC::u32) AND 3 = 0" by simp
    have "?a AND 3 = 0" unfolding and.assoc c by simp
    then show ?thesis unfolding unat_mod4 .
  qed
  have dt: "dram t = dram l" "d_ext t = d_ext l"
    by (simp_all add: t complete_transfer_def Let_def clear_busy_def set_chcr_def ring_event_def trace_dma_def trace_put_def raise_dma_irq_on_master_edge_def)
  have "d_ext (otc_loop e k b r) = d_ext r" for k b and r :: "('a, 'b) dma_st"
    by (induction k arbitrary: b r) (simp_all add: ram_write_def)
  then have ext: "d_ext l = d_ext s" by (simp add: l_def)
  have "list_at (dram t) ?a (loop_addrs (-4) n ?a) \<and> (\<forall>b \<in> set (loop_addrs (-4) n ?a). node_len (dram t) b = 0)"
    using otc_list [OF assms(1) mask_addr_less al _ refl, of m e] assms(2) unfolding dt m l_def by simp
  then have li: "list_at (dram t) (start_addr t 2) (loop_addrs (-4) n ?a)" and em: "\<forall>b \<in> set (loop_addrs (-4) n ?a). node_len (dram t) b = 0"
    using assms(8) by simp_all
  have "n < 65536" using low_half [of "bcr s 6"] assms(3) by simp
  then have len: "length (loop_addrs (-4) n ?a) \<le> 0x40000" by simp
  note nw = no_node_words [OF em]
  have "\<exists>u. execute_ch2_gpu e t = (of_nat (sum_list (map (\<lambda>b. 1 + node_len (dram t) b) (loop_addrs (-4) n ?a))), u) \<and>
     d_ext u = send_words e (dram t) (concat (map (node_addrs (dram t)) (loop_addrs (-4) n ?a))) (gpu_ws_begin_linked_list e (d_ext t)) \<and>
     d_mem u = d_mem t \<and> madr u 2 = 0x00FFFFFF"
    by (rule list_kick [OF assms(6,7) li len])
  then show ?thesis using nw dt(2) ext by auto
qed


definition demo_ot :: "(unit, u32 list) dma_st" where
  "demo_ot = demo_dma\<lparr>d_ch := (\<lambda>_. \<lparr>dm_madr = 0, dm_bcr = 0, dm_chcr = 0\<rparr>)
     (6 := \<lparr>dm_madr = 0x1000, dm_bcr = 4, dm_chcr = 0x11000002\<rparr>, 2 := \<lparr>dm_madr = 0x1000, dm_bcr = 0, dm_chcr = 0x01000401\<rparr>)\<rparr>"

lemma otc_channel: "k \<noteq> 6 \<Longrightarrow> d_ch (execute_ch6_otc e s) k = d_ch s k"
proof -
  assume "k \<noteq> 6"
  moreover have "d_ch (otc_loop e n a s) = d_ch s" for n a using core_otc [of e n a s, unfolded core_eq_iff] by blast
  ultimately show ?thesis
    by (simp add: execute_ch6_otc_def complete_transfer_def Let_def clear_busy_def set_chcr_def)
qed

lemma dma_otc_roundtrip_witness:
  "\<exists>u. execute_ch2_gpu demo_env (execute_ch6_otc demo_env demo_ot) = (4, u) \<and> d_ext u = [] \<and> madr u 2 = 0x00FFFFFF"
proof -
  let ?t = "execute_ch6_otc demo_env demo_ot"
  have s: "d_ch demo_ot 6 = \<lparr>dm_madr = 0x1000, dm_bcr = 4, dm_chcr = 0x11000002\<rparr>" "d_ext demo_ot = []" "d_mem demo_ot = demo_mem"
    by (simp_all add: demo_ot_def)
  have t: "d_ch ?t 2 = \<lparr>dm_madr = 0x1000, dm_bcr = 0, dm_chcr = 0x01000401\<rparr>"
    using otc_channel [of 2 demo_env demo_ot] by (simp add: demo_ot_def)
  have p: "plain_ram demo_ot" by (simp add: plain_ram_def plain_stores_def s demo_mem_def isolated_def has_def)
  have "\<exists>u. execute_ch2_gpu demo_env ?t = (of_nat 4, u) \<and> d_ext u = gpu_ws_begin_linked_list demo_env (d_ext demo_ot) \<and> madr u 2 = 0x00FFFFFF"
    by (rule dma_otc_roundtrip [OF p _ _ _ refl]) (simp_all add: s t sync_mode_def)
  then show ?thesis by (simp add: s demo_env_def)
qed

text \<open>Block mode with a zero size: the transfer moves nothing, while the word count that is
  traced and validated takes zero for 0x10000.\<close>

lemma dma_zero_block:
  "sync_mode (chcr s 2) = 1 \<Longrightarrow> bcr s 2 = 0 \<Longrightarrow> fst (execute_ch2_gpu e s) = 0 \<and> transfer_word_count e 2 s = 0x10000"
  by (simp add: execute_ch2_gpu_def transfer_word_count_def Let_def case_prod_beta)

end
