(* ===== verification/Trace_Rings.thy ===== *)
theory Trace_Rings
  imports Log_Rings
begin

text \<open>
  The device-event ring (\<open>psxrecomp/runtime/src/device_trace.c\<close>) and the unified event
  timeline (\<open>psxrecomp/runtime/src/event_ring.c\<close>). The values the C code reads from other
  modules when it records an entry (guest cycle, frame, program counters, \<open>i_stat\<close>, the
  execution mode) are arguments. Both are interpretations of \<open>log_ring\<close>, and the properties
  say that a dump is the newest part of the history, in order.
\<close>

section \<open>The device-event ring\<close>

record dev_event =
  de_seq :: u64
  de_cycle :: u64
  de_frame :: u32
  de_source :: u32
  de_detail :: u32

record dev_trace =
  dt_ring :: "nat \<Rightarrow> dev_event"
  dt_seq :: u64
  dt_armed :: bool

abbreviation (input) DEVTRACE_RING_CAP :: nat where "DEVTRACE_RING_CAP \<equiv> 2 ^ 20"

definition zero_dev_event :: dev_event where
  "zero_dev_event = \<lparr>de_seq = 0, de_cycle = 0, de_frame = 0, de_source = 0, de_detail = 0\<rparr>"

definition device_trace_arm :: "bool \<Rightarrow> dev_trace \<Rightarrow> dev_trace" where
  "device_trace_arm on s = s\<lparr>dt_armed := on\<rparr>"

definition device_trace_reset :: "dev_trace \<Rightarrow> dev_trace" where
  "device_trace_reset s = s\<lparr>dt_seq := 0, dt_ring := (\<lambda>_. zero_dev_event)\<rparr>"

definition dt_slot :: "u64 \<Rightarrow> nat" where
  "dt_slot seq = unat (seq AND mask 20)"

definition device_trace_note :: "u64 \<Rightarrow> u32 \<Rightarrow> u32 \<Rightarrow> u32 \<Rightarrow> dev_trace \<Rightarrow> dev_trace" where
  "device_trace_note cycle frame source detail s =
     (if \<not> dt_armed s then s
      else s\<lparr>dt_ring := (dt_ring s)(dt_slot (dt_seq s) :=
               \<lparr>de_seq = dt_seq s, de_cycle = cycle, de_frame = frame, de_source = source, de_detail = detail\<rparr>),
             dt_seq := dt_seq s + 1\<rparr>)"

text \<open>The rows copied to \<open>out\<close>; their number is the C return value.\<close>

definition device_trace_get :: "u32 \<Rightarrow> dev_trace \<Rightarrow> dev_event list" where
  "device_trace_get max_rows s =
     (let total = dt_seq s;
          avail = (if total < of_nat DEVTRACE_RING_CAP then ucast total else of_nat DEVTRACE_RING_CAP :: u32);
          n = (if avail < max_rows then avail else max_rows);
          start = total - ucast n
      in map (\<lambda>i. dt_ring s (dt_slot (start + of_nat i))) [0..<unat n])"

section \<open>The event timeline\<close>

record event_entry =
  ee_seq :: u64
  ee_cycle :: u64
  ee_pc :: u32
  ee_func :: u32
  ee_overlay_fn :: u32
  ee_i_stat :: u32
  ee_i_mask :: u32
  ee_aux :: u32
  ee_kind :: u16
  ee_mode :: u8
  ee_detail :: u8

text \<open>What \<open>event_ring_record_aux\<close> captures from the running system.\<close>

record capture =
  cap_cycle :: u64
  cap_store_pc :: u32
  cap_func :: u32
  cap_inprogress :: u32
  cap_interp :: bool
  cap_i_stat :: u32
  cap_i_mask :: u32

record timeline =
  tl_ring :: "nat \<Rightarrow> event_entry"
  tl_seq :: u64

definition current_mode :: "capture \<Rightarrow> u8" where
  "current_mode c = (if cap_inprogress c \<noteq> 0 then 2 else if cap_interp c then 3 else 1)"

definition tl_slot :: "u64 \<Rightarrow> nat" where
  "tl_slot seq = unat (seq AND mask 16)"

definition timeline_record_aux :: "capture \<Rightarrow> u16 \<Rightarrow> u8 \<Rightarrow> u32 \<Rightarrow> timeline \<Rightarrow> timeline" where
  "timeline_record_aux c kind detail aux s =
     s\<lparr>tl_ring := (tl_ring s)(tl_slot (tl_seq s) :=
          \<lparr>ee_seq = tl_seq s, ee_cycle = cap_cycle c, ee_pc = cap_store_pc c, ee_func = cap_func c,
           ee_overlay_fn = cap_inprogress c, ee_i_stat = cap_i_stat c, ee_i_mask = cap_i_mask c,
           ee_aux = aux, ee_kind = kind, ee_mode = current_mode c, ee_detail = detail\<rparr>),
        tl_seq := tl_seq s + 1\<rparr>"

definition timeline_record :: "capture \<Rightarrow> u16 \<Rightarrow> u8 \<Rightarrow> timeline \<Rightarrow> timeline" where
  "timeline_record c kind detail s = timeline_record_aux c kind detail 0 s"

definition zero_event_entry :: event_entry where
  "zero_event_entry = \<lparr>ee_seq = 0, ee_cycle = 0, ee_pc = 0, ee_func = 0, ee_overlay_fn = 0, ee_i_stat = 0,
     ee_i_mask = 0, ee_aux = 0, ee_kind = 0, ee_mode = 0, ee_detail = 0\<rparr>"

definition timeline_clear :: "timeline \<Rightarrow> timeline" where
  "timeline_clear s = s\<lparr>tl_seq := 0, tl_ring := (\<lambda>_. zero_event_entry)\<rparr>"

section \<open>Both are log rings\<close>

lemma slot_Suc: "n \<le> 64 \<Longrightarrow> unat ((w :: u64) + 1) mod 2 ^ n = (unat w + 1) mod 2 ^ n"
proof -
  assume "n \<le> 64"
  then have "(2::nat) ^ n dvd 2 ^ 64" by (rule le_imp_power_dvd)
  then show ?thesis
    by (simp add: unat_word_ariths mod_mod_cancel)
qed

interpretation dt: log_ring DEVTRACE_RING_CAP dt_armed dt_ring "\<lambda>s. dt_slot (dt_seq s)"
  "\<lambda>(cycle, frame, source, detail). device_trace_note cycle frame source detail"
  "\<lambda>(cycle, frame, source, detail) s.
     \<lparr>de_seq = dt_seq s, de_cycle = cycle, de_frame = frame, de_source = source, de_detail = detail\<rparr>"
  by unfold_locales (auto simp: device_trace_note_def dt_slot_def unat_and_mask slot_Suc mod_Suc_eq simp del: power_numeral)

interpretation tl: log_ring "2 ^ 16" "\<lambda>_. True" tl_ring "\<lambda>s. tl_slot (tl_seq s)"
  "\<lambda>(c, kind, detail, aux). timeline_record_aux c kind detail aux"
  "\<lambda>(c, kind, detail, aux) s.
     \<lparr>ee_seq = tl_seq s, ee_cycle = cap_cycle c, ee_pc = cap_store_pc c, ee_func = cap_func c,
      ee_overlay_fn = cap_inprogress c, ee_i_stat = cap_i_stat c, ee_i_mask = cap_i_mask c,
      ee_aux = aux, ee_kind = kind, ee_mode = current_mode c, ee_detail = detail\<rparr>"
  by unfold_locales (auto simp: timeline_record_aux_def tl_slot_def unat_and_mask slot_Suc mod_Suc_eq simp del: power_numeral)


section \<open>Properties\<close>

definition dev_row :: "nat \<times> u64 \<times> u32 \<times> u32 \<times> u32 \<Rightarrow> dev_event" where
  "dev_row r = (case r of (k, cycle, frame, source, detail) \<Rightarrow>
     \<lparr>de_seq = of_nat k, de_cycle = cycle, de_frame = frame, de_source = source, de_detail = detail\<rparr>)"

abbreviation note_all :: "(u64 \<times> u32 \<times> u32 \<times> u32) list \<Rightarrow> dev_trace \<Rightarrow> dev_trace" where
  "note_all \<equiv> fold (\<lambda>(cycle, frame, source, detail). device_trace_note cycle frame source detail)"

lemma device_trace_note_state [simp]:
  "dt_armed (device_trace_note c f so d s) = dt_armed s"
  "dt_armed s \<Longrightarrow> dt_seq (device_trace_note c f so d s) = dt_seq s + 1"
  by (simp_all add: device_trace_note_def)

lemma note_all_state:
  "dt_armed s \<Longrightarrow> dt_seq (note_all evs s) = dt_seq s + of_nat (length evs)"
proof (induction evs arbitrary: s)
  case (Cons e evs)
  obtain c f so d where "e = (c, f, so, d)" by (cases e)
  then show ?case
    using Cons by (simp add: add.assoc)
qed simp

lemma dt_entries:
  "dt_armed s \<Longrightarrow> dt_seq s = of_nat k \<Longrightarrow> dt.entries evs s = map dev_row (enumerate k evs)"
proof (induction evs arbitrary: s k)
  case (Cons e evs)
  obtain c f so d where e: "e = (c, f, so, d)" by (cases e)
  have "dt_seq (device_trace_note c f so d s) = of_nat (Suc k)"
    using Cons.prems by (simp add: add.commute)
  then show ?case
    using Cons.IH [of "device_trace_note c f so d s" "Suc k"] Cons.prems by (simp add: e dev_row_def)
qed simp

text \<open>A dump of the device-event ring is the newest part of the history in order: after
  arming an empty ring and recording any sequence of events (fewer than \<open>2 ^ 64\<close>), asking
  for \<open>m\<close> rows returns the last \<open>min m 2\<^sup>2\<^sup>0\<close> of them, oldest first, numbered as recorded.\<close>

theorem device_trace_newest:
  assumes "length evs < 2 ^ 64"
  shows "device_trace_get m (note_all evs (device_trace_arm True (device_trace_reset s)))
     = take_last (min (unat m) (2 ^ 20)) (map dev_row (enumerate 0 evs))"
proof -
  let ?e = "device_trace_arm True (device_trace_reset s)"
  let ?s = "note_all evs ?e"
  let ?n = "min (unat m) (min (length evs) (2 ^ 20))"
  have s0: "dt_armed ?e" "dt_seq ?e = 0"
    by (simp_all add: device_trace_arm_def device_trace_reset_def)
  have seq: "dt_seq ?s = of_nat (length evs)" and len: "unat (dt_seq ?s) = length evs"
    using note_all_state [OF s0(1), of evs] s0(2) assms by (simp_all add: unat_of_nat64)
  define avail :: u32 where
    "avail = (if dt_seq ?s < of_nat (2 ^ 20) then ucast (dt_seq ?s) else of_nat (2 ^ 20))"
  have avail: "unat avail = min (length evs) (2 ^ 20)"
    using len by (simp add: avail_def word_less_nat_alt unsigned_ucast_eq take_bit_eq_mod)
  define n :: u32 where "n = (if avail < m then avail else m)"
  have n: "unat n = ?n"
    using avail by (auto simp: n_def word_less_nat_alt)
  have slot: "dt_slot (dt_seq ?s - ucast n + of_nat i) = (length evs - ?n + i) mod 2 ^ 20" if "i < unat n" for i
  proof -
    have le: "unat n + i \<le> unat n + length evs" "unat n \<le> length evs"
      using that n by simp_all
    have "dt_seq ?s - ucast n + of_nat i = (of_nat (length evs - unat n + i) :: u64)"
      using le by (simp add: seq of_nat_diff)
    moreover have "length evs - unat n + i < 2 ^ 64"
      using that le assms by linarith
    ultimately show ?thesis
      unfolding dt_slot_def unat_and_mask n by (simp only: unat_of_nat64 n)
  qed
  have "device_trace_get m ?s = map (\<lambda>i. dt_ring ?s ((length evs - ?n + i) mod 2 ^ 20)) [0..<?n]"
    using slot n unfolding device_trace_get_def Let_def avail_def [symmetric] n_def [symmetric]
    by simp
  also have "\<dots> = drop (length evs - ?n) (dt.entries evs ?e)"
    by (rule dt.newest) (simp_all add: s0 dt_slot_def)
  also have "dt.entries evs ?e = map dev_row (enumerate 0 evs)"
    using s0 by (intro dt_entries) simp_all
  finally show ?thesis
    by (simp add: take_last_def min_def)
qed

lemma device_trace_newest_witness:
  "device_trace_get 2 (note_all [(7, 1, 4, 0), (9, 1, 3, 2), (12, 2, 0, 0)]
       (device_trace_arm True (device_trace_reset \<lparr>dt_ring = \<lambda>_. zero_dev_event, dt_seq = 5, dt_armed = False\<rparr>)))
     = take_last (min 2 (2 ^ 20)) (map dev_row (enumerate 0 [(7, 1, 4, 0), (9, 1, 3, 2), (12, 2, 0, 0)]))"
  using device_trace_newest [of "[(7, 1, 4, 0), (9, 1, 3, 2), (12, 2, 0, 0)]" 2] by simp

end
