(* ===== verification/Memcard.thy ===== *)
theory Memcard
  imports Prelude
begin

text \<open>
  Memory card images (\<open>memcard.c\<close>): two cards of 1024 sectors of 128 bytes, kept in memory
  and written back to \<open>.mcd\<close> files.

  The static array \<open>cards[2]\<close> is \<open>cards\<close>; an image is a map from byte offsets to bytes. The
  host file system is \<open>files\<close>, from paths to contents, and \<open>host_io\<close> says what the C library
  reports during one operation: which paths open, how many bytes \<open>fread\<close> and \<open>fwrite\<close> move,
  whether \<open>fflush\<close>, \<open>fclose\<close> and \<open>malloc\<close> succeed and what \<open>stat\<close> gives. Opening with
  \<open>"wb"\<close> truncates, as it does in C. Null pointers are \<open>None\<close>; the result of \<open>mkdir\<close> is
  ignored by the code and is not part of the state.
\<close>

section \<open>State\<close>

definition MAX_CARDS :: nat where "MAX_CARDS = 2"
definition MEMCARD_SIZE :: nat where "MEMCARD_SIZE = 128 * 1024"
definition MEMCARD_SECTOR_SIZE :: nat where "MEMCARD_SECTOR_SIZE = 128"
definition MEMCARD_SECTORS :: nat where "MEMCARD_SECTORS = 1024"

record mem_card =
  card_data :: "nat \<Rightarrow> u8"
  card_path :: string
  card_present :: bool
  card_dirty :: bool

type_synonym file_system = "string \<Rightarrow> u8 list option"

record memcards =
  cards :: "nat \<Rightarrow> mem_card"
  files :: file_system

record host_io =
  opens_read :: "string \<Rightarrow> bool"
  opens_write :: "string \<Rightarrow> bool"
  read_limit :: nat
  write_limit :: nat
  fflush_ok :: bool
  fclose_ok :: bool
  malloc_ok :: bool
  stat_mtime :: "string \<Rightarrow> int option"

record slot_config =
  cfg_path :: "string option"
  cfg_enabled :: bool

record card_summary =
  sum_exists :: bool
  sum_valid :: bool
  sum_used_blocks :: nat
  sum_total_blocks :: nat
  sum_block_used :: "nat \<Rightarrow> u8"
  sum_mtime :: int
  sum_size_bytes :: nat

definition empty_card :: mem_card where
  "empty_card = \<lparr>card_data = (\<lambda>_. 0), card_path = [], card_present = False, card_dirty = False\<rparr>"

definition image_bytes :: "(nat \<Rightarrow> u8) \<Rightarrow> u8 list" where
  "image_bytes d = map d [0..<MEMCARD_SIZE]"

section \<open>Files\<close>

text \<open>\<open>fopen(path, "rb")\<close> and \<open>fread\<close> of one image into \<open>d\<close>: the bytes read and the buffer.\<close>

definition read_image :: "host_io \<Rightarrow> u8 list \<Rightarrow> (nat \<Rightarrow> u8) \<Rightarrow> nat \<times> (nat \<Rightarrow> u8)" where
  "read_image io bytes d =
     (let n = min (read_limit io) (min MEMCARD_SIZE (length bytes))
      in (n, \<lambda>i. if i < n then bytes ! i else d i))"

definition open_read :: "host_io \<Rightarrow> string \<Rightarrow> file_system \<Rightarrow> u8 list option" where
  "open_read io path fs = (if opens_read io path then fs path else None)"

text \<open>\<open>fopen(path, "wb")\<close>, \<open>fwrite\<close>, \<open>fflush\<close>, \<open>fclose\<close>: success of all four, and the files.\<close>

definition write_image :: "host_io \<Rightarrow> string \<Rightarrow> (nat \<Rightarrow> u8) \<Rightarrow> file_system \<Rightarrow> bool \<times> file_system" where
  "write_image io path d fs =
     (if opens_write io path
      then let n = min (write_limit io) MEMCARD_SIZE
           in (n = MEMCARD_SIZE \<and> fflush_ok io \<and> fclose_ok io,
               fs(path := Some (take n (image_bytes d))))
      else (False, fs))"

section \<open>Formatting\<close>

definition memset :: "nat \<Rightarrow> u8 \<Rightarrow> nat \<Rightarrow> (nat \<Rightarrow> u8) \<Rightarrow> nat \<Rightarrow> u8" where
  "memset a v n d = (\<lambda>i. if a \<le> i \<and> i < a + n then v else d i)"

definition frame_checksum :: "(nat \<Rightarrow> u8) \<Rightarrow> nat \<Rightarrow> u8" where
  "frame_checksum d off = fold (\<lambda>i x. x XOR d (off + i)) [0..<127] 0"

definition seal_frame :: "nat \<Rightarrow> (nat \<Rightarrow> u8) \<Rightarrow> nat \<Rightarrow> u8" where
  "seal_frame off d = d(off + 0x7F := frame_checksum d off)"

definition format_header :: "(nat \<Rightarrow> u8) \<Rightarrow> nat \<Rightarrow> u8" where
  "format_header d = seal_frame 0 ((memset 0 0 128 d)(0 := 0x4D, 1 := 0x43))"

definition format_dir_frame :: "nat \<Rightarrow> (nat \<Rightarrow> u8) \<Rightarrow> nat \<Rightarrow> u8" where
  "format_dir_frame s d =
     (let off = s * 128
      in seal_frame off ((memset off 0 128 d)(off + 0 := 0xA0, off + 8 := 0xFF, off + 9 := 0xFF)))"

definition format_broken_frame :: "nat \<Rightarrow> (nat \<Rightarrow> u8) \<Rightarrow> nat \<Rightarrow> u8" where
  "format_broken_frame s d =
     (let off = s * 128
      in seal_frame off ((memset off 0 128 d)
           (off + 0 := 0xFF, off + 1 := 0xFF, off + 2 := 0xFF, off + 3 := 0xFF,
            off + 8 := 0xFF, off + 9 := 0xFF)))"

definition memcard_format :: "(nat \<Rightarrow> u8) \<Rightarrow> nat \<Rightarrow> u8" where
  "memcard_format d0 =
     (let d = format_header (memset 0 0xFF MEMCARD_SIZE d0);
          d = fold format_dir_frame [1..<16] d;
          d = fold format_broken_frame [16..<36] d;
          d = fold (\<lambda>s d. memset (s * 128) 0 128 d) [36..<63] d
      in (\<lambda>i. if 63 * 128 \<le> i \<and> i < 64 * 128 then d (i - 63 * 128) else d i))"

section \<open>Operations\<close>

definition init_path :: "string option \<Rightarrow> nat \<Rightarrow> string option \<Rightarrow> string option" where
  "init_path dir i path =
     (case path of
        Some (c # p) \<Rightarrow> Some (take 511 (c # p))
      | _ \<Rightarrow> (case dir of
                Some dr \<Rightarrow> Some (take 511 (dr @ (if i = 0 then ''/card1.mcd'' else ''/card2.mcd'')))
              | None \<Rightarrow> None))"

definition load_card :: "host_io \<Rightarrow> string \<Rightarrow> mem_card \<times> file_system \<Rightarrow> mem_card \<times> file_system" where
  "load_card io path cf =
     (let (c, fs) = cf; c = c\<lparr>card_path := path\<rparr>
      in case open_read io path fs of
           Some bytes \<Rightarrow>
             (let (n, d) = read_image io bytes (card_data c); c = c\<lparr>card_data := d\<rparr>
              in (if n = MEMCARD_SIZE then c\<lparr>card_present := True\<rparr> else c, fs))
         | None \<Rightarrow>
             (let c = c\<lparr>card_data := memcard_format (card_data c)\<rparr>;
                  (ok, fs) = write_image io path (card_data c) fs
              in (if ok then c\<lparr>card_present := True\<rparr> else c, fs)))"

definition init_slot :: "host_io \<Rightarrow> string option \<Rightarrow> (nat \<Rightarrow> slot_config) option \<Rightarrow> nat \<Rightarrow> memcards \<Rightarrow> memcards" where
  "init_slot io dir slots i m =
     (let enabled = (case slots of Some sl \<Rightarrow> cfg_enabled (sl i) | None \<Rightarrow> True);
          path = (case slots of Some sl \<Rightarrow> cfg_path (sl i) | None \<Rightarrow> None)
      in if \<not> enabled then m
         else case init_path dir i path of
                None \<Rightarrow> m
              | Some p \<Rightarrow>
                  (let (c, fs) = load_card io p (cards m i, files m)
                   in m\<lparr>cards := (cards m)(i := c), files := fs\<rparr>))"

definition memcard_init_slots :: "host_io \<Rightarrow> string option \<Rightarrow> (nat \<Rightarrow> slot_config) option \<Rightarrow> memcards \<Rightarrow> memcards" where
  "memcard_init_slots io dir slots m =
     fold (init_slot io dir slots) [0..<MAX_CARDS] (m\<lparr>cards := (\<lambda>_. empty_card)\<rparr>)"

definition memcard_init :: "host_io \<Rightarrow> string option \<Rightarrow> memcards \<Rightarrow> memcards" where
  "memcard_init io dir = memcard_init_slots io dir (Some (\<lambda>_. \<lparr>cfg_path = None, cfg_enabled = True\<rparr>))"

definition memcard_format_file :: "host_io \<Rightarrow> string option \<Rightarrow> file_system \<Rightarrow> int \<times> file_system" where
  "memcard_format_file io path fs =
     (case path of
        Some (c # p) \<Rightarrow>
          (if \<not> malloc_ok io then (-1, fs)
           else let (ok, fs) = write_image io (c # p) (memcard_format (\<lambda>_. 0)) fs
                in (if ok then 0 else -1, fs))
      | _ \<Rightarrow> (-1, fs))"

definition summary_block :: "(nat \<Rightarrow> u8) \<Rightarrow> nat \<Rightarrow> card_summary \<Rightarrow> card_summary" where
  "summary_block d s m =
     (let used = (d (s * 128) AND 0xF0 = 0x50);
          m = m\<lparr>sum_block_used := (sum_block_used m)(s - 1 := (if used then 1 else 0))\<rparr>
      in if used then m\<lparr>sum_used_blocks := sum_used_blocks m + 1\<rparr> else m)"

definition memcard_summary_path :: "host_io \<Rightarrow> string option \<Rightarrow> file_system \<Rightarrow> card_summary" where
  "memcard_summary_path io path fs =
     (let m = \<lparr>sum_exists = False, sum_valid = False, sum_used_blocks = 0, sum_total_blocks = 15,
               sum_block_used = (\<lambda>_. 0), sum_mtime = 0, sum_size_bytes = 0\<rparr>
      in case path of
           Some (c # p) \<Rightarrow>
             (case open_read io (c # p) fs of
                None \<Rightarrow> m
              | Some bytes \<Rightarrow>
                  (let m = m\<lparr>sum_exists := True\<rparr>
                   in if \<not> malloc_ok io then m
                      else let (n, d) = read_image io bytes (\<lambda>_. 0);
                               m = m\<lparr>sum_size_bytes := n\<rparr>;
                               m = (if n = MEMCARD_SIZE \<and> d 0 = 0x4D \<and> d 1 = 0x43
                                    then fold (summary_block d) [1..<16] (m\<lparr>sum_valid := True\<rparr>)
                                    else m)
                           in case stat_mtime io (c # p) of
                                Some t \<Rightarrow> m\<lparr>sum_mtime := t\<rparr>
                              | None \<Rightarrow> m))
         | _ \<Rightarrow> m)"

definition card_index_ok :: "int \<Rightarrow> bool" where
  "card_index_ok cn \<longleftrightarrow> \<not> (cn < 0 \<or> cn \<ge> int MAX_CARDS)"

definition sector_index_ok :: "int \<Rightarrow> bool" where
  "sector_index_ok sector \<longleftrightarrow> \<not> (sector < 0 \<or> sector \<ge> int MEMCARD_SECTORS)"

definition memcard_read_sector :: "int \<Rightarrow> int \<Rightarrow> (nat \<Rightarrow> u8) \<Rightarrow> memcards \<Rightarrow> int \<times> (nat \<Rightarrow> u8)" where
  "memcard_read_sector cn sector buf m =
     (if \<not> card_index_ok cn then (-1, buf)
      else if \<not> card_present (cards m (nat cn)) then (-1, buf)
      else if \<not> sector_index_ok sector then (-1, buf)
      else (0, \<lambda>i. if i < MEMCARD_SECTOR_SIZE
                    then card_data (cards m (nat cn)) (nat sector * MEMCARD_SECTOR_SIZE + i) else buf i))"

definition store_sector :: "nat \<Rightarrow> (nat \<Rightarrow> u8) \<Rightarrow> (nat \<Rightarrow> u8) \<Rightarrow> nat \<Rightarrow> u8" where
  "store_sector sector buf d =
     (\<lambda>i. if sector * MEMCARD_SECTOR_SIZE \<le> i \<and> i < sector * MEMCARD_SECTOR_SIZE + MEMCARD_SECTOR_SIZE
          then buf (i - sector * MEMCARD_SECTOR_SIZE) else d i)"

definition memcard_write_sector :: "int \<Rightarrow> int \<Rightarrow> (nat \<Rightarrow> u8) \<Rightarrow> memcards \<Rightarrow> int \<times> memcards" where
  "memcard_write_sector cn sector buf m =
     (if \<not> card_index_ok cn then (-1, m)
      else if \<not> card_present (cards m (nat cn)) then (-1, m)
      else if \<not> sector_index_ok sector then (-1, m)
      else let c = cards m (nat cn);
               c = c\<lparr>card_data := store_sector (nat sector) buf (card_data c), card_dirty := True\<rparr>
           in (0, m\<lparr>cards := (cards m)(nat cn := c)\<rparr>))"

definition memcard_flush :: "host_io \<Rightarrow> int \<Rightarrow> memcards \<Rightarrow> memcards" where
  "memcard_flush io cn m =
     (if \<not> card_index_ok cn then m
      else let c = cards m (nat cn)
           in if \<not> card_dirty c then m
              else if card_path c = [] then m
              else let (ok, fs) = write_image io (card_path c) (card_data c) (files m);
                       m = m\<lparr>files := fs\<rparr>
                   in if ok then m\<lparr>cards := (cards m)(nat cn := c\<lparr>card_dirty := False\<rparr>)\<rparr> else m)"

definition memcard_flush_all :: "host_io \<Rightarrow> memcards \<Rightarrow> memcards" where
  "memcard_flush_all io m = fold (\<lambda>i. memcard_flush io (int i)) [0..<MAX_CARDS] m"

definition memcard_is_present :: "int \<Rightarrow> memcards \<Rightarrow> bool" where
  "memcard_is_present cn m \<longleftrightarrow> (if \<not> card_index_ok cn then False else card_present (cards m (nat cn)))"

definition memcard_debug_info :: "int \<Rightarrow> memcards \<Rightarrow> (string \<times> (u8 \<times> u8) \<times> bool \<times> bool) option" where
  "memcard_debug_info cn m =
     (if \<not> card_index_ok cn then None
      else let c = cards m (nat cn)
           in Some (card_path c, (card_data c 0, card_data c 1), card_present c, card_dirty c))"

definition memcard_debug_read_buffer ::
  "int \<Rightarrow> u32 \<Rightarrow> u32 \<Rightarrow> (nat \<Rightarrow> u8) option \<Rightarrow> memcards \<Rightarrow> int \<times> (nat \<Rightarrow> u8) option" where
  "memcard_debug_read_buffer cn offset len dst m =
     (if \<not> card_index_ok cn then (0, dst)
      else if \<not> card_present (cards m (nat cn)) then (0, dst)
      else case dst of
             None \<Rightarrow> (0, dst)
           | Some buf \<Rightarrow>
               (if len = 0 then (0, dst)
                else if offset \<ge> of_nat MEMCARD_SIZE then (0, dst)
                else let avail = of_nat MEMCARD_SIZE - offset;
                         len = (if len > avail then avail else len)
                     in (sint len,
                         Some (\<lambda>i. if i < unat len then card_data (cards m (nat cn)) (unat offset + i)
                                   else buf i))))"

section \<open>A freshly formatted card\<close>

text \<open>Every formatting step overwrites one frame with fixed bytes and leaves the rest.\<close>

definition set_frame :: "nat \<Rightarrow> (nat \<Rightarrow> u8) \<Rightarrow> (nat \<Rightarrow> u8) \<Rightarrow> nat \<Rightarrow> u8" where
  "set_frame s f d = (\<lambda>i. if i div 128 = s then f (i mod 128) else d i)"

definition header_bytes :: "nat \<Rightarrow> u8" where
  "header_bytes = (\<lambda>_. 0)(0 := 0x4D, 1 := 0x43, 127 := 0x0E)"

definition dir_bytes :: "nat \<Rightarrow> u8" where
  "dir_bytes = (\<lambda>_. 0)(0 := 0xA0, 8 := 0xFF, 9 := 0xFF, 127 := 0xA0)"

definition broken_bytes :: "nat \<Rightarrow> u8" where
  "broken_bytes = (\<lambda>_. 0)(0 := 0xFF, 1 := 0xFF, 2 := 0xFF, 3 := 0xFF, 8 := 0xFF, 9 := 0xFF)"

definition blank_byte :: "nat \<Rightarrow> u8" where
  "blank_byte i =
     (let s = i div 128; j = i mod 128
      in if s = 0 \<or> s = 63 then header_bytes j
         else if s \<le> 15 then dir_bytes j
         else if s \<le> 35 then broken_bytes j
         else if s \<le> 62 then 0
         else 0xFF)"

lemma in_frame: "s * 128 \<le> i \<and> i < s * 128 + 128 \<longleftrightarrow> i div 128 = s" for i s :: nat
proof -
  have "i div 128 = s \<longleftrightarrow> s * 128 \<le> i \<and> i < Suc s * 128" by (simp add: div_nat_eqI) linarith
  then show ?thesis by auto
qed

lemma frame_offset: "i div 128 = s \<Longrightarrow> i - s * 128 = i mod 128" for i s :: nat
  by (metis minus_div_mult_eq_mod)

lemma memset_frame: "memset (s * 128) v 128 d = set_frame s (\<lambda>_. v) d"
  by (rule ext) (simp only: memset_def set_frame_def in_frame)

lemma set_frame_upd:
  "j < 128 \<Longrightarrow> (set_frame s f d)(s * 128 + j := v) = set_frame s (f(j := v)) d"
  by (rule ext) (auto simp: set_frame_def)

lemma fold_xor_cong:
  "(\<And>i. i \<in> set xs \<Longrightarrow> f i = g i) \<Longrightarrow> fold (\<lambda>i x. x XOR f i) xs a = fold (\<lambda>i x. x XOR g i) xs (a :: u8)"
  by (induction xs arbitrary: a) auto

lemma frame_checksum_set_frame:
  "frame_checksum (set_frame s f d) (s * 128) = fold (\<lambda>i x. x XOR f i) [0..<127] 0"
  unfolding frame_checksum_def by (rule fold_xor_cong) (simp add: set_frame_def)

lemma seal_set_frame:
  "seal_frame (s * 128) (set_frame s f d) = set_frame s (f(127 := fold (\<lambda>i x. x XOR f i) [0..<127] 0)) d"
  unfolding seal_frame_def frame_checksum_set_frame by (simp add: set_frame_upd)

lemma header_sum: "fold (\<lambda>i x. x XOR ((\<lambda>_. 0)(0 := 0x4D, 1 := 0x43)) i) [0..<127] (0 :: u8) = 0x0E"
  by code_simp

lemma dir_sum:
  "fold (\<lambda>i x. x XOR ((\<lambda>_. 0)(0 := 0xA0, 8 := 0xFF, 9 := 0xFF)) i) [0..<127] (0 :: u8) = 0xA0"
  by code_simp

lemma broken_sum:
  "fold (\<lambda>i x. x XOR ((\<lambda>_. 0)(0 := 0xFF, 1 := 0xFF, 2 := 0xFF, 3 := 0xFF, 8 := 0xFF, 9 := 0xFF)) i) [0..<127] (0 :: u8) = 0"
  by code_simp

lemma format_header_eq: "format_header d = set_frame 0 header_bytes d"
proof -
  have "(memset 0 0 128 d)(0 := 0x4D, 1 := 0x43) = set_frame 0 ((\<lambda>_. 0)(0 := 0x4D, 1 := 0x43)) d"
    using memset_frame [of 0 0 d] set_frame_upd [of 0 0] set_frame_upd [of 1 0] by simp
  then show ?thesis
    unfolding format_header_def header_bytes_def
    using seal_set_frame [of 0] header_sum by simp
qed

lemma format_dir_frame_eq: "format_dir_frame s = set_frame s dir_bytes"
proof (rule ext)
  fix d
  show "format_dir_frame s d = set_frame s dir_bytes d"
    unfolding format_dir_frame_def Let_def memset_frame
    by (simp only: set_frame_upd seal_set_frame dir_sum dir_bytes_def)
qed

lemma format_broken_frame_eq: "format_broken_frame s = set_frame s broken_bytes"
proof (rule ext)
  fix d
  have b: "broken_bytes = ((\<lambda>_. 0)(0 := 0xFF, 1 := 0xFF, 2 := 0xFF, 3 := 0xFF, 8 := 0xFF, 9 := 0xFF))(127 := 0)"
    by (auto simp: broken_bytes_def fun_eq_iff)
  show "format_broken_frame s d = set_frame s broken_bytes d"
    unfolding format_broken_frame_def Let_def memset_frame b
    by (simp only: set_frame_upd seal_set_frame broken_sum)
qed

lemma fold_set_frame:
  "a \<le> b \<Longrightarrow> fold (\<lambda>s. set_frame s f) [a..<b] d = (\<lambda>i. if a \<le> i div 128 \<and> i div 128 < b then f (i mod 128) else d i)"
proof (induction "b - a" arbitrary: b)
  case 0
  then show ?case by (auto simp: fun_eq_iff)
next
  case (Suc n)
  then obtain b' where b: "b = Suc b'" "a \<le> b'" by (cases b) auto
  have "fold (\<lambda>s. set_frame s f) [a..<b'] d = (\<lambda>i. if a \<le> i div 128 \<and> i div 128 < b' then f (i mod 128) else d i)"
    using Suc b by auto
  then show ?case
    using b by (auto simp: set_frame_def fun_eq_iff less_Suc_eq)
qed

lemma div128_SIZE: "i < MEMCARD_SIZE \<longleftrightarrow> i div 128 < 1024"
  unfolding MEMCARD_SIZE_def by (simp add: div_less_iff_less_mult)

lemma memcard_format_byte:
  assumes "i < MEMCARD_SIZE" shows "memcard_format d i = blank_byte i"
proof -
  define h where "h = set_frame 0 header_bytes (memset 0 0xFF MEMCARD_SIZE d)"
  have h: "h k = (if k div 128 = 0 then header_bytes (k mod 128) else 0xFF)" if "k < MEMCARD_SIZE" for k
    using that by (simp add: h_def set_frame_def memset_def)
  have w: "63 * 128 \<le> i \<and> i < 64 * 128 \<longleftrightarrow> i div 128 = 63" using in_frame [of 63 i] by simp
  have m: "i - 63 * 128 = i mod 128" if "i div 128 = 63" using frame_offset [OF that] .
  have "memcard_format d i =
    (let e = (\<lambda>i. if 36 \<le> i div 128 \<and> i div 128 < 63 then 0
        else if 16 \<le> i div 128 \<and> i div 128 < 36 then broken_bytes (i mod 128)
        else if 1 \<le> i div 128 \<and> i div 128 < 16 then dir_bytes (i mod 128) else h i)
     in if i div 128 = 63 then e (i - 63 * 128) else e i)"
    unfolding memcard_format_def Let_def format_header_eq format_dir_frame_eq format_broken_frame_eq
      memset_frame w h_def by (subst fold_set_frame, simp)+ (rule refl)
  also have "\<dots> = blank_byte i"
    using h [OF assms] h [of "i mod 128"] m
    by (auto simp: blank_byte_def Let_def MEMCARD_SIZE_def)
  finally show ?thesis .
qed

text \<open>Every frame the BIOS checks carries the checksum of its first 127 bytes.\<close>

lemma frame_checksum_cong:
  "(\<And>i. i < 127 \<Longrightarrow> d (off + i) = e i) \<Longrightarrow> frame_checksum d off = fold (\<lambda>i x. x XOR e i) [0..<127] 0"
  unfolding frame_checksum_def by (rule fold_xor_cong) simp

lemma frame_sums:
  "fold (\<lambda>i x. x XOR header_bytes i) [0..<127] 0 = header_bytes 127"
  "fold (\<lambda>i x. x XOR dir_bytes i) [0..<127] 0 = dir_bytes 127"
  "fold (\<lambda>i x. x XOR broken_bytes i) [0..<127] 0 = broken_bytes 127"
  "fold (\<lambda>i x. x XOR (\<lambda>_. 0) i) [0..<127] 0 = (0 :: u8)"
  by code_simp+

lemma memcard_format_checksums:
  assumes "k \<le> 63"
  shows "frame_checksum (memcard_format d) (k * 128) = memcard_format d (k * 128 + 127)"
proof -
  define f where "f = (if k = 0 \<or> k = 63 then header_bytes else if k \<le> 15 then dir_bytes
      else if k \<le> 35 then broken_bytes else (\<lambda>_. 0))"
  have b: "memcard_format d (k * 128 + j) = f j" if "j < 128" for j
  proof -
    have "k * 128 + j < MEMCARD_SIZE" using assms that by (simp add: MEMCARD_SIZE_def)
    moreover have "(k * 128 + j) div 128 = k" "(k * 128 + j) mod 128 = j" using that by auto
    ultimately show ?thesis
      using assms by (simp add: memcard_format_byte blank_byte_def f_def)
  qed
  have "frame_checksum (memcard_format d) (k * 128) = fold (\<lambda>i x. x XOR f i) [0..<127] 0"
    by (rule frame_checksum_cong) (simp add: b)
  also have "\<dots> = f 127" unfolding f_def by (auto simp only: frame_sums split: if_splits)
  finally show ?thesis using b [of 127] by simp
qed

section \<open>Sectors\<close>

lemma store_sector_bytes:
  "i < 128 \<Longrightarrow> store_sector s buf d (s' * 128 + i) = (if s' = s then buf i else d (s' * 128 + i))"
proof -
  assume i: "i < 128"
  have "s * 128 \<le> s' * 128 + i \<and> s' * 128 + i < s * 128 + 128 \<longleftrightarrow> s' = s"
    using i in_frame [of s "s' * 128 + i"] by simp
  then show ?thesis unfolding store_sector_def MEMCARD_SECTOR_SIZE_def by auto
qed

lemmas sector_defs = memcard_read_sector_def memcard_write_sector_def card_index_ok_def sector_index_ok_def
  MAX_CARDS_def MEMCARD_SECTORS_def

text \<open>A sector that is written reads back as the 128 bytes written, every other sector of
  either card reads as before, and a write that is refused (no such card, no card inserted, no such
  sector) returns -1 and changes nothing.\<close>

theorem memcard_sector_roundtrip:
  "case memcard_write_sector cn sector buf m of (r, m') \<Rightarrow>
     (if 0 \<le> cn \<and> cn < 2 \<and> card_present (cards m (nat cn)) \<and> 0 \<le> sector \<and> sector < 1024
      then r = 0 \<and> memcard_read_sector cn' sector' b m' =
             (if cn' = cn \<and> sector' = sector then (0, \<lambda>i. if i < 128 then buf i else b i)
              else memcard_read_sector cn' sector' b m)
      else r = -1 \<and> m' = m)"
proof -
  have ne: "nat x = nat y \<longleftrightarrow> x = y" if "0 \<le> x" "0 \<le> y" for x y
    using that by (simp add: eq_nat_nat_iff)
  show ?thesis
    by (auto simp: sector_defs Let_def MEMCARD_SECTOR_SIZE_def store_sector_bytes ne fun_eq_iff not_less not_le)
qed

section \<open>Files and images\<close>

lemma image_bytes_length [simp]: "length (image_bytes d) = MEMCARD_SIZE"
  by (simp add: image_bytes_def)

lemma image_bytes_nth: "i < MEMCARD_SIZE \<Longrightarrow> image_bytes d ! i = d i"
  by (simp add: image_bytes_def)

text \<open>A host on which every library call succeeds.\<close>

definition host_fine :: "host_io \<Rightarrow> bool" where
  "host_fine io \<longleftrightarrow> opens_read io = (\<lambda>_. True) \<and> opens_write io = (\<lambda>_. True)
     \<and> MEMCARD_SIZE \<le> read_limit io \<and> MEMCARD_SIZE \<le> write_limit io
     \<and> fflush_ok io \<and> fclose_ok io \<and> malloc_ok io"

lemma write_image_fine:
  "host_fine io \<Longrightarrow> write_image io path d fs = (True, fs(path := Some (image_bytes d)))"
  by (simp add: write_image_def host_fine_def Let_def min_def)

lemma write_image_saved:
  "write_image io path d fs = (True, fs') \<Longrightarrow> fs' = fs(path := Some (image_bytes d))"
  by (auto simp: write_image_def Let_def min_def split: if_splits)

lemma read_image_fine:
  "host_fine io \<Longrightarrow> length bytes = MEMCARD_SIZE \<Longrightarrow>
     read_image io bytes d = (MEMCARD_SIZE, \<lambda>i. if i < MEMCARD_SIZE then bytes ! i else d i)"
  by (simp add: read_image_def host_fine_def Let_def min_absorb2)

lemma summary_blocks_free:
  "(\<And>s. s \<in> set ss \<Longrightarrow> d (s * 128) AND 0xF0 \<noteq> 0x50) \<Longrightarrow>
     sum_exists (fold (summary_block d) ss m) = sum_exists m \<and>
     sum_valid (fold (summary_block d) ss m) = sum_valid m \<and>
     sum_used_blocks (fold (summary_block d) ss m) = sum_used_blocks m \<and>
     sum_total_blocks (fold (summary_block d) ss m) = sum_total_blocks m \<and>
     sum_size_bytes (fold (summary_block d) ss m) = sum_size_bytes m"
  by (induction ss arbitrary: m) (auto simp: summary_block_def Let_def)

text \<open>On a host whose file operations succeed, formatting a file and then summarising it (what
  the launcher shows) reports an existing, valid card of 131072 bytes with none of its 15 blocks
  used.\<close>

theorem memcard_format_summary:
  assumes "host_fine io" and "path \<noteq> []"
  shows "case memcard_format_file io (Some path) fs of (r, fs') \<Rightarrow>
           r = 0 \<and> (let s = memcard_summary_path io (Some path) fs'
                    in sum_exists s \<and> sum_valid s \<and> sum_used_blocks s = 0 \<and> sum_total_blocks s = 15
                       \<and> sum_size_bytes s = 131072)"
proof -
  obtain c p where p: "path = c # p" using assms(2) by (cases path) auto
  define d where "d = memcard_format (\<lambda>_. 0)"
  define e where "e = (\<lambda>i. if i < MEMCARD_SIZE then image_bytes d ! i else 0)"
  have e: "e i = blank_byte i" if "i < MEMCARD_SIZE" for i
    using that by (simp add: e_def image_bytes_nth d_def memcard_format_byte)
  have dir: "e (s * 128) AND 0xF0 \<noteq> 0x50" if "s \<in> set [1..<16]" for s
  proof -
    have "s * 128 < MEMCARD_SIZE" using that by (auto simp: MEMCARD_SIZE_def)
    then have "e (s * 128) = 0xA0" using that by (auto simp: e blank_byte_def dir_bytes_def)
    then show ?thesis by simp
  qed
  have e01: "e 0 = 0x4D" "e 1 = 0x43"
    by (simp_all add: e MEMCARD_SIZE_def blank_byte_def header_bytes_def)
  have f: "memcard_format_file io (Some path) fs = (0, fs(path := Some (image_bytes d)))"
    using assms(1) by (simp add: memcard_format_file_def p write_image_fine d_def) (simp add: host_fine_def)
  have o: "open_read io path (fs(path := Some (image_bytes d))) = Some (image_bytes d)" "malloc_ok io"
    using assms(1) by (simp_all add: open_read_def host_fine_def)
  have r: "read_image io (image_bytes d) (\<lambda>_. 0) = (MEMCARD_SIZE, e)"
    unfolding e_def by (rule read_image_fine [OF assms(1)]) simp
  show ?thesis
    using summary_blocks_free [of "[1..<16]" e, OF dir]
    unfolding f memcard_summary_path_def prod.case
    by (simp add: o [unfolded p] p r e01 e01(2) [simplified] Let_def split: option.split)
       (simp add: MEMCARD_SIZE_def)
qed

definition host_all_ok :: host_io where
  "host_all_ok = \<lparr>opens_read = (\<lambda>_. True), opens_write = (\<lambda>_. True), read_limit = MEMCARD_SIZE,
     write_limit = MEMCARD_SIZE, fflush_ok = True, fclose_ok = True, malloc_ok = True, stat_mtime = (\<lambda>_. None)\<rparr>"

lemma host_all_ok_fine: "host_fine host_all_ok"
  by (simp add: host_fine_def host_all_ok_def)

theorem memcard_format_summary_witness:
  "fst (memcard_format_file host_all_ok (Some ''a.mcd'') (\<lambda>_. None)) = 0"
  using memcard_format_summary [of host_all_ok "''a.mcd''" "\<lambda>_. None"] host_all_ok_fine
  by (simp add: case_prod_unfold)

section \<open>Cards and their files\<close>

text \<open>
  A card that is present and not dirty has its image on disk. The two slots must not share a file:
  they are loaded from distinct paths.
\<close>

definition card_saved :: "file_system \<Rightarrow> mem_card \<Rightarrow> bool" where
  "card_saved fs c \<longleftrightarrow>
     card_present c \<longrightarrow> card_path c \<noteq> [] \<and>
       (\<not> card_dirty c \<longrightarrow> (\<exists>bytes. fs (card_path c) = Some bytes \<and> take MEMCARD_SIZE bytes = image_bytes (card_data c)))"

definition paths_distinct :: "memcards \<Rightarrow> bool" where
  "paths_distinct m \<longleftrightarrow>
     card_path (cards m 0) = card_path (cards m 1) \<longrightarrow> \<not> card_present (cards m 0) \<and> \<not> card_present (cards m 1)"

definition cards_coherent :: "memcards \<Rightarrow> bool" where
  "cards_coherent m \<longleftrightarrow> card_saved (files m) (cards m 0) \<and> card_saved (files m) (cards m 1)"

datatype card_op = WriteSector int int "nat \<Rightarrow> u8" | Flush int | FlushAll

fun card_step :: "host_io \<times> card_op \<Rightarrow> memcards \<Rightarrow> memcards" where
  "card_step (io, WriteSector cn sector buf) m = snd (memcard_write_sector cn sector buf m)"
| "card_step (io, Flush cn) m = memcard_flush io cn m"
| "card_step (io, FlushAll) m = memcard_flush_all io m"

lemma card_index_cases: "card_index_ok cn \<Longrightarrow> (cn = 0 \<Longrightarrow> P) \<Longrightarrow> (cn = 1 \<Longrightarrow> P) \<Longrightarrow> P"
  unfolding card_index_ok_def MAX_CARDS_def by force

lemma write_image_elsewhere:
  "write_image io path d fs = (ok, fs') \<Longrightarrow> q \<noteq> path \<Longrightarrow> fs' q = fs q"
  by (auto simp: write_image_def Let_def split: if_splits)

lemma card_saved_elsewhere:
  "card_saved fs c \<Longrightarrow> (card_present c \<Longrightarrow> fs' (card_path c) = fs (card_path c)) \<Longrightarrow> card_saved fs' c"
  by (auto simp: card_saved_def)

lemma card_saved_written:
  "card_path c \<noteq> [] \<Longrightarrow> fs (card_path c) = Some (image_bytes (card_data c)) \<Longrightarrow> card_saved fs c"
  by (auto simp: card_saved_def)

lemma card_frame [simp]:
  "card_path (cards (memcard_flush io cn m) i) = card_path (cards m i)"
  "card_present (cards (memcard_flush io cn m) i) = card_present (cards m i)"
  "card_path (cards (snd (memcard_write_sector cn sector buf m)) i) = card_path (cards m i)"
  "card_present (cards (snd (memcard_write_sector cn sector buf m)) i) = card_present (cards m i)"
  by (auto simp: memcard_flush_def memcard_write_sector_def Let_def split: prod.splits)

lemma card_step_frame:
  "card_path (cards (card_step iop m) i) = card_path (cards m i) \<and>
   card_present (cards (card_step iop m) i) = card_present (cards m i)"
  by (cases iop; cases "snd iop") (auto simp: memcard_flush_all_def MAX_CARDS_def numeral_2_eq_2)

lemma paths_distinct_flush: "paths_distinct (memcard_flush io cn m) = paths_distinct m"
  by (simp add: paths_distinct_def)

lemma paths_distinct_step: "paths_distinct (card_step iop m) = paths_distinct m"
  by (simp add: paths_distinct_def card_step_frame)

lemma flush_coherent:
  assumes "cards_coherent m" "paths_distinct m"
  shows "cards_coherent (memcard_flush io cn m)"
proof (cases "card_index_ok cn \<and> card_dirty (cards m (nat cn)) \<and> card_path (cards m (nat cn)) \<noteq> []")
  case False
  then show ?thesis using assms(1) by (auto simp: memcard_flush_def Let_def)
next
  case True
  define c where "c = cards m (nat cn)"
  obtain ok fs where w: "write_image io (card_path c) (card_data c) (files m) = (ok, fs)"
    by (cases "write_image io (card_path c) (card_data c) (files m)")
  have f: "memcard_flush io cn m =
      (if ok then (m\<lparr>files := fs\<rparr>)\<lparr>cards := (cards m)(nat cn := c\<lparr>card_dirty := False\<rparr>)\<rparr> else m\<lparr>files := fs\<rparr>)"
    using True by (simp add: memcard_flush_def Let_def w [unfolded c_def] c_def)
  have this_one: "card_saved fs c" using True assms(1)
    by (elim conjE card_index_cases) (auto simp: card_saved_def cards_coherent_def c_def)
  have written: "card_saved fs (c\<lparr>card_dirty := False\<rparr>)" if ok
    using that w True write_image_saved [of io "card_path c" "card_data c" "files m" fs]
    by (intro card_saved_written) (auto simp: c_def)
  have other: "card_saved fs (cards m j)" if "{j, nat cn} = {0, 1}" for j
  proof (rule card_saved_elsewhere)
    show "card_saved (files m) (cards m j)" using that assms(1) by (auto simp: cards_coherent_def doubleton_eq_iff)
    show "fs (card_path (cards m j)) = files m (card_path (cards m j))" if "card_present (cards m j)"
      using that \<open>{j, nat cn} = {0, 1}\<close> assms(2) w
      by (intro write_image_elsewhere) (auto simp: paths_distinct_def doubleton_eq_iff c_def)
  qed
  from True have "cn = 0 \<or> cn = 1" by (auto elim: card_index_cases)
  then show ?thesis
    using this_one written other [of 0] other [of 1] c_def
    by (auto simp: f cards_coherent_def insert_commute)
qed

lemma write_coherent: "cards_coherent m \<Longrightarrow> cards_coherent (snd (memcard_write_sector cn sector buf m))"
  by (auto simp: memcard_write_sector_def Let_def cards_coherent_def card_saved_def)

lemma step_coherent: "cards_coherent m \<Longrightarrow> paths_distinct m \<Longrightarrow> cards_coherent (card_step iop m)"
  by (cases iop; cases "snd iop")
     (auto simp: write_coherent flush_coherent memcard_flush_all_def MAX_CARDS_def numeral_2_eq_2 paths_distinct_flush)

lemma run_coherent: "cards_coherent m \<Longrightarrow> paths_distinct m \<Longrightarrow> cards_coherent (fold card_step ops m)"
  by (induction ops arbitrary: m) (simp_all add: step_coherent paths_distinct_step)

text \<open>Initialisation: each slot is loaded from, or formatted into, its own file.\<close>

lemma init_path_nonempty: "init_path dir i path = Some p \<Longrightarrow> p \<noteq> []"
  by (auto simp: init_path_def split: option.splits list.splits if_splits)

lemma load_card_saved:
  assumes "load_card io p (empty_card, fs) = (c, fs')" "p \<noteq> []"
  shows "card_saved fs' c \<and> card_path c = p \<and> (\<forall>q. q \<noteq> p \<longrightarrow> fs' q = fs q)"
proof (cases "open_read io p fs")
  case (Some bytes)
  then have "fs p = Some bytes" by (auto simp: open_read_def split: if_splits)
  moreover have "take MEMCARD_SIZE bytes = image_bytes (\<lambda>i. if i < MEMCARD_SIZE then bytes ! i else d i)"
    if "MEMCARD_SIZE \<le> length bytes" for d
    using that by (intro nth_equalityI) (auto simp: image_bytes_def)
  ultimately show ?thesis
    using assms Some
    by (auto simp: load_card_def Let_def read_image_def card_saved_def empty_card_def min_def split: if_splits)
next
  case None
  obtain ok fs1 where w: "write_image io p (memcard_format (\<lambda>_. 0)) fs = (ok, fs1)"
    by (cases "write_image io p (memcard_format (\<lambda>_. 0)) fs")
  then have c: "c = (empty_card\<lparr>card_path := p, card_data := memcard_format (\<lambda>_. 0), card_present := ok\<rparr>)" "fs' = fs1"
    using assms None by (auto simp: load_card_def Let_def empty_card_def split: if_splits)
  then have "card_saved fs' c"
    using w assms(2) write_image_saved [of io p "memcard_format (\<lambda>_. 0)" fs fs1]
    by (auto simp: card_saved_def empty_card_def)
  then show ?thesis using c write_image_elsewhere [OF w] by auto
qed

lemma init_slot_cases:
  assumes "cards m i = empty_card"
  shows "(\<exists>c fs p. init_slot io dir slots i m = m\<lparr>cards := (cards m)(i := c), files := fs\<rparr> \<and> card_saved fs c
            \<and> card_path c = p \<and> (\<forall>q. q \<noteq> p \<longrightarrow> fs q = files m q)) \<or> init_slot io dir slots i m = m"
proof -
  define path where "path = (case slots of Some sl \<Rightarrow> cfg_path (sl i) | None \<Rightarrow> None)"
  define enabled where "enabled = (case slots of Some sl \<Rightarrow> cfg_enabled (sl i) | None \<Rightarrow> True)"
  note [simp] = init_slot_def Let_def path_def [symmetric] enabled_def [symmetric]
  show ?thesis
  proof (cases "enabled \<and> init_path dir i path \<noteq> None")
    case True
    then obtain p where p: "init_path dir i path = Some p" by auto
    obtain c fs where l: "load_card io p (empty_card, files m) = (c, fs)" by (cases "load_card io p (empty_card, files m)")
    have "init_slot io dir slots i m = m\<lparr>cards := (cards m)(i := c), files := fs\<rparr>"
      using True p l assms by simp
    with load_card_saved [OF l init_path_nonempty [OF p]] show ?thesis by blast
  qed auto
qed

lemma empty_card_saved [simp]: "card_saved fs empty_card"
  by (simp add: card_saved_def empty_card_def)

lemma init_coherent:
  assumes "paths_distinct (memcard_init_slots io dir slots m)"
  shows "cards_coherent (memcard_init_slots io dir slots m)"
proof -
  define m0 where "m0 = m\<lparr>cards := (\<lambda>_. empty_card)\<rparr>"
  define m1 where "m1 = init_slot io dir slots 0 m0"
  define m2 where "m2 = init_slot io dir slots 1 m1"
  have m2: "memcard_init_slots io dir slots m = m2"
    by (simp add: memcard_init_slots_def MAX_CARDS_def m0_def m1_def m2_def numeral_2_eq_2)
  have m1: "card_saved (files m1) (cards m1 0) \<and> cards m1 1 = empty_card"
    using init_slot_cases [of m0 0 io dir slots] by (auto simp: m1_def m0_def)
  have "cards m2 0 = cards m1 0 \<and> card_saved (files m2) (cards m2 1)
      \<and> (\<forall>q. q \<noteq> card_path (cards m2 1) \<longrightarrow> files m2 q = files m1 q)"
    using init_slot_cases [of m1 1 io dir slots] m1 by (auto simp: m2_def)
  with m1 assms show ?thesis
    by (auto simp: m2 cards_coherent_def paths_distinct_def intro!: card_saved_elsewhere [of "files m1"])
qed

text \<open>C38: Once the two slots are initialised from distinct files, through any sequence of sector
  writes and flushes, with any of the host's file operations failing, every card that is present and
  not marked dirty has its 131072-byte image as the first 131072 bytes of its file. A slot whose file
  could not be read in full is not present, and bytes past the image are not looked at.\<close>

theorem memcard_files_coherent:
  assumes "paths_distinct (memcard_init_slots io dir slots m)"
  shows "cards_coherent (fold card_step ops (memcard_init_slots io dir slots m))"
  using assms by (intro run_coherent init_coherent)

definition no_files :: memcards where
  "no_files = \<lparr>cards = (\<lambda>_. empty_card), files = (\<lambda>_. None)\<rparr>"

text \<open>Both default slots of an empty directory \<open>d\<close>, on a host without faults.\<close>

definition demo_cards :: memcards where
  "demo_cards = memcard_init_slots host_all_ok (Some ''d'') None no_files"

lemma demo_cards_eq:
  "card_path (cards demo_cards 0) = ''d/card1.mcd''" "card_path (cards demo_cards 1) = ''d/card2.mcd''"
  "card_present (cards demo_cards 0)" "card_present (cards demo_cards 1)"
  by (simp_all add: demo_cards_def memcard_init_slots_def MAX_CARDS_def numeral_2_eq_2 init_slot_def init_path_def
      load_card_def open_read_def write_image_fine [OF host_all_ok_fine] no_files_def Let_def empty_card_def)

theorem memcard_files_coherent_witness:
  "cards_coherent (fold card_step [(host_all_ok, WriteSector 0 5 (\<lambda>_. 7)), (host_all_ok, FlushAll)] demo_cards)"
  unfolding demo_cards_def
  by (rule memcard_files_coherent) (simp add: paths_distinct_def demo_cards_eq [unfolded demo_cards_def, simplified])

end
