(* ===== verification/Sio.thy ===== *)
theory Sio
  imports Memcard
begin

text \<open>
  The serial port SIO0 with its pads and memory cards (\<open>sio.c\<close>, built with
  \<open>SIO_MODEL_CYCLE_PACED = 1\<close>, the default of \<open>sio.h\<close>).

  The static variables of \<open>sio.c\<close> are grouped by the part of the file that owns them: the pads
  (\<open>pad_regs\<close>), one card controller's protocol state (\<open>mc_regs\<close>; the working variables \<open>mc_*\<close>
  are \<open>mcw\<close> and \<open>mc_slots[2]\<close> is \<open>mc_slots\<close>), the shifter (\<open>shift_regs\<close>), the access-paced
  interrupt context (\<open>irq_regs\<close>), the counters (\<open>sio_counts\<close>) and the three rings (\<open>sio_rings\<close>).
  C flags are bool, slot numbers and buffer indices are nat, \<open>int\<close> countdowns are int. What an
  operation reads from elsewhere (the current function, the status register, one byte of RAM, the
  host's file operations) is the record \<open>sio_env\<close>; what it reports to the diagnostic rings of other
  files is kept as logs, newest first.
\<close>

section \<open>Data\<close>

definition IRQ_SIO0 :: nat where "IRQ_SIO0 = 7"
definition SIO_BAUD_CYCLES_DEFAULT :: int where "SIO_BAUD_CYCLES_DEFAULT = 1088"
definition SIO_ACK_CYCLES_DEFAULT :: int where "SIO_ACK_CYCLES_DEFAULT = 170"
definition SIO_TRACE_CAP :: nat where "SIO_TRACE_CAP = 1048576"
definition SIO_TXN_CAP :: nat where "SIO_TXN_CAP = 65536"
definition SIO_IRQ_RING_CAP :: nat where "SIO_IRQ_RING_CAP = 1048576"
definition SIO_TXN_MAX_BYTES :: nat where "SIO_TXN_MAX_BYTES = 256"

definition SIO_STAT_TX_RDY :: u16 where "SIO_STAT_TX_RDY = push_bit 0 1"
definition SIO_STAT_RX_RDY :: u16 where "SIO_STAT_RX_RDY = push_bit 1 1"
definition SIO_STAT_TX_EMPTY :: u16 where "SIO_STAT_TX_EMPTY = push_bit 2 1"
definition SIO_STAT_ACK :: u16 where "SIO_STAT_ACK = push_bit 7 1"
definition SIO_STAT_IRQ :: u16 where "SIO_STAT_IRQ = push_bit 9 1"

definition SIO_CTRL_TX_EN :: u16 where "SIO_CTRL_TX_EN = push_bit 0 1"
definition SIO_CTRL_SELECT :: u16 where "SIO_CTRL_SELECT = push_bit 1 1"
definition SIO_CTRL_ACK :: u16 where "SIO_CTRL_ACK = push_bit 4 1"
definition SIO_CTRL_RESET :: u16 where "SIO_CTRL_RESET = push_bit 6 1"
definition SIO_CTRL_ACK_IRQ_EN :: u16 where "SIO_CTRL_ACK_IRQ_EN = push_bit 12 1"
definition SIO_CTRL_SLOT :: u16 where "SIO_CTRL_SLOT = push_bit 13 1"

datatype pad_st = PAD_IDLE | PAD_WAIT_ACCESS | PAD_SEND_RESPONSE

datatype mc_st =
    MC_IDLE | MC_CMD | MC_ID1 | MC_ID2 | MC_ADDR_MSB | MC_ADDR_LSB
  | MC_READ_ACK1 | MC_READ_ACK2 | MC_READ_MSB_ECHO | MC_READ_LSB_ECHO | MC_READ_DATA
  | MC_READ_CHK | MC_READ_END
  | MC_WRITE_LSB_ECHO | MC_WRITE_DATA | MC_WRITE_CHK | MC_WRITE_ACK1 | MC_WRITE_ACK2 | MC_WRITE_END
  | MC_GETID_1 | MC_GETID_2 | MC_GETID_3 | MC_GETID_4

text \<open>The enumeration values, which the code compares and records.\<close>

primrec mc_num :: "mc_st \<Rightarrow> nat" where
  "mc_num MC_IDLE = 0" | "mc_num MC_CMD = 1" | "mc_num MC_ID1 = 2" | "mc_num MC_ID2 = 3"
| "mc_num MC_ADDR_MSB = 4" | "mc_num MC_ADDR_LSB = 5" | "mc_num MC_READ_ACK1 = 6"
| "mc_num MC_READ_ACK2 = 7" | "mc_num MC_READ_MSB_ECHO = 8" | "mc_num MC_READ_LSB_ECHO = 9"
| "mc_num MC_READ_DATA = 10" | "mc_num MC_READ_CHK = 11" | "mc_num MC_READ_END = 12"
| "mc_num MC_WRITE_LSB_ECHO = 13" | "mc_num MC_WRITE_DATA = 14" | "mc_num MC_WRITE_CHK = 15"
| "mc_num MC_WRITE_ACK1 = 16" | "mc_num MC_WRITE_ACK2 = 17" | "mc_num MC_WRITE_END = 18"
| "mc_num MC_GETID_1 = 19" | "mc_num MC_GETID_2 = 20" | "mc_num MC_GETID_3 = 21" | "mc_num MC_GETID_4 = 22"

datatype active_dev = DEV_NONE | DEV_PAD | DEV_MEMCARD

primrec dev_num :: "active_dev \<Rightarrow> nat" where
  "dev_num DEV_NONE = 0" | "dev_num DEV_PAD = 1" | "dev_num DEV_MEMCARD = 2"

datatype bus_owner = OWNER_NONE | OWNER_CARD | OWNER_PAD | OWNER_UNKNOWN

datatype txn_end =
    TXN_END_OPEN | TXN_END_SUCCESS | TXN_END_ABORT_RESELECT | TXN_END_ABORT_RESET
  | TXN_END_ABORT_SLOT | TXN_END_ABORT_BAD_CMD | TXN_END_ABORT_OTHER

datatype irq_src = IRQ_SRC_UNKNOWN | IRQ_SRC_CARD_ACK | IRQ_SRC_PAD_ACK

datatype sr_kind =
    SR_TX_DATA_WRITE | SR_RX_DATA_READ | SR_STAT_READ | SR_CTRL_WRITE | SR_MODE_WRITE | SR_BAUD_WRITE
  | SR_SHIFT_START | SR_BUFFER_LOAD | SR_TX_DROPPED | SR_SHIFT_DONE | SR_ACK_FIRE | SR_SELECT_ASSERT
  | SR_SELECT_DEASS | SR_RESET

record sio_env =
  env_func :: u32
  env_sr :: u32
  env_in_exception :: u8
  env_ram_7514 :: u8
  env_io :: host_io

record pad_regs =
  pad_buttons :: "nat \<Rightarrow> u16"
  pad_analog :: "nat \<Rightarrow> bool"
  pad_stick :: "nat \<Rightarrow> nat \<Rightarrow> u8"
  analog_mode_locked :: "nat \<Rightarrow> bool"
  pad_connected :: "nat \<Rightarrow> bool"
  pad_state :: pad_st
  pad_response :: "nat \<Rightarrow> u8"
  pad_response_len :: nat
  pad_response_idx :: nat
  pad_current_cmd :: u8
  pad_in_config :: "nat \<Rightarrow> bool"
  pad_supports_config :: "nat \<Rightarrow> bool"
  pad_type_req :: "nat \<Rightarrow> bool option"
  pad_legacy_cfg :: bool

record mc_regs =
  mc_state :: mc_st
  mc_cmd :: u8
  mc_sector :: u16
  mc_sector_msb :: u8
  mc_sector_lsb :: u8
  mc_data :: "nat \<Rightarrow> u8"
  mc_data_idx :: nat
  mc_checksum :: u8
  mc_flag :: u8

record shift_regs =
  timing_active :: bool
  shift_active :: bool
  shift_byte :: u8
  shift_remaining :: int
  tx_buffered :: bool
  tx_buffer :: u8
  shift_ack_irq_en :: bool
  tx_buffer_ack_irq_en :: bool
  pending_ack :: bool
  ack_remaining :: int
  pending_ack_irq_en :: bool
  owner :: bus_owner
  bus_byte_index :: u32

record irq_regs =
  irq_pending :: bool
  irq_countdown :: int
  ack_visible_reads :: int
  irq_source :: irq_src
  irq_slot :: u8
  irq_delay :: u8
  irq_mc_state :: u8
  irq_byte_seq :: u32

record arm_audit =
  au_tx_total :: u32
  au_armed :: u32
  au_no_ack :: u32
  au_no_ackirqen :: u32
  au_ctrl_last :: u16
  au_stat_pre_last :: u16
  au_stat_post_last :: u16
  au_countdown_after_last :: int

record burst_stats =
  bs_calls :: nat
  bs_iters_total :: nat
  bs_iter_max_seen :: nat
  bs_break_idle :: nat
  bs_break_mode_clear :: nat
  bs_break_capped :: nat
  bs_fires_in_burst :: nat
  bs_last_iters :: nat
  bs_last_break_reason :: nat

record sio_counts =
  mc_probe_count :: nat
  mc_ack_count :: nat
  mc_cmd_count :: nat
  mc_read_count :: nat
  mc_read_done :: nat
  mc_last_caller :: u32
  mc_abort_count :: nat
  mc_abort_state :: nat
  mc_abort_ctrl :: u16
  mc_max_state :: nat
  tx_writes :: nat
  tx_gated :: nat
  last_ctrl_on_tx :: u16
  poll_counter :: u32
  debug_polls :: nat
  pace_buffered :: nat
  pace_dropped_busy :: nat
  pace_promoted :: nat
  pace_promoted_card :: nat
  pace_pad_in_card_data :: nat
  pace_shift_completes :: nat
  pace_ack_fires :: nat
  advance_called :: nat
  advance_with_work :: nat
  audit_card :: arm_audit
  audit_pad :: arm_audit
  audit_none :: arm_audit
  burst :: burst_stats
  last_stat_observed :: u16

record sio_trace_entry =
  tr_seq :: u32
  tr_tx :: u8
  tr_rx :: u8
  tr_mc_pre :: nat
  tr_mc_post :: nat
  tr_dev_pre :: nat
  tr_dev_post :: nat
  tr_ctrl :: u16
  tr_func :: u32
  tr_sr :: u32
  tr_was_abort :: bool
  tr_irq_countdown :: u8
  tr_in_exception :: u8
  tr_counter_7514 :: u8
  tr_slot0 :: nat
  tr_slot1 :: nat

record sio_txn_entry =
  tx_seq :: u32
  tx_start_byte_seq :: u32
  tx_end_byte_seq :: u32
  tx_start_func :: u32
  tx_end_func :: u32
  tx_slot :: u8
  tx_cmd :: u8
  tx_sector :: u16
  tx_ack_count :: u16
  tx_terminal_state :: nat
  tx_end_reason :: txn_end
  tx_byte_count :: u16
  tx_tx :: "nat \<Rightarrow> u8"
  tx_rx :: "nat \<Rightarrow> u8"

record sio_irq_entry =
  ir_seq :: u32
  ir_byte_seq :: u32
  ir_i_stat_before :: u32
  ir_i_stat_after :: u32
  ir_mc_state :: u8
  ir_active_device :: nat
  ir_ctrl :: u16
  ir_func :: u32
  ir_counter_7514 :: u8
  ir_source :: irq_src
  ir_slot :: u8
  ir_delay :: u8

record sr_entry =
  sr_kind_of :: sr_kind
  sr_tx :: u8
  sr_rx :: u8
  sr_ctrl :: u16
  sr_stat :: u16
  sr_shifter :: shift_regs
  sr_active_device :: active_dev
  sr_mc_state :: mc_st
  sr_pad_state :: pad_st
  sr_selected_slot :: nat

record sio_rings =
  trace_buf :: "nat \<Rightarrow> sio_trace_entry"
  trace_idx :: nat
  trace_seq :: u32
  txn_buf :: "nat \<Rightarrow> sio_txn_entry"
  txn_idx :: nat
  txn_seq :: u32
  txn_is_open :: bool
  txn_cur :: sio_txn_entry
  irq_buf :: "nat \<Rightarrow> sio_irq_entry"
  irq_idx :: nat
  irq_seq :: u32

text \<open>Calls into the diagnostic rings of other files.\<close>

datatype diag_call =
    StarvationRecord sr_entry
  | CardReadSummary nat u8 u16 u8 nat "nat \<Rightarrow> u8"
  | CardDataWritesArm u8 nat nat nat
  | LogSioWrite u32 u32

record sio_st =
  sio_tx_data :: u8
  sio_rx_data :: u8
  sio_stat :: u16
  sio_mode :: u16
  sio_ctrl :: u16
  sio_baud :: u16
  pads :: pad_regs
  selected_slot :: nat
  mcw :: mc_regs
  mc_slot :: nat
  mc_slots :: "nat \<Rightarrow> mc_regs"
  active_device :: active_dev
  shifter :: shift_regs
  irqs :: irq_regs
  counts :: sio_counts
  rings :: sio_rings
  mcards :: memcards
  sio_port :: irq_port
  diag :: "diag_call list"

section \<open>Slots, logs and rings\<close>

definition mc_save_slot :: "nat \<Rightarrow> sio_st \<Rightarrow> sio_st" where
  "mc_save_slot slot s = (if slot > 1 then s else s\<lparr>mc_slots := (mc_slots s)(slot := mcw s)\<rparr>)"

definition mc_load_slot :: "nat \<Rightarrow> sio_st \<Rightarrow> sio_st" where
  "mc_load_slot slot s = (if slot > 1 then s else s\<lparr>mcw := mc_slots s slot\<rparr>)"

definition sio_card_protocol_active :: "sio_st \<Rightarrow> bool" where
  "sio_card_protocol_active s \<longleftrightarrow>
     mc_state (mcw s) \<noteq> MC_IDLE \<or> mc_state (mc_slots s 0) \<noteq> MC_IDLE \<or> mc_state (mc_slots s 1) \<noteq> MC_IDLE"

definition sr_record :: "sr_kind \<Rightarrow> u8 \<Rightarrow> u8 \<Rightarrow> sio_st \<Rightarrow> sio_st" where
  "sr_record kind tx rx s =
     s\<lparr>diag := StarvationRecord
         \<lparr>sr_kind_of = kind, sr_tx = tx, sr_rx = rx, sr_ctrl = sio_ctrl s, sr_stat = sio_stat s,
          sr_shifter = shifter s, sr_active_device = active_device s, sr_mc_state = mc_state (mcw s),
          sr_pad_state = pad_state (pads s), sr_selected_slot = selected_slot s\<rparr> # diag s\<rparr>"

definition txn_open :: "u8 \<Rightarrow> u32 \<Rightarrow> u32 \<Rightarrow> sio_rings \<Rightarrow> sio_rings" where
  "txn_open slot start_byte_seq func r =
     r\<lparr>txn_cur := \<lparr>tx_seq = txn_seq r, tx_start_byte_seq = start_byte_seq, tx_end_byte_seq = 0,
          tx_start_func = func, tx_end_func = 0, tx_slot = slot, tx_cmd = 0, tx_sector = 0xFFFF,
          tx_ack_count = 0, tx_terminal_state = mc_num MC_IDLE, tx_end_reason = TXN_END_OPEN,
          tx_byte_count = 0, tx_tx = (\<lambda>_. 0), tx_rx = (\<lambda>_. 0)\<rparr>,
       txn_is_open := True\<rparr>"

definition txn_record_byte :: "u8 \<Rightarrow> u8 \<Rightarrow> u8 \<Rightarrow> u16 \<Rightarrow> bool \<Rightarrow> u32 \<Rightarrow> sio_rings \<Rightarrow> sio_rings" where
  "txn_record_byte tx rx cmd_after sector_after got_ack byte_seq r =
     (if \<not> txn_is_open r then r
      else let c = txn_cur r;
               c = (if unat (tx_byte_count c) < SIO_TXN_MAX_BYTES
                    then c\<lparr>tx_tx := (tx_tx c)(unat (tx_byte_count c) := tx),
                           tx_rx := (tx_rx c)(unat (tx_byte_count c) := rx)\<rparr> else c);
               c = c\<lparr>tx_byte_count := tx_byte_count c + 1, tx_end_byte_seq := byte_seq\<rparr>;
               c = (if cmd_after \<noteq> 0 \<and> tx_cmd c = 0 then c\<lparr>tx_cmd := cmd_after\<rparr> else c);
               c = (if sector_after \<noteq> 0xFFFF then c\<lparr>tx_sector := sector_after\<rparr> else c);
               c = (if got_ack then c\<lparr>tx_ack_count := tx_ack_count c + 1\<rparr> else c)
           in r\<lparr>txn_cur := c\<rparr>)"

definition txn_close :: "txn_end \<Rightarrow> nat \<Rightarrow> u32 \<Rightarrow> sio_rings \<Rightarrow> sio_rings" where
  "txn_close end_reason terminal_state func r =
     (if \<not> txn_is_open r then r
      else let c = (txn_cur r)\<lparr>tx_end_reason := end_reason, tx_terminal_state := terminal_state,
                               tx_end_func := func\<rparr>
           in r\<lparr>txn_cur := c, txn_buf := (txn_buf r)(txn_idx r := c),
                txn_idx := (txn_idx r + 1) mod SIO_TXN_CAP, txn_seq := txn_seq r + 1,
                txn_is_open := False\<rparr>)"

definition audit_record :: "u16 \<Rightarrow> u16 \<Rightarrow> u16 \<Rightarrow> bool \<Rightarrow> int \<Rightarrow> arm_audit \<Rightarrow> arm_audit" where
  "audit_record ctrl_pre stat_pre stat_post armed countdown_after a =
     (let a = a\<lparr>au_tx_total := au_tx_total a + 1\<rparr>;
          a = (if armed then a\<lparr>au_armed := au_armed a + 1\<rparr>
               else if \<not> has stat_post 0x0080 then a\<lparr>au_no_ack := au_no_ack a + 1\<rparr>
               else if \<not> has ctrl_pre 0x1000 then a\<lparr>au_no_ackirqen := au_no_ackirqen a + 1\<rparr>
               else a)
      in a\<lparr>au_ctrl_last := ctrl_pre, au_stat_pre_last := stat_pre, au_stat_post_last := stat_post,
           au_countdown_after_last := countdown_after\<rparr>)"

definition sio_card_arm_audit_record ::
  "active_dev \<Rightarrow> u16 \<Rightarrow> u16 \<Rightarrow> u16 \<Rightarrow> bool \<Rightarrow> int \<Rightarrow> sio_counts \<Rightarrow> sio_counts" where
  "sio_card_arm_audit_record dev ctrl_pre stat_pre stat_post armed countdown_after k =
     (let f = audit_record ctrl_pre stat_pre stat_post armed countdown_after
      in case dev of
           DEV_MEMCARD \<Rightarrow> k\<lparr>audit_card := f (audit_card k)\<rparr>
         | DEV_PAD \<Rightarrow> k\<lparr>audit_pad := f (audit_pad k)\<rparr>
         | DEV_NONE \<Rightarrow> k\<lparr>audit_none := f (audit_none k)\<rparr>)"

definition sio_debug_poll_maybe :: "sio_st \<Rightarrow> sio_st" where
  "sio_debug_poll_maybe s =
     (let k = counts s; n = poll_counter k + 1; k = k\<lparr>poll_counter := n\<rparr>
      in s\<lparr>counts := (if n AND 0x3FF = 0 then k\<lparr>debug_polls := debug_polls k + 1\<rparr> else k)\<rparr>)"

section \<open>Initialisation\<close>

definition pad_end :: "pad_regs \<Rightarrow> pad_regs" where
  "pad_end p = p\<lparr>pad_state := PAD_IDLE, pad_response_len := 0, pad_response_idx := 0, pad_current_cmd := 0\<rparr>"

definition shift_idle :: "shift_regs \<Rightarrow> shift_regs" where
  "shift_idle h =
     h\<lparr>shift_active := False, shift_remaining := 0, tx_buffered := False, shift_ack_irq_en := False,
       tx_buffer_ack_irq_en := False, pending_ack := False, ack_remaining := 0, pending_ack_irq_en := False,
       timing_active := False\<rparr>"

definition bus_release :: "shift_regs \<Rightarrow> shift_regs" where
  "bus_release h = h\<lparr>owner := OWNER_NONE, bus_byte_index := 0\<rparr>"

definition mc_clear :: "mc_regs \<Rightarrow> mc_regs" where
  "mc_clear c = c\<lparr>mc_state := MC_IDLE, mc_cmd := 0, mc_sector := 0, mc_sector_msb := 0, mc_sector_lsb := 0,
     mc_data_idx := 0, mc_checksum := 0\<rparr>"

definition both :: "(mc_regs \<Rightarrow> mc_regs) \<Rightarrow> (nat \<Rightarrow> mc_regs) \<Rightarrow> nat \<Rightarrow> mc_regs" where
  "both f sl = sl(0 := f (sl 0), 1 := f (sl 1))"

definition irq_disarm :: "irq_regs \<Rightarrow> irq_regs" where
  "irq_disarm q = q\<lparr>irq_pending := False, irq_countdown := 0, ack_visible_reads := 0\<rparr>"

definition sio_init :: "sio_st \<Rightarrow> sio_st" where
  "sio_init s =
     s\<lparr>sio_tx_data := 0, sio_rx_data := 0xFF, sio_stat := SIO_STAT_TX_RDY OR SIO_STAT_TX_EMPTY,
       sio_mode := 0, sio_ctrl := 0, sio_baud := 0,
       pads := (pad_end (pads s))\<lparr>pad_buttons := (pad_buttons (pads s))(0 := 0xFFFF, 1 := 0xFFFF),
          pad_in_config := (pad_in_config (pads s))(0 := False, 1 := False),
          pad_type_req := (pad_type_req (pads s))(0 := None, 1 := None),
          analog_mode_locked := (analog_mode_locked (pads s))(0 := False, 1 := False),
          pad_connected := (\<lambda>_. False)\<rparr>,
       mcw := (mcw s)\<lparr>mc_state := MC_IDLE\<rparr>,
       mc_slots := both (\<lambda>c. (mc_clear c)\<lparr>mc_data := (\<lambda>_. 0), mc_flag := 0x08\<rparr>) (mc_slots s),
       active_device := DEV_NONE,
       irqs := irq_disarm (irqs s),
       shifter := bus_release (shift_idle (shifter s)),
       rings := (rings s)\<lparr>txn_is_open := False\<rparr>\<rparr>"

section \<open>Host-side pad operations\<close>

abbreviation slot_ok :: "int \<Rightarrow> bool" where
  "slot_ok slot \<equiv> 0 \<le> slot \<and> slot \<le> 1"

definition sio_connect_pad :: "int \<Rightarrow> pad_regs \<Rightarrow> pad_regs" where
  "sio_connect_pad slot p =
     (if slot_ok slot then p\<lparr>pad_connected := (pad_connected p)(nat slot := True)\<rparr> else p)"

definition sio_set_pad_connected :: "int \<Rightarrow> bool \<Rightarrow> pad_regs \<Rightarrow> pad_regs" where
  "sio_set_pad_connected slot connected p =
     (if \<not> slot_ok slot then p else p\<lparr>pad_connected := (pad_connected p)(nat slot := connected)\<rparr>)"

definition sio_set_pad_config_capable :: "int \<Rightarrow> bool \<Rightarrow> pad_regs \<Rightarrow> pad_regs" where
  "sio_set_pad_config_capable slot capable p =
     (if \<not> slot_ok slot then p
      else let p = p\<lparr>pad_supports_config := (pad_supports_config p)(nat slot := capable)\<rparr>
           in if \<not> capable then p\<lparr>pad_in_config := (pad_in_config p)(nat slot := False)\<rparr> else p)"

definition sio_set_pad_state_slot :: "int \<Rightarrow> u16 \<Rightarrow> pad_regs \<Rightarrow> pad_regs" where
  "sio_set_pad_state_slot slot buttons p =
     (if slot_ok slot then p\<lparr>pad_buttons := (pad_buttons p)(nat slot := buttons)\<rparr> else p)"

definition sio_set_pad_state :: "u16 \<Rightarrow> pad_regs \<Rightarrow> pad_regs" where
  "sio_set_pad_state buttons p = p\<lparr>pad_buttons := (pad_buttons p)(0 := buttons)\<rparr>"

definition sio_set_pad_sticks :: "int \<Rightarrow> u8 \<Rightarrow> u8 \<Rightarrow> u8 \<Rightarrow> u8 \<Rightarrow> pad_regs \<Rightarrow> pad_regs" where
  "sio_set_pad_sticks slot lx ly rx ry p =
     (if \<not> slot_ok slot then p
      else p\<lparr>pad_stick := (pad_stick p)(nat slot := (pad_stick p (nat slot))(0 := lx, 1 := ly, 2 := rx, 3 := ry))\<rparr>)"

definition sio_set_pad_analog :: "int \<Rightarrow> bool \<Rightarrow> u8 \<Rightarrow> u8 \<Rightarrow> u8 \<Rightarrow> u8 \<Rightarrow> pad_regs \<Rightarrow> pad_regs" where
  "sio_set_pad_analog slot enabled lx ly rx ry p =
     (if \<not> slot_ok slot then p
      else p\<lparr>pad_analog := (pad_analog p)(nat slot := enabled),
             pad_type_req := (pad_type_req p)(nat slot := None),
             pad_stick := (pad_stick p)(nat slot := (pad_stick p (nat slot))(0 := lx, 1 := ly, 2 := rx, 3 := ry))\<rparr>)"

definition sio_request_pad_type :: "int \<Rightarrow> bool \<Rightarrow> pad_regs \<Rightarrow> pad_regs" where
  "sio_request_pad_type slot analog p =
     (if \<not> slot_ok slot then p
      else p\<lparr>pad_type_req := (pad_type_req p)
               (nat slot := (if pad_analog p (nat slot) = analog then None else Some analog))\<rparr>)"

definition sio_get_pad_buttons_slot :: "int \<Rightarrow> pad_regs \<Rightarrow> u16" where
  "sio_get_pad_buttons_slot slot p = (if slot_ok slot then pad_buttons p (nat slot) else 0xFFFF)"

definition sio_get_pad_connected :: "int \<Rightarrow> pad_regs \<Rightarrow> bool" where
  "sio_get_pad_connected slot p = (if \<not> slot_ok slot then False else pad_connected p (nat slot))"

definition sio_get_pad_analog :: "int \<Rightarrow> pad_regs \<Rightarrow> bool" where
  "sio_get_pad_analog slot p = (if slot_ok slot then pad_analog p (nat slot) else False)"

definition sio_set_legacy_cfg :: "bool \<Rightarrow> pad_regs \<Rightarrow> pad_regs" where
  "sio_set_legacy_cfg v p =
     p\<lparr>pad_legacy_cfg := v, pad_in_config := (pad_in_config p)(0 := False, 1 := False)\<rparr>"

section \<open>The pads\<close>

definition raise_ack :: "sio_st \<Rightarrow> sio_st" where
  "raise_ack s = s\<lparr>sio_stat := sio_stat s OR SIO_STAT_ACK\<rparr>"

definition set_rx :: "u8 \<Rightarrow> sio_st \<Rightarrow> sio_st" where
  "set_rx b s = s\<lparr>sio_rx_data := b\<rparr>"

definition byte_done :: "sio_st \<Rightarrow> sio_st" where
  "byte_done s = s\<lparr>sio_stat := (sio_stat s OR SIO_STAT_RX_RDY) OR (SIO_STAT_TX_RDY OR SIO_STAT_TX_EMPTY)\<rparr>"

text \<open>The pending host type change is applied only to a pad that is not in config mode and not
  locked; the caller checks that the bus is idle.\<close>

definition pad_apply_type :: "nat \<Rightarrow> pad_regs \<Rightarrow> pad_regs" where
  "pad_apply_type k p =
     (case pad_type_req p k of
        Some analog \<Rightarrow>
          (if \<not> pad_in_config p k \<and> \<not> analog_mode_locked p k
           then p\<lparr>pad_analog := (pad_analog p)(k := analog), pad_type_req := (pad_type_req p)(k := None)\<rparr>
           else p)
      | None \<Rightarrow> p)"

definition pad_id :: "pad_regs \<Rightarrow> nat \<Rightarrow> u8" where
  "pad_id p k = (if pad_in_config p k then 0xF3 else if pad_analog p k then 0x73 else 0x41)"

definition pad_buttons_bytes :: "pad_regs \<Rightarrow> nat \<Rightarrow> u8 list" where
  "pad_buttons_bytes p k = [ucast (pad_buttons p k AND 0xFF), ucast (drop_bit 8 (pad_buttons p k))]"

definition pad_sticks_bytes :: "pad_regs \<Rightarrow> nat \<Rightarrow> u8 list" where
  "pad_sticks_bytes p k = [pad_stick p k 2, pad_stick p k 3, pad_stick p k 0, pad_stick p k 1]"

definition pad_canned :: "pad_regs \<Rightarrow> nat \<Rightarrow> u8 \<Rightarrow> u8 list" where
  "pad_canned p k tx =
     (if tx = 0x45 then [0xF3, 0x5A, 0x03, if pad_analog p k then 0x01 else 0x00, 0x01, 0x02, 0x01, 0x00]
      else if tx = 0x46 then [0xF3, 0x5A, 0x00, 0x00, 0x01, 0x02, 0x00, 0x0A]
      else if tx = 0x47 then [0xF3, 0x5A, 0x00, 0x00, 0x02, 0x00, 0x01, 0x00]
      else if tx = 0x4C then [0xF3, 0x5A, 0x00, 0x00, 0x00, 0x04, 0x00, 0x00]
      else [0xF3, 0x5A, 0x00, 0x00, 0x00, 0x00, 0x00, 0x00])"

text \<open>The response the command byte selects; \<open>None\<close> is hi-z, ending the transaction.\<close>

definition pad_answer :: "pad_regs \<Rightarrow> nat \<Rightarrow> u8 \<Rightarrow> u8 list option" where
  "pad_answer p k tx =
     (let cur_id = pad_id p k; ds = pad_supports_config p k
      in if tx = 0x42 then
           Some ([cur_id, 0x5A] @ pad_buttons_bytes p k
                 @ (if pad_analog p k \<or> pad_in_config p k then pad_sticks_bytes p k else []))
         else if ds \<and> tx = 0x43 then
           (if pad_legacy_cfg p then Some [0xF3, 0x5A, 0, 0, 0, 0, 0, 0]
            else if \<not> pad_in_config p k then
              Some ([cur_id, 0x5A] @ pad_buttons_bytes p k
                    @ (if pad_analog p k then pad_sticks_bytes p k else []))
            else Some [cur_id, 0x5A, 0, 0, 0, 0, 0, 0])
         else if ds \<and> pad_legacy_cfg p \<and> tx \<in> {0x45, 0x46, 0x47, 0x4C, 0x4D} then Some (pad_canned p k tx)
         else if ds \<and> \<not> pad_legacy_cfg p \<and> pad_in_config p k
                 \<and> tx \<in> {0x44, 0x45, 0x46, 0x47, 0x4C, 0x4D, 0x4F} then Some (pad_canned p k tx)
         else None)"

definition pad_access :: "u8 \<Rightarrow> sio_st \<Rightarrow> sio_st" where
  "pad_access tx s =
     (if tx = 0x01 \<and> pad_connected (pads s) (selected_slot s)
      then raise_ack (set_rx 0xFF (s\<lparr>pads := (pads s)\<lparr>pad_state := PAD_WAIT_ACCESS\<rparr>\<rparr>))
      else set_rx 0xFF s)"

definition pad_command :: "u8 \<Rightarrow> sio_st \<Rightarrow> sio_st" where
  "pad_command tx s =
     (let p = (pads s)\<lparr>pad_current_cmd := tx, pad_response_idx := 1\<rparr>
      in case pad_answer p (selected_slot s) tx of
           Some bs \<Rightarrow>
             raise_ack (set_rx (bs ! 0)
               (s\<lparr>pads := p\<lparr>pad_response := (\<lambda>i. if i < length bs then bs ! i else pad_response p i),
                            pad_response_len := length bs, pad_state := PAD_SEND_RESPONSE\<rparr>\<rparr>))
         | None \<Rightarrow> set_rx 0xFF (s\<lparr>pads := pad_end p\<rparr>))"

text \<open>The data bytes of 0x43 and 0x44 take effect while the response is sent.\<close>

definition pad_latch :: "u8 \<Rightarrow> nat \<Rightarrow> pad_regs \<Rightarrow> pad_regs" where
  "pad_latch tx k p =
     (let p = (if \<not> pad_legacy_cfg p \<and> pad_current_cmd p = 0x43 \<and> pad_response_idx p = 2
               then p\<lparr>pad_in_config := (pad_in_config p)(k := (tx = 0x01))\<rparr> else p);
          p = (if \<not> pad_legacy_cfg p \<and> pad_current_cmd p = 0x44 \<and> pad_response_idx p = 2
               then p\<lparr>pad_analog := (pad_analog p)(k := (tx = 0x01)), pad_type_req := (pad_type_req p)(k := None)\<rparr>
               else p)
      in if \<not> pad_legacy_cfg p \<and> pad_current_cmd p = 0x44 \<and> pad_response_idx p = 3
         then if tx = 0x03 then p\<lparr>analog_mode_locked := (analog_mode_locked p)(k := True)\<rparr>
              else if tx = 0x02 then p\<lparr>analog_mode_locked := (analog_mode_locked p)(k := False)\<rparr>
              else p
         else p)"

definition pad_send :: "u8 \<Rightarrow> sio_st \<Rightarrow> sio_st" where
  "pad_send tx s =
     (let p = pad_latch tx (selected_slot s) (pads s)
      in if pad_response_idx p < pad_response_len p
         then let rx = pad_response p (pad_response_idx p);
                  p = p\<lparr>pad_response_idx := pad_response_idx p + 1\<rparr>
              in if pad_response_idx p < pad_response_len p
                 then raise_ack (set_rx rx (s\<lparr>pads := p\<rparr>))
                 else set_rx rx (s\<lparr>pads := pad_end p\<rparr>)
         else set_rx 0xFF (s\<lparr>pads := pad_end p\<rparr>))"

definition pad_process_byte :: "u8 \<Rightarrow> sio_st \<Rightarrow> sio_st" where
  "pad_process_byte tx s =
     (let s = (if pad_state (pads s) = PAD_IDLE
               then s\<lparr>pads := fold pad_apply_type [0..<2] (pads s)\<rparr> else s)
      in byte_done (case pad_state (pads s) of
           PAD_IDLE \<Rightarrow> pad_access tx s
         | PAD_WAIT_ACCESS \<Rightarrow> pad_command tx s
         | PAD_SEND_RESPONSE \<Rightarrow> pad_send tx s))"

section \<open>The memory cards\<close>

definition mc_answer :: "mc_st \<Rightarrow> u8 \<Rightarrow> sio_st \<Rightarrow> sio_st" where
  "mc_answer st rx s = raise_ack (set_rx rx (s\<lparr>mcw := (mcw s)\<lparr>mc_state := st\<rparr>\<rparr>))"

definition mc_stop :: "u8 \<Rightarrow> sio_st \<Rightarrow> sio_st" where
  "mc_stop rx s = set_rx rx (s\<lparr>mcw := (mcw s)\<lparr>mc_state := MC_IDLE\<rparr>\<rparr>)"

definition sector_sum :: "mc_regs \<Rightarrow> u8" where
  "sector_sum c = fold (\<lambda>i x. x XOR mc_data c i) [0..<128] (mc_sector_msb c XOR mc_sector_lsb c)"

definition mc_select :: "sio_st \<Rightarrow> sio_st" where
  "mc_select s =
     (let s = s\<lparr>mc_slot := selected_slot s\<rparr>
      in if memcard_is_present (int (mc_slot s)) (mcards s)
         then let s = mc_answer MC_CMD 0xFF s
              in s\<lparr>counts := (counts s)\<lparr>mc_ack_count := mc_ack_count (counts s) + 1\<rparr>\<rparr>
         else set_rx 0xFF s)"

definition mc_command :: "u8 \<Rightarrow> sio_st \<Rightarrow> sio_st" where
  "mc_command tx s =
     (let s = s\<lparr>mcw := (mcw s)\<lparr>mc_cmd := tx\<rparr>, counts := (counts s)\<lparr>mc_cmd_count := mc_cmd_count (counts s) + 1\<rparr>\<rparr>
      in if tx = 0x52 \<or> tx = 0x57 \<or> tx = 0x53
         then let s = (if tx = 0x52 then s\<lparr>counts := (counts s)\<lparr>mc_read_count := mc_read_count (counts s) + 1\<rparr>\<rparr> else s);
                  s = mc_answer MC_ID1 (mc_flag (mcw s)) s
              in s\<lparr>mcw := (mcw s)\<lparr>mc_flag := 0x00\<rparr>\<rparr>
         else mc_stop 0xFF s)"

definition mc_address :: "u8 \<Rightarrow> sio_st \<Rightarrow> sio_st" where
  "mc_address tx s =
     (let c = (mcw s)\<lparr>mc_sector_lsb := tx\<rparr>;
          c = c\<lparr>mc_sector := push_bit 8 (ucast (mc_sector_msb c)) OR ucast (mc_sector_lsb c)\<rparr>
      in if mc_cmd c = 0x52
         then let d = (if unat (mc_sector c) < MEMCARD_SECTORS
                       then snd (memcard_read_sector (int (mc_slot s)) (uint (mc_sector c)) (mc_data c) (mcards s))
                       else memset 0 0xFF 128 (mc_data c));
                  c = c\<lparr>mc_data := d, mc_data_idx := 0\<rparr>;
                  c = c\<lparr>mc_checksum := sector_sum c\<rparr>
              in mc_answer MC_READ_ACK1 0x00 (s\<lparr>mcw := c\<rparr>)
         else mc_answer MC_WRITE_LSB_ECHO (mc_sector_msb c) (s\<lparr>mcw := c\<lparr>mc_data_idx := 0\<rparr>\<rparr>))"

definition mc_read_data :: "sio_st \<Rightarrow> sio_st" where
  "mc_read_data s =
     (let c = mcw s; rx = mc_data c (mc_data_idx c);
          c = c\<lparr>mc_data_idx := mc_data_idx c + 1\<rparr>;
          c = (if mc_data_idx c \<ge> 128 then c\<lparr>mc_state := MC_READ_CHK\<rparr> else c)
      in raise_ack (set_rx rx (s\<lparr>mcw := c\<rparr>)))"

definition mc_read_end :: "sio_st \<Rightarrow> sio_st" where
  "mc_read_end s =
     (let c = mcw s;
          s = s\<lparr>mcw := c\<lparr>mc_state := MC_IDLE\<rparr>,
                counts := (counts s)\<lparr>mc_read_done := mc_read_done (counts s) + 1\<rparr>,
                diag := CardReadSummary (mc_slot s) (mc_cmd c) (mc_sector c) (mc_checksum c) (mc_data_idx c) (mc_data c)
                        # diag s\<rparr>
      in set_rx (if unat (mc_sector c) < MEMCARD_SECTORS then 0x47 else 0xFF) s)"

definition mc_store :: "u8 \<Rightarrow> mc_regs \<Rightarrow> mc_regs" where
  "mc_store tx c = c\<lparr>mc_data := (mc_data c)(mc_data_idx c := tx), mc_data_idx := mc_data_idx c + 1\<rparr>"

definition mc_write_data :: "u8 \<Rightarrow> sio_st \<Rightarrow> sio_st" where
  "mc_write_data tx s =
     (let c = mc_store tx (mcw s);
          c = (if mc_data_idx c \<ge> 128 then c\<lparr>mc_state := MC_WRITE_CHK\<rparr> else c)
      in raise_ack (set_rx 0x00 (s\<lparr>mcw := c\<rparr>)))"

definition mc_write_chk :: "sio_env \<Rightarrow> u8 \<Rightarrow> sio_st \<Rightarrow> sio_st" where
  "mc_write_chk e tx s =
     (let expected = sector_sum (mcw s);
          s = mc_answer MC_WRITE_ACK1 0x00 s;
          sector = mc_sector (mcw s)
      in if tx = expected \<and> unat sector < MEMCARD_SECTORS
         then let m = snd (memcard_write_sector (int (mc_slot s)) (uint sector) (mc_data (mcw s)) (mcards s));
                  m = memcard_flush (env_io e) (int (mc_slot s)) m
              in s\<lparr>mcards := m, mcw := (mcw s)\<lparr>mc_checksum := 0x47\<rparr>\<rparr>
         else if unat sector \<ge> MEMCARD_SECTORS then s\<lparr>mcw := (mcw s)\<lparr>mc_checksum := 0xFF\<rparr>\<rparr>
         else s\<lparr>mcw := (mcw s)\<lparr>mc_checksum := 0x4E\<rparr>\<rparr>)"

definition mc_process_byte :: "sio_env \<Rightarrow> u8 \<Rightarrow> sio_st \<Rightarrow> sio_st" where
  "mc_process_byte e tx s =
     (let s = (if mc_num (mc_state (mcw s)) > mc_max_state (counts s)
               then s\<lparr>counts := (counts s)\<lparr>mc_max_state := mc_num (mc_state (mcw s))\<rparr>\<rparr> else s)
      in byte_done (case mc_state (mcw s) of
           MC_IDLE \<Rightarrow> mc_select s
         | MC_CMD \<Rightarrow> mc_command tx s
         | MC_ID1 \<Rightarrow> mc_answer MC_ID2 0x5A s
         | MC_ID2 \<Rightarrow> (if mc_cmd (mcw s) = 0x53 then mc_answer MC_GETID_1 0x5D s else mc_answer MC_ADDR_MSB 0x5D s)
         | MC_GETID_1 \<Rightarrow> mc_answer MC_GETID_2 0x04 s
         | MC_GETID_2 \<Rightarrow> mc_answer MC_GETID_3 0x00 s
         | MC_GETID_3 \<Rightarrow> mc_answer MC_GETID_4 0x00 s
         | MC_GETID_4 \<Rightarrow> mc_stop 0x80 s
         | MC_ADDR_MSB \<Rightarrow> mc_answer MC_ADDR_LSB 0x00 (s\<lparr>mcw := (mcw s)\<lparr>mc_sector_msb := tx\<rparr>\<rparr>)
         | MC_ADDR_LSB \<Rightarrow> mc_address tx s
         | MC_READ_ACK1 \<Rightarrow> mc_answer MC_READ_ACK2 0x5C s
         | MC_READ_ACK2 \<Rightarrow> mc_answer MC_READ_MSB_ECHO 0x5D s
         | MC_READ_MSB_ECHO \<Rightarrow> mc_answer MC_READ_LSB_ECHO (mc_sector_msb (mcw s)) s
         | MC_READ_LSB_ECHO \<Rightarrow> mc_answer MC_READ_DATA (mc_sector_lsb (mcw s)) (s\<lparr>mcw := (mcw s)\<lparr>mc_data_idx := 0\<rparr>\<rparr>)
         | MC_READ_DATA \<Rightarrow> mc_read_data s
         | MC_READ_CHK \<Rightarrow> mc_answer MC_READ_END (mc_checksum (mcw s)) s
         | MC_READ_END \<Rightarrow> mc_read_end s
         | MC_WRITE_LSB_ECHO \<Rightarrow> mc_answer MC_WRITE_DATA (mc_sector_lsb (mcw s)) (s\<lparr>mcw := mc_store tx (mcw s)\<rparr>)
         | MC_WRITE_DATA \<Rightarrow> mc_write_data tx s
         | MC_WRITE_CHK \<Rightarrow> mc_write_chk e tx s
         | MC_WRITE_ACK1 \<Rightarrow> mc_answer MC_WRITE_ACK2 0x5C s
         | MC_WRITE_ACK2 \<Rightarrow> mc_answer MC_WRITE_END 0x5D s
         | MC_WRITE_END \<Rightarrow> (let s = mc_stop (mc_checksum (mcw s)) s in s\<lparr>mcw := (mcw s)\<lparr>mc_flag := 0x00\<rparr>\<rparr>)))"

section \<open>One byte on the bus\<close>

definition slot_select :: "sio_st \<Rightarrow> sio_st" where
  "slot_select s = s\<lparr>selected_slot := (if has (sio_ctrl s) SIO_CTRL_SLOT then 1 else 0)\<rparr>"

definition tx_ready :: "sio_st \<Rightarrow> sio_st" where
  "tx_ready s = s\<lparr>sio_stat := sio_stat s OR (SIO_STAT_TX_RDY OR SIO_STAT_TX_EMPTY)\<rparr>"

definition txn_open_if_closed :: "sio_env \<Rightarrow> nat \<Rightarrow> sio_st \<Rightarrow> sio_st" where
  "txn_open_if_closed e slot s =
     (if \<not> txn_is_open (rings s)
      then s\<lparr>rings := txn_open (of_nat slot) (trace_seq (rings s)) (env_func e) (rings s)\<rparr> else s)"

text \<open>The three cases of \<open>active_device == DEV_NONE\<close>. Each returns the new state, whether the
  byte belonged to a card transaction and the card state before it.\<close>

definition byte_pad_select :: "u8 \<Rightarrow> sio_st \<Rightarrow> sio_st" where
  "byte_pad_select tx s =
     (let s = (if mc_state (mcw s) \<noteq> MC_IDLE
               then let s = mc_save_slot (mc_slot s) s in s\<lparr>mcw := (mcw s)\<lparr>mc_state := MC_IDLE\<rparr>\<rparr> else s)
      in pad_process_byte tx (s\<lparr>active_device := DEV_PAD\<rparr>))"

definition mc_abort_reselect :: "sio_env \<Rightarrow> sio_st \<Rightarrow> sio_st" where
  "mc_abort_reselect e s =
     (if mc_state (mcw s) \<noteq> MC_IDLE
      then s\<lparr>counts := (counts s)\<lparr>mc_abort_count := mc_abort_count (counts s) + 1,
                                  mc_abort_state := mc_num (mc_state (mcw s)), mc_abort_ctrl := sio_ctrl s\<rparr>,
             rings := txn_close TXN_END_ABORT_RESELECT (mc_num (mc_state (mcw s))) (env_func e) (rings s),
             mcw := (mcw s)\<lparr>mc_state := MC_IDLE\<rparr>\<rparr>
      else s)"

definition byte_card_select :: "sio_env \<Rightarrow> u8 \<Rightarrow> sio_st \<Rightarrow> sio_st \<times> bool \<times> mc_st" where
  "byte_card_select e tx s =
     (let s = mc_load_slot (selected_slot s) s;
          s = mc_abort_reselect e s;
          s = s\<lparr>active_device := DEV_MEMCARD, mc_slot := selected_slot s,
                counts := (counts s)\<lparr>mc_probe_count := mc_probe_count (counts s) + 1, mc_last_caller := env_func e\<rparr>\<rparr>;
          s = txn_open_if_closed e (selected_slot s) s;
          pre = mc_state (mcw s)
      in (mc_process_byte e tx s, True, pre))"

definition byte_resume :: "sio_env \<Rightarrow> u8 \<Rightarrow> mc_st \<Rightarrow> sio_st \<Rightarrow> sio_st \<times> bool \<times> mc_st" where
  "byte_resume e tx pre0 s =
     (let s = mc_load_slot (selected_slot s) s
      in if mc_state (mcw s) \<noteq> MC_IDLE \<and> selected_slot s = mc_slot s
         then let s = s\<lparr>active_device := DEV_MEMCARD\<rparr>;
                  s = txn_open_if_closed e (mc_slot s) s;
                  pre = mc_state (mcw s)
              in (mc_process_byte e tx s, True, pre)
         else let s = (if mc_state (mcw s) \<noteq> MC_IDLE
                       then s\<lparr>rings := txn_close TXN_END_ABORT_SLOT (mc_num (mc_state (mcw s))) (env_func e) (rings s)\<rparr>
                       else s);
                  s = s\<lparr>mcw := (mcw s)\<lparr>mc_state := MC_IDLE\<rparr>\<rparr>
              in (tx_ready (set_rx 0xFF s), False, pre0))"

definition byte_memcard :: "sio_env \<Rightarrow> u8 \<Rightarrow> sio_st \<Rightarrow> sio_st \<times> bool \<times> mc_st" where
  "byte_memcard e tx s =
     (let pre = mc_state (mcw s)
      in if pre = MC_IDLE
         then if tx = 0x81
              then (mc_process_byte e tx (txn_open_if_closed e (mc_slot s) s), True, pre)
              else let s = slot_select (s\<lparr>active_device := DEV_NONE\<rparr>)
                   in if tx = 0x01 then (pad_process_byte tx (s\<lparr>active_device := DEV_PAD\<rparr>), False, pre)
                      else (tx_ready (set_rx 0xFF s), False, pre)
         else (mc_process_byte e tx s, True, pre))"

definition byte_dispatch :: "sio_env \<Rightarrow> u8 \<Rightarrow> sio_st \<Rightarrow> sio_st \<times> bool \<times> mc_st" where
  "byte_dispatch e tx s =
     (let pre = mc_state (mcw s)
      in case active_device s of
           DEV_NONE \<Rightarrow>
             (let s = slot_select s
              in if tx = 0x01 then (byte_pad_select tx s, False, pre)
                 else if tx = 0x81 then byte_card_select e tx s
                 else byte_resume e tx pre s)
         | DEV_PAD \<Rightarrow> (pad_process_byte tx s, False, pre)
         | DEV_MEMCARD \<Rightarrow> byte_memcard e tx s)"

definition txn_reason :: "mc_st \<Rightarrow> txn_end" where
  "txn_reason pre =
     (if pre \<in> {MC_READ_END, MC_WRITE_END, MC_GETID_4} then TXN_END_SUCCESS
      else if pre = MC_CMD then TXN_END_ABORT_BAD_CMD
      else TXN_END_ABORT_OTHER)"

definition txn_track :: "sio_env \<Rightarrow> u8 \<Rightarrow> bool \<Rightarrow> mc_st \<Rightarrow> bool \<Rightarrow> sio_st \<Rightarrow> sio_st" where
  "txn_track e tx card_byte pre got_ack s =
     (if card_byte \<and> txn_is_open (rings s)
      then let st = mc_state (mcw s);
               sector_now = (if mc_num st \<ge> mc_num MC_READ_ACK1 \<or> st = MC_WRITE_LSB_ECHO \<or> st = MC_WRITE_DATA
                                \<or> mc_num st \<ge> mc_num MC_WRITE_ACK1
                             then mc_sector (mcw s) else 0xFFFF);
               r = txn_record_byte tx (sio_rx_data s) (mc_cmd (mcw s)) sector_now got_ack (trace_seq (rings s)) (rings s);
               r = (if st = MC_IDLE \<and> pre \<noteq> MC_IDLE
                    then txn_close (txn_reason pre) (mc_num pre) (env_func e) r else r)
           in s\<lparr>rings := r\<rparr>
      else s)"

definition trace_byte :: "sio_env \<Rightarrow> u8 \<Rightarrow> sio_st \<Rightarrow> sio_st \<Rightarrow> sio_st" where
  "trace_byte e tx s0 s =
     (let r = rings s;
          en = \<lparr>tr_seq = trace_seq r, tr_tx = tx, tr_rx = sio_rx_data s,
                tr_mc_pre = mc_num (mc_state (mcw s0)), tr_mc_post = mc_num (mc_state (mcw s)),
                tr_dev_pre = dev_num (active_device s0), tr_dev_post = dev_num (active_device s),
                tr_ctrl = sio_ctrl s, tr_func = env_func e, tr_sr = env_sr e,
                tr_was_abort = (mc_abort_count (counts s) > mc_abort_count (counts s0)),
                tr_irq_countdown = word_of_int (if irq_countdown (irqs s0) > 255 then 255 else irq_countdown (irqs s0)),
                tr_in_exception = env_in_exception e, tr_counter_7514 = env_ram_7514 e,
                tr_slot0 = mc_num (mc_state (mc_slots s 0)), tr_slot1 = mc_num (mc_state (mc_slots s 1))\<rparr>
      in s\<lparr>rings := r\<lparr>trace_buf := (trace_buf r)(trace_idx r := en),
                       trace_idx := (trace_idx r + 1) mod SIO_TRACE_CAP, trace_seq := trace_seq r + 1\<rparr>\<rparr>)"

definition sio_process_byte :: "sio_env \<Rightarrow> u8 \<Rightarrow> sio_st \<Rightarrow> sio_st" where
  "sio_process_byte e tx s0 =
     (let (s, card_byte, pre) = byte_dispatch e tx s0;
          s = txn_track e tx card_byte pre (mc_ack_count (counts s) > mc_ack_count (counts s0)) s
      in trace_byte e tx s0 s)"

section \<open>The shifter and the interrupt\<close>

abbreviation (input) SRC_SIO :: u8 where "SRC_SIO \<equiv> 28"

definition sio_cycles_to_irq :: "u32 \<Rightarrow> sio_st \<Rightarrow> u32" where
  "sio_cycles_to_irq i_mask s =
     (if \<not> has i_mask (push_bit 7 1) then 0xFFFFFFFF
      else let best = 0xFFFFFFFF; q = irqs s; h = shifter s;
               best = (if irq_pending q \<and> irq_countdown q > 0 \<and> word_of_int (irq_countdown q) < best
                       then word_of_int (irq_countdown q) else best)
           in if timing_active h
              then let best = (if pending_ack h \<and> ack_remaining h > 0 \<and> word_of_int (ack_remaining h) < best
                               then word_of_int (ack_remaining h) else best)
                   in if shift_active h \<and> shift_remaining h > 0 \<and> word_of_int (shift_remaining h) < best
                      then word_of_int (shift_remaining h) else best
              else best)"

definition sio_consume_ack_event :: "sio_st \<Rightarrow> bool \<times> sio_st" where
  "sio_consume_ack_event s =
     (has (sio_stat s) SIO_STAT_ACK, s\<lparr>sio_stat := clear_bits (sio_stat s) SIO_STAT_ACK\<rparr>)"

definition shift_gate :: "shift_regs \<Rightarrow> shift_regs" where
  "shift_gate h =
     (if \<not> shift_active h \<and> \<not> tx_buffered h \<and> \<not> pending_ack h then h\<lparr>timing_active := False\<rparr> else h)"

text \<open>The delivery ring entry both interrupt paths write.\<close>

definition irq_ring_put :: "sio_env \<Rightarrow> u32 \<Rightarrow> sio_st \<Rightarrow> sio_st" where
  "irq_ring_put e i_stat_before s =
     (let r = rings s; q = irqs s;
          en = \<lparr>ir_seq = irq_seq r, ir_byte_seq = irq_byte_seq q, ir_i_stat_before = i_stat_before,
                ir_i_stat_after = i_stat (sio_port s), ir_mc_state = irq_mc_state q,
                ir_active_device = dev_num (active_device s), ir_ctrl = sio_ctrl s, ir_func = env_func e,
                ir_counter_7514 = env_ram_7514 e, ir_source = irq_source q, ir_slot = irq_slot q,
                ir_delay = irq_delay q\<rparr>
      in s\<lparr>rings := r\<lparr>irq_buf := (irq_buf r)(irq_idx r := en),
                       irq_idx := (irq_idx r + 1) mod SIO_IRQ_RING_CAP, irq_seq := irq_seq r + 1\<rparr>\<rparr>)"

definition raise_sio_irq :: "u32 \<Rightarrow> sio_st \<Rightarrow> sio_st" where
  "raise_sio_irq detail s =
     s\<lparr>sio_port := event_ring_record_aux EV_DEQ SRC_SIO detail (psx_irq_raise IRQ_SIO0 detail (sio_port s))\<rparr>"

definition sio_fire_ack_irq :: "sio_env \<Rightarrow> sio_st \<Rightarrow> sio_st" where
  "sio_fire_ack_irq e s =
     (let s = (raise_ack s)\<lparr>irqs := (irqs s)\<lparr>ack_visible_reads := 2\<rparr>\<rparr>;
          s = sr_record SR_ACK_FIRE 0 0 s;
          irq_enabled = (pending_ack_irq_en (shifter s) \<or> has (sio_ctrl s) SIO_CTRL_ACK_IRQ_EN);
          s = s\<lparr>shifter := (shifter s)\<lparr>pending_ack_irq_en := False\<rparr>\<rparr>
      in if \<not> irq_enabled then s
         else let s = s\<lparr>sio_stat := sio_stat s OR SIO_STAT_IRQ\<rparr>;
                  before = i_stat (sio_port s);
                  s = raise_sio_irq 0 s;
                  s = irq_ring_put e before s
              in s\<lparr>counts := (counts s)\<lparr>pace_ack_fires := pace_ack_fires (counts s) + 1\<rparr>,
                   shifter := shift_gate (shifter s)\<rparr>)"

definition irq_context :: "sio_st \<Rightarrow> sio_st" where
  "irq_context s =
     s\<lparr>irqs := (irqs s)
         \<lparr>irq_source := (if active_device s = DEV_MEMCARD then IRQ_SRC_CARD_ACK else IRQ_SRC_PAD_ACK),
          irq_slot := of_nat (selected_slot s), irq_delay := word_of_int SIO_ACK_CYCLES_DEFAULT,
          irq_mc_state := of_nat (mc_num (mc_state (mcw s))), irq_byte_seq := trace_seq (rings s)\<rparr>\<rparr>"

definition shift_promote :: "sio_st \<Rightarrow> sio_st" where
  "shift_promote s =
     (let h = shifter s; k = counts s
      in s\<lparr>shifter := h\<lparr>shift_byte := tx_buffer h, shift_active := True, shift_remaining := SIO_BAUD_CYCLES_DEFAULT,
                         shift_ack_irq_en := tx_buffer_ack_irq_en h, tx_buffered := False,
                         tx_buffer_ack_irq_en := False, bus_byte_index := bus_byte_index h + 1\<rparr>,
           sio_stat := sio_stat s OR SIO_STAT_TX_EMPTY,
           counts := (let k = k\<lparr>pace_promoted := pace_promoted k + 1\<rparr>
                      in if owner h = OWNER_CARD then k\<lparr>pace_promoted_card := pace_promoted_card k + 1\<rparr> else k)\<rparr>)"

definition sio_handle_shift_complete :: "sio_env \<Rightarrow> sio_st \<Rightarrow> sio_st" where
  "sio_handle_shift_complete e s =
     (let b = shift_byte (shifter s);
          s = sr_record SR_SHIFT_DONE b 0 s;
          s = (if b = 0x01 \<and> mc_num (mc_state (mcw s)) \<ge> mc_num MC_READ_DATA
                  \<and> mc_num (mc_state (mcw s)) \<le> mc_num MC_READ_END
               then s\<lparr>counts := (counts s)\<lparr>pace_pad_in_card_data := pace_pad_in_card_data (counts s) + 1\<rparr>\<rparr> else s);
          s = sio_process_byte e b s;
          (acked, s) = sio_consume_ack_event s;
          s = s\<lparr>shifter := (shifter s)\<lparr>shift_active := False\<rparr>, sio_stat := sio_stat s OR SIO_STAT_RX_RDY,
                counts := (counts s)\<lparr>pace_shift_completes := pace_shift_completes (counts s) + 1\<rparr>\<rparr>;
          s = irq_context s;
          s = (if acked
               then s\<lparr>shifter := (shifter s)\<lparr>pending_ack := True, ack_remaining := SIO_ACK_CYCLES_DEFAULT,
                                            pending_ack_irq_en := shift_ack_irq_en (shifter s)\<rparr>\<rparr> else s);
          s = (if tx_buffered (shifter s) then shift_promote s else tx_ready s)
      in s\<lparr>shifter := shift_gate (shifter s)\<rparr>)"

datatype pace_event = ShiftDone | AckDue

text \<open>One round of the loop \<open>sio_advance\<close> and \<open>sio_tick\<close> share: how far to move and what is due.
  An event is taken early only when it lies strictly inside the span.\<close>

definition pace_next :: "int \<Rightarrow> shift_regs \<Rightarrow> int \<times> pace_event option" where
  "pace_next remaining h =
     (let dt = remaining; next = None;
          (dt, next) = (if shift_active h \<and> shift_remaining h > 0 \<and> shift_remaining h < dt
                        then (shift_remaining h, Some ShiftDone) else (dt, next));
          (dt, next) = (if pending_ack h \<and> ack_remaining h > 0 \<and> ack_remaining h < dt
                        then (ack_remaining h, Some AckDue) else (dt, next))
      in if shift_active h \<and> shift_remaining h \<le> 0 then (0, Some ShiftDone)
         else if pending_ack h \<and> ack_remaining h \<le> 0 then (0, Some AckDue)
         else (dt, next))"

definition pace_elapse :: "int \<Rightarrow> shift_regs \<Rightarrow> shift_regs" where
  "pace_elapse dt h =
     (let h = (if shift_active h then h\<lparr>shift_remaining := shift_remaining h - dt\<rparr> else h)
      in if pending_ack h then h\<lparr>ack_remaining := ack_remaining h - dt\<rparr> else h)"

definition pace_fire :: "sio_env \<Rightarrow> pace_event \<Rightarrow> sio_st \<Rightarrow> sio_st" where
  "pace_fire e ev s =
     (case ev of
        ShiftDone \<Rightarrow> sio_handle_shift_complete e s
      | AckDue \<Rightarrow> sio_fire_ack_irq e (s\<lparr>shifter := (shifter s)\<lparr>pending_ack := False\<rparr>\<rparr>))"

text \<open>The first argument counts the transitions left of \<open>MAX_TRANSITIONS\<close>.\<close>

fun pace_loop :: "nat \<Rightarrow> sio_env \<Rightarrow> int \<Rightarrow> sio_st \<Rightarrow> sio_st" where
  "pace_loop 0 e remaining s = s"
| "pace_loop (Suc n) e remaining s =
     (if remaining > 0
      then case pace_next remaining (shifter s) of
             (dt, next) \<Rightarrow>
               (let s = s\<lparr>shifter := pace_elapse dt (shifter s)\<rparr>
                in case next of
                     Some ev \<Rightarrow> pace_loop n e (remaining - dt) (pace_fire e ev s)
                   | None \<Rightarrow> s)
      else s)"

definition MAX_TRANSITIONS :: nat where "MAX_TRANSITIONS = 8"

definition sio_advance :: "sio_env \<Rightarrow> u32 \<Rightarrow> sio_st \<Rightarrow> sio_st" where
  "sio_advance e cycles s =
     (if cycles = 0 then s
      else let s = s\<lparr>counts := (counts s)\<lparr>advance_called := advance_called (counts s) + 1\<rparr>\<rparr>
           in if \<not> timing_active (shifter s) then s
              else let s = s\<lparr>counts := (counts s)\<lparr>advance_with_work := advance_with_work (counts s) + 1\<rparr>\<rparr>
                   in pace_loop MAX_TRANSITIONS e (sint cycles) s)"

definition legacy_countdown :: "sio_env \<Rightarrow> sio_st \<Rightarrow> sio_st" where
  "legacy_countdown e s =
     (if irq_pending (irqs s) \<and> irq_countdown (irqs s) > 0
      then let s = s\<lparr>irqs := (irqs s)\<lparr>irq_countdown := irq_countdown (irqs s) - 1\<rparr>\<rparr>
           in if irq_countdown (irqs s) = 0
              then let s = s\<lparr>irqs := (irqs s)\<lparr>irq_pending := False, ack_visible_reads := 2\<rparr>,
                             sio_stat := ((sio_stat s OR SIO_STAT_ACK) OR SIO_STAT_IRQ)
                                         OR (SIO_STAT_TX_RDY OR SIO_STAT_TX_EMPTY)\<rparr>;
                       before = i_stat (sio_port s);
                       s = raise_sio_irq 1 s
                   in irq_ring_put e before s
              else s
      else s)"

definition sio_tick :: "sio_env \<Rightarrow> int \<Rightarrow> sio_st \<Rightarrow> sio_st" where
  "sio_tick e cycles s =
     legacy_countdown e (if cycles > 0 then pace_loop MAX_TRANSITIONS e cycles s else s)"

definition sio_tick_quantum :: "sio_env \<Rightarrow> sio_st \<Rightarrow> sio_st" where
  "sio_tick_quantum e s = sio_tick e 64 s"

section \<open>Register access\<close>

definition read_rx_data :: "sio_st \<Rightarrow> u8 \<times> sio_st" where
  "read_rx_data s =
     (let b = sio_rx_data s;
          s = s\<lparr>sio_stat := clear_bits (sio_stat s) SIO_STAT_RX_RDY\<rparr>;
          s = sr_record SR_RX_DATA_READ 0 b s;
          st = mc_num (mc_state (mcw s))
      in (b, if active_device s = DEV_MEMCARD \<and> st \<ge> mc_num MC_READ_DATA \<and> st \<le> mc_num MC_READ_END
             then s\<lparr>diag := CardDataWritesArm b st (mc_data_idx (mcw s)) (mc_slot s) # diag s\<rparr> else s))"

definition read_stat :: "sio_st \<Rightarrow> u16 \<times> sio_st" where
  "read_stat s =
     (let observed = sio_stat s;
          s = (if sio_stat s \<noteq> last_stat_observed (counts s)
               then sr_record SR_STAT_READ 0 0 (s\<lparr>counts := (counts s)\<lparr>last_stat_observed := sio_stat s\<rparr>\<rparr>) else s)
      in (observed,
          if ack_visible_reads (irqs s) > 0
          then let s = s\<lparr>irqs := (irqs s)\<lparr>ack_visible_reads := ack_visible_reads (irqs s) - 1\<rparr>\<rparr>
               in if ack_visible_reads (irqs s) = 0
                  then s\<lparr>sio_stat := clear_bits (sio_stat s) SIO_STAT_ACK\<rparr> else s
          else s))"

definition sio_read :: "sio_env \<Rightarrow> u32 \<Rightarrow> sio_st \<Rightarrow> u32 \<times> sio_st" where
  "sio_read e addr s =
     (let s = sio_tick e 0 (sio_debug_poll_maybe s)
      in if addr = 0x1F801040 then (let (b, s) = read_rx_data s in (ucast b, s))
         else if addr = 0x1F801044 then (let (w, s) = read_stat s in (ucast w, s))
         else if addr = 0x1F801048 then (ucast (sio_mode s), s)
         else if addr = 0x1F80104A then (ucast (sio_ctrl s), s)
         else if addr = 0x1F80104E then (ucast (sio_baud s), s)
         else (0, s))"

definition pad_fast_path :: "u8 \<Rightarrow> sio_st \<Rightarrow> bool" where
  "pad_fast_path b s \<longleftrightarrow>
     active_device s \<noteq> DEV_MEMCARD \<and> (active_device s = DEV_PAD \<or> owner (shifter s) = OWNER_PAD \<or> b = 0x01)"

definition pad_arm_ack :: "sio_st \<Rightarrow> sio_st" where
  "pad_arm_ack s =
     (let s = s\<lparr>sio_stat := clear_bits (sio_stat s) (SIO_STAT_ACK OR (SIO_STAT_TX_RDY OR SIO_STAT_TX_EMPTY)),
                shifter := (shifter s)\<lparr>pending_ack := True,
                   ack_remaining := SIO_BAUD_CYCLES_DEFAULT + SIO_ACK_CYCLES_DEFAULT,
                   pending_ack_irq_en := True, timing_active := True\<rparr>\<rparr>;
          s = s\<lparr>sio_port := event_ring_record_aux EV_ENQ SRC_SIO (word_of_int (ack_remaining (shifter s))) (sio_port s)\<rparr>
      in s\<lparr>irqs := (irqs s)\<lparr>irq_source := IRQ_SRC_PAD_ACK, irq_slot := of_nat (selected_slot s),
              irq_delay := word_of_int SIO_ACK_CYCLES_DEFAULT,
              irq_mc_state := of_nat (mc_num (mc_state (mcw s))), irq_byte_seq := trace_seq (rings s)\<rparr>\<rparr>)"

definition write_tx_pad :: "sio_env \<Rightarrow> u8 \<Rightarrow> sio_st \<Rightarrow> sio_st" where
  "write_tx_pad e b s =
     (let ctrl_pre = sio_ctrl s; stat_pre = sio_stat s;
          h = shift_idle (shifter s);
          s = s\<lparr>shifter := h\<lparr>owner := OWNER_PAD, bus_byte_index := bus_byte_index h + 1\<rparr>\<rparr>;
          s = sr_record SR_TX_DATA_WRITE b 0 s;
          s = sio_process_byte e b s;
          dev = active_device s;
          armed = (has (sio_stat s) SIO_STAT_ACK \<and> has (sio_ctrl s) SIO_CTRL_ACK_IRQ_EN);
          s = (if armed then pad_arm_ack s else tx_ready s)
      in s\<lparr>counts := sio_card_arm_audit_record dev ctrl_pre stat_pre (sio_stat s) armed
                       (irq_countdown (irqs s)) (counts s)\<rparr>)"

definition write_tx_shift :: "u8 \<Rightarrow> sio_st \<Rightarrow> sio_st" where
  "write_tx_shift b s =
     (let s = sr_record SR_TX_DATA_WRITE b 0 s;
          h = shifter s;
          h = (if bus_byte_index h = 0
               then h\<lparr>owner := (if b = 0x81 then OWNER_CARD else if b = 0x01 then OWNER_PAD else OWNER_UNKNOWN)\<rparr>
               else h);
          h = h\<lparr>bus_byte_index := bus_byte_index h + 1\<rparr>;
          en = has (sio_ctrl s) SIO_CTRL_ACK_IRQ_EN;
          s = s\<lparr>shifter := h\<rparr>
      in if \<not> shift_active h
         then sr_record SR_SHIFT_START b 0
                (s\<lparr>shifter := h\<lparr>shift_byte := b, shift_active := True, shift_remaining := SIO_BAUD_CYCLES_DEFAULT,
                                 shift_ack_irq_en := en, timing_active := True\<rparr>,
                   sio_stat := clear_bits (sio_stat s) (SIO_STAT_TX_RDY OR SIO_STAT_TX_EMPTY)\<rparr>)
         else if \<not> tx_buffered h
         then sr_record SR_BUFFER_LOAD b 0
                (s\<lparr>shifter := h\<lparr>tx_buffer := b, tx_buffered := True, tx_buffer_ack_irq_en := en\<rparr>,
                   sio_stat := clear_bits (sio_stat s) SIO_STAT_TX_EMPTY,
                   counts := (counts s)\<lparr>pace_buffered := pace_buffered (counts s) + 1\<rparr>\<rparr>)
         else sr_record SR_TX_DROPPED b 0
                (s\<lparr>counts := (counts s)\<lparr>pace_dropped_busy := pace_dropped_busy (counts s) + 1\<rparr>\<rparr>))"

definition write_tx_data :: "sio_env \<Rightarrow> u32 \<Rightarrow> sio_st \<Rightarrow> sio_st" where
  "write_tx_data e v s =
     (let b = ucast v;
          s = s\<lparr>sio_tx_data := b,
                counts := (counts s)\<lparr>tx_writes := tx_writes (counts s) + 1, last_ctrl_on_tx := sio_ctrl s\<rparr>\<rparr>
      in if \<not> has (sio_ctrl s) SIO_CTRL_TX_EN
         then sr_record SR_TX_DATA_WRITE b 0 (s\<lparr>counts := (counts s)\<lparr>tx_gated := tx_gated (counts s) + 1\<rparr>\<rparr>)
         else if pad_fast_path b s then write_tx_pad e b s
         else write_tx_shift b s)"

text \<open>Writing CTRL: acknowledge, reset, the select and transmit-enable edges, in the order of the
  code. The edges compare the old register with the value written.\<close>

definition ctrl_acknowledge :: "sio_st \<Rightarrow> sio_st" where
  "ctrl_acknowledge s =
     s\<lparr>sio_stat := clear_bits (clear_bits (sio_stat s) SIO_STAT_IRQ) SIO_STAT_ACK,
       irqs := (irqs s)\<lparr>ack_visible_reads := 0\<rparr>\<rparr>"

definition ctrl_reset :: "sio_env \<Rightarrow> u16 \<Rightarrow> sio_st \<Rightarrow> sio_st" where
  "ctrl_reset e v s =
     (let st = mc_num (mc_state (mcw s));
          s = (if mc_state (mcw s) \<noteq> MC_IDLE
               then s\<lparr>counts := (counts s)\<lparr>mc_abort_count := mc_abort_count (counts s) + 1, mc_abort_state := st,
                                           mc_abort_ctrl := v\<rparr>\<rparr> else s);
          s = (if txn_is_open (rings s)
               then s\<lparr>rings := txn_close TXN_END_ABORT_RESET st (env_func e) (rings s)\<rparr> else s);
          s = s\<lparr>sio_stat := SIO_STAT_TX_RDY OR SIO_STAT_TX_EMPTY, sio_mode := 0, sio_ctrl := 0, sio_baud := 0,
                pads := pad_end (pads s), mcw := (mcw s)\<lparr>mc_state := MC_IDLE\<rparr>,
                mc_slots := both (\<lambda>c. c\<lparr>mc_state := MC_IDLE\<rparr>) (mc_slots s), active_device := DEV_NONE,
                irqs := irq_disarm (irqs s), shifter := bus_release (shift_idle (shifter s))\<rparr>
      in sr_record SR_RESET 0 0 s)"

definition ctrl_select_assert :: "sio_st \<Rightarrow> sio_st" where
  "ctrl_select_assert s = sr_record SR_SELECT_ASSERT 0 0 (s\<lparr>shifter := bus_release (shifter s)\<rparr>)"

definition ctrl_tx_disable :: "u16 \<Rightarrow> sio_st \<Rightarrow> sio_st" where
  "ctrl_tx_disable v s =
     (let h = shifter s
      in if shift_active h \<or> tx_buffered h \<or> pending_ack h
         then let h = shift_idle h
              in tx_ready (s\<lparr>shifter := (if \<not> has v SIO_CTRL_SELECT then bus_release h else h)\<rparr>)
         else s)"

definition ctrl_select_deassert :: "sio_env \<Rightarrow> sio_st \<Rightarrow> sio_st" where
  "ctrl_select_deassert e s =
     (let s = (if active_device s = DEV_MEMCARD \<and> mc_state (mcw s) \<noteq> MC_IDLE \<and> txn_is_open (rings s)
               then s\<lparr>rings := txn_close TXN_END_ABORT_OTHER (mc_num (mc_state (mcw s))) (env_func e) (rings s)\<rparr> else s);
          s = (if active_device s = DEV_MEMCARD \<and> mc_slot s \<le> 1
               then s\<lparr>mc_slots := (mc_slots s)(mc_slot s := (mc_slots s (mc_slot s))\<lparr>mc_flag := mc_flag (mcw s)\<rparr>)\<rparr> else s);
          s = s\<lparr>mcw := (mcw s)\<lparr>mc_state := MC_IDLE\<rparr>, mc_slots := both mc_clear (mc_slots s),
                pads := pad_end (pads s), active_device := DEV_NONE,
                shifter := bus_release (shift_idle (shifter s))\<rparr>
      in sr_record SR_SELECT_DEASS 0 0 (tx_ready s))"

definition write_ctrl :: "sio_env \<Rightarrow> u32 \<Rightarrow> sio_st \<Rightarrow> sio_st" where
  "write_ctrl e value s =
     (let old = sio_ctrl s; v = ucast value;
          s = s\<lparr>sio_ctrl := v\<rparr>;
          s = sr_record SR_CTRL_WRITE (ucast (value AND 0xFF)) (ucast (drop_bit 8 value AND 0xFF)) s;
          s = (if has v SIO_CTRL_ACK then ctrl_acknowledge s else s);
          s = (if has v SIO_CTRL_RESET then ctrl_reset e v s else s);
          s = (if \<not> has old SIO_CTRL_SELECT \<and> has v SIO_CTRL_SELECT then ctrl_select_assert s else s);
          s = (if has old SIO_CTRL_TX_EN \<and> \<not> has v SIO_CTRL_TX_EN then ctrl_tx_disable v s else s)
      in if has old SIO_CTRL_SELECT \<and> \<not> has v SIO_CTRL_SELECT then ctrl_select_deassert e s else s)"

definition sio_write :: "sio_env \<Rightarrow> u32 \<Rightarrow> u32 \<Rightarrow> sio_st \<Rightarrow> sio_st" where
  "sio_write e addr value s =
     (let s = sio_debug_poll_maybe s;
          s = s\<lparr>diag := LogSioWrite addr value # diag s\<rparr>;
          lo = ucast (value AND 0xFF); hi = ucast (drop_bit 8 value AND 0xFF)
      in sio_tick e 0
           (if addr = 0x1F801040 then write_tx_data e value s
            else if addr = 0x1F801048 then sr_record SR_MODE_WRITE lo hi (s\<lparr>sio_mode := ucast value\<rparr>)
            else if addr = 0x1F80104A then write_ctrl e value s
            else if addr = 0x1F80104E then sr_record SR_BAUD_WRITE lo hi (s\<lparr>sio_baud := ucast value\<rparr>)
            else s))"

section \<open>Draining and snapshots\<close>

text \<open>\<open>sio_card_burst_drain\<close>: the iterations done and the reason the loop stopped.\<close>

fun burst_loop :: "nat \<Rightarrow> sio_env \<Rightarrow> nat \<Rightarrow> sio_st \<Rightarrow> nat \<times> nat \<times> sio_st" where
  "burst_loop 0 e iters s = (iters, 1, s)"
| "burst_loop (Suc n) e iters s =
     (if \<not> irq_pending (irqs s) \<and> irq_countdown (irqs s) = 0 then (iters, 1, s)
      else if mc_state (mcw s) = MC_IDLE then (iters, 2, s)
      else burst_loop n e (iters + 1) (sio_tick e 0 s))"

definition sio_card_burst_drain :: "sio_env \<Rightarrow> int \<Rightarrow> sio_st \<Rightarrow> nat \<times> sio_st" where
  "sio_card_burst_drain e max_iters s =
     (let m = (if max_iters \<le> 0 then 128 else max_iters);
          m = nat (if m > 1024 then 1024 else m);
          fires_before = irq_seq (rings s);
          s = s\<lparr>counts := (counts s)\<lparr>burst := (burst (counts s))\<lparr>bs_calls := bs_calls (burst (counts s)) + 1\<rparr>\<rparr>\<rparr>;
          (iters, reason, s) = burst_loop m e 0 s;
          reason = (if iters = m then 3 else reason);
          b = burst (counts s);
          b = b\<lparr>bs_iters_total := bs_iters_total b + iters, bs_iter_max_seen := max iters (bs_iter_max_seen b)\<rparr>;
          b = (if reason = 1 then b\<lparr>bs_break_idle := bs_break_idle b + 1\<rparr>
               else if reason = 2 then b\<lparr>bs_break_mode_clear := bs_break_mode_clear b + 1\<rparr>
               else if reason = 3 then b\<lparr>bs_break_capped := bs_break_capped b + 1\<rparr> else b);
          b = b\<lparr>bs_last_iters := iters, bs_last_break_reason := reason,
                bs_fires_in_burst := bs_fires_in_burst b + unat (irq_seq (rings s) - fires_before)\<rparr>
      in (iters, s\<lparr>counts := (counts s)\<lparr>burst := b\<rparr>\<rparr>))"

text \<open>
  A boot snapshot copies the listed variables byte for byte. It is represented by the state \<open>p\<close>
  it was written from; reading it back into \<open>s\<close> copies exactly the fields of
  \<open>SIO_SNAP_FIELDS\<close>, after the length check.
\<close>

definition sio_snapshot_read :: "bool \<Rightarrow> sio_st \<Rightarrow> sio_st \<Rightarrow> bool \<times> sio_st" where
  "sio_snapshot_read len_ok p s =
     (if \<not> len_ok then (False, s)
      else (True,
        s\<lparr>sio_tx_data := sio_tx_data p, sio_rx_data := sio_rx_data p, sio_stat := sio_stat p,
          sio_mode := sio_mode p, sio_ctrl := sio_ctrl p, sio_baud := sio_baud p,
          pads := (pads s)\<lparr>pad_analog := pad_analog (pads p), pad_connected := pad_connected (pads p),
             pad_state := pad_state (pads p), pad_response := pad_response (pads p),
             pad_response_len := pad_response_len (pads p), pad_response_idx := pad_response_idx (pads p),
             pad_current_cmd := pad_current_cmd (pads p), pad_in_config := pad_in_config (pads p),
             pad_type_req := pad_type_req (pads p)\<rparr>,
          selected_slot := selected_slot p, mcw := mcw p, mc_slot := mc_slot p, mc_slots := mc_slots p,
          active_device := active_device p, shifter := shifter p, irqs := irqs p\<rparr>))"

section \<open>What each step leaves alone\<close>

lemmas pad_defs = pad_process_byte_def pad_access_def pad_command_def pad_send_def raise_ack_def set_rx_def byte_done_def

text \<open>A pad step touches only the pads, the data register and STAT.\<close>

definition pad_same :: "sio_st \<Rightarrow> sio_st \<Rightarrow> bool" where
  "pad_same s t \<longleftrightarrow> t = s\<lparr>pads := pads t, sio_rx_data := sio_rx_data t, sio_stat := sio_stat t\<rparr>"

lemma pad_same_refl [simp]: "pad_same s s"
  by (simp add: pad_same_def)

lemma pad_same_simple:
  "pad_same s t \<Longrightarrow> pad_same s (t\<lparr>pads := p\<rparr>)"
  "pad_same s t \<Longrightarrow> pad_same s (set_rx b t)"
  "pad_same s t \<Longrightarrow> pad_same s (raise_ack t)"
  "pad_same s t \<Longrightarrow> pad_same s (byte_done t)"
  unfolding pad_same_def set_rx_def raise_ack_def byte_done_def by (cases s; cases t; simp)+

lemma pad_process_same: "pad_same s (pad_process_byte tx s)"
  unfolding pad_process_byte_def pad_access_def pad_command_def pad_send_def Let_def
  by (simp add: pad_same_simple split: pad_st.split option.split)

lemma pad_process_frame [frame_simps]:
  "selected_slot (pad_process_byte tx s) = selected_slot s"
  "active_device (pad_process_byte tx s) = active_device s"
  "mcw (pad_process_byte tx s) = mcw s"
  "mc_slot (pad_process_byte tx s) = mc_slot s"
  "mc_slots (pad_process_byte tx s) = mc_slots s"
  "shifter (pad_process_byte tx s) = shifter s"
  "irqs (pad_process_byte tx s) = irqs s"
  "counts (pad_process_byte tx s) = counts s"
  "rings (pad_process_byte tx s) = rings s"
  "mcards (pad_process_byte tx s) = mcards s"
  "sio_port (pad_process_byte tx s) = sio_port s"
  "sio_ctrl (pad_process_byte tx s) = sio_ctrl s"
  by (subst pad_process_same [of s tx, unfolded pad_same_def], simp)+

lemmas mc_step_defs = mc_answer_def mc_stop_def mc_select_def mc_command_def mc_address_def mc_read_data_def
  mc_read_end_def mc_write_data_def mc_write_chk_def raise_ack_def set_rx_def byte_done_def mc_store_def

text \<open>A card step touches only the protocol variables, the cards, the data register, STAT and the
  counters.\<close>

definition mc_same :: "sio_st \<Rightarrow> sio_st \<Rightarrow> bool" where
  "mc_same s t \<longleftrightarrow>
     selected_slot t = selected_slot s \<and> active_device t = active_device s \<and> pads t = pads s \<and>
     mc_slots t = mc_slots s \<and> shifter t = shifter s \<and> irqs t = irqs s \<and> rings t = rings s \<and>
     sio_port t = sio_port s \<and> sio_ctrl t = sio_ctrl s \<and>
     (\<forall>i. card_present (cards (mcards t) i) = card_present (cards (mcards s) i))"

lemma mc_same_trans: "mc_same s t \<Longrightarrow> mc_same t u \<Longrightarrow> mc_same s u"
  by (simp add: mc_same_def)

lemma mc_same_simple [simp]:
  "mc_same s s"
  "mc_same s (t\<lparr>mcw := c\<rparr>) = mc_same s t"
  "mc_same s (t\<lparr>mc_slot := k\<rparr>) = mc_same s t"
  "mc_same s (t\<lparr>counts := n\<rparr>) = mc_same s t"
  "mc_same s (t\<lparr>diag := d\<rparr>) = mc_same s t"
  "mc_same s (set_rx b t) = mc_same s t"
  "mc_same s (raise_ack t) = mc_same s t"
  "mc_same s (byte_done t) = mc_same s t"
  "mc_same s (mc_answer st b t) = mc_same s t"
  "mc_same s (mc_stop b t) = mc_same s t"
  by (simp_all add: mc_same_def set_rx_def raise_ack_def byte_done_def mc_answer_def mc_stop_def)

lemma mc_same_steps [simp]:
  "mc_same s (mc_select t) = mc_same s t"
  "mc_same s (mc_command tx t) = mc_same s t"
  "mc_same s (mc_address tx t) = mc_same s t"
  "mc_same s (mc_read_data t) = mc_same s t"
  "mc_same s (mc_read_end t) = mc_same s t"
  "mc_same s (mc_write_data tx t) = mc_same s t"
  by (simp_all add: mc_select_def mc_command_def mc_address_def mc_read_data_def mc_read_end_def
      mc_write_data_def Let_def)

lemma mc_same_flush [simp]:
  "mc_same s (t\<lparr>mcards := memcard_flush io k (snd (memcard_write_sector k' n buf (mcards t)))\<rparr>) = mc_same s t"
  by (simp add: mc_same_def)

lemma mc_same_write_chk [simp]: "mc_same s (mc_write_chk e tx t) = mc_same s t"
proof -
  have "mcards (mc_answer st b t) = mcards t" for st b
    by (simp add: mc_answer_def raise_ack_def set_rx_def)
  then show ?thesis
    using mc_same_flush [where t = "mc_answer MC_WRITE_ACK1 0x00 t"] by (simp add: mc_write_chk_def Let_def)
qed

lemma mc_process_same: "mc_same s (mc_process_byte e tx s)"
  unfolding mc_process_byte_def Let_def by (simp split: mc_st.split)

lemma mc_process_frame [frame_simps]:
  "selected_slot (mc_process_byte e tx s) = selected_slot s"
  "active_device (mc_process_byte e tx s) = active_device s"
  "pads (mc_process_byte e tx s) = pads s"
  "mc_slots (mc_process_byte e tx s) = mc_slots s"
  "shifter (mc_process_byte e tx s) = shifter s"
  "irqs (mc_process_byte e tx s) = irqs s"
  "rings (mc_process_byte e tx s) = rings s"
  "sio_port (mc_process_byte e tx s) = sio_port s"
  "sio_ctrl (mc_process_byte e tx s) = sio_ctrl s"
  "card_present (cards (mcards (mc_process_byte e tx s)) i) = card_present (cards (mcards s) i)"
  using mc_process_same [of s e tx] unfolding mc_same_def by blast+

lemma sr_record_frame [frame_simps, simp]:
  "selected_slot (sr_record k a b s) = selected_slot s"
  "active_device (sr_record k a b s) = active_device s"
  "mcw (sr_record k a b s) = mcw s"
  "mc_slot (sr_record k a b s) = mc_slot s"
  "mc_slots (sr_record k a b s) = mc_slots s"
  "pads (sr_record k a b s) = pads s"
  "shifter (sr_record k a b s) = shifter s"
  "irqs (sr_record k a b s) = irqs s"
  "counts (sr_record k a b s) = counts s"
  "rings (sr_record k a b s) = rings s"
  "mcards (sr_record k a b s) = mcards s"
  "sio_port (sr_record k a b s) = sio_port s"
  "sio_ctrl (sr_record k a b s) = sio_ctrl s"
  "sio_stat (sr_record k a b s) = sio_stat s"
  "sio_rx_data (sr_record k a b s) = sio_rx_data s"
  by (simp_all add: sr_record_def)

end
