(* ===== verification/Sio_Props.thy ===== *)
theory Sio_Props
  imports Sio Event_Source
begin

text \<open>
  What the serial port guarantees: the protocol a memory card speaks, the frames a pad answers,
  the invariant of every reachable state, and the timing of the shifter.
\<close>

section \<open>The card protocol\<close>

text \<open>
  What a card does with one byte once it is selected, as a function of its protocol variables and
  the card contents only: the byte it returns and the new variables and contents.
\<close>

definition read_buffer :: "nat \<Rightarrow> u16 \<Rightarrow> (nat \<Rightarrow> u8) \<Rightarrow> memcards \<Rightarrow> nat \<Rightarrow> u8" where
  "read_buffer k n d m =
     (if unat n < MEMCARD_SECTORS then snd (memcard_read_sector (int k) (uint n) d m) else memset 0 0xFF 128 d)"

fun card_spec :: "sio_env \<Rightarrow> nat \<Rightarrow> u8 \<Rightarrow> mc_regs \<times> memcards \<Rightarrow> u8 \<times> (mc_regs \<times> memcards)" where
  "card_spec e k b (c, m) =
     (case mc_state c of
        MC_IDLE \<Rightarrow> (0xFF, (if card_present (cards m k) then c\<lparr>mc_state := MC_CMD\<rparr> else c, m))
      | MC_CMD \<Rightarrow> (if b \<in> {0x52, 0x57, 0x53}
                   then (mc_flag c, (c\<lparr>mc_state := MC_ID1, mc_cmd := b, mc_flag := 0\<rparr>, m))
                   else (0xFF, (c\<lparr>mc_state := MC_IDLE, mc_cmd := b\<rparr>, m)))
      | MC_ID1 \<Rightarrow> (0x5A, (c\<lparr>mc_state := MC_ID2\<rparr>, m))
      | MC_ID2 \<Rightarrow> (0x5D, (c\<lparr>mc_state := (if mc_cmd c = 0x53 then MC_GETID_1 else MC_ADDR_MSB)\<rparr>, m))
      | MC_GETID_1 \<Rightarrow> (0x04, (c\<lparr>mc_state := MC_GETID_2\<rparr>, m))
      | MC_GETID_2 \<Rightarrow> (0x00, (c\<lparr>mc_state := MC_GETID_3\<rparr>, m))
      | MC_GETID_3 \<Rightarrow> (0x00, (c\<lparr>mc_state := MC_GETID_4\<rparr>, m))
      | MC_GETID_4 \<Rightarrow> (0x80, (c\<lparr>mc_state := MC_IDLE\<rparr>, m))
      | MC_ADDR_MSB \<Rightarrow> (0x00, (c\<lparr>mc_state := MC_ADDR_LSB, mc_sector_msb := b\<rparr>, m))
      | MC_ADDR_LSB \<Rightarrow>
          (let n = push_bit 8 (ucast (mc_sector_msb c)) OR ucast b; c = c\<lparr>mc_sector_lsb := b, mc_sector := n\<rparr>
           in if mc_cmd c = 0x52
              then let c = c\<lparr>mc_data := read_buffer k n (mc_data c) m, mc_data_idx := 0\<rparr>
                   in (0x00, (c\<lparr>mc_state := MC_READ_ACK1, mc_checksum := sector_sum c\<rparr>, m))
              else (mc_sector_msb c, (c\<lparr>mc_state := MC_WRITE_LSB_ECHO, mc_data_idx := 0\<rparr>, m)))
      | MC_READ_ACK1 \<Rightarrow> (0x5C, (c\<lparr>mc_state := MC_READ_ACK2\<rparr>, m))
      | MC_READ_ACK2 \<Rightarrow> (0x5D, (c\<lparr>mc_state := MC_READ_MSB_ECHO\<rparr>, m))
      | MC_READ_MSB_ECHO \<Rightarrow> (mc_sector_msb c, (c\<lparr>mc_state := MC_READ_LSB_ECHO\<rparr>, m))
      | MC_READ_LSB_ECHO \<Rightarrow> (mc_sector_lsb c, (c\<lparr>mc_state := MC_READ_DATA, mc_data_idx := 0\<rparr>, m))
      | MC_READ_DATA \<Rightarrow>
          (mc_data c (mc_data_idx c),
           (c\<lparr>mc_data_idx := mc_data_idx c + 1,
              mc_state := (if mc_data_idx c + 1 \<ge> 128 then MC_READ_CHK else MC_READ_DATA)\<rparr>, m))
      | MC_READ_CHK \<Rightarrow> (mc_checksum c, (c\<lparr>mc_state := MC_READ_END\<rparr>, m))
      | MC_READ_END \<Rightarrow> (if unat (mc_sector c) < MEMCARD_SECTORS then 0x47 else 0xFF, (c\<lparr>mc_state := MC_IDLE\<rparr>, m))
      | MC_WRITE_LSB_ECHO \<Rightarrow> (mc_sector_lsb c, ((mc_store b c)\<lparr>mc_state := MC_WRITE_DATA\<rparr>, m))
      | MC_WRITE_DATA \<Rightarrow>
          (0x00, ((mc_store b c)\<lparr>mc_state := (if mc_data_idx c + 1 \<ge> 128 then MC_WRITE_CHK else MC_WRITE_DATA)\<rparr>, m))
      | MC_WRITE_CHK \<Rightarrow>
          (let good = (b = sector_sum c \<and> unat (mc_sector c) < MEMCARD_SECTORS)
           in (0x00, (c\<lparr>mc_state := MC_WRITE_ACK1,
                        mc_checksum := (if good then 0x47 else if unat (mc_sector c) \<ge> MEMCARD_SECTORS then 0xFF else 0x4E)\<rparr>,
                      if good then memcard_flush (env_io e) (int k)
                                     (snd (memcard_write_sector (int k) (uint (mc_sector c)) (mc_data c) m))
                      else m)))
      | MC_WRITE_ACK1 \<Rightarrow> (0x5C, (c\<lparr>mc_state := MC_WRITE_ACK2\<rparr>, m))
      | MC_WRITE_ACK2 \<Rightarrow> (0x5D, (c\<lparr>mc_state := MC_WRITE_END\<rparr>, m))
      | MC_WRITE_END \<Rightarrow> (mc_checksum c, (c\<lparr>mc_state := MC_IDLE, mc_flag := 0\<rparr>, m)))"

definition card_view :: "sio_st \<Rightarrow> u8 \<times> (mc_regs \<times> memcards)" where
  "card_view s = (sio_rx_data s, (mcw s, mcards s))"

text \<open>A card step followed by what the bus records of it refines the specification.\<close>

lemma card_view_simple [simp]:
  "card_view (byte_done s) = card_view s"
  "card_view (raise_ack s) = card_view s"
  "card_view (set_rx b s) = (b, (mcw s, mcards s))"
  "card_view (mc_answer st b s) = (b, ((mcw s)\<lparr>mc_state := st\<rparr>, mcards s))"
  "card_view (mc_stop b s) = (b, ((mcw s)\<lparr>mc_state := MC_IDLE\<rparr>, mcards s))"
  "mcw (mc_answer st b s) = (mcw s)\<lparr>mc_state := st\<rparr>" "mcards (mc_answer st b s) = mcards s"
  "mcw (mc_stop b s) = (mcw s)\<lparr>mc_state := MC_IDLE\<rparr>" "mcards (mc_stop b s) = mcards s"
  "sio_rx_data (mc_answer st b s) = b" "sio_rx_data (mc_stop b s) = b"
  "mc_slot (mc_answer st b s) = mc_slot s" "mc_slot (mc_stop b s) = mc_slot s"
  "diag (mc_answer st b s) = diag s" "counts (mc_answer st b s) = counts s"
  by (simp_all add: card_view_def byte_done_def raise_ack_def set_rx_def mc_answer_def mc_stop_def)

lemma card_view_upd [simp]:
  "card_view (s\<lparr>counts := n\<rparr>) = card_view s"
  "card_view (s\<lparr>mcw := c\<rparr>) = (sio_rx_data s, (c, mcards s))"
  "card_view (s\<lparr>mcards := m\<rparr>) = (sio_rx_data s, (mcw s, m))"
  "card_view (s\<lparr>diag := d\<rparr>) = card_view s"
  "card_view (s\<lparr>mc_slot := k\<rparr>) = card_view s"
  by (simp_all add: card_view_def)

lemma mc_process_view:
  assumes "mc_state (mcw s) \<noteq> MC_IDLE"
  shows "card_view (mc_process_byte e b s) = card_spec e (mc_slot s) b (mcw s, mcards s)"
proof -
  note [simp] = Let_def mc_process_byte_def
  show ?thesis
  proof (cases "mc_state (mcw s)")
    case MC_CMD then show ?thesis by (simp add: mc_command_def) next
    case MC_ADDR_LSB then show ?thesis by (simp add: mc_address_def sector_sum_def read_buffer_def) next
    case MC_READ_DATA then show ?thesis by (simp add: mc_read_data_def) next
    case MC_READ_END then show ?thesis by (simp add: mc_read_end_def) next
    case MC_WRITE_DATA then show ?thesis by (simp add: mc_write_data_def mc_store_def) next
    case MC_WRITE_CHK then show ?thesis by (simp add: mc_write_chk_def sector_sum_def)
  qed (use assms in simp_all)
qed

lemma track_trace_frame [simp]:
  "card_view (trace_byte e b s0 s) = card_view s" "card_view (txn_track e b cb pre ga s) = card_view s"
  "active_device (trace_byte e b s0 s) = active_device s" "active_device (txn_track e b cb pre ga s) = active_device s"
  "mc_slot (trace_byte e b s0 s) = mc_slot s" "mc_slot (txn_track e b cb pre ga s) = mc_slot s"
  "selected_slot (trace_byte e b s0 s) = selected_slot s" "selected_slot (txn_track e b cb pre ga s) = selected_slot s"
  "mc_slots (trace_byte e b s0 s) = mc_slots s" "mc_slots (txn_track e b cb pre ga s) = mc_slots s"
  "pads (trace_byte e b s0 s) = pads s" "pads (txn_track e b cb pre ga s) = pads s"
  "shifter (trace_byte e b s0 s) = shifter s" "shifter (txn_track e b cb pre ga s) = shifter s"
  "irqs (trace_byte e b s0 s) = irqs s" "irqs (txn_track e b cb pre ga s) = irqs s"
  "mcw (trace_byte e b s0 s) = mcw s" "mcw (txn_track e b cb pre ga s) = mcw s"
  "mcards (trace_byte e b s0 s) = mcards s" "mcards (txn_track e b cb pre ga s) = mcards s"
  "sio_rx_data (trace_byte e b s0 s) = sio_rx_data s" "sio_rx_data (txn_track e b cb pre ga s) = sio_rx_data s"
  "sio_stat (trace_byte e b s0 s) = sio_stat s" "sio_stat (txn_track e b cb pre ga s) = sio_stat s"
  "sio_port (trace_byte e b s0 s) = sio_port s" "sio_port (txn_track e b cb pre ga s) = sio_port s"
  "sio_ctrl (trace_byte e b s0 s) = sio_ctrl s" "sio_ctrl (txn_track e b cb pre ga s) = sio_ctrl s"
  by (simp_all add: trace_byte_def txn_track_def Let_def card_view_def)

text \<open>A selected card that is in the middle of a transaction.\<close>

definition card_busy :: "nat \<Rightarrow> sio_st \<Rightarrow> bool" where
  "card_busy k s \<longleftrightarrow> active_device s = DEV_MEMCARD \<and> mc_slot s = k \<and> selected_slot s = k"

lemma mc_slot_process: "mc_state (mcw s) \<noteq> MC_IDLE \<Longrightarrow> mc_slot (mc_process_byte e b s) = mc_slot s"
  unfolding mc_process_byte_def Let_def byte_done_def
  by (simp add: mc_command_def mc_address_def mc_read_data_def mc_read_end_def mc_write_data_def
      mc_write_chk_def set_rx_def raise_ack_def Let_def split: mc_st.split)

lemma process_card_byte:
  assumes "card_busy k s" "mc_state (mcw s) \<noteq> MC_IDLE"
  shows "card_view (sio_process_byte e b s) = card_spec e k b (mcw s, mcards s)"
    and "card_busy k (sio_process_byte e b s)"
  using assms mc_process_view [of s e b]
  by (simp_all add: sio_process_byte_def byte_dispatch_def byte_memcard_def card_busy_def Let_def
      mc_slot_process mc_process_frame)

primrec exchange :: "sio_env \<Rightarrow> u8 list \<Rightarrow> sio_st \<Rightarrow> u8 list \<times> sio_st" where
  "exchange e [] s = ([], s)"
| "exchange e (b # bs) s =
     (let s = sio_process_byte e b s; (rs, t) = exchange e bs s in (sio_rx_data s # rs, t))"

primrec spec_exchange :: "sio_env \<Rightarrow> nat \<Rightarrow> u8 list \<Rightarrow> mc_regs \<times> memcards \<Rightarrow> u8 list \<times> (mc_regs \<times> memcards)" where
  "spec_exchange e k [] v = ([], v)"
| "spec_exchange e k (b # bs) v =
     (let (r, v) = card_spec e k b v; (rs, v) = spec_exchange e k bs v in (r # rs, v))"

text \<open>The specification does not fall idle before the last byte.\<close>

primrec stays_busy :: "sio_env \<Rightarrow> nat \<Rightarrow> u8 list \<Rightarrow> mc_regs \<times> memcards \<Rightarrow> bool" where
  "stays_busy e k [] v = True"
| "stays_busy e k (b # bs) v = (mc_state (fst v) \<noteq> MC_IDLE \<and> stays_busy e k bs (snd (card_spec e k b v)))"

lemma exchange_refines:
  "card_busy k s \<Longrightarrow> stays_busy e k bs (mcw s, mcards s) \<Longrightarrow>
     (case exchange e bs s of (rs, t) \<Rightarrow>
        spec_exchange e k bs (mcw s, mcards s) = (rs, (mcw t, mcards t)) \<and> card_busy k t)"
proof (induction bs arbitrary: s)
  case (Cons b bs)
  define s1 where "s1 = sio_process_byte e b s"
  have busy: "mc_state (mcw s) \<noteq> MC_IDLE" using Cons.prems(2) by simp
  have v: "card_spec e k b (mcw s, mcards s) = (sio_rx_data s1, (mcw s1, mcards s1))" and b1: "card_busy k s1"
    using process_card_byte [OF Cons.prems(1) busy, of e b] by (simp_all add: s1_def card_view_def)
  have st: "stays_busy e k bs (mcw s1, mcards s1)" using Cons.prems(2) v by simp
  from Cons.IH [OF b1 st] show ?case
    using v by (simp add: s1_def [symmetric] Let_def del: card_spec.simps split: prod.splits)
qed simp

lemma exchange_append:
  "exchange e (bs @ cs) s =
     (let (rs, t) = exchange e bs s; (ps, u) = exchange e cs t in (rs @ ps, u))"
  by (induction bs arbitrary: s) (simp_all add: Let_def case_prod_unfold)

lemma spec_exchange_append:
  "spec_exchange e k (bs @ cs) v =
     (let (rs, w) = spec_exchange e k bs v; (ps, x) = spec_exchange e k cs w in (rs @ ps, x))"
  by (induction bs arbitrary: v) (simp_all add: Let_def case_prod_unfold)

lemma stays_busy_append:
  "stays_busy e k (bs @ cs) v \<longleftrightarrow> stays_busy e k bs v \<and> stays_busy e k cs (snd (spec_exchange e k bs v))"
  by (induction bs arbitrary: v) (simp_all add: Let_def case_prod_unfold)

text \<open>The data phases of a read and of a write.\<close>

lemma spec_read_data:
  assumes "mc_state c = MC_READ_DATA" "mc_data_idx c + length bs = 128" "bs \<noteq> []"
  shows "spec_exchange e k bs (c, m) =
           (map (mc_data c) [mc_data_idx c..<128], (c\<lparr>mc_state := MC_READ_CHK, mc_data_idx := 128\<rparr>, m))
         \<and> stays_busy e k bs (c, m)"
  using assms
proof (induction bs arbitrary: c)
  case (Cons b bs)
  show ?case
  proof (cases bs)
    case Nil
    then have "mc_data_idx c = 127" using Cons.prems(2) by simp
    then show ?thesis using Nil Cons.prems(1) by (simp add: Let_def)
  next
    case (Cons b' bs')
    define c1 where "c1 = c\<lparr>mc_data_idx := mc_data_idx c + 1\<rparr>"
    have i: "mc_data_idx c + 1 < 128" using Cons.prems(2) Cons by simp
    have c1: "mc_state c1 = MC_READ_DATA" "mc_data_idx c1 + length bs = 128" "mc_data c1 = mc_data c"
      using Cons.prems by (simp_all add: c1_def)
    have step: "card_spec e k b (c, m) = (mc_data c (mc_data_idx c), (c1, m))"
      using i Cons.prems(1) by (simp add: c1_def)
    have "[mc_data_idx c..<128] = mc_data_idx c # [mc_data_idx c1..<128]"
      using i by (simp add: c1_def upt_conv_Cons)
    then show ?thesis
      using Cons.IH [OF c1(1,2)] Cons step Cons.prems(1) c1(3)
      by (simp del: card_spec.simps add: c1_def)
  qed
qed simp

declare upt_rec_numeral [simp del]

definition put_bytes :: "nat \<Rightarrow> u8 list \<Rightarrow> (nat \<Rightarrow> u8) \<Rightarrow> nat \<Rightarrow> u8" where
  "put_bytes off bs d = (\<lambda>i. if off \<le> i \<and> i < off + length bs then bs ! (i - off) else d i)"

lemma put_bytes_Cons: "put_bytes i (b # bs) d = put_bytes (Suc i) bs (d(i := b))"
  by (auto simp: put_bytes_def fun_eq_iff nth_Cons' Suc_diff_le)

lemma put_bytes_Nil [simp]: "put_bytes i [] d = d"
  by (auto simp: put_bytes_def fun_eq_iff)

lemma spec_write_data:
  assumes "mc_state c = MC_WRITE_DATA" "mc_data_idx c + length bs = 128" "bs \<noteq> []"
  shows "spec_exchange e k bs (c, m) =
           (replicate (length bs) 0,
            (c\<lparr>mc_state := MC_WRITE_CHK, mc_data := put_bytes (mc_data_idx c) bs (mc_data c), mc_data_idx := 128\<rparr>, m))
         \<and> stays_busy e k bs (c, m)"
  using assms
proof (induction bs arbitrary: c)
  case (Cons b bs)
  show ?case
  proof (cases bs)
    case Nil
    then have "mc_data_idx c = 127" using Cons.prems(2) by simp
    then show ?thesis using Nil Cons.prems(1) by (cases c) (simp add: Let_def mc_store_def put_bytes_Cons fun_upd_def)
  next
    case (Cons b' bs')
    define c1 where "c1 = c\<lparr>mc_data := (mc_data c)(mc_data_idx c := b), mc_data_idx := mc_data_idx c + 1\<rparr>"
    have i: "mc_data_idx c + 1 < 128" using Cons.prems(2) Cons by simp
    have c1: "mc_state c1 = MC_WRITE_DATA" "mc_data_idx c1 + length bs = 128"
      using Cons.prems by (simp_all add: c1_def)
    have step: "card_spec e k b (c, m) = (0, (c1, m))"
      using i Cons.prems(1) by (simp add: c1_def mc_store_def)
    show ?thesis
      using Cons.IH [OF c1] Cons step Cons.prems(1)
      by (simp del: card_spec.simps add: c1_def put_bytes_Cons fun_upd_def)
  qed
qed simp

definition sector_word :: "u8 \<Rightarrow> u8 \<Rightarrow> u16" where
  "sector_word msb lsb = push_bit 8 (ucast msb) OR ucast lsb"

definition xor_bytes :: "u8 list \<Rightarrow> u8" where
  "xor_bytes bs = fold (XOR) bs 0"

lemma fold_xor_bytes: "fold (\<lambda>i x. x XOR f i) xs (a XOR b) = xor_bytes ([a, b] @ map f xs)"
proof -
  have "fold (\<lambda>i x. x XOR f i) xs z = fold (XOR) (map f xs) z" for z
    by (induction xs arbitrary: z) (simp_all add: xor.commute)
  then show ?thesis by (simp add: xor_bytes_def xor.commute)
qed

lemma sector_sum_bytes:
  "sector_sum c = xor_bytes ([mc_sector_msb c, mc_sector_lsb c] @ map (mc_data c) [0..<128])"
  unfolding sector_sum_def by (rule fold_xor_bytes)

lemma length4: "length xs = 4 \<Longrightarrow> \<exists>a b c d. xs = [a, b, c, d]"
  by (auto simp: length_Suc_conv numeral_eq_Suc)

lemma length3: "length xs = 3 \<Longrightarrow> \<exists>a b c. xs = [a, b, c]"
  by (auto simp: length_Suc_conv numeral_eq_Suc)

lemma length2: "length xs = 2 \<Longrightarrow> \<exists>a b. xs = [a, b]"
  by (auto simp: length_Suc_conv numeral_eq_Suc)

text \<open>What a read transaction delivers: the 128 bytes of the sector, or 0xFF for a sector the card
  does not have.\<close>

definition sector_bytes :: "nat \<Rightarrow> u16 \<Rightarrow> memcards \<Rightarrow> u8 list" where
  "sector_bytes k n m =
     (if unat n < MEMCARD_SECTORS then map (\<lambda>i. card_data (cards m k) (unat n * 128 + i)) [0..<128]
      else replicate 128 0xFF)"

lemma sector_data:
  assumes "k < 2" "card_present (cards m k)"
  shows "map (read_buffer k n d m) [0..<128] = sector_bytes k n m"
proof (cases "unat n < 1024")
  case True
  then have "uint n < 1024" unfolding unat_eq_nat_uint by arith
  with True assms show ?thesis
    by (simp add: read_buffer_def sector_bytes_def memcard_read_sector_def card_index_ok_def sector_index_ok_def MAX_CARDS_def
        MEMCARD_SECTORS_def MEMCARD_SECTOR_SIZE_def)
next
  case False
  then have "map (memset 0 0xFF 128 d) [0..<128] = replicate 128 0xFF"
    by (intro nth_equalityI) (auto simp: memset_def)
  with False show ?thesis by (simp add: read_buffer_def sector_bytes_def MEMCARD_SECTORS_def)
qed

lemma spec_read_frame:
  assumes "mc_state c = MC_CMD" "length pad = 134" "k < 2" "card_present (cards m k)"
  shows "\<exists>c'. spec_exchange e k ([0x52, x1, x2, msb, lsb] @ pad) (c, m) =
           ([mc_flag c, 0x5A, 0x5D, 0, 0, 0x5C, 0x5D, msb, lsb] @ sector_bytes k (sector_word msb lsb) m
             @ [xor_bytes ([msb, lsb] @ sector_bytes k (sector_word msb lsb) m),
                if unat (sector_word msb lsb) < MEMCARD_SECTORS then 0x47 else 0xFF], (c', m))
         \<and> mc_state c' = MC_IDLE
         \<and> stays_busy e k ([0x52, x1, x2, msb, lsb] @ pad) (c, m)"
proof -
  define n where "n = sector_word msb lsb"
  define d where "d = read_buffer k n (mc_data c) m"
  obtain p1 p2 p3 p4 where p: "take 4 pad = [p1, p2, p3, p4]" using assms(2) length4 [of "take 4 pad"] by auto
  obtain z1 z2 where z: "drop 132 pad = [z1, z2]" using assms(2) length2 [of "drop 132 pad"] by auto
  define ds where "ds = take 128 (drop 4 pad)"
  have pad: "pad = [p1, p2, p3, p4] @ ds @ [z1, z2]"
    unfolding p [symmetric] z [symmetric] ds_def
    using append_take_drop_id [of 4 pad] append_take_drop_id [of 128 "drop 4 pad"] by simp
  have ds: "length ds = 128" "ds \<noteq> []" using assms(2) by (auto simp: ds_def)
  define c1 where "c1 = c\<lparr>mc_cmd := 0x52, mc_flag := 0, mc_sector_msb := msb, mc_sector_lsb := lsb, mc_sector := n,
      mc_data := d, mc_data_idx := 0\<rparr>"
  define c2 where "c2 = c1\<lparr>mc_checksum := sector_sum c1, mc_state := MC_READ_DATA\<rparr>"
  have md: "map d [0..<128] = sector_bytes k n m"
    unfolding d_def by (rule sector_data [OF assms(3,4)])
  have sum: "sector_sum c1 = xor_bytes ([msb, lsb] @ sector_bytes k n m)"
    by (simp only: sector_sum_bytes md [symmetric]) (simp add: c1_def)
  have head: "spec_exchange e k ([0x52, x1, x2, msb, lsb] @ [p1, p2, p3, p4]) (c, m) =
      ([mc_flag c, 0x5A, 0x5D, 0, 0, 0x5C, 0x5D, msb, lsb], (c2, m))
      \<and> stays_busy e k ([0x52, x1, x2, msb, lsb] @ [p1, p2, p3, p4]) (c, m)"
    using assms(1)
    by (cases c) (simp add: Let_def n_def [unfolded sector_word_def, symmetric] d_def c1_def c2_def
        sector_sum_def)
  have data: "spec_exchange e k ds (c2, m) = (map d [0..<128], (c2\<lparr>mc_state := MC_READ_CHK, mc_data_idx := 128\<rparr>, m))
      \<and> stays_busy e k ds (c2, m)"
    using spec_read_data [of c2 ds e k m] ds by (simp add: c2_def c1_def)
  define hd where "hd = [0x52, x1, x2, msb, lsb] @ [p1, p2, p3, p4]"
  define c3 where "c3 = c2\<lparr>mc_state := MC_READ_CHK, mc_data_idx := 128\<rparr>"
  define stat :: u8 where "stat = (if unat n < MEMCARD_SECTORS then 0x47 else 0xFF)"
  have tail: "spec_exchange e k [z1, z2] (c3, m) = ([sector_sum c1, stat], (c3\<lparr>mc_state := MC_IDLE\<rparr>, m))
      \<and> stays_busy e k [z1, z2] (c3, m)"
    by (simp add: c3_def c2_def c1_def Let_def stat_def)
  have frame: "[0x52, x1, x2, msb, lsb] @ pad = (hd @ ds) @ [z1, z2]" by (simp add: pad hd_def)
  have "spec_exchange e k ((hd @ ds) @ [z1, z2]) (c, m) =
      (([mc_flag c, 0x5A, 0x5D, 0, 0, 0x5C, 0x5D, msb, lsb] @ map d [0..<128]) @ [sector_sum c1, stat],
       (c3\<lparr>mc_state := MC_IDLE\<rparr>, m))
      \<and> stays_busy e k ((hd @ ds) @ [z1, z2]) (c, m)"
    using head [folded hd_def] data [folded c3_def] tail
    by (simp del: spec_exchange.simps stays_busy.simps add: spec_exchange_append stays_busy_append)
  then show ?thesis
    unfolding frame by (intro exI [of _ "c3\<lparr>mc_state := MC_IDLE\<rparr>"]) (simp add: md sum stat_def n_def)
qed

lemma write_sector_cong:
  assumes "\<And>i. i < 128 \<Longrightarrow> b i = b' i"
  shows "memcard_write_sector cn n b m = memcard_write_sector cn n b' m"
proof -
  have "store_sector k b = store_sector k b'" for k
    using assms by (auto simp: store_sector_def MEMCARD_SECTOR_SIZE_def fun_eq_iff)
  then show ?thesis by (simp add: memcard_write_sector_def)
qed

text \<open>The effect of a write transaction on the cards: the sector is stored and the card flushed,
  exactly when the sector exists and the checksum is that of the address and the data.\<close>

definition write_good :: "u8 \<Rightarrow> u8 \<Rightarrow> u8 list \<Rightarrow> u8 \<Rightarrow> bool" where
  "write_good msb lsb d chk \<longleftrightarrow> unat (sector_word msb lsb) < MEMCARD_SECTORS \<and> chk = xor_bytes ([msb, lsb] @ d)"

definition cards_written :: "sio_env \<Rightarrow> nat \<Rightarrow> u16 \<Rightarrow> u8 list \<Rightarrow> memcards \<Rightarrow> memcards" where
  "cards_written e k n d m =
     memcard_flush (env_io e) (int k) (snd (memcard_write_sector (int k) (uint n) (\<lambda>i. d ! i) m))"

lemma spec_write_frame:
  assumes "mc_state c = MC_CMD" "length d = 128" "length tl3 = 3"
  shows "\<exists>c'. spec_exchange e k ([0x57, x1, x2, msb, lsb] @ d @ [chk] @ tl3) (c, m) =
           ([mc_flag c, 0x5A, 0x5D, 0, msb, lsb] @ replicate 127 0
             @ [0, 0x5C, 0x5D, if write_good msb lsb d chk then 0x47
                   else if unat (sector_word msb lsb) < MEMCARD_SECTORS then 0x4E else 0xFF],
            (c', if write_good msb lsb d chk then cards_written e k (sector_word msb lsb) d m else m))
         \<and> mc_state c' = MC_IDLE
         \<and> stays_busy e k ([0x57, x1, x2, msb, lsb] @ d @ [chk] @ tl3) (c, m)"
proof -
  define n where "n = sector_word msb lsb"
  obtain d0 ds where d: "d = d0 # ds" "length ds = 127" "ds \<noteq> []"
    using assms(2) by (cases d; cases "tl d") auto
  obtain t1 t2 t3 where t: "tl3 = [t1, t2, t3]" using length3 [OF assms(3)] by auto
  define c1 where "c1 = c\<lparr>mc_cmd := 0x57, mc_flag := 0, mc_sector_msb := msb, mc_sector_lsb := lsb, mc_sector := n,
      mc_data := (mc_data c)(0 := d0), mc_data_idx := 1, mc_state := MC_WRITE_DATA\<rparr>"
  define c2 where "c2 = c1\<lparr>mc_state := MC_WRITE_CHK, mc_data := put_bytes 1 ds (mc_data c1), mc_data_idx := 128\<rparr>"
  define hd where "hd = [0x57, x1, x2, msb, lsb, d0]"
  have buf: "mc_data c2 = put_bytes 0 d (mc_data c)" by (simp add: c2_def c1_def d(1) put_bytes_Cons)
  have md: "map (mc_data c2) [0..<128] = d"
    unfolding buf using assms(2) by (intro nth_equalityI) (auto simp: put_bytes_def)
  have sum: "sector_sum c2 = xor_bytes ([msb, lsb] @ d)"
    by (simp only: sector_sum_bytes md) (simp add: c2_def c1_def)
  have wr: "memcard_write_sector (int k) (uint n) (mc_data c2) m = memcard_write_sector (int k) (uint n) (\<lambda>i. d ! i) m"
    unfolding buf by (rule write_sector_cong) (simp add: put_bytes_def assms(2))
  have head: "spec_exchange e k hd (c, m) = ([mc_flag c, 0x5A, 0x5D, 0, msb, lsb], (c1, m)) \<and> stays_busy e k hd (c, m)"
    using assms(1) by (cases c) (simp add: Let_def n_def [unfolded sector_word_def, symmetric] c1_def hd_def mc_store_def)
  have data: "spec_exchange e k ds (c1, m) = (replicate 127 0, (c2, m)) \<and> stays_busy e k ds (c1, m)"
    using spec_write_data [of c1 ds e k m] d by (simp add: c2_def c1_def)
  define good where "good = write_good msb lsb d chk"
  have g: "good \<longleftrightarrow> chk = sector_sum c2 \<and> unat (mc_sector c2) < MEMCARD_SECTORS"
    unfolding good_def write_good_def sum by (auto simp: n_def [symmetric] c2_def c1_def)
  define st :: u8 where "st = (if good then 0x47 else if unat n < MEMCARD_SECTORS then 0x4E else 0xFF)"
  define m' where "m' = (if good then cards_written e k n d m else m)"
  define c3 where "c3 = c2\<lparr>mc_checksum := st, mc_state := MC_WRITE_ACK1\<rparr>"
  have chk: "card_spec e k chk (c2, m) = (0, (c3, m'))"
  proof -
    have f: "mc_state c2 = MC_WRITE_CHK" "mc_sector c2 = n" by (simp_all add: c2_def c1_def)
    have u: "c2\<lparr>mc_state := MC_WRITE_ACK1, mc_checksum := x\<rparr> = c2\<lparr>mc_checksum := x, mc_state := MC_WRITE_ACK1\<rparr>" for x
      by (cases c2) simp
    show ?thesis
      unfolding c3_def st_def m'_def cards_written_def wr [symmetric] u [symmetric]
      by (simp only: card_spec.simps f mc_st.case Let_def) (use g f in auto)
  qed
  have "spec_exchange e k (chk # tl3) (c2, m) = ([0, 0x5C, 0x5D, st], (c3\<lparr>mc_state := MC_IDLE, mc_flag := 0\<rparr>, m'))
      \<and> stays_busy e k (chk # tl3) (c2, m)"
    by (simp only: spec_exchange.simps stays_busy.simps chk t) (simp add: c3_def Let_def c2_def)
  moreover have frame: "[0x57, x1, x2, msb, lsb] @ d @ [chk] @ tl3 = (hd @ ds) @ chk # tl3" by (simp add: d hd_def)
  ultimately have "spec_exchange e k ((hd @ ds) @ chk # tl3) (c, m) =
      (([mc_flag c, 0x5A, 0x5D, 0, msb, lsb] @ replicate 127 0) @ [0, 0x5C, 0x5D, st],
       (c3\<lparr>mc_state := MC_IDLE, mc_flag := 0\<rparr>, m'))
      \<and> stays_busy e k ((hd @ ds) @ chk # tl3) (c, m)"
    using head data
    by (simp del: spec_exchange.simps stays_busy.simps add: spec_exchange_append stays_busy_append)
  then show ?thesis
    unfolding frame by (intro exI [of _ "c3\<lparr>mc_state := MC_IDLE, mc_flag := 0\<rparr>"])
      (simp add: st_def n_def m'_def good_def)
qed

text \<open>A card is ready when nothing has been sent since the bus was selected, or when its last
  transaction has ended.\<close>

definition card_ready :: "nat \<Rightarrow> sio_st \<Rightarrow> bool" where
  "card_ready k s \<longleftrightarrow> k < 2 \<and> card_present (cards (mcards s) k) \<and>
     (active_device s = DEV_NONE \<and> (if has (sio_ctrl s) SIO_CTRL_SLOT then 1 else 0) = k
        \<and> mc_state (mc_slots s k) = MC_IDLE
      \<or> active_device s = DEV_MEMCARD \<and> mc_state (mcw s) = MC_IDLE \<and> selected_slot s = k)"

lemma memcard_is_present_nat: "k < 2 \<Longrightarrow> memcard_is_present (int k) m = card_present (cards m k)"
  by (simp add: memcard_is_present_def card_index_ok_def MAX_CARDS_def)

lemma mc_select_selected:
  assumes "mc_state (mcw s) = MC_IDLE" "selected_slot s < 2" "card_present (cards (mcards s) (selected_slot s))"
  shows "card_view (mc_process_byte e 0x81 s) = (0xFF, ((mcw s)\<lparr>mc_state := MC_CMD\<rparr>, mcards s))"
    and "mc_slot (mc_process_byte e 0x81 s) = selected_slot s"
  using assms
  by (simp_all add: mc_process_byte_def Let_def mc_select_def memcard_is_present_nat byte_done_def)
     (simp_all add: card_view_def)

lemma card_select:
  assumes "card_ready k s"
  shows "card_busy k (sio_process_byte e 0x81 s) \<and> sio_rx_data (sio_process_byte e 0x81 s) = 0xFF
       \<and> mcards (sio_process_byte e 0x81 s) = mcards s \<and> mc_state (mcw (sio_process_byte e 0x81 s)) = MC_CMD"
proof -
  have key: "card_busy k (mc_process_byte e 0x81 u) \<and> sio_rx_data (mc_process_byte e 0x81 u) = 0xFF
       \<and> mcards (mc_process_byte e 0x81 u) = mcards u \<and> mc_state (mcw (mc_process_byte e 0x81 u)) = MC_CMD"
    if "active_device u = DEV_MEMCARD" "mc_state (mcw u) = MC_IDLE" "selected_slot u = k" "mcards u = mcards s" for u
    using mc_select_selected [of u e] that assms
    by (auto simp: card_ready_def card_busy_def mc_process_frame card_view_def)
  have lift: "card_busy k (trace_byte e b s0 (txn_track e b cb pre ga u)) = card_busy k u" for b s0 cb pre ga u
    by (simp add: card_busy_def)
  show ?thesis
  proof (cases "active_device s")
    case DEV_NONE
    define u where "u = txn_open_if_closed e k ((mc_load_slot k (slot_select s))\<lparr>active_device := DEV_MEMCARD, mc_slot := k,
       counts := (counts s)\<lparr>mc_probe_count := mc_probe_count (counts s) + 1, mc_last_caller := env_func e\<rparr>\<rparr>)"
    have k: "k \<le> 1" "selected_slot (slot_select s) = k" "mc_state (mc_slots s k) = MC_IDLE"
      using assms DEV_NONE by (auto simp: card_ready_def slot_select_def)
    have l: "mc_abort_reselect e (mc_load_slot k (slot_select s)) = mc_load_slot k (slot_select s)"
      using k by (simp add: mc_abort_reselect_def mc_load_slot_def slot_select_def)
    have u: "fst (byte_dispatch e 0x81 s) = mc_process_byte e 0x81 u"
      using DEV_NONE k l
      by (simp add: byte_dispatch_def byte_card_select_def Let_def u_def) (simp add: mc_load_slot_def slot_select_def)
    have uu: "active_device u = DEV_MEMCARD" "mc_state (mcw u) = MC_IDLE" "selected_slot u = k" "mcards u = mcards s"
      using k by (simp_all add: u_def txn_open_if_closed_def mc_load_slot_def slot_select_def)
    from key [OF uu] u uu(4) show ?thesis by (simp add: sio_process_byte_def case_prod_unfold Let_def lift)
  next
    case DEV_MEMCARD
    define u where "u = txn_open_if_closed e (mc_slot s) s"
    have "active_device u = DEV_MEMCARD" "mc_state (mcw u) = MC_IDLE" "selected_slot u = k" "mcards u = mcards s"
      using assms DEV_MEMCARD by (auto simp: u_def txn_open_if_closed_def card_ready_def)
    from key [OF this] show ?thesis
      using DEV_MEMCARD assms
      by (simp add: sio_process_byte_def byte_dispatch_def byte_memcard_def card_ready_def u_def Let_def lift)
         (simp add: txn_open_if_closed_def)
  qed (use assms in \<open>simp add: card_ready_def\<close>)
qed

text \<open>One whole transaction on the bus, from the select byte.\<close>

lemma exchange_frame:
  assumes "card_ready k s"
    and "\<And>c. mc_state c = MC_CMD \<Longrightarrow> \<exists>c'. spec_exchange e k bs (c, mcards s) = (rs (mc_flag c), (c', m'))
           \<and> mc_state c' = MC_IDLE \<and> stays_busy e k bs (c, mcards s)"
  shows "\<exists>f. case exchange e (0x81 # bs) s of (out, t) \<Rightarrow>
           out = 0xFF # rs f \<and> mcards t = m' \<and> mc_state (mcw t) = MC_IDLE \<and> card_busy k t"
proof -
  define s1 where "s1 = sio_process_byte e 0x81 s"
  have s1: "card_busy k s1" "sio_rx_data s1 = 0xFF" "mcards s1 = mcards s" "mc_state (mcw s1) = MC_CMD"
    using card_select [OF assms(1), of e] by (simp_all add: s1_def)
  obtain c' where c': "spec_exchange e k bs (mcw s1, mcards s1) = (rs (mc_flag (mcw s1)), (c', m'))"
    "mc_state c' = MC_IDLE" "stays_busy e k bs (mcw s1, mcards s1)"
    using assms(2) [OF s1(4)] s1(3) by auto
  obtain out t where x: "exchange e bs s1 = (out, t)" by (cases "exchange e bs s1")
  then have "out = rs (mc_flag (mcw s1)) \<and> mcw t = c' \<and> mcards t = m' \<and> card_busy k t"
    using exchange_refines [OF s1(1) c'(3)] c'(1) by simp
  then show ?thesis
    using x c'(2) s1(2) by (intro exI [of _ "mc_flag (mcw s1)"]) (simp add: s1_def [symmetric] Let_def)
qed

lemma busy_ready:
  "card_busy k t \<Longrightarrow> mc_state (mcw t) = MC_IDLE \<Longrightarrow> k < 2 \<Longrightarrow> card_present (cards (mcards t) k) \<Longrightarrow> card_ready k t"
  by (simp add: card_ready_def card_busy_def)

lemma present_written [simp]:
  "card_present (cards (cards_written e k n d m) i) = card_present (cards m i)"
  by (simp add: cards_written_def)

lemma flush_data [simp]: "card_data (cards (memcard_flush io cn m) i) = card_data (cards m i)"
  by (auto simp: memcard_flush_def Let_def split: prod.splits)

lemma sector_bytes_written:
  assumes "k < 2" "card_present (cards m k)" "unat n < MEMCARD_SECTORS" "length d = 128"
  shows "sector_bytes k n (cards_written e k n d m) = d"
proof -
  have "uint n < 1024" using assms(3) unfolding unat_eq_nat_uint MEMCARD_SECTORS_def by arith
  then show ?thesis
    using assms by (intro nth_equalityI)
     (auto simp: sector_bytes_def cards_written_def memcard_write_sector_def card_index_ok_def sector_index_ok_def
       MAX_CARDS_def MEMCARD_SECTORS_def Let_def store_sector_bytes)
qed

definition read_frame :: "u8 \<Rightarrow> u8 \<Rightarrow> u8 list \<Rightarrow> u8 list" where
  "read_frame msb lsb pad = 0x81 # [0x52, 0, 0, msb, lsb] @ pad"

definition write_frame :: "u8 \<Rightarrow> u8 \<Rightarrow> u8 list \<Rightarrow> u8 \<Rightarrow> u8 list" where
  "write_frame msb lsb d chk = 0x81 # [0x57, 0, 0, msb, lsb] @ d @ [chk] @ [0, 0, 0]"

lemma exchange_write:
  assumes "card_ready k s" "length d = 128"
  shows "case exchange e (write_frame msb lsb d chk) s of (rs, t) \<Rightarrow>
           last rs = (if write_good msb lsb d chk then 0x47 else if unat (sector_word msb lsb) < MEMCARD_SECTORS then 0x4E else 0xFF)
           \<and> mcards t = (if write_good msb lsb d chk then cards_written e k (sector_word msb lsb) d (mcards s) else mcards s)
           \<and> card_ready k t"
proof -
  define rs where "rs f = [f, 0x5A, 0x5D, 0, msb, lsb] @ replicate 127 0
             @ [0, 0x5C, 0x5D, if write_good msb lsb d chk then 0x47
                   else if unat (sector_word msb lsb) < MEMCARD_SECTORS then 0x4E else 0xFF]" for f
  have l: "last (rs f) = (if write_good msb lsb d chk then 0x47 else if unat (sector_word msb lsb) < MEMCARD_SECTORS then 0x4E else 0xFF)" for f
    by (simp add: rs_def)
  have ne: "rs f \<noteq> []" for f by (simp add: rs_def)
  define bs where "bs = [0x57, 0, 0, msb, lsb] @ d @ [chk] @ [0, 0, 0 :: u8]"
  define m' where "m' = (if write_good msb lsb d chk then cards_written e k (sector_word msb lsb) d (mcards s) else mcards s)"
  have "\<exists>f. case exchange e (0x81 # bs) s of (out, t) \<Rightarrow>
           out = 0xFF # rs f \<and> mcards t = m' \<and> mc_state (mcw t) = MC_IDLE \<and> card_busy k t"
  proof (rule exchange_frame [OF assms(1)])
    fix c :: mc_regs assume "mc_state c = MC_CMD"
    from spec_write_frame [OF this assms(2), of "[0, 0, 0]" e k 0 0 msb lsb chk "mcards s"]
    show "\<exists>c'. spec_exchange e k bs (c, mcards s) = (rs (mc_flag c), (c', m'))
           \<and> mc_state c' = MC_IDLE \<and> stays_busy e k bs (c, mcards s)"
      unfolding bs_def rs_def m'_def by simp
  qed
  moreover have "k < 2" "card_present (cards m' k)"
    using assms(1) by (auto simp: card_ready_def m'_def)
  ultimately show ?thesis
    unfolding write_frame_def bs_def [symmetric] using busy_ready
    by (auto simp: l ne m'_def split: prod.splits)
qed

lemma exchange_read:
  assumes "card_ready k s" "length pad = 134"
  shows "\<exists>f. case exchange e (read_frame msb lsb pad) s of (rs, t) \<Rightarrow>
           rs = [0xFF, f, 0x5A, 0x5D, 0, 0, 0x5C, 0x5D, msb, lsb] @ sector_bytes k (sector_word msb lsb) (mcards s)
             @ [xor_bytes ([msb, lsb] @ sector_bytes k (sector_word msb lsb) (mcards s)),
                if unat (sector_word msb lsb) < MEMCARD_SECTORS then 0x47 else 0xFF]
           \<and> mcards t = mcards s \<and> card_ready k t"
proof -
  define rs where "rs f = [f, 0x5A, 0x5D, 0, 0, 0x5C, 0x5D, msb, lsb] @ sector_bytes k (sector_word msb lsb) (mcards s)
             @ [xor_bytes ([msb, lsb] @ sector_bytes k (sector_word msb lsb) (mcards s)),
                if unat (sector_word msb lsb) < MEMCARD_SECTORS then 0x47 else 0xFF]" for f
  define bs where "bs = [0x52, 0, 0, msb, lsb] @ pad"
  have k: "k < 2" "card_present (cards (mcards s) k)" using assms(1) by (auto simp: card_ready_def)
  have "\<exists>f. case exchange e (0x81 # bs) s of (out, t) \<Rightarrow>
           out = 0xFF # rs f \<and> mcards t = mcards s \<and> mc_state (mcw t) = MC_IDLE \<and> card_busy k t"
  proof (rule exchange_frame [OF assms(1)])
    fix c :: mc_regs assume "mc_state c = MC_CMD"
    from spec_read_frame [OF this assms(2) k, of e 0 0 msb lsb]
    show "\<exists>c'. spec_exchange e k bs (c, mcards s) = (rs (mc_flag c), (c', mcards s))
           \<and> mc_state c' = MC_IDLE \<and> stays_busy e k bs (c, mcards s)"
      unfolding bs_def rs_def by simp
  qed
  then show ?thesis
    unfolding read_frame_def bs_def [symmetric] rs_def using busy_ready k
    by (auto split: prod.splits)
qed

text \<open>C27: A 128-byte sector written to a present card through the bus, with the right checksum, is
  acknowledged with 'G', and the read transaction that follows delivers exactly those 128 bytes, the
  same checksum and 'G', whatever filler the host sends while it reads and whether or not the host
  file could be written.\<close>

theorem sio_card_write_read:
  assumes "card_ready k s" and "length d = 128" and "unat (sector_word msb lsb) < MEMCARD_SECTORS"
    and "length pad = 134"
  shows "case exchange e (write_frame msb lsb d (xor_bytes ([msb, lsb] @ d))) s of (ws, t) \<Rightarrow>
         case exchange e' (read_frame msb lsb pad) t of (rs, u) \<Rightarrow>
           last ws = 0x47 \<and> length rs = 140 \<and> take 128 (drop 10 rs) = d
           \<and> drop 138 rs = [xor_bytes ([msb, lsb] @ d), 0x47]"
proof -
  obtain ws t where w: "exchange e (write_frame msb lsb d (xor_bytes ([msb, lsb] @ d))) s = (ws, t)"
    by (cases "exchange e (write_frame msb lsb d (xor_bytes ([msb, lsb] @ d))) s")
  have good: "write_good msb lsb d (xor_bytes ([msb, lsb] @ d))" using assms(3) by (simp add: write_good_def)
  have t: "last ws = 0x47" "mcards t = cards_written e k (sector_word msb lsb) d (mcards s)" "card_ready k t"
    using exchange_write [OF assms(1,2), where e = e and msb = msb and lsb = lsb and chk = "xor_bytes ([msb, lsb] @ d)"] w good by simp_all
  have sb: "sector_bytes k (sector_word msb lsb) (mcards t) = d"
    using assms by (simp add: t(2) sector_bytes_written card_ready_def)
  obtain rs u where r: "exchange e' (read_frame msb lsb pad) t = (rs, u)"
    by (cases "exchange e' (read_frame msb lsb pad) t")
  obtain f where "rs = [0xFF, f, 0x5A, 0x5D, 0, 0, 0x5C, 0x5D, msb, lsb] @ d @ [xor_bytes ([msb, lsb] @ d), 0x47]"
    using exchange_read [OF t(3) assms(4), where e = e' and msb = msb and lsb = lsb] r sb assms(3) by auto
  then show ?thesis using w r t(1) assms(2) by simp
qed

text \<open>A write transaction with a wrong checksum is answered 'N', one to a sector the card does
  not have is answered 0xFF, and neither changes a byte of either card, its file or its dirty flag.\<close>

theorem sio_card_write_refused:
  assumes "card_ready k s" and "length d = 128" and "\<not> write_good msb lsb d chk"
  shows "case exchange e (write_frame msb lsb d chk) s of (ws, t) \<Rightarrow>
           last ws = (if unat (sector_word msb lsb) < MEMCARD_SECTORS then 0x4E else 0xFF) \<and> mcards t = mcards s"
  using exchange_write [OF assms(1,2), where e = e and msb = msb and lsb = lsb and chk = chk] assms(3) by auto

section \<open>The state at program start\<close>

definition mc_boot :: mc_regs where
  "mc_boot = \<lparr>mc_state = MC_IDLE, mc_cmd = 0, mc_sector = 0, mc_sector_msb = 0, mc_sector_lsb = 0,
     mc_data = (\<lambda>_. 0), mc_data_idx = 0, mc_checksum = 0, mc_flag = 0x08\<rparr>"

definition pad_boot :: pad_regs where
  "pad_boot = \<lparr>pad_buttons = (\<lambda>_. 0xFFFF), pad_analog = (\<lambda>_. False), pad_stick = (\<lambda>_ _. 0x80),
     analog_mode_locked = (\<lambda>_. False), pad_connected = (\<lambda>_. False), pad_state = PAD_IDLE,
     pad_response = (\<lambda>_. 0), pad_response_len = 0, pad_response_idx = 0, pad_current_cmd = 0,
     pad_in_config = (\<lambda>_. False), pad_supports_config = (\<lambda>_. True), pad_type_req = (\<lambda>_. None),
     pad_legacy_cfg = False\<rparr>"

definition shift_boot :: shift_regs where
  "shift_boot = \<lparr>timing_active = False, shift_active = False, shift_byte = 0, shift_remaining = 0,
     tx_buffered = False, tx_buffer = 0, shift_ack_irq_en = False, tx_buffer_ack_irq_en = False,
     pending_ack = False, ack_remaining = 0, pending_ack_irq_en = False, owner = OWNER_NONE, bus_byte_index = 0\<rparr>"

definition irq_boot :: irq_regs where
  "irq_boot = \<lparr>irq_pending = False, irq_countdown = 0, ack_visible_reads = 0, irq_source = IRQ_SRC_UNKNOWN,
     irq_slot = 0, irq_delay = 0, irq_mc_state = 0, irq_byte_seq = 0\<rparr>"

definition audit_boot :: arm_audit where
  "audit_boot = \<lparr>au_tx_total = 0, au_armed = 0, au_no_ack = 0, au_no_ackirqen = 0, au_ctrl_last = 0,
     au_stat_pre_last = 0, au_stat_post_last = 0, au_countdown_after_last = 0\<rparr>"

definition counts_boot :: sio_counts where
  "counts_boot = \<lparr>mc_probe_count = 0, mc_ack_count = 0, mc_cmd_count = 0, mc_read_count = 0, mc_read_done = 0,
     mc_last_caller = 0, mc_abort_count = 0, mc_abort_state = 0, mc_abort_ctrl = 0, mc_max_state = 0,
     tx_writes = 0, tx_gated = 0, last_ctrl_on_tx = 0, poll_counter = 0, debug_polls = 0,
     pace_buffered = 0, pace_dropped_busy = 0, pace_promoted = 0, pace_promoted_card = 0,
     pace_pad_in_card_data = 0, pace_shift_completes = 0, pace_ack_fires = 0, advance_called = 0,
     advance_with_work = 0, audit_card = audit_boot, audit_pad = audit_boot, audit_none = audit_boot,
     burst = \<lparr>bs_calls = 0, bs_iters_total = 0, bs_iter_max_seen = 0, bs_break_idle = 0,
       bs_break_mode_clear = 0, bs_break_capped = 0, bs_fires_in_burst = 0, bs_last_iters = 0,
       bs_last_break_reason = 0\<rparr>,
     last_stat_observed = 0xFFFF\<rparr>"

definition trace_boot :: sio_trace_entry where
  "trace_boot = \<lparr>tr_seq = 0, tr_tx = 0, tr_rx = 0, tr_mc_pre = 0, tr_mc_post = 0, tr_dev_pre = 0,
     tr_dev_post = 0, tr_ctrl = 0, tr_func = 0, tr_sr = 0, tr_was_abort = False, tr_irq_countdown = 0,
     tr_in_exception = 0, tr_counter_7514 = 0, tr_slot0 = 0, tr_slot1 = 0\<rparr>"

definition txn_boot :: sio_txn_entry where
  "txn_boot = \<lparr>tx_seq = 0, tx_start_byte_seq = 0, tx_end_byte_seq = 0, tx_start_func = 0, tx_end_func = 0,
     tx_slot = 0, tx_cmd = 0, tx_sector = 0, tx_ack_count = 0, tx_terminal_state = 0,
     tx_end_reason = TXN_END_OPEN, tx_byte_count = 0, tx_tx = (\<lambda>_. 0), tx_rx = (\<lambda>_. 0)\<rparr>"

definition irq_entry_boot :: sio_irq_entry where
  "irq_entry_boot = \<lparr>ir_seq = 0, ir_byte_seq = 0, ir_i_stat_before = 0, ir_i_stat_after = 0, ir_mc_state = 0,
     ir_active_device = 0, ir_ctrl = 0, ir_func = 0, ir_counter_7514 = 0, ir_source = IRQ_SRC_UNKNOWN,
     ir_slot = 0, ir_delay = 0\<rparr>"

definition rings_boot :: sio_rings where
  "rings_boot = \<lparr>trace_buf = (\<lambda>_. trace_boot), trace_idx = 0, trace_seq = 0, txn_buf = (\<lambda>_. txn_boot),
     txn_idx = 0, txn_seq = 0, txn_is_open = False, txn_cur = txn_boot, irq_buf = (\<lambda>_. irq_entry_boot),
     irq_idx = 0, irq_seq = 0\<rparr>"

definition sio_boot :: "memcards \<Rightarrow> irq_port \<Rightarrow> sio_st" where
  "sio_boot m p = \<lparr>sio_tx_data = 0, sio_rx_data = 0, sio_stat = 0, sio_mode = 0, sio_ctrl = 0, sio_baud = 0,
     pads = pad_boot, selected_slot = 0, mcw = mc_boot, mc_slot = 0, mc_slots = (\<lambda>_. mc_boot),
     active_device = DEV_NONE, shifter = shift_boot, irqs = irq_boot, counts = counts_boot,
     rings = rings_boot, mcards = m, sio_port = p, diag = []\<rparr>"

definition demo_port :: irq_port where
  "demo_port = \<lparr>i_stat = 0, dev_log = [], event_log = []\<rparr>"

definition demo_sio_env :: sio_env where
  "demo_sio_env = \<lparr>env_func = 0, env_sr = 0, env_in_exception = 0, env_ram_7514 = 0, env_io = host_all_ok\<rparr>"

lemma demo_card_ready: "card_ready 0 (sio_init (sio_boot demo_cards demo_port))"
  by (simp add: card_ready_def sio_init_def sio_boot_def demo_cards_eq both_def mc_clear_def has_def)

lemma demo_sector: "unat (sector_word 0 5) < MEMCARD_SECTORS"
  by (simp add: sector_word_def MEMCARD_SECTORS_def)

theorem sio_card_write_read_witness:
  "let s = sio_init (sio_boot demo_cards demo_port); d = replicate 128 7;
       t = snd (exchange demo_sio_env (write_frame 0 5 d (xor_bytes ([0, 5] @ d))) s)
   in take 128 (drop 10 (fst (exchange demo_sio_env (read_frame 0 5 (replicate 134 0)) t))) = d"
  using sio_card_write_read [OF demo_card_ready _ demo_sector, where d = "replicate 128 7" and pad = "replicate 134 0" and e = demo_sio_env and e' = demo_sio_env]
  by (simp only: length_replicate Let_def case_prod_unfold)

theorem sio_card_write_refused_witness:
  "let s = sio_init (sio_boot demo_cards demo_port)
   in mcards (snd (exchange demo_sio_env (write_frame 0xFF 0xFF (replicate 128 7) 0) s)) = mcards s"
proof -
  have "\<not> write_good 0xFF 0xFF (replicate 128 7) 0"
    by (simp add: write_good_def sector_word_def MEMCARD_SECTORS_def)
  from sio_card_write_refused [OF demo_card_ready _ this, where e = demo_sio_env] show ?thesis
    by (simp only: length_replicate Let_def case_prod_unfold)
qed

section \<open>The invariant of every reachable state\<close>

definition mc_ok :: "mc_regs \<Rightarrow> bool" where
  "mc_ok c \<longleftrightarrow> mc_data_idx c \<le> 128
     \<and> (mc_state c \<in> {MC_READ_DATA, MC_WRITE_DATA} \<longrightarrow> mc_data_idx c < 128)
     \<and> (mc_state c = MC_WRITE_LSB_ECHO \<longrightarrow> mc_data_idx c = 0)"

definition pad_ok :: "pad_regs \<Rightarrow> bool" where
  "pad_ok p \<longleftrightarrow> pad_response_len p \<le> 8
     \<and> (pad_state p = PAD_SEND_RESPONSE \<longrightarrow> pad_response_idx p < pad_response_len p)
     \<and> (pad_state p \<noteq> PAD_SEND_RESPONSE \<longrightarrow> pad_response_idx p = 0)"

definition shift_ok :: "shift_regs \<Rightarrow> bool" where
  "shift_ok h \<longleftrightarrow>
     (shift_active h \<longrightarrow> timing_active h \<and> 0 \<le> shift_remaining h \<and> shift_remaining h \<le> 1088)
     \<and> (pending_ack h \<longrightarrow> timing_active h \<and> 0 \<le> ack_remaining h \<and> ack_remaining h \<le> 1258)
     \<and> (tx_buffered h \<longrightarrow> shift_active h)"

definition rings_ok :: "sio_rings \<Rightarrow> bool" where
  "rings_ok r \<longleftrightarrow> trace_idx r < SIO_TRACE_CAP \<and> txn_idx r < SIO_TXN_CAP \<and> irq_idx r < SIO_IRQ_RING_CAP"

definition bus_ok :: "sio_st \<Rightarrow> bool" where
  "bus_ok s \<longleftrightarrow> selected_slot s < 2 \<and> mc_slot s < 2
     \<and> mc_state (mc_slots s 0) = MC_IDLE \<and> mc_state (mc_slots s 1) = MC_IDLE
     \<and> (mc_state (mcw s) \<noteq> MC_IDLE \<longrightarrow> active_device s = DEV_MEMCARD \<and> card_present (cards (mcards s) (mc_slot s)))
     \<and> (pad_state (pads s) \<noteq> PAD_IDLE \<longrightarrow> active_device s = DEV_PAD)
     \<and> mc_ok (mcw s) \<and> mc_ok (mc_slots s 0) \<and> mc_ok (mc_slots s 1) \<and> pad_ok (pads s)"

definition sio_ok :: "sio_st \<Rightarrow> bool" where
  "sio_ok s \<longleftrightarrow> bus_ok s \<and> shift_ok (shifter s) \<and> rings_ok (rings s) \<and> \<not> irq_pending (irqs s)"

lemma less_two: "(k :: nat) < 2 \<Longrightarrow> k = 0 \<or> k = 1" by linarith

text \<open>Pads.\<close>

lemma pad_answer_length: "pad_answer p k tx = Some bs \<Longrightarrow> 4 \<le> length bs \<and> length bs \<le> 8"
  by (auto simp: pad_answer_def pad_buttons_bytes_def pad_sticks_bytes_def pad_canned_def Let_def split: if_splits)

lemma pad_apply_type_frame [simp]:
  "pad_state (pad_apply_type k p) = pad_state p"
  "pad_response_len (pad_apply_type k p) = pad_response_len p"
  "pad_response_idx (pad_apply_type k p) = pad_response_idx p"
  by (simp_all add: pad_apply_type_def split: option.split)

lemma pad_latch_frame [simp]:
  "pad_state (pad_latch tx k p) = pad_state p"
  "pad_response_len (pad_latch tx k p) = pad_response_len p"
  "pad_response_idx (pad_latch tx k p) = pad_response_idx p"
  "pad_response (pad_latch tx k p) = pad_response p"
  by (simp_all add: pad_latch_def Let_def)

lemma pads_simple [simp]:
  "pads (set_rx b s) = pads s" "pads (raise_ack s) = pads s" "pads (byte_done s) = pads s"
  by (simp_all add: set_rx_def raise_ack_def byte_done_def)

lemma pad_process_ok: "pad_ok (pads s) \<Longrightarrow> pad_ok (pads (pad_process_byte tx s))"
proof -
  assume ok: "pad_ok (pads s)"
  define u where "u = (if pad_state (pads s) = PAD_IDLE then s\<lparr>pads := fold pad_apply_type [0..<2] (pads s)\<rparr> else s)"
  have u: "pad_ok (pads u)" using ok by (simp add: u_def pad_ok_def numeral_2_eq_2)
  have c: "pad_ok (pads (pad_command tx u))"
    using u pad_answer_length
    by (fastforce simp: pad_command_def pad_ok_def pad_end_def Let_def split: option.split)
  have a: "pad_ok (pads (pad_access tx u))" if "pad_state (pads u) = PAD_IDLE"
    using u that by (auto simp: pad_access_def pad_ok_def)
  have d: "pad_ok (pads (pad_send tx u))" if "pad_state (pads u) = PAD_SEND_RESPONSE"
    using u that by (auto simp: pad_send_def pad_ok_def pad_end_def Let_def)
  from a c d show ?thesis
    unfolding pad_process_byte_def Let_def u_def [symmetric]
    by (cases "pad_state (pads u)") simp_all
qed

text \<open>Cards.\<close>

lemma card_spec_ok:
  assumes "mc_ok c" "mc_state c \<noteq> MC_IDLE"
  shows "mc_ok (fst (snd (card_spec e k b (c, m))))"
  using assms by (cases "mc_state c") (auto simp: mc_ok_def mc_store_def Let_def)

lemma mc_process_ok:
  assumes "mc_ok (mcw s)" "selected_slot s < 2" and "mc_slot s < 2" "mc_state (mcw s) \<noteq> MC_IDLE \<longrightarrow> card_present (cards (mcards s) (mc_slot s))"
  shows "mc_ok (mcw (mc_process_byte e b s)) \<and> mc_slot (mc_process_byte e b s) < 2
       \<and> (mc_state (mcw (mc_process_byte e b s)) \<noteq> MC_IDLE
           \<longrightarrow> card_present (cards (mcards (mc_process_byte e b s)) (mc_slot (mc_process_byte e b s))))"
proof (cases "mc_state (mcw s) = MC_IDLE")
  case True
  have "mcw (mc_process_byte e b s) = (if card_present (cards (mcards s) (selected_slot s))
        then (mcw s)\<lparr>mc_state := MC_CMD\<rparr> else mcw s) \<and> mc_slot (mc_process_byte e b s) = selected_slot s"
    using True assms(2) by (simp add: mc_process_byte_def Let_def mc_select_def memcard_is_present_nat byte_done_def)
       (simp add: set_rx_def)
  then show ?thesis using assms True by (auto simp: mc_ok_def mc_process_frame)
next
  case False
  have v: "card_spec e (mc_slot s) b (mcw s, mcards s) =
      (sio_rx_data (mc_process_byte e b s), (mcw (mc_process_byte e b s), mcards (mc_process_byte e b s)))"
    using mc_process_view [OF False, of e b] unfolding card_view_def by (rule sym)
  have "mc_ok (mcw (mc_process_byte e b s))"
    using card_spec_ok [of "mcw s" e "mc_slot s" b "mcards s"] assms(1) False unfolding v fst_conv snd_conv by blast
  then show ?thesis
    using assms False mc_slot_process [OF False, of e b] by (simp add: mc_process_frame)
qed

text \<open>One byte on the bus.\<close>

lemma bus_ok_upd [simp]:
  "bus_ok (s\<lparr>counts := n\<rparr>) = bus_ok s" "bus_ok (s\<lparr>rings := r\<rparr>) = bus_ok s"
  "bus_ok (s\<lparr>shifter := h\<rparr>) = bus_ok s" "bus_ok (s\<lparr>irqs := q\<rparr>) = bus_ok s"
  "bus_ok (s\<lparr>sio_stat := w\<rparr>) = bus_ok s" "bus_ok (s\<lparr>sio_rx_data := b\<rparr>) = bus_ok s"
  "bus_ok (s\<lparr>sio_port := p\<rparr>) = bus_ok s" "bus_ok (s\<lparr>diag := d\<rparr>) = bus_ok s"
  "bus_ok (s\<lparr>sio_ctrl := v\<rparr>) = bus_ok s" "bus_ok (s\<lparr>sio_mode := v\<rparr>) = bus_ok s"
  "bus_ok (s\<lparr>sio_baud := v\<rparr>) = bus_ok s" "bus_ok (s\<lparr>sio_tx_data := b\<rparr>) = bus_ok s"
  "bus_ok (set_rx b s) = bus_ok s" "bus_ok (raise_ack s) = bus_ok s" "bus_ok (byte_done s) = bus_ok s"
  "bus_ok (tx_ready s) = bus_ok s" "bus_ok (sr_record k a b s) = bus_ok s"
  "bus_ok (trace_byte e b s0 s) = bus_ok s" "bus_ok (txn_track e b cb pre ga s) = bus_ok s"
  by (simp_all add: bus_ok_def set_rx_def raise_ack_def byte_done_def tx_ready_def)

lemma bus_ok_pad:
  assumes "bus_ok s" "active_device s = DEV_PAD"
  shows "bus_ok (pad_process_byte tx s)"
  using assms pad_process_ok [of s tx] by (simp add: bus_ok_def pad_process_frame)

lemma bus_ok_card:
  assumes "bus_ok s" "active_device s = DEV_MEMCARD"
  shows "bus_ok (mc_process_byte e b s)"
  using assms mc_process_ok [of s e b] by (simp add: bus_ok_def mc_process_frame)

lemma bus_ok_dispatch:
  assumes "bus_ok s"
  shows "bus_ok (fst (byte_dispatch e b s))"
proof -
  have sel: "bus_ok (slot_select s)" using assms by (simp add: slot_select_def bus_ok_def)
  have sel': "active_device (slot_select s) = active_device s" "mcw (slot_select s) = mcw s" by (simp_all add: slot_select_def)
  show ?thesis
  proof (cases "active_device s")
    case DEV_PAD
    then show ?thesis using bus_ok_pad [OF assms] by (simp add: byte_dispatch_def Let_def)
  next
    case DEV_MEMCARD
    have "bus_ok (mc_process_byte e b s)" by (rule bus_ok_card [OF assms DEV_MEMCARD])
    moreover have "bus_ok (mc_process_byte e b (txn_open_if_closed e (mc_slot s) s))"
      using assms DEV_MEMCARD by (intro bus_ok_card) (simp_all add: txn_open_if_closed_def)
    moreover have "bus_ok (pad_process_byte b ((slot_select (s\<lparr>active_device := DEV_NONE\<rparr>))\<lparr>active_device := DEV_PAD\<rparr>))"
      "bus_ok (slot_select (s\<lparr>active_device := DEV_NONE\<rparr>))" if "mc_state (mcw s) = MC_IDLE"
      by (rule bus_ok_pad; use assms that DEV_MEMCARD in \<open>simp add: bus_ok_def slot_select_def\<close>)
         (use assms that DEV_MEMCARD in \<open>simp add: bus_ok_def slot_select_def\<close>)
    ultimately show ?thesis using DEV_MEMCARD
      by (cases "b = 0x01"; cases "b = 0x81") (simp_all add: byte_dispatch_def byte_memcard_def Let_def)
  next
    case DEV_NONE
    define t where "t = slot_select s"
    have t: "bus_ok t" "active_device t = DEV_NONE" "mc_state (mcw t) = MC_IDLE" "mc_state (mc_slots t (selected_slot t)) = MC_IDLE"
        "pad_state (pads t) = PAD_IDLE" "mc_ok (mc_slots t (selected_slot t))" "selected_slot t < 2"
      using sel sel' DEV_NONE by (auto simp: t_def bus_ok_def dest!: less_two)
    define l where "l = mc_load_slot (selected_slot t) t"
    have l: "bus_ok l" "active_device l = DEV_NONE" "mc_state (mcw l) = MC_IDLE" "selected_slot l = selected_slot t"
      using t by (auto simp: l_def mc_load_slot_def bus_ok_def)
    have "bus_ok (byte_pad_select b t)"
      using t unfolding byte_pad_select_def Let_def by (intro bus_ok_pad) (auto simp: bus_ok_def)
    moreover have "bus_ok (fst (byte_card_select e b t))"
      using l unfolding byte_card_select_def Let_def l_def [symmetric] fst_conv
      by (intro bus_ok_card) (auto simp: mc_abort_reselect_def txn_open_if_closed_def bus_ok_def)
    moreover have "bus_ok (l\<lparr>mcw := (mcw l)\<lparr>mc_state := MC_IDLE\<rparr>\<rparr>)"
      using l by (auto simp: bus_ok_def mc_ok_def)
    then have "bus_ok (fst (byte_resume e b pre t))" for pre
      using l unfolding byte_resume_def Let_def l_def [symmetric] by simp
    ultimately show ?thesis using DEV_NONE
      by (cases "b = 0x01"; cases "b = 0x81") (simp_all add: byte_dispatch_def Let_def t_def [symmetric])
  qed
qed

lemma bus_ok_process: "bus_ok s \<Longrightarrow> bus_ok (sio_process_byte e b s)"
  using bus_ok_dispatch [of s e b] by (simp add: sio_process_byte_def case_prod_unfold Let_def)

lemma dispatch_helpers [simp]:
  "shifter (txn_open_if_closed e k s) = shifter s" "shifter (mc_load_slot k s) = shifter s"
  "shifter (mc_save_slot k s) = shifter s" "shifter (mc_abort_reselect e s) = shifter s"
  "shifter (slot_select s) = shifter s" "shifter (tx_ready s) = shifter s" "shifter (set_rx b s) = shifter s"
  "irqs (txn_open_if_closed e k s) = irqs s" "irqs (mc_load_slot k s) = irqs s"
  "irqs (mc_save_slot k s) = irqs s" "irqs (mc_abort_reselect e s) = irqs s"
  "irqs (slot_select s) = irqs s" "irqs (tx_ready s) = irqs s" "irqs (set_rx b s) = irqs s"
  "sio_port (txn_open_if_closed e k s) = sio_port s" "sio_port (mc_load_slot k s) = sio_port s"
  "sio_port (mc_save_slot k s) = sio_port s" "sio_port (mc_abort_reselect e s) = sio_port s"
  "sio_port (slot_select s) = sio_port s" "sio_port (tx_ready s) = sio_port s" "sio_port (set_rx b s) = sio_port s"
  "sio_ctrl (txn_open_if_closed e k s) = sio_ctrl s" "sio_ctrl (mc_load_slot k s) = sio_ctrl s"
  "sio_ctrl (mc_save_slot k s) = sio_ctrl s" "sio_ctrl (mc_abort_reselect e s) = sio_ctrl s"
  "sio_ctrl (slot_select s) = sio_ctrl s" "sio_ctrl (tx_ready s) = sio_ctrl s" "sio_ctrl (set_rx b s) = sio_ctrl s"
  by (simp_all add: txn_open_if_closed_def mc_load_slot_def mc_save_slot_def mc_abort_reselect_def
      slot_select_def tx_ready_def set_rx_def)

definition ports_same :: "sio_st \<Rightarrow> sio_st \<Rightarrow> bool" where
  "ports_same s t \<longleftrightarrow> shifter t = shifter s \<and> irqs t = irqs s \<and> sio_port t = sio_port s \<and> sio_ctrl t = sio_ctrl s"

lemma ports_same_parts:
  "ports_same s (pad_process_byte b t) = ports_same s t"
  "ports_same s (mc_process_byte e b t) = ports_same s t"
  "ports_same s (byte_pad_select b t) = ports_same s t"
  "ports_same s (fst (byte_card_select e b t)) = ports_same s t"
  "ports_same s (fst (byte_resume e b pre t)) = ports_same s t"
  "ports_same s (fst (byte_memcard e b t)) = ports_same s t"
  by (simp_all add: ports_same_def pad_process_frame mc_process_frame byte_pad_select_def byte_card_select_def
      byte_resume_def byte_memcard_def Let_def)

lemma process_frame:
  "shifter (sio_process_byte e b s) = shifter s" "irqs (sio_process_byte e b s) = irqs s"
  "sio_port (sio_process_byte e b s) = sio_port s" "sio_ctrl (sio_process_byte e b s) = sio_ctrl s"
proof -
  have s: "ports_same s s" "ports_same s (slot_select s)" by (simp_all add: ports_same_def)
  have "ports_same s (fst (byte_dispatch e b s))"
    by (cases "active_device s") (simp_all add: byte_dispatch_def Let_def ports_same_parts s)
  then show "shifter (sio_process_byte e b s) = shifter s" "irqs (sio_process_byte e b s) = irqs s"
    "sio_port (sio_process_byte e b s) = sio_port s" "sio_ctrl (sio_process_byte e b s) = sio_ctrl s"
    by (simp_all add: sio_process_byte_def case_prod_unfold Let_def ports_same_def)
qed

lemma rings_ok_ops:
  "rings_ok r \<Longrightarrow> rings_ok (txn_open a n f r)"
  "rings_ok r \<Longrightarrow> rings_ok (txn_record_byte tx rx c sec g q r)"
  "rings_ok r \<Longrightarrow> rings_ok (txn_close en st f r)"
  by (simp_all add: rings_ok_def txn_open_def txn_record_byte_def txn_close_def Let_def SIO_TXN_CAP_def)

lemma rings_ok_process: "rings_ok (rings s) \<Longrightarrow> rings_ok (rings (sio_process_byte e b s))"
proof -
  assume ok: "rings_ok (rings s)"
  have d: "rings_ok (rings (fst (byte_dispatch e b s)))"
    using ok
    by (cases "active_device s")
       (simp_all add: byte_dispatch_def byte_memcard_def byte_pad_select_def byte_card_select_def byte_resume_def
         Let_def mc_process_frame pad_process_frame slot_select_def txn_open_if_closed_def mc_load_slot_def
         mc_save_slot_def mc_abort_reselect_def tx_ready_def set_rx_def rings_ok_ops)
  have k: "rings_ok (rings (txn_track e b cb pre ga u))" if "rings_ok (rings u)" for cb pre ga u
    using that by (simp add: txn_track_def Let_def rings_ok_ops)
  have t: "rings_ok (rings (trace_byte e b s0 u))" if "rings_ok (rings u)" for s0 u
    using that by (simp add: trace_byte_def Let_def rings_ok_def SIO_TRACE_CAP_def)
  show ?thesis by (simp add: sio_process_byte_def case_prod_unfold Let_def t k d)
qed

lemma sio_ok_process: "sio_ok s \<Longrightarrow> sio_ok (sio_process_byte e b s)"
  by (simp add: sio_ok_def bus_ok_process rings_ok_process process_frame)

section \<open>Every operation keeps the invariant\<close>

lemma sio_ok_upd [simp]:
  "sio_ok (s\<lparr>counts := n\<rparr>) = sio_ok s" "sio_ok (s\<lparr>sio_stat := w\<rparr>) = sio_ok s"
  "sio_ok (s\<lparr>sio_port := p\<rparr>) = sio_ok s" "sio_ok (s\<lparr>diag := d\<rparr>) = sio_ok s"
  "sio_ok (s\<lparr>sio_ctrl := v\<rparr>) = sio_ok s" "sio_ok (s\<lparr>sio_mode := v\<rparr>) = sio_ok s"
  "sio_ok (s\<lparr>sio_baud := v\<rparr>) = sio_ok s" "sio_ok (s\<lparr>sio_tx_data := b\<rparr>) = sio_ok s"
  "sio_ok (raise_ack s) = sio_ok s" "sio_ok (tx_ready s) = sio_ok s" "sio_ok (sr_record k a b s) = sio_ok s"
  "sio_ok (raise_sio_irq det s) = sio_ok s" "sio_ok (sio_debug_poll_maybe s) = sio_ok s"
  by (simp_all add: sio_ok_def)
     (simp_all add: raise_ack_def tx_ready_def raise_sio_irq_def sio_debug_poll_maybe_def Let_def)

lemma sio_ok_shifter: "sio_ok s \<Longrightarrow> shift_ok h \<Longrightarrow> sio_ok (s\<lparr>shifter := h\<rparr>)"
  by (simp add: sio_ok_def)

lemma sio_ok_irqs: "sio_ok s \<Longrightarrow> irq_pending q = irq_pending (irqs s) \<Longrightarrow> sio_ok (s\<lparr>irqs := q\<rparr>)"
  by (simp add: sio_ok_def)

lemma sio_ok_irq_ring: "sio_ok s \<Longrightarrow> sio_ok (irq_ring_put e w s)"
  by (simp add: sio_ok_def irq_ring_put_def Let_def rings_ok_def SIO_IRQ_RING_CAP_def)

lemma shift_ok_gate: "shift_ok h \<Longrightarrow> shift_ok (shift_gate h)"
  by (auto simp: shift_ok_def shift_gate_def)

lemma shift_ok_idle [simp]: "shift_ok (shift_idle h)" "shift_ok (bus_release h) = shift_ok h"
  by (simp_all add: shift_ok_def shift_idle_def bus_release_def)

lemma raise_shifter [simp]:
  "shifter (raise_ack s) = shifter s" "irqs (raise_ack s) = irqs s"
  "shifter (raise_sio_irq d s) = shifter s" "shifter (irq_ring_put e w s) = shifter s"
  by (simp_all add: raise_ack_def raise_sio_irq_def irq_ring_put_def Let_def)

lemma sio_ok_fire:
  assumes "sio_ok s"
  shows "sio_ok (sio_fire_ack_irq e s)"
proof -
  have h: "shift_ok (shifter s)" using assms by (simp add: sio_ok_def)
  then have h': "shift_ok ((shifter s)\<lparr>pending_ack_irq_en := False\<rparr>)" by (simp add: shift_ok_def)
  define u where "u = (sr_record SR_ACK_FIRE 0 0 ((raise_ack s)\<lparr>irqs := (irqs s)\<lparr>ack_visible_reads := 2\<rparr>\<rparr>))
      \<lparr>shifter := (shifter s)\<lparr>pending_ack_irq_en := False\<rparr>\<rparr>"
  have u: "sio_ok u" unfolding u_def
    using assms h' by (intro sio_ok_shifter) (auto intro!: sio_ok_irqs)
  have su: "shifter u = (shifter s)\<lparr>pending_ack_irq_en := False\<rparr>" by (simp add: u_def)
  show ?thesis
    unfolding sio_fire_ack_irq_def Let_def
    using u h' su by (simp add: u_def) (auto intro!: sio_ok_shifter sio_ok_irq_ring shift_ok_gate)
qed

lemma sio_ok_shift_complete:
  assumes "sio_ok s" "shift_active (shifter s)"
  shows "sio_ok (sio_handle_shift_complete e s)"
proof -
  define b where "b = shift_byte (shifter s)"
  define s0 where "s0 = sr_record SR_SHIFT_DONE b 0 s"
  define s1 where "s1 = sio_process_byte e b (if b = 0x01 \<and> mc_num (mc_state (mcw s0)) \<ge> mc_num MC_READ_DATA
                  \<and> mc_num (mc_state (mcw s0)) \<le> mc_num MC_READ_END
               then s0\<lparr>counts := (counts s0)\<lparr>pace_pad_in_card_data := pace_pad_in_card_data (counts s0) + 1\<rparr>\<rparr> else s0)"
  have s1: "sio_ok s1" "shifter s1 = shifter s"
    unfolding s1_def s0_def using assms(1) by (auto intro!: sio_ok_process simp: process_frame)
  have h: "shift_ok (shifter s)" using assms(1) by (simp add: sio_ok_def)
  define s1' where "s1' = s1\<lparr>sio_stat := clear_bits (sio_stat s1) SIO_STAT_ACK\<rparr>"
  define s2 where "s2 = irq_context (s1'\<lparr>shifter := (shifter s1')\<lparr>shift_active := False\<rparr>,
      sio_stat := sio_stat s1' OR SIO_STAT_RX_RDY,
      counts := (counts s1')\<lparr>pace_shift_completes := pace_shift_completes (counts s1') + 1\<rparr>\<rparr>)"
  define s3 where "s3 = (if has (sio_stat s1) SIO_STAT_ACK
      then s2\<lparr>shifter := (shifter s2)\<lparr>pending_ack := True, ack_remaining := SIO_ACK_CYCLES_DEFAULT,
                                     pending_ack_irq_en := shift_ack_irq_en (shifter s2)\<rparr>\<rparr> else s2)"
  define s4 where "s4 = (if tx_buffered (shifter s3) then shift_promote s3 else tx_ready s3)"
  have eq: "sio_handle_shift_complete e s = s4\<lparr>shifter := shift_gate (shifter s4)\<rparr>"
    unfolding sio_handle_shift_complete_def sio_consume_ack_event_def Let_def prod.case
      b_def [symmetric] s0_def [symmetric] s1_def [symmetric]
    by (simp only: s1'_def s2_def s3_def s4_def)
  have parts: "bus_ok s4 \<and> rings_ok (rings s4) \<and> \<not> irq_pending (irqs s4)"
    using s1(1) by (simp add: s4_def s3_def s2_def s1'_def shift_promote_def tx_ready_def irq_context_def sio_ok_def Let_def)
  have "shift_ok (shift_gate (shifter s4))"
    using h assms(2) s1(2)
    by (auto simp: s4_def s3_def s2_def s1'_def shift_promote_def tx_ready_def irq_context_def shift_ok_def shift_gate_def
        SIO_BAUD_CYCLES_DEFAULT_def SIO_ACK_CYCLES_DEFAULT_def Let_def)
  with parts show ?thesis by (simp add: eq sio_ok_def)
qed

lemma pace_next_dt:
  assumes "shift_ok h" "0 < remaining" "pace_next remaining h = (dt, nx)"
  shows "0 \<le> dt \<and> dt \<le> remaining \<and> (shift_active h \<longrightarrow> dt \<le> shift_remaining h) \<and> (pending_ack h \<longrightarrow> dt \<le> ack_remaining h)
     \<and> (nx = Some ShiftDone \<longrightarrow> shift_active h \<and> shift_remaining h = dt)
     \<and> (nx = Some AckDue \<longrightarrow> pending_ack h \<and> ack_remaining h = dt)"
  using assms by (auto simp: pace_next_def shift_ok_def Let_def split: if_splits)

lemma shift_ok_elapse:
  assumes "shift_ok h" "0 \<le> dt" "shift_active h \<longrightarrow> dt \<le> shift_remaining h" "pending_ack h \<longrightarrow> dt \<le> ack_remaining h"
  shows "shift_ok (pace_elapse dt h)"
  using assms by (auto simp: pace_elapse_def shift_ok_def Let_def)

lemma pace_elapse_flags [simp]:
  "shift_active (pace_elapse dt h) = shift_active h" "pending_ack (pace_elapse dt h) = pending_ack h"
  by (simp_all add: pace_elapse_def Let_def)

lemma sio_ok_pace_fire:
  assumes "sio_ok s" "ev = ShiftDone \<longrightarrow> shift_active (shifter s)"
  shows "sio_ok (pace_fire e ev s)"
proof (cases ev)
  case ShiftDone
  then show ?thesis using assms sio_ok_shift_complete by (simp add: pace_fire_def)
next
  case AckDue
  have "shift_ok ((shifter s)\<lparr>pending_ack := False\<rparr>)" using assms(1) by (auto simp: sio_ok_def shift_ok_def)
  then show ?thesis
    using AckDue assms(1) by (simp add: pace_fire_def) (intro sio_ok_fire sio_ok_shifter)
qed

lemma sio_ok_pace_loop: "sio_ok s \<Longrightarrow> sio_ok (pace_loop n e remaining s)"
proof (induction n arbitrary: remaining s)
  case (Suc n)
  show ?case
  proof (cases "remaining > 0")
    case True
    obtain dt nx where n: "pace_next remaining (shifter s) = (dt, nx)" by (cases "pace_next remaining (shifter s)")
    have h: "shift_ok (shifter s)" using Suc.prems by (simp add: sio_ok_def)
    note d = pace_next_dt [OF h True n]
    have u: "sio_ok (s\<lparr>shifter := pace_elapse dt (shifter s)\<rparr>)"
      using Suc.prems d h by (intro sio_ok_shifter shift_ok_elapse) auto
    show ?thesis
    proof (cases nx)
      case None
      then show ?thesis using True n u by (simp add: Let_def)
    next
      case (Some ev)
      have "sio_ok (pace_fire e ev (s\<lparr>shifter := pace_elapse dt (shifter s)\<rparr>))"
        using u d Some by (intro sio_ok_pace_fire) auto
      then show ?thesis using True n Some Suc.IH by (simp add: Let_def)
    qed
  qed (use Suc.prems in simp)
qed simp

lemma sio_ok_advance: "sio_ok s \<Longrightarrow> sio_ok (sio_advance e c s)"
  by (simp add: sio_advance_def Let_def sio_ok_pace_loop)

lemma legacy_countdown_idle: "\<not> irq_pending (irqs s) \<Longrightarrow> legacy_countdown e s = s"
  by (simp add: legacy_countdown_def)

lemma sio_tick_ok: "sio_ok s \<Longrightarrow> sio_tick e n s = (if n > 0 then pace_loop MAX_TRANSITIONS e n s else s)"
  using sio_ok_pace_loop [of s MAX_TRANSITIONS e n]
  by (auto simp: sio_tick_def sio_ok_def intro!: legacy_countdown_idle)

lemma sio_ok_tick: "sio_ok s \<Longrightarrow> sio_ok (sio_tick e n s)"
  by (simp add: sio_tick_ok sio_ok_pace_loop)

lemma sio_ok_read: "sio_ok s \<Longrightarrow> sio_ok (snd (sio_read e addr s))"
proof -
  assume "sio_ok s"
  then have t: "sio_ok (sio_tick e 0 (sio_debug_poll_maybe s))" by (simp add: sio_ok_tick)
  have "sio_ok u \<Longrightarrow> sio_ok (snd (read_rx_data u))" for u by (simp add: read_rx_data_def Let_def)
  moreover have "sio_ok u \<Longrightarrow> sio_ok (snd (read_stat u))" for u
    by (simp add: read_stat_def Let_def sio_ok_irqs)
  ultimately show ?thesis using t by (simp add: sio_read_def Let_def case_prod_unfold)
qed

lemma bus_ok_idle:
  assumes "bus_ok s" and f: "\<And>c. mc_ok c \<Longrightarrow> mc_state c = MC_IDLE \<Longrightarrow> mc_ok (f c) \<and> mc_state (f c) = MC_IDLE"
  shows "bus_ok (s\<lparr>pads := pad_end (pads s), mcw := (mcw s)\<lparr>mc_state := MC_IDLE\<rparr>,
      mc_slots := both f (mc_slots s), active_device := DEV_NONE\<rparr>)"
  using assms(1) f [of "mc_slots s 0"] f [of "mc_slots s 1"]
  by (auto simp: bus_ok_def both_def pad_end_def mc_ok_def pad_ok_def)

lemma mc_clear_ok: "mc_ok (mc_clear c) \<and> mc_state (mc_clear c) = MC_IDLE"
  by (simp add: mc_clear_def mc_ok_def)

lemma sio_ok_parts:
  "bus_ok s \<Longrightarrow> shift_ok (shifter s) \<Longrightarrow> rings_ok (rings s) \<Longrightarrow> \<not> irq_pending (irqs s) \<Longrightarrow> sio_ok s"
  by (simp add: sio_ok_def)

lemma sio_ok_ctrl_reset: "sio_ok s \<Longrightarrow> sio_ok (ctrl_reset e v s)"
proof -
  assume ok: "sio_ok s"
  define u where "u = (if mc_state (mcw s) \<noteq> MC_IDLE
      then s\<lparr>counts := (counts s)\<lparr>mc_abort_count := mc_abort_count (counts s) + 1,
             mc_abort_state := mc_num (mc_state (mcw s)), mc_abort_ctrl := v\<rparr>\<rparr> else s)"
  define w where "w = (if txn_is_open (rings u)
      then u\<lparr>rings := txn_close TXN_END_ABORT_RESET (mc_num (mc_state (mcw s))) (env_func e) (rings u)\<rparr> else u)"
  have w: "sio_ok w" using ok by (auto simp: w_def u_def sio_ok_def rings_ok_ops)
  have b: "bus_ok (w\<lparr>pads := pad_end (pads w), mcw := (mcw w)\<lparr>mc_state := MC_IDLE\<rparr>,
      mc_slots := both (\<lambda>c. c\<lparr>mc_state := MC_IDLE\<rparr>) (mc_slots w), active_device := DEV_NONE\<rparr>)"
    using w by (intro bus_ok_idle) (auto simp: sio_ok_def mc_ok_def)
  have r: "ctrl_reset e v s = sr_record SR_RESET 0 0
      (w\<lparr>sio_stat := SIO_STAT_TX_RDY OR SIO_STAT_TX_EMPTY, sio_mode := 0, sio_ctrl := 0, sio_baud := 0,
         pads := pad_end (pads w), mcw := (mcw w)\<lparr>mc_state := MC_IDLE\<rparr>,
         mc_slots := both (\<lambda>c. c\<lparr>mc_state := MC_IDLE\<rparr>) (mc_slots w), active_device := DEV_NONE,
         irqs := irq_disarm (irqs w), shifter := bus_release (shift_idle (shifter w))\<rparr>)"
    unfolding ctrl_reset_def Let_def u_def w_def by simp
  show ?thesis
    unfolding r using w b by (simp add: sio_ok_def irq_disarm_def) (simp add: bus_ok_def)
qed

lemma sio_ok_ctrl_deassert: "sio_ok s \<Longrightarrow> sio_ok (ctrl_select_deassert e s)"
proof -
  assume ok: "sio_ok s"
  define u where "u = (if active_device s = DEV_MEMCARD \<and> mc_state (mcw s) \<noteq> MC_IDLE \<and> txn_is_open (rings s)
      then s\<lparr>rings := txn_close TXN_END_ABORT_OTHER (mc_num (mc_state (mcw s))) (env_func e) (rings s)\<rparr> else s)"
  define w where "w = (if active_device u = DEV_MEMCARD \<and> mc_slot u \<le> 1
      then u\<lparr>mc_slots := (mc_slots u)(mc_slot u := (mc_slots u (mc_slot u))\<lparr>mc_flag := mc_flag (mcw u)\<rparr>)\<rparr> else u)"
  have u: "sio_ok u" using ok by (auto simp: u_def sio_ok_def rings_ok_ops)
  have fl: "mc_ok (c\<lparr>mc_flag := x\<rparr>) = mc_ok c" for c x by (simp add: mc_ok_def)
  have "mc_slot u = 0 \<or> mc_slot u = 1" using u less_two by (simp add: sio_ok_def bus_ok_def)
  with u have w: "sio_ok w" by (elim disjE) (auto simp: w_def sio_ok_def bus_ok_def fl)
  have b: "bus_ok (w\<lparr>pads := pad_end (pads w), mcw := (mcw w)\<lparr>mc_state := MC_IDLE\<rparr>,
      mc_slots := both mc_clear (mc_slots w), active_device := DEV_NONE\<rparr>)"
    using w by (intro bus_ok_idle) (auto simp: sio_ok_def mc_clear_ok)
  have r: "ctrl_select_deassert e s = sr_record SR_SELECT_DEASS 0 0 (tx_ready
      (w\<lparr>mcw := (mcw w)\<lparr>mc_state := MC_IDLE\<rparr>, mc_slots := both mc_clear (mc_slots w),
         pads := pad_end (pads w), active_device := DEV_NONE, shifter := bus_release (shift_idle (shifter w))\<rparr>))"
    unfolding ctrl_select_deassert_def Let_def u_def [symmetric] w_def [symmetric] ..
  show ?thesis
    unfolding r using w b by (simp add: sio_ok_def tx_ready_def) (simp add: bus_ok_def)
qed

lemma sio_ok_write_ctrl:
  assumes "sio_ok s"
  shows "sio_ok (write_ctrl e value s)"
proof -
  have ack: "sio_ok u \<Longrightarrow> sio_ok (ctrl_acknowledge u)" for u
    by (simp add: sio_ok_def ctrl_acknowledge_def)
  have sel: "sio_ok u \<Longrightarrow> sio_ok (ctrl_select_assert u)" for u
    unfolding ctrl_select_assert_def by (simp add: sio_ok_def)
  have dis: "sio_ok u \<Longrightarrow> sio_ok (ctrl_tx_disable v u)" for u v
    by (auto simp: ctrl_tx_disable_def Let_def intro: sio_ok_shifter)
  define s1 where "s1 = sr_record SR_CTRL_WRITE (ucast (value AND 0xFF)) (ucast (drop_bit 8 value AND 0xFF))
      (s\<lparr>sio_ctrl := ucast value\<rparr>)"
  define s2 where "s2 = (if has (ucast value) SIO_CTRL_ACK then ctrl_acknowledge s1 else s1)"
  define s3 where "s3 = (if has (ucast value) SIO_CTRL_RESET then ctrl_reset e (ucast value) s2 else s2)"
  define s4 where "s4 = (if \<not> has (sio_ctrl s) SIO_CTRL_SELECT \<and> has (ucast value) SIO_CTRL_SELECT
      then ctrl_select_assert s3 else s3)"
  define s5 where "s5 = (if has (sio_ctrl s) SIO_CTRL_TX_EN \<and> \<not> has (ucast value) SIO_CTRL_TX_EN
      then ctrl_tx_disable (ucast value) s4 else s4)"
  have "sio_ok s1" using assms by (simp add: s1_def)
  then have "sio_ok s2" by (simp add: s2_def ack)
  then have "sio_ok s3" by (simp add: s3_def sio_ok_ctrl_reset)
  then have "sio_ok s4" by (simp add: s4_def sel)
  then have s5: "sio_ok s5" by (simp add: s5_def dis)
  have eq: "write_ctrl e value s = (if has (sio_ctrl s) SIO_CTRL_SELECT \<and> \<not> has (ucast value) SIO_CTRL_SELECT
      then ctrl_select_deassert e s5 else s5)"
    unfolding write_ctrl_def Let_def s1_def [symmetric] s2_def [symmetric] s3_def [symmetric]
      s4_def [symmetric] s5_def [symmetric] ..
  show ?thesis using s5 by (simp add: eq sio_ok_ctrl_deassert)
qed

lemma sio_ok_write_tx:
  assumes "sio_ok s"
  shows "sio_ok (write_tx_data e v s)"
proof -
  have pad: "sio_ok (write_tx_pad e b u)" if "sio_ok u" for b u
  proof -
    define u1 where "u1 = sio_process_byte e b (sr_record SR_TX_DATA_WRITE b 0
        (u\<lparr>shifter := (shift_idle (shifter u))\<lparr>owner := OWNER_PAD,
             bus_byte_index := bus_byte_index (shift_idle (shifter u)) + 1\<rparr>\<rparr>))"
    have "shift_ok ((shift_idle (shifter u))\<lparr>owner := OWNER_PAD, bus_byte_index := n\<rparr>)" for n
      by (simp add: shift_ok_def shift_idle_def)
    then have u1: "sio_ok u1" and sh: "shifter u1 = (shift_idle (shifter u))\<lparr>owner := OWNER_PAD,
             bus_byte_index := bus_byte_index (shift_idle (shifter u)) + 1\<rparr>"
      unfolding u1_def using that by (auto intro!: sio_ok_process sio_ok_shifter simp: process_frame)
    have "shift_ok ((shifter u1)\<lparr>pending_ack := True, ack_remaining := 1258, pending_ack_irq_en := True,
       timing_active := True\<rparr>)"
      by (simp add: sh shift_ok_def shift_idle_def)
    then have "sio_ok (pad_arm_ack u1)" using u1
      by (simp add: pad_arm_ack_def Let_def sio_ok_def SIO_BAUD_CYCLES_DEFAULT_def SIO_ACK_CYCLES_DEFAULT_def)
    then show ?thesis
      using u1 unfolding write_tx_pad_def Let_def u1_def [symmetric] by simp
  qed
  have shift: "sio_ok (write_tx_shift b u)" if "sio_ok u" for b u
    using that
    by (simp add: write_tx_shift_def Let_def sio_ok_def SIO_BAUD_CYCLES_DEFAULT_def) (auto simp: shift_ok_def)
  show ?thesis using assms by (simp add: write_tx_data_def Let_def pad shift)
qed

lemma sio_ok_write: "sio_ok s \<Longrightarrow> sio_ok (sio_write e addr v s)"
  unfolding sio_write_def Let_def by (rule sio_ok_tick) (simp add: sio_ok_write_tx sio_ok_write_ctrl)

text \<open>What the host can do between bus accesses.\<close>

datatype pad_host =
    SetConnected int bool | SetCapable int bool | SetButtons int u16 | SetSticks int u8 u8 u8 u8
  | SetAnalog int bool u8 u8 u8 u8 | RequestType int bool | SetLegacy bool

primrec pad_host_step :: "pad_host \<Rightarrow> pad_regs \<Rightarrow> pad_regs" where
  "pad_host_step (SetConnected k c) = sio_set_pad_connected k c"
| "pad_host_step (SetCapable k c) = sio_set_pad_config_capable k c"
| "pad_host_step (SetButtons k b) = sio_set_pad_state_slot k b"
| "pad_host_step (SetSticks k a b c d) = sio_set_pad_sticks k a b c d"
| "pad_host_step (SetAnalog k en a b c d) = sio_set_pad_analog k en a b c d"
| "pad_host_step (RequestType k a) = sio_request_pad_type k a"
| "pad_host_step (SetLegacy v) = sio_set_legacy_cfg v"

datatype sio_op =
    Init | WriteReg sio_env u32 u32 | ReadReg sio_env u32 | Advance sio_env u32 | Tick sio_env int
  | Drain sio_env int | ConsumeAck | Host pad_host

primrec sio_step :: "sio_op \<Rightarrow> sio_st \<Rightarrow> sio_st" where
  "sio_step Init s = sio_init s"
| "sio_step (WriteReg e addr v) s = sio_write e addr v s"
| "sio_step (ReadReg e addr) s = snd (sio_read e addr s)"
| "sio_step (Advance e c) s = sio_advance e c s"
| "sio_step (Tick e n) s = sio_tick e n s"
| "sio_step (Drain e n) s = snd (sio_card_burst_drain e n s)"
| "sio_step ConsumeAck s = snd (sio_consume_ack_event s)"
| "sio_step (Host h) s = s\<lparr>pads := pad_host_step h (pads s)\<rparr>"

lemma pad_host_frame:
  "pad_state (pad_host_step h p) = pad_state p" "pad_response_len (pad_host_step h p) = pad_response_len p"
  "pad_response_idx (pad_host_step h p) = pad_response_idx p"
  by (cases h; simp add: sio_set_pad_connected_def sio_set_pad_config_capable_def sio_set_pad_state_slot_def
      sio_set_pad_sticks_def sio_set_pad_analog_def sio_request_pad_type_def sio_set_legacy_cfg_def Let_def)+

lemma sio_ok_init: "sio_ok s \<Longrightarrow> sio_ok (sio_init s)"
  by (simp add: sio_ok_def bus_ok_def sio_init_def both_def mc_clear_def pad_end_def mc_ok_def pad_ok_def
      rings_ok_def irq_disarm_def)

lemma sio_ok_boot: "sio_ok (sio_boot m p)"
  by (simp add: sio_ok_def bus_ok_def sio_boot_def mc_boot_def pad_boot_def shift_boot_def irq_boot_def
      rings_boot_def mc_ok_def pad_ok_def shift_ok_def rings_ok_def SIO_TRACE_CAP_def SIO_TXN_CAP_def
      SIO_IRQ_RING_CAP_def)

lemma sio_ok_host: "sio_ok s \<Longrightarrow> sio_ok (s\<lparr>pads := pad_host_step h (pads s)\<rparr>)"
  by (simp add: sio_ok_def bus_ok_def pad_ok_def pad_host_frame)

lemma sio_ok_counts: "sio_ok (s\<lparr>counts := n\<rparr>) = sio_ok s"
  by (simp add: sio_ok_def bus_ok_def)

lemma sio_ok_burst: "sio_ok s \<Longrightarrow> sio_ok (snd (snd (burst_loop n e k s)))"
  by (induction n arbitrary: k s) (simp_all add: sio_ok_tick)

lemma sio_ok_drain: "sio_ok s \<Longrightarrow> sio_ok (snd (sio_card_burst_drain e n s))"
proof -
  assume "sio_ok s"
  then have "sio_ok (snd (snd (burst_loop m e k (s\<lparr>counts := c\<rparr>))))" for m k c
    by (simp add: sio_ok_burst sio_ok_counts)
  then show ?thesis by (simp add: sio_card_burst_drain_def Let_def case_prod_unfold sio_ok_counts)
qed

lemma sio_ok_consume: "sio_ok s \<Longrightarrow> sio_ok (snd (sio_consume_ack_event s))"
  by (simp add: sio_consume_ack_event_def sio_ok_def bus_ok_def)

lemma sio_ok_step: "sio_ok s \<Longrightarrow> sio_ok (sio_step op s)"
  by (cases op) (simp_all add: sio_ok_init sio_ok_write sio_ok_read sio_ok_advance sio_ok_tick sio_ok_host
      sio_ok_drain sio_ok_consume)

lemma sio_ok_run: "sio_ok s \<Longrightarrow> sio_ok (fold sio_step ops s)"
  by (induction ops arbitrary: s) (simp_all add: sio_ok_step)

section \<open>Properties of the bus\<close>

text \<open>C26: From program start, through any sequence of register reads and writes, clock advances,
  ticks, burst drains, acknowledge polls, resets and host calls, every value stays in its type: slot numbers are 0 or 1, the card and
  pad buffers are indexed below 128 and 8, ring positions are inside their rings, countdowns lie
  between 0 and one byte time, an armed countdown keeps the scheduler's gate open, a card is in a
  transaction only while it is the active device and inserted, a pad only while it is, the saved
  per-slot card states are idle and the access-paced interrupt is never armed.\<close>

theorem sio_reachable: "sio_ok (fold sio_step ops (sio_boot m p))"
  by (rule sio_ok_run [OF sio_ok_boot])

text \<open>The access-paced interrupt path of the code is dead: from program start it never changes the
  state.\<close>

lemma sio_legacy_path_dead: "sio_tick e 0 (fold sio_step ops (sio_boot m p)) = fold sio_step ops (sio_boot m p)"
  using sio_tick_ok [OF sio_ok_run [OF sio_ok_boot]] by simp

text \<open>So is the code that resumes a card transaction on an unselected bus: a byte other than the two
  select bytes is answered 0xFF there.\<close>

lemma sio_no_resume:
  assumes "sio_ok s" and "active_device s = DEV_NONE" and "b \<noteq> 0x01" and "b \<noteq> 0x81"
  shows "sio_rx_data (sio_process_byte e b s) = 0xFF \<and> active_device (sio_process_byte e b s) = DEV_NONE
       \<and> mcards (sio_process_byte e b s) = mcards s"
proof -
  define t where "t = slot_select s"
  have "selected_slot t = 0 \<or> selected_slot t = 1" by (simp add: t_def slot_select_def)
  then have t: "mc_state (mc_slots t (selected_slot t)) = MC_IDLE" "selected_slot t \<le> 1" "active_device t = DEV_NONE" "mcards t = mcards s"
    using assms(1,2) by (auto simp: sio_ok_def bus_ok_def t_def slot_select_def)
  have r: "byte_resume e b pre t = (tx_ready (set_rx 0xFF ((t\<lparr>mcw := mc_slots t (selected_slot t)\<rparr>)
       \<lparr>mcw := (mc_slots t (selected_slot t))\<lparr>mc_state := MC_IDLE\<rparr>\<rparr>)), False, pre)" for pre
    using t by (simp add: byte_resume_def Let_def mc_load_slot_def)
  show ?thesis
    unfolding sio_process_byte_def byte_dispatch_def Let_def
    using assms(2-4) t by (simp add: t_def [symmetric] r) (simp add: tx_ready_def set_rx_def)
qed

section \<open>Pads\<close>

text \<open>The type a pad reports (digital or analog) changes only when the bus is idle, the pad is
  neither in config mode nor locked and the host asked for it, or when the game itself sets it with
  the mode byte of command 0x44: never in the middle of a poll or a config handshake.\<close>

theorem sio_pad_type_stable:
  assumes "pad_analog (pads (pad_process_byte tx s)) k \<noteq> pad_analog (pads s) k"
  shows "pad_state (pads s) = PAD_IDLE \<and> pad_type_req (pads s) k \<noteq> None
           \<and> \<not> pad_in_config (pads s) k \<and> \<not> analog_mode_locked (pads s) k
       \<or> pad_state (pads s) = PAD_SEND_RESPONSE \<and> pad_current_cmd (pads s) = 0x44
           \<and> pad_response_idx (pads s) = 2 \<and> k = selected_slot s"
proof (cases "pad_state (pads s)")
  case PAD_IDLE
  have a: "pad_analog (pad_apply_type j p) k = pad_analog p k \<or> (j = k \<and> pad_type_req p k \<noteq> None
      \<and> \<not> pad_in_config p k \<and> \<not> analog_mode_locked p k)" for j p
    by (auto simp: pad_apply_type_def split: option.splits)
  have f: "pad_in_config (pad_apply_type j p) = pad_in_config p" "analog_mode_locked (pad_apply_type j p) = analog_mode_locked p"
    "j \<noteq> k \<Longrightarrow> pad_type_req (pad_apply_type j p) k = pad_type_req p k" for j p
    by (auto simp: pad_apply_type_def split: option.splits)
  have "pad_analog (pads (pad_process_byte tx s)) k = pad_analog (pad_apply_type 1 (pad_apply_type 0 (pads s))) k"
    using PAD_IDLE by (simp add: pad_process_byte_def Let_def pad_access_def numeral_2_eq_2)
  then show ?thesis
    using PAD_IDLE assms a [of 0 "pads s"] a [of 1 "pad_apply_type 0 (pads s)"] f [of 0 "pads s"]
    by (cases "k = 0") auto
next
  case PAD_WAIT_ACCESS
  then have "pad_analog (pads (pad_process_byte tx s)) = pad_analog (pads s)"
    by (simp add: pad_process_byte_def Let_def pad_command_def pad_end_def split: option.split)
  with assms show ?thesis by simp
next
  case PAD_SEND_RESPONSE
  then have "pad_analog (pads (pad_process_byte tx s)) = pad_analog (pad_latch tx (selected_slot s) (pads s))"
    by (simp add: pad_process_byte_def Let_def pad_send_def pad_end_def)
  with assms PAD_SEND_RESPONSE show ?thesis by (auto simp: pad_latch_def Let_def split: if_splits)
qed

definition demo_pad :: sio_st where
  "demo_pad = sio_init (sio_boot demo_cards demo_port)"

definition demo_pad_on :: sio_st where
  "demo_pad_on = demo_pad\<lparr>pads := sio_request_pad_type 0 True (sio_set_pad_connected 0 True (pads demo_pad))\<rparr>"

theorem sio_pad_type_stable_witness:
  "pad_state (pads demo_pad_on) = PAD_IDLE \<and> pad_type_req (pads demo_pad_on) 0 \<noteq> None"
proof -
  have "pad_analog (pads (pad_process_byte 0x01 demo_pad_on)) 0 \<noteq> pad_analog (pads demo_pad_on) 0"
    by (simp add: pad_process_byte_def Let_def pad_access_def demo_pad_on_def demo_pad_def sio_init_def sio_boot_def
        pad_boot_def pad_end_def sio_request_pad_type_def sio_set_pad_connected_def pad_apply_type_def numeral_2_eq_2)
  moreover have "pad_state (pads demo_pad_on) \<noteq> PAD_SEND_RESPONSE"
    by (simp add: demo_pad_on_def demo_pad_def sio_init_def pad_end_def sio_request_pad_type_def sio_set_pad_connected_def)
  ultimately show ?thesis using sio_pad_type_stable [where s = demo_pad_on and k = 0 and tx = "0x01"] by blast
qed

lemma has_clear [simp]: "\<not> has (clear_bits w m) m"
proof -
  have "clear_bits w m AND m = 0" by (rule bit_word_eqI) (auto simp: bit_simps)
  then show ?thesis by (simp add: has_def)
qed

lemma has_clear_sub: "m AND n = m \<Longrightarrow> \<not> has (clear_bits w n) m"
proof -
  assume "m AND n = m"
  moreover have "clear_bits w n AND (m AND n) = 0" by (rule bit_word_eqI) (auto simp: bit_simps)
  ultimately have "clear_bits w n AND m = 0" by simp
  then show ?thesis by (simp add: has_def)
qed

lemma stat_bits [simp]:
  "has SIO_STAT_ACK SIO_STAT_ACK" "\<not> has SIO_STAT_TX_RDY SIO_STAT_ACK" "\<not> has SIO_STAT_TX_EMPTY SIO_STAT_ACK"
  "\<not> has SIO_STAT_RX_RDY SIO_STAT_ACK"
  by (simp_all add: has_def SIO_STAT_ACK_def SIO_STAT_TX_RDY_def SIO_STAT_TX_EMPTY_def SIO_STAT_RX_RDY_def)

lemma ack_steps [simp]:
  "has (sio_stat (raise_ack s)) SIO_STAT_ACK" "sio_stat (set_rx b s) = sio_stat s"
  "has (sio_stat (byte_done s)) SIO_STAT_ACK = has (sio_stat s) SIO_STAT_ACK"
  "has (sio_stat (tx_ready s)) SIO_STAT_ACK = has (sio_stat s) SIO_STAT_ACK"
  "sio_rx_data (set_rx b s) = b" "sio_rx_data (raise_ack s) = sio_rx_data s"
  "sio_rx_data (byte_done s) = sio_rx_data s" "sio_rx_data (tx_ready s) = sio_rx_data s"
  "pads (tx_ready s) = pads s" "active_device (tx_ready s) = active_device s" "selected_slot (tx_ready s) = selected_slot s"
  by (simp_all add: raise_ack_def set_rx_def byte_done_def tx_ready_def)

text \<open>One byte for the pad, through the transmit register.\<close>

definition send_byte :: "sio_env \<Rightarrow> u8 \<Rightarrow> sio_st \<Rightarrow> sio_st" where
  "send_byte e b s = sio_write e 0x1F801040 (ucast b) s"

primrec send_bytes :: "sio_env \<Rightarrow> u8 list \<Rightarrow> sio_st \<Rightarrow> (u8 \<times> bool) list \<times> sio_st" where
  "send_bytes e [] s = ([], s)"
| "send_bytes e (b # bs) s =
     (let s = send_byte e b s; (rs, t) = send_bytes e bs s
      in ((sio_rx_data s, pending_ack (shifter s)) # rs, t))"

definition bus_open :: "sio_st \<Rightarrow> bool" where
  "bus_open s \<longleftrightarrow> has (sio_ctrl s) SIO_CTRL_TX_EN \<and> has (sio_ctrl s) SIO_CTRL_ACK_IRQ_EN
     \<and> \<not> has (sio_stat s) SIO_STAT_ACK \<and> \<not> irq_pending (irqs s)"

text \<open>The pad's view of the port: its own registers, the byte received and whether it acknowledged.\<close>

lemma process_pad_active:
  assumes "active_device s = DEV_PAD"
  shows "pads (sio_process_byte e b s) = pads (pad_process_byte b s)"
    "sio_rx_data (sio_process_byte e b s) = sio_rx_data (pad_process_byte b s)"
    "sio_stat (sio_process_byte e b s) = sio_stat (pad_process_byte b s)"
    "active_device (sio_process_byte e b s) = DEV_PAD"
    "selected_slot (sio_process_byte e b s) = selected_slot s"
  using assms by (simp_all add: sio_process_byte_def byte_dispatch_def Let_def pad_process_frame)

lemma ucast_u8_u32_u8 [simp]: "ucast (ucast (b :: u8) :: u32) = b"
  by transfer (simp add: take_bit_take_bit)

lemma send_byte_pad:
  assumes "bus_open s" "pad_fast_path b s"
  obtains s' where "pads s' = pads s" "active_device s' = active_device s" "selected_slot s' = selected_slot s"
    "mcw s' = mcw s" "sio_ctrl s' = sio_ctrl s" "sio_stat s' = sio_stat s" "mc_slots s' = mc_slots s"
    "pads (send_byte e b s) = pads (sio_process_byte e b s')"
    "sio_rx_data (send_byte e b s) = sio_rx_data (sio_process_byte e b s')"
    "active_device (send_byte e b s) = active_device (sio_process_byte e b s')"
    "selected_slot (send_byte e b s) = selected_slot (sio_process_byte e b s')"
    "pending_ack (shifter (send_byte e b s)) = has (sio_stat (sio_process_byte e b s')) SIO_STAT_ACK"
    "bus_open (send_byte e b s)"
proof -
  define u where "u = (sio_debug_poll_maybe s)\<lparr>diag := LogSioWrite 0x1F801040 (ucast b) # diag (sio_debug_poll_maybe s),
      sio_tx_data := b, counts := (counts (sio_debug_poll_maybe s))
        \<lparr>tx_writes := tx_writes (counts (sio_debug_poll_maybe s)) + 1, last_ctrl_on_tx := sio_ctrl s\<rparr>\<rparr>"
  define s' where "s' = sr_record SR_TX_DATA_WRITE b 0 (u\<lparr>shifter := (shift_idle (shifter u))\<lparr>owner := OWNER_PAD,
      bus_byte_index := bus_byte_index (shift_idle (shifter u)) + 1\<rparr>\<rparr>)"
  have u: "pads u = pads s" "active_device u = active_device s" "selected_slot u = selected_slot s" "mcw u = mcw s"
    "sio_ctrl u = sio_ctrl s" "sio_stat u = sio_stat s" "mc_slots u = mc_slots s" "shifter u = shifter s" "irqs u = irqs s"
    by (simp_all add: u_def sio_debug_poll_maybe_def Let_def)
  define v where "v = sio_process_byte e b s'"
  have v: "shifter v = shifter s'" "irqs v = irqs s" "sio_ctrl v = sio_ctrl s"
    by (simp_all add: v_def process_frame s'_def u)
  define w where "w = (if has (sio_stat v) SIO_STAT_ACK \<and> has (sio_ctrl v) SIO_CTRL_ACK_IRQ_EN then pad_arm_ack v else tx_ready v)"
  have sh: "\<not> pending_ack (shifter v)" by (simp add: v s'_def shift_idle_def)
  have fast: "pad_fast_path b u" using assms(2) by (simp add: pad_fast_path_def u)
  have ctrl: "has (sio_ctrl s) SIO_CTRL_TX_EN" "has (sio_ctrl s) SIO_CTRL_ACK_IRQ_EN" "\<not> irq_pending (irqs s)"
    using assms(1) by (simp_all add: bus_open_def)
  have "write_tx_data e (ucast b) ((sio_debug_poll_maybe s)\<lparr>diag := LogSioWrite 0x1F801040 (ucast b) # diag (sio_debug_poll_maybe s)\<rparr>)
      = write_tx_pad e b u"
    using fast ctrl(1) by (simp add: write_tx_data_def Let_def u_def sio_debug_poll_maybe_def)
  then have "send_byte e b s = sio_tick e 0 (write_tx_pad e b u)"
    by (simp add: send_byte_def sio_write_def Let_def)
  moreover obtain n where wp: "write_tx_pad e b u = w\<lparr>counts := n\<rparr>"
    unfolding write_tx_pad_def Let_def s'_def [symmetric] v_def [symmetric] w_def [symmetric] by blast
  moreover have "irqs w = irqs s \<or> irq_pending (irqs w) = irq_pending (irqs s)"
    by (simp add: w_def pad_arm_ack_def Let_def v)
  then have "\<not> irq_pending (irqs w)" using ctrl(3) by auto
  ultimately have sb: "send_byte e b s = w\<lparr>counts := n\<rparr>"
    by (simp add: sio_tick_def legacy_countdown_idle)
  have stat: "\<not> has (sio_stat w) SIO_STAT_ACK"
  proof (cases "has (sio_stat v) SIO_STAT_ACK")
    case True
    have "SIO_STAT_ACK AND (SIO_STAT_ACK OR (SIO_STAT_TX_RDY OR SIO_STAT_TX_EMPTY)) = SIO_STAT_ACK"
      by (rule bit_word_eqI) (auto simp: bit_simps)
    from has_clear_sub [OF this] True ctrl(2) show ?thesis
      by (simp add: w_def v pad_arm_ack_def Let_def)
  next
    case False
    then show ?thesis by (simp add: w_def)
  qed
  show ?thesis
  proof (rule that [of s'])
    show "pads s' = pads s" "active_device s' = active_device s" "selected_slot s' = selected_slot s"
      "mcw s' = mcw s" "sio_ctrl s' = sio_ctrl s" "sio_stat s' = sio_stat s" "mc_slots s' = mc_slots s"
      by (simp_all add: s'_def u)
    show "pads (send_byte e b s) = pads (sio_process_byte e b s')"
      "sio_rx_data (send_byte e b s) = sio_rx_data (sio_process_byte e b s')"
      "active_device (send_byte e b s) = active_device (sio_process_byte e b s')"
      "selected_slot (send_byte e b s) = selected_slot (sio_process_byte e b s')"
      by (simp_all add: sb v_def [symmetric] w_def pad_arm_ack_def Let_def)
    show "pending_ack (shifter (send_byte e b s)) = has (sio_stat (sio_process_byte e b s')) SIO_STAT_ACK"
      using ctrl(2) sh by (simp add: sb v_def [symmetric] w_def pad_arm_ack_def Let_def v(3))
    have "sio_ctrl w = sio_ctrl s" by (simp add: w_def pad_arm_ack_def Let_def v)
    then show "bus_open (send_byte e b s)"
      using stat ctrl \<open>\<not> irq_pending (irqs w)\<close> by (simp add: sb bus_open_def)
  qed
qed

text \<open>Sending the rest of a frame.\<close>

definition pad_sending :: "sio_st \<Rightarrow> bool" where
  "pad_sending s \<longleftrightarrow> active_device s = DEV_PAD \<and> pad_state (pads s) = PAD_SEND_RESPONSE \<and> bus_open s"

lemma pad_send_process:
  assumes "pad_state (pads s) = PAD_SEND_RESPONSE" "pad_response_idx (pads s) < pad_response_len (pads s)"
    and "\<not> has (sio_stat s) SIO_STAT_ACK"
  shows "sio_rx_data (pad_process_byte b s) = pad_response (pads s) (pad_response_idx (pads s))
    \<and> has (sio_stat (pad_process_byte b s)) SIO_STAT_ACK = (pad_response_idx (pads s) + 1 < pad_response_len (pads s))
    \<and> (\<not> pad_response_idx (pads s) + 1 < pad_response_len (pads s) \<longrightarrow>
          pad_state (pads (pad_process_byte b s)) = PAD_IDLE)
    \<and> (pad_response_idx (pads s) + 1 < pad_response_len (pads s) \<longrightarrow>
          pad_state (pads (pad_process_byte b s)) = PAD_SEND_RESPONSE
          \<and> pad_response_idx (pads (pad_process_byte b s)) = pad_response_idx (pads s) + 1
          \<and> pad_response_len (pads (pad_process_byte b s)) = pad_response_len (pads s)
          \<and> pad_response (pads (pad_process_byte b s)) = pad_response (pads s))"
  using assms by (simp add: pad_process_byte_def Let_def pad_send_def pad_end_def)

lemma send_rest:
  "pad_sending s \<Longrightarrow> pad_response_idx (pads s) + length bs = pad_response_len (pads s) \<Longrightarrow>
     fst (send_bytes e bs s) =
       map (\<lambda>i. (pad_response (pads s) i, i + 1 < pad_response_len (pads s)))
         [pad_response_idx (pads s)..<pad_response_len (pads s)]
     \<and> (bs \<noteq> [] \<longrightarrow> pad_state (pads (snd (send_bytes e bs s))) = PAD_IDLE)"
proof (induction bs arbitrary: s)
  case (Cons b bs)
  define i where "i = pad_response_idx (pads s)"
  define n where "n = pad_response_len (pads s)"
  have s: "bus_open s" "active_device s = DEV_PAD" "pad_state (pads s) = PAD_SEND_RESPONSE" "i < n" "i + 1 + length bs = n"
    using Cons.prems by (simp_all add: pad_sending_def i_def n_def)
  have fast: "pad_fast_path b s" using s(2) by (simp add: pad_fast_path_def)
  obtain s' where s': "pads s' = pads s" "active_device s' = active_device s" "sio_stat s' = sio_stat s"
    and t: "pads (send_byte e b s) = pads (sio_process_byte e b s')"
    "sio_rx_data (send_byte e b s) = sio_rx_data (sio_process_byte e b s')"
    "active_device (send_byte e b s) = active_device (sio_process_byte e b s')"
    "pending_ack (shifter (send_byte e b s)) = has (sio_stat (sio_process_byte e b s')) SIO_STAT_ACK"
    "bus_open (send_byte e b s)"
    by (rule send_byte_pad [OF s(1) fast, of e]) blast
  have a: "active_device s' = DEV_PAD" using s' s by simp
  have q: "\<not> has (sio_stat s') SIO_STAT_ACK" using s' s(1) by (simp add: bus_open_def)
  note r = pad_send_process [of s' b] process_pad_active [OF a, of e b]
  have hd: "sio_rx_data (send_byte e b s) = pad_response (pads s) i"
    "pending_ack (shifter (send_byte e b s)) \<longleftrightarrow> i + 1 < n"
    using r s s' q t by (auto simp: i_def n_def)
  have upt: "[i..<n] = i # [i + 1..<n]" using s(4) by (simp add: upt_conv_Cons)
  show ?case
  proof (cases bs)
    case Nil
    then have "n = i + 1" using s(5) by simp
    moreover from this have "pad_state (pads (send_byte e b s)) = PAD_IDLE"
      using r s s' q t by (simp add: i_def n_def)
    ultimately show ?thesis using Nil hd by (simp add: i_def [symmetric] n_def [symmetric] Let_def)
  next
    case (Cons b' bs')
    have lt: "i + 1 < n" using s(5) Cons by simp
    define u where "u = send_byte e b s"
    have pu: "pad_state (pads u) = PAD_SEND_RESPONSE" "pad_response_idx (pads u) = i + 1"
      "pad_response_len (pads u) = n" "pad_response (pads u) = pad_response (pads s)"
      using r s s' q t lt by (auto simp: i_def n_def u_def)
    have "pad_sending u" using pu t s r by (simp add: pad_sending_def u_def)
    from Cons.IH [OF this] pu s(5) have "fst (send_bytes e bs u) =
        map (\<lambda>i. (pad_response (pads s) i, i + 1 < n)) [i + 1..<n]
      \<and> pad_state (pads (snd (send_bytes e bs u))) = PAD_IDLE" using Cons by simp
    then show ?thesis
      using hd by (simp add: i_def [symmetric] n_def [symmetric] u_def [symmetric] upt Let_def case_prod_unfold)
  qed
qed simp

lemma pad_answer_upd [simp]:
  "pad_answer (p\<lparr>pad_state := x\<rparr>) k tx = pad_answer p k tx"
  "pad_answer (p\<lparr>pad_current_cmd := c\<rparr>) k tx = pad_answer p k tx"
  "pad_answer (p\<lparr>pad_response_idx := i\<rparr>) k tx = pad_answer p k tx"
  by (simp_all add: pad_answer_def pad_id_def pad_buttons_bytes_def pad_sticks_bytes_def pad_canned_def Let_def
      split del: if_split cong del: if_weak_cong)

text \<open>The pad registers a transaction starts from: a pending type change has been applied.\<close>

definition pad_settled :: "sio_st \<Rightarrow> pad_regs" where
  "pad_settled s = fold pad_apply_type [0..<2] (pads s)"

lemma pad_settled_connected [simp]: "pad_connected (pad_settled s) = pad_connected (pads s)"
  by (simp add: pad_settled_def numeral_2_eq_2 pad_apply_type_def split: option.split)

lemma pad_open:
  assumes "sio_ok s" "bus_open s" "active_device s = DEV_NONE" "pad_connected (pads s) k"
    and k: "k = (if has (sio_ctrl s) SIO_CTRL_SLOT then 1 else 0)"
  shows "sio_rx_data (send_byte e 0x01 s) = 0xFF \<and> pending_ack (shifter (send_byte e 0x01 s))
    \<and> active_device (send_byte e 0x01 s) = DEV_PAD \<and> selected_slot (send_byte e 0x01 s) = k
    \<and> bus_open (send_byte e 0x01 s)
    \<and> pads (send_byte e 0x01 s) = (pad_settled s)\<lparr>pad_state := PAD_WAIT_ACCESS\<rparr>"
proof -
  have fast: "pad_fast_path 0x01 s" using assms(3) by (simp add: pad_fast_path_def)
  obtain s' where s': "pads s' = pads s" "active_device s' = active_device s" "mcw s' = mcw s"
      "sio_ctrl s' = sio_ctrl s" "sio_stat s' = sio_stat s"
    and t: "pads (send_byte e 0x01 s) = pads (sio_process_byte e 0x01 s')"
    "sio_rx_data (send_byte e 0x01 s) = sio_rx_data (sio_process_byte e 0x01 s')"
    "active_device (send_byte e 0x01 s) = active_device (sio_process_byte e 0x01 s')"
    "selected_slot (send_byte e 0x01 s) = selected_slot (sio_process_byte e 0x01 s')"
    "pending_ack (shifter (send_byte e 0x01 s)) = has (sio_stat (sio_process_byte e 0x01 s')) SIO_STAT_ACK"
    "bus_open (send_byte e 0x01 s)"
    by (rule send_byte_pad [OF assms(2) fast, of e]) blast
  have idle: "mc_state (mcw s) = MC_IDLE" "pad_state (pads s) = PAD_IDLE"
    using assms(1,3) by (auto simp: sio_ok_def bus_ok_def)
  define u where "u = (slot_select s')\<lparr>active_device := DEV_PAD\<rparr>"
  have u: "pads u = pads s" "selected_slot u = k" "active_device u = DEV_PAD"
    by (simp_all add: u_def slot_select_def s' k)
  have p: "pads (sio_process_byte e 0x01 s') = pads (pad_process_byte 0x01 u)"
    "sio_rx_data (sio_process_byte e 0x01 s') = sio_rx_data (pad_process_byte 0x01 u)"
    "sio_stat (sio_process_byte e 0x01 s') = sio_stat (pad_process_byte 0x01 u)"
    "active_device (sio_process_byte e 0x01 s') = DEV_PAD"
    "selected_slot (sio_process_byte e 0x01 s') = k"
    using assms(3) s' idle u
    by (simp_all add: sio_process_byte_def byte_dispatch_def byte_pad_select_def Let_def u_def [symmetric]
        pad_process_frame slot_select_def) (auto simp: u_def slot_select_def k)
  have "pad_process_byte 0x01 u = byte_done (raise_ack (set_rx 0xFF (u\<lparr>pads := (pad_settled s)\<lparr>pad_state := PAD_WAIT_ACCESS\<rparr>\<rparr>)))"
    using u idle assms(4) pad_settled_connected [of s]
    by (simp add: pad_process_byte_def Let_def pad_access_def pad_settled_def numeral_2_eq_2)
  with t p show ?thesis by simp
qed

text \<open>
  Every command: a connected pad answers the access byte with 0xFF and a command it supports with its
  answer frame, byte for byte whatever the host sends meanwhile; it acknowledges every byte but the
  last, and is then idle.
\<close>

lemma pad_frame_any:
  assumes "sio_ok s" and "bus_open s" and "active_device s = DEV_NONE" and "pad_connected (pads s) k"
    and "k = (if has (sio_ctrl s) SIO_CTRL_SLOT then 1 else 0)"
    and "pad_answer (pad_settled s) k cmd = Some bs" and "Suc (length fill) = length bs"
  shows "fst (send_bytes e (0x01 # cmd # fill) s) = zip (0xFF # bs) (replicate (length bs) True @ [False])
    \<and> pad_state (pads (snd (send_bytes e (0x01 # cmd # fill) s))) = PAD_IDLE"
proof -
  define s1 where "s1 = send_byte e 0x01 s"
  note o = pad_open [OF assms(1-5), of e, folded s1_def]
  have fast: "pad_fast_path cmd s1" using o by (simp add: pad_fast_path_def)
  have b1: "bus_open s1" using o by blast
  define s2 where "s2 = send_byte e cmd s1"
  obtain s' where s': "pads s' = pads s1" "active_device s' = active_device s1" "selected_slot s' = selected_slot s1"
      "sio_stat s' = sio_stat s1"
    and t: "pads s2 = pads (sio_process_byte e cmd s')" "sio_rx_data s2 = sio_rx_data (sio_process_byte e cmd s')"
    "active_device s2 = active_device (sio_process_byte e cmd s')"
    "pending_ack (shifter s2) = has (sio_stat (sio_process_byte e cmd s')) SIO_STAT_ACK" "bus_open s2"
    unfolding s2_def by (rule send_byte_pad [OF b1 fast, of e]) blast
  have a: "active_device s' = DEV_PAD" using s' o by simp
  have len: "4 \<le> length bs" using pad_answer_length [OF assms(6)] by simp
  have ans: "pad_answer (pads s') k cmd = Some bs" using assms(6) s' o by simp
  have r: "pads s2 = (pads s')\<lparr>pad_current_cmd := cmd, pad_response_idx := 1,
      pad_response := (\<lambda>i. if i < length bs then bs ! i else pad_response (pads s') i),
      pad_response_len := length bs, pad_state := PAD_SEND_RESPONSE\<rparr>
      \<and> sio_rx_data s2 = bs ! 0 \<and> pending_ack (shifter s2)"
    using process_pad_active [OF a, of e cmd] t s' o ans
    by (simp add: pad_process_byte_def Let_def pad_command_def cong del: if_weak_cong)
  have "active_device s2 = DEV_PAD" using t process_pad_active [OF a, of e cmd] by simp
  then have "pad_sending s2" using r t by (simp add: pad_sending_def)
  from send_rest [OF this, of fill e] r assms(7) have rest: "fst (send_bytes e fill s2) =
      map (\<lambda>i. (bs ! i, i + 1 < length bs)) [1..<length bs]" by simp
  have "fill \<noteq> []" using assms(7) len by auto
  with send_rest [OF \<open>pad_sending s2\<close>, of fill e] r assms(7)
  have idle: "pad_state (pads (snd (send_bytes e fill s2))) = PAD_IDLE" by simp
  have "0 < length bs" using len by linarith
  then have "[0..<length bs] = 0 # [1..<length bs]" unfolding One_nat_def by (rule upt_conv_Cons)
  then have "(bs ! 0, True) # fst (send_bytes e fill s2) = map (\<lambda>i. (bs ! i, i + 1 < length bs)) [0..<length bs]"
    using len rest by simp
  moreover have "map (\<lambda>i. (bs ! i, i + 1 < length bs)) [0..<length bs] = zip bs (replicate (length bs - 1) True @ [False])"
    using len by (intro nth_equalityI) (auto simp: nth_append)
  moreover have "replicate (length bs) True = True # replicate (length bs - 1) True"
    using len by (cases "length bs") auto
  ultimately show ?thesis
    using o r idle by (simp add: s1_def [symmetric] s2_def [symmetric] Let_def case_prod_unfold)
qed

text \<open>The poll frame: the pad's identity, 0x5A, the buttons and, unless it is a digital pad, the four
  stick axes.\<close>

lemma pad_poll_answer:
  "pad_answer p k 0x42 =
     Some ([pad_id p k, 0x5A, ucast (pad_buttons p k), ucast (drop_bit 8 (pad_buttons p k))]
           @ (if pad_id p k = 0x41 then [] else pad_sticks_bytes p k))"
proof -
  have "ucast (w AND 0xFF) = (ucast w :: u8)" for w :: u16
  proof -
    have "w AND 0xFF = take_bit 8 w" by (simp add: take_bit_eq_mask mask_eq_exp_minus_1)
    then show ?thesis by (simp only:) (rule bit_word_eqI, auto simp: bit_simps)
  qed
  then show ?thesis by (simp add: pad_answer_def pad_buttons_bytes_def pad_id_def)
qed

text \<open>A pending type request takes effect unless the pad is in configuration mode or locked.\<close>

definition pad_analog_now :: "pad_regs \<Rightarrow> nat \<Rightarrow> bool" where
  "pad_analog_now p k =
     (case pad_type_req p k of
        Some analog \<Rightarrow> if pad_in_config p k \<or> analog_mode_locked p k then pad_analog p k else analog
      | None \<Rightarrow> pad_analog p k)"

lemma pad_apply_keeps [simp]:
  "pad_in_config (pad_apply_type j p) = pad_in_config p" "pad_buttons (pad_apply_type j p) = pad_buttons p"
  "pad_stick (pad_apply_type j p) = pad_stick p"
  by (simp_all add: pad_apply_type_def split: option.split)

lemma pad_apply_analog: "pad_analog (pad_apply_type j p) i = (if i = j then pad_analog_now p i else pad_analog p i)"
  by (auto simp: pad_apply_type_def pad_analog_now_def split: option.split)

lemma pad_apply_other: "i \<noteq> j \<Longrightarrow> pad_analog_now (pad_apply_type j p) i = pad_analog_now p i"
  by (simp add: pad_apply_type_def pad_analog_now_def split: option.split)

lemma pad_settled_keeps [simp]:
  "pad_in_config (pad_settled s) = pad_in_config (pads s)" "pad_buttons (pad_settled s) = pad_buttons (pads s)"
  "pad_stick (pad_settled s) = pad_stick (pads s)"
  by (simp_all add: pad_settled_def numeral_2_eq_2)

lemma pad_settled_analog: "k < 2 \<Longrightarrow> pad_analog (pad_settled s) k = pad_analog_now (pads s) k"
  by (auto simp: pad_settled_def numeral_2_eq_2 pad_apply_analog pad_apply_other less_Suc_eq)

text \<open>C31: A poll (the bytes 0x01, 0x42 and filler of any value) of a connected pad on the selected port,
  with transmission and the acknowledge interrupt enabled, no device active and nothing pending, returns 0xFF, the identifier (0xF3 in configuration mode, 0x73 analog, 0x41 digital), 0x5A, the low
  and then the high byte of the buttons and, unless the pad is digital, the right stick's two axes
  and the left stick's two. Every byte but the last is acknowledged, and the pad ends idle. A pending
  host type request is applied first.\<close>

theorem sio_pad_frame:
  assumes "sio_ok s" and "bus_open s" and "active_device s = DEV_NONE" and "pad_connected (pads s) k"
    and "k = (if has (sio_ctrl s) SIO_CTRL_SLOT then 1 else 0)"
    and "config = pad_in_config (pads s) k" and "analog = pad_analog_now (pads s) k"
    and "length fill = (if config \<or> analog then 7 else 3)"
  shows "fst (send_bytes e (0x01 # 0x42 # fill) s) =
      zip ([0xFF, if config then 0xF3 else if analog then 0x73 else 0x41, 0x5A,
            ucast (pad_buttons (pads s) k), ucast (drop_bit 8 (pad_buttons (pads s) k))]
           @ (if config \<or> analog then map (pad_stick (pads s) k) [2, 3, 0, 1] else []))
          (replicate (length fill + 1) True @ [False])
    \<and> pad_state (pads (snd (send_bytes e (0x01 # 0x42 # fill) s))) = PAD_IDLE"
proof -
  have "k < 2" using assms(5) by simp
  define bs where "bs = [if config then 0xF3 else if analog then 0x73 else 0x41, 0x5A,
      ucast (pad_buttons (pads s) k), ucast (drop_bit 8 (pad_buttons (pads s) k))]
    @ (if config \<or> analog then map (pad_stick (pads s) k) [2, 3, 0, 1] else [])"
  have ans: "pad_answer (pad_settled s) k 0x42 = Some bs"
    unfolding pad_poll_answer bs_def
    by (simp add: pad_id_def pad_sticks_bytes_def pad_settled_analog [OF \<open>k < 2\<close>] assms(6,7))
  have len: "Suc (length fill) = length bs" using assms(8) by (simp add: bs_def)
  then show ?thesis
    using pad_frame_any [OF assms(1-5) ans len, of e] unfolding len [symmetric] by (simp add: bs_def)
qed

definition demo_pad_open :: sio_st where
  "demo_pad_open = demo_pad_on\<lparr>sio_ctrl := SIO_CTRL_TX_EN OR SIO_CTRL_SELECT OR SIO_CTRL_ACK_IRQ_EN\<rparr>"

lemma demo_pad_open_facts:
  "sio_ok demo_pad_open" "bus_open demo_pad_open" "active_device demo_pad_open = DEV_NONE"
  "pad_connected (pads demo_pad_open) 0"
  "(if has (sio_ctrl demo_pad_open) SIO_CTRL_SLOT then 1 else 0) = (0 :: nat)"
proof -
  have "sio_ok demo_pad" by (simp add: demo_pad_def sio_ok_init sio_ok_boot)
  then have "sio_ok (demo_pad\<lparr>pads := pad_host_step (SetConnected 0 True) (pads demo_pad)\<rparr>)" by (rule sio_ok_host)
  from sio_ok_host [OF this, of "RequestType 0 True"] have "sio_ok demo_pad_on" by (simp add: demo_pad_on_def)
  then show "sio_ok demo_pad_open" by (simp add: demo_pad_open_def)
  have c: "has (SIO_CTRL_TX_EN OR SIO_CTRL_SELECT OR SIO_CTRL_ACK_IRQ_EN) SIO_CTRL_TX_EN"
    "has (SIO_CTRL_TX_EN OR SIO_CTRL_SELECT OR SIO_CTRL_ACK_IRQ_EN) SIO_CTRL_ACK_IRQ_EN"
    "\<not> has (SIO_CTRL_TX_EN OR SIO_CTRL_SELECT OR SIO_CTRL_ACK_IRQ_EN) SIO_CTRL_SLOT"
    by (simp_all add: has_def SIO_CTRL_TX_EN_def SIO_CTRL_SELECT_def SIO_CTRL_ACK_IRQ_EN_def SIO_CTRL_SLOT_def)
  show "bus_open demo_pad_open"
    using c by (simp add: bus_open_def demo_pad_open_def demo_pad_on_def demo_pad_def sio_init_def sio_boot_def
        irq_disarm_def)
  show "active_device demo_pad_open = DEV_NONE"
    by (simp add: demo_pad_open_def demo_pad_on_def demo_pad_def sio_init_def)
  show "pad_connected (pads demo_pad_open) 0"
    by (simp add: demo_pad_open_def demo_pad_on_def demo_pad_def sio_init_def sio_set_pad_connected_def
        sio_request_pad_type_def)
  show "(if has (sio_ctrl demo_pad_open) SIO_CTRL_SLOT then 1 else 0) = (0 :: nat)"
    using c by (simp add: demo_pad_open_def)
qed

lemma demo_pad_regs:
  "pad_type_req (pads demo_pad_open) 0 = Some True" "pad_type_req (pads demo_pad_open) 1 = None"
  "\<not> pad_in_config (pads demo_pad_open) 0" "\<not> analog_mode_locked (pads demo_pad_open) 0"
  "pad_buttons (pads demo_pad_open) 0 = 0xFFFF" "pad_stick (pads demo_pad_open) 0 = (\<lambda>_. 0x80)"
  by (simp_all add: demo_pad_open_def demo_pad_on_def demo_pad_def sio_init_def sio_boot_def
      pad_boot_def pad_end_def sio_request_pad_type_def sio_set_pad_connected_def)

lemma demo_pad_settled: "pad_settled demo_pad_open = (pads demo_pad_open)
    \<lparr>pad_analog := (pad_analog (pads demo_pad_open))(0 := True), pad_type_req := (pad_type_req (pads demo_pad_open))(0 := None)\<rparr>"
  using demo_pad_regs(2) unfolding One_nat_def
  by (simp add: pad_settled_def numeral_2_eq_2 pad_apply_type_def [of 0] pad_apply_type_def [of "Suc 0"] demo_pad_regs(1,3,4))

lemma demo_pad_answer:
  "pad_answer (pad_settled demo_pad_open) 0 0x42 = Some [0x73, 0x5A, 0xFF, 0xFF, 0x80, 0x80, 0x80, 0x80]"
  unfolding pad_poll_answer demo_pad_settled
  by (simp add: pad_id_def pad_sticks_bytes_def demo_pad_regs(3,5,6))

theorem sio_pad_frame_witness:
  "map fst (fst (send_bytes demo_sio_env (0x01 # 0x42 # replicate 7 0) demo_pad_open))
     = [0xFF, 0x73, 0x5A, 0xFF, 0xFF, 0x80, 0x80, 0x80, 0x80]"
proof -
  note f = demo_pad_open_facts
  have a: "False = pad_in_config (pads demo_pad_open) 0" "True = pad_analog_now (pads demo_pad_open) 0"
    by (simp_all add: pad_analog_now_def demo_pad_regs)
  have l: "length (replicate 7 (0 :: u8)) = (if False \<or> True then 7 else 3)" by simp
  show ?thesis
    unfolding sio_pad_frame [OF f(1-4) f(5) [symmetric] a l, THEN conjunct1]
    by (simp add: map_fst_zip demo_pad_regs)
qed

section \<open>Timing\<close>

text \<open>No event is overdue: what is pending lies in the future.\<close>

definition sio_pending_ahead :: "sio_st \<Rightarrow> bool" where
  "sio_pending_ahead s \<longleftrightarrow> sio_ok s
     \<and> (shift_active (shifter s) \<longrightarrow> shift_remaining (shifter s) > 0)
     \<and> (pending_ack (shifter s) \<longrightarrow> ack_remaining (shifter s) > 0)"

lemma sint_small:
  assumes "c \<le> max_advance" shows "sint c = int (unat c)"
proof -
  have "uint c \<le> 2147483647" using assms by (simp add: max_advance_def word_le_def)
  moreover have "- 2147483648 \<le> uint c" by (rule order_trans [OF _ uint_ge_0]) simp
  ultimately have "signed_take_bit 31 (uint c) = uint c" by (intro signed_take_bit_id) simp_all
  then show ?thesis by (simp add: sint_uint)
qed

lemma unat_word_of_int: "0 \<le> x \<Longrightarrow> x < 4294967296 \<Longrightarrow> int (unat (word_of_int x :: u32)) = x"
  by (simp add: uint_word_of_int)

lemma less_horizon:
  assumes "0 \<le> x" "x < 4294967295"
  shows "word_of_int x < (0xFFFFFFFF :: u32)" "c < (word_of_int x :: u32) \<longleftrightarrow> int (unat c) < x"
  using assms by (simp_all add: word_less_def uint_word_of_int)

text \<open>In a state the invariant describes, the forecast is the nearer of the two countdowns.\<close>

lemma horizon_ahead:
  assumes "sio_pending_ahead s" "c < sio_cycles_to_irq 0xFFFFFFFF s" "timing_active (shifter s)"
  shows "(shift_active (shifter s) \<longrightarrow> int (unat c) < shift_remaining (shifter s))
    \<and> (pending_ack (shifter s) \<longrightarrow> int (unat c) < ack_remaining (shifter s))"
proof -
  define h where "h = shifter s"
  have ok: "shift_ok h" "\<not> irq_pending (irqs s)"
    "shift_active h \<longrightarrow> shift_remaining h > 0" "pending_ack h \<longrightarrow> ack_remaining h > 0"
    using assms(1) by (auto simp: sio_pending_ahead_def sio_ok_def h_def)
  have m: "has (0xFFFFFFFF :: u32) (push_bit 7 1)" by (simp add: has_def)
  define b1 :: u32 where "b1 = (if pending_ack h \<and> ack_remaining h > 0 \<and> word_of_int (ack_remaining h) < (0xFFFFFFFF :: u32)
      then word_of_int (ack_remaining h) else 0xFFFFFFFF)"
  define b2 where "b2 = (if shift_active h \<and> shift_remaining h > 0 \<and> word_of_int (shift_remaining h) < b1
      then word_of_int (shift_remaining h) else b1)"
  have "sio_cycles_to_irq 0xFFFFFFFF s = b2"
    using ok(2) assms(3) m unfolding sio_cycles_to_irq_def Let_def b2_def b1_def h_def
    by (simp only: simp_thms if_True if_False)
  then have c: "c < b2" using assms(2) by simp
  have b21: "b2 \<le> b1" by (auto simp: b2_def)
  have a: "c < word_of_int (ack_remaining h)" if "pending_ack h"
    using that c b21 ok(1,4) less_horizon(1) [of "ack_remaining h"] by (simp add: b1_def shift_ok_def)
  have s: "c < word_of_int (shift_remaining h)" if "shift_active h"
    using that c ok(3) by (auto simp: b2_def not_less split: if_splits)
  show ?thesis
    using a s ok(1) less_horizon(2) [of "ack_remaining h" c] less_horizon(2) [of "shift_remaining h" c]
    by (auto simp: h_def shift_ok_def)
qed

lemma pace_quiet:
  assumes "(shift_active h \<longrightarrow> r < shift_remaining h) \<and> (pending_ack h \<longrightarrow> r < ack_remaining h)" "0 < r"
  shows "pace_next r h = (r, None)"
  using assms by (auto simp: pace_next_def Let_def)

lemma sio_advance_paced:
  assumes "sio_pending_ahead s" "c < sio_cycles_to_irq 0xFFFFFFFF s" "c \<le> max_advance"
    and "c \<noteq> 0" "timing_active (shifter s)"
  shows "\<exists>cn. sio_advance e c s = s\<lparr>counts := cn, shifter := pace_elapse (int (unat c)) (shifter s)\<rparr>"
proof -
  have c: "0 < int (unat c)" using assms(4) uint_ge_0 [of c] by (auto simp: less_le uint_0_iff)
  define u where "u = s\<lparr>counts := (counts s)\<lparr>advance_called := advance_called (counts s) + 1,
      advance_with_work := advance_with_work (counts s) + 1\<rparr>\<rparr>"
  have n: "pace_next (int (unat c)) (shifter u) = (int (unat c), None)"
    using pace_quiet [OF horizon_ahead [OF assms(1,2,5)] c] by (simp add: u_def)
  have "sio_advance e c s = pace_loop MAX_TRANSITIONS e (int (unat c)) u"
    using assms(4,5) sint_small [OF assms(3)] by (simp add: sio_advance_def Let_def u_def)
  also have "\<dots> = u\<lparr>shifter := pace_elapse (int (unat c)) (shifter u)\<rparr>"
    using c n by (simp add: MAX_TRANSITIONS_def eval_nat_numeral Let_def)
  finally show ?thesis by (auto simp: u_def)
qed

lemma sio_advance_quiet:
  assumes "sio_pending_ahead s" "c < sio_cycles_to_irq 0xFFFFFFFF s" "c \<le> max_advance"
  shows "sio_pending_ahead (sio_advance e c s) \<and> sio_port (sio_advance e c s) = sio_port s
     \<and> card_view (sio_advance e c s) = card_view s"
proof -
  have ok: "sio_ok (sio_advance e c s)" using assms(1) by (simp add: sio_pending_ahead_def sio_ok_advance)
  show ?thesis
  proof (cases "c = 0 \<or> \<not> timing_active (shifter s)")
    case True
    then show ?thesis using assms(1) by (auto simp: sio_advance_def Let_def sio_pending_ahead_def)
  next
    case False
    then obtain cn where eq: "sio_advance e c s = s\<lparr>counts := cn, shifter := pace_elapse (int (unat c)) (shifter s)\<rparr>"
      using sio_advance_paced [OF assms(1-3), of e] by blast
    have "sio_pending_ahead (sio_advance e c s)"
      using ok horizon_ahead [OF assms(1,2)] False
      by (auto simp: sio_pending_ahead_def eq pace_elapse_def Let_def)
    then show ?thesis by (simp add: eq card_view_def)
  qed
qed

text \<open>The same advance in full: only the armed countdowns and the event counters move.\<close>

definition sio_waited :: "int \<Rightarrow> sio_counts \<Rightarrow> sio_st \<Rightarrow> sio_st" where
  "sio_waited n cn s = s\<lparr>counts := cn, shifter := (shifter s)
     \<lparr>shift_remaining := shift_remaining (shifter s) - (if shift_active (shifter s) then n else 0),
      ack_remaining := ack_remaining (shifter s) - (if pending_ack (shifter s) then n else 0)\<rparr>\<rparr>"

lemma sio_waited_twice: "sio_waited j d (sio_waited n cn s) = sio_waited (n + j) d s"
  by (simp add: sio_waited_def)

lemma sio_waited_none: "(shift_active (shifter s) \<or> pending_ack (shifter s) \<longrightarrow> n = 0) \<Longrightarrow> sio_waited n (counts s) s = s"
  by (cases s) (auto simp: sio_waited_def)

lemma advance_waits:
  assumes "sio_pending_ahead s" "c < sio_cycles_to_irq 0xFFFFFFFF s" "c \<le> max_advance"
  shows "\<exists>cn. sio_advance e c s = sio_waited (int (unat c)) cn s"
proof (cases "c = 0 \<or> \<not> timing_active (shifter s)")
  case True
  then have "sio_advance e c s = s\<lparr>counts := counts (sio_advance e c s)\<rparr>"
    by (auto simp: sio_advance_def Let_def)
  moreover have "shift_active (shifter s) \<or> pending_ack (shifter s) \<longrightarrow> int (unat c) = 0"
    using True assms(1) by (auto simp: sio_pending_ahead_def sio_ok_def shift_ok_def)
  then have "sio_waited (int (unat c)) (counts (sio_advance e c s)) s = s\<lparr>counts := counts (sio_advance e c s)\<rparr>"
    by (auto simp: sio_waited_def)
  ultimately show ?thesis by metis
next
  case False
  show ?thesis
    using sio_advance_paced [OF assms(1,2,3), of e] False
    by (auto simp: sio_waited_def pace_elapse_def Let_def)
qed

interpretation so: quiet_source sio_pending_ahead "sio_advance e" "\<lambda>_. sio_cycles_to_irq 0xFFFFFFFF"
    "\<lambda>s. i_stat (sio_port s)" for e :: sio_env
  by unfold_locales (simp_all add: sio_advance_quiet)

lemma horizon_mask: "has m (push_bit 7 1) \<Longrightarrow> sio_cycles_to_irq m s = sio_cycles_to_irq 0xFFFFFFFF s"
proof -
  assume m: "has m (push_bit 7 1)"
  have "has (0xFFFFFFFF :: u32) (push_bit 7 1)" by (simp add: has_def)
  then show ?thesis using m unfolding sio_cycles_to_irq_def by simp
qed

lemma quiet_chunks_mask:
  "has m (push_bit 7 1) \<Longrightarrow>
     quiet_chunks (sio_advance e) sio_cycles_to_irq m cs s
       = quiet_chunks (sio_advance e) (\<lambda>_. sio_cycles_to_irq 0xFFFFFFFF) m cs s"
  by (induction cs arbitrary: s) (simp_all add: horizon_mask)

lemma replay_waits:
  "sio_pending_ahead s \<Longrightarrow> quiet_chunks (sio_advance e) (\<lambda>_. sio_cycles_to_irq 0xFFFFFFFF) m cs s \<Longrightarrow>
     \<exists>cn. fold (sio_advance e) cs s = sio_waited (sum_list (map (int \<circ> unat) cs)) cn s"
proof (induction cs arbitrary: s)
  case Nil
  have "sio_waited 0 (counts s) s = s" by (rule sio_waited_none) simp
  then show ?case by (auto intro!: exI [of _ "counts s"])
next
  case (Cons c cs)
  then have c: "c < sio_cycles_to_irq 0xFFFFFFFF s" "c \<le> max_advance" by simp_all
  obtain cn where a: "sio_advance e c s = sio_waited (int (unat c)) cn s"
    using advance_waits [OF Cons.prems(1) c] by blast
  obtain d where "fold (sio_advance e) cs (sio_advance e c s)
      = sio_waited (sum_list (map (int \<circ> unat) cs)) d (sio_advance e c s)"
  proof (rule exE [OF Cons.IH])
    show "sio_pending_ahead (sio_advance e c s)" by (rule so.quiet_ok [OF Cons.prems(1) c])
    show "quiet_chunks (sio_advance e) (\<lambda>_. sio_cycles_to_irq 0xFFFFFFFF) m cs (sio_advance e c s)"
      using Cons.prems(2) by simp
  qed
  then have "fold (sio_advance e) (c # cs) s = sio_waited (sum_list (map (int \<circ> unat) (c # cs))) d s"
    unfolding a sio_waited_twice by (simp add: a)
  then show ?case by blast
qed

text \<open>C30: The forecast is safe to trust below it, from any well-formed state with nothing overdue and at
  every interrupt mask that lets the serial interrupt through: replaying the clock in any chunks that stay strictly below
  \<open>sio_cycles_to_irq\<close> at the point they start changes nothing but the event counters and the armed
  countdowns, which fall by exactly the cycles replayed and stay positive. So a byte in the shifter is
  still there, undelivered, with the same value, no card, pad or register has moved, the interrupt
  status is what it was, and nothing is overdue.\<close>

theorem sio_horizon_safe:
  assumes "sio_pending_ahead s" and "has m (push_bit 7 1)"
    and "quiet_chunks (sio_advance e) sio_cycles_to_irq m cs s"
    and "n = sum_list (map (int \<circ> unat) cs)" and "h = shifter s"
  shows "sio_pending_ahead (fold (sio_advance e) cs s)
       \<and> (\<exists>cn. fold (sio_advance e) cs s = s\<lparr>counts := cn, shifter := h
            \<lparr>shift_remaining := shift_remaining h - (if shift_active h then n else 0),
             ack_remaining := ack_remaining h - (if pending_ack h then n else 0)\<rparr>\<rparr>)"
proof -
  have q: "quiet_chunks (sio_advance e) (\<lambda>_. sio_cycles_to_irq 0xFFFFFFFF) m cs s"
    using assms(3) unfolding quiet_chunks_mask [OF assms(2)] .
  show ?thesis
    using so.quiet_replay [OF assms(1) q] replay_waits [OF assms(1) q]
    unfolding sio_waited_def assms(4,5) by blast
qed

text \<open>C29: Reaching the forecast exactly is not enough: an advance by exactly the cycles a byte still
  needs leaves the byte in the shifter, raises nothing, and from then on the forecast says that no
  event is coming, although the next advance by a single cycle would deliver it.\<close>

theorem sio_due_event_hidden:
  assumes "sio_ok s" and "shift_active (shifter s)" and "\<not> pending_ack (shifter s)"
    and "shift_remaining (shifter s) = int (unat c)" and "0 < c"
  shows "let t = sio_advance e c s
         in shift_active (shifter t) \<and> shift_remaining (shifter t) = 0 \<and> card_view t = card_view s
            \<and> sio_port t = sio_port s \<and> sio_cycles_to_irq m t = 0xFFFFFFFF"
proof -
  have h: "timing_active (shifter s)" "int (unat c) \<le> 1088" "\<not> irq_pending (irqs s)"
    using assms(1,2,4) by (auto simp: sio_ok_def shift_ok_def)
  have c: "0 < int (unat c)" using assms(5) by (simp add: word_less_def)
  have "c \<le> max_advance" using h(2) by (simp add: max_advance_def word_le_def)
  then have si: "sint c = int (unat c)" by (rule sint_small)
  define u where "u = s\<lparr>counts := (counts s)\<lparr>advance_called := advance_called (counts s) + 1,
        advance_with_work := advance_with_work (counts s) + 1\<rparr>\<rparr>"
  have u: "shifter u = shifter s" "sio_port u = sio_port s" "card_view u = card_view s" "irqs u = irqs s"
    by (simp_all add: u_def)
  have n: "pace_next (int (unat c)) (shifter u) = (int (unat c), None)"
    using assms(2-4) c by (auto simp: pace_next_def u Let_def)
  have "sio_advance e c s = pace_loop MAX_TRANSITIONS e (int (unat c)) u"
    using h assms(5) si by (simp add: sio_advance_def Let_def u_def)
  also have "\<dots> = u\<lparr>shifter := pace_elapse (int (unat c)) (shifter u)\<rparr>"
    using c n by (simp add: MAX_TRANSITIONS_def eval_nat_numeral Let_def)
  finally have eq: "sio_advance e c s = u\<lparr>shifter := (shifter s)\<lparr>shift_remaining := 0\<rparr>\<rparr>"
    using assms(2-4) by (simp add: pace_elapse_def u Let_def)
  show ?thesis
    using assms(2,3) h u by (simp add: eq Let_def sio_cycles_to_irq_def card_view_def)
qed

text \<open>The completion of a byte when nothing is buffered behind it.\<close>

lemma shift_complete_parts:
  assumes "\<not> tx_buffered (shifter s)"
  obtains u v where "mcw u = mcw s" "mcards u = mcards s" "card_busy k u = card_busy k s"
    "v = sio_process_byte e (shift_byte (shifter s)) u" "sio_stat u = sio_stat s" "shifter u = shifter s"
    "card_view (sio_handle_shift_complete e s) = card_view v"
    "shifter (sio_handle_shift_complete e s) = shift_gate
       (if has (sio_stat v) SIO_STAT_ACK
        then (shifter s)\<lparr>shift_active := False, pending_ack := True, ack_remaining := SIO_ACK_CYCLES_DEFAULT,
                        pending_ack_irq_en := shift_ack_irq_en (shifter s)\<rparr>
        else (shifter s)\<lparr>shift_active := False\<rparr>)"
    "sio_port (sio_handle_shift_complete e s) = sio_port s"
proof -
  define b where "b = shift_byte (shifter s)"
  define s0 where "s0 = sr_record SR_SHIFT_DONE b 0 s"
  define u where "u = (if b = 0x01 \<and> mc_num (mc_state (mcw s0)) \<ge> mc_num MC_READ_DATA
                  \<and> mc_num (mc_state (mcw s0)) \<le> mc_num MC_READ_END
               then s0\<lparr>counts := (counts s0)\<lparr>pace_pad_in_card_data := pace_pad_in_card_data (counts s0) + 1\<rparr>\<rparr> else s0)"
  define v where "v = sio_process_byte e b u"
  have u: "mcw u = mcw s" "mcards u = mcards s" "card_busy k u = card_busy k s" "sio_stat u = sio_stat s"
    "shifter u = shifter s" "sio_port u = sio_port s"
    by (simp_all add: u_def s0_def card_busy_def)
  have v: "shifter v = shifter s" "sio_port v = sio_port s" by (simp_all add: v_def process_frame u)
  define v1 where "v1 = v\<lparr>sio_stat := clear_bits (sio_stat v) SIO_STAT_ACK\<rparr>"
  define v2 where "v2 = irq_context (v1\<lparr>shifter := (shifter v1)\<lparr>shift_active := False\<rparr>,
      sio_stat := sio_stat v1 OR SIO_STAT_RX_RDY,
      counts := (counts v1)\<lparr>pace_shift_completes := pace_shift_completes (counts v1) + 1\<rparr>\<rparr>)"
  define v3 where "v3 = (if has (sio_stat v) SIO_STAT_ACK
      then v2\<lparr>shifter := (shifter v2)\<lparr>pending_ack := True, ack_remaining := SIO_ACK_CYCLES_DEFAULT,
                                     pending_ack_irq_en := shift_ack_irq_en (shifter v2)\<rparr>\<rparr> else v2)"
  have v2: "shifter v2 = (shifter s)\<lparr>shift_active := False\<rparr>" "card_view v2 = card_view v" "sio_port v2 = sio_port s"
    by (simp_all add: v2_def v1_def irq_context_def v card_view_def)
  have v3: "shifter v3 = (if has (sio_stat v) SIO_STAT_ACK
        then (shifter s)\<lparr>shift_active := False, pending_ack := True, ack_remaining := SIO_ACK_CYCLES_DEFAULT,
                        pending_ack_irq_en := shift_ack_irq_en (shifter s)\<rparr>
        else (shifter s)\<lparr>shift_active := False\<rparr>)" "card_view v3 = card_view v" "sio_port v3 = sio_port s"
    using v2 by (simp_all add: v3_def card_view_def)
  have nb: "\<not> tx_buffered (shifter v3)" using assms by (simp add: v3)
  have eq: "sio_handle_shift_complete e s = (tx_ready v3)\<lparr>shifter := shift_gate (shifter (tx_ready v3))\<rparr>"
    unfolding sio_handle_shift_complete_def sio_consume_ack_event_def Let_def prod.case
      b_def [symmetric] s0_def [symmetric] u_def [symmetric] v_def [symmetric]
      v1_def [symmetric] v2_def [symmetric] v3_def [symmetric] using nb by simp
  have tr: "shifter (tx_ready v3) = shifter v3" "card_view (tx_ready v3) = card_view v" "sio_port (tx_ready v3) = sio_port s"
    using v3 by (simp_all add: tx_ready_def card_view_def)
  show ?thesis
    by (rule that [of u v]) (use u tr v3 in \<open>simp_all add: v_def b_def eq card_view_def\<close>)
qed

text \<open>A card acknowledges exactly while its transaction goes on.\<close>

lemma mc_ack_iff:
  assumes "mc_state (mcw s) \<noteq> MC_IDLE" "\<not> has (sio_stat s) SIO_STAT_ACK"
  shows "has (sio_stat (mc_process_byte e b s)) SIO_STAT_ACK \<longleftrightarrow> mc_state (mcw (mc_process_byte e b s)) \<noteq> MC_IDLE"
proof -
  have [simp]: "mcw (raise_ack t) = mcw t" "mcw (set_rx x t) = mcw t" "mcw (byte_done t) = mcw t" for t x
    by (simp_all add: raise_ack_def set_rx_def byte_done_def)
  have [simp]: "has (sio_stat (mc_answer st x t)) SIO_STAT_ACK" "sio_stat (mc_stop x t) = sio_stat t" for st x t
    by (simp_all add: mc_answer_def mc_stop_def set_rx_def)
  note [simp] = Let_def mc_process_byte_def
  show ?thesis
  proof (cases "mc_state (mcw s)")
    case MC_CMD then show ?thesis using assms by (simp add: mc_command_def) next
    case MC_ADDR_LSB then show ?thesis by (simp add: mc_address_def) next
    case MC_READ_DATA then show ?thesis by (simp add: mc_read_data_def) next
    case MC_READ_END then show ?thesis using assms by (simp add: mc_read_end_def) next
    case MC_WRITE_DATA then show ?thesis by (simp add: mc_write_data_def mc_store_def) next
    case MC_WRITE_CHK then show ?thesis by (simp add: mc_write_chk_def)
  qed (use assms in simp_all)
qed

lemma has_and_less: "\<not> has w m \<Longrightarrow> \<not> has (w AND y) m"
proof -
  assume "\<not> has w m"
  moreover have "(w AND y) AND m = (w AND m) AND y" by (rule bit_word_eqI) (auto simp: bit_simps)
  ultimately show ?thesis by (simp add: has_def)
qed

lemma send_byte_card:
  assumes "bus_open s" "active_device s = DEV_MEMCARD" "\<not> shift_active (shifter s)"
  shows "mcw (send_byte e b s) = mcw s \<and> mcards (send_byte e b s) = mcards s
     \<and> card_busy k (send_byte e b s) = card_busy k s \<and> sio_port (send_byte e b s) = sio_port s
     \<and> \<not> has (sio_stat (send_byte e b s)) SIO_STAT_ACK \<and> sio_ctrl (send_byte e b s) = sio_ctrl s
     \<and> irqs (send_byte e b s) = irqs s
     \<and> (\<exists>h. shifter (send_byte e b s) = h \<and> shift_active h \<and> shift_byte h = b \<and> shift_remaining h = 1088
          \<and> shift_ack_irq_en h \<and> timing_active h \<and> tx_buffered h = tx_buffered (shifter s)
          \<and> pending_ack h = pending_ack (shifter s))"
proof -
  define u where "u = (sio_debug_poll_maybe s)\<lparr>diag := LogSioWrite 0x1F801040 (ucast b) # diag (sio_debug_poll_maybe s),
      sio_tx_data := b, counts := (counts (sio_debug_poll_maybe s))
        \<lparr>tx_writes := tx_writes (counts (sio_debug_poll_maybe s)) + 1, last_ctrl_on_tx := sio_ctrl s\<rparr>\<rparr>"
  have u: "active_device u = active_device s" "mcw u = mcw s" "mcards u = mcards s" "sio_port u = sio_port s"
    "sio_ctrl u = sio_ctrl s" "sio_stat u = sio_stat s" "shifter u = shifter s" "irqs u = irqs s"
    "card_busy k u = card_busy k s"
    by (simp_all add: u_def sio_debug_poll_maybe_def Let_def card_busy_def)
  have o: "has (sio_ctrl s) SIO_CTRL_TX_EN" "has (sio_ctrl s) SIO_CTRL_ACK_IRQ_EN" "\<not> irq_pending (irqs s)"
    "\<not> has (sio_stat s) SIO_STAT_ACK"
    using assms(1) by (simp_all add: bus_open_def)
  have slow: "\<not> pad_fast_path b u" using assms(2) by (simp add: pad_fast_path_def u)
  define w where "w = write_tx_shift b u"
  have "write_tx_data e (ucast b) ((sio_debug_poll_maybe s)\<lparr>diag := LogSioWrite 0x1F801040 (ucast b) # diag (sio_debug_poll_maybe s)\<rparr>) = w"
    using slow o(1) by (simp add: write_tx_data_def Let_def u_def sio_debug_poll_maybe_def w_def)
  then have "send_byte e b s = sio_tick e 0 w" by (simp add: send_byte_def sio_write_def Let_def)
  moreover have iw: "irqs w = irqs s" using assms(3) by (simp add: w_def write_tx_shift_def Let_def u)
  ultimately have sb: "send_byte e b s = w" using o(3) by (simp add: sio_tick_def legacy_countdown_idle)
  have "\<not> has (sio_stat w) SIO_STAT_ACK"
    using o(4) assms(3) by (simp add: w_def write_tx_shift_def Let_def u has_and_less)
  then show ?thesis
    using iw assms(3) u o(2)
    by (simp add: sb) (simp add: w_def write_tx_shift_def Let_def card_busy_def SIO_BAUD_CYCLES_DEFAULT_def)
qed

lemma fire_ack_parts:
  assumes "pending_ack_irq_en (shifter s)"
  shows "card_view (sio_fire_ack_irq e s) = card_view s"
    "i_stat (sio_port (sio_fire_ack_irq e s)) = i_stat (sio_port s) OR push_bit 7 1"
    "shifter (sio_fire_ack_irq e s) = shift_gate ((shifter s)\<lparr>pending_ack_irq_en := False\<rparr>)"
  using assms
  by (simp_all add: sio_fire_ack_irq_def Let_def card_view_def irq_ring_put_def raise_sio_irq_def raise_ack_def IRQ_SIO0_def)

text \<open>The three kinds of step of the pacing loop: a shift that ends, an acknowledge that falls due,
  nothing left to do.\<close>

lemma pace_shift_done:
  assumes "shift_active (shifter w)" "\<not> pending_ack (shifter w)" "0 < shift_remaining (shifter w)"
    "shift_remaining (shifter w) < n"
  shows "pace_loop (Suc k) e n w = pace_loop k e (n - shift_remaining (shifter w))
           (sio_handle_shift_complete e (w\<lparr>shifter := (shifter w)\<lparr>shift_remaining := 0\<rparr>\<rparr>))"
  using assms by (simp add: pace_next_def pace_elapse_def pace_fire_def Let_def)

lemma pace_ack_due:
  assumes "\<not> shift_active (shifter w)" "pending_ack (shifter w)" "0 < ack_remaining (shifter w)"
    "ack_remaining (shifter w) < n"
  shows "pace_loop (Suc k) e n w = pace_loop k e (n - ack_remaining (shifter w))
           (sio_fire_ack_irq e (w\<lparr>shifter := (shifter w)\<lparr>ack_remaining := 0, pending_ack := False\<rparr>\<rparr>))"
  using assms by (simp add: pace_next_def pace_elapse_def pace_fire_def Let_def)

lemma pace_rest:
  assumes "\<not> shift_active (shifter w)" "\<not> pending_ack (shifter w)" "0 < n"
  shows "pace_loop (Suc k) e n w = w"
  using assms by (simp add: pace_next_def pace_elapse_def Let_def)

text \<open>The end of a byte's shift inside a card transaction.\<close>

lemma shift_complete_card:
  assumes "card_busy k x" "mc_state (mcw x) \<noteq> MC_IDLE" "\<not> has (sio_stat x) SIO_STAT_ACK"
    "\<not> tx_buffered (shifter x)"
  shows "card_view (sio_handle_shift_complete e x) = card_spec e k (shift_byte (shifter x)) (mcw x, mcards x)"
    and "sio_port (sio_handle_shift_complete e x) = sio_port x"
    and "shifter (sio_handle_shift_complete e x) = shift_gate
       (if mc_state (mcw (sio_handle_shift_complete e x)) \<noteq> MC_IDLE
        then (shifter x)\<lparr>shift_active := False, pending_ack := True, ack_remaining := SIO_ACK_CYCLES_DEFAULT,
                        pending_ack_irq_en := shift_ack_irq_en (shifter x)\<rparr>
        else (shifter x)\<lparr>shift_active := False\<rparr>)"
proof -
  define b where "b = shift_byte (shifter x)"
  define y where "y = sio_handle_shift_complete e x"
  obtain u v where uv: "mcw u = mcw x" "mcards u = mcards x" "card_busy k u"
    "v = sio_process_byte e b u" "\<not> has (sio_stat u) SIO_STAT_ACK" "card_view y = card_view v"
    "shifter y = shift_gate (if has (sio_stat v) SIO_STAT_ACK
        then (shifter x)\<lparr>shift_active := False, pending_ack := True, ack_remaining := SIO_ACK_CYCLES_DEFAULT,
                        pending_ack_irq_en := shift_ack_irq_en (shifter x)\<rparr>
        else (shifter x)\<lparr>shift_active := False\<rparr>)"
    "sio_port y = sio_port x"
    by (rule shift_complete_parts [OF assms(4), of k e, folded y_def]) (use assms b_def in metis)
  have ne: "mc_state (mcw u) \<noteq> MC_IDLE" using uv(1) assms(2) by simp
  have view: "card_view v = card_spec e k b (mcw x, mcards x)"
    using process_card_byte(1) [OF uv(3) ne, of e b] uv(1,2,4) by simp
  have "has (sio_stat v) SIO_STAT_ACK \<longleftrightarrow> mc_state (mcw v) \<noteq> MC_IDLE"
    using mc_ack_iff [OF ne uv(5), of e b] uv(3,4) ne
    by (simp add: sio_process_byte_def byte_dispatch_def byte_memcard_def card_busy_def Let_def)
  moreover have "mcw v = mcw y" using uv(6) by (simp add: card_view_def)
  ultimately have ack: "has (sio_stat v) SIO_STAT_ACK \<longleftrightarrow> mc_state (mcw y) \<noteq> MC_IDLE" by simp
  show "card_view (sio_handle_shift_complete e x) = card_spec e k (shift_byte (shifter x)) (mcw x, mcards x)"
    using view uv(6) unfolding y_def b_def by (simp del: card_spec.simps)
  show "sio_port (sio_handle_shift_complete e x) = sio_port x" using uv(8) by (simp add: y_def)
  show "shifter (sio_handle_shift_complete e x) = shift_gate
       (if mc_state (mcw (sio_handle_shift_complete e x)) \<noteq> MC_IDLE
        then (shifter x)\<lparr>shift_active := False, pending_ack := True, ack_remaining := SIO_ACK_CYCLES_DEFAULT,
                        pending_ack_irq_en := shift_ack_irq_en (shifter x)\<rparr>
        else (shifter x)\<lparr>shift_active := False\<rparr>)"
    using uv(7) unfolding ack y_def [symmetric] .
qed

text \<open>C28: A byte written on an open and idle port to a card in the middle of a transaction is delivered by
  one advance of strictly more than 1258 cycles (one byte and one acknowledge): afterwards the receive register, the
  card's protocol state and its contents are exactly what the protocol specification says, the IRQ7
  bit is raised exactly when the transaction goes on, and the port is idle again. An advance that
  ends exactly on the deadline does not deliver.\<close>

theorem sio_card_byte_delivered:
  assumes "sio_ok s" and "card_busy k s" and "mc_state (mcw s) \<noteq> MC_IDLE" and "bus_open s"
    and "\<not> shift_active (shifter s)" and "\<not> pending_ack (shifter s)"
    and "1258 < unat c" and "c \<le> max_advance"
  shows "let t = sio_advance e' c (send_byte e b s)
         in card_view t = card_spec e' k b (mcw s, mcards s) \<and> \<not> timing_active (shifter t)
            \<and> i_stat (sio_port t) = (if mc_state (mcw t) = MC_IDLE then i_stat (sio_port s)
                                     else i_stat (sio_port s) OR push_bit 7 1)"
proof -
  have dev: "active_device s = DEV_MEMCARD" using assms(2) by (simp add: card_busy_def)
  have nb: "\<not> tx_buffered (shifter s)" using assms(1,5) by (auto simp: sio_ok_def shift_ok_def)
  define w0 where "w0 = send_byte e b s"
  define n where "n = int (unat c)"
  have n: "n > 1258" unfolding n_def using assms(7) by linarith
  have c: "sint c = n" "c \<noteq> 0" using assms(7) sint_small [OF assms(8)] by (auto simp: n_def)
  note w0 = send_byte_card [OF assms(4) dev assms(5), where e = e and b = b and k = k, folded w0_def]
  define w where "w = w0\<lparr>counts := (counts w0)\<lparr>advance_called := advance_called (counts w0) + 1,
        advance_with_work := advance_with_work (counts w0) + 1\<rparr>\<rparr>"
  define h where "h = shifter w"
  have h: "shift_active h" "shift_byte h = b" "shift_remaining h = 1088" "shift_ack_irq_en h" "timing_active h"
    "\<not> tx_buffered h" "\<not> pending_ack h"
    using w0 nb assms(6) by (auto simp: h_def w_def)
  define x where "x = w\<lparr>shifter := h\<lparr>shift_remaining := 0\<rparr>\<rparr>"
  define y where "y = sio_handle_shift_complete e' x"
  have "sio_advance e' c w0 = pace_loop (Suc (Suc (Suc 5))) e' n w"
    using h(5) c by (simp add: sio_advance_def Let_def w_def h_def MAX_TRANSITIONS_def del: pace_loop.simps)
  also have "\<dots> = pace_loop (Suc (Suc 5)) e' (n - 1088) y"
    using pace_shift_done [of w n "Suc (Suc 5)" e'] h n by (simp add: h_def x_def y_def del: pace_loop.simps)
  finally have l1: "sio_advance e' c w0 = pace_loop (Suc (Suc 5)) e' (n - 1088) y" .
  have hx: "card_busy k x" "mc_state (mcw x) \<noteq> MC_IDLE" "\<not> has (sio_stat x) SIO_STAT_ACK" "\<not> tx_buffered (shifter x)"
    and x: "shifter x = h\<lparr>shift_remaining := 0\<rparr>" "sio_port x = sio_port s" "mcw x = mcw s" "mcards x = mcards s"
    using h w0 assms(2,3) by (simp_all add: x_def w_def card_busy_def)
  note y = shift_complete_card [OF hx, of e', folded y_def]
  have view: "card_view y = card_spec e' k b (mcw s, mcards s)" using y(1) x h by simp
  show ?thesis
  proof (cases "mc_state (mcw y) = MC_IDLE")
    case True
    then have g: "shifter y = h\<lparr>shift_remaining := 0, shift_active := False, timing_active := False\<rparr>"
      using h y(3) by (simp add: x shift_gate_def)
    then have "sio_advance e' c w0 = y" unfolding l1 using n h by (intro pace_rest) simp_all
    then show ?thesis using True view g y(2) x by (simp add: w0_def [symmetric] Let_def del: card_spec.simps)
  next
    case False
    then have g: "shifter y = h\<lparr>shift_remaining := 0, shift_active := False, pending_ack := True,
        ack_remaining := 170, pending_ack_irq_en := True\<rparr>"
      using h y(3) by (simp add: x shift_gate_def SIO_ACK_CYCLES_DEFAULT_def)
    define z0 where "z0 = y\<lparr>shifter := (shifter y)\<lparr>ack_remaining := 0, pending_ack := False\<rparr>\<rparr>"
    define z where "z = sio_fire_ack_irq e' z0"
    have en: "pending_ack_irq_en (shifter z0)" by (simp add: z0_def g)
    note f = fire_ack_parts [OF en, of e', folded z_def]
    have sz: "shifter z = h\<lparr>shift_remaining := 0, shift_active := False, pending_ack := False, ack_remaining := 0,
        pending_ack_irq_en := False, timing_active := False\<rparr>"
      using h by (simp add: f(3) z0_def g shift_gate_def)
    have "sio_advance e' c w0 = pace_loop (Suc 5) e' (n - 1258) z"
      unfolding l1 using pace_ack_due [of y "n - 1088" "Suc 5" e'] n g by (simp add: z0_def z_def del: pace_loop.simps)
    also have "\<dots> = z" using n sz h by (intro pace_rest) simp_all
    finally have "sio_advance e' c w0 = z" .
    moreover have v: "card_view z = card_view y" using f(1) by (simp add: z0_def card_view_def)
    moreover from this have "mcw z = mcw y" by (simp add: card_view_def)
    moreover have "i_stat (sio_port z) = i_stat (sio_port s) OR push_bit 7 1" using f(2) y(2) x by (simp add: z0_def)
    ultimately show ?thesis
      using False view sz by (simp add: w0_def [symmetric] Let_def del: card_spec.simps)
  qed
qed

text \<open>A card that has just been selected, with the port open, and the same card while its command
  byte is being shifted.\<close>

definition demo_busy :: sio_st where
  "demo_busy = (sio_process_byte demo_sio_env 0x81
     (demo_pad\<lparr>sio_ctrl := SIO_CTRL_TX_EN OR SIO_CTRL_SELECT OR SIO_CTRL_ACK_IRQ_EN\<rparr>))
     \<lparr>sio_stat := SIO_STAT_TX_RDY\<rparr>"

definition demo_shifting :: sio_st where
  "demo_shifting = send_byte demo_sio_env 0x52 demo_busy"

lemma demo_busy_facts:
  "sio_ok demo_busy" "card_busy 0 demo_busy" "mc_state (mcw demo_busy) \<noteq> MC_IDLE" "bus_open demo_busy"
  "\<not> shift_active (shifter demo_busy)" "\<not> pending_ack (shifter demo_busy)" "active_device demo_busy = DEV_MEMCARD"
proof -
  define s where "s = demo_pad\<lparr>sio_ctrl := SIO_CTRL_TX_EN OR SIO_CTRL_SELECT OR SIO_CTRL_ACK_IRQ_EN\<rparr>"
  have c: "has (SIO_CTRL_TX_EN OR SIO_CTRL_SELECT OR SIO_CTRL_ACK_IRQ_EN) SIO_CTRL_TX_EN"
    "has (SIO_CTRL_TX_EN OR SIO_CTRL_SELECT OR SIO_CTRL_ACK_IRQ_EN) SIO_CTRL_ACK_IRQ_EN"
    "\<not> has (SIO_CTRL_TX_EN OR SIO_CTRL_SELECT OR SIO_CTRL_ACK_IRQ_EN) SIO_CTRL_SLOT"
    by (simp_all add: has_def SIO_CTRL_TX_EN_def SIO_CTRL_SELECT_def SIO_CTRL_ACK_IRQ_EN_def SIO_CTRL_SLOT_def)
  have ok: "sio_ok s" by (simp add: s_def demo_pad_def sio_ok_init sio_ok_boot)
  have "card_ready 0 s"
    using c(3) by (simp add: card_ready_def s_def demo_pad_def sio_init_def sio_boot_def demo_cards_eq both_def
      mc_clear_def bus_release_def shift_idle_def)
  note sel = card_select [OF this, where e = demo_sio_env]
  show "sio_ok demo_busy" using sio_ok_process [OF ok] by (simp add: demo_busy_def s_def)
  show b: "card_busy 0 demo_busy" using sel by (simp add: demo_busy_def s_def card_busy_def)
  then show "active_device demo_busy = DEV_MEMCARD" by (simp add: card_busy_def)
  show "mc_state (mcw demo_busy) \<noteq> MC_IDLE" using sel by (simp add: demo_busy_def s_def)
  have sh: "shifter demo_busy = shifter demo_pad" "irqs demo_busy = irqs demo_pad"
    "sio_ctrl demo_busy = (SIO_CTRL_TX_EN OR SIO_CTRL_SELECT OR SIO_CTRL_ACK_IRQ_EN)"
    by (simp_all add: demo_busy_def process_frame)
  show "bus_open demo_busy"
    using c by (simp add: bus_open_def sh) (simp add: demo_busy_def demo_pad_def sio_init_def irq_disarm_def)
  show "\<not> shift_active (shifter demo_busy)" "\<not> pending_ack (shifter demo_busy)"
    by (simp_all add: sh demo_pad_def sio_init_def bus_release_def shift_idle_def)
qed

theorem sio_card_byte_delivered_witness:
  "let t = sio_advance demo_sio_env 2000 (send_byte demo_sio_env 0x52 demo_busy)
   in \<not> timing_active (shifter t) \<and> card_view t = card_spec demo_sio_env 0 0x52 (mcw demo_busy, mcards demo_busy)"
proof -
  have "1258 < unat (2000 :: u32)" "(2000 :: u32) \<le> max_advance" by (simp_all add: max_advance_def)
  from sio_card_byte_delivered [OF demo_busy_facts(1-6) this, where e = demo_sio_env and e' = demo_sio_env and b = "0x52"]
  show ?thesis unfolding Let_def by blast
qed

lemma demo_shifting_facts:
  "sio_ok demo_shifting" "shift_active (shifter demo_shifting)" "\<not> pending_ack (shifter demo_shifting)"
  "shift_remaining (shifter demo_shifting) = 1088" "timing_active (shifter demo_shifting)"
  "\<not> irq_pending (irqs demo_shifting)"
proof -
  show ok: "sio_ok demo_shifting" unfolding demo_shifting_def send_byte_def by (rule sio_ok_write [OF demo_busy_facts(1)])
  from send_byte_card [OF demo_busy_facts(4,7,5), where e = demo_sio_env and b = "0x52" and k = 0, folded demo_shifting_def]
  show "shift_active (shifter demo_shifting)" "\<not> pending_ack (shifter demo_shifting)"
    "shift_remaining (shifter demo_shifting) = 1088" "timing_active (shifter demo_shifting)"
    using demo_busy_facts(6) by auto
  show "\<not> irq_pending (irqs demo_shifting)" using ok by (simp add: sio_ok_def)
qed

theorem sio_due_event_hidden_witness:
  "sio_cycles_to_irq 0x80 (sio_advance demo_sio_env 1088 demo_shifting) = 0xFFFFFFFF"
proof -
  have "shift_remaining (shifter demo_shifting) = int (unat (1088 :: u32))" by (simp add: demo_shifting_facts)
  from sio_due_event_hidden [OF demo_shifting_facts(1-3) this, where e = demo_sio_env and m = "0x80"] show ?thesis
    by (simp add: Let_def)
qed

theorem sio_horizon_safe_witness:
  "sio_port (fold (sio_advance demo_sio_env) [500] demo_shifting) = sio_port demo_shifting
   \<and> shift_remaining (shifter (fold (sio_advance demo_sio_env) [500] demo_shifting)) = 588"
proof -
  have "sio_pending_ahead demo_shifting" by (simp add: sio_pending_ahead_def demo_shifting_facts)
  moreover have "quiet_chunks (sio_advance demo_sio_env) sio_cycles_to_irq 0x80 [500] demo_shifting"
    by (simp add: sio_cycles_to_irq_def demo_shifting_facts max_advance_def has_def)
  moreover have "has (0x80 :: u32) (push_bit 7 1)" by (simp add: has_def)
  ultimately obtain cn where "fold (sio_advance demo_sio_env) [500] demo_shifting = demo_shifting\<lparr>counts := cn,
      shifter := (shifter demo_shifting)\<lparr>shift_remaining := 588,
        ack_remaining := ack_remaining (shifter demo_shifting)\<rparr>\<rparr>"
    using sio_horizon_safe [where s = demo_shifting and e = demo_sio_env and m = "0x80" and cs = "[500]", OF _ _ _ refl refl]
    by (auto simp: demo_shifting_facts)
  then show ?thesis by simp
qed

text \<open>A snapshot forgets that the game has locked the pad's mode: the lock of the running machine
  stays in force after a restore.\<close>

lemma sio_snapshot_keeps_lock:
  "analog_mode_locked (pads (snd (sio_snapshot_read True p s))) = analog_mode_locked (pads s)"
  by (simp add: sio_snapshot_read_def)

end
