(* ===== verification/Scheduler.thy ===== *)
theory Scheduler
  imports Timers Dma_Props Sio_Props
begin

text \<open>
  The guest clock and its device scheduler (\<open>psx_cycles.c\<close>) with the VBlank part of
  \<open>interrupts.c\<close>, composed with the models of the serial port, the DMA controller and the root
  counters.

  The machine holds the file's static variables and the device states. Every device model carries
  the interrupt port it raises into; \<open>on_sio\<close>, \<open>on_dma\<close> and \<open>on_timers\<close> lend the machine's one
  port to the device for the duration of a call. The CD-ROM controller and the GPU are parameters
  acting on the DMA side of the machine, which holds memory, the decoders and the external devices.
  \<open>PSX_ENABLE_BLOCK_CYCLES\<close> is on and \<open>PSX_COSIM\<close> off, as in the native build.
\<close>

section \<open>The machine\<close>

record ('d, 'x) machine =
  cycle_count :: u64
  watchdog_throttle :: u32
  pc_sample_throttle :: u32
  watchdog_checks :: nat
  pc_samples :: nat
  event_step_conservative :: bool
  ls_replay_active :: bool
  devices_synced :: u64
  next_service :: u64
  in_device_service :: bool
  cycles_since_vblank :: u32
  dispatch_count :: u32
  in_exception :: bool
  last_sio_seq_seen :: u32
  last_sio_progress :: u64
  vblank_raise_count :: u64
  m_i_mask :: u32
  m_mmio_count :: u64
  m_port :: irq_port
  m_sio :: sio_st
  m_dma :: "('d, 'x) dma_st"
  m_timers :: timers_st

record ('d, 'x) mach_env =
  me_sio :: "u64 \<Rightarrow> sio_env"
  me_dma :: "('d, 'x) dma_env"
  me_cd_advance :: "u64 \<Rightarrow> u32 \<Rightarrow> ('d, 'x) dma_st \<Rightarrow> ('d, 'x) dma_st"
  me_cd_cycles :: "u32 \<Rightarrow> ('d, 'x) dma_st \<Rightarrow> u32"
  me_gpu_vblank :: "('d, 'x) dma_st \<Rightarrow> ('d, 'x) dma_st"

definition on_sio :: "(sio_st \<Rightarrow> sio_st) \<Rightarrow> ('d, 'x) machine \<Rightarrow> ('d, 'x) machine" where
  "on_sio f m = (let s = f ((m_sio m)\<lparr>sio_port := m_port m\<rparr>) in m\<lparr>m_sio := s, m_port := sio_port s\<rparr>)"

definition on_dma :: "(('d, 'x) dma_st \<Rightarrow> ('d, 'x) dma_st) \<Rightarrow> ('d, 'x) machine \<Rightarrow> ('d, 'x) machine" where
  "on_dma f m = (let s = f ((m_dma m)\<lparr>d_irq := m_port m\<rparr>) in m\<lparr>m_dma := s, m_port := d_irq s\<rparr>)"

definition on_timers :: "(timers_st \<Rightarrow> timers_st) \<Rightarrow> ('d, 'x) machine \<Rightarrow> ('d, 'x) machine" where
  "on_timers f m = (let s = f ((m_timers m)\<lparr>port := m_port m\<rparr>) in m\<lparr>m_timers := s, m_port := port s\<rparr>)"

definition on_port :: "(irq_port \<Rightarrow> irq_port) \<Rightarrow> ('d, 'x) machine \<Rightarrow> ('d, 'x) machine" where
  "on_port f m = m\<lparr>m_port := f (m_port m)\<rparr>"

section \<open>VBlank pacing\<close>

definition VBLANK_CYCLES :: u32 where "VBLANK_CYCLES = 564480"
definition VBLANK_DEFER_STALE_CYCLES :: u64 where "VBLANK_DEFER_STALE_CYCLES = 564480 * 10"

abbreviation (input) EV_ISTAT_RAISE :: u16 where "EV_ISTAT_RAISE \<equiv> 3"
abbreviation (input) SRC_VBLANK :: u8 where "SRC_VBLANK \<equiv> 16"

definition note_sio_progress_cycle :: "('d, 'x) machine \<Rightarrow> ('d, 'x) machine" where
  "note_sio_progress_cycle m =
     (let cur = trace_seq (rings (m_sio m))
      in if cur \<noteq> last_sio_seq_seen m
         then m\<lparr>last_sio_seq_seen := cur, last_sio_progress := cycle_count m\<rparr> else m)"

definition should_defer_vblank_for_sio :: "('d, 'x) machine \<Rightarrow> bool" where
  "should_defer_vblank_for_sio m =
     (if \<not> sio_card_protocol_active (m_sio m) then False
      else let now = cycle_count m;
               since_progress = (if now \<ge> last_sio_progress m then now - last_sio_progress m else 0)
           in since_progress < VBLANK_DEFER_STALE_CYCLES)"

definition fire_vblank_edge :: "('d, 'x) mach_env \<Rightarrow> ('d, 'x) machine \<Rightarrow> ('d, 'x) machine" where
  "fire_vblank_edge e m =
     (let m = m\<lparr>cycles_since_vblank := cycles_since_vblank m - VBLANK_CYCLES, dispatch_count := 0\<rparr>;
          m = on_port (event_ring_record_aux EV_DEQ SRC_VBLANK (ucast (cycle_count m))) m;
          m = on_port (event_ring_record_aux EV_ENQ SRC_VBLANK (ucast (cycle_count m + ucast VBLANK_CYCLES))) m;
          m = on_port (psx_irq_raise 0 0) m;
          m = m\<lparr>vblank_raise_count := vblank_raise_count m + 1\<rparr>;
          m = on_port (event_ring_record_aux EV_ISTAT_RAISE 0 0) m
      in on_dma (me_gpu_vblank e) m)"

lemma since_fire [simp]: "cycles_since_vblank (fire_vblank_edge e m) = cycles_since_vblank m - VBLANK_CYCLES"
  by (simp add: fire_vblank_edge_def Let_def on_port_def on_dma_def)

function vblank_loop :: "('d, 'x) mach_env \<Rightarrow> ('d, 'x) machine \<Rightarrow> ('d, 'x) machine" where
  "vblank_loop e m =
     (if cycles_since_vblank m \<ge> VBLANK_CYCLES
      then if should_defer_vblank_for_sio m then m else vblank_loop e (fire_vblank_edge e m)
      else m)"
  by pat_completeness auto

termination
proof (relation "measure (\<lambda>(e, m). unat (cycles_since_vblank m))", goal_cases)
  case (2 e m)
  then have "unat (cycles_since_vblank m - VBLANK_CYCLES) = unat (cycles_since_vblank m) - unat VBLANK_CYCLES"
    by (simp add: unat_sub)
  moreover have "0 < unat VBLANK_CYCLES" "unat VBLANK_CYCLES \<le> unat (cycles_since_vblank m)"
    using 2 by (simp_all add: VBLANK_CYCLES_def word_le_nat_alt)
  ultimately show ?case by simp
qed simp

declare vblank_loop.simps [simp del]

definition interrupts_service_scheduled_events :: "('d, 'x) mach_env \<Rightarrow> ('d, 'x) machine \<Rightarrow> ('d, 'x) machine" where
  "interrupts_service_scheduled_events e m =
     (let m = note_sio_progress_cycle m in if in_exception m then m else vblank_loop e m)"

definition interrupts_cycles_to_vblank :: "('d, 'x) machine \<Rightarrow> u32" where
  "interrupts_cycles_to_vblank m =
     (if cycles_since_vblank m \<ge> VBLANK_CYCLES then 0 else VBLANK_CYCLES - cycles_since_vblank m)"

definition interrupts_advance_cycles :: "('d, 'x) mach_env \<Rightarrow> u32 \<Rightarrow> ('d, 'x) machine \<Rightarrow> ('d, 'x) machine" where
  "interrupts_advance_cycles e cycles m =
     interrupts_service_scheduled_events e (m\<lparr>cycles_since_vblank := cycles_since_vblank m + cycles\<rparr>)"

section \<open>Advancing the devices\<close>

definition advance_devices :: "('d, 'x) mach_env \<Rightarrow> u32 \<Rightarrow> ('d, 'x) machine \<Rightarrow> ('d, 'x) machine" where
  "advance_devices e c m =
     (let m = m\<lparr>cycle_count := cycle_count m + ucast c\<rparr>;
          m = on_sio (sio_advance (me_sio e (cycle_count m)) c) m;
          m = on_dma (me_cd_advance e (cycle_count m) c) m;
          m = on_dma (dma_advance (me_dma e) c) m;
          m = on_timers (timers_advance c) m
      in interrupts_advance_cycles e c m)"

text \<open>The nearest event: \<open>t < best\<close> keeps the smaller of the two.\<close>

definition nearer :: "u32 \<Rightarrow> u32 \<Rightarrow> u32" where
  "nearer t best = (if t < best then t else best)"

definition devices_cycles_to_next_internal_event :: "('d, 'x) mach_env \<Rightarrow> ('d, 'x) machine \<Rightarrow> u32" where
  "devices_cycles_to_next_internal_event e m =
     (let best = interrupts_cycles_to_vblank m;
          best = nearer (timers_cycles_to_irq 0xFFFFFFFF (m_timers m)) best;
          best = nearer (me_cd_cycles e 0xFFFFFFFF (m_dma m)) best;
          best = nearer (dma_cycles_to_irq 0xFFFFFFFF (m_dma m)) best;
          best = nearer (sio_cycles_to_irq 0xFFFFFFFF (m_sio m)) best
      in if best = 0 then 1 else best)"

definition devices_cycles_to_next_idle_event :: "('d, 'x) mach_env \<Rightarrow> ('d, 'x) machine \<Rightarrow> u32" where
  "devices_cycles_to_next_idle_event e m =
     (let best = interrupts_cycles_to_vblank m;
          best = nearer (timers_cycles_to_irq (m_i_mask m) (m_timers m)) best;
          best = nearer (me_cd_cycles e (m_i_mask m) (m_dma m)) best;
          best = nearer (dma_cycles_to_deliverable_irq (m_i_mask m) (m_dma m)) best;
          best = nearer (sio_cycles_to_irq (m_i_mask m) (m_sio m)) best
      in if best = 0 then 1 else best)"

definition PSX_DEADLINE_HARD_CAP :: u32 where "PSX_DEADLINE_HARD_CAP = 16384"

definition psx_devices_recompute_deadline :: "('d, 'x) mach_env \<Rightarrow> ('d, 'x) machine \<Rightarrow> ('d, 'x) machine" where
  "psx_devices_recompute_deadline e m =
     (let next = devices_cycles_to_next_internal_event e m;
          next = (if next > PSX_DEADLINE_HARD_CAP then PSX_DEADLINE_HARD_CAP else next)
      in m\<lparr>next_service := cycle_count m + ucast next\<rparr>)"

text \<open>The clock is moved by \<open>advance_devices\<close> alone.\<close>

lemma count_fire [simp]: "cycle_count (fire_vblank_edge e m) = cycle_count m"
  by (simp add: fire_vblank_edge_def Let_def on_port_def on_dma_def)

lemma count_vblank_loop [simp]: "cycle_count (vblank_loop e m) = cycle_count m"
  by (induction e m rule: vblank_loop.induct) (subst vblank_loop.simps, simp)

lemma count_service_events [simp]: "cycle_count (interrupts_service_scheduled_events e m) = cycle_count m"
  by (simp add: interrupts_service_scheduled_events_def Let_def note_sio_progress_cycle_def)

lemma count_advance_devices [simp]: "cycle_count (advance_devices e c m) = cycle_count m + ucast c"
  by (simp add: advance_devices_def interrupts_advance_cycles_def Let_def on_timers_def on_dma_def on_sio_def)

text \<open>The length of the next chunk of a replay with \<open>remaining\<close> cycles to go.\<close>

definition service_step :: "u32 \<Rightarrow> u32 \<Rightarrow> u32" where
  "service_step remaining to_ev =
     (let step = (if to_ev > 0 \<and> to_ev < remaining then to_ev else remaining) in if step = 0 then 1 else step)"

lemma unat_ucast64 [simp]: "unat (ucast w :: u64) = unat w" for w :: u32
  by (simp add: unsigned_ucast_eq take_bit_nat_eq_self less_trans [OF unsigned_less])

lemma service_step_bounds:
  fixes d :: u64
  assumes "0 < d"
  shows "0 < service_step (ucast d) to_ev" "ucast (service_step (ucast d) to_ev) \<le> d"
proof -
  show "0 < service_step (ucast d) to_ev" by (auto simp: service_step_def Let_def word_gt_0)
  have down: "unat (ucast d :: u32) \<le> unat d"
    by (simp add: unsigned_ucast_eq take_bit_nat_less_eq_self)
  show "ucast (service_step (ucast d) to_ev) \<le> d"
    using down assms
    by (auto simp: service_step_def Let_def word_le_nat_alt word_less_nat_alt)
qed

section \<open>Event-deadline servicing\<close>

lemma unat_less_64: "unat w < 18446744073709551616" for w :: u64
  using unsigned_less [where 'a = nat, of w] by simp

lemma service_step_count:
  fixes c tgt :: u64
  assumes "c < tgt"
  shows "unat (tgt - (c + ucast (service_step (ucast (tgt - c)) to_ev))) < unat (tgt - c)"
    and "c + ucast (service_step (ucast (tgt - c)) to_ev) \<le> tgt"
proof -
  define s where "s = (ucast (service_step (ucast (tgt - c)) to_ev) :: u64)"
  have "0 < tgt - c" using assms by (auto simp: word_gt_0)
  from service_step_bounds [OF this, of to_ev] have b: "0 < s" "s \<le> tgt - c"
    by (auto simp: s_def word_less_nat_alt)
  have e: "tgt - (c + s) = (tgt - c) - s" by (simp add: algebra_simps)
  show "unat (tgt - (c + s)) < unat (tgt - c)"
    using b by (simp add: e unat_sub word_less_nat_alt word_le_nat_alt)
  have "unat (tgt - c) = unat tgt - unat c" using assms by (simp add: unat_sub order_less_imp_le)
  then have "unat c + unat s \<le> unat tgt" using b(2) assms by (simp add: word_le_nat_alt word_less_nat_alt)
  then show "c + s \<le> tgt"
    using unat_add_lem [of c s] le_less_trans [OF _ unat_less_64 [of tgt]] by (simp add: word_le_nat_alt)
qed

function service_loop :: "('d, 'x) mach_env \<Rightarrow> u64 \<Rightarrow> ('d, 'x) machine \<Rightarrow> ('d, 'x) machine" where
  "service_loop e tgt m =
     (if cycle_count m < tgt
      then let remaining = ucast (tgt - cycle_count m);
               step = service_step remaining (devices_cycles_to_next_internal_event e m)
           in service_loop e tgt (interrupts_service_scheduled_events e (advance_devices e step m))
      else m)"
  by pat_completeness auto

termination
  by (relation "measure (\<lambda>(e, tgt, m). unat (tgt - cycle_count m))") (simp_all add: service_step_count)

declare service_loop.simps [simp del]

definition psx_devices_service_to_now :: "('d, 'x) mach_env \<Rightarrow> ('d, 'x) machine \<Rightarrow> ('d, 'x) machine" where
  "psx_devices_service_to_now e m =
     (if in_device_service m then m
      else let m = m\<lparr>in_device_service := True\<rparr>;
               tgt = cycle_count m;
               m = (if devices_synced m < tgt
                    then let m = m\<lparr>cycle_count := devices_synced m\<rparr>;
                             m = interrupts_service_scheduled_events e m;
                             m = service_loop e tgt m
                         in m\<lparr>devices_synced := tgt\<rparr>
                    else m);
               m = psx_devices_recompute_deadline e m
           in m\<lparr>in_device_service := False\<rparr>)"

definition psx_devices_mmio_sync :: "('d, 'x) mach_env \<Rightarrow> ('d, 'x) machine \<Rightarrow> ('d, 'x) machine" where
  "psx_devices_mmio_sync e m =
     (let m = (if devices_synced m \<noteq> cycle_count m then psx_devices_service_to_now e m else m)
      in m\<lparr>next_service := 0\<rparr>)"

section \<open>Charging cycles\<close>

definition exact_step :: "('d, 'x) machine \<Rightarrow> u32 \<Rightarrow> u32" where
  "exact_step m cycles =
     (let step = cycles;
          step = (if event_step_conservative m \<and> step > 1 then 1
                  else let to_vblank = interrupts_cycles_to_vblank m
                       in if to_vblank > 0 \<and> to_vblank < step then to_vblank else step)
      in if step = 0 then cycles else step)"

lemma exact_step_bounds: "0 < cycles \<Longrightarrow> 0 < exact_step m cycles \<and> exact_step m cycles \<le> cycles"
  by (auto simp: exact_step_def Let_def)

function exact_loop :: "('d, 'x) mach_env \<Rightarrow> u32 \<Rightarrow> ('d, 'x) machine \<Rightarrow> ('d, 'x) machine" where
  "exact_loop e cycles m =
     (if cycles > 0
      then let step = exact_step m cycles
           in exact_loop e (cycles - step) (interrupts_service_scheduled_events e (advance_devices e step m))
      else m)"
  by pat_completeness auto
termination
proof (relation "measure (\<lambda>(e, cycles, m). unat cycles)", goal_cases)
  case (2 e cycles m x)
  with exact_step_bounds [of cycles m] show ?case by (simp add: unat_sub word_less_nat_alt word_le_nat_alt)
qed simp

declare exact_loop.simps [simp del]

definition psx_advance_cycles_exact :: "('d, 'x) mach_env \<Rightarrow> u32 \<Rightarrow> ('d, 'x) machine \<Rightarrow> ('d, 'x) machine" where
  "psx_advance_cycles_exact e cycles m =
     (let m = exact_loop e cycles (interrupts_service_scheduled_events e m)
      in m\<lparr>devices_synced := cycle_count m, next_service := 0\<rparr>)"

definition watchdog_tick :: "u32 \<Rightarrow> ('d, 'x) machine \<Rightarrow> ('d, 'x) machine" where
  "watchdog_tick charged m =
     (let m = m\<lparr>watchdog_throttle := watchdog_throttle m + charged\<rparr>;
          m = (if watchdog_throttle m \<ge> 65536
               then m\<lparr>watchdog_throttle := 0, watchdog_checks := watchdog_checks m + 1\<rparr> else m);
          m = m\<lparr>pc_sample_throttle := pc_sample_throttle m + charged\<rparr>
      in if pc_sample_throttle m \<ge> 1048576
         then m\<lparr>pc_sample_throttle := 0, pc_samples := pc_samples m + 1\<rparr> else m)"

definition psx_advance_cycles :: "('d, 'x) mach_env \<Rightarrow> u32 \<Rightarrow> ('d, 'x) machine \<Rightarrow> ('d, 'x) machine" where
  "psx_advance_cycles e cycles m =
     (if ls_replay_active m then m
      else if cycles = 0 then m
      else watchdog_tick cycles
        (if event_step_conservative m then psx_advance_cycles_exact e cycles m
         else if in_device_service m then m\<lparr>cycle_count := cycle_count m + ucast cycles\<rparr>
         else let m = m\<lparr>cycle_count := cycle_count m + ucast cycles\<rparr>
              in if next_service m = 0 \<or> cycle_count m \<ge> next_service m
                 then psx_devices_service_to_now e m else m))"

definition psx_cycles_resync_after_restore :: "('d, 'x) machine \<Rightarrow> ('d, 'x) machine" where
  "psx_cycles_resync_after_restore m =
     m\<lparr>devices_synced := cycle_count m, next_service := 0, in_device_service := False\<rparr>"

end
