(* ===== verification/Timer_Regs.thy ===== *)
theory Timer_Regs
  imports Timers
begin

text \<open>
  What the root counters do to their own registers, whatever the other devices do to \<open>I_STAT\<close>
  between two advances. The cycle scheduler interleaves the devices, so its correctness for the
  counters is stated on \<open>timer_regs\<close>.
\<close>

text \<open>The registers of a timer, without the \<open>I_STAT\<close> bit it shares with the other devices: they
  do not depend on that bit.\<close>

definition timer_regs :: "nat \<Rightarrow> timers_st \<Rightarrow> u32 \<times> timer \<times> u64" where
  "timer_regs t s = (timer_frac s t, timers s t, g_timer_irq_fired s t)"

definition cell_regs :: "u32 \<times> timer_cell \<Rightarrow> u32 \<times> timer \<times> u64" where
  "cell_regs fc = (fst fc, fst (snd fc), fst (snd (snd fc)))"

lemma timer_regs_fcell: "timer_regs t s = cell_regs (timer_fcell t s)"
  by (simp add: timer_regs_def cell_regs_def timer_fcell_def timer_cell_def)

lemma cell_fire_regs: "\<exists>tm' n' r r'. cell_fire (tm, n, b) = (tm', n', r) \<and> cell_fire (tm, n, b') = (tm', n', r')"
  by (simp add: cell_fire.simps Let_def)

lemma cell_target_regs:
  "\<exists>tm' n' r r'. cell_at_target (tm, n, b) = (tm', n', r) \<and> cell_at_target (tm, n, b') = (tm', n', r')"
  using cell_fire_regs [of "tm\<lparr>tmode := tmode tm OR MODE_TARGET_FLAG\<rparr>" n b b']
  by (auto simp: cell_at_target.simps Let_def)

lemma cell_overflow_regs:
  "\<exists>tm' n' r r'. cell_at_overflow (tm, n, b) = (tm', n', r) \<and> cell_at_overflow (tm, n, b') = (tm', n', r')"
  using cell_fire_regs [of "tm\<lparr>tmode := tmode tm OR MODE_OVERFLOW_FLAG\<rparr>" n b b']
  by (auto simp: cell_at_overflow.simps Let_def)

lemma cell_tick_regs: "\<exists>tm' n' r r'. cell_tick (tm, n, b) = (tm', n', r) \<and> cell_tick (tm, n, b') = (tm', n', r')"
proof -
  define tm1 where "tm1 = tm\<lparr>counter := counter tm + 1\<rparr>"
  obtain tm2 n2 r r' where c: "(if counter tm1 = target tm1 then cell_at_target (tm1, n, b) else (tm1, n, b)) = (tm2, n2, r)"
    "(if counter tm1 = target tm1 then cell_at_target (tm1, n, b') else (tm1, n, b')) = (tm2, n2, r')"
    using cell_target_regs [of tm1 n b b'] by (cases "counter tm1 = target tm1") auto
  show ?thesis
    unfolding cell_tick.simps Let_def tm1_def [symmetric] c
    using cell_overflow_regs [of tm2 n2 r r'] by auto
qed

lemma cell_ticks_regs:
  "\<exists>tm' n' r r'. (cell_tick ^^ k) (tm, n, b) = (tm', n', r) \<and> (cell_tick ^^ k) (tm, n, b') = (tm', n', r')"
proof (induction k)
  case (Suc k)
  then obtain tm' n' r r' where "(cell_tick ^^ k) (tm, n, b) = (tm', n', r)" "(cell_tick ^^ k) (tm, n, b') = (tm', n', r')"
    by blast
  with cell_tick_regs [of tm' n' r r'] show ?case by (simp del: cell_tick.simps)
qed simp

definition regs_advance :: "nat \<Rightarrow> u32 \<Rightarrow> u32 \<times> timer \<times> u64 \<Rightarrow> u32 \<times> timer \<times> u64" where
  "regs_advance t c r = (if c = 0 then r else case r of (f, tm, n) \<Rightarrow> cell_regs (cell_advance t c (f, tm, n, False)))"

lemma cell_advance_regs: "c \<noteq> 0 \<Longrightarrow> cell_regs (cell_advance t c (f, tm, n, b)) = regs_advance t c (f, tm, n)"
proof -
  have "fst ((cell_tick ^^ k) (tm, n, b)) = fst ((cell_tick ^^ k) (tm, n, False))"
    "fst (snd ((cell_tick ^^ k) (tm, n, b))) = fst (snd ((cell_tick ^^ k) (tm, n, False)))" for k
    using cell_ticks_regs [of k tm n b False] by auto
  then show "c \<noteq> 0 \<Longrightarrow> ?thesis" by (simp add: regs_advance_def cell_regs_def cell_advance_def Let_def)
qed

lemma timer_regs_advance: "t < 3 \<Longrightarrow> timer_regs t (timers_advance c s) = regs_advance t c (timer_regs t s)"
proof (cases "c = 0")
  case True
  then show ?thesis by (simp add: regs_advance_def timers_advance_def)
next
  case False
  assume "t < 3"
  with False have "timer_regs t (timers_advance c s) = cell_regs (cell_advance t c (timer_fcell t s))"
    by (simp add: timer_regs_fcell timers_advance_fcell)
  also have "\<dots> = regs_advance t c (timer_regs t s)"
    using False by (simp add: timer_fcell_def timer_cell_def cell_advance_regs timer_regs_def)
  finally show ?thesis .
qed

lemma regs_advance_split:
  assumes "unat (fst r) + unat a + unat b < 4294967296"
  shows "regs_advance t b (regs_advance t a r) = regs_advance t (a + b) r"
proof (cases "a = 0 \<or> b = 0")
  case False
  obtain f tm n where r: "r = (f, tm, n)" by (cases r) auto
  have "a + b \<noteq> 0" using False assms by (auto simp: word_unat_eq_iff unat_word_ariths)
  moreover obtain f' tm' n' d where c: "cell_advance t a (f, tm, n, False) = (f', tm', n', d)"
    by (cases "cell_advance t a (f, tm, n, False)") auto
  ultimately show ?thesis
    using False assms cell_advance_split [of f a b t "(tm, n, False)"] cell_advance_regs [of b t f' tm' n' d]
    by (simp add: r regs_advance_def cell_regs_def)
qed (auto simp: regs_advance_def)

lemma regs_advance_0 [simp]: "regs_advance t 0 r = r"
  by (simp add: regs_advance_def)

lemma regs_advance_frac: "unat (fst r) < 2146 \<Longrightarrow> unat (fst (regs_advance t c r)) < 2146"
  by (cases r) (auto simp: regs_advance_def cell_regs_def intro: cell_advance_frac)

end
