(* ===== verification/Scheduler_Props.thy ===== *)
theory Scheduler_Props
  imports Scheduler Timer_Regs
begin

text \<open>
  Correctness of the device scheduler: the guest clock is exact in every mode, a charge leaves the
  devices less than 16384 cycles behind, and whatever the chunks of a replay are, a device state
  that advances additively (\<open>cycle_observer\<close>) ends up where one advance by all the charged cycles
  takes it.
\<close>

section \<open>What the scheduler leaves alone\<close>

lemma on_device_simps [simp]:
  "cycle_count (on_sio f m) = cycle_count m" "cycle_count (on_dma g m) = cycle_count m"
  "cycle_count (on_timers h m) = cycle_count m" "cycle_count (on_port p m) = cycle_count m"
  "m_timers (on_sio f m) = m_timers m" "m_timers (on_dma g m) = m_timers m" "m_timers (on_port p m) = m_timers m"
  "m_timers (on_timers h m) = h ((m_timers m)\<lparr>port := m_port m\<rparr>)"
  "cycles_since_vblank (on_sio f m) = cycles_since_vblank m" "cycles_since_vblank (on_dma g m) = cycles_since_vblank m"
  "cycles_since_vblank (on_timers h m) = cycles_since_vblank m" "cycles_since_vblank (on_port p m) = cycles_since_vblank m"
  "vblank_raise_count (on_sio f m) = vblank_raise_count m" "vblank_raise_count (on_dma g m) = vblank_raise_count m"
  "vblank_raise_count (on_timers h m) = vblank_raise_count m" "vblank_raise_count (on_port p m) = vblank_raise_count m"
  "in_exception (on_sio f m) = in_exception m" "in_exception (on_dma g m) = in_exception m"
  "in_exception (on_timers h m) = in_exception m" "in_exception (on_port p m) = in_exception m"
  by (simp_all add: on_sio_def on_dma_def on_timers_def on_port_def Let_def)

text \<open>The fields only the scheduler itself writes.\<close>

definition clock_flags :: "('d, 'x) machine \<Rightarrow> u64 \<times> u64 \<times> bool \<times> bool \<times> bool \<times> bool \<times> u32 \<times> u32 \<times> nat \<times> nat" where
  "clock_flags m = (devices_synced m, next_service m, in_device_service m, event_step_conservative m,
     ls_replay_active m, in_exception m, watchdog_throttle m, pc_sample_throttle m, watchdog_checks m, pc_samples m)"

lemma flags_on [simp]:
  "clock_flags (on_sio f m) = clock_flags m" "clock_flags (on_dma g m) = clock_flags m"
  "clock_flags (on_timers h m) = clock_flags m" "clock_flags (on_port p m) = clock_flags m"
  by (simp_all add: clock_flags_def on_sio_def on_dma_def on_timers_def on_port_def Let_def)

lemma flags_upd [simp]:
  "clock_flags (m\<lparr>cycle_count := a\<rparr>) = clock_flags m" "clock_flags (m\<lparr>cycles_since_vblank := b\<rparr>) = clock_flags m"
  "clock_flags (m\<lparr>dispatch_count := b\<rparr>) = clock_flags m" "clock_flags (m\<lparr>vblank_raise_count := a\<rparr>) = clock_flags m"
  "clock_flags (m\<lparr>last_sio_seq_seen := b, last_sio_progress := a\<rparr>) = clock_flags m"
  by (simp_all add: clock_flags_def)

lemma flags_fire [simp]: "clock_flags (fire_vblank_edge e m) = clock_flags m"
proof -
  have "clock_flags (m\<lparr>cycles_since_vblank := b, dispatch_count := c\<rparr>) = clock_flags m" for b c
    by (simp add: clock_flags_def)
  then show ?thesis by (simp add: fire_vblank_edge_def Let_def)
qed

lemma flags_vblank_loop [simp]: "clock_flags (vblank_loop e m) = clock_flags m"
  by (induction e m rule: vblank_loop.induct) (subst vblank_loop.simps, simp)

lemma flags_service_events [simp]: "clock_flags (interrupts_service_scheduled_events e m) = clock_flags m"
proof -
  have "clock_flags (note_sio_progress_cycle m) = clock_flags m"
    by (simp add: note_sio_progress_cycle_def Let_def)
  then show ?thesis by (simp add: interrupts_service_scheduled_events_def Let_def)
qed

lemma flags_advance_devices [simp]: "clock_flags (advance_devices e c m) = clock_flags m"
  by (simp add: advance_devices_def interrupts_advance_cycles_def Let_def)

lemma flags_service_loop [simp]: "clock_flags (service_loop e tgt m) = clock_flags m"
  by (induction e tgt m rule: service_loop.induct) (subst service_loop.simps, simp add: Let_def)

lemma flags_exact_loop [simp]: "clock_flags (exact_loop e c m) = clock_flags m"
  by (induction e c m rule: exact_loop.induct) (subst exact_loop.simps, simp add: Let_def)

lemma flags_fields:
  assumes "clock_flags m = clock_flags m'"
  shows "devices_synced m = devices_synced m'" "next_service m = next_service m'"
    "in_device_service m = in_device_service m'" "event_step_conservative m = event_step_conservative m'"
    "ls_replay_active m = ls_replay_active m'" "in_exception m = in_exception m'"
  using assms by (simp_all add: clock_flags_def)

section \<open>The clock\<close>

lemma count_service_loop: "cycle_count m \<le> tgt \<Longrightarrow> cycle_count (service_loop e tgt m) = tgt"
proof (induction e tgt m rule: service_loop.induct)
  case (1 e tgt m)
  show ?case
  proof (cases "cycle_count m < tgt")
    case True
    then show ?thesis
      using "1.IH" [OF True refl refl] service_step_count(2) [OF True]
      by (subst service_loop.simps) (simp add: Let_def)
  next
    case False
    with "1.prems" show ?thesis by (subst service_loop.simps) simp
  qed
qed

lemma count_exact_loop: "cycle_count (exact_loop e c m) = cycle_count m + ucast c"
proof (induction e c m rule: exact_loop.induct)
  case (1 e c m)
  show ?case
  proof (cases "c > 0")
    case True
    have "ucast (exact_step m c) + ucast (c - exact_step m c) = (ucast c :: u64)"
      using exact_step_bounds [OF True, of m]
      by (simp add: word_unat_eq_iff unat_word_ariths unat_sub word_le_nat_alt)
         (use unat_less_64 [of "ucast c"] in simp)
    then show ?thesis
      using "1.IH" [OF True refl] True by (subst exact_loop.simps) (simp add: Let_def add.assoc)
  next
    case False
    then have "c = 0" by (simp add: word_gt_0)
    then show ?thesis by (subst exact_loop.simps) simp
  qed
qed

lemma count_service_to_now [simp]: "cycle_count (psx_devices_service_to_now e m) = cycle_count m"
  by (simp add: psx_devices_service_to_now_def Let_def psx_devices_recompute_deadline_def count_service_loop)

lemma count_watchdog [simp]: "cycle_count (watchdog_tick c m) = cycle_count m"
  by (simp add: watchdog_tick_def Let_def)

lemma count_charge:
  "cycle_count (psx_advance_cycles e c m) = (if ls_replay_active m then cycle_count m else cycle_count m + ucast c)"
  by (simp add: psx_advance_cycles_def psx_advance_cycles_exact_def count_exact_loop Let_def)

text \<open>The guest clock is exact: in every mode a charge moves \<open>psx_cycle_count\<close> by exactly the
  charged cycles (outside a lockstep replay, which charges nothing), and servicing devices or
  synchronising for an MMIO access never moves it, although both rewind it while they replay.\<close>

lemma sched_clock_exact:
  "cycle_count (psx_advance_cycles e c m) = (if ls_replay_active m then cycle_count m else cycle_count m + ucast c)
     \<and> cycle_count (psx_devices_service_to_now e m) = cycle_count m
     \<and> cycle_count (psx_devices_mmio_sync e m) = cycle_count m"
  by (simp add: count_charge psx_devices_mmio_sync_def Let_def)

section \<open>How far the devices lag behind\<close>

definition sched_ok :: "('d, 'x) machine \<Rightarrow> bool" where
  "sched_ok m \<longleftrightarrow> \<not> in_device_service m \<and> \<not> ls_replay_active m \<and> devices_synced m \<le> cycle_count m
     \<and> (event_step_conservative m \<longrightarrow> devices_synced m = cycle_count m)
     \<and> (next_service m = 0 \<or> unat (next_service m) \<le> unat (devices_synced m) + 16384)"

lemma internal_event_pos: "devices_cycles_to_next_internal_event e m \<noteq> 0"
  by (simp add: devices_cycles_to_next_internal_event_def Let_def)

lemma deadline_near:
  assumes "unat (cycle_count m) + 16384 < 18446744073709551616"
  shows "unat (cycle_count m) < unat (next_service (psx_devices_recompute_deadline e m))"
    and "unat (next_service (psx_devices_recompute_deadline e m)) \<le> unat (cycle_count m) + 16384"
proof -
  define n where "n = (if devices_cycles_to_next_internal_event e m > PSX_DEADLINE_HARD_CAP
      then PSX_DEADLINE_HARD_CAP else devices_cycles_to_next_internal_event e m)"
  have n: "0 < unat n" "unat n \<le> 16384"
    using internal_event_pos [of e m]
    by (auto simp: n_def PSX_DEADLINE_HARD_CAP_def word_less_nat_alt unat_gt_0 not_less)
  have "next_service (psx_devices_recompute_deadline e m) = cycle_count m + ucast n"
    by (simp add: psx_devices_recompute_deadline_def Let_def n_def)
  moreover have "unat (cycle_count m + ucast n) = unat (cycle_count m) + unat n"
    using n assms unat_add_lem [of "cycle_count m" "ucast n"] by simp
  ultimately show "unat (cycle_count m) < unat (next_service (psx_devices_recompute_deadline e m))"
    "unat (next_service (psx_devices_recompute_deadline e m)) \<le> unat (cycle_count m) + 16384"
    using n by simp_all
qed

text \<open>What a completed service leaves.\<close>

lemma service_to_now_state:
  fixes e :: "('d, 'x) mach_env" and m :: "('d, 'x) machine"
  assumes "\<not> in_device_service m" "devices_synced m \<le> cycle_count m"
    and "unat (cycle_count m) + 16384 < 18446744073709551616"
  defines "m' \<equiv> psx_devices_service_to_now e m"
  shows "devices_synced m' = cycle_count m" "\<not> in_device_service m'" "unat (cycle_count m) < unat (next_service m')"
    "unat (next_service m') \<le> unat (cycle_count m) + 16384"
    "event_step_conservative m' = event_step_conservative m" "ls_replay_active m' = ls_replay_active m"
    "in_exception m' = in_exception m"
proof -
  define m1 where "m1 = m\<lparr>in_device_service := True\<rparr>"
  define m2 where "m2 = (if devices_synced m < cycle_count m
      then (service_loop e (cycle_count m) (interrupts_service_scheduled_events e (m1\<lparr>cycle_count := devices_synced m\<rparr>)))
             \<lparr>devices_synced := cycle_count m\<rparr> else m1)"
  have eq: "m' = (psx_devices_recompute_deadline e m2)\<lparr>in_device_service := False\<rparr>"
    using assms(1) by (simp add: m'_def psx_devices_service_to_now_def Let_def m1_def m2_def)
  have c: "cycle_count m2 = cycle_count m" using assms(2) by (simp add: m2_def m1_def count_service_loop)
  have f: "clock_flags (service_loop e t (interrupts_service_scheduled_events e (m1\<lparr>cycle_count := x\<rparr>))) = clock_flags m1" for t x
    by simp
  note ff = flags_fields [OF f]
  have s: "devices_synced m2 = cycle_count m" using assms(2) by (auto simp: m2_def m1_def)
  show "devices_synced m' = cycle_count m" "\<not> in_device_service m'"
    by (simp_all add: eq psx_devices_recompute_deadline_def Let_def s)
  show "unat (cycle_count m) < unat (next_service m')" "unat (next_service m') \<le> unat (cycle_count m) + 16384"
    using deadline_near [of m2 e] assms(3) c by (simp_all add: eq)
  show "event_step_conservative m' = event_step_conservative m" "ls_replay_active m' = ls_replay_active m"
    "in_exception m' = in_exception m"
    by (simp_all add: eq psx_devices_recompute_deadline_def Let_def m2_def ff) (simp_all add: m1_def)
qed

lemma watchdog_fields [simp]:
  "devices_synced (watchdog_tick c m) = devices_synced m" "next_service (watchdog_tick c m) = next_service m"
  "in_device_service (watchdog_tick c m) = in_device_service m" "ls_replay_active (watchdog_tick c m) = ls_replay_active m"
  "event_step_conservative (watchdog_tick c m) = event_step_conservative m" "in_exception (watchdog_tick c m) = in_exception m"
  "m_timers (watchdog_tick c m) = m_timers m" "cycles_since_vblank (watchdog_tick c m) = cycles_since_vblank m"
  "vblank_raise_count (watchdog_tick c m) = vblank_raise_count m" "m_sio (watchdog_tick c m) = m_sio m"
  by (simp_all add: watchdog_tick_def Let_def)

lemma exact_fields:
  "devices_synced (psx_advance_cycles_exact e c m) = cycle_count m + ucast c"
  "next_service (psx_advance_cycles_exact e c m) = 0"
  "in_device_service (psx_advance_cycles_exact e c m) = in_device_service m"
  "ls_replay_active (psx_advance_cycles_exact e c m) = ls_replay_active m"
  "event_step_conservative (psx_advance_cycles_exact e c m) = event_step_conservative m"
  using flags_fields [of "exact_loop e c (interrupts_service_scheduled_events e m)" m]
  by (simp_all add: psx_advance_cycles_exact_def Let_def count_exact_loop)

text \<open>Total cycles of a list of charges, and how far the devices are behind.\<close>

definition charged :: "u32 list \<Rightarrow> nat" where
  "charged cs = sum_list (map unat cs)"

definition lag :: "('d, 'x) machine \<Rightarrow> nat" where
  "lag m = unat (cycle_count m - devices_synced m)"

lemma lag_sched_ok: "sched_ok m \<Longrightarrow> lag m = unat (cycle_count m) - unat (devices_synced m)"
  by (simp add: sched_ok_def lag_def unat_sub)

lemma sync_lag [simp]: "devices_synced m = cycle_count m \<Longrightarrow> lag m = 0"
  by (simp add: lag_def)

lemma charge_state:
  assumes "sched_ok m" "lag m < 16384" "unat (cycle_count m) + unat c + 16384 < 18446744073709551616"
  shows "sched_ok (psx_advance_cycles e c m)" "lag (psx_advance_cycles e c m) < 16384"
    "unat (cycle_count (psx_advance_cycles e c m)) = unat (cycle_count m) + unat c"
proof -
  have ok: "\<not> in_device_service m" "\<not> ls_replay_active m" "devices_synced m \<le> cycle_count m"
    "event_step_conservative m \<Longrightarrow> devices_synced m = cycle_count m"
    "next_service m = 0 \<or> unat (next_service m) \<le> unat (devices_synced m) + 16384"
    using assms(1) by (simp_all add: sched_ok_def)
  have add: "unat (cycle_count m + ucast c) = unat (cycle_count m) + unat c"
    using assms(3) unat_add_lem [of "cycle_count m" "ucast c"] by simp
  then show "unat (cycle_count (psx_advance_cycles e c m)) = unat (cycle_count m) + unat c"
    using ok count_charge [of e c m] by simp
  define w where "w = m\<lparr>cycle_count := cycle_count m + ucast c\<rparr>"
  have w: "\<not> in_device_service w" "devices_synced w \<le> cycle_count w"
    "unat (cycle_count w) + 16384 < 18446744073709551616"
    using ok add assms(3) by (simp_all add: w_def word_le_nat_alt)
  note sv = service_to_now_state [OF w, of e]
  have "sched_ok (psx_advance_cycles e c m) \<and> lag (psx_advance_cycles e c m) < 16384"
  proof (cases "c = 0 \<or> event_step_conservative m")
    case True
    then show ?thesis using ok assms
      by (auto simp: psx_advance_cycles_def sched_ok_def lag_def exact_fields)
         (auto simp: psx_advance_cycles_exact_def Let_def count_exact_loop)
  next
    case False
    then have adv: "psx_advance_cycles e c m = watchdog_tick c
        (if next_service w = 0 \<or> cycle_count w \<ge> next_service w then psx_devices_service_to_now e w else w)"
      using ok by (simp add: psx_advance_cycles_def Let_def w_def)
    show ?thesis
    proof (cases "next_service w = 0 \<or> cycle_count w \<ge> next_service w")
      case True
      then show ?thesis using sv False ok by (simp add: adv sched_ok_def lag_def w_def)
    next
      case no: False
      then have "unat (cycle_count w) < unat (next_service m)" "next_service m \<noteq> 0"
        by (simp_all add: w_def word_less_nat_alt not_le)
      then show ?thesis using ok no w False
        by (simp add: adv sched_ok_def lag_def unat_sub) (simp add: w_def)
    qed
  qed
  then show "sched_ok (psx_advance_cycles e c m)" "lag (psx_advance_cycles e c m) < 16384" by blast+
qed

text \<open>C22: However guest time is charged, the devices are never 16384 cycles or more behind the
  clock, the scheduler stays in the state the next charge expects, and an MMIO access finds the
  devices exactly at the clock (as long as the 64-bit clock does not wrap).\<close>

theorem sched_lag_bounded:
  fixes e :: "('d, 'x) mach_env" and m :: "('d, 'x) machine"
  assumes "sched_ok m" and "lag m < 16384" and "unat (cycle_count m) + charged cs + 16384 < 18446744073709551616"
  defines "m' \<equiv> fold (psx_advance_cycles e) cs m"
  shows "sched_ok m' \<and> lag m' < 16384 \<and> unat (cycle_count m') = unat (cycle_count m) + charged cs
       \<and> devices_synced (psx_devices_mmio_sync e m') = cycle_count m'"
proof -
  have fld: "sched_ok m' \<and> lag m' < 16384 \<and> unat (cycle_count m') = unat (cycle_count m) + charged cs"
    using assms(1-3) unfolding m'_def
  proof (induction cs arbitrary: m)
    case (Cons c cs)
    then show ?case
      using charge_state [of m c e] Cons.IH [of "psx_advance_cycles e c m"] by (simp add: charged_def add.assoc)
  qed (simp add: charged_def)
  then have "devices_synced (psx_devices_mmio_sync e m') = cycle_count m'"
    using service_to_now_state(1) [of m' e] assms(3) by (simp add: psx_devices_mmio_sync_def sched_ok_def)
  with fld show ?thesis by blast
qed

section \<open>Replays are unobservable\<close>

definition max_observed :: nat where "max_observed = 4294965150"

lemma service_chunk:
  fixes c tgt :: u64 and to_ev :: u32
  assumes "c < tgt"
  defines "s \<equiv> service_step (ucast (tgt - c)) to_ev"
  shows "unat (tgt - (c + ucast s)) + unat s = unat (tgt - c)"
proof -
  have "0 < tgt - c" using assms(1) by (auto simp: word_gt_0)
  then have "ucast s \<le> tgt - c" unfolding s_def by (rule service_step_bounds)
  then have "unat (tgt - c - ucast s) = unat (tgt - c) - unat s" "unat s \<le> unat (tgt - c)"
    by (simp_all only: unat_sub word_le_nat_alt unat_ucast64)
  moreover have e: "tgt - (c + ucast s) = tgt - c - ucast s" by simp
  ultimately show ?thesis unfolding e by linarith
qed

text \<open>
  A view \<open>obs\<close> of the machine and a relation \<open>R n x y\<close>, "n cycles may take x to y", that holds of
  every \<open>advance_devices\<close> and of every check for due events, and composes. Whatever the chunks of
  a replay, the charged cycles then take the view from the old to the new one. Sums stay below
  \<open>max_observed\<close>, so that no 32-bit cycle sum in a device wraps.
\<close>

locale cycle_observer =
  fixes e :: "('d, 'x) mach_env"
    and obs :: "('d, 'x) machine \<Rightarrow> 'a"
    and R :: "nat \<Rightarrow> 'a \<Rightarrow> 'a \<Rightarrow> bool"
  assumes R_refl: "R 0 x x"
    and R_trans: "R a x y \<Longrightarrow> R b y z \<Longrightarrow> a + b < max_observed \<Longrightarrow> R (a + b) x z"
    and R_advance: "R (unat c) (obs m) (obs (advance_devices e c m))"
    and R_events: "R 0 (obs m) (obs (interrupts_service_scheduled_events e m))"
    and obs_count: "obs (m\<lparr>cycle_count := k\<rparr>) = obs m"
    and obs_synced: "obs (m\<lparr>devices_synced := k\<rparr>) = obs m"
    and obs_next: "obs (m\<lparr>next_service := k\<rparr>) = obs m"
    and obs_guard: "obs (m\<lparr>in_device_service := g\<rparr>) = obs m"
    and obs_watchdog: "obs (watchdog_tick c m) = obs m"
begin

lemma R_step:
  "unat c < max_observed \<Longrightarrow> R (unat c) (obs m) (obs (interrupts_service_scheduled_events e (advance_devices e c m)))"
  using R_trans [OF R_advance R_events] by simp

lemma R_service_loop:
  "cycle_count m \<le> tgt \<Longrightarrow> unat (tgt - cycle_count m) < max_observed \<Longrightarrow>
     R (unat (tgt - cycle_count m)) (obs m) (obs (service_loop e tgt m))"
proof (induction "unat (tgt - cycle_count m)" arbitrary: m rule: less_induct)
  case less
  show ?case
  proof (cases "cycle_count m < tgt")
    case True
    define s where "s = service_step (ucast (tgt - cycle_count m)) (devices_cycles_to_next_internal_event e m)"
    define m' where "m' = interrupts_service_scheduled_events e (advance_devices e s m)"
    have c: "cycle_count m' = cycle_count m + ucast s" by (simp add: m'_def)
    have le: "cycle_count m' \<le> tgt" "unat (tgt - cycle_count m') < unat (tgt - cycle_count m)"
      using service_step_count [OF True] by (simp_all add: c s_def)
    have sum: "unat s + unat (tgt - cycle_count m') = unat (tgt - cycle_count m)"
      using service_chunk [OF True] by (simp add: c s_def add.commute)
    have "R (unat s) (obs m) (obs m')" using R_step [of s m] sum less.prems(2) by (simp add: m'_def)
    moreover have "R (unat (tgt - cycle_count m')) (obs m') (obs (service_loop e tgt m'))"
      using less.hyps [OF le(2) le(1)] le(2) less.prems(2) by simp
    ultimately have "R (unat (tgt - cycle_count m)) (obs m) (obs (service_loop e tgt m'))"
      using R_trans [of "unat s"] sum less.prems(2) by metis
    then show ?thesis using True by (subst service_loop.simps) (simp add: Let_def m'_def s_def)
  next
    case False
    then have "tgt = cycle_count m" using less.prems(1) by simp
    then show ?thesis by (subst service_loop.simps) (simp add: R_refl)
  qed
qed

lemma R_exact_loop: "unat c < max_observed \<Longrightarrow> R (unat c) (obs m) (obs (exact_loop e c m))"
proof (induction "unat c" arbitrary: c m rule: less_induct)
  case less
  show ?case
  proof (cases "c > 0")
    case True
    define s where "s = exact_step m c"
    have s: "0 < s" "s \<le> c" using exact_step_bounds [OF True, of m] by (simp_all add: s_def)
    then have u: "unat (c - s) < unat c" "unat s + unat (c - s) = unat c"
      by (simp_all add: unat_sub word_less_nat_alt word_le_nat_alt)
    define m' where "m' = interrupts_service_scheduled_events e (advance_devices e s m)"
    have "R (unat s) (obs m) (obs m')" using R_step [of s m] u less.prems by (simp add: m'_def)
    moreover have "R (unat (c - s)) (obs m') (obs (exact_loop e (c - s) m'))"
      using less.hyps [OF u(1), of m'] less.prems u by simp
    ultimately have "R (unat c) (obs m) (obs (exact_loop e (c - s) m'))"
      using R_trans [of "unat s"] u(2) less.prems by metis
    then show ?thesis using True by (subst exact_loop.simps) (simp add: Let_def m'_def s_def)
  next
    case False
    then have "c = 0" by (simp add: word_gt_0)
    then show ?thesis by (subst exact_loop.simps) (simp add: R_refl)
  qed
qed

lemma R_service_to_now:
  assumes "\<not> in_device_service m" "devices_synced m \<le> cycle_count m" "lag m < max_observed"
  shows "R (lag m) (obs m) (obs (psx_devices_service_to_now e m))"
proof (cases "devices_synced m < cycle_count m")
  case True
  define m0 where "m0 = m\<lparr>in_device_service := True, cycle_count := devices_synced m\<rparr>"
  define m1 where "m1 = interrupts_service_scheduled_events e m0"
  have "obs m0 = obs m"
    using obs_count [where m = "m\<lparr>in_device_service := True\<rparr>" and k = "devices_synced m"] obs_guard [where m = m]
    by (simp add: m0_def)
  moreover have "cycle_count m1 = devices_synced m" by (simp add: m1_def m0_def)
  ultimately have "R (0 + lag m) (obs m) (obs (service_loop e (cycle_count m) m1))"
    using R_trans [OF R_events [of m0, folded m1_def] R_service_loop [of m1 "cycle_count m"]] assms
    by (simp add: lag_def)
  then show ?thesis
    using assms(1) True
    by (simp add: psx_devices_service_to_now_def Let_def psx_devices_recompute_deadline_def obs_guard obs_next
        obs_synced m0_def m1_def)
next
  case False
  then show ?thesis using assms
    by (simp add: psx_devices_service_to_now_def Let_def psx_devices_recompute_deadline_def obs_guard obs_next
        lag_def R_refl)
qed

lemma R_charge:
  assumes "sched_ok m" "unat (cycle_count m) + unat c + 16384 < 18446744073709551616"
    and "lag m + unat c < max_observed"
  shows "\<exists>n. n + lag (psx_advance_cycles e c m) = lag m + unat c \<and> R n (obs m) (obs (psx_advance_cycles e c m))"
proof -
  have ok: "\<not> in_device_service m" "\<not> ls_replay_active m" "devices_synced m \<le> cycle_count m"
    "event_step_conservative m \<Longrightarrow> devices_synced m = cycle_count m"
    using assms(1) by (simp_all add: sched_ok_def)
  define w where "w = m\<lparr>cycle_count := cycle_count m + ucast c\<rparr>"
  have cw: "unat (cycle_count m + ucast c) = unat (cycle_count m) + unat c"
    using assms(2) unat_add_lem [of "cycle_count m" "ucast c"] by simp
  have w: "\<not> in_device_service w" "devices_synced w \<le> cycle_count w" "obs w = obs m" "lag w = lag m + unat c"
    "unat (cycle_count w) + 16384 < 18446744073709551616"
    using ok cw assms(2) by (simp_all add: w_def obs_count word_le_nat_alt unat_sub lag_def)
  have wd: "lag (watchdog_tick x v) = lag v" for x and v :: "('d, 'x) machine" by (simp add: lag_def)
  show ?thesis
  proof (cases "c = 0")
    case True
    then show ?thesis using R_refl by (auto simp: psx_advance_cycles_def)
  next
    case c: False
    show ?thesis
    proof (cases "event_step_conservative m")
      case True
      have "R (0 + unat c) (obs m) (obs (exact_loop e c (interrupts_service_scheduled_events e m)))"
        using R_trans [OF R_events [of m] R_exact_loop] assms(3) by simp
      then have "R (unat c) (obs m) (obs (psx_advance_cycles_exact e c m))"
        by (simp add: psx_advance_cycles_exact_def Let_def obs_synced obs_next)
      moreover have "lag (psx_advance_cycles_exact e c m) = 0"
        by (simp add: lag_def psx_advance_cycles_exact_def Let_def)
      ultimately show ?thesis
        using True c ok by (simp add: psx_advance_cycles_def wd obs_watchdog)
    next
      case False
      then have adv: "psx_advance_cycles e c m = watchdog_tick c
          (if next_service w = 0 \<or> cycle_count w \<ge> next_service w then psx_devices_service_to_now e w else w)"
        using ok c by (simp add: psx_advance_cycles_def Let_def w_def)
      have "lag (psx_devices_service_to_now e w) = 0"
        using service_to_now_state(1) [OF w(1,2,5), of e] by (simp add: lag_def)
      then show ?thesis
        using R_service_to_now [OF w(1,2)] w(3,4) assms(3) R_refl [of "obs m"]
        by (auto simp: adv wd obs_watchdog)
    qed
  qed
qed

lemma R_charges:
  assumes "sched_ok m" "unat (cycle_count m) + charged cs + 16384 < 18446744073709551616"
    and "lag m < 16384" "charged cs + 16384 < max_observed"
  defines "m' \<equiv> fold (psx_advance_cycles e) cs m"
  shows "sched_ok m' \<and> unat (cycle_count m') = unat (cycle_count m) + charged cs \<and> lag m' < 16384
     \<and> (\<exists>n. n + lag m' = lag m + charged cs \<and> R n (obs m) (obs m'))"
  using assms(1-4) unfolding m'_def
proof (induction cs arbitrary: m)
  case Nil
  then show ?case using R_refl by (auto simp: charged_def)
next
  case (Cons c cs)
  define u where "u = psx_advance_cycles e c m"
  have t: "charged (c # cs) = unat c + charged cs" by (simp add: charged_def)
  have u: "sched_ok u" "lag u < 16384" "unat (cycle_count u) = unat (cycle_count m) + unat c"
    using charge_state [of m c e] Cons.prems by (simp_all add: u_def t)
  obtain n where n: "n + lag u = lag m + unat c" "R n (obs m) (obs u)"
    using R_charge [of m c] Cons.prems by (auto simp: u_def t)
  define v where "v = fold (psx_advance_cycles e) cs u"
  obtain k where k: "sched_ok v" "unat (cycle_count v) = unat (cycle_count u) + charged cs" "lag v < 16384"
      "k + lag v = lag u + charged cs" "R k (obs u) (obs v)"
    using Cons.IH [OF u(1) _ u(2)] Cons.prems u(3) by (auto simp: t v_def)
  have "R (n + k) (obs m) (obs v)"
    using R_trans [OF n(2) k(5)] n(1) k(4) Cons.prems by (simp add: t)
  moreover have "n + k + lag v = lag m + charged (c # cs)" using n(1) k(4) by (simp add: t)
  moreover have "fold (psx_advance_cycles e) (c # cs) m = v" by (simp add: v_def u_def)
  ultimately show ?case using k u(3) by (simp add: t) blast
qed

lemma R_sync:
  assumes "sched_ok m" "unat (cycle_count m) + charged cs + 16384 < 18446744073709551616"
    and "lag m < 16384" "charged cs + 16384 < max_observed"
  shows "R (lag m + charged cs) (obs m) (obs (psx_devices_mmio_sync e (fold (psx_advance_cycles e) cs m)))"
proof -
  define v where "v = fold (psx_advance_cycles e) cs m"
  obtain n where v: "sched_ok v" "lag v < 16384" "n + lag v = lag m + charged cs" "R n (obs m) (obs v)"
    using R_charges [OF assms] by (auto simp: v_def)
  have "R (lag v) (obs v) (obs (psx_devices_mmio_sync e v))"
  proof (cases "devices_synced v = cycle_count v")
    case True
    then show ?thesis by (simp add: psx_devices_mmio_sync_def obs_next lag_def R_refl)
  next
    case False
    then show ?thesis using R_service_to_now [of v] v(1,2)
      by (simp add: psx_devices_mmio_sync_def obs_next sched_ok_def max_observed_def)
  qed
  from R_trans [OF v(4) this] show ?thesis using v(3) assms by (simp add: v_def)
qed

end

section \<open>The root counters under the scheduler\<close>

lemma timers_fire [simp]: "m_timers (fire_vblank_edge e m) = m_timers m"
  by (simp add: fire_vblank_edge_def Let_def)

lemma timers_vblank_loop [simp]: "m_timers (vblank_loop e m) = m_timers m"
  by (induction e m rule: vblank_loop.induct) (subst vblank_loop.simps, simp)

lemma timers_service_events [simp]: "m_timers (interrupts_service_scheduled_events e m) = m_timers m"
  by (simp add: interrupts_service_scheduled_events_def note_sio_progress_cycle_def Let_def)

lemma timer_regs_port [simp]: "timer_regs t (s\<lparr>port := p\<rparr>) = timer_regs t s"
  by (simp add: timer_regs_def)

lemma timers_advance_devices:
  "t < 3 \<Longrightarrow> timer_regs t (m_timers (advance_devices e c m)) = regs_advance t c (timer_regs t (m_timers m))"
  by (simp add: advance_devices_def interrupts_advance_cycles_def Let_def timer_regs_advance)

definition timers_took :: "nat \<Rightarrow> (nat \<Rightarrow> u32 \<times> timer \<times> u64) \<Rightarrow> (nat \<Rightarrow> u32 \<times> timer \<times> u64) \<Rightarrow> bool" where
  "timers_took n x y \<longleftrightarrow> (\<forall>t<3. unat (fst (x t)) < 2146 \<longrightarrow>
     unat (fst (y t)) < 2146 \<and> y t = regs_advance t (of_nat n) (x t))"

lemma timers_took_trans:
  assumes "timers_took a x y" "timers_took b y z" "a + b < max_observed"
  shows "timers_took (a + b) x z"
proof -
  have "z t = regs_advance t (of_nat (a + b)) (x t)" if "t < 3" "unat (fst (x t)) < 2146" for t
  proof -
    have "unat (of_nat a :: u32) = a" "unat (of_nat b :: u32) = b"
      using assms(3) by (simp_all add: max_observed_def unat_of_nat)
    then show ?thesis
      using assms that regs_advance_split [of "x t" "of_nat a" "of_nat b" t]
      by (auto simp: timers_took_def max_observed_def)
  qed
  then show ?thesis using assms(1,2) by (auto simp: timers_took_def)
qed

interpretation timer_obs: cycle_observer e "\<lambda>m t. timer_regs t (m_timers m)" timers_took
  for e :: "('d, 'x) mach_env"
proof unfold_locales
  fix m :: "('d, 'x) machine" and c :: u32
  show "timers_took (unat c) (\<lambda>t. timer_regs t (m_timers m)) (\<lambda>t. timer_regs t (m_timers (advance_devices e c m)))"
    by (simp add: timers_took_def timers_advance_devices regs_advance_frac)
qed (simp_all add: timers_took_trans, simp_all add: timers_took_def)

lemma timers_after_sync:
  assumes "sched_ok m" and "devices_synced m = cycle_count m" and "timers_wf (m_timers m)"
    and "unat (cycle_count m) + charged cs + 16384 < 18446744073709551616" and "charged cs + 16384 < max_observed"
    and "t < 3"
  shows "timer_regs t (m_timers (psx_devices_mmio_sync e (fold (psx_advance_cycles e) cs m)))
       = timer_regs t (timers_advance (of_nat (charged cs)) (m_timers m))"
proof -
  have "timers_took (lag m + charged cs) (\<lambda>t. timer_regs t (m_timers m))
      (\<lambda>t. timer_regs t (m_timers (psx_devices_mmio_sync e (fold (psx_advance_cycles e) cs m))))"
    using assms by (intro timer_obs.R_sync) auto
  then show ?thesis
    using assms by (simp add: timers_took_def timer_regs_advance) (simp add: timers_wf_def timer_regs_def)
qed

text \<open>C20: Event-driven servicing is unobservable to the root counters: after any charges, an MMIO
  access finds every counter, mode, fraction and interrupt count exactly as one advance by the
  charged cycles leaves them, however the scheduler cut those cycles into chunks and whatever the
  other devices did meanwhile.\<close>

theorem sched_timers_exact:
  assumes "sched_ok m" and "devices_synced m = cycle_count m" and "timers_wf (m_timers m)"
    and "unat (cycle_count m) + charged cs + 16384 < 18446744073709551616" and "charged cs + 16384 < max_observed"
    and "t < 3"
  shows "timer_regs t (m_timers (psx_devices_mmio_sync e (fold (psx_advance_cycles e) cs m)))
       = timer_regs t (timers_advance (of_nat (charged cs)) (m_timers m))"
  using assms by (rule timers_after_sync)

section \<open>The frame clock under the scheduler\<close>

definition vblank_took :: "nat \<Rightarrow> u64 \<times> u32 \<Rightarrow> u64 \<times> u32 \<Rightarrow> bool" where
  "vblank_took n x y \<longleftrightarrow> unat (snd x) + n < 4294967296 \<longrightarrow>
     fst y * 564480 + ucast (snd y) = fst x * 564480 + ucast (snd x) + of_nat n \<and> unat (snd y) \<le> unat (snd x) + n"

lemma vblank_took_trans: "vblank_took a x y \<Longrightarrow> vblank_took b y z \<Longrightarrow> vblank_took (a + b) x z"
  by (auto simp: vblank_took_def algebra_simps)

abbreviation frame_clock :: "('d, 'x) machine \<Rightarrow> u64 \<times> u32" where
  "frame_clock m \<equiv> (vblank_raise_count m, cycles_since_vblank m)"

lemma vblank_took_fire:
  assumes "cycles_since_vblank m \<ge> VBLANK_CYCLES"
  shows "vblank_took 0 (frame_clock m) (frame_clock (fire_vblank_edge e m))"
proof -
  have "unat (cycles_since_vblank m - 564480) = unat (cycles_since_vblank m) - 564480" "564480 \<le> unat (cycles_since_vblank m)"
    using assms by (simp_all add: VBLANK_CYCLES_def unat_sub word_le_nat_alt)
  moreover from this have "(ucast (cycles_since_vblank m - 564480) :: u64) = ucast (cycles_since_vblank m) - 564480"
    by (simp add: word_unat_eq_iff unat_sub word_le_nat_alt)
  moreover have "vblank_raise_count (fire_vblank_edge e m) = vblank_raise_count m + 1"
    by (simp add: fire_vblank_edge_def Let_def)
  ultimately show ?thesis by (simp add: vblank_took_def VBLANK_CYCLES_def algebra_simps)
qed

lemma vblank_took_loop: "vblank_took 0 (frame_clock m) (frame_clock (vblank_loop e m))"
proof (induction e m rule: vblank_loop.induct)
  case (1 e m)
  show ?case
  proof (cases "cycles_since_vblank m \<ge> VBLANK_CYCLES \<and> \<not> should_defer_vblank_for_sio m")
    case True
    then have "vblank_took (0 + 0) (frame_clock m) (frame_clock (vblank_loop e (fire_vblank_edge e m)))"
      using vblank_took_trans [OF vblank_took_fire] "1.IH" by blast
    with True show ?thesis by (subst (2) vblank_loop.simps, subst vblank_loop.simps) simp
  next
    case False
    then show ?thesis by (auto simp: vblank_loop.simps [of e m] vblank_took_def)
  qed
qed

lemma vblank_took_events: "vblank_took 0 (frame_clock m) (frame_clock (interrupts_service_scheduled_events e m))"
proof -
  have "frame_clock (note_sio_progress_cycle m) = frame_clock m"
    by (simp add: note_sio_progress_cycle_def Let_def)
  then show ?thesis
    using vblank_took_loop [of "note_sio_progress_cycle m" e]
    by (simp add: interrupts_service_scheduled_events_def Let_def vblank_took_def)
qed

lemma vblank_took_advance: "vblank_took (unat c) (frame_clock m) (frame_clock (advance_devices e c m))"
proof -
  define m' where "m' = on_timers (timers_advance c) (on_dma (dma_advance (me_dma e) c) (on_dma (me_cd_advance e (cycle_count m + ucast c) c)
      (on_sio (sio_advance (me_sio e (cycle_count m + ucast c)) c) (m\<lparr>cycle_count := cycle_count m + ucast c\<rparr>))))"
  define m2 where "m2 = m'\<lparr>cycles_since_vblank := cycles_since_vblank m' + c\<rparr>"
  have f: "frame_clock m' = frame_clock m" by (simp add: m'_def)
  have "(ucast (cycles_since_vblank m + c) :: u64) = ucast (cycles_since_vblank m) + ucast c"
    if "unat (cycles_since_vblank m) + unat c < 4294967296"
    using that unat_add_lem [of "cycles_since_vblank m" c] by (simp add: word_unat_eq_iff unat_word_ariths)
  moreover have "unat (cycles_since_vblank m + c) \<le> unat (cycles_since_vblank m) + unat c" by (simp add: unat_word_ariths)
  moreover have "(of_nat (unat c) :: u64) = ucast c" by (simp add: word_unat_eq_iff unat_of_nat less_trans [OF unsigned_less])
  ultimately have "vblank_took (unat c) (frame_clock m) (frame_clock m2)"
    using f by (simp add: vblank_took_def m2_def)
  from vblank_took_trans [OF this vblank_took_events [of m2 e]] show ?thesis
    by (simp add: advance_devices_def interrupts_advance_cycles_def Let_def m2_def m'_def)
qed

interpretation vblank_obs: cycle_observer e frame_clock vblank_took
  for e :: "('d, 'x) mach_env"
proof unfold_locales
  show "frame_clock (watchdog_tick c m) = frame_clock m" for c and m :: "('d, 'x) machine" by simp
qed (simp_all add: vblank_took_trans vblank_took_advance vblank_took_events, simp_all add: vblank_took_def)

lemma vblank_loop_stops:
  "cycles_since_vblank (vblank_loop e m) < VBLANK_CYCLES \<or> should_defer_vblank_for_sio (vblank_loop e m)"
proof (induction e m rule: vblank_loop.induct)
  case (1 e m)
  then show ?case by (subst (2) vblank_loop.simps, subst vblank_loop.simps) (auto simp: not_le)
qed

text \<open>C21: No frame is lost or invented: the VBlank edges raised, at 564480 cycles each, plus the
  cycles since the last one account for every charged cycle, however servicing was chunked and
  however often an edge was held back by the card protocol or an exception.\<close>

theorem sched_frames_exact:
  fixes e :: "('d, 'x) mach_env"
  assumes "sched_ok m" and "devices_synced m = cycle_count m"
    and "unat (cycle_count m) + charged cs + 16384 < 18446744073709551616" and "charged cs + 16384 < max_observed"
    and "unat (cycles_since_vblank m) + charged cs < 4294967296"
  defines "m' \<equiv> psx_devices_mmio_sync e (fold (psx_advance_cycles e) cs m)"
  shows "vblank_raise_count m' * 564480 + ucast (cycles_since_vblank m')
       = vblank_raise_count m * 564480 + ucast (cycles_since_vblank m) + of_nat (charged cs)"
proof -
  have "vblank_took (lag m + charged cs) (frame_clock m) (frame_clock m')"
    unfolding m'_def using assms(1-4) by (intro vblank_obs.R_sync) auto
  with assms(2,5) show ?thesis by (simp add: vblank_took_def)
qed

section \<open>The conservative switch\<close>

text \<open>C23: Switching \<open>g_event_step_conservative\<close> on while the devices lag loses guest time for them:
  the next charge goes through \<open>psx_advance_cycles_exact\<close>, which declares the devices synchronised
  without replaying the gap, so a counter ends up behind the guest clock by exactly the lag.\<close>

theorem sched_toggle_loses_cycles:
  fixes e :: "('d, 'x) mach_env" and m :: "('d, 'x) machine"
  assumes "sched_ok m" and "devices_synced m = cycle_count m" and "timers_wf (m_timers m)"
    and "unat (cycle_count m) + charged cs + 16384 < 18446744073709551616"
    and "charged cs + unat c + 16384 < max_observed" and "t < 3" and "0 < c"
  defines "m1 \<equiv> fold (psx_advance_cycles e) cs m"
  defines "m2 \<equiv> psx_devices_mmio_sync e (psx_advance_cycles e c (m1\<lparr>event_step_conservative := True\<rparr>))"
  shows "cycle_count m2 = cycle_count m1 + ucast c
       \<and> timer_regs t (m_timers m2) = timer_regs t (timers_advance (of_nat (charged cs - lag m1 + unat c)) (m_timers m))"
proof -
  let ?v = "\<lambda>m t. timer_regs t (m_timers m)"
  define w where "w = m1\<lparr>event_step_conservative := True\<rparr>"
  obtain n where n: "sched_ok m1" "n + lag m1 = charged cs" "timers_took n (?v m) (?v m1)"
    using timer_obs.R_charges [where m = m and cs = cs and e = e] assms(1-5) by (auto simp: m1_def)
  have a: "psx_advance_cycles e c w = watchdog_tick c (psx_advance_cycles_exact e c w)"
    using n(1) assms(7) by (simp add: psx_advance_cycles_def w_def sched_ok_def)
  have s: "devices_synced (psx_advance_cycles e c w) = cycle_count (psx_advance_cycles e c w)"
    unfolding a by (simp add: psx_advance_cycles_exact_def Let_def)
  have "timers_took (0 + unat c) (?v w) (?v (exact_loop e c (interrupts_service_scheduled_events e w)))"
    by (rule timer_obs.R_trans [OF timer_obs.R_events timer_obs.R_exact_loop]) (use assms(5) in simp_all)
  then have "timers_took (unat c) (?v m1) (?v m2)"
    unfolding m2_def w_def [symmetric] psx_devices_mmio_sync_def using s
    by (simp add: a psx_advance_cycles_exact_def Let_def) (simp add: w_def)
  from timers_took_trans [OF n(3) this] have "timers_took (n + unat c) (?v m) (?v m2)"
    using n(2) assms(5) by simp
  moreover have "n + unat c = charged cs - lag m1 + unat c" using n(2) by simp
  moreover have "cycle_count m2 = cycle_count m1 + ucast c"
    using n(1) by (simp add: m2_def psx_devices_mmio_sync_def Let_def count_charge sched_ok_def)
  ultimately show ?thesis
    using assms(3,6) by (simp add: timers_took_def timer_regs_advance) (simp add: timers_wf_def timer_regs_def)
qed

section \<open>An example machine\<close>

definition demo_mach_env :: "(unit, u32 list) mach_env" where
  "demo_mach_env = \<lparr>me_sio = \<lambda>_. demo_sio_env, me_dma = demo_env, me_cd_advance = \<lambda>_ _ d. d,
     me_cd_cycles = \<lambda>_ _. 0xFFFFFFFF, me_gpu_vblank = \<lambda>d. d\<rparr>"

definition demo_machine :: "(unit, u32 list) machine" where
  "demo_machine = \<lparr>cycle_count = 0, watchdog_throttle = 0, pc_sample_throttle = 0, watchdog_checks = 0, pc_samples = 0,
     event_step_conservative = False, ls_replay_active = False, devices_synced = 0, next_service = 16384,
     in_device_service = False, cycles_since_vblank = 0, dispatch_count = 0, in_exception = False,
     last_sio_seq_seen = 0, last_sio_progress = 0, vblank_raise_count = 0, m_i_mask = 0x70, m_mmio_count = 0,
     m_port = demo_port, m_sio = sio_init (sio_boot demo_cards demo_port), m_dma = demo_dma, m_timers = demo_timers\<rparr>"

lemma demo_machine_ok:
  "sched_ok demo_machine" "devices_synced demo_machine = cycle_count demo_machine" "timers_wf (m_timers demo_machine)"
  "cycle_count demo_machine = 0" "lag demo_machine = 0" "cycles_since_vblank demo_machine = 0" "vblank_raise_count demo_machine = 0"
  by (simp_all add: sched_ok_def demo_machine_def lag_def timers_wf_def demo_timers_def)

theorem sched_lag_bounded_witness:
  "sched_ok (fold (psx_advance_cycles demo_mach_env) [40, 600000, 7] demo_machine)
     \<and> lag (fold (psx_advance_cycles demo_mach_env) [40, 600000, 7] demo_machine) < 16384"
  using sched_lag_bounded [where m = demo_machine and e = demo_mach_env and cs = "[40, 600000, 7]"]
  by (simp add: demo_machine_ok charged_def)

theorem sched_timers_exact_witness:
  "timer_regs 2 (m_timers (psx_devices_mmio_sync demo_mach_env (fold (psx_advance_cycles demo_mach_env) [40, 600000, 7] demo_machine)))
     = timer_regs 2 (timers_advance 600047 (m_timers demo_machine))"
  using sched_timers_exact [where m = demo_machine and e = demo_mach_env and cs = "[40, 600000, 7]" and t = 2]
  by (simp add: demo_machine_ok charged_def max_observed_def)

theorem sched_frames_exact_witness:
  "vblank_raise_count (psx_devices_mmio_sync demo_mach_env (fold (psx_advance_cycles demo_mach_env) [40, 600000, 7] demo_machine)) * 564480
     + ucast (cycles_since_vblank (psx_devices_mmio_sync demo_mach_env (fold (psx_advance_cycles demo_mach_env) [40, 600000, 7] demo_machine)))
     = 600047"
  using sched_frames_exact [where m = demo_machine and e = demo_mach_env and cs = "[40, 600000, 7]"]
  by (simp add: demo_machine_ok charged_def max_observed_def)

theorem sched_toggle_loses_cycles_witness:
  "timer_regs 2 (m_timers (psx_devices_mmio_sync demo_mach_env (psx_advance_cycles demo_mach_env 1
      ((psx_advance_cycles demo_mach_env 100 demo_machine)\<lparr>event_step_conservative := True\<rparr>))))
     = timer_regs 2 (timers_advance 1 (m_timers demo_machine))"
proof -
  have "lag (psx_advance_cycles demo_mach_env 100 demo_machine) = 100"
    by (simp add: psx_advance_cycles_def demo_machine_def lag_def)
  then show ?thesis
    using sched_toggle_loses_cycles [where m = demo_machine and e = demo_mach_env and cs = "[100]" and c = 1 and t = 2]
    by (simp add: demo_machine_ok charged_def max_observed_def)
qed

end
