(* ===== verification/Idle_Skip.thy ===== *)
theory Idle_Skip
  imports Scheduler_Props
begin

text \<open>
  The wait-loop skip of \<open>psx_cycles.c\<close>: \<open>psx_idle_note_check\<close> watches the interrupt checks of a
  poll loop and, once four of them in a row show no store, no MMIO access and no register change
  (or one register counting down), moves the clock forward by whole loop iterations.

  \<open>idle_st\<close> holds the statics of the detector. The registers it compares are \<open>cpu_regs\<close>; the call
  bail, precise-mode and lockstep flags of other files are \<open>idle_gates\<close>. The store counter is the one
  of the guest memory behind the DMA controller. The 64-bit skip counters are kept, \<open>getenv\<close> is the
  parameter \<open>env\<close>.
\<close>

section \<open>The detector\<close>

record cpu_regs =
  g_gpr :: "nat \<Rightarrow> u32"
  g_hi :: u32
  g_lo :: u32

record idle_gates =
  psx_call_bail :: bool
  precise_mode :: bool
  ls_mode :: int

record idle_st =
  idle_enabled :: int
  idle_skips :: u64
  idle_skip_cycles :: u64
  idle_last_pc :: u32
  idle_last_quantum :: u32
  note_suppress :: bool
  idle_pc :: u32
  idle_quantum :: u32
  idle_streak :: u32
  idle_gpr :: "nat \<Rightarrow> u32"
  idle_hi :: u32
  idle_lo :: u32
  progress_reg :: int
  progress_delta :: int
  idle_last_cycle :: u64
  idle_last_stores :: u64
  idle_last_mmio :: u64

definition IDLE_STREAK_MIN :: u32 where "IDLE_STREAK_MIN = 4"
definition IDLE_QUANTUM_MAX :: u32 where "IDLE_QUANTUM_MAX = 32768"
definition IDLE_SKIP_MAX_CYCLES :: u64 where "IDLE_SKIP_MAX_CYCLES = 1200000"

definition idle_boot :: idle_st where
  "idle_boot = \<lparr>idle_enabled = -1, idle_skips = 0, idle_skip_cycles = 0, idle_last_pc = 0, idle_last_quantum = 0,
     note_suppress = False, idle_pc = 0, idle_quantum = 0, idle_streak = 0, idle_gpr = (\<lambda>_. 0), idle_hi = 0,
     idle_lo = 0, progress_reg = -2, progress_delta = 0, idle_last_cycle = 0, idle_last_stores = 0,
     idle_last_mmio = 0\<rparr>"

definition idle_snapshot_regs :: "cpu_regs \<Rightarrow> idle_st \<Rightarrow> idle_st" where
  "idle_snapshot_regs r i = i\<lparr>idle_gpr := (\<lambda>j. if 1 \<le> j \<and> j < 32 then g_gpr r j else idle_gpr i j),
     idle_hi := g_hi r, idle_lo := g_lo r\<rparr>"

text \<open>\<open>env\<close> tells whether the environment variable \<open>PSX_IDLE_SKIP\<close> starts with 1.\<close>

definition idle_skip_on :: "bool \<Rightarrow> idle_st \<Rightarrow> bool \<times> idle_st" where
  "idle_skip_on env i =
     (let i = (if idle_enabled i < 0 then i\<lparr>idle_enabled := (if env then 1 else 0)\<rparr> else i)
      in (idle_enabled i \<noteq> 0, i))"

text \<open>The scan stops at the second changed register.\<close>

definition changed_regs :: "cpu_regs \<Rightarrow> idle_st \<Rightarrow> nat list" where
  "changed_regs r i = filter (\<lambda>j. g_gpr r j \<noteq> idle_gpr i j) [1..<32]"

definition idle_change :: "cpu_regs \<Rightarrow> idle_st \<Rightarrow> int \<times> int" where
  "idle_change r i =
     (let cs = changed_regs r i;
          changed = hd (cs @ [0]);
          changed_count = (if g_hi r \<noteq> idle_hi i \<or> g_lo r \<noteq> idle_lo i then 2 else min 2 (length cs));
          delta = (if changed_count = 1 then sint (g_gpr r changed - idle_gpr i changed) else 0)
      in (if changed_count = 0 then -1 else if changed_count = 1 \<and> delta = -1 then int changed else -2, delta))"

definition idle_window :: "cpu_regs \<Rightarrow> u64 \<Rightarrow> idle_st \<Rightarrow> idle_st" where
  "idle_window r cyc i =
     (let (preg, delta) = idle_change r i;
          quantum = ucast (cyc - idle_last_cycle i) :: u32
      in idle_snapshot_regs r
           (if preg \<noteq> -2 \<and> quantum > 0 \<and> quantum \<le> IDLE_QUANTUM_MAX
            then if quantum = idle_quantum i \<and> preg = progress_reg i \<and> delta = progress_delta i
                 then if idle_streak i < 1000000 then i\<lparr>idle_streak := idle_streak i + 1\<rparr> else i
                 else i\<lparr>idle_quantum := quantum, progress_reg := preg, progress_delta := delta, idle_streak := 1\<rparr>
            else i\<lparr>idle_streak := 0, idle_quantum := 0, progress_reg := -2, progress_delta := 0\<rparr>))"

abbreviation store_count :: "('d, 'x) machine \<Rightarrow> u64" where
  "store_count m \<equiv> gm_stores (d_mem (m_dma m))"

definition idle_observe :: "cpu_regs \<Rightarrow> u32 \<Rightarrow> ('d, 'x) machine \<Rightarrow> idle_st \<Rightarrow> idle_st" where
  "idle_observe r check_pc m i =
     (let i = (if check_pc = idle_pc i \<and> store_count m = idle_last_stores i \<and> m_mmio_count m = idle_last_mmio i
               then idle_window r (cycle_count m) i
               else idle_snapshot_regs r (i\<lparr>idle_pc := check_pc, idle_streak := 0, idle_quantum := 0,
                      progress_reg := -2, progress_delta := 0\<rparr>))
      in i\<lparr>idle_last_cycle := cycle_count m, idle_last_stores := store_count m, idle_last_mmio := m_mmio_count m\<rparr>)"

text \<open>How many iterations to skip; 0 when none.\<close>

definition idle_iterations :: "cpu_regs \<Rightarrow> u32 \<Rightarrow> idle_st \<Rightarrow> u32" where
  "idle_iterations r dist i =
     (let q = idle_quantum i
      in if dist \<le> q then 0
         else let k = (dist + q - 1) div q
              in if progress_reg i > 0
                 then let v = g_gpr r (nat (progress_reg i)); max_k = (if v > 1 then v - 1 else 0)
                      in if k > max_k then max_k else k
                 else k)"

definition psx_idle_note_check ::
  "bool \<Rightarrow> ('d, 'x) mach_env \<Rightarrow> idle_gates \<Rightarrow> u32 \<Rightarrow> cpu_regs \<Rightarrow> ('d, 'x) machine \<Rightarrow> idle_st \<Rightarrow>
     cpu_regs \<times> ('d, 'x) machine \<times> idle_st" where
  "psx_idle_note_check env e g check_pc r m i =
     (let (on, i) = idle_skip_on env i
      in if \<not> on \<or> note_suppress i then (r, m, i)
         else if check_pc = 0 \<or> in_exception m \<or> psx_call_bail g \<or> precise_mode g \<or> ls_mode g \<noteq> 0 \<or> ls_replay_active m
         then (r, m, i\<lparr>idle_pc := 0, idle_streak := 0\<rparr>)
         else let i = idle_observe r check_pc m i
              in if idle_streak i < IDLE_STREAK_MIN then (r, m, i)
                 else let q = idle_quantum i;
                          k = idle_iterations r (devices_cycles_to_next_idle_event e m) i;
                          skip = ucast k * ucast q :: u64
                      in if k = 0 \<or> skip > IDLE_SKIP_MAX_CYCLES then (r, m, i)
                         else let p = nat (progress_reg i);
                                  r = (if progress_reg i > 0 then r\<lparr>g_gpr := (g_gpr r)(p := g_gpr r p - k)\<rparr> else r);
                                  i = i\<lparr>idle_skips := idle_skips i + 1, idle_skip_cycles := idle_skip_cycles i + skip,
                                        idle_last_pc := check_pc, idle_last_quantum := q\<rparr>;
                                  m = psx_advance_cycles e (ucast skip) m;
                                  i = idle_snapshot_regs r (i\<lparr>idle_streak := 0\<rparr>)
                              in (r, m, i\<lparr>idle_last_cycle := cycle_count m, idle_last_stores := store_count m,
                                          idle_last_mmio := m_mmio_count m\<rparr>))"

section \<open>What a skip may do\<close>

text \<open>A streak of four can only have been extended by this very check.\<close>

lemma observe_streak:
  assumes "idle_streak (idle_observe r pc m i) \<ge> IDLE_STREAK_MIN"
  shows "pc = idle_pc i" "store_count m = idle_last_stores i" "m_mmio_count m = idle_last_mmio i"
    "idle_quantum (idle_observe r pc m i) = ucast (cycle_count m - idle_last_cycle i)"
    "0 < idle_quantum (idle_observe r pc m i)" "idle_quantum (idle_observe r pc m i) \<le> IDLE_QUANTUM_MAX"
    "idle_change r i = (progress_reg (idle_observe r pc m i), progress_delta (idle_observe r pc m i))"
    "progress_reg (idle_observe r pc m i) \<noteq> -2"
  using assms
  by (auto simp: idle_observe_def idle_window_def idle_snapshot_regs_def Let_def IDLE_STREAK_MIN_def
      split: if_splits prod.splits)

lemma idle_change_cases:
  assumes "idle_change r i = (preg, delta)" "preg \<noteq> -2"
  shows "g_hi r = idle_hi i" "g_lo r = idle_lo i"
    "preg = -1 \<and> (\<forall>j. 1 \<le> j \<and> j < 32 \<longrightarrow> g_gpr r j = idle_gpr i j)
     \<or> (\<exists>p. preg = int p \<and> 1 \<le> p \<and> p < 32 \<and> g_gpr r p = idle_gpr i p - 1
         \<and> (\<forall>j. 1 \<le> j \<and> j < 32 \<and> j \<noteq> p \<longrightarrow> g_gpr r j = idle_gpr i j))"
proof -
  show h: "g_hi r = idle_hi i" "g_lo r = idle_lo i"
    using assms by (auto simp: idle_change_def Let_def split: if_splits)
  define cs where "cs = changed_regs r i"
  have mem: "j \<in> set cs \<longleftrightarrow> 1 \<le> j \<and> j < 32 \<and> g_gpr r j \<noteq> idle_gpr i j" for j
    by (auto simp: cs_def changed_regs_def)
  consider (none) "cs = []" | (one) p where "cs = [p]" | (more) "2 \<le> length cs"
    by (cases cs rule: remdups_adj.cases) auto
  then show "preg = -1 \<and> (\<forall>j. 1 \<le> j \<and> j < 32 \<longrightarrow> g_gpr r j = idle_gpr i j)
     \<or> (\<exists>p. preg = int p \<and> 1 \<le> p \<and> p < 32 \<and> g_gpr r p = idle_gpr i p - 1
         \<and> (\<forall>j. 1 \<le> j \<and> j < 32 \<and> j \<noteq> p \<longrightarrow> g_gpr r j = idle_gpr i j))"
  proof cases
    case none
    then show ?thesis using assms h mem by (auto simp: idle_change_def cs_def Let_def)
  next
    case one
    have d: "g_gpr r p = idle_gpr i p - 1" if "sint (g_gpr r p - idle_gpr i p) = -1"
    proof -
      have "g_gpr r p - idle_gpr i p = of_int (sint (g_gpr r p - idle_gpr i p))" by simp
      also have "\<dots> = -1" by (simp add: that)
      finally show ?thesis by (simp add: algebra_simps)
    qed
    have "preg = int p" "sint (g_gpr r p - idle_gpr i p) = -1"
      using assms h one by (auto simp: idle_change_def cs_def Let_def split: if_splits)
    with d show ?thesis using one mem by (metis list.set_intros(1) set_ConsD empty_iff list.set(1))
  next
    case more
    then show ?thesis using assms h by (auto simp: idle_change_def cs_def Let_def min_def split: if_splits)
  qed
qed

lemma idle_event_near: "devices_cycles_to_next_idle_event e m \<noteq> 0" "unat (devices_cycles_to_next_idle_event e m) \<le> 564480"
proof -
  show "devices_cycles_to_next_idle_event e m \<noteq> 0"
    by (simp add: devices_cycles_to_next_idle_event_def Let_def)
  have "unat (nearer t b) \<le> 564480" if "unat b \<le> 564480" for t b :: u32
    using that by (simp add: nearer_def word_less_nat_alt)
  moreover have "unat (interrupts_cycles_to_vblank m) \<le> 564480"
  proof (cases "cycles_since_vblank m \<ge> VBLANK_CYCLES")
    case False
    then have "unat (VBLANK_CYCLES - cycles_since_vblank m) = unat VBLANK_CYCLES - unat (cycles_since_vblank m)"
      by (simp add: unat_sub order_less_imp_le not_le)
    with False show ?thesis by (simp add: interrupts_cycles_to_vblank_def VBLANK_CYCLES_def)
  qed (simp add: interrupts_cycles_to_vblank_def)
  ultimately show "unat (devices_cycles_to_next_idle_event e m) \<le> 564480"
    unfolding devices_cycles_to_next_idle_event_def Let_def by (simp split: if_split)
qed

text \<open>The number of iterations is the least that reaches the event, or what the countdown allows.\<close>

lemma idle_iterations_bounds:
  assumes "0 < idle_quantum i" "idle_quantum i \<le> IDLE_QUANTUM_MAX" "unat dist \<le> 564480" "idle_iterations r dist i \<noteq> 0"
  defines "k \<equiv> unat (idle_iterations r dist i)" and "q \<equiv> unat (idle_quantum i)"
  shows "(k - 1) * q < unat dist" "q < unat dist" "progress_reg i \<le> 0 \<Longrightarrow> unat dist \<le> k * q"
    "progress_reg i > 0 \<Longrightarrow> k < unat (g_gpr r (nat (progress_reg i)))"
proof -
  let ?v = "g_gpr r (nat (progress_reg i))"
  define n where "n = unat ((dist + idle_quantum i - 1) div idle_quantum i)"
  have lt: "q < unat dist" and q: "0 < q" "q \<le> 32768"
    using assms(1,2,4) by (auto simp: idle_iterations_def q_def IDLE_QUANTUM_MAX_def word_less_nat_alt word_le_nat_alt Let_def split: if_splits)
  have "unat (dist + idle_quantum i) = unat dist + q"
    using unat_add_lem [of dist "idle_quantum i"] q assms(3) by (simp add: q_def)
  moreover from this have "1 \<le> dist + idle_quantum i" using q by (simp add: word_le_nat_alt)
  ultimately have n: "n = (unat dist + q - 1) div q"
    using unat_sub [of 1 "dist + idle_quantum i"] by (simp add: n_def unat_div q_def)
  have "q * n \<le> unat dist + q - 1" "unat dist + q - 1 < q * n + q"
    using q times_div_less_eq_dividend [of q "unat dist + q - 1"] dividend_less_times_div [of q "unat dist + q - 1"]
    by (simp_all add: n)
  then have up: "unat dist \<le> n * q" and down: "n * q < unat dist + q" using q by (simp_all add: mult.commute)
  have cut: "unat (if (dist + idle_quantum i - 1) div idle_quantum i > (if ?v > 1 then ?v - 1 else 0)
      then (if ?v > 1 then ?v - 1 else 0) else (dist + idle_quantum i - 1) div idle_quantum i) = min n (unat ?v - 1)"
    by (auto simp: n_def word_less_nat_alt unat_sub word_le_nat_alt not_less min_def)
  have k: "k = (if progress_reg i > 0 then min n (unat ?v - 1) else n)"
    using lt by (auto simp: k_def idle_iterations_def Let_def q_def n_def word_le_nat_alt not_le cut)
  show "q < unat dist" by (rule lt)
  have "k \<noteq> 0" using assms(4) by (simp add: k_def unat_eq_zero)
  have "(n - 1) * q < unat dist" using down lt q unfolding diff_mult_distrib by linarith
  moreover have "(k - 1) * q \<le> (n - 1) * q" using k by (intro mult_le_mono) auto
  ultimately show "(k - 1) * q < unat dist" by linarith
  show "progress_reg i \<le> 0 \<Longrightarrow> unat dist \<le> k * q" using k up by simp
  show "progress_reg i > 0 \<Longrightarrow> k < unat ?v" using k \<open>k \<noteq> 0\<close> by auto
qed

text \<open>What a call that skips does, in terms of the state \<open>j\<close> of the detector after its observation.\<close>

lemma note_check_skip:
  fixes e :: "('d, 'x) mach_env" and m :: "('d, 'x) machine"
  assumes "psx_idle_note_check env e g pc r m i = (r', m', i')" "idle_skips i' \<noteq> idle_skips i"
  obtains i0 j where "idle_observe r pc m i0 = j" "idle_streak j \<ge> IDLE_STREAK_MIN" "idle_skips i0 = idle_skips i"
    "idle_pc i0 = idle_pc i" "idle_last_stores i0 = idle_last_stores i" "idle_last_mmio i0 = idle_last_mmio i"
    "idle_gpr i0 = idle_gpr i" "idle_hi i0 = idle_hi i" "idle_lo i0 = idle_lo i"
    "idle_iterations r (devices_cycles_to_next_idle_event e m) j \<noteq> 0"
    "unat (idle_iterations r (devices_cycles_to_next_idle_event e m) j) * unat (idle_quantum j) \<le> 1200000"
    "r' = (if progress_reg j > 0 then r\<lparr>g_gpr := (g_gpr r)(nat (progress_reg j) := g_gpr r (nat (progress_reg j))
       - idle_iterations r (devices_cycles_to_next_idle_event e m) j)\<rparr> else r)"
    "m' = psx_advance_cycles e (idle_iterations r (devices_cycles_to_next_idle_event e m) j * idle_quantum j) m"
    "idle_last_quantum i' = idle_quantum j" "progress_reg i' = progress_reg j" "\<not> in_exception m" "\<not> ls_replay_active m"
proof -
  obtain on i0 where on: "idle_skip_on env i = (on, i0)" by force
  define j where "j = idle_observe r pc m i0"
  define k where "k = idle_iterations r (devices_cycles_to_next_idle_event e m) j"
  define skip where "skip = (ucast k * ucast (idle_quantum j) :: u64)"
  have same: "idle_skips i0 = idle_skips i" "idle_pc i0 = idle_pc i" "idle_last_stores i0 = idle_last_stores i"
    "idle_last_mmio i0 = idle_last_mmio i" "idle_gpr i0 = idle_gpr i" "idle_hi i0 = idle_hi i" "idle_lo i0 = idle_lo i"
    using on by (auto simp: idle_skip_on_def Let_def split: if_splits)
  have jsk: "idle_skips j = idle_skips i"
    by (simp add: j_def idle_observe_def idle_window_def idle_snapshot_regs_def Let_def same split: prod.split)
  note res = assms(1) [unfolded psx_idle_note_check_def on prod.case Let_def, folded j_def, folded k_def, folded skip_def]
  have run: "on \<and> \<not> note_suppress i0" "\<not> (pc = 0 \<or> in_exception m \<or> psx_call_bail g \<or> precise_mode g \<or> ls_mode g \<noteq> 0 \<or> ls_replay_active m)"
    "\<not> idle_streak j < IDLE_STREAK_MIN" "\<not> (k = 0 \<or> skip > IDLE_SKIP_MAX_CYCLES)"
    using res assms(2) same(1) jsk by (auto split: if_splits)
  have "unat k * unat (idle_quantum j) < 4294967296 * 4294967296"
    by (rule mult_strict_mono) (use unsigned_less [where 'a = nat, of k] unsigned_less [where 'a = nat, of "idle_quantum j"] in simp_all)
  then have s: "unat skip = unat k * unat (idle_quantum j)"
    using unat_mult_lem [of "ucast k :: u64" "ucast (idle_quantum j)"] by (simp add: skip_def)
  have cut: "ucast skip = k * idle_quantum j"
    by (simp add: skip_def word_unat_eq_iff unat_word_ariths unsigned_ucast_eq take_bit_eq_mod mod_mod_cancel)
  show thesis
  proof (rule that [of i0 j])
    show "unat (idle_iterations r (devices_cycles_to_next_idle_event e m) j) * unat (idle_quantum j) \<le> 1200000"
      using run(4) s by (simp add: k_def [symmetric] IDLE_SKIP_MAX_CYCLES_def not_less word_le_nat_alt)
    show "r' = (if progress_reg j > 0 then r\<lparr>g_gpr := (g_gpr r)(nat (progress_reg j) := g_gpr r (nat (progress_reg j))
        - idle_iterations r (devices_cycles_to_next_idle_event e m) j)\<rparr> else r)"
      "m' = psx_advance_cycles e (idle_iterations r (devices_cycles_to_next_idle_event e m) j * idle_quantum j) m"
      "idle_last_quantum i' = idle_quantum j" "progress_reg i' = progress_reg j"
      using res run by (auto simp: k_def [symmetric] cut [symmetric] idle_snapshot_regs_def)
  qed (use run same in \<open>simp_all add: j_def k_def not_less\<close>)
qed

text \<open>C24: A skip happens only where the evidence allows it, and is bounded: the check repeats the
  resume address of the last one with no guest store and no MMIO access in between, the registers
  are as they were, or one of them is one lower; the clock moves by \<open>k\<close> whole loop
  iterations of \<open>q\<close> cycles, \<open>q \<le> 32768\<close> and \<open>k * q \<le> 1200000\<close>, one iteration less would not cover
  the predicted distance; a countdown register is lowered by \<open>k\<close>, never to zero, and no other
  register changes.\<close>

theorem idle_skip_justified:
  fixes e :: "('d, 'x) mach_env" and m :: "('d, 'x) machine"
  assumes "psx_idle_note_check env e g pc r m i = (r', m', i')" "idle_skips i' \<noteq> idle_skips i"
  shows "\<exists>k q. q = unat (idle_last_quantum i') \<and> 0 < q \<and> q \<le> 32768 \<and> k * q \<le> 1200000
      \<and> (k - 1) * q < unat (devices_cycles_to_next_idle_event e m)
      \<and> cycle_count m' = cycle_count m + of_nat (k * q)
      \<and> pc = idle_pc i \<and> store_count m = idle_last_stores i \<and> m_mmio_count m = idle_last_mmio i
      \<and> g_hi r = idle_hi i \<and> g_lo r = idle_lo i
      \<and> ((\<forall>j\<in>{1..<32}. g_gpr r j = idle_gpr i j) \<and> r' = r
         \<or> (\<exists>p\<in>{1..<32}. g_gpr r p = idle_gpr i p - 1 \<and> (\<forall>j\<in>{1..<32} - {p}. g_gpr r j = idle_gpr i j)
              \<and> k < unat (g_gpr r p) \<and> r' = r\<lparr>g_gpr := (g_gpr r)(p := g_gpr r p - of_nat k)\<rparr>))"
proof -
  obtain i0 j where j: "idle_observe r pc m i0 = j" "idle_streak j \<ge> IDLE_STREAK_MIN"
    and same: "idle_pc i0 = idle_pc i" "idle_last_stores i0 = idle_last_stores i" "idle_last_mmio i0 = idle_last_mmio i"
    "idle_gpr i0 = idle_gpr i" "idle_hi i0 = idle_hi i" "idle_lo i0 = idle_lo i"
    and k0: "idle_iterations r (devices_cycles_to_next_idle_event e m) j \<noteq> 0"
    and le: "unat (idle_iterations r (devices_cycles_to_next_idle_event e m) j) * unat (idle_quantum j) \<le> 1200000"
    and r': "r' = (if progress_reg j > 0 then r\<lparr>g_gpr := (g_gpr r)(nat (progress_reg j) := g_gpr r (nat (progress_reg j))
       - idle_iterations r (devices_cycles_to_next_idle_event e m) j)\<rparr> else r)"
    and m': "m' = psx_advance_cycles e (idle_iterations r (devices_cycles_to_next_idle_event e m) j * idle_quantum j) m"
    and l: "idle_last_quantum i' = idle_quantum j" "\<not> ls_replay_active m"
    by (rule note_check_skip [OF assms])
  define k where "k = idle_iterations r (devices_cycles_to_next_idle_event e m) j"
  note st = observe_streak [of r pc m i0, unfolded j(1), OF j(2)]
  note b = idle_iterations_bounds [OF st(5,6) idle_event_near(2) k0, folded k_def]
  have mul: "unat (k * idle_quantum j) = unat k * unat (idle_quantum j)"
    using le unat_mult_lem [of k "idle_quantum j"] by (simp add: k_def)
  have cyc: "cycle_count m' = cycle_count m + of_nat (unat k * unat (idle_quantum j))"
    unfolding mul [symmetric] using l(2) by (simp add: m' k_def count_charge)
  note ch = idle_change_cases [OF st(7,8), unfolded same]
  have regs: "(\<forall>j\<in>{1..<32}. g_gpr r j = idle_gpr i j) \<and> r' = r
      \<or> (\<exists>p\<in>{1..<32}. g_gpr r p = idle_gpr i p - 1 \<and> (\<forall>j\<in>{1..<32} - {p}. g_gpr r j = idle_gpr i j)
              \<and> unat k < unat (g_gpr r p) \<and> r' = r\<lparr>g_gpr := (g_gpr r)(p := g_gpr r p - of_nat (unat k))\<rparr>)"
    using ch(3)
  proof
    assume "progress_reg j = -1 \<and> (\<forall>ja. 1 \<le> ja \<and> ja < 32 \<longrightarrow> g_gpr r ja = idle_gpr i ja)"
    then show ?thesis by (simp add: r')
  next
    assume "\<exists>p. progress_reg j = int p \<and> 1 \<le> p \<and> p < 32 \<and> g_gpr r p = idle_gpr i p - 1 \<and>
        (\<forall>ja. 1 \<le> ja \<and> ja < 32 \<and> ja \<noteq> p \<longrightarrow> g_gpr r ja = idle_gpr i ja)"
    then obtain p where p: "progress_reg j = int p" "p \<in> {1..<32}" "g_gpr r p = idle_gpr i p - 1"
      "\<forall>ja\<in>{1..<32} - {p}. g_gpr r ja = idle_gpr i ja" by auto
    from p(1,2) b(4) have "unat k < unat (g_gpr r p)" by simp
    moreover have "r' = r\<lparr>g_gpr := (g_gpr r)(p := g_gpr r p - of_nat (unat k))\<rparr>" using p(1,2) by (simp add: r' k_def)
    ultimately show ?thesis using p(2-4) by blast
  qed
  show ?thesis
    by (rule exI [of _ "unat k"], rule exI [of _ "unat (idle_quantum j)"])
       (use st(1-3,5,6) same l(1) b(1) le cyc ch(1,2) regs in
         \<open>auto simp: k_def word_less_nat_alt word_le_nat_alt IDLE_QUANTUM_MAX_def\<close>)
qed


section \<open>An example poll loop\<close>

definition demo_polling :: "(unit, u32 list) machine" where
  "demo_polling = demo_machine\<lparr>cycle_count := 100, m_i_mask := 0\<rparr>"

definition demo_idle :: idle_st where
  "demo_idle = idle_boot\<lparr>idle_enabled := 1, idle_pc := 0x80010000, idle_quantum := 20, idle_streak := 3,
     progress_reg := -1, idle_last_cycle := 80\<rparr>"

definition demo_regs :: cpu_regs where "demo_regs = \<lparr>g_gpr = \<lambda>_. 0, g_hi = 0, g_lo = 0\<rparr>"

lemma demo_next_event: "devices_cycles_to_next_idle_event demo_mach_env demo_polling = 564480"
proof -
  have "timers_cycles_to_irq 0 s = 0xFFFFFFFF" for s
    by (simp add: timers_cycles_to_irq_def timer_cycles_to_irq_one_def has_def)
  moreover have "m_i_mask demo_polling = 0" "cycles_since_vblank demo_polling = 0"
    by (simp_all add: demo_polling_def demo_machine_def)
  ultimately show ?thesis
    by (simp add: devices_cycles_to_next_idle_event_def Let_def interrupts_cycles_to_vblank_def VBLANK_CYCLES_def
        demo_mach_env_def sio_cycles_to_irq_def dma_cycles_to_deliverable_irq_def nearer_def has_def)
qed

lemma demo_observed:
  "idle_observe demo_regs 0x80010000 demo_polling demo_idle
     = demo_idle\<lparr>idle_streak := 4, idle_last_cycle := 100\<rparr>"
proof -
  have "changed_regs demo_regs demo_idle = []" by (simp add: changed_regs_def demo_regs_def demo_idle_def idle_boot_def)
  moreover have "store_count demo_polling = 0" "cycle_count demo_polling = 100" "m_mmio_count demo_polling = 0"
    by (simp_all add: demo_polling_def demo_machine_def demo_mem_def)
  ultimately show ?thesis
    by (simp add: idle_observe_def idle_window_def idle_change_def demo_regs_def demo_idle_def idle_boot_def
       IDLE_QUANTUM_MAX_def idle_snapshot_regs_def cong: if_cong)
qed

definition demo_check :: "cpu_regs \<times> (unit, u32 list) machine \<times> idle_st" where
  "demo_check = psx_idle_note_check False demo_mach_env \<lparr>psx_call_bail = False, precise_mode = False, ls_mode = 0\<rparr>
     0x80010000 demo_regs demo_polling demo_idle"

lemma demo_skips:
  "fst demo_check = demo_regs" "idle_skips (snd (snd demo_check)) \<noteq> idle_skips demo_idle"
  "idle_last_quantum (snd (snd demo_check)) = 20" "progress_reg (snd (snd demo_check)) = -1"
  "cycle_count (fst (snd demo_check)) = 564580"
proof -
  define j where "j = demo_idle\<lparr>idle_streak := 4, idle_last_cycle := 100\<rparr>"
  define g where "g = \<lparr>psx_call_bail = False, precise_mode = False, ls_mode = 0\<rparr>"
  have on: "idle_skip_on False demo_idle = (True, demo_idle)" by (simp add: idle_skip_on_def demo_idle_def)
  have f: "note_suppress demo_idle = False" "in_exception demo_polling = False" "ls_replay_active demo_polling = False"
    by (simp_all add: demo_idle_def idle_boot_def demo_polling_def demo_machine_def)
  have j: "idle_quantum j = 20" "progress_reg j = -1" "idle_streak j = 4" "idle_skips j = 0"
    by (simp_all add: j_def demo_idle_def idle_boot_def)
  have k: "idle_iterations demo_regs 564480 j = 28224"
    by (simp add: idle_iterations_def j Let_def)
  have c: "cycle_count (psx_advance_cycles demo_mach_env 564480 demo_polling) = 564580"
    by (simp add: count_charge f) (simp add: demo_polling_def)
  have "fst demo_check = demo_regs \<and> idle_skips (snd (snd demo_check)) = 1
      \<and> idle_last_quantum (snd (snd demo_check)) = 20 \<and> progress_reg (snd (snd demo_check)) = -1
      \<and> cycle_count (fst (snd demo_check)) = 564580"
    unfolding demo_check_def g_def [symmetric] psx_idle_note_check_def on f Let_def prod.case demo_observed
      j_def [symmetric] demo_next_event k
    by (simp add: g_def j IDLE_STREAK_MIN_def IDLE_SKIP_MAX_CYCLES_def idle_snapshot_regs_def c)
  then show "fst demo_check = demo_regs" "idle_skips (snd (snd demo_check)) \<noteq> idle_skips demo_idle"
    "idle_last_quantum (snd (snd demo_check)) = 20" "progress_reg (snd (snd demo_check)) = -1"
    "cycle_count (fst (snd demo_check)) = 564580"
    by (simp_all add: demo_idle_def idle_boot_def)
qed

lemma demo_check_eq:
  "psx_idle_note_check False demo_mach_env \<lparr>psx_call_bail = False, precise_mode = False, ls_mode = 0\<rparr>
     0x80010000 demo_regs demo_polling demo_idle = (fst demo_check, fst (snd demo_check), snd (snd demo_check))"
  by (simp add: demo_check_def)

theorem idle_skip_justified_witness:
  "\<exists>k q. q = unat (idle_last_quantum (snd (snd demo_check))) \<and> 0 < q \<and> k * q \<le> 1200000 \<and> (k - 1) * q < 564480
      \<and> cycle_count (fst (snd demo_check)) = 100 + of_nat (k * q)"
proof -
  have "cycle_count demo_polling = 100" by (simp add: demo_polling_def)
  with idle_skip_justified [OF demo_check_eq demo_skips(2), unfolded demo_next_event]
  show ?thesis by (elim exE conjE) (rule exI, rule exI, intro conjI, assumption+, simp_all)
qed


end
