(* ===== verification/Cpu_Timing.thy ===== *)
theory Cpu_Timing
  imports Scheduler_Props
begin

text \<open>
  What an instruction costs: the instruction cache (\<open>psx_icache.c\<close>), the load-delay interlock
  (\<open>psx_cyc.h\<close>, \<open>psx_instr_cost.h\<close> and the load helpers of \<open>memory.c\<close>), and the completion stalls of
  the multiplier and the GTE (\<open>psx_cycles.c\<close>).

  \<open>cyc_st\<close> holds the timing fields at the end of \<open>CPUState\<close>, \<open>core\<close> joins them with the cache tags
  and the machine whose clock is charged. The cache and the interlock are on, as they are by
  default, and the \<open>PSX_POLL_PROOF\<close> surcharge is off. The data access of a load is the parameter
  \<open>rd\<close>.
\<close>

section \<open>State\<close>

record cyc_st =
  muldiv_ts_done :: u64
  gte_ts_done :: u64
  read_absorb :: "nat \<Rightarrow> u8"
  read_absorb_which :: u8
  read_fudge :: u8
  ld_which_t :: u8
  ld_absorb :: u32

record ('d, 'x) core =
  cyc :: cyc_st
  icache_tv :: "nat \<Rightarrow> u32"
  mach :: "('d, 'x) machine"

text \<open>The CPU state of \<open>main\<close> after its \<open>memset\<close>.\<close>

definition cyc_boot :: cyc_st where
  "cyc_boot = \<lparr>muldiv_ts_done = 0, gte_ts_done = 0, read_absorb = (\<lambda>_. 0), read_absorb_which = 0, read_fudge = 0,
     ld_which_t = 0x20, ld_absorb = 0\<rparr>"

definition charge :: "('d, 'x) mach_env \<Rightarrow> u32 \<Rightarrow> ('d, 'x) core \<Rightarrow> ('d, 'x) core" where
  "charge e n k = k\<lparr>mach := psx_advance_cycles e n (mach k)\<rparr>"

abbreviation now :: "('d, 'x) core \<Rightarrow> u64" where "now k \<equiv> cycle_count (mach k)"

section \<open>Instruction cache\<close>

definition psx_icache_reset :: "('d, 'x) core \<Rightarrow> ('d, 'x) core" where
  "psx_icache_reset k = k\<lparr>icache_tv := (\<lambda>i. if i < 1024 then 1 else icache_tv k i)\<rparr>"

definition tv_index :: "u32 \<Rightarrow> nat" where
  "tv_index addr = unat (drop_bit 2 (addr AND 0xFFC))"

definition tv_line :: "u32 \<Rightarrow> nat" where
  "tv_line addr = unat (drop_bit 2 (addr AND 0xFF0))"

definition tv_word :: "u32 \<Rightarrow> nat" where
  "tv_word addr = unat (drop_bit 2 (addr AND 0xC))"

definition clear_absorb :: "cyc_st \<Rightarrow> cyc_st" where
  "clear_absorb c = c\<lparr>read_absorb := (read_absorb c)(unat (read_absorb_which c) := 0), read_absorb_which := 0\<rparr>"

definition refill :: "u32 \<Rightarrow> (nat \<Rightarrow> u32) \<Rightarrow> (nat \<Rightarrow> u32) \<times> u32" where
  "refill addr tv =
     (let line = addr AND 0xFFFFFFF0; b = tv_line addr;
          tv = tv(b := line OR 0 OR 2, b + 1 := line OR 4 OR 2, b + 2 := line OR 8 OR 2, b + 3 := line OR 0xC OR 2)
      in fold (\<lambda>i (tv, cost). (tv(b + i := tv (b + i) AND NOT 2), cost + 1)) [tv_word addr..<4] (tv, 3))"

definition psx_icache_fetch :: "('d, 'x) mach_env \<Rightarrow> u32 \<Rightarrow> ('d, 'x) core \<Rightarrow> ('d, 'x) core" where
  "psx_icache_fetch e addr k =
     (if ls_replay_active (mach k) then k
      else if icache_tv k (tv_index addr) = addr then k
      else let k = k\<lparr>cyc := clear_absorb (cyc k)\<rparr>
           in if addr \<ge> 0xA0000000 then charge e 4 k
              else let (tv, cost) = refill addr (icache_tv k) in charge e cost (k\<lparr>icache_tv := tv\<rparr>))"

section \<open>The load-delay interlock\<close>

definition psx_cyc_base :: "('d, 'x) mach_env \<Rightarrow> ('d, 'x) core \<Rightarrow> ('d, 'x) core" where
  "psx_cyc_base e k =
     (let c = cyc k; w = unat (read_absorb_which c)
      in if read_absorb c w \<noteq> 0 then k\<lparr>cyc := c\<lparr>read_absorb := (read_absorb c)(w := read_absorb c w - 1)\<rparr>\<rparr>
         else charge e 1 k)"

definition psx_cyc_deps :: "u32 \<Rightarrow> cyc_st \<Rightarrow> cyc_st" where
  "psx_cyc_deps reg_mask c =
     (let reg_mask = reg_mask AND 0xFFFFFFFE
      in c\<lparr>read_absorb := (\<lambda>n. if n < 32 \<and> bit reg_mask n then 0 else read_absorb c n)\<rparr>)"

definition psx_cyc_lds :: "cyc_st \<Rightarrow> cyc_st" where
  "psx_cyc_lds c =
     (let lw = ld_which_t c
      in c\<lparr>read_absorb := (read_absorb c)(unat lw := ucast (ld_absorb c)), read_fudge := lw,
           read_absorb_which := read_absorb_which c OR (lw AND 0x1F), ld_which_t := 0x20\<rparr>)"

definition on_cyc :: "(cyc_st \<Rightarrow> cyc_st) \<Rightarrow> ('d, 'x) core \<Rightarrow> ('d, 'x) core" where
  "on_cyc f k = k\<lparr>cyc := f (cyc k)\<rparr>"

definition psx_cyc_step :: "('d, 'x) mach_env \<Rightarrow> u32 \<Rightarrow> ('d, 'x) core \<Rightarrow> ('d, 'x) core" where
  "psx_cyc_step e reg_mask k = on_cyc psx_cyc_lds (on_cyc (psx_cyc_deps reg_mask) (psx_cyc_base e k))"

definition psx_cyc_readmem :: "('d, 'x) mach_env \<Rightarrow> u32 \<Rightarrow> u32 \<Rightarrow> u32 \<Rightarrow> u32 \<Rightarrow> ('d, 'x) core \<Rightarrow> ('d, 'x) core" where
  "psx_cyc_readmem e phys sz compl_cost arm_rt k =
     (let k = on_cyc clear_absorb k
      in if phys \<ge> 0x1F800000 \<and> phys \<le> 0x1F8003FF
         then on_cyc (\<lambda>c. c\<lparr>ld_absorb := 0, ld_which_t := ucast arm_rt\<rparr>) k
         else let k = charge e (drop_bit 4 (ucast (read_fudge (cyc k))) AND 2) k;
                  region = psx_mmio_read_wait phys sz;
                  cost = region + compl_cost;
                  k = on_cyc (\<lambda>c. c\<lparr>ld_absorb := cost\<rparr>) k;
                  k = charge e cost k
              in on_cyc (\<lambda>c. c\<lparr>ld_which_t := ucast arm_rt\<rparr>) k)"

definition psx_cyc_load_timing :: "('d, 'x) mach_env \<Rightarrow> u32 \<Rightarrow> u32 \<Rightarrow> u32 \<Rightarrow> u32 \<Rightarrow> ('d, 'x) core \<Rightarrow> ('d, 'x) core" where
  "psx_cyc_load_timing e addr sz rt reg_mask k =
     (let k = psx_cyc_base e k;
          k = on_cyc (psx_cyc_deps reg_mask) k;
          k = on_cyc (\<lambda>c. if ucast (ld_which_t c) = rt then c\<lparr>ld_which_t := 0\<rparr> else c) k;
          k = on_cyc psx_cyc_lds k
      in psx_cyc_readmem e (addr AND 0x1FFFFFFF) sz 2 rt k)"

definition psx_cyc_load_word ::
  "('d, 'x) mach_env \<Rightarrow> (u32 \<Rightarrow> ('d, 'x) core \<Rightarrow> u32 \<times> ('d, 'x) core) \<Rightarrow> u32 \<Rightarrow> u32 \<Rightarrow> u32 \<Rightarrow> ('d, 'x) core \<Rightarrow> u32 \<times> ('d, 'x) core" where
  "psx_cyc_load_word e rd addr rt reg_mask k = rd addr (psx_cyc_load_timing e addr 4 rt reg_mask k)"

definition psx_cyc_load_half ::
  "('d, 'x) mach_env \<Rightarrow> (u32 \<Rightarrow> ('d, 'x) core \<Rightarrow> u16 \<times> ('d, 'x) core) \<Rightarrow> u32 \<Rightarrow> u32 \<Rightarrow> u32 \<Rightarrow> ('d, 'x) core \<Rightarrow> u16 \<times> ('d, 'x) core" where
  "psx_cyc_load_half e rd addr rt reg_mask k = rd addr (psx_cyc_load_timing e addr 2 rt reg_mask k)"

definition psx_cyc_load_byte ::
  "('d, 'x) mach_env \<Rightarrow> (u32 \<Rightarrow> ('d, 'x) core \<Rightarrow> u8 \<times> ('d, 'x) core) \<Rightarrow> u32 \<Rightarrow> u32 \<Rightarrow> u32 \<Rightarrow> ('d, 'x) core \<Rightarrow> u8 \<times> ('d, 'x) core" where
  "psx_cyc_load_byte e rd addr rt reg_mask k = rd addr (psx_cyc_load_timing e addr 1 rt reg_mask k)"

definition psx_cyc_lwc2_read ::
  "('d, 'x) mach_env \<Rightarrow> (u32 \<Rightarrow> ('d, 'x) core \<Rightarrow> u32 \<times> ('d, 'x) core) \<Rightarrow> u32 \<Rightarrow> ('d, 'x) core \<Rightarrow> u32 \<times> ('d, 'x) core" where
  "psx_cyc_lwc2_read e rd addr k = rd addr (psx_cyc_readmem e (addr AND 0x1FFFFFFF) 4 1 0x20 k)"

section \<open>Register masks\<close>

definition psx_instr_base_cycles :: "u32 \<Rightarrow> u32" where
  "psx_instr_base_cycles insn = 1"

definition special_mask :: "u32 \<Rightarrow> u32 \<Rightarrow> u32 \<Rightarrow> u32 \<Rightarrow> u32" where
  "special_mask fn M_rs M_rt M_rd =
     (if fn \<in> {0x00, 0x02, 0x03} then M_rt OR M_rd
      else if fn \<in> {0x04, 0x06, 0x07} then M_rs OR M_rt OR M_rd
      else if fn \<in> {0x08, 0x09} then M_rs OR M_rd
      else if fn \<in> {0x10, 0x12} then M_rd
      else if fn \<in> {0x11, 0x13} then M_rs
      else if fn \<in> {0x18, 0x19, 0x1A, 0x1B} then M_rs OR M_rt
      else if fn \<in> {0x20, 0x21, 0x22, 0x23, 0x24, 0x25, 0x26, 0x27, 0x2A, 0x2B} then M_rs OR M_rt OR M_rd
      else 0)"

definition psx_cyc_dep_res_mask :: "u32 \<Rightarrow> u32" where
  "psx_cyc_dep_res_mask insn =
     (let opc = drop_bit 26 insn;
          rs = drop_bit 21 insn AND 0x1F; rt = drop_bit 16 insn AND 0x1F; rd = drop_bit 11 insn AND 0x1F;
          M_rs = push_bit (unat rs) 1; M_rt = push_bit (unat rt) 1; M_rd = push_bit (unat rd) 1
      in if opc = 0x00 then special_mask (insn AND 0x3F) M_rs M_rt M_rd
         else if opc = 0x01 then M_rs OR (if rt AND 0x1E = 0x10 then push_bit 31 1 else 0)
         else if opc = 0x02 then 0
         else if opc = 0x03 then push_bit 31 1
         else if opc \<in> {0x04, 0x05} then M_rs OR M_rt
         else if opc \<in> {0x06, 0x07} then M_rs
         else if opc \<in> {0x08, 0x09, 0x0A, 0x0B, 0x0C, 0x0D, 0x0E} then M_rs OR M_rt
         else if opc = 0x0F then M_rt
         else if opc \<in> {0x20, 0x21, 0x22, 0x23, 0x24, 0x25, 0x26} then M_rs
         else if opc \<in> {0x28, 0x29, 0x2A, 0x2B, 0x2E} then M_rs OR M_rt
         else 0)"

section \<open>Completion stalls\<close>

definition PSX_MULT_TAB24 :: "u8 list" where
  "PSX_MULT_TAB24 = [14, 14, 14, 14, 14, 14, 14, 14, 14, 14, 14, 14, 10, 10, 10, 10, 10, 10, 10, 10, 10, 7, 7, 7]"

definition psx_clz32 :: "u32 \<Rightarrow> nat" where
  "psx_clz32 v = length (takeWhile (\<lambda>i. \<not> bit v i) (rev [0..<32]))"

definition psx_mult_latency_s :: "u32 \<Rightarrow> u32" where
  "psx_mult_latency_s rs = ucast (PSX_MULT_TAB24 ! psx_clz32 ((rs XOR signed_drop_bit 31 rs) OR 0x400))"

definition psx_mult_latency_u :: "u32 \<Rightarrow> u32" where
  "psx_mult_latency_u rs = ucast (PSX_MULT_TAB24 ! psx_clz32 (rs OR 0x400))"

definition psx_muldiv_set :: "u32 \<Rightarrow> ('d, 'x) core \<Rightarrow> ('d, 'x) core" where
  "psx_muldiv_set latency k = on_cyc (\<lambda>c. c\<lparr>muldiv_ts_done := now k + ucast latency\<rparr>) k"

definition psx_muldiv_stall :: "('d, 'x) mach_env \<Rightarrow> ('d, 'x) core \<Rightarrow> ('d, 'x) core" where
  "psx_muldiv_stall e k =
     (let c = cyc k
      in if muldiv_ts_done c > now k
         then if muldiv_ts_done c = now k + 1 then on_cyc (\<lambda>c. c\<lparr>muldiv_ts_done := muldiv_ts_done c - 1\<rparr>) k
              else let stall = ucast (muldiv_ts_done c - now k) :: u32;
                       w = unat (read_absorb_which c);
                       give = ucast (read_absorb c w) :: u32
                   in charge e stall
                        (k\<lparr>cyc := c\<lparr>read_absorb := (read_absorb c)(w := ucast (if give > stall then give - stall else 0))\<rparr>\<rparr>)
         else k)"

definition psx_gte_read :: "('d, 'x) mach_env \<Rightarrow> u32 \<Rightarrow> ('d, 'x) core \<Rightarrow> ('d, 'x) core" where
  "psx_gte_read e rt k =
     (let k = (if gte_ts_done (cyc k) > now k
               then let stall = ucast (gte_ts_done (cyc k) - now k)
                    in charge e stall (on_cyc (\<lambda>c. c\<lparr>ld_absorb := stall\<rparr>) k)
               else on_cyc (\<lambda>c. c\<lparr>ld_absorb := 0\<rparr>) k)
      in on_cyc (\<lambda>c. c\<lparr>ld_which_t := ucast rt\<rparr>) k)"

definition PSX_GTE_LAT_M1 :: "nat \<Rightarrow> u8" where
  "PSX_GTE_LAT_M1 = (\<lambda>_. 0)(0x00 := 14, 0x01 := 14, 0x06 := 7, 0x0C := 5, 0x10 := 7, 0x11 := 7, 0x12 := 7, 0x13 := 18,
     0x14 := 12, 0x16 := 43, 0x1A := 7, 0x1B := 16, 0x1C := 10, 0x1E := 13, 0x20 := 29, 0x28 := 4, 0x29 := 7,
     0x2A := 16, 0x2D := 4, 0x2E := 4, 0x30 := 22, 0x3D := 4, 0x3E := 4, 0x3F := 38)"

definition psx_gte_cmd_latency :: "u32 \<Rightarrow> u32" where
  "psx_gte_cmd_latency cmd = ucast (PSX_GTE_LAT_M1 (unat (cmd AND 0x3F)))"

definition psx_gte_stall :: "('d, 'x) mach_env \<Rightarrow> ('d, 'x) core \<Rightarrow> ('d, 'x) core" where
  "psx_gte_stall e k = (if gte_ts_done (cyc k) > now k then charge e (ucast (gte_ts_done (cyc k) - now k)) k else k)"

definition psx_gte_set :: "('d, 'x) mach_env \<Rightarrow> u32 \<Rightarrow> ('d, 'x) core \<Rightarrow> ('d, 'x) core" where
  "psx_gte_set e latency k =
     (let k = (if gte_ts_done (cyc k) > now k then charge e (ucast (gte_ts_done (cyc k) - now k)) k else k)
      in on_cyc (\<lambda>c. c\<lparr>gte_ts_done := now k + ucast latency\<rparr>) k)"

section \<open>Multiplier latencies\<close>

lemma takeWhile_reaches: "n \<le> length (takeWhile P xs) \<longleftrightarrow> n \<le> length xs \<and> (\<forall>x\<in>set (take n xs). P x)"
proof (induction xs arbitrary: n)
  case (Cons x xs)
  then show ?case by (cases n) auto
qed simp

lemma unat_less_bits: "unat v < 2 ^ n \<longleftrightarrow> (\<forall>i<32. n \<le> i \<longrightarrow> \<not> bit v i)" for v :: u32
proof -
  have "unat v < 2 ^ n \<longleftrightarrow> drop_bit n v = 0"
  proof -
    have "unat (drop_bit n v) = unat v div 2 ^ n" unfolding unat_drop_bit_eq by (rule drop_bit_eq_div)
    then show ?thesis by (simp add: div_eq_0_iff flip: unat_eq_zero)
  qed
  also have "\<dots> \<longleftrightarrow> (\<forall>i. \<not> bit v (n + i))"
  proof -
    have "bit v (n + i) \<Longrightarrow> i < 32" for i using bit_imp_le_length [of v "n + i"] by simp
    then show ?thesis by (auto simp: bit_eq_iff bit_drop_bit_eq)
  qed
  also have "\<dots> \<longleftrightarrow> (\<forall>i<32. n \<le> i \<longrightarrow> \<not> bit v i)"
  proof -
    have "bit v i \<Longrightarrow> i < 32" for i using bit_imp_le_length [of v i] by simp
    then show ?thesis by (metis le_add1 le_add_diff_inverse)
  qed
  finally show ?thesis .
qed

lemma clz_reaches: "n \<le> 32 \<Longrightarrow> n \<le> psx_clz32 v \<longleftrightarrow> unat v < 2 ^ (32 - n)"
proof -
  assume "n \<le> 32"
  then have "take n (rev [0..<32]) = rev [32 - n..<32]" by (simp add: take_rev)
  then have "set (take n (rev [0..<32])) = {32 - n..<32}" by simp
  with \<open>n \<le> 32\<close> show ?thesis
    unfolding psx_clz32_def takeWhile_reaches unat_less_bits by auto
qed

lemma clz_values:
  "12 \<le> psx_clz32 v \<longleftrightarrow> unat v < 1048576" "21 \<le> psx_clz32 v \<longleftrightarrow> unat v < 2048" "22 \<le> psx_clz32 v \<longleftrightarrow> unat v < 1024"
  by (simp_all add: clz_reaches)

lemma mult_tab:
  assumes "i < 22"
  shows "PSX_MULT_TAB24 ! i = (if 21 \<le> i then 7 else if 12 \<le> i then 10 else 14)"
proof -
  have "\<forall>i\<in>set [0..<22]. PSX_MULT_TAB24 ! i = (if 21 \<le> i then 7 else if 12 \<le> i then 10 else 14)"
    by (simp add: PSX_MULT_TAB24_def upt_conv_Cons)
  with assms show ?thesis by auto
qed

lemma or_0x400: "unat (v OR 0x400) < 2 ^ n \<longleftrightarrow> unat v < 2 ^ n" if "10 < n" for v :: u32
proof -
  have "bit (0x400 :: u32) i \<longleftrightarrow> i = 10" if "i < 32" for i
  proof -
    have "(0x400 :: u32) = push_bit 10 1" by simp
    then show ?thesis using that by (simp only: bit_push_bit_iff bit_1_iff) auto
  qed
  with that show ?thesis by (auto simp: unat_less_bits bit_or_iff)
qed

lemma mult_latency: "ucast (PSX_MULT_TAB24 ! psx_clz32 (v OR 0x400)) = (if unat v < 2048 then 7 else if unat v < 1048576 then 10 else 14 :: u32)"
proof -
  have "bit (0x400 :: u32) 10" by (simp add: bit_iff_odd)
  then have "bit (v OR 0x400) 10" by (simp add: bit_or_iff)
  then have "\<not> unat (v OR 0x400) < 2 ^ 10" unfolding unat_less_bits by (auto intro!: exI [of _ 10])
  then have "psx_clz32 (v OR 0x400) < 22" using clz_values(3) [of "v OR 0x400"] by simp
  from mult_tab [OF this] show ?thesis
    using or_0x400 [of 11 v] or_0x400 [of 20 v] by (simp add: clz_values)
qed

definition magnitude :: "u32 \<Rightarrow> int" where
  "magnitude w = (if 0 \<le> sint w then sint w else - sint w - 1)"

lemma unat_folded: "int (unat (w XOR signed_drop_bit 31 w)) = magnitude w" for w :: u32
proof -
  have r: "- 2147483648 \<le> sint w" "sint w < 2147483648" using sint_ge [of w] sint_lt [of w] by simp_all
  have "sint (signed_drop_bit 31 w) = sint w div 2147483648" by (simp add: sint_signed_drop_bit_eq drop_bit_eq_div)
  moreover have "sint w div 2147483648 = (if sint w < 0 then -1 else 0)" using r by auto
  moreover have "word_of_int (sint x) = x" for x :: u32 by simp
  ultimately have "signed_drop_bit 31 w = word_of_int (if sint w < 0 then -1 else 0)" by metis
  then have s: "signed_drop_bit 31 w = (if sint w < 0 then -1 else 0)" by simp
  show ?thesis
  proof (cases "sint w < 0")
    case True
    have "w XOR signed_drop_bit 31 w = NOT w" using True s by simp
    also have "\<dots> = word_of_int (- sint w - 1)" by (simp add: not_eq_complement)
    finally have e: "w XOR signed_drop_bit 31 w = word_of_int (- sint w - 1)" .
    have "uint (word_of_int (- sint w - 1) :: u32) = (- sint w - 1) mod 2 ^ 32" by (subst uint_word_of_int) simp
    then show ?thesis unfolding e using True r by (simp add: magnitude_def)
  next
    case False
    then have "int (unat w) = sint w" using r by (simp add: uint_sint take_bit_eq_mod)
    then show ?thesis using False s by (simp add: magnitude_def)
  qed
qed

text \<open>The multiplier is slow for large operands: 7 cycles when the magnitude of the first operand
  (for \<open>MULT\<close>, folded at the sign) has at most 11 bits, 10 up to 20 bits, 14 beyond.\<close>

lemma mult_latency_by_magnitude:
  "psx_mult_latency_u w = (if unat w < 2048 then 7 else if unat w < 1048576 then 10 else 14)
     \<and> psx_mult_latency_s w = (if magnitude w < 2048 then 7 else if magnitude w < 1048576 then 10 else 14)"
proof -
  have "unat (w XOR signed_drop_bit 31 w) < n \<longleftrightarrow> magnitude w < int n" for n
    using unat_folded [of w] by linarith
  then show ?thesis by (simp add: psx_mult_latency_u_def psx_mult_latency_s_def mult_latency)
qed

section \<open>The instruction cache as a set of addresses\<close>

text \<open>A line of the cache holds four words; an aligned address is cached when its own slot holds it.\<close>

lemma unat_field:
  fixes a m :: u32
  assumes "m = mask (k + n) AND NOT (mask n)" "n + k \<le> 32"
  shows "unat (a AND m) = 2 ^ n * (unat a div 2 ^ n mod 2 ^ k)"
proof -
  have "a AND m = push_bit n (take_bit k (drop_bit n a))"
    unfolding assms(1) by (simp only: slice_eq_mask ac_simps)
  moreover have "unat (take_bit k (drop_bit n a)) = unat a div 2 ^ n mod 2 ^ k"
    unfolding unsigned_take_bit_eq unat_drop_bit_eq by (simp only: take_bit_eq_mod drop_bit_eq_div)
  moreover have "unat a div 2 ^ n mod 2 ^ k * 2 ^ n < 2 ^ 32"
  proof -
    have "unat a div 2 ^ n mod 2 ^ k < 2 ^ k" by simp
    then have "unat a div 2 ^ n mod 2 ^ k * 2 ^ n < 2 ^ k * 2 ^ n" by simp
    also have "\<dots> \<le> 2 ^ 32" using assms(2) power_increasing [of "k + n" 32 "2 :: nat"] by (simp add: power_add)
    finally show ?thesis .
  qed
  moreover have "unat (push_bit n x) = unat x * 2 ^ n mod 2 ^ 32" for x :: u32
    unfolding unsigned_push_bit_eq by (simp only: take_bit_eq_mod push_bit_eq_mult) simp
  ultimately show ?thesis by (simp only: mod_less mult.commute)
qed

lemma fields [simp]:
  "unat (a AND 0xFFC) = 4 * (unat a div 4 mod 1024)" "unat (a AND 0xFF0) = 16 * (unat a div 16 mod 256)"
  "unat (a AND 0xC) = 4 * (unat a div 4 mod 4)" "unat (a AND 0xFFFFFFF0) = 16 * (unat a div 16)" for a :: u32
proof -
  show "unat (a AND 0xFFC) = 4 * (unat a div 4 mod 1024)"
    using unat_field [of "0xFFC" 10 2 a] by (simp add: mask_eq_exp_minus_1)
  show "unat (a AND 0xFF0) = 16 * (unat a div 16 mod 256)"
    using unat_field [of "0xFF0" 8 4 a] by (simp add: mask_eq_exp_minus_1)
  show "unat (a AND 0xC) = 4 * (unat a div 4 mod 4)"
    using unat_field [of "0xC" 2 2 a] by (simp add: mask_eq_exp_minus_1)
  have "unat a div 16 mod 268435456 = unat a div 16"
    using unsigned_less [where 'a = nat, of a] by simp
  then show "unat (a AND 0xFFFFFFF0) = 16 * (unat a div 16)"
    using unat_field [of "0xFFFFFFF0" 28 4 a] by (simp add: mask_eq_exp_minus_1)
qed

lemma tv_nat: "tv_index a = unat a div 4 mod 1024" "tv_word a = unat a div 4 mod 4" "tv_line a = 4 * (unat a div 16 mod 256)"
proof -
  have d: "unat (drop_bit 2 x) = unat x div 4" for x :: u32 unfolding unat_drop_bit_eq by (simp add: drop_bit_eq_div)
  show "tv_index a = unat a div 4 mod 1024" "tv_word a = unat a div 4 mod 4" "tv_line a = 4 * (unat a div 16 mod 256)"
    unfolding tv_index_def tv_word_def tv_line_def d by simp_all
qed

lemma line_entries:
  fixes a :: u32
  defines "l \<equiv> a AND 0xFFFFFFF0"
  shows "l OR 0 OR 2 = l + 2" "l OR 4 OR 2 = l + 6" "l OR 8 OR 2 = l + 10" "l OR 0xC OR 2 = l + 14"
    "(l + 2) AND NOT 2 = l" "(l + 6) AND NOT 2 = l + 4" "(l + 10) AND NOT 2 = l + 8" "(l + 14) AND NOT 2 = l + 12"
proof -
  have add: "l OR c = l + c" if "c AND 0xFFFFFFF0 = 0" for c
  proof -
    have "l AND c = a AND (c AND 0xFFFFFFF0)" by (simp only: l_def ac_simps)
    then have "l AND c = 0" using that by simp
    then show ?thesis by (rule disjunctive_add_eq_or [symmetric])
  qed
  have clear: "(l OR c) AND NOT 2 = l OR (c AND NOT 2)" for c
  proof -
    have "l AND NOT 2 = a AND (0xFFFFFFF0 AND NOT 2)" by (simp only: l_def ac_simps)
    then have "l AND NOT 2 = l" by (simp add: l_def)
    then show ?thesis by (simp only: bit.conj_disj_distrib2)
  qed
  show "l OR 0 OR 2 = l + 2" "l OR 4 OR 2 = l + 6" "l OR 8 OR 2 = l + 10" "l OR 0xC OR 2 = l + 14"
    using add [of 2] add [of 6] add [of 10] add [of 14] by (simp_all add: or.assoc)
  show "(l + 2) AND NOT 2 = l" "(l + 6) AND NOT 2 = l + 4" "(l + 10) AND NOT 2 = l + 8" "(l + 14) AND NOT 2 = l + 12"
    using clear [of 2] clear [of 6] clear [of 10] clear [of 14] add [of 2] add [of 6] add [of 10] add [of 14]
      add [of 4] add [of 8] add [of 12] by (simp_all)
qed

text \<open>What a refill leaves in the four slots of the line: the words before the missing one are
  invalid, the others hold their address.\<close>

lemma refill_fold:
  "w \<le> n \<Longrightarrow> fold (\<lambda>i (tv, cost). (tv(b + i := tv (b + i) AND NOT 2), cost + 1)) [w..<n] (tv, c)
     = (\<lambda>i. if b + w \<le> i \<and> i < b + n then tv i AND NOT 2 else tv i, c + of_nat (n - w))"
  for tv :: "nat \<Rightarrow> u32" and c :: u32
proof (induction rule: dec_induct)
  case (step n)
  then show ?case by (auto simp: fun_eq_iff Suc_diff_le less_Suc_eq)
qed (auto simp: fun_eq_iff)

lemma refill_slots:
  fixes addr :: u32
  defines "l \<equiv> addr AND 0xFFFFFFF0" and "b \<equiv> tv_line addr" and "w \<equiv> tv_word addr"
  shows "snd (refill addr tv) = 3 + of_nat (4 - w)"
    and "j < 4 \<Longrightarrow> fst (refill addr tv) (b + j) = l + of_nat (4 * j) + (if j < w then 2 else 0)"
    and "i < b \<or> b + 4 \<le> i \<Longrightarrow> fst (refill addr tv) i = tv i"
proof -
  have w: "w \<le> 4" unfolding w_def tv_nat by (simp add: order_less_imp_le)
  note le = line_entries [of addr, folded l_def]
  define tv0 where "tv0 = tv(b := l + 2, b + 1 := l + 6, b + 2 := l + 10, b + 3 := l + 14)"
  have r: "refill addr tv = (\<lambda>i. if b + w \<le> i \<and> i < b + 4 then tv0 i AND NOT 2 else tv0 i, 3 + of_nat (4 - w))"
    unfolding refill_def Let_def b_def [symmetric] w_def [symmetric] l_def [symmetric] le(1-4) tv0_def [symmetric]
    by (rule refill_fold [OF w])
  show "snd (refill addr tv) = 3 + of_nat (4 - w)" by (simp add: r)
  have t: "tv0 (b + j) = l + of_nat (4 * j) + 2" "tv0 (b + j) AND NOT 2 = l + of_nat (4 * j)" if "j < 4" for j
  proof -
    from that have "j = 0 \<or> j = 1 \<or> j = 2 \<or> j = 3" by linarith
    then show "tv0 (b + j) = l + of_nat (4 * j) + 2" "tv0 (b + j) AND NOT 2 = l + of_nat (4 * j)"
      using le(5-8) by (auto simp: tv0_def)
  qed
  show "j < 4 \<Longrightarrow> fst (refill addr tv) (b + j) = l + of_nat (4 * j) + (if j < w then 2 else 0)"
    using t [of j] by (simp add: r not_less)
  show "i < b \<or> b + 4 \<le> i \<Longrightarrow> fst (refill addr tv) i = tv i"
    by (auto simp: r tv0_def)
qed

definition cached :: "(nat \<Rightarrow> u32) \<Rightarrow> u32 set" where
  "cached tv = {a. unat a mod 4 = 0 \<and> tv (tv_index a) = a}"

lemma refill_cached:
  assumes "unat a mod 4 = 0"
  shows "cached (fst (refill a tv)) = {b \<in> cached tv. b AND 0xFF0 \<noteq> a AND 0xFF0}
     \<union> {b. unat b mod 4 = 0 \<and> b AND 0xFFFFFFF0 = a AND 0xFFFFFFF0 \<and> a \<le> b}"
proof (rule set_eqI)
  fix b :: u32
  define A W B V where "A = unat a div 16" "W = unat a div 4 mod 4" "B = unat b div 16" "V = unat b div 4 mod 4"
  have split: "unat x div 4 mod 1024 = 4 * (unat x div 16 mod 256) + unat x div 4 mod 4" for x :: u32
    by (simp add: div_mult2_eq mod_mult2_eq [of _ 4 256, simplified] flip: div_mult2_eq)
  have idx: "tv_index b = 4 * (B mod 256) + V" "tv_line a = 4 * (A mod 256)" "tv_word a = W" "V < 4" "W < 4"
    by (simp_all add: tv_nat split A_W_B_V_def)
  have whole: "unat b = 16 * B + 4 * V + unat b mod 4" "unat a = 16 * A + 4 * W"
  proof -
    have "x = 16 * (x div 16) + 4 * (x div 4 mod 4) + x mod 4" for x :: nat
    proof -
      obtain y r where y: "x = 4 * y + r" "r < 4" by (metis mod_less_divisor mult_div_mod_eq zero_less_numeral)
      obtain p q where p: "y = 4 * p + q" "q < 4" by (metis mod_less_divisor mult_div_mod_eq zero_less_numeral)
      have "x div 4 = y" "x mod 4 = r" using y by simp_all
      moreover have "y div 4 = p" "y mod 4 = q" using p by simp_all
      ultimately have "x div 16 = p" "x div 4 mod 4 = q" "x mod 4 = r" using div_mult2_eq [of x 4 4] by simp_all
      then show ?thesis using y p by linarith
    qed
    from this [of "unat a"] this [of "unat b"] assms
    show "unat b = 16 * B + 4 * V + unat b mod 4" "unat a = 16 * A + 4 * W" by (simp_all add: A_W_B_V_def)
  qed
  have same: "b AND 0xFF0 = a AND 0xFF0 \<longleftrightarrow> B mod 256 = A mod 256" "b AND 0xFFFFFFF0 = a AND 0xFFFFFFF0 \<longleftrightarrow> B = A"
    unfolding word_unat_eq_iff by (simp_all add: A_W_B_V_def)
  show "b \<in> cached (fst (refill a tv)) \<longleftrightarrow> b \<in> {b \<in> cached tv. b AND 0xFF0 \<noteq> a AND 0xFF0}
     \<union> {b. unat b mod 4 = 0 \<and> b AND 0xFFFFFFF0 = a AND 0xFFFFFFF0 \<and> a \<le> b}"
  proof (cases "B mod 256 = A mod 256")
    case True
    then have i: "tv_index b = tv_line a + V" by (simp add: idx)
    have "unat ((a AND 0xFFFFFFF0) + of_nat (4 * V) + (if V < W then 2 else 0)) = 16 * A + 4 * V + (if V < W then 2 else 0)"
    proof -
      have "unat (a AND 0xFFFFFFF0) = 16 * A" by (simp add: A_W_B_V_def)
      moreover have "16 * A + 16 \<le> 4294967296"
        using whole(2) unsigned_less [where 'a = nat, of a] by simp
      moreover define c :: u32 where "c = of_nat (4 * V)"
      moreover have "unat c = 4 * V" unfolding c_def using idx(4) by (subst unat_of_nat) simp
      ultimately show ?thesis
        unfolding c_def [symmetric] using idx(4) by (simp add: unat_word_ariths del: fields)
    qed
    then have "fst (refill a tv) (tv_index b) = b \<longleftrightarrow> 16 * A + 4 * V + (if V < W then 2 else 0) = unat b"
      using refill_slots(2) [of V a tv] idx(3,4) i by (simp add: word_unat_eq_iff)
    then show ?thesis using True same whole idx(4,5)
      by (auto simp: cached_def word_le_nat_alt split: if_splits)
  next
    case False
    then have "tv_index b < tv_line a \<or> tv_line a + 4 \<le> tv_index b" using idx by linarith
    then show ?thesis using False same refill_slots(3) [of "tv_index b" a tv] by (auto simp: cached_def)
  qed
qed

lemma replay_charge [simp]: "ls_replay_active (psx_advance_cycles e c m) = ls_replay_active m"
proof -
  have "ls_replay_active (psx_devices_service_to_now e w) = ls_replay_active w" for w
  proof -
    define w1 where "w1 = interrupts_service_scheduled_events e (w\<lparr>in_device_service := True, cycle_count := devices_synced w\<rparr>)"
    have "clock_flags (service_loop e t w1) = clock_flags (w\<lparr>in_device_service := True\<rparr>)" for t
      by (simp add: w1_def)
    from flags_fields(5) [OF this] show ?thesis
      by (simp add: psx_devices_service_to_now_def psx_devices_recompute_deadline_def Let_def flip: w1_def)
  qed
  then show ?thesis by (simp add: psx_advance_cycles_def exact_fields Let_def)
qed

lemma charge_simps [simp]:
  "cyc (charge e n k) = cyc k" "icache_tv (charge e n k) = icache_tv k"
  "ls_replay_active (mach (charge e n k)) = ls_replay_active (mach k)"
  "\<not> ls_replay_active (mach k) \<Longrightarrow> now (charge e n k) = now k + ucast n"
  by (simp_all add: charge_def count_charge)

lemma on_cyc_simps [simp]:
  "cyc (on_cyc f k) = f (cyc k)" "icache_tv (on_cyc f k) = icache_tv k" "mach (on_cyc f k) = mach k"
  by (simp_all add: on_cyc_def)

text \<open>C18: The tag array is a set of cached addresses: fetching an aligned word costs nothing when it is in
  the set; otherwise 4 cycles from the uncached segments, which leave the set alone, and 3 plus one
  for each word from the missing one to the end of its line from the cached ones, which replace
  whatever shared the line by exactly those words.\<close>

theorem icache_refines_set:
  assumes "unat addr mod 4 = 0" and "\<not> ls_replay_active (mach k)"
  shows "cached (icache_tv (psx_icache_fetch e addr k))
      = (if addr \<in> cached (icache_tv k) \<or> addr \<ge> 0xA0000000 then cached (icache_tv k)
         else {b \<in> cached (icache_tv k). b AND 0xFF0 \<noteq> addr AND 0xFF0}
            \<union> {b. unat b mod 4 = 0 \<and> b AND 0xFFFFFFF0 = addr AND 0xFFFFFFF0 \<and> addr \<le> b})
    \<and> now (psx_icache_fetch e addr k) = now k
        + (if addr \<in> cached (icache_tv k) then 0 else if addr \<ge> 0xA0000000 then 4 else of_nat (3 + (4 - unat addr div 4 mod 4)))"
proof (cases "addr \<in> cached (icache_tv k) \<or> addr \<ge> 0xA0000000")
  case True
  then show ?thesis using assms
    by (auto simp: psx_icache_fetch_def cached_def)
next
  case False
  then have miss: "icache_tv k (tv_index addr) \<noteq> addr" using assms by (simp add: cached_def)
  have "(ucast (3 + of_nat (4 - tv_word addr) :: u32) :: u64) = of_nat (3 + (4 - tv_word addr))"
    by (simp add: word_unat_eq_iff unat_word_ariths unat_of_nat)
  with False miss assms show ?thesis
    by (simp add: psx_icache_fetch_def refill_cached refill_slots(1) case_prod_unfold tv_nat(2))
qed

section \<open>The interlock stays inside its arrays\<close>

definition timing_ok :: "cyc_st \<Rightarrow> bool" where
  "timing_ok c \<longleftrightarrow> unat (read_absorb_which c) < 32 \<and> unat (ld_which_t c) \<le> 32 \<and> unat (read_fudge c) \<le> 32"

datatype cyc_op = Fetch u32 | Step u32 | Load u32 u32 u32 u32 | Lwc2 u32 | MulSet u32 | MulStall | GteSet u32 | GteStall | GteRead u32

fun cyc_do :: "('d, 'x) mach_env \<Rightarrow> cyc_op \<Rightarrow> ('d, 'x) core \<Rightarrow> ('d, 'x) core" where
  "cyc_do e (Fetch a) k = psx_icache_fetch e a k"
| "cyc_do e (Step m) k = psx_cyc_step e m k"
| "cyc_do e (Load a sz rt m) k = psx_cyc_load_timing e a sz rt m k"
| "cyc_do e (Lwc2 a) k = psx_cyc_readmem e (a AND 0x1FFFFFFF) 4 1 0x20 k"
| "cyc_do e (MulSet l) k = psx_muldiv_set l k"
| "cyc_do e MulStall k = psx_muldiv_stall e k"
| "cyc_do e (GteSet l) k = psx_gte_set e l k"
| "cyc_do e GteStall k = psx_gte_stall e k"
| "cyc_do e (GteRead rt) k = psx_gte_read e rt k"

text \<open>Register numbers come from five-bit fields.\<close>

fun cyc_op_ok :: "cyc_op \<Rightarrow> bool" where
  "cyc_op_ok (Load a sz rt m) = (rt < 32)"
| "cyc_op_ok (GteRead rt) = (rt < 32)"
| "cyc_op_ok _ = True"

lemma timing_ok_upd [simp]:
  "timing_ok (c\<lparr>muldiv_ts_done := x\<rparr>) = timing_ok c" "timing_ok (c\<lparr>gte_ts_done := x\<rparr>) = timing_ok c"
  "timing_ok (c\<lparr>read_absorb := f\<rparr>) = timing_ok c" "timing_ok (c\<lparr>ld_absorb := y\<rparr>) = timing_ok c"
  by (simp_all add: timing_ok_def)

lemma timing_ok_cancel [simp]: "timing_ok c \<Longrightarrow> timing_ok (c\<lparr>ld_which_t := 0\<rparr>)"
  by (simp add: timing_ok_def)

lemma timing_ok_arm: "timing_ok c \<Longrightarrow> unat rt \<le> 32 \<Longrightarrow> timing_ok (c\<lparr>ld_which_t := ucast (rt :: u32)\<rparr>)"
  by (simp add: timing_ok_def unsigned_ucast_eq take_bit_nat_eq_self)

lemma timing_ok_clear [simp]: "timing_ok c \<Longrightarrow> timing_ok (clear_absorb c)"
  by (simp add: timing_ok_def clear_absorb_def)

lemma timing_ok_lds [simp]:
  assumes "timing_ok c"
  shows "timing_ok (psx_cyc_lds c)"
proof -
  have "unat x < 2 ^ 5 \<longleftrightarrow> take_bit 5 x = x" for x :: u8
    by (simp add: word_unat_eq_iff unsigned_take_bit_eq take_bit_nat_eq_self_iff)
  moreover have "ld_which_t c AND 0x1F = take_bit 5 (ld_which_t c)"
    by (simp add: take_bit_eq_mask mask_eq_exp_minus_1)
  ultimately have "unat (read_absorb_which c OR (ld_which_t c AND 0x1F)) < 32"
    using assms by (simp add: timing_ok_def)
  then show ?thesis using assms by (simp add: timing_ok_def psx_cyc_lds_def Let_def)
qed

lemma timing_ok_base [simp]: "timing_ok (cyc k) \<Longrightarrow> timing_ok (cyc (psx_cyc_base e k))"
  by (simp add: psx_cyc_base_def Let_def)

lemma timing_ok_deps [simp]: "timing_ok (psx_cyc_deps m c) = timing_ok c"
  by (simp add: psx_cyc_deps_def Let_def)

lemma timing_ok_readmem: "timing_ok (cyc k) \<Longrightarrow> unat rt \<le> 32 \<Longrightarrow> timing_ok (cyc (psx_cyc_readmem e a sz n rt k))"
  by (simp add: psx_cyc_readmem_def Let_def timing_ok_arm)

lemma timing_ok_do:
  assumes "timing_ok (cyc k)" "cyc_op_ok p"
  shows "timing_ok (cyc (cyc_do e p k))"
proof (cases p)
  case (Load a sz rt m)
  define k1 where "k1 = on_cyc (psx_cyc_deps m) (psx_cyc_base e k)"
  have "timing_ok (cyc k1)" using assms(1) by (simp add: k1_def)
  then have "timing_ok (cyc (on_cyc psx_cyc_lds (on_cyc (\<lambda>c. if ucast (ld_which_t c) = rt then c\<lparr>ld_which_t := 0\<rparr> else c) k1)))"
    by simp
  then show ?thesis
    unfolding Load cyc_do.simps psx_cyc_load_timing_def Let_def k1_def [symmetric]
    using assms(2) Load by (intro timing_ok_readmem) (simp_all add: word_less_nat_alt)
next
  case (GteRead rt)
  then show ?thesis
    using assms by (simp add: psx_gte_read_def Let_def timing_ok_arm word_less_nat_alt)
qed (use assms in \<open>simp_all add: psx_icache_fetch_def psx_cyc_step_def timing_ok_readmem psx_muldiv_set_def
    psx_muldiv_stall_def psx_gte_set_def psx_gte_stall_def Let_def case_prod_unfold\<close>)

lemma tags_do:
  assumes "1024 \<le> i"
  shows "icache_tv (cyc_do e p k) i = icache_tv k i"
proof (cases p)
  case (Fetch a)
  have "tv_line a + 4 \<le> 1024" by (simp add: tv_nat)
  then show ?thesis
    using assms Fetch refill_slots(3) [of i a "icache_tv k"] by (simp add: psx_icache_fetch_def Let_def case_prod_unfold)
qed (simp_all add: psx_cyc_step_def psx_cyc_base_def psx_cyc_load_timing_def psx_cyc_readmem_def psx_muldiv_set_def
    psx_muldiv_stall_def psx_gte_set_def psx_gte_stall_def psx_gte_read_def Let_def)

text \<open>Whatever instructions run, the interlock indexes \<open>read_absorb\<close> only inside its 33 entries and
  the cache its tags only inside the 1024 entries.\<close>

lemma timing_indices_in_range:
  assumes "timing_ok (cyc k)" and "list_all cyc_op_ok ps"
  shows "timing_ok (cyc (fold (cyc_do e) ps k)) \<and> (1024 \<le> i \<longrightarrow> icache_tv (fold (cyc_do e) ps k) i = icache_tv k i)"
  using assms by (induction ps arbitrary: k) (simp_all add: timing_ok_do tags_do)

section \<open>The cost of a load\<close>

lemma fudge_cycles:
  fixes lw :: u8
  assumes "unat lw \<le> 32"
  shows "drop_bit 4 (ucast lw :: u32) AND 2 = (if lw = 0x20 then 2 else 0)"
proof -
  have "drop_bit 4 (ucast lw :: u32) AND push_bit 1 1 = (if bit (drop_bit 4 (ucast lw :: u32)) 1 then push_bit 1 1 else 0)"
    by (rule and_single_bit)
  moreover have "bit (drop_bit 4 (ucast lw :: u32)) 1 \<longleftrightarrow> odd (unat lw div 2 ^ 5)"
  proof -
    have "bit (drop_bit 4 (ucast lw :: u32)) 1 \<longleftrightarrow> bit (unat lw) 5" by (simp add: bit_drop_bit_eq bit_unsigned_iff)
    then show ?thesis by (simp only: bit_iff_odd [of "unat lw"])
  qed
  moreover have "odd (unat lw div 2 ^ 5) \<longleftrightarrow> lw = 0x20"
  proof -
    have "unat lw = 32 \<or> unat lw div 32 = 0" using assms by auto
    then show ?thesis by (auto simp: word_unat_eq_iff)
  qed
  ultimately show ?thesis by simp
qed

lemma wait_small: "sz \<le> 4 \<Longrightarrow> unat (psx_mmio_read_wait phys sz) \<le> 36"
proof -
  assume "sz \<le> 4"
  then have "unat sz \<le> 4" by (simp add: word_le_nat_alt)
  then have "unat (6 * sz) \<le> 24" by (simp add: unat_word_ariths)
  then show ?thesis by (auto simp: psx_mmio_read_wait_def)
qed

text \<open>A load leaves its whole cost waiting for the next instruction to commit.\<close>

lemma load_timing_state:
  fixes e :: "('d, 'x) mach_env" and k :: "('d, 'x) core" and m :: u32
  assumes "\<not> ls_replay_active (mach k)" "timing_ok (cyc k)" "rt < 32" "sz \<le> 4"
    and "phys = addr AND 0x1FFFFFFF" "\<not> (phys \<ge> 0x1F800000 \<and> phys \<le> 0x1F8003FF)"
  defines "k' \<equiv> psx_cyc_load_timing e addr sz rt m k"
  shows "now k' = now k + (if read_absorb (cyc k) (unat (read_absorb_which (cyc k))) \<noteq> 0 then 0 else 1)
      + (if ld_which_t (cyc k) = 0x20 then 2 else 0) + (ucast (psx_mmio_read_wait phys sz) + 2)"
    and "read_absorb_which (cyc k') = 0" "ld_which_t (cyc k') = ucast rt"
    and "ld_absorb (cyc k') = psx_mmio_read_wait phys sz + 2" "\<not> ls_replay_active (mach k')"
proof -
  define lw where "lw = (if ucast (ld_which_t (cyc k)) = rt then 0 else ld_which_t (cyc k))"
  have lw: "unat lw \<le> 32" "lw = 0x20 \<longleftrightarrow> ld_which_t (cyc k) = 0x20"
    using assms(2,3) by (auto simp: lw_def timing_ok_def word_less_nat_alt)
  have base: "ld_which_t (cyc (psx_cyc_base e k)) = ld_which_t (cyc k)"
    "ls_replay_active (mach (psx_cyc_base e k)) = ls_replay_active (mach k)"
    "now (psx_cyc_base e k) = now k + (if read_absorb (cyc k) (unat (read_absorb_which (cyc k))) \<noteq> 0 then 0 else 1)"
    using assms(1) by (simp_all add: psx_cyc_base_def Let_def)
  define k1 where "k1 = on_cyc psx_cyc_lds (on_cyc (\<lambda>c. if ucast (ld_which_t c) = rt then c\<lparr>ld_which_t := 0\<rparr> else c)
      (on_cyc (psx_cyc_deps m) (psx_cyc_base e k)))"
  have k1: "read_fudge (clear_absorb (cyc k1)) = lw" "\<not> ls_replay_active (mach k1)" "mach k1 = mach (psx_cyc_base e k)"
    using assms(1) base by (auto simp: k1_def psx_cyc_lds_def psx_cyc_deps_def lw_def clear_absorb_def Let_def)
  have k': "k' = psx_cyc_readmem e phys sz 2 rt k1"
    by (simp only: k'_def psx_cyc_load_timing_def Let_def k1_def assms(5))
  have w: "unat (psx_mmio_read_wait phys sz) \<le> 36" using assms(4) by (rule wait_small)
  then have "unat (psx_mmio_read_wait phys sz + 2) = unat (psx_mmio_read_wait phys sz) + 2"
    by (simp add: unat_word_ariths)
  then have cost: "(ucast (psx_mmio_read_wait phys sz + 2) :: u64) = ucast (psx_mmio_read_wait phys sz) + 2"
    using w by (simp add: word_unat_eq_iff unat_word_ariths)
  have ns: "(phys \<ge> 0x1F800000 \<and> phys \<le> 0x1F8003FF) = False" using assms(6) by blast
  show "now k' = now k + (if read_absorb (cyc k) (unat (read_absorb_which (cyc k))) \<noteq> 0 then 0 else 1)
      + (if ld_which_t (cyc k) = 0x20 then 2 else 0) + (ucast (psx_mmio_read_wait phys sz) + 2)"
    using k1 base(3) lw
    by (simp add: k' psx_cyc_readmem_def Let_def fudge_cycles cost ns)
  show "read_absorb_which (cyc k') = 0" "ld_which_t (cyc k') = ucast rt"
    "ld_absorb (cyc k') = psx_mmio_read_wait phys sz + 2" "\<not> ls_replay_active (mach k')"
    using k1(2) by (simp_all add: k' psx_cyc_readmem_def Let_def ns) (simp add: clear_absorb_def)
qed

text \<open>Instructions that do not touch the loaded register then run for free while the give-back lasts.\<close>

lemma giveback_step:
  fixes e :: "('d, 'x) mach_env" and k :: "('d, 'x) core"
  assumes "\<not> ls_replay_active (mach k)" "unat (read_absorb_which (cyc k)) = r" "ld_which_t (cyc k) = 0x20" "0 < r" "r < 32"
    and "\<not> bit m r"
  defines "k' \<equiv> psx_cyc_step e m k"
  shows "now k' = now k + (if read_absorb (cyc k) r = 0 then 1 else 0)"
    and "unat (read_absorb (cyc k') r) = unat (read_absorb (cyc k) r) - 1"
    and "read_absorb_which (cyc k') = read_absorb_which (cyc k)" "ld_which_t (cyc k') = 0x20" "\<not> ls_replay_active (mach k')"
proof -
  have "\<not> bit (m AND 0xFFFFFFFE) r" using assms(6) by (simp add: bit_and_iff)
  moreover have "unat (read_absorb (cyc k) r - 1) = unat (read_absorb (cyc k) r) - 1" if "read_absorb (cyc k) r \<noteq> 0"
    using that by (simp add: unat_minus_one)
  ultimately show "now k' = now k + (if read_absorb (cyc k) r = 0 then 1 else 0)"
    "unat (read_absorb (cyc k') r) = unat (read_absorb (cyc k) r) - 1"
    "read_absorb_which (cyc k') = read_absorb_which (cyc k)" "ld_which_t (cyc k') = 0x20" "\<not> ls_replay_active (mach k')"
    using assms(1-5)
    by (simp_all add: k'_def psx_cyc_step_def psx_cyc_base_def psx_cyc_deps_def psx_cyc_lds_def Let_def)
qed

lemma giveback_run:
  assumes "\<not> ls_replay_active (mach k)" "unat (read_absorb_which (cyc k)) = r" "ld_which_t (cyc k) = 0x20" "0 < r" "r < 32"
    and "\<forall>m\<in>set ms. \<not> bit m r"
  shows "now (fold (psx_cyc_step e) ms k) = now k + of_nat (length ms - unat (read_absorb (cyc k) r))"
  using assms
proof (induction ms arbitrary: k)
  case (Cons m ms)
  note s = giveback_step [OF Cons.prems(1-5), of m e]
  have "now (fold (psx_cyc_step e) ms (psx_cyc_step e m k))
      = now (psx_cyc_step e m k) + of_nat (length ms - unat (read_absorb (cyc (psx_cyc_step e m k)) r))"
    using Cons.prems s by (intro Cons.IH) auto
  moreover have b: "\<not> bit m r" using Cons.prems(6) by simp
  moreover have "of_nat (length ms - (g - 1)) + (if g = 0 then 1 else 0) = (of_nat (Suc (length ms) - g) :: u64)" for g
    by (cases g) simp_all
  from this [of "unat (read_absorb (cyc k) r)"]
  have "(if read_absorb (cyc k) r = 0 then 1 else 0) + of_nat (length ms - (unat (read_absorb (cyc k) r) - 1))
      = (of_nat (Suc (length ms) - unat (read_absorb (cyc k) r)) :: u64)"
    by (simp only: unat_eq_zero add.commute)
  ultimately show ?case using s(1,2) [OF b] by (simp only: fold_simps comp_apply list.size add.assoc add_Suc_right add_0_right)
qed simp

text \<open>C16: The cost of a load is given back in full: after a load of register \<open>rt\<close> and one more
  instruction, as many instructions that leave \<open>rt\<close> alone run for free as the access took cycles
  (its device wait plus two), and each further one costs one cycle.\<close>

theorem load_latency_given_back:
  fixes e :: "('d, 'x) mach_env" and k :: "('d, 'x) core" and m0 lm :: u32
  assumes "\<not> ls_replay_active (mach k)" and "timing_ok (cyc k)" and "0 < rt" and "rt < 32" and "sz \<le> 4"
    and "phys = addr AND 0x1FFFFFFF" and "\<not> (phys \<ge> 0x1F800000 \<and> phys \<le> 0x1F8003FF)"
    and "\<forall>m\<in>set ms. \<not> bit m (unat rt)"
  defines "k0 \<equiv> psx_cyc_step e m0 (psx_cyc_load_timing e addr sz rt lm k)"
  shows "now (fold (psx_cyc_step e) ms k0) = now k0 + of_nat (length ms - (unat (psx_mmio_read_wait phys sz) + 2))"
proof -
  define k1 where "k1 = psx_cyc_load_timing e addr sz rt lm k"
  note l = load_timing_state [OF assms(1,2,4,5,6,7), of e lm, folded k1_def]
  have rt: "0 < unat rt" "unat rt < 32" "unat (ucast rt :: u8) = unat rt"
    using assms(3,4) by (simp_all add: word_less_nat_alt unsigned_ucast_eq take_bit_nat_eq_self)
  have "ucast rt AND (0x1F :: u8) = ucast rt"
  proof -
    have "ucast rt AND (0x1F :: u8) = take_bit 5 (ucast rt)" by (simp add: take_bit_eq_mask mask_eq_exp_minus_1)
    also have "\<dots> = ucast rt" by (simp add: word_unat_eq_iff unsigned_take_bit_eq rt take_bit_nat_eq_self)
    finally show ?thesis .
  qed
  then have w: "read_absorb_which (cyc k0) = ucast rt" "ld_which_t (cyc k0) = 0x20" "\<not> ls_replay_active (mach k0)"
    and a: "read_absorb (cyc k0) (unat rt) = ucast (psx_mmio_read_wait phys sz + 2)"
    using l(2-5) rt by (simp_all add: k0_def k1_def [symmetric] psx_cyc_step_def psx_cyc_base_def psx_cyc_deps_def psx_cyc_lds_def Let_def)
  have "unat (psx_mmio_read_wait phys sz + 2) = unat (psx_mmio_read_wait phys sz) + 2"
    using wait_small [OF assms(5), of phys] by (simp add: unat_word_ariths)
  then have "unat (read_absorb (cyc k0) (unat rt)) = unat (psx_mmio_read_wait phys sz) + 2"
    using wait_small [OF assms(5), of phys] by (simp add: a unsigned_ucast_eq take_bit_nat_eq_self)
  then show ?thesis
    using giveback_run [OF w(3) _ w(2), of "unat rt" ms e] w(1) rt assms(8) by simp
qed

section \<open>Stalls\<close>

lemma stall_cycles:
  fixes n dl :: u64
  assumes "n < dl" "unat dl - unat n < 4294967296"
  shows "n + ucast (ucast (dl - n) :: u32) = dl" "unat (ucast (dl - n) :: u32) = unat dl - unat n"
proof -
  have d: "unat (dl - n) = unat dl - unat n" using assms(1) by (simp add: unat_sub order_less_imp_le)
  then have u: "unat (ucast (dl - n) :: u32) = unat (dl - n)"
    using assms(2) by (simp add: unsigned_ucast_eq take_bit_nat_eq_self)
  then show "unat (ucast (dl - n) :: u32) = unat dl - unat n" using d by simp
  have "ucast (ucast (dl - n) :: u32) = dl - n" using u by (simp only: word_unat_eq_iff unat_ucast64)
  then show "n + ucast (ucast (dl - n) :: u32) = dl" by simp
qed

text \<open>C19: Completion deadlines are met exactly: reading HI or LO moves the clock to the multiplier's
  deadline (or leaves it where it is when the deadline is at most one cycle away), any GTE access
  moves it to the GTE's deadline, a second GTE command starts when the first is done, and a read
  hands the waited cycles on as a give-back.\<close>

theorem stalls_reach_deadline:
  fixes e :: "('d, 'x) mach_env" and k :: "('d, 'x) core"
  assumes "\<not> ls_replay_active (mach k)" and "unat (now k) + 1 < 18446744073709551616"
    and "unat (muldiv_ts_done (cyc k)) - unat (now k) < 4294967296" and "unat (gte_ts_done (cyc k)) - unat (now k) < 4294967296"
  shows "now (psx_muldiv_stall e k) = (if unat (muldiv_ts_done (cyc k)) > unat (now k) + 1 then muldiv_ts_done (cyc k) else now k)
    \<and> muldiv_ts_done (cyc (psx_muldiv_stall e k)) \<le> now (psx_muldiv_stall e k)
    \<and> now (psx_gte_stall e k) = max (now k) (gte_ts_done (cyc k))
    \<and> gte_ts_done (cyc (psx_gte_set e l k)) = max (now k) (gte_ts_done (cyc k)) + ucast l
    \<and> now (psx_gte_set e l k) = max (now k) (gte_ts_done (cyc k))
    \<and> now (psx_gte_read e rt k) = max (now k) (gte_ts_done (cyc k))
    \<and> unat (ld_absorb (cyc (psx_gte_read e rt k))) = unat (gte_ts_done (cyc k)) - unat (now k)"
proof -
  let ?d = "muldiv_ts_done (cyc k)" and ?g = "gte_ts_done (cyc k)"
  have g: "now k + ucast (ucast (?g - now k) :: u32) = ?g" "unat (ucast (?g - now k) :: u32) = unat ?g - unat (now k)" if "now k < ?g"
    using stall_cycles [OF that assms(4)] by blast+
  have one: "unat (now k + 1) = unat (now k) + 1" using assms(2) unat_add_lem [of "now k" 1] by simp
  have "now (psx_muldiv_stall e k) = (if unat ?d > unat (now k) + 1 then ?d else now k)
      \<and> muldiv_ts_done (cyc (psx_muldiv_stall e k)) \<le> now (psx_muldiv_stall e k)"
  proof -
    consider "unat ?d \<le> unat (now k)" | "unat ?d = unat (now k + 1)" | "unat (now k) + 1 < unat ?d"
      using one by linarith
    then show ?thesis
    proof cases
      case 1
      then show ?thesis using assms(1) by (auto simp: psx_muldiv_stall_def Let_def word_less_nat_alt word_le_nat_alt)
    next
      case 2
      then have "?d = now k + 1" by (simp only: word_unat_eq_iff)
      then show ?thesis using 2 one assms(1) by (simp add: psx_muldiv_stall_def Let_def word_less_nat_alt)
    next
      case 3
      then have "now k < ?d" "?d \<noteq> now k + 1" using one by (auto simp: word_less_nat_alt)
      then show ?thesis using 3 assms(1) stall_cycles(1) [OF _ assms(3)]
        by (simp add: psx_muldiv_stall_def Let_def)
    qed
  qed
  moreover have "now (psx_gte_stall e k) = max (now k) ?g" "now (psx_gte_set e l k) = max (now k) ?g"
    "gte_ts_done (cyc (psx_gte_set e l k)) = max (now k) ?g + ucast l" "now (psx_gte_read e rt k) = max (now k) ?g"
    using g(1) assms(1) by (auto simp: psx_gte_stall_def psx_gte_set_def psx_gte_read_def Let_def max_def not_less)
  moreover have "unat (ld_absorb (cyc (psx_gte_read e rt k))) = unat ?g - unat (now k)"
    using g(2) assms(1) by (auto simp: psx_gte_read_def Let_def word_less_nat_alt)
  ultimately show ?thesis by blast
qed

section \<open>An example core\<close>

definition demo_core :: "(unit, u32 list) core" where
  "demo_core = \<lparr>cyc = cyc_boot, icache_tv = (\<lambda>_. 1), mach = demo_machine\<rparr>"

lemma demo_core_facts:
  "\<not> ls_replay_active (mach demo_core)" "timing_ok (cyc demo_core)" "now demo_core = 0"
  "muldiv_ts_done (cyc demo_core) = 0" "gte_ts_done (cyc demo_core) = 0"
  by (simp_all add: demo_core_def demo_machine_def cyc_boot_def timing_ok_def)

theorem icache_refines_set_witness: "now (psx_icache_fetch demo_mach_env 0x80010008 demo_core) = 5"
proof -
  have "(0x80010008 :: u32) \<notin> cached (icache_tv demo_core)" by (simp add: cached_def demo_core_def)
  then show ?thesis
    using icache_refines_set [where addr = "0x80010008" and k = demo_core and e = demo_mach_env] demo_core_facts by simp
qed

lemma timing_indices_in_range_witness:
  "timing_ok (cyc (fold (cyc_do demo_mach_env) [Load 0x80010000 4 5 0x10, Step 0x20, GteRead 7, Fetch 0x80010008] demo_core))"
  using timing_indices_in_range [where k = demo_core and ps = "[Load 0x80010000 4 5 0x10, Step 0x20, GteRead 7, Fetch 0x80010008]"
      and e = demo_mach_env] demo_core_facts(2) by simp

theorem load_latency_given_back_witness:
  "now (fold (psx_cyc_step demo_mach_env) (replicate 7 0x10) (psx_cyc_step demo_mach_env 0 (psx_cyc_load_timing demo_mach_env 0x80010000 4 5 0x10 demo_core)))
     = now (psx_cyc_step demo_mach_env 0 (psx_cyc_load_timing demo_mach_env 0x80010000 4 5 0x10 demo_core)) + 2"
proof -
  have "\<not> bit (0x10 :: u32) 5" by (simp add: bit_iff_odd)
  moreover have "psx_mmio_read_wait 0x10000 4 = 3" by (simp add: psx_mmio_read_wait_def)
  ultimately show ?thesis
    using load_latency_given_back [where k = demo_core and rt = 5 and sz = 4 and addr = "0x80010000" and phys = "0x10000"
        and ms = "replicate 7 0x10" and e = demo_mach_env and ?m0.0 = 0 and lm = "0x10"] demo_core_facts(1,2) by simp
qed

theorem stalls_reach_deadline_witness:
  "now (psx_muldiv_stall demo_mach_env (psx_muldiv_set 37 demo_core)) = 37"
proof -
  have "\<not> ls_replay_active (mach (psx_muldiv_set 37 demo_core))" "now (psx_muldiv_set 37 demo_core) = 0"
    "muldiv_ts_done (cyc (psx_muldiv_set 37 demo_core)) = 37" "gte_ts_done (cyc (psx_muldiv_set 37 demo_core)) = 0"
    using demo_core_facts by (simp_all add: psx_muldiv_set_def)
  then show ?thesis using stalls_reach_deadline [where k = "psx_muldiv_set 37 demo_core" and e = demo_mach_env] by simp
qed

end
