(* ===== verification/Io_Bus.thy ===== *)
theory Io_Bus
  imports Scheduler_Props
begin

text \<open>
  The device registers behind 0x1F801000: the MMIO dispatch of \<open>memory.c\<close> (\<open>mmio_read32\<close>,
  \<open>mmio_write32\<close> and their 16- and 8-bit siblings) over the machine of theory \<open>Scheduler\<close>, with
  the registers \<open>memory.c\<close> keeps itself.

  Every access first synchronises the devices, as the wrappers do. The CD-ROM controller and the
  GPU are parameters acting on the external devices behind the DMA controller. The register traces
  of the debug server are the log \<open>b_trace\<close>. The port writes of the card-GP0 diagnostic read a CPU
  register, which is the parameter \<open>io_gpr4\<close>.
\<close>

section \<open>State\<close>

record imask_entry =
  im_old :: u32
  im_new :: u32
  im_caller :: u32
  im_pc :: u32
  im_width :: u8
  im_set :: bool
  im_clear :: bool
  im_exc :: bool

record ('d, 'x) bus =
  b_mach :: "('d, 'x) machine"
  mem_ctrl :: "nat \<Rightarrow> u32"
  ram_size_reg :: u32
  imask_trace :: "nat \<Rightarrow> imask_entry"
  imask_idx :: nat
  imask_count :: nat
  imask_set_count :: nat
  imask_clear_count :: nat
  vblank_acks :: u64
  shadow_watch :: u64
  shadow_hits :: u64
  b_trace :: "(bool \<times> u32 \<times> u32 \<times> nat) list"

record ('d, 'x) io_env =
  io_mach :: "('d, 'x) mach_env"
  io_cd_read :: "u32 \<Rightarrow> ('d, 'x) dma_st \<Rightarrow> u32 \<times> ('d, 'x) dma_st"
  io_cd_write :: "u32 \<Rightarrow> u32 \<Rightarrow> ('d, 'x) dma_st \<Rightarrow> ('d, 'x) dma_st"
  io_gpustat :: "('d, 'x) dma_st \<Rightarrow> u32 \<times> ('d, 'x) dma_st"
  io_gp1 :: "u32 \<Rightarrow> ('d, 'x) dma_st \<Rightarrow> ('d, 'x) dma_st"
  io_func :: u32
  io_gpr4 :: "u32 option"

definition IMASK_TRACE_CAP :: nat where "IMASK_TRACE_CAP = 4096"

abbreviation b_now :: "('d, 'x) bus \<Rightarrow> u64" where "b_now b \<equiv> cycle_count (b_mach b)"

definition on_mach :: "(('d, 'x) machine \<Rightarrow> ('d, 'x) machine) \<Rightarrow> ('d, 'x) bus \<Rightarrow> ('d, 'x) bus" where
  "on_mach f b = b\<lparr>b_mach := f (b_mach b)\<rparr>"

text \<open>A read that changes its device: the value and the bus after it.\<close>

definition get_sio :: "(sio_st \<Rightarrow> 'a \<times> sio_st) \<Rightarrow> ('d, 'x) bus \<Rightarrow> 'a \<times> ('d, 'x) bus" where
  "get_sio f b = (let m = b_mach b; (v, s) = f ((m_sio m)\<lparr>sio_port := m_port m\<rparr>)
                  in (v, b\<lparr>b_mach := m\<lparr>m_sio := s, m_port := sio_port s\<rparr>\<rparr>))"

definition get_dma :: "(('d, 'x) dma_st \<Rightarrow> 'a \<times> ('d, 'x) dma_st) \<Rightarrow> ('d, 'x) bus \<Rightarrow> 'a \<times> ('d, 'x) bus" where
  "get_dma f b = (let m = b_mach b; (v, s) = f ((m_dma m)\<lparr>d_irq := m_port m\<rparr>)
                  in (v, b\<lparr>b_mach := m\<lparr>m_dma := s, m_port := d_irq s\<rparr>\<rparr>))"

definition get_timers :: "(timers_st \<Rightarrow> 'a \<times> timers_st) \<Rightarrow> ('d, 'x) bus \<Rightarrow> 'a \<times> ('d, 'x) bus" where
  "get_timers f b = (let m = b_mach b; (v, s) = f ((m_timers m)\<lparr>port := m_port m\<rparr>)
                     in (v, b\<lparr>b_mach := m\<lparr>m_timers := s, m_port := port s\<rparr>\<rparr>))"

definition dma_mdec_read :: "u32 \<Rightarrow> ('d, 'x) dma_st \<Rightarrow> u32 \<times> ('d, 'x) dma_st" where
  "dma_mdec_read addr s = (let (v, d) = mdec_read addr (d_mdec s) in (v, s\<lparr>d_mdec := d\<rparr>))"

definition dma_mdec_write :: "u32 \<Rightarrow> u32 \<Rightarrow> ('d, 'x) dma_st \<Rightarrow> ('d, 'x) dma_st" where
  "dma_mdec_write addr v s = s\<lparr>d_mdec := mdec_write addr v (d_mdec s)\<rparr>"

definition dma_spu_write :: "u32 \<Rightarrow> u32 \<Rightarrow> ('d, 'x) dma_st \<Rightarrow> ('d, 'x) dma_st" where
  "dma_spu_write addr v s = s\<lparr>d_spu := spu_write addr v (d_spu s)\<rparr>"

definition dma_gpuread :: "('d, 'x) io_env \<Rightarrow> ('d, 'x) dma_st \<Rightarrow> u32 \<times> ('d, 'x) dma_st" where
  "dma_gpuread e s = (let (v, x) = gpu_read_gpuread (me_dma (io_mach e)) (d_ext s) in (v, s\<lparr>d_ext := x\<rparr>))"

section \<open>Registers of \<open>memory.c\<close>\<close>

definition SHADOW_NOTE_MMIO :: "('d, 'x) bus \<Rightarrow> ('d, 'x) bus" where
  "SHADOW_NOTE_MMIO b =
     (on_mach (\<lambda>m. m\<lparr>m_mmio_count := m_mmio_count m + 1\<rparr>) b)\<lparr>shadow_hits := shadow_hits b + shadow_watch b\<rparr>"

definition io_openbus_read :: "('d, 'x) bus \<Rightarrow> ('d, 'x) bus" where
  "io_openbus_read = on_mach (\<lambda>m. m\<lparr>m_dma := (m_dma m)\<lparr>d_openbus_reads := d_openbus_reads (m_dma m) + 1\<rparr>\<rparr>)"

definition io_openbus_write :: "('d, 'x) bus \<Rightarrow> ('d, 'x) bus" where
  "io_openbus_write = on_mach (\<lambda>m. m\<lparr>m_dma := (m_dma m)\<lparr>d_openbus_writes := d_openbus_writes (m_dma m) + 1\<rparr>\<rparr>)"

definition imask_trace_record :: "('d, 'x) io_env \<Rightarrow> u32 \<Rightarrow> u32 \<Rightarrow> u8 \<Rightarrow> ('d, 'x) bus \<Rightarrow> ('d, 'x) bus" where
  "imask_trace_record e old_val new_val w b =
     (let set = \<not> has old_val 0x80 \<and> has new_val 0x80; clr = has old_val 0x80 \<and> \<not> has new_val 0x80;
          en = \<lparr>im_old = old_val, im_new = new_val, im_caller = io_func e,
                im_pc = gm_store_pc (d_mem (m_dma (b_mach b))), im_width = w, im_set = set, im_clear = clr,
                im_exc = in_exception (b_mach b)\<rparr>
      in b\<lparr>imask_trace := (imask_trace b)(imask_idx b := en),
           imask_set_count := imask_set_count b + (if set then 1 else 0),
           imask_clear_count := imask_clear_count b + (if clr then 1 else 0),
           imask_idx := (imask_idx b + 1) mod IMASK_TRACE_CAP, imask_count := imask_count b + 1\<rparr>)"

definition interrupt_write_stat_masked :: "u32 \<Rightarrow> u32 \<Rightarrow> ('d, 'x) bus \<Rightarrow> ('d, 'x) bus" where
  "interrupt_write_stat_masked val m b =
     (let ack_mask = m AND 0x7FF;
          before = i_stat (m_port (b_mach b));
          after = (before AND NOT ack_mask) OR (before AND val AND ack_mask);
          b = on_mach (\<lambda>k. k\<lparr>m_port := (m_port k)\<lparr>i_stat := after\<rparr>\<rparr>) b
      in if has before 1 \<and> \<not> has after 1 then b\<lparr>vblank_acks := vblank_acks b + 1\<rparr> else b)"

definition interrupt_write_mask_masked :: "('d, 'x) io_env \<Rightarrow> u32 \<Rightarrow> u32 \<Rightarrow> u8 \<Rightarrow> ('d, 'x) bus \<Rightarrow> ('d, 'x) bus" where
  "interrupt_write_mask_masked e val m w b =
     (let old = m_i_mask (b_mach b);
          new = ((old AND NOT m) OR (val AND m)) AND 0x7FF
      in imask_trace_record e old new w (on_mach (\<lambda>k. k\<lparr>m_i_mask := new\<rparr>) b))"

section \<open>Address decoding\<close>

definition rng :: "u32 \<Rightarrow> u32 \<Rightarrow> u32 \<Rightarrow> bool" where "rng lo hi a \<longleftrightarrow> a \<ge> lo \<and> a \<le> hi"

text \<open>The bit position and the mask of a byte or halfword lane.\<close>

definition lane8 :: "u32 \<Rightarrow> nat" where "lane8 addr = 8 * unat (addr AND 3)"
definition lane16 :: "u32 \<Rightarrow> nat" where "lane16 addr = 8 * unat (addr AND 2)"

definition put_lane :: "u32 \<Rightarrow> nat \<Rightarrow> u32 \<Rightarrow> u32 \<Rightarrow> u32" where
  "put_lane m n v w = (w AND NOT (push_bit n m)) OR push_bit n v"

definition ctrl_idx :: "u32 \<Rightarrow> nat" where "ctrl_idx addr = unat (drop_bit 2 (addr - 0x1F801000))"

section \<open>Reads\<close>

definition sio_env_at :: "('d, 'x) io_env \<Rightarrow> ('d, 'x) bus \<Rightarrow> sio_env" where
  "sio_env_at e b = me_sio (io_mach e) (b_now b)"

definition get_sio_tick :: "('d, 'x) io_env \<Rightarrow> ('d, 'x) bus \<Rightarrow> ('d, 'x) bus" where
  "get_sio_tick e b = on_mach (on_sio (sio_tick (sio_env_at e b) 0)) b"

definition mmio_read32_impl :: "('d, 'x) io_env \<Rightarrow> u32 \<Rightarrow> ('d, 'x) bus \<Rightarrow> u32 \<times> ('d, 'x) bus" where
  "mmio_read32_impl e addr b0 =
     (let b = SHADOW_NOTE_MMIO b0 in
      if rng 0x1F801000 0x1F80103C addr then (mem_ctrl b (ctrl_idx addr), b)
      else if rng 0x1F801040 0x1F80105F addr then get_sio (sio_read (sio_env_at e b) addr) b
      else if addr = 0x1F801060 then (ram_size_reg b, b)
      else if addr = 0x1F801070 then (let b = get_sio_tick e b in (i_stat (m_port (b_mach b)), b))
      else if addr = 0x1F801074 then (m_i_mask (b_mach b), b)
      else if rng 0x1F801080 0x1F8010FF addr then get_dma (dma_read addr) b
      else if rng 0x1F801100 0x1F80112F addr then get_timers (timers_read True addr) b
      else if rng 0x1F801800 0x1F801803 addr then get_dma (io_cd_read e addr) b
      else if addr = 0x1F801810 then get_dma (dma_gpuread e) b
      else if addr = 0x1F801814 then get_dma (io_gpustat e) b
      else if addr = 0x1F801820 \<or> addr = 0x1F801824 then get_dma (dma_mdec_read addr) b
      else if rng 0x1F801C00 0x1F801FFF addr then (spu_read addr (d_spu (m_dma (b_mach b))), b)
      else if rng 0x1F802000 0x1F802FFF addr then (0, b)
      else (0, io_openbus_read b))"

definition bus_sync :: "('d, 'x) io_env \<Rightarrow> ('d, 'x) bus \<Rightarrow> ('d, 'x) bus" where
  "bus_sync e = on_mach (psx_devices_mmio_sync (io_mach e))"

definition trace_read :: "u32 \<Rightarrow> nat \<Rightarrow> ('w::len) word \<times> ('d, 'x) bus \<Rightarrow> 'w word \<times> ('d, 'x) bus" where
  "trace_read addr n vb = (let (v, b) = vb in (v, b\<lparr>b_trace := (False, addr, ucast v, n) # b_trace b\<rparr>))"

definition bus_read32 :: "('d, 'x) io_env \<Rightarrow> u32 \<Rightarrow> ('d, 'x) bus \<Rightarrow> u32 \<times> ('d, 'x) bus" where
  "bus_read32 e addr b = trace_read addr 4 (mmio_read32_impl e addr (bus_sync e b))"

definition map_fst :: "('a \<Rightarrow> 'c) \<Rightarrow> 'a \<times> 'b \<Rightarrow> 'c \<times> 'b" where "map_fst f p = (f (fst p), snd p)"

definition high_half :: "u32 \<Rightarrow> u32 \<Rightarrow> u16" where
  "high_half addr v = (if addr AND 2 \<noteq> 0 then ucast (drop_bit 16 v) else ucast v)"

definition mmio_read16_impl :: "('d, 'x) io_env \<Rightarrow> u32 \<Rightarrow> ('d, 'x) bus \<Rightarrow> u16 \<times> ('d, 'x) bus" where
  "mmio_read16_impl e addr b0 =
     (let b = SHADOW_NOTE_MMIO b0; shift = (if addr AND 2 \<noteq> 0 then 16 else 0) in
      if rng 0x1F801000 0x1F80103F addr then (ucast (drop_bit (lane16 addr) (mem_ctrl b (ctrl_idx addr))), b)
      else if rng 0x1F801060 0x1F801063 addr then (ucast (drop_bit (lane16 addr) (ram_size_reg b)), b)
      else if rng 0x1F801040 0x1F80105F addr then map_fst ucast (get_sio (sio_read (sio_env_at e b) addr) b)
      else if rng 0x1F801070 0x1F801072 addr then
        (let b = get_sio_tick e b in (ucast (drop_bit shift (i_stat (m_port (b_mach b)))), b))
      else if rng 0x1F801074 0x1F801076 addr then (ucast (drop_bit shift (m_i_mask (b_mach b))), b)
      else if rng 0x1F801100 0x1F80112F addr then map_fst ucast (get_timers (timers_read True addr) b)
      else if rng 0x1F801080 0x1F8010FF addr then map_fst (high_half addr) (get_dma (dma_read (addr AND NOT 3)) b)
      else if rng 0x1F801820 0x1F801827 addr then map_fst (high_half addr) (get_dma (dma_mdec_read (addr AND NOT 3)) b)
      else if rng 0x1F801C00 0x1F801FFF addr then (ucast (spu_read addr (d_spu (m_dma (b_mach b)))), b)
      else (0, io_openbus_read b))"

definition bus_read16 :: "('d, 'x) io_env \<Rightarrow> u32 \<Rightarrow> ('d, 'x) bus \<Rightarrow> u16 \<times> ('d, 'x) bus" where
  "bus_read16 e addr b = trace_read addr 2 (mmio_read16_impl e addr (bus_sync e b))"

definition byte_of :: "u32 \<Rightarrow> u32 \<Rightarrow> u8" where "byte_of addr v = ucast (drop_bit (lane8 addr) v)"

definition mmio_read8_impl :: "('d, 'x) io_env \<Rightarrow> u32 \<Rightarrow> ('d, 'x) bus \<Rightarrow> u8 \<times> ('d, 'x) bus" where
  "mmio_read8_impl e addr b0 =
     (let b = SHADOW_NOTE_MMIO b0 in
      if rng 0x1F801000 0x1F80103F addr then (byte_of addr (mem_ctrl b (ctrl_idx addr)), b)
      else if rng 0x1F801060 0x1F801063 addr then (byte_of addr (ram_size_reg b), b)
      else if rng 0x1F801070 0x1F801077 addr then
        (let b = (if addr < 0x1F801074 then get_sio_tick e b else b);
             v = (if addr < 0x1F801074 then i_stat (m_port (b_mach b)) else m_i_mask (b_mach b))
         in (byte_of addr v, b))
      else if rng 0x1F801040 0x1F80104F addr then map_fst ucast (get_sio (sio_read (sio_env_at e b) (addr AND NOT 3)) b)
      else if rng 0x1F801080 0x1F8010FF addr then map_fst (byte_of addr) (get_dma (dma_read (addr AND NOT 3)) b)
      else if rng 0x1F801820 0x1F801827 addr then map_fst (byte_of addr) (get_dma (dma_mdec_read (addr AND NOT 3)) b)
      else if rng 0x1F801800 0x1F801803 addr then map_fst ucast (get_dma (io_cd_read e addr) b)
      else if rng 0x1F802000 0x1F802FFF addr then (0, b)
      else (0, io_openbus_read b))"

definition bus_read8 :: "('d, 'x) io_env \<Rightarrow> u32 \<Rightarrow> ('d, 'x) bus \<Rightarrow> u8 \<times> ('d, 'x) bus" where
  "bus_read8 e addr b = trace_read addr 1 (mmio_read8_impl e addr (bus_sync e b))"

section \<open>Writes\<close>

definition note_write :: "('d, 'x) io_env \<Rightarrow> u32 \<Rightarrow> u32 \<Rightarrow> nat \<Rightarrow> ('d, 'x) bus \<Rightarrow> ('d, 'x) bus" where
  "note_write e addr v n b =
     (let b = SHADOW_NOTE_MMIO (bus_sync e b) in b\<lparr>b_trace := (True, addr, v, n) # b_trace b\<rparr>)"

definition gp0_source :: "('d, 'x) io_env \<Rightarrow> u32 \<Rightarrow> ('d, 'x) bus \<Rightarrow> u32" where
  "gp0_source e addr b =
     (case io_gpr4 e of
        None \<Rightarrow> addr
      | Some a0 \<Rightarrow> if gm_store_pc (d_mem (m_dma (b_mach b))) = 0xBFC38B1C then (a0 - 4) AND 0x1FFFFC else addr)"

definition gp0_write :: "('d, 'x) io_env \<Rightarrow> u32 \<Rightarrow> u32 \<Rightarrow> ('d, 'x) bus \<Rightarrow> ('d, 'x) bus" where
  "gp0_write e addr v b =
     on_mach (on_dma (\<lambda>s. s\<lparr>d_ext := gpu_write_gp0 (me_dma (io_mach e)) (gp0_source e addr b) v (d_ext s)\<rparr>)) b"

definition bus_write32 :: "('d, 'x) io_env \<Rightarrow> u32 \<Rightarrow> u32 \<Rightarrow> ('d, 'x) bus \<Rightarrow> ('d, 'x) bus" where
  "bus_write32 e addr val b0 =
     (let b = note_write e addr val 4 b0 in
      if rng 0x1F801000 0x1F80103C addr then b\<lparr>mem_ctrl := (mem_ctrl b)(ctrl_idx addr := val)\<rparr>
      else if rng 0x1F801040 0x1F80105F addr then on_mach (on_sio (sio_write (sio_env_at e b) addr val)) b
      else if addr = 0x1F801060 then b\<lparr>ram_size_reg := val\<rparr>
      else if addr = 0x1F801070 then interrupt_write_stat_masked val 0xFFFFFFFF b
      else if addr = 0x1F801074 then interrupt_write_mask_masked e val 0xFFFFFFFF 32 b
      else if rng 0x1F801080 0x1F8010FF addr then on_mach (on_dma (dma_write (me_dma (io_mach e)) addr val)) b
      else if rng 0x1F801100 0x1F80112F addr then on_mach (on_timers (timers_write addr val)) b
      else if rng 0x1F801800 0x1F801803 addr then on_mach (on_dma (io_cd_write e addr val)) b
      else if addr = 0x1F801810 then gp0_write e addr val b
      else if addr = 0x1F801814 then on_mach (on_dma (io_gp1 e val)) b
      else if addr = 0x1F801820 \<or> addr = 0x1F801824 then on_mach (on_dma (dma_mdec_write addr val)) b
      else if rng 0x1F801C00 0x1F801FFF addr then on_mach (on_dma (dma_spu_write addr val)) b
      else if rng 0x1F802000 0x1F802FFF addr then b
      else io_openbus_write b)"

definition bus_write16 :: "('d, 'x) io_env \<Rightarrow> u32 \<Rightarrow> u16 \<Rightarrow> ('d, 'x) bus \<Rightarrow> ('d, 'x) bus" where
  "bus_write16 e addr val b0 =
     (let b = note_write e addr (ucast val) 2 b0; al = addr AND NOT 3; v = ucast val :: u32;
          shift = (if addr AND 2 \<noteq> 0 then 16 else 0) in
      if rng 0x1F801000 0x1F80103F addr then
        b\<lparr>mem_ctrl := (mem_ctrl b)(ctrl_idx addr := put_lane 0xFFFF (lane16 addr) v (mem_ctrl b (ctrl_idx addr)))\<rparr>
      else if rng 0x1F801060 0x1F801063 addr then b\<lparr>ram_size_reg := put_lane 0xFFFF (lane16 addr) v (ram_size_reg b)\<rparr>
      else if rng 0x1F801040 0x1F80105F addr then on_mach (on_sio (sio_write (sio_env_at e b) addr v)) b
      else if rng 0x1F801070 0x1F801072 addr then interrupt_write_stat_masked (push_bit shift v) (push_bit shift 0xFFFF) b
      else if rng 0x1F801074 0x1F801076 addr then interrupt_write_mask_masked e (push_bit shift v) (push_bit shift 0xFFFF) 16 b
      else if rng 0x1F801100 0x1F80112F addr then on_mach (on_timers (timers_write addr v)) b
      else if rng 0x1F801080 0x1F8010FF addr then
        on_mach (on_dma (dma_write_masked (me_dma (io_mach e)) al (push_bit shift v) (push_bit shift 0xFFFF))) b
      else if rng 0x1F801820 0x1F801827 addr then
        (let (cur, b) = get_dma (dma_mdec_read al) b;
             cur = (if addr AND 2 \<noteq> 0 then (cur AND 0x0000FFFF) OR push_bit 16 v else (cur AND 0xFFFF0000) OR v)
         in on_mach (on_dma (dma_mdec_write al cur)) b)
      else if rng 0x1F801C00 0x1F801FFF addr then on_mach (on_dma (dma_spu_write addr v)) b
      else io_openbus_write b)"

definition bus_write8 :: "('d, 'x) io_env \<Rightarrow> u32 \<Rightarrow> u8 \<Rightarrow> ('d, 'x) bus \<Rightarrow> ('d, 'x) bus" where
  "bus_write8 e addr val b0 =
     (let b = note_write e addr (ucast val) 1 b0; al = addr AND NOT 3; v = ucast val :: u32; shift = lane8 addr in
      if rng 0x1F801000 0x1F80103F addr then
        b\<lparr>mem_ctrl := (mem_ctrl b)(ctrl_idx addr := put_lane 0xFF shift v (mem_ctrl b (ctrl_idx addr)))\<rparr>
      else if rng 0x1F801060 0x1F801063 addr then b\<lparr>ram_size_reg := put_lane 0xFF shift v (ram_size_reg b)\<rparr>
      else if rng 0x1F801070 0x1F801073 addr then interrupt_write_stat_masked (push_bit shift v) (push_bit shift 0xFF) b
      else if rng 0x1F801074 0x1F801077 addr then interrupt_write_mask_masked e (push_bit shift v) (push_bit shift 0xFF) 8 b
      else if rng 0x1F801040 0x1F80105F addr then on_mach (on_sio (sio_write (sio_env_at e b) al v)) b
      else if rng 0x1F801080 0x1F8010FF addr then
        on_mach (on_dma (dma_write_masked (me_dma (io_mach e)) al (push_bit shift v) (push_bit shift 0xFF))) b
      else if rng 0x1F801100 0x1F80112F addr then
        (let (cur, b) = get_timers (timers_read True al) b
         in on_mach (on_timers (timers_write al (put_lane 0xFF shift v cur))) b)
      else if rng 0x1F801820 0x1F801827 addr then
        (let (cur, b) = get_dma (dma_mdec_read al) b
         in on_mach (on_dma (dma_mdec_write al (put_lane 0xFF shift v cur))) b)
      else if rng 0x1F801800 0x1F801803 addr then on_mach (on_dma (io_cd_write e addr v)) b
      else if rng 0x1F802000 0x1F802FFF addr then b
      else io_openbus_write b)"

section \<open>The control registers are an array of 64 bytes\<close>

definition ctrl_bytes :: "('d, 'x) bus \<Rightarrow> nat \<Rightarrow> u8" where
  "ctrl_bytes b i = ucast (drop_bit (8 * (i mod 4)) (mem_ctrl b (i div 4)))"

lemma bus_frame [simp]:
  "mem_ctrl (bus_sync e b) = mem_ctrl b" "mem_ctrl (SHADOW_NOTE_MMIO b) = mem_ctrl b" "mem_ctrl (note_write e a v n b) = mem_ctrl b"
  "mem_ctrl (on_mach f b) = mem_ctrl b" "b_mach (on_mach f b) = f (b_mach b)"
  by (simp_all add: bus_sync_def SHADOW_NOTE_MMIO_def note_write_def on_mach_def Let_def)

lemma bit_ctrl_bytes: "bit (ctrl_bytes b i) n \<longleftrightarrow> n < 8 \<and> bit (mem_ctrl b (i div 4)) (8 * (i mod 4) + n)"
  by (auto simp: ctrl_bytes_def bit_unsigned_iff bit_drop_bit_eq dest: bit_imp_le_length)

text \<open>The register index and the lane of an address are the quotient and remainder of its offset.\<close>

lemma ctrl_offset:
  fixes addr :: u32
  assumes "rng 0x1F801000 0x1F80103F addr"
  defines "i \<equiv> unat (addr - 0x1F801000)"
  shows "i < 64" "ctrl_idx addr = i div 4" "lane8 addr = 8 * (i mod 4)" "lane16 addr = 16 * (i mod 4 div 2)"
    "addr = 0x1F801000 + of_nat i"
proof -
  have le: "0x1F801000 \<le> addr" "addr \<le> 0x1F80103F" using assms(1) by (simp_all add: rng_def)
  then have "addr - 0x1F801000 \<le> 0x3F" by (simp add: word_le_nat_alt unat_sub)
  then show i: "i < 64" by (simp add: i_def word_le_nat_alt)
  show "ctrl_idx addr = i div 4" unfolding ctrl_idx_def i_def unat_drop_bit_eq by (simp add: drop_bit_eq_div)
  show a: "addr = 0x1F801000 + of_nat i" by (simp add: i_def)
  have "unat addr = 528486400 + i" using le by (simp add: i_def unat_sub word_le_nat_alt)
  then have "unat addr mod 4 = i mod 4" by presburger
  moreover have "addr AND 3 = take_bit 2 addr" "addr AND 2 = take_bit 2 addr AND 2"
    by (simp_all add: take_bit_eq_mask mask_eq_exp_minus_1 ac_simps)
  moreover have "unat (take_bit 2 addr) = unat addr mod 4" by (simp add: take_bit_eq_mod unat_mod)
  ultimately have m: "unat (addr AND 3) = i mod 4" "unat (addr AND 2) = unat (take_bit 2 addr AND 2)" "unat (take_bit 2 addr) = i mod 4"
    by simp_all
  show "lane8 addr = 8 * (i mod 4)" by (simp add: lane8_def m)
  have "take_bit 2 addr = of_nat (i mod 4)" unfolding m(3) [symmetric] by simp
  moreover have "i mod 4 = 0 \<or> i mod 4 = 1 \<or> i mod 4 = 2 \<or> i mod 4 = 3" by linarith
  ultimately show "lane16 addr = 16 * (i mod 4 div 2)" by (auto simp: lane16_def m(2))
qed

lemma bit_put_lane:
  assumes "\<And>k. bit v k \<Longrightarrow> k < L" "n + L \<le> 32"
  shows "bit (put_lane (mask L) n v w) k \<longleftrightarrow> (if n \<le> k \<and> k < n + L then bit v (k - n) else bit w k)"
  using assms bit_imp_le_length [of w k]
  by (auto simp: put_lane_def bit_or_iff bit_and_iff bit_not_iff bit_push_bit_iff bit_mask_iff) (use assms(1) [of "k - n"] in force)+

lemma lane_masks: "0xFF = (mask 8 :: u32)" "0xFFFF = (mask 16 :: u32)"
  by (simp_all add: mask_eq_exp_minus_1)

text \<open>Storing a lane of \<open>L\<close> bytes at byte \<open>j\<close> of register \<open>r\<close>.\<close>

lemma ctrl_bytes_put:
  assumes "\<And>k. bit v k \<Longrightarrow> k < 8 * l" "j + l \<le> 4"
    and "mem_ctrl b' = (mem_ctrl b)(r := put_lane (mask (8 * l)) (8 * j) v (mem_ctrl b r))"
  shows "ctrl_bytes b' x = (if x div 4 = r \<and> j \<le> x mod 4 \<and> x mod 4 < j + l
    then ucast (drop_bit (8 * (x mod 4 - j)) v) else ctrl_bytes b x)"
proof (rule bit_word_eqI)
  fix n
  assume "n < LENGTH(8)"
  then have n: "n < 8" by simp
  have put: "bit (put_lane (mask (8 * l)) (8 * j) v w) k \<longleftrightarrow> (if 8 * j \<le> k \<and> k < 8 * j + 8 * l then bit v (k - 8 * j) else bit w k)" for w k
    using assms(1,2) by (intro bit_put_lane) auto
  show "bit (ctrl_bytes b' x) n = bit (if x div 4 = r \<and> j \<le> x mod 4 \<and> x mod 4 < j + l
    then ucast (drop_bit (8 * (x mod 4 - j)) v) else ctrl_bytes b x) n"
  proof (cases "x div 4 = r")
    case True
    define y where "y = x mod 4"
    have lane: "8 * j \<le> 8 * y + n \<and> 8 * y + n < 8 * j + 8 * l \<longleftrightarrow> j \<le> y \<and> y < j + l" using n by linarith
    have "j \<le> y \<Longrightarrow> 8 * y + n - 8 * j = 8 * (y - j) + n" by (simp add: diff_mult_distrib2)
    then show ?thesis
      using True n lane unfolding y_def [symmetric]
      by (simp add: bit_ctrl_bytes assms(3) put bit_unsigned_iff bit_drop_bit_eq flip: y_def)
  next
    case False
    then show ?thesis by (simp add: bit_ctrl_bytes assms(3))
  qed
qed

lemma bit_ucast_less: "bit (ucast v :: u32) k \<Longrightarrow> k < LENGTH('w)" for v :: "'w::len word"
  by (auto simp: bit_unsigned_iff dest: bit_imp_le_length)

lemma lane_values:
  "ucast (ucast v8 :: u32) = v8" "ucast (ucast v16 :: u32) = (ucast v16 :: u8)"
  "ucast (drop_bit 8 (ucast v16 :: u32)) = (ucast (drop_bit 8 v16) :: u8)" for v8 :: u8 and v16 :: u16
  by (rule bit_word_eqI; auto simp: bit_unsigned_iff bit_drop_bit_eq dest: bit_imp_le_length)+

lemma in_register: "k < 4 \<Longrightarrow> x = 4 * q + k \<longleftrightarrow> x div 4 = q \<and> x mod 4 = k" for x q k :: nat
  by auto

lemma ctrl_store8:
  fixes addr :: u32
  assumes r: "rng 0x1F801000 0x1F80103F addr"
  defines "i \<equiv> unat (addr - 0x1F801000)"
  shows "ctrl_bytes (bus_write8 e addr v8 b) = (ctrl_bytes b)(i := v8)"
proof
  note o = ctrl_offset [OF r, folded i_def]
  fix x
  have "mem_ctrl (bus_write8 e addr v8 b) = (mem_ctrl b)(i div 4 := put_lane (mask (8 * 1)) (8 * (i mod 4)) (ucast v8) (mem_ctrl b (i div 4)))"
    using r o(2,3) by (simp add: bus_write8_def Let_def lane_masks)
  from ctrl_bytes_put [OF _ _ this, of x] bit_ucast_less [of v8]
  have "ctrl_bytes (bus_write8 e addr v8 b) x = (if x div 4 = i div 4 \<and> i mod 4 \<le> x mod 4 \<and> x mod 4 < i mod 4 + 1
      then ucast (drop_bit (8 * (x mod 4 - i mod 4)) (ucast v8 :: u32)) else ctrl_bytes b x)" by simp
  moreover have "x div 4 = i div 4 \<and> x mod 4 = i mod 4 \<longleftrightarrow> x = i" by (metis div_mult_mod_eq)
  ultimately show "ctrl_bytes (bus_write8 e addr v8 b) x = ((ctrl_bytes b)(i := v8)) x"
    by (auto simp: lane_values)
qed

lemma ctrl_half:
  fixes addr :: u32
  assumes r: "rng 0x1F801000 0x1F80103F addr"
  defines "i \<equiv> unat (addr - 0x1F801000)"
  defines "j \<equiv> 2 * (i mod 4 div 2)"
  shows "j < 3" "2 * (i div 2) = 4 * (i div 4) + j" "lane16 addr = 8 * j"
proof -
  note o = ctrl_offset [OF r, folded i_def]
  have "i mod 4 div 2 < 2" by (simp add: less_mult_imp_div_less)
  then show "j < 3" by (simp add: j_def)
  show "lane16 addr = 8 * j" using o(4) by (simp add: j_def)
  obtain q s where q: "i = 4 * q + s" "s < 4" by (metis mod_less_divisor mult_div_mod_eq zero_less_numeral)
  moreover have "(4 * q + s) div 2 = 2 * q + s div 2" by presburger
  ultimately show "2 * (i div 2) = 4 * (i div 4) + j" by (simp add: j_def)
qed

lemma ctrl_store16:
  fixes addr :: u32
  assumes r: "rng 0x1F801000 0x1F80103F addr"
  defines "i \<equiv> unat (addr - 0x1F801000)"
  shows "ctrl_bytes (bus_write16 e addr v16 b) = (ctrl_bytes b)(2 * (i div 2) := ucast v16, 2 * (i div 2) + 1 := ucast (drop_bit 8 v16))"
proof
  note o = ctrl_offset [OF r, folded i_def]
  define j where "j = 2 * (i mod 4 div 2)"
  note j = ctrl_half [OF r, folded i_def j_def]
  fix x
  have "mem_ctrl (bus_write16 e addr v16 b) = (mem_ctrl b)(i div 4 := put_lane (mask (8 * 2)) (8 * j) (ucast v16) (mem_ctrl b (i div 4)))"
    using r o(2) j(3) by (simp add: bus_write16_def Let_def lane_masks)
  from ctrl_bytes_put [OF _ _ this, of x] bit_ucast_less [of v16] j(1)
  have v: "ctrl_bytes (bus_write16 e addr v16 b) x = (if x div 4 = i div 4 \<and> j \<le> x mod 4 \<and> x mod 4 < j + 2
      then ucast (drop_bit (8 * (x mod 4 - j)) (ucast v16 :: u32)) else ctrl_bytes b x)" by simp
  have c: "x = 4 * (i div 4) + j \<longleftrightarrow> x div 4 = i div 4 \<and> x mod 4 = j"
    "x = 4 * (i div 4) + (j + 1) \<longleftrightarrow> x div 4 = i div 4 \<and> x mod 4 = j + 1"
    by (rule in_register, use j(1) in simp)+
  consider "x = 4 * (i div 4) + j" | "x = 4 * (i div 4) + (j + 1)" | "x \<noteq> 4 * (i div 4) + j \<and> x \<noteq> 4 * (i div 4) + (j + 1)" by blast
  then show "ctrl_bytes (bus_write16 e addr v16 b) x = ((ctrl_bytes b)(2 * (i div 2) := ucast v16, 2 * (i div 2) + 1 := ucast (drop_bit 8 v16))) x"
  proof cases
    case 3
    then have "\<not> (x div 4 = i div 4 \<and> j \<le> x mod 4 \<and> x mod 4 < j + 2)" using c by linarith
    then have n: "(x div 4 = i div 4 \<and> j \<le> x mod 4 \<and> x mod 4 < j + 2) = False" by blast
    show ?thesis using 3 unfolding v n if_False j(2) by simp
  next
    case 1
    then have m: "x div 4 = i div 4" "x mod 4 = j" using c by blast+
    show ?thesis using 1 unfolding v m j(2) by (simp add: lane_values)
  next
    case 2
    then have m: "x div 4 = i div 4" "x mod 4 = j + 1" using c by blast+
    show ?thesis using 2 unfolding v m j(2) by (simp add: lane_values)
  qed
qed

text \<open>C5: To the guest the memory-control block is 64 bytes: at every one of its addresses a byte or
  halfword store replaces exactly the bytes of its lane, least significant first, and a byte or
  halfword load assembles the same bytes; a word access does so up to the address of the last word,
  0x1F80103C.\<close>

theorem ctrl_block_is_bytes:
  fixes addr :: u32
  assumes "rng 0x1F801000 0x1F80103F addr"
  defines "i \<equiv> unat (addr - 0x1F801000)"
  shows "ctrl_bytes (bus_write8 e addr v8 b) = (ctrl_bytes b)(i := v8)
    \<and> ctrl_bytes (bus_write16 e addr v16 b) = (ctrl_bytes b)(2 * (i div 2) := ucast v16, 2 * (i div 2) + 1 := ucast (drop_bit 8 v16))
    \<and> fst (bus_read8 e addr b) = ctrl_bytes b i
    \<and> ucast (fst (bus_read16 e addr b)) = ctrl_bytes b (2 * (i div 2))
    \<and> ucast (drop_bit 8 (fst (bus_read16 e addr b))) = ctrl_bytes b (2 * (i div 2) + 1)
    \<and> (addr \<le> 0x1F80103C \<longrightarrow>
         ctrl_bytes (bus_write32 e addr v32 b) = (\<lambda>x. if x div 4 = i div 4 then ucast (drop_bit (8 * (x mod 4)) v32) else ctrl_bytes b x)
       \<and> (\<forall>j\<in>{0..<4}. ucast (drop_bit (8 * j) (fst (bus_read32 e addr b))) = ctrl_bytes b (4 * (i div 4) + j)))"
proof -
  note r = assms(1)
  note o = ctrl_offset [OF r, folded i_def]
  have w8: "ctrl_bytes (bus_write8 e addr v8 b) = (ctrl_bytes b)(i := v8)"
    unfolding i_def by (rule ctrl_store8 [OF r])
  have w16: "ctrl_bytes (bus_write16 e addr v16 b) = (ctrl_bytes b)(2 * (i div 2) := ucast v16, 2 * (i div 2) + 1 := ucast (drop_bit 8 v16))"
    unfolding i_def by (rule ctrl_store16 [OF r])
  define j where "j = 2 * (i mod 4 div 2)"
  note j = ctrl_half [OF r, folded i_def j_def]
  have w: "addr \<le> 0x1F80103C \<Longrightarrow> rng 0x1F801000 0x1F80103C addr" using r by (simp add: rng_def)
  have w32: "ctrl_bytes (bus_write32 e addr v32 b) = (\<lambda>x. if x div 4 = i div 4 then ucast (drop_bit (8 * (x mod 4)) v32) else ctrl_bytes b x)"
    if "addr \<le> 0x1F80103C"
    using w [OF that] o(2) by (simp add: fun_eq_iff ctrl_bytes_def bus_write32_def Let_def)
  have r32: "fst (bus_read32 e addr b) = mem_ctrl b (i div 4)" if "addr \<le> 0x1F80103C"
    using w [OF that] o(2) by (simp add: bus_read32_def trace_read_def mmio_read32_impl_def Let_def)
  have r16: "fst (bus_read16 e addr b) = ucast (drop_bit (8 * j) (mem_ctrl b (i div 4)))"
    using r o(2) j(3) by (simp add: bus_read16_def trace_read_def mmio_read16_impl_def Let_def)
  have r8: "fst (bus_read8 e addr b) = ctrl_bytes b i"
    using r o(2,3) by (simp add: bus_read8_def trace_read_def mmio_read8_impl_def byte_of_def ctrl_bytes_def Let_def)
  have half: "ctrl_bytes b (4 * (i div 4) + k) = ucast (drop_bit (8 * k) (mem_ctrl b (i div 4)))" if "k < 4" for k
    using that by (simp add: ctrl_bytes_def)
  have "ucast (fst (bus_read16 e addr b)) = ctrl_bytes b (2 * (i div 2))"
    "ucast (drop_bit 8 (fst (bus_read16 e addr b))) = ctrl_bytes b (2 * (i div 2) + 1)"
  proof -
    have "ucast (ucast w :: u16) = (ucast w :: u8)" "ucast (drop_bit 8 (ucast w :: u16)) = (ucast (drop_bit 8 w) :: u8)" for w :: u32
      by (rule bit_word_eqI; auto simp: bit_unsigned_iff bit_drop_bit_eq)+
    then show "ucast (fst (bus_read16 e addr b)) = ctrl_bytes b (2 * (i div 2))"
      "ucast (drop_bit 8 (fst (bus_read16 e addr b))) = ctrl_bytes b (2 * (i div 2) + 1)"
      using half [of j] half [of "j + 1"] j(1) by (simp_all add: r16 j(2) drop_bit_drop_bit add.commute)
  qed
  with w8 w16 w32 r8 show ?thesis using half by (simp add: r32)
qed

section \<open>Interrupt registers\<close>

abbreviation istat :: "('d, 'x) bus \<Rightarrow> u32" where "istat b \<equiv> i_stat (m_port (b_mach b))"

lemma istat_note [simp]: "istat (note_write e a v n b) = istat (bus_sync e b)"
  by (simp add: note_write_def SHADOW_NOTE_MMIO_def on_mach_def Let_def)

lemma istat_ack:
  "istat (interrupt_write_stat_masked v m b) = (istat b AND NOT (m AND mask 11)) OR (istat b AND v AND (m AND mask 11))"
proof -
  have "(0x7FF :: u32) = mask 11" by (simp add: mask_eq_exp_minus_1)
  then show ?thesis unfolding interrupt_write_stat_masked_def Let_def by (simp add: on_mach_def)
qed

lemma istat_lane:
  "bit (istat (interrupt_write_stat_masked (push_bit n v) (push_bit n (mask l)) b)) k
     \<longleftrightarrow> bit (istat b) k \<and> (n \<le> k \<and> k < n + l \<and> k < 11 \<longrightarrow> bit v (k - n))"
  by (auto simp: istat_ack bit_or_iff bit_and_iff bit_not_iff bit_push_bit_iff bit_mask_iff dest: bit_imp_le_length)

text \<open>C6: Acknowledging an interrupt touches only the addressed lane: a byte, halfword or word store to
  \<open>I_STAT\<close> clears exactly the bits 0 to 10 of its lane that the stored value has clear, sets
  nothing, and leaves interrupts raised meanwhile in the other lanes pending.\<close>

theorem istat_store_acknowledges:
  assumes "j < 4" and "h < 2"
  shows "(bit (istat (bus_write8 e (0x1F801070 + of_nat j) v8 b)) k
        \<longleftrightarrow> bit (istat (bus_sync e b)) k \<and> \<not> (8 * j \<le> k \<and> k < 8 * j + 8 \<and> k < 11 \<and> \<not> bit v8 (k - 8 * j)))
    \<and> (bit (istat (bus_write16 e (0x1F801070 + of_nat (2 * h)) v16 b)) k
        \<longleftrightarrow> bit (istat (bus_sync e b)) k \<and> \<not> (16 * h \<le> k \<and> k < 16 * h + 16 \<and> k < 11 \<and> \<not> bit v16 (k - 16 * h)))
    \<and> (bit (istat (bus_write32 e 0x1F801070 v32 b)) k
        \<longleftrightarrow> bit (istat (bus_sync e b)) k \<and> \<not> (k < 11 \<and> \<not> bit v32 k))"
proof (intro conjI)
  have "j = 0 \<or> j = 1 \<or> j = 2 \<or> j = 3" using assms(1) by linarith
  then have "istat (bus_write8 e (0x1F801070 + of_nat j) v8 b)
      = istat (interrupt_write_stat_masked (push_bit (8 * j) (ucast v8)) (push_bit (8 * j) (mask 8)) (note_write e (0x1F801070 + of_nat j) (ucast v8) 1 b))"
    by (elim disjE) (simp_all add: bus_write8_def Let_def rng_def lane8_def mask_eq_exp_minus_1)
  then show "bit (istat (bus_write8 e (0x1F801070 + of_nat j) v8 b)) k
        \<longleftrightarrow> bit (istat (bus_sync e b)) k \<and> \<not> (8 * j \<le> k \<and> k < 8 * j + 8 \<and> k < 11 \<and> \<not> bit v8 (k - 8 * j))"
    by (auto simp: istat_lane bit_unsigned_iff)
  have "h = 0 \<or> h = 1" using assms(2) by linarith
  then have "istat (bus_write16 e (0x1F801070 + of_nat (2 * h)) v16 b)
      = istat (interrupt_write_stat_masked (push_bit (16 * h) (ucast v16)) (push_bit (16 * h) (mask 16)) (note_write e (0x1F801070 + of_nat (2 * h)) (ucast v16) 2 b))"
    by (elim disjE) (simp_all add: bus_write16_def Let_def rng_def mask_eq_exp_minus_1)
  then show "bit (istat (bus_write16 e (0x1F801070 + of_nat (2 * h)) v16 b)) k
        \<longleftrightarrow> bit (istat (bus_sync e b)) k \<and> \<not> (16 * h \<le> k \<and> k < 16 * h + 16 \<and> k < 11 \<and> \<not> bit v16 (k - 16 * h))"
    by (auto simp: istat_lane bit_unsigned_iff)
  have eq: "istat (bus_write32 e 0x1F801070 v32 b)
      = istat (interrupt_write_stat_masked (push_bit 0 v32) (push_bit 0 (mask 32)) (note_write e 0x1F801070 v32 4 b))"
    by (simp add: bus_write32_def Let_def rng_def mask_eq_exp_minus_1)
  show "bit (istat (bus_write32 e 0x1F801070 v32 b)) k
        \<longleftrightarrow> bit (istat (bus_sync e b)) k \<and> \<not> (k < 11 \<and> \<not> bit v32 k)"
    unfolding eq istat_lane istat_note by auto
qed

section \<open>Byte access to the serial port\<close>

lemma tick0_regs [simp]: "sio_ctrl (legacy_countdown e s) = sio_ctrl s" "sio_mode (legacy_countdown e s) = sio_mode s"
  by (simp_all add: legacy_countdown_def raise_sio_irq_def irq_ring_put_def Let_def)

lemma sio_write_mode:
  "sio_ctrl (sio_write e 0x1F801048 v s) = sio_ctrl s" "sio_mode (sio_write e 0x1F801048 v s) = ucast v"
  by (simp_all add: sio_write_def sio_tick_def sr_record_def sio_debug_poll_maybe_def Let_def)

text \<open>C7: A byte store to the serial control register never reaches it: the address is rounded down to a
  multiple of four, so a byte stored to \<open>JOY_CTRL\<close> (0x1F80104A or 0x1F80104B) replaces \<open>JOY_MODE\<close> and
  leaves the control register, and with it the selected device, alone.\<close>

theorem sio_ctrl_byte_lost:
  assumes "addr \<in> {0x1F80104A, 0x1F80104B}"
  shows "sio_ctrl (m_sio (b_mach (bus_write8 e addr v b))) = sio_ctrl (m_sio (b_mach (bus_sync e b)))
       \<and> sio_mode (m_sio (b_mach (bus_write8 e addr v b))) = ucast v"
proof -
  define n where "n = note_write e addr (ucast v) 1 b"
  have "addr = 0x1F80104A \<or> addr = 0x1F80104B" using assms by blast
  then have "bus_write8 e addr v b = on_mach (on_sio (sio_write (sio_env_at e n) 0x1F801048 (ucast v))) n"
    unfolding bus_write8_def Let_def n_def [symmetric] by (elim disjE) (simp_all add: rng_def)
  moreover have "m_sio (b_mach n) = m_sio (b_mach (bus_sync e b))"
    by (simp add: n_def note_write_def SHADOW_NOTE_MMIO_def on_mach_def Let_def)
  moreover have "(ucast (ucast v :: u32) :: u16) = ucast v"
    by (rule bit_word_eqI) (auto simp: bit_unsigned_iff)
  ultimately show ?thesis by (simp add: on_mach_def on_sio_def sio_write_mode Let_def)
qed

section \<open>Reading a counter\<close>

text \<open>C4: A guest load of a root counter is exact to the cycle: whatever was charged since the last
  synchronisation, the value read is the counter that one advance by all the charged cycles gives.\<close>

theorem timer_load_exact:
  fixes e :: "('d, 'x) io_env" and b :: "('d, 'x) bus"
  assumes "sched_ok (b_mach b)" and "devices_synced (b_mach b) = b_now b" and "timers_wf (m_timers (b_mach b))"
    and "unat (b_now b) + charged cs + 16384 < 18446744073709551616" and "charged cs + 16384 < max_observed"
    and "t < 3"
  defines "now_timers \<equiv> timers_advance (of_nat (charged cs)) (m_timers (b_mach b))"
    and "later \<equiv> on_mach (fold (psx_advance_cycles (io_mach e)) cs) b"
  shows "fst (bus_read32 e (0x1F801100 + 16 * of_nat t) later) = ucast (counter (timers now_timers t))
    \<and> fst (bus_read16 e (0x1F801100 + 16 * of_nat t) later) = counter (timers now_timers t)"
proof -
  let ?a = "0x1F801100 + 16 * of_nat t :: u32"
  have t: "t = 0 \<or> t = 1 \<or> t = 2" using assms(6) by linarith
  have "timer_regs t (m_timers (b_mach (bus_sync e later))) = timer_regs t now_timers"
    using timers_after_sync [OF assms(1-6)] by (simp add: bus_sync_def later_def now_timers_def)
  then have c: "counter (timers (m_timers (b_mach (bus_sync e later))) t) = counter (timers now_timers t)"
    by (simp add: timer_regs_def)
  have s: "m_timers (b_mach (SHADOW_NOTE_MMIO x)) = m_timers (b_mach x)" for x :: "('d, 'x) bus"
    by (simp add: SHADOW_NOTE_MMIO_def on_mach_def)
  have i: "timer_index ?a = t" "timer_reg ?a = 0" using t by (auto simp: timer_index_def timer_reg_def)
  have rd: "fst (get_timers (timers_read True ?a) x) = ucast (counter (timers (m_timers (b_mach x)) t))" for x :: "('d, 'x) bus"
    using t by (auto simp: get_timers_def timers_read_def i Let_def)
  have m32: "mmio_read32_impl e ?a x = get_timers (timers_read True ?a) (SHADOW_NOTE_MMIO x)" for x
    using t by (elim disjE; simp add: mmio_read32_impl_def Let_def rng_def)
  have m16: "mmio_read16_impl e ?a x = map_fst ucast (get_timers (timers_read True ?a) (SHADOW_NOTE_MMIO x))" for x
    using t by (elim disjE; simp add: mmio_read16_impl_def Let_def rng_def)
  have "ucast (ucast w :: u32) = w" for w :: u16
    by (rule bit_word_eqI) (auto simp: bit_unsigned_iff)
  then show ?thesis
    by (simp add: bus_read32_def bus_read16_def trace_read_def m32 m16 map_fst_def case_prod_unfold Let_def rd s c)
qed

section \<open>An example bus\<close>

definition demo_io_env :: "(unit, u32 list) io_env" where
  "demo_io_env = \<lparr>io_mach = demo_mach_env, io_cd_read = \<lambda>_ s. (0, s), io_cd_write = \<lambda>_ _ s. s, io_gpustat = \<lambda>s. (0, s),
     io_gp1 = \<lambda>_ s. s, io_func = 0, io_gpr4 = None\<rparr>"

definition demo_bus :: "(unit, u32 list) bus" where
  "demo_bus = \<lparr>b_mach = demo_machine, mem_ctrl = \<lambda>_. 0, ram_size_reg = 0x00000B88,
     imask_trace = \<lambda>_. \<lparr>im_old = 0, im_new = 0, im_caller = 0, im_pc = 0, im_width = 0, im_set = False, im_clear = False,
       im_exc = False\<rparr>, imask_idx = 0, imask_count = 0, imask_set_count = 0, imask_clear_count = 0, vblank_acks = 0,
     shadow_watch = 0, shadow_hits = 0, b_trace = []\<rparr>"

lemma demo_bus_mach [simp]: "b_mach demo_bus = demo_machine" by (simp add: demo_bus_def)

theorem timer_load_exact_witness:
  "fst (bus_read16 demo_io_env 0x1F801120 (on_mach (fold (psx_advance_cycles demo_mach_env) [40, 600000, 7]) demo_bus))
     = counter (timers (timers_advance 600047 demo_timers) 2)"
proof -
  have "m_timers demo_machine = demo_timers" "io_mach demo_io_env = demo_mach_env"
    by (simp_all add: demo_machine_def demo_io_env_def)
  moreover from this have "timers_wf demo_timers" using demo_machine_ok(3) by simp
  ultimately show ?thesis
    using timer_load_exact [where b = demo_bus and e = demo_io_env and cs = "[40, 600000, 7]" and t = 2]
    by (simp add: demo_machine_ok charged_def max_observed_def)
qed

theorem ctrl_block_is_bytes_witness:
  "ctrl_bytes (bus_write8 demo_io_env 0x1F80103F 0x5A demo_bus) = (ctrl_bytes demo_bus)(63 := 0x5A)"
proof -
  have "rng 0x1F801000 0x1F80103F 0x1F80103F" by (simp add: rng_def)
  from ctrl_block_is_bytes [OF this, where e = demo_io_env and ?v8.0 = "0x5A" and b = demo_bus] show ?thesis by simp
qed

theorem istat_store_acknowledges_witness:
  "bit (istat (bus_write8 demo_io_env 0x1F801071 0xFB demo_bus)) 2 = bit (istat (bus_sync demo_io_env demo_bus)) 2"
  using istat_store_acknowledges [where j = 1 and h = 0 and e = demo_io_env and ?v8.0 = "0xFB" and b = demo_bus and k = 2] by simp

theorem sio_ctrl_byte_lost_witness:
  "sio_mode (m_sio (b_mach (bus_write8 demo_io_env 0x1F80104A 0x02 demo_bus))) = 2"
  using sio_ctrl_byte_lost [where addr = "0x1F80104A" and e = demo_io_env and v = 2 and b = demo_bus] by simp

end
