(* ===== verification/Cdrom.thy ===== *)
theory Cdrom
  imports Code_Guard Spu "HOL-Library.Signed_Division"
begin

text \<open>
  The CD-ROM controller: \<open>psxrecomp/runtime/src/cdrom.c\<close>.

  The file-scope statics are the fields of \<open>cd_st\<close>; the APv2 variables, the last delivered sector,
  the XA decoder, the CD-DA player, the delayed and the queued command and the observability rings
  are records of their own, as are the interrupt port, the SPU and the RAM lent by their owners.
  Counters and FIFO indices that the code keeps in \<open>int\<close> and that are never negative are \<open>nat\<close>;
  delays, positions and samples are \<open>int\<close>. \<open>cd_env\<close> is what the file reads from elsewhere: the disc
  image, the clocks, whether a CD DMA transfer is active, and the values it takes from the process
  environment. The \<open>SIGSTOP\<close> debugging trap and \<open>PSX_CD_DMA_TRACE\<close> are off.
\<close>

section \<open>State\<close>

abbreviation (input) PARAM_FIFO_SIZE :: nat where "PARAM_FIFO_SIZE \<equiv> 16"
abbreviation (input) RESPONSE_FIFO_SIZE :: nat where "RESPONSE_FIFO_SIZE \<equiv> 16"
abbreviation (input) SECTOR_SIZE :: nat where "SECTOR_SIZE \<equiv> 2048"
abbreviation (input) RAW_USER_DATA_OFFSET :: nat where "RAW_USER_DATA_OFFSET \<equiv> 24"
abbreviation (input) WHOLE_SECTOR_OFFSET :: nat where "WHOLE_SECTOR_OFFSET \<equiv> 12"
abbreviation (input) WHOLE_SECTOR_SIZE :: nat where "WHOLE_SECTOR_SIZE \<equiv> 2340"
abbreviation (input) FALLBACK_SECTOR_HEADER_SIZE :: nat where "FALLBACK_SECTOR_HEADER_SIZE \<equiv> 12"
abbreviation (input) FALLBACK_WHOLE_SECTOR_SIZE :: nat where "FALLBACK_WHOLE_SECTOR_SIZE \<equiv> 2060"
abbreviation (input) CDROM_REQUEST_BFRD :: u8 where "CDROM_REQUEST_BFRD \<equiv> 0x80"
abbreviation (input) CDROM_SECTOR_MODE2 :: u8 where "CDROM_SECTOR_MODE2 \<equiv> 2"
abbreviation (input) CDROM_IRQ_PRESENT_DELAY :: int where "CDROM_IRQ_PRESENT_DELAY \<equiv> 5000"
abbreviation (input) CDROM_MIN_DELAY :: int where "CDROM_MIN_DELAY \<equiv> 500"
abbreviation (input) VBLANK_CYCLES_NTSC :: int where "VBLANK_CYCLES_NTSC \<equiv> 564480"
abbreviation (input) CDROM_SINGLE_SPEED_SECTOR_CYCLES :: int where "CDROM_SINGLE_SPEED_SECTOR_CYCLES \<equiv> 451584"
abbreviation (input) CDDA_SECTOR_FRAMES :: nat where "CDDA_SECTOR_FRAMES \<equiv> 588"

abbreviation (input) CDSTAT_ERROR :: u8 where "CDSTAT_ERROR \<equiv> 0x01"
abbreviation (input) CDSTAT_MOTOR :: u8 where "CDSTAT_MOTOR \<equiv> 0x02"
abbreviation (input) CDSTAT_SEEKERR :: u8 where "CDSTAT_SEEKERR \<equiv> 0x04"
abbreviation (input) CDSTAT_IDERROR :: u8 where "CDSTAT_IDERROR \<equiv> 0x08"
abbreviation (input) CDSTAT_SHELL :: u8 where "CDSTAT_SHELL \<equiv> 0x10"
abbreviation (input) CDSTAT_READ :: u8 where "CDSTAT_READ \<equiv> 0x20"
abbreviation (input) CDSTAT_SEEK :: u8 where "CDSTAT_SEEK \<equiv> 0x40"
abbreviation (input) CDSTAT_PLAY :: u8 where "CDSTAT_PLAY \<equiv> 0x80"

abbreviation (input) CDIRQ_DATA_READY :: u8 where "CDIRQ_DATA_READY \<equiv> 1"
abbreviation (input) CDIRQ_COMPLETE :: u8 where "CDIRQ_COMPLETE \<equiv> 2"
abbreviation (input) CDIRQ_ACK :: u8 where "CDIRQ_ACK \<equiv> 3"
abbreviation (input) CDIRQ_DATA_END :: u8 where "CDIRQ_DATA_END \<equiv> 4"
abbreviation (input) CDIRQ_ERROR :: u8 where "CDIRQ_ERROR \<equiv> 5"

abbreviation (input) SRC_CD_CMD :: u8 where "SRC_CD_CMD \<equiv> 17"
abbreviation (input) SRC_CD_READ :: u8 where "SRC_CD_READ \<equiv> 18"
abbreviation (input) SRC_CD_IRQ :: u8 where "SRC_CD_IRQ \<equiv> 19"

record cd_env =
  ce_func :: u32
  ce_pc :: u32
  ce_frame :: u64
  ce_ms :: u64
  ce_raw :: "u32 \<Rightarrow> (nat \<Rightarrow> u8) option"
  ce_user :: "u32 \<Rightarrow> (nat \<Rightarrow> u8) option"
  ce_sectors :: u32
  ce_tracks :: int
  ce_track_start :: "int \<Rightarrow> u32"
  ce_track_pregap :: "int \<Rightarrow> u32"
  ce_is_audio :: "int \<Rightarrow> bool"
  ce_dma_active :: bool
  ce_code :: code_host

record cd_apv2 =
  ap_stock_mode :: bool
  ap_probe_active :: bool
  ap_total :: u8
  ap_success :: u8
  ap_play_acks :: u64
  ap_test04_count :: u64
  ap_test05_count :: u64
  ap_bypass_enabled :: bool
  ap_bypass_applied :: bool
  ap_bypass_frame :: u32
  ap_seen_184 :: u32
  ap_seen_188 :: u32
  ap_seen_18c :: u32
  ap_last_check_frame :: u64

record cd_last =
  ls_buffer :: "nat \<Rightarrow> u8"
  ls_lba :: int
  ls_size :: nat
  ls_frame :: u32
  ls_mode :: u8
  ls_have_raw :: bool
  ls_raw_mode :: u8
  ls_xa_file :: u8
  ls_xa_channel :: u8
  ls_xa_submode :: u8
  ls_xa_coding :: u8

record cd_xa =
  xa_hist_l :: "int \<times> int"
  xa_hist_r :: "int \<times> int"
  xa_stream_file :: u8
  xa_stream_channel :: u8
  xa_stream_coding :: u8
  xa_stream_active :: bool

record cd_da =
  cdda_playing :: bool
  cdda_track :: int
  cdda_lba :: u32
  cdda_delay :: int
  cdda_data_end_pending :: bool
  cdda_sectors_played :: u64

record pending_cmd =
  pc_cmd :: u8
  pc_pending :: bool
  pc_delay :: int
  pc_phase :: nat

record queued_cmd =
  qc_cmd :: u8
  qc_params :: "nat \<Rightarrow> u8"
  qc_param_count :: nat
  qc_pending :: bool

record cd_delivery =
  sd_raw_mode :: u8
  sd_xa_file :: u8
  sd_xa_channel :: u8
  sd_xa_submode :: u8
  sd_xa_coding :: u8
  sd_data_delivered :: bool
  sd_xa_audio_delivered :: bool
  sd_skip_reason :: u8

record cd_trace_entry =
  ct_seq :: u64
  ct_kind :: char
  ct_addr :: u32
  ct_val :: u32
  ct_width :: u8
  ct_func :: u32
  ct_pc :: u32
  ct_frame :: u32
  ct_i_stat :: u32
  ct_index_reg :: u8
  ct_stat_reg :: u8
  ct_request_reg :: u8
  ct_irq_enable :: u8
  ct_irq_flag :: u8
  ct_mode_reg :: u8
  ct_param_count :: u8
  ct_response_read :: u8
  ct_response_count :: u8
  ct_sector_available :: bool
  ct_sector_read_pos :: nat
  ct_sector_size :: nat
  ct_pending_cmd :: u8
  ct_pending_pending :: bool
  ct_pending_delay :: int
  ct_reading :: bool
  ct_read_cmd :: u8
  ct_read_delay :: int

record cd_command_entry =
  ch_seq :: u64
  ch_frame :: u32
  ch_func :: u32
  ch_pc :: u32
  ch_i_stat :: u32
  ch_kind :: char
  ch_cmd :: u8
  ch_param_count :: u8
  ch_params :: "nat \<Rightarrow> u8"
  ch_stat :: u8
  ch_request :: u8
  ch_irq_enable :: u8
  ch_irq_flag :: u8
  ch_mode :: u8
  ch_seek :: "u8 \<times> u8 \<times> u8"
  ch_read :: "u8 \<times> u8 \<times> u8"
  ch_read_cmd :: u8
  ch_reading :: bool
  ch_pending_cmd :: u8
  ch_pending_pending :: bool
  ch_queued_cmd :: u8
  ch_queued_pending :: bool

record cd_sector_entry =
  sh_seq :: u64
  sh_lba :: int
  sh_size :: nat
  sh_frame :: u32
  sh_mode :: u8
  sh_have_raw :: bool
  sh_delivery :: cd_delivery
  sh_bytes_len :: u16
  sh_bytes :: "nat \<Rightarrow> u8"

record cd_burst =
  bu_start_frame :: u32
  bu_end_frame :: u32
  bu_start_ms :: u64
  bu_end_ms :: u64
  bu_sectors :: u32
  bu_rate :: u32
  bu_divisor :: u32

record cd_rings =
  cdrom_trace :: "nat \<Rightarrow> cd_trace_entry option"
  cdrom_trace_seq :: u64
  command_history :: "nat \<Rightarrow> cd_command_entry option"
  command_history_seq :: u64
  sector_history :: "nat \<Rightarrow> cd_sector_entry option"
  sector_history_seq :: u64

text \<open>An unused slot of a ring is \<open>None\<close>: the code leaves it zeroed.\<close>

record cd_st =
  cd_port :: irq_port
  cd_spu :: spu_st
  cd_mem :: code_mem
  index_reg :: u8
  stat_reg :: u8
  request_reg :: u8
  irq_enable :: u8
  irq_flag :: u8
  disc_scex :: "nat \<Rightarrow> u8"
  intc_request_latched :: bool
  irq_generation :: u32
  intc_latched_generation :: u32
  irq_present_delay :: int
  init_complete_delay :: int
  readtoc_complete_delay :: int
  pending_time_continues :: bool
  param_fifo :: "nat \<Rightarrow> u8"
  param_count :: nat
  response_fifo :: "nat \<Rightarrow> u8"
  response_read :: nat
  response_count :: nat
  sector_buffer :: "nat \<Rightarrow> u8"
  sector_read_pos :: nat
  sector_available :: bool
  sector_size :: nat
  seek_min :: u8
  seek_sec :: u8
  seek_sect :: u8
  setloc_lba :: int
  setloc_seek_far :: bool
  cd_reading :: bool
  read_min :: int
  read_sec :: int
  read_sect :: int
  mode_reg :: u8
  read_cmd :: u8
  read_delay :: int
  filter_file :: u8
  filter_channel :: u8
  cd_muted :: bool
  disc_speed_divisor :: int
  game_divisor :: int
  instant_max_per_frame :: int
  pending_dataready :: bool
  pending_dataready_stat :: u8
  int1_pended :: u64
  int1_lost :: u64
  dataready_fires :: u64
  cd_pending_vol :: "nat \<Rightarrow> nat \<Rightarrow> u8"
  cd_decode_vol :: "nat \<Rightarrow> nat \<Rightarrow> u8"
  iso_mounted :: bool
  bursts :: "nat \<Rightarrow> cd_burst"
  burst_count :: u32
  cd_ap :: cd_apv2
  cd_ls :: cd_last
  cd_xs :: cd_xa
  cd_dp :: cd_da
  cd_pc :: pending_cmd
  cd_qc :: queued_cmd
  cd_rg :: cd_rings

text \<open>Updates of the nested records.\<close>

abbreviation "on_ap f s \<equiv> s\<lparr>cd_ap := f (cd_ap s)\<rparr>"
abbreviation "on_xa f s \<equiv> s\<lparr>cd_xs := f (cd_xs s)\<rparr>"
abbreviation "on_da f s \<equiv> s\<lparr>cd_dp := f (cd_dp s)\<rparr>"
abbreviation "on_rg f s \<equiv> s\<lparr>cd_rg := f (cd_rg s)\<rparr>"
abbreviation "on_spu f s \<equiv> s\<lparr>cd_spu := f (cd_spu s)\<rparr>"

section \<open>Observability rings\<close>

definition trace_cdrom :: "cd_env \<Rightarrow> char \<Rightarrow> u32 \<Rightarrow> u32 \<Rightarrow> u8 \<Rightarrow> cd_st \<Rightarrow> cd_st" where
  "trace_cdrom e kind addr val width s =
     on_rg (\<lambda>r. r\<lparr>cdrom_trace := (cdrom_trace r)(unat (cdrom_trace_seq r) mod 65536 \<mapsto>
         \<lparr>ct_seq = cdrom_trace_seq r, ct_kind = kind, ct_addr = addr, ct_val = val, ct_width = width,
          ct_func = ce_func e, ct_pc = ce_pc e, ct_frame = ucast (ce_frame e), ct_i_stat = i_stat (cd_port s),
          ct_index_reg = index_reg s, ct_stat_reg = stat_reg s, ct_request_reg = request_reg s,
          ct_irq_enable = irq_enable s, ct_irq_flag = irq_flag s, ct_mode_reg = mode_reg s,
          ct_param_count = of_nat (param_count s), ct_response_read = of_nat (response_read s),
          ct_response_count = of_nat (response_count s), ct_sector_available = sector_available s,
          ct_sector_read_pos = sector_read_pos s, ct_sector_size = sector_size s,
          ct_pending_cmd = pc_cmd (cd_pc s), ct_pending_pending = pc_pending (cd_pc s),
          ct_pending_delay = pc_delay (cd_pc s), ct_reading = cd_reading s, ct_read_cmd = read_cmd s,
          ct_read_delay = read_delay s\<rparr>),
       cdrom_trace_seq := cdrom_trace_seq r + 1\<rparr>) s"

definition record_command_history :: "cd_env \<Rightarrow> char \<Rightarrow> u8 \<Rightarrow> (nat \<Rightarrow> u8) \<Rightarrow> nat \<Rightarrow> cd_st \<Rightarrow> cd_st" where
  "record_command_history e kind cmd params count s =
     (let n = min count PARAM_FIFO_SIZE in
      on_rg (\<lambda>r. r\<lparr>command_history := (command_history r)(unat (command_history_seq r) mod 8192 \<mapsto>
         \<lparr>ch_seq = command_history_seq r, ch_frame = ucast (ce_frame e), ch_func = ce_func e, ch_pc = ce_pc e,
          ch_i_stat = i_stat (cd_port s), ch_kind = kind, ch_cmd = cmd, ch_param_count = of_nat n,
          ch_params = (\<lambda>i. if i < n then params i else 0), ch_stat = stat_reg s, ch_request = request_reg s,
          ch_irq_enable = irq_enable s, ch_irq_flag = irq_flag s, ch_mode = mode_reg s,
          ch_seek = (seek_min s, seek_sec s, seek_sect s),
          ch_read = (word_of_int (read_min s), word_of_int (read_sec s), word_of_int (read_sect s)),
          ch_read_cmd = read_cmd s, ch_reading = cd_reading s, ch_pending_cmd = pc_cmd (cd_pc s),
          ch_pending_pending = pc_pending (cd_pc s), ch_queued_cmd = qc_cmd (cd_qc s),
          ch_queued_pending = qc_pending (cd_qc s)\<rparr>),
       command_history_seq := command_history_seq r + 1\<rparr>) s)"

definition record_sector_history :: "cd_env \<Rightarrow> int \<Rightarrow> nat \<Rightarrow> u8 \<Rightarrow> bool \<Rightarrow> (nat \<Rightarrow> u8) \<Rightarrow> cd_delivery \<Rightarrow> cd_st \<Rightarrow> cd_st" where
  "record_sector_history e lba size' mode have_raw bytes delivery s =
     (let n = min size' 128 in
      on_rg (\<lambda>r. r\<lparr>sector_history := (sector_history r)(unat (sector_history_seq r) mod 8192 \<mapsto>
         \<lparr>sh_seq = sector_history_seq r, sh_lba = lba, sh_size = size', sh_frame = ucast (ce_frame e),
          sh_mode = mode, sh_have_raw = have_raw, sh_delivery = delivery, sh_bytes_len = of_nat n,
          sh_bytes = (\<lambda>i. if i < n then bytes i else 0)\<rparr>),
       sector_history_seq := sector_history_seq r + 1\<rparr>) s)"

text \<open>The newest burst is in slot \<open>(burst_count - 1) % 128\<close>.\<close>

definition burst_note_sector :: "cd_env \<Rightarrow> cd_st \<Rightarrow> cd_st" where
  "burst_note_sector e s =
     (let f = (ucast (ce_frame e) :: u32);
          ms = ce_ms e;
          cur = unat ((burst_count s - 1) mod 128);
          fresh = (burst_count s = 0 \<or> f > bu_end_frame (bursts s cur) + 30);
          slot = (if fresh then unat (burst_count s mod 128) else cur);
          b0 = bursts s slot;
          b = (if fresh then b0\<lparr>bu_start_frame := f, bu_start_ms := ms, bu_sectors := 0\<rparr> else b0)
      in s\<lparr>burst_count := (if fresh then burst_count s + 1 else burst_count s),
           bursts := (bursts s)(slot := b\<lparr>bu_end_frame := f, bu_end_ms := ms, bu_sectors := bu_sectors b + 1,
             bu_rate := word_of_int (instant_max_per_frame s), bu_divisor := word_of_int (disc_speed_divisor s)\<rparr>)\<rparr>)"

definition cdrom_get_bursts :: "cd_st \<Rightarrow> nat \<Rightarrow> cd_burst list" where
  "cdrom_get_bursts s mx =
     map (\<lambda>k. bursts s (unat ((burst_count s - 1 - of_nat k) mod 128))) [0..<min mx (min 128 (unat (burst_count s)))]"

section \<open>Timing\<close>

definition cdrom_set_speed :: "int \<Rightarrow> cd_st \<Rightarrow> cd_st" where
  "cdrom_set_speed divisor s = s\<lparr>disc_speed_divisor := divisor\<rparr>"

definition cdrom_set_game_speed :: "int \<Rightarrow> cd_st \<Rightarrow> cd_st" where
  "cdrom_set_game_speed divisor s = s\<lparr>game_divisor := divisor\<rparr>"

definition cdrom_notify_game_started :: "cd_st \<Rightarrow> cd_st" where
  "cdrom_notify_game_started s = s\<lparr>disc_speed_divisor := game_divisor s\<rparr>"

definition cdrom_set_instant_rate :: "int \<Rightarrow> cd_st \<Rightarrow> cd_st" where
  "cdrom_set_instant_rate per_frame s =
     s\<lparr>instant_max_per_frame := (if per_frame < 1 then 1 else if per_frame > 4096 then 4096 else per_frame)\<rparr>"

definition cdrom_set_disc_scex :: "(nat \<Rightarrow> u8) \<Rightarrow> cd_st \<Rightarrow> cd_st" where
  "cdrom_set_disc_scex scex s = s\<lparr>disc_scex := (\<lambda>i. if i < 4 then scex i else disc_scex s i)\<rparr>"

text \<open>C division truncates towards zero: \<open>sdiv\<close> and \<open>smod\<close>.\<close>

definition instant_period :: "cd_st \<Rightarrow> int" where
  "instant_period s =
     (let p = VBLANK_CYCLES_NTSC sdiv instant_max_per_frame s
      in if p < CDROM_MIN_DELAY then CDROM_MIN_DELAY else p)"

definition apply_speed :: "int \<Rightarrow> cd_st \<Rightarrow> int" where
  "apply_speed delay s =
     (if xa_stream_active (cd_xs s) then delay
      else if disc_speed_divisor s = 0 then instant_period s
      else let d = delay sdiv disc_speed_divisor s in if d < CDROM_MIN_DELAY then CDROM_MIN_DELAY else d)"

definition sector_delay_cycles :: "cd_st \<Rightarrow> int" where
  "sector_delay_cycles s =
     apply_speed (if has (mode_reg s) 0x80 then CDROM_SINGLE_SPEED_SECTOR_CYCLES div 2
                  else CDROM_SINGLE_SPEED_SECTOR_CYCLES) s"

definition initial_read_delay_cycles :: "cd_st \<Rightarrow> int" where
  "initial_read_delay_cycles s =
     apply_speed (if has (mode_reg s) 0x80 then CDROM_SINGLE_SPEED_SECTOR_CYCLES
                  else CDROM_SINGLE_SPEED_SECTOR_CYCLES * 2) s"

definition seek_complete_delay_cycles :: "cd_st \<Rightarrow> int" where
  "seek_complete_delay_cycles s =
     apply_speed (if setloc_seek_far s then CDROM_SINGLE_SPEED_SECTOR_CYCLES * 4 else 0x800) s"

section \<open>Responses and their presentation to the interrupt controller\<close>

definition has_disc :: "cd_st \<Rightarrow> bool" where
  "has_disc s \<longleftrightarrow> iso_mounted s"

definition response_clear :: "cd_st \<Rightarrow> cd_st" where
  "response_clear s = s\<lparr>response_read := 0, response_count := 0\<rparr>"

definition response_push :: "u8 \<Rightarrow> cd_st \<Rightarrow> cd_st" where
  "response_push val s =
     (if response_count s < RESPONSE_FIFO_SIZE
      then s\<lparr>response_fifo := (response_fifo s)(response_count s := val), response_count := response_count s + 1\<rparr>
      else s)"

definition set_irq :: "cd_env \<Rightarrow> u8 \<Rightarrow> cd_st \<Rightarrow> cd_st" where
  "set_irq e type s =
     (let s1 = s\<lparr>irq_flag := type, irq_generation := irq_generation s + 1, intc_request_latched := False,
                 irq_present_delay := CDROM_IRQ_PRESENT_DELAY\<rparr>;
          s2 = trace_cdrom e CHR ''I'' 0 (ucast type) 0 s1
      in s2\<lparr>cd_port := event_ring_record_aux EV_DEQ SRC_CD_IRQ (ucast type) (cd_port s2)\<rparr>)"

definition present_cdrom_irq :: "cd_env \<Rightarrow> cd_st \<Rightarrow> cd_st" where
  "present_cdrom_irq e s =
     (if irq_present_delay s > 0 then s
      else if irq_flag s \<noteq> 0 \<and> has (irq_enable s) (irq_flag s) \<and> \<not> intc_request_latched s then
        let p = event_ring_record_aux 3 2 0 (psx_irq_raise 2 (ucast (irq_flag s)) (cd_port s));
            s1 = s\<lparr>cd_port := p, intc_request_latched := True, intc_latched_generation := irq_generation s\<rparr>
        in trace_cdrom e CHR ''F'' 0 (ucast (irq_flag s)) 0 s1
      else s)"

definition fire_cdrom_irq :: "cd_env \<Rightarrow> cd_st \<Rightarrow> cd_st" where
  "fire_cdrom_irq e s =
     present_cdrom_irq e (if irq_flag s \<noteq> 0 \<and> \<not> has (irq_enable s) (irq_flag s)
                          then trace_cdrom e CHR ''f'' 0 (ucast (irq_flag s)) 0 s else s)"

definition refresh_cdrom_irq_line :: "cd_env \<Rightarrow> cd_st \<Rightarrow> cd_st" where
  "refresh_cdrom_irq_line e s = present_cdrom_irq e s"

section \<open>Positions\<close>

definition bcd_to_bin :: "u8 \<Rightarrow> int" where
  "bcd_to_bin bcd = uint (drop_bit 4 bcd) * 10 + uint (bcd AND 0x0F)"

definition msf_to_lba :: "int \<Rightarrow> int \<Rightarrow> int \<Rightarrow> int" where
  "msf_to_lba m sc f = (m * 60 + sc) * 75 + f - 150"

definition bin_to_bcd :: "int \<Rightarrow> u8" where
  "bin_to_bcd val = word_of_int (push_bit 4 (val sdiv 10) OR val smod 10)"

definition lba_to_msf :: "int \<Rightarrow> int \<Rightarrow> int \<times> int \<times> int" where
  "lba_to_msf lba pregap =
     (let frames = (if lba + pregap < 0 then 0 else lba + pregap);
          rest = frames mod (60 * 75)
      in (frames div (60 * 75), rest div 75, rest mod 75))"

definition advance_msf :: "int \<times> int \<times> int \<Rightarrow> int \<times> int \<times> int" where
  "advance_msf p =
     (let (m, sc, f) = p;
          (sc1, f1) = (if f + 1 \<ge> 75 then (sc + 1, 0) else (sc, f + 1))
      in if sc1 \<ge> 60 then (m + 1, 0, f1) else (m, sc1, f1))"

section \<open>XA audio\<close>

definition clamp16_cd :: "int \<Rightarrow> int" where
  "clamp16_cd v = (if v > 32767 then 32767 else if v < -32768 then -32768 else v)"

definition xa_reset_decode :: "cd_st \<Rightarrow> cd_st" where
  "xa_reset_decode s =
     s\<lparr>cd_xs := \<lparr>xa_hist_l = (0, 0), xa_hist_r = (0, 0), xa_stream_file = 0xFF, xa_stream_channel = 0xFF,
                 xa_stream_coding = 0xFF, xa_stream_active = False\<rparr>\<rparr>"

text \<open>The matrix is indexed by decoder side, then by output port; a frame is a pair.\<close>

definition apply_volume :: "(nat \<Rightarrow> nat \<Rightarrow> u8) \<Rightarrow> int \<times> int \<Rightarrow> int \<times> int" where
  "apply_volume vol fr =
     (let (l, r) = fr
      in (clamp16_cd (drop_bit 7 (l * uint (vol 0 0)) + drop_bit 7 (r * uint (vol 1 0))),
          clamp16_cd (drop_bit 7 (l * uint (vol 0 1)) + drop_bit 7 (r * uint (vol 1 1)))))"

definition cd_apply_decode_volume :: "(nat \<Rightarrow> nat \<Rightarrow> u8) \<Rightarrow> (int \<times> int) list \<Rightarrow> (int \<times> int) list" where
  "cd_apply_decode_volume vol stereo =
     (if vol 0 0 = 0x80 \<and> vol 1 1 = 0x80 \<and> vol 0 1 = 0 \<and> vol 1 0 = 0 then stereo
      else map (apply_volume vol) stereo)"

definition xa_k0 :: "nat \<Rightarrow> int" where "xa_k0 i = [0, 60, 115, 98, 122] ! i"
definition xa_k1 :: "nat \<Rightarrow> int" where "xa_k1 i = [0, 0, -52, -55, -60] ! i"

definition xa_predict :: "u8 \<Rightarrow> u8 \<Rightarrow> int \<times> int \<Rightarrow> int" where
  "xa_predict hdr nib hist =
     (let shift = nat (max 0 (12 - uint (hdr AND 0x0F)));
          filter = unat (drop_bit 4 hdr AND 0x03);
          n = (if uint nib \<ge> 8 then uint nib - 16 else uint nib)
      in clamp16_cd (n * 2 ^ shift + drop_bit 6 (xa_k0 filter * fst hist + xa_k1 filter * snd hist + 32)))"

definition xa_stereo_sample :: "(nat \<Rightarrow> u8) \<Rightarrow> nat \<Rightarrow> nat \<Rightarrow> nat \<Rightarrow> (int \<times> int) list \<times> cd_xa \<Rightarrow> (int \<times> int) list \<times> cd_xa" where
  "xa_stereo_sample data g blk i ox =
     (let (out, x) = ox;
          grp = (\<lambda>j. data (g * 128 + j));
          b = grp (16 + blk + i * 4);
          l = xa_predict (grp (4 + blk * 2)) (b AND 0x0F) (xa_hist_l x);
          r = xa_predict (grp (4 + blk * 2 + 1)) (drop_bit 4 b AND 0x0F) (xa_hist_r x)
      in (out @ [(l, r)], x\<lparr>xa_hist_l := (l, fst (xa_hist_l x)), xa_hist_r := (r, fst (xa_hist_r x))\<rparr>))"

definition xa_decode_sector_4bit_stereo :: "(nat \<Rightarrow> u8) \<Rightarrow> cd_xa \<Rightarrow> (int \<times> int) list \<times> cd_xa" where
  "xa_decode_sector_4bit_stereo data x =
     fold (\<lambda>g. fold (\<lambda>blk. fold (xa_stereo_sample data g blk) [0..<28]) [0..<4]) [0..<18] ([], x)"

definition xa_mono_sample :: "(nat \<Rightarrow> u8) \<Rightarrow> nat \<Rightarrow> nat \<Rightarrow> nat \<Rightarrow> nat \<Rightarrow> (int \<times> int) list \<times> cd_xa \<Rightarrow> (int \<times> int) list \<times> cd_xa" where
  "xa_mono_sample data g blk nibble i ox =
     (let (out, x) = ox;
          grp = (\<lambda>j. data (g * 128 + j));
          b = grp (16 + blk + i * 4);
          v = xa_predict (grp (4 + blk * 2 + nibble)) (if nibble \<noteq> 0 then drop_bit 4 b AND 0x0F else b AND 0x0F) (xa_hist_l x)
      in (out @ [(v, v)], x\<lparr>xa_hist_l := (v, fst (xa_hist_l x))\<rparr>))"

definition xa_decode_sector_4bit_mono :: "(nat \<Rightarrow> u8) \<Rightarrow> cd_xa \<Rightarrow> (int \<times> int) list \<times> cd_xa" where
  "xa_decode_sector_4bit_mono data x =
     (let (out, x1) = fold (\<lambda>g. fold (\<lambda>blk. fold (\<lambda>nibble. fold (xa_mono_sample data g blk nibble) [0..<28]) [0..<2]) [0..<4])
                        [0..<18] ([], x)
      in (out, x1\<lparr>xa_hist_r := xa_hist_l x1\<rparr>))"

text \<open>
  Linear interpolation at \<open>phase / 44100\<close>. The product is a signed 32-bit one in C; \<open>s32\<close> is the
  wrap-around of a product that does not fit, \<open>s16\<close> the final cast.
\<close>

definition xa_interpolate :: "int \<Rightarrow> int \<Rightarrow> int \<Rightarrow> int" where
  "xa_interpolate cur nxt phase = s16 (cur + s32 ((nxt - cur) * phase) sdiv 44100)"

function xa_carry :: "int \<Rightarrow> nat \<Rightarrow> int \<times> nat" where
  "xa_carry phase in_pos = (if phase \<ge> 44100 then xa_carry (phase - 44100) (in_pos + 1) else (phase, in_pos))"
  by pat_completeness auto
termination
  by (relation "measure (\<lambda>(phase, in_pos). nat phase)") auto

declare xa_carry.simps [simp del]

function xa_resample_loop :: "(int \<times> int) list \<Rightarrow> int \<Rightarrow> nat \<Rightarrow> nat \<Rightarrow> int \<Rightarrow> (int \<times> int) list \<Rightarrow> (int \<times> int) list" where
  "xa_resample_loop xs rate max_frames in_pos phase out =
     (if in_pos < length xs \<and> length out < max_frames then
        let nxt = xs ! (if in_pos + 1 < length xs then in_pos + 1 else in_pos);
            cur = xs ! in_pos;
            fr = (xa_interpolate (fst cur) (fst nxt) phase, xa_interpolate (snd cur) (snd nxt) phase);
            (phase1, in_pos1) = xa_carry (phase + rate) in_pos
        in xa_resample_loop xs rate max_frames in_pos1 phase1 (out @ [fr])
      else out)"
  by pat_completeness auto
termination
  by (relation "measure (\<lambda>(xs, rate, mx, in_pos, phase, out). mx - length out)") auto

declare xa_resample_loop.simps [simp del]

definition xa_resample_to_44100 :: "(int \<times> int) list \<Rightarrow> int \<Rightarrow> nat \<Rightarrow> (int \<times> int) list" where
  "xa_resample_to_44100 xs rate max_frames =
     (if xs = [] \<or> rate \<le> 0 \<or> max_frames = 0 then [] else xa_resample_loop xs rate max_frames 0 0 [])"

definition xa_zero_note :: "int \<Rightarrow> u32 \<Rightarrow> nat \<Rightarrow> nat \<Rightarrow> spu_st \<Rightarrow> spu_st" where
  "xa_zero_note lba stage run start sp =
     (if run \<ge> 64 then
        audio_trace (Audio_Xa_Zero (word_of_int lba)
          (push_bit 28 stage OR push_bit 14 (of_nat start AND 0x3FFF) OR (if run > 0x3FFF then 0x3FFF else of_nat run))) sp
      else sp)"

fun xa_zero_scan_from :: "int \<Rightarrow> u32 \<Rightarrow> nat \<Rightarrow> nat \<Rightarrow> nat \<Rightarrow> (int \<times> int) list \<Rightarrow> spu_st \<Rightarrow> spu_st" where
  "xa_zero_scan_from lba stage i run start [] sp = xa_zero_note lba stage run start sp"
| "xa_zero_scan_from lba stage i run start (fr # frs) sp =
     (if fr = (0, 0) then xa_zero_scan_from lba stage (i + 1) (run + 1) (if run = 0 then i else start) frs sp
      else xa_zero_scan_from lba stage (i + 1) 0 start frs (xa_zero_note lba stage run start sp))"

definition xa_zero_scan :: "(int \<times> int) list \<Rightarrow> int \<Rightarrow> u32 \<Rightarrow> spu_st \<Rightarrow> spu_st" where
  "xa_zero_scan stereo lba stage sp = xa_zero_scan_from lba stage 0 0 0 stereo sp"

definition xa_is_audio_realtime :: "cd_delivery \<Rightarrow> bool" where
  "xa_is_audio_realtime d \<longleftrightarrow> sd_raw_mode d = CDROM_SECTOR_MODE2 \<and> sd_xa_submode d AND 0x44 = 0x44"

definition classify_raw_sector :: "(nat \<Rightarrow> u8) option \<Rightarrow> cd_delivery" where
  "classify_raw_sector raw =
     (let zero = \<lparr>sd_raw_mode = 0, sd_xa_file = 0, sd_xa_channel = 0, sd_xa_submode = 0, sd_xa_coding = 0,
                  sd_data_delivered = False, sd_xa_audio_delivered = False, sd_skip_reason = 0\<rparr>
      in case raw of
           None \<Rightarrow> zero
         | Some r \<Rightarrow>
             if r 15 = CDROM_SECTOR_MODE2
             then zero\<lparr>sd_raw_mode := r 15, sd_xa_file := r 16, sd_xa_channel := r 17, sd_xa_submode := r 18,
                       sd_xa_coding := r 19\<rparr>
             else zero\<lparr>sd_raw_mode := r 15\<rparr>)"

definition xa_sample_rate :: "u8 \<Rightarrow> int" where
  "xa_sample_rate coding =
     (let rate_code = drop_bit 2 coding AND 0x03
      in if rate_code = 0 then 37800 else if rate_code = 1 then 18900 else 0)"

definition xa_select_stream :: "cd_delivery \<Rightarrow> cd_st \<Rightarrow> cd_st" where
  "xa_select_stream d s =
     (if \<not> xa_stream_active (cd_xs s) \<or> xa_stream_file (cd_xs s) \<noteq> sd_xa_file d \<or>
         xa_stream_channel (cd_xs s) \<noteq> sd_xa_channel d \<or> xa_stream_coding (cd_xs s) \<noteq> sd_xa_coding d
      then on_xa (\<lambda>x. x\<lparr>xa_stream_file := sd_xa_file d, xa_stream_channel := sd_xa_channel d,
                        xa_stream_coding := sd_xa_coding d, xa_stream_active := True\<rparr>) (xa_reset_decode s)
      else s)"

definition xa_play_sector :: "cd_env \<Rightarrow> (nat \<Rightarrow> u8) \<Rightarrow> int \<Rightarrow> cd_delivery \<Rightarrow> cd_st \<Rightarrow> cd_st" where
  "xa_play_sector e raw lba d s =
     (let (native, x) = (if has (sd_xa_coding d) 0x01 then xa_decode_sector_4bit_stereo (\<lambda>i. raw (24 + i)) (cd_xs s)
                         else xa_decode_sector_4bit_mono (\<lambda>i. raw (24 + i)) (cd_xs s));
          s1 = s\<lparr>cd_xs := x, cd_spu := xa_zero_scan native lba 0 (cd_spu s)\<rparr>;
          pcm = cd_apply_decode_volume (cd_decode_vol s1) (xa_resample_to_44100 native (xa_sample_rate (sd_xa_coding d)) 9408);
          s2 = s1\<lparr>cd_spu := spu_cd_audio_push pcm (xa_zero_scan pcm lba 1 (cd_spu s1))\<rparr>
      in trace_cdrom e CHR ''A'' 0
           (push_bit 24 (ucast (sd_xa_file d)) OR push_bit 16 (ucast (sd_xa_channel d)) OR
            push_bit 8 (ucast (sd_xa_coding d)) OR (of_nat (length pcm div 32) AND 0xFF)) 0 s2)"

definition xa_ident :: "cd_delivery \<Rightarrow> u32" where
  "xa_ident d = push_bit 16 (ucast (sd_xa_file d)) OR push_bit 8 (ucast (sd_xa_channel d)) OR ucast (sd_xa_coding d)"

definition maybe_deliver_xa_audio :: "cd_env \<Rightarrow> (nat \<Rightarrow> u8) option \<Rightarrow> int \<Rightarrow> cd_delivery \<Rightarrow> cd_st \<Rightarrow> bool \<times> cd_st" where
  "maybe_deliver_xa_audio e raw lba d s =
     (case raw of
        None \<Rightarrow> (False, s)
      | Some r \<Rightarrow>
          if \<not> has (mode_reg s) 0x40 \<or> cd_muted s then (False, s)
          else if \<not> xa_is_audio_realtime d then (False, s)
          else if has (mode_reg s) 0x08 \<and> (sd_xa_file d \<noteq> filter_file s \<or> sd_xa_channel d \<noteq> filter_channel s)
          then (False, trace_cdrom e CHR ''a'' 0 (xa_ident d) 0 s)
          else if drop_bit 4 (sd_xa_coding d) AND 0x03 \<noteq> 0 \<or> xa_sample_rate (sd_xa_coding d) = 0
          then (False, trace_cdrom e CHR ''X'' 0 (xa_ident d) 0 s)
          else (True, xa_play_sector e r lba d (xa_select_stream d s)))"

section \<open>Sectors\<close>

text \<open>\<open>memcpy\<close> of \<open>n\<close> bytes over an array, and into a zeroed one.\<close>

definition copy_over :: "(nat \<Rightarrow> u8) \<Rightarrow> nat \<Rightarrow> (nat \<Rightarrow> u8) \<Rightarrow> nat \<Rightarrow> u8" where
  "copy_over dst n src = (\<lambda>i. if i < n then src i else dst i)"

abbreviation "fill_zero \<equiv> copy_over (\<lambda>_. 0)"

definition cd_user_data :: "cd_env \<Rightarrow> int \<Rightarrow> cd_st \<Rightarrow> (nat \<Rightarrow> u8) option \<times> (nat \<Rightarrow> u8)" where
  "cd_user_data e lba s =
     (if iso_mounted s then
        (case ce_raw e (word_of_int lba) of
           Some r \<Rightarrow> (Some r, \<lambda>i. r (RAW_USER_DATA_OFFSET + i))
         | None \<Rightarrow> (None, case ce_user e (word_of_int lba) of Some u \<Rightarrow> u | None \<Rightarrow> (\<lambda>_. 0)))
      else (None, \<lambda>_. 0))"

text \<open>What goes into the sector buffer: the size and the bytes.\<close>

definition sector_payload :: "cd_st \<Rightarrow> int \<times> int \<times> int \<Rightarrow> (nat \<Rightarrow> u8) option \<Rightarrow> (nat \<Rightarrow> u8) \<Rightarrow> nat \<times> (nat \<Rightarrow> u8)" where
  "sector_payload s msf raw user =
     (if has (mode_reg s) 0x20 then
        (case raw of
           Some r \<Rightarrow> (WHOLE_SECTOR_SIZE, fill_zero WHOLE_SECTOR_SIZE (\<lambda>i. r (WHOLE_SECTOR_OFFSET + i)))
         | None \<Rightarrow> (FALLBACK_WHOLE_SECTOR_SIZE,
             \<lambda>i. if i = 0 then bin_to_bcd (fst msf) else if i = 1 then bin_to_bcd (fst (snd msf))
                 else if i = 2 then bin_to_bcd (snd (snd msf)) else if i = 3 then 0x02
                 else if FALLBACK_SECTOR_HEADER_SIZE \<le> i \<and> i < FALLBACK_WHOLE_SECTOR_SIZE
                 then user (i - FALLBACK_SECTOR_HEADER_SIZE) else 0))
      else (SECTOR_SIZE, fill_zero SECTOR_SIZE user))"

definition read_sector_at :: "cd_env \<Rightarrow> int \<times> int \<times> int \<Rightarrow> cd_st \<Rightarrow> bool \<times> cd_st" where
  "read_sector_at e msf s =
     (let lba = (case msf of (m, sc, f) \<Rightarrow> msf_to_lba m sc f);
          (raw, user) = cd_user_data e lba s;
          d0 = classify_raw_sector raw;
          (xa, s1) = maybe_deliver_xa_audio e raw lba d0 s;
          skip = (xa \<or> has (mode_reg s1) 0x08 \<and> xa_is_audio_realtime d0);
          d = d0\<lparr>sd_xa_audio_delivered := xa, sd_data_delivered := \<not> skip,
                 sd_skip_reason := (if skip then 1 else 0)\<rparr>;
          (size', bytes) = (if skip then (0, \<lambda>_. 0) else sector_payload s1 msf raw user);
          s2 = s1\<lparr>sector_buffer := bytes, sector_size := size', sector_read_pos := 0, sector_available := \<not> skip\<rparr>;
          s3 = (if skip then s2 else burst_note_sector e s2);
          hist_size = (if skip then SECTOR_SIZE else size');
          hist_bytes = (if skip then user else bytes);
          s4 = s3\<lparr>cd_ls := \<lparr>ls_buffer = (if skip then fill_zero SECTOR_SIZE user
                                        else copy_over (ls_buffer (cd_ls s3)) size' bytes),
                           ls_lba = lba, ls_size = hist_size, ls_frame = ucast (ce_frame e), ls_mode = mode_reg s3,
                           ls_have_raw = (raw \<noteq> None), ls_raw_mode = sd_raw_mode d, ls_xa_file = sd_xa_file d,
                           ls_xa_channel = sd_xa_channel d, ls_xa_submode = sd_xa_submode d,
                           ls_xa_coding = sd_xa_coding d\<rparr>\<rparr>;
          s5 = record_sector_history e lba hist_size (mode_reg s4) (raw \<noteq> None) hist_bytes d s4;
          s6 = trace_cdrom e CHR ''S'' 0 (word_of_int lba) 0 s5;
          s7 = (if skip then trace_cdrom e CHR ''s'' 0
                  (push_bit 24 (ucast (sd_xa_file d)) OR push_bit 16 (ucast (sd_xa_channel d)) OR
                   push_bit 8 (ucast (sd_xa_submode d)) OR ucast (sd_xa_coding d)) 0 s6 else s6)
      in (\<not> skip, s7))"

definition clear_sector_buffer :: "cd_st \<Rightarrow> cd_st" where
  "clear_sector_buffer s =
     s\<lparr>sector_read_pos := 0, sector_size := 0, sector_available := False,
       request_reg := clear_bits (request_reg s) CDROM_REQUEST_BFRD\<rparr>"

definition data_fifo_ready :: "cd_st \<Rightarrow> bool" where
  "data_fifo_ready s \<longleftrightarrow>
     has (request_reg s) CDROM_REQUEST_BFRD \<and> sector_available s \<and> sector_read_pos s < sector_size s"

section \<open>The read stream and the CD-DA player\<close>

definition cdrom_clear_pending_dataready :: "cd_st \<Rightarrow> cd_st" where
  "cdrom_clear_pending_dataready s = s\<lparr>pending_dataready := False, pending_dataready_stat := 0\<rparr>"

definition stop_read_stream :: "cd_st \<Rightarrow> cd_st" where
  "stop_read_stream s = cdrom_clear_pending_dataready (s\<lparr>cd_reading := False, read_cmd := 0, read_delay := 0\<rparr>)"

definition stop_cdda_playback :: "cd_st \<Rightarrow> cd_st" where
  "stop_cdda_playback s =
     (on_da (\<lambda>d. d\<lparr>cdda_playing := False, cdda_track := 0, cdda_delay := 0, cdda_data_end_pending := False\<rparr>) s)
       \<lparr>stat_reg := clear_bits (stat_reg s) CDSTAT_PLAY\<rparr>"

definition start_read_stream :: "cd_env \<Rightarrow> u8 \<Rightarrow> cd_st \<Rightarrow> cd_st" where
  "start_read_stream e cmd s =
     (let s1 = cdrom_clear_pending_dataready (clear_sector_buffer (stop_cdda_playback s));
          s2 = (if has (mode_reg s1) 0x40 then on_spu spu_cd_audio_reset (xa_reset_decode s1) else s1);
          s3 = s2\<lparr>read_min := uint (seek_min s2), read_sec := uint (seek_sec s2), read_sect := uint (seek_sect s2),
                 read_cmd := cmd, read_delay := initial_read_delay_cycles s2, cd_reading := True,
                 stat_reg := stat_reg s2 OR CDSTAT_READ\<rparr>
      in s3\<lparr>cd_port := event_ring_record_aux EV_ENQ SRC_CD_READ (word_of_int (read_delay s3)) (cd_port s3)\<rparr>)"

definition deliver_cdda_data_end :: "cd_env \<Rightarrow> cd_st \<Rightarrow> cd_st" where
  "deliver_cdda_data_end e s =
     (if \<not> cdda_data_end_pending (cd_dp s) \<or> irq_flag s \<noteq> 0 then s
      else
        let s1 = response_clear (on_da (\<lambda>d. d\<lparr>cdda_data_end_pending := False\<rparr>) s)
        in fire_cdrom_irq e (set_irq e CDIRQ_DATA_END (response_push (stat_reg s1) s1)))"

fun cdda_scan :: "cd_env \<Rightarrow> u32 \<Rightarrow> int \<Rightarrow> int list \<Rightarrow> int" where
  "cdda_scan e lba found [] = found"
| "cdda_scan e lba found (track # tracks) =
     (if ce_track_pregap e track > lba then found else cdda_scan e lba track tracks)"

definition cdda_track_for_lba :: "cd_env \<Rightarrow> u32 \<Rightarrow> cd_st \<Rightarrow> int" where
  "cdda_track_for_lba e lba s = cdda_scan e lba 0 [1..if iso_mounted s then ce_tracks e else 0]"

definition cdda_track_end_lba :: "cd_env \<Rightarrow> int \<Rightarrow> cd_st \<Rightarrow> u32" where
  "cdda_track_end_lba e track s =
     (if track > 0 \<and> track < (if iso_mounted s then ce_tracks e else 0) then ce_track_pregap e (track + 1)
      else if iso_mounted s then ce_sectors e else 0)"

definition start_cdda_playback :: "cd_env \<Rightarrow> int \<Rightarrow> cd_st \<Rightarrow> bool \<times> cd_st" where
  "start_cdda_playback e requested_track s =
     (let pos = (if setloc_lba s \<ge> 0 then setloc_lba s
                 else msf_to_lba (uint (seek_min s)) (uint (seek_sec s)) (uint (seek_sect s)));
          at = (word_of_int (if pos < 0 then 0 else pos) :: u32);
          (track, lba) = (if requested_track > 0 then (requested_track, ce_track_start e requested_track)
                          else (cdda_track_for_lba e at s, at))
      in if track \<le> 0 \<or> track > ce_tracks e \<or> \<not> ce_is_audio e track then (False, s)
         else
           let s1 = on_spu spu_cd_audio_reset (stop_read_stream s)
           in (True, (on_da (\<lambda>d. d\<lparr>cdda_data_end_pending := False, cdda_playing := True, cdda_track := track,
                                   cdda_lba := lba, cdda_delay := CDROM_SINGLE_SPEED_SECTOR_CYCLES\<rparr>) s1)
                      \<lparr>stat_reg := clear_bits (stat_reg s1) (CDSTAT_SEEK OR CDSTAT_READ) OR CDSTAT_MOTOR OR CDSTAT_PLAY\<rparr>))"

definition cdda_pcm :: "(nat \<Rightarrow> u8) \<Rightarrow> (int \<times> int) list" where
  "cdda_pcm raw =
     (let smp = (\<lambda>i. sint (ucast (raw (i * 2 + 0)) OR push_bit 8 (ucast (raw (i * 2 + 1))) :: u16))
      in map (\<lambda>j. (smp (j * 2), smp (j * 2 + 1))) [0..<CDDA_SECTOR_FRAMES])"

definition cdda_sector :: "cd_env \<Rightarrow> cd_st \<Rightarrow> cd_st" where
  "cdda_sector e s =
     (let silence = replicate CDDA_SECTOR_FRAMES (0, 0);
          pcm0 = (case ce_raw e (cdda_lba (cd_dp s)) of None \<Rightarrow> silence | Some raw \<Rightarrow> cdda_pcm raw);
          pcm = cd_apply_decode_volume (cd_decode_vol s) (if cd_muted s then silence else pcm0);
          s1 = on_da (\<lambda>d. d\<lparr>cdda_sectors_played := cdda_sectors_played d + 1\<rparr>) (on_spu (spu_cd_audio_push pcm) s);
          s2 = trace_cdrom e CHR ''a'' 0 (cdda_lba (cd_dp s1)) (word_of_int (cdda_track (cd_dp s1))) s1;
          s3 = on_da (\<lambda>d. d\<lparr>cdda_lba := cdda_lba d + 1, cdda_delay := cdda_delay d + CDROM_SINGLE_SPEED_SECTOR_CYCLES\<rparr>) s2;
          track_end = cdda_track_end_lba e (cdda_track (cd_dp s3)) s3;
          nxt = cdda_track (cd_dp s3) + 1
      in if track_end = 0 \<or> cdda_lba (cd_dp s3) \<ge> track_end then
           if has (mode_reg s3) 0x02 \<or> nxt > ce_tracks e \<or> \<not> ce_is_audio e nxt
           then deliver_cdda_data_end e (on_da (\<lambda>d. d\<lparr>cdda_data_end_pending := True\<rparr>) (stop_cdda_playback s3))
           else on_da (\<lambda>d. d\<lparr>cdda_track := nxt\<rparr>) s3
         else s3)"

text \<open>The loop delivers at most 16 sectors; the first argument counts those left.\<close>

fun cdda_sectors :: "nat \<Rightarrow> cd_env \<Rightarrow> cd_st \<Rightarrow> cd_st" where
  "cdda_sectors 0 e s = s"
| "cdda_sectors (Suc n) e s =
     (if cdda_playing (cd_dp s) \<and> cdda_delay (cd_dp s) \<le> 0 then cdda_sectors n e (cdda_sector e s) else s)"

definition process_cdda_stream :: "cd_env \<Rightarrow> u32 \<Rightarrow> cd_st \<Rightarrow> cd_st" where
  "process_cdda_stream e cycles s =
     (if \<not> cdda_playing (cd_dp s) then deliver_cdda_data_end e s
      else
        let s1 = cdda_sectors 16 e (on_da (\<lambda>d. d\<lparr>cdda_delay := cdda_delay d - sint cycles\<rparr>) s);
            s2 = (if cdda_playing (cd_dp s1) \<and> cdda_delay (cd_dp s1) \<le> 0
                  then on_da (\<lambda>d. d\<lparr>cdda_delay := CDROM_SINGLE_SPEED_SECTOR_CYCLES\<rparr>) s1 else s1)
        in deliver_cdda_data_end e s2)"

definition advance_read_position :: "cd_st \<Rightarrow> cd_st" where
  "advance_read_position s =
     (let (m, sc, f) = advance_msf (read_min s, read_sec s, read_sect s)
      in s\<lparr>read_min := m, read_sec := sc, read_sect := f\<rparr>)"

definition deliver_read_sector_without_irq :: "cd_env \<Rightarrow> cd_st \<Rightarrow> bool \<times> cd_st" where
  "deliver_read_sector_without_irq e s =
     (let (delivered, s1) = read_sector_at e (read_min s, read_sec s, read_sect s) s
      in (delivered, advance_read_position s1))"

definition deliver_read_sector :: "cd_env \<Rightarrow> cd_st \<Rightarrow> cd_st" where
  "deliver_read_sector e s =
     (let (delivered, s1) = read_sector_at e (read_min s, read_sec s, read_sect s) s;
          s2 = advance_read_position s1
      in if \<not> delivered then s2
         else
           let s3 = response_clear s2;
               s4 = fire_cdrom_irq e (set_irq e CDIRQ_DATA_READY (response_push (stat_reg s3) s3))
           in s4\<lparr>dataready_fires := dataready_fires s4 + 1\<rparr>)"

definition present_pending_dataready :: "cd_env \<Rightarrow> cd_st \<Rightarrow> cd_st" where
  "present_pending_dataready e s =
     (if \<not> pending_dataready s \<or> irq_flag s \<noteq> 0 then s
      else
        let s1 = response_clear (s\<lparr>pending_dataready := False\<rparr>);
            s2 = fire_cdrom_irq e (set_irq e CDIRQ_DATA_READY (response_push (pending_dataready_stat s1) s1))
        in s2\<lparr>dataready_fires := dataready_fires s2 + 1\<rparr>)"

text \<open>A sector that comes due while the guest has not acknowledged the previous interrupt.\<close>

definition pend_dataready :: "cd_env \<Rightarrow> cd_st \<Rightarrow> cd_st" where
  "pend_dataready e s =
     (let s1 = (if pending_dataready s
                then trace_cdrom e CHR ''P'' 0 (word_of_int (ls_lba (cd_ls s))) 0 (s\<lparr>int1_lost := int1_lost s + 1\<rparr>) else s)
      in s1\<lparr>pending_dataready := True, pending_dataready_stat := stat_reg s1, int1_pended := int1_pended s1 + 1\<rparr>)"

definition read_sector_due :: "cd_env \<Rightarrow> cd_st \<Rightarrow> cd_st" where
  "read_sector_due e s =
     (if irq_flag s = 0 then
        deliver_read_sector e (if sector_available s then trace_cdrom e CHR ''O'' 0 (of_nat (sector_read_pos s)) 0 s else s)
      else
        let (delivered, s1) = deliver_read_sector_without_irq e s
        in if ce_dma_active e then s1 else if delivered then pend_dataready e s1 else s1)"

definition process_read_stream :: "cd_env \<Rightarrow> u32 \<Rightarrow> cd_st \<Rightarrow> cd_st" where
  "process_read_stream e cycles s =
     (if \<not> cd_reading s then s
      else
        let s1 = s\<lparr>read_delay := read_delay s - sint cycles\<rparr>
        in if read_delay s1 > 0 then s1
           else
             let s2 = read_sector_due e s1;
                 s3 = s2\<lparr>read_delay := read_delay s2 + sector_delay_cycles s2\<rparr>
             in if read_delay s3 \<le> 0 then s3\<lparr>read_delay := sector_delay_cycles s3\<rparr> else s3)"

section \<open>Commands\<close>

definition respond :: "cd_env \<Rightarrow> u8 list \<Rightarrow> u8 \<Rightarrow> cd_st \<Rightarrow> cd_st" where
  "respond e bytes type s = set_irq e type (fold response_push bytes s)"

text \<open>Most commands end with the status byte and INT3.\<close>

definition ack :: "cd_env \<Rightarrow> cd_st \<Rightarrow> cd_st" where
  "ack e s = respond e [stat_reg s] CDIRQ_ACK s"

definition pend_second :: "u8 \<Rightarrow> int \<Rightarrow> cd_st \<Rightarrow> cd_st" where
  "pend_second cmd delay s = s\<lparr>cd_pc := \<lparr>pc_cmd = cmd, pc_pending = True, pc_delay = delay, pc_phase = 1\<rparr>\<rparr>"

definition pause_complete_delay_cycles :: "cd_st \<Rightarrow> int" where
  "pause_complete_delay_cycles s =
     (if \<not> cd_reading s \<and> \<not> has (stat_reg s) (CDSTAT_READ OR CDSTAT_PLAY) then 5000
      else
        let lba0 = (if cd_reading s then msf_to_lba (read_min s) (read_sec s) (read_sect s) else ls_lba (cd_ls s));
            lba = (if lba0 < 0 then 0 else lba0);
            cycles = 1124584 + (lba * 42596) sdiv (75 * 60)
        in s32 (if has (mode_reg s) 0x80 then cycles else cycles * 2))"

definition cmd_get_stat :: "cd_env \<Rightarrow> cd_st \<Rightarrow> cd_st" where
  "cmd_get_stat e s = ack e (s\<lparr>stat_reg := stat_reg s OR (if has_disc s then CDSTAT_MOTOR else CDSTAT_SHELL)\<rparr>)"

definition cmd_set_loc :: "cd_env \<Rightarrow> cd_st \<Rightarrow> cd_st" where
  "cmd_set_loc e s =
     ack e
       (if param_count s \<ge> 3 then
          let current_lba = (if ls_lba (cd_ls s) \<ge> 0 then ls_lba (cd_ls s)
                             else msf_to_lba (uint (seek_min s)) (uint (seek_sec s)) (uint (seek_sect s)));
              s1 = s\<lparr>seek_min := word_of_int (bcd_to_bin (param_fifo s 0)), seek_sec := word_of_int (bcd_to_bin (param_fifo s 1)),
                     seek_sect := word_of_int (bcd_to_bin (param_fifo s 2))\<rparr>;
              target = msf_to_lba (uint (seek_min s1)) (uint (seek_sec s1)) (uint (seek_sect s1))
          in s1\<lparr>setloc_lba := target, setloc_seek_far := \<bar>current_lba - target\<bar> > 16\<rparr>
        else s)"

definition cmd_read :: "cd_env \<Rightarrow> u8 \<Rightarrow> cd_st \<Rightarrow> cd_st" where
  "cmd_read e cmd s =
     (if \<not> has_disc s then respond e [stat_reg s OR CDSTAT_ERROR] CDIRQ_ERROR s
      else ack e (start_read_stream e cmd s))"

definition cmd_motor_on :: "cd_env \<Rightarrow> cd_st \<Rightarrow> cd_st" where
  "cmd_motor_on e s =
     (if has (stat_reg s) CDSTAT_MOTOR then respond e [stat_reg s OR CDSTAT_ERROR, 0x20] CDIRQ_ERROR s
      else let s1 = ack e s in pend_second 0x07 (apply_speed 30000 s1) s1)"

definition cmd_stop :: "cd_env \<Rightarrow> cd_st \<Rightarrow> cd_st" where
  "cmd_stop e s =
     (let s1 = on_spu spu_cd_audio_reset (xa_reset_decode (stop_cdda_playback (stop_read_stream s)));
          s2 = ack e (s1\<lparr>stat_reg := clear_bits (stat_reg s1) (CDSTAT_READ OR CDSTAT_PLAY OR CDSTAT_SEEK)\<rparr>)
      in pend_second 0x08 (apply_speed 30000 s2) s2)"

definition cmd_pause :: "cd_env \<Rightarrow> cd_st \<Rightarrow> cd_st" where
  "cmd_pause e s =
     (let complete_delay = pause_complete_delay_cycles s;
          s1 = on_spu spu_cd_audio_reset (xa_reset_decode (stop_cdda_playback (stop_read_stream s)))
      in pend_second 0x09 complete_delay
           (ack e (s1\<lparr>stat_reg := clear_bits (stat_reg s1) (CDSTAT_READ OR CDSTAT_PLAY)\<rparr>)))"

definition cmd_init :: "cd_env \<Rightarrow> cd_st \<Rightarrow> cd_st" where
  "cmd_init e s =
     (let s1 = xa_reset_decode (on_spu spu_cd_audio_reset (stop_cdda_playback (stop_read_stream s)))
      in pend_second 0x0A (init_complete_delay s1)
           (ack e (s1\<lparr>stat_reg := (if has_disc s1 then CDSTAT_MOTOR else CDSTAT_SHELL)\<rparr>)))"

definition cmd_mute :: "cd_env \<Rightarrow> bool \<Rightarrow> cd_st \<Rightarrow> cd_st" where
  "cmd_mute e m s = ack e (s\<lparr>cd_muted := m\<rparr>)"

definition cmd_set_filter :: "cd_env \<Rightarrow> cd_st \<Rightarrow> cd_st" where
  "cmd_set_filter e s =
     ack e (if param_count s \<ge> 2
            then xa_reset_decode (s\<lparr>filter_file := param_fifo s 0, filter_channel := param_fifo s 1\<rparr>) else s)"

definition cmd_set_mode :: "cd_env \<Rightarrow> cd_st \<Rightarrow> cd_st" where
  "cmd_set_mode e s =
     ack e (if param_count s \<ge> 1 then
              let s1 = s\<lparr>mode_reg := param_fifo s 0\<rparr>
              in if has (mode_reg s1) 0x40 then s1 else on_spu spu_cd_audio_reset (xa_reset_decode s1)
            else s)"

definition cmd_getparam :: "cd_env \<Rightarrow> cd_st \<Rightarrow> cd_st" where
  "cmd_getparam e s = respond e [stat_reg s, mode_reg s, 0, filter_file s, filter_channel s] CDIRQ_ACK s"

definition cmd_get_loc_l :: "cd_env \<Rightarrow> cd_st \<Rightarrow> cd_st" where
  "cmd_get_loc_l e s =
     (let l = cd_ls s;
          lba = (if ls_lba l \<ge> 0 then ls_lba l else msf_to_lba (read_min s) (read_sec s) (read_sect s));
          (m, sc, f) = lba_to_msf lba 150
      in respond e [bin_to_bcd m, bin_to_bcd sc, bin_to_bcd f,
                    if ls_raw_mode l \<noteq> 0 then ls_raw_mode l else CDROM_SECTOR_MODE2,
                    ls_xa_file l, ls_xa_channel l, ls_xa_submode l, ls_xa_coding l] CDIRQ_ACK s)"

definition cmd_get_loc_p :: "cd_env \<Rightarrow> cd_st \<Rightarrow> cd_st" where
  "cmd_get_loc_p e s =
     (let (lba, track, track_lba) =
            (if cdda_playing (cd_dp s)
             then (sint (cdda_lba (cd_dp s)), cdda_track (cd_dp s), sint (ce_track_start e (cdda_track (cd_dp s))))
             else if cd_reading s then (msf_to_lba (read_min s) (read_sec s) (read_sect s), 1, 0)
             else if ls_lba (cd_ls s) \<ge> 0 then (ls_lba (cd_ls s), 1, 0)
             else (msf_to_lba (uint (seek_min s)) (uint (seek_sec s)) (uint (seek_sect s)), 1, 0));
          (rm, rs, rf) = lba_to_msf (lba - track_lba) 0;
          (am, as, af) = lba_to_msf lba 150
      in respond e [bin_to_bcd track, 0x01, bin_to_bcd rm, bin_to_bcd rs, bin_to_bcd rf,
                    bin_to_bcd am, bin_to_bcd as, bin_to_bcd af] CDIRQ_ACK s)"

definition cmd_get_tn :: "cd_env \<Rightarrow> cd_st \<Rightarrow> cd_st" where
  "cmd_get_tn e s =
     (let n = (if iso_mounted s then ce_tracks e else 1)
      in respond e [stat_reg s, 0x01, bin_to_bcd (if n < 1 then 1 else n)] CDIRQ_ACK s)"

definition cmd_get_td :: "cd_env \<Rightarrow> cd_st \<Rightarrow> cd_st" where
  "cmd_get_td e s =
     (if \<not> has_disc s then respond e [stat_reg s OR CDSTAT_ERROR, 0x80] CDIRQ_ERROR s
      else
        let raw = (if param_count s \<ge> 1 then param_fifo s 0 else 0);
            track = bcd_to_bin raw;
            lba = (if raw = 0xAA \<or> track = 0 then sint (ce_sectors e) else sint (ce_track_start e track));
            (m, sc, f) = lba_to_msf lba 150
        in respond e [stat_reg s, bin_to_bcd m, bin_to_bcd sc] CDIRQ_ACK s)"

definition apv2_probe_position :: "cd_env \<Rightarrow> int \<Rightarrow> cd_st \<Rightarrow> bool" where
  "apv2_probe_position e requested_track s \<longleftrightarrow>
     requested_track = 0 \<and> setloc_lba s = 109800 \<and> seek_min s = 24 \<and> seek_sec s = 26 \<and> seek_sect s = 0 \<and>
     cd_muted s \<and> iso_mounted s \<and> ce_tracks e = 1 \<and> \<not> ce_is_audio e 1"

definition cmd_play :: "cd_env \<Rightarrow> cd_st \<Rightarrow> cd_st" where
  "cmd_play e s =
     (if \<not> has_disc s then respond e [stat_reg s OR CDSTAT_ERROR] CDIRQ_ERROR s
      else
        let requested = (if param_count s \<ge> 1 \<and> param_fifo s 0 \<noteq> 0 then bcd_to_bin (param_fifo s 0) else 0);
            (started, s1) = start_cdda_playback e requested s
        in if started then ack e s1
           else if ap_stock_mode (cd_ap s1) \<and> apv2_probe_position e requested s1
           then ack e ((on_ap (\<lambda>a. a\<lparr>ap_play_acks := ap_play_acks a + 1\<rparr>) s1)
                  \<lparr>stat_reg := clear_bits (stat_reg s1) (CDSTAT_SEEK OR CDSTAT_READ) OR CDSTAT_MOTOR OR CDSTAT_PLAY\<rparr>)
           else respond e [stat_reg s1 OR CDSTAT_ERROR, 0x10] CDIRQ_ERROR s1)"

definition cmd_seek :: "cd_env \<Rightarrow> u8 \<Rightarrow> cd_st \<Rightarrow> cd_st" where
  "cmd_seek e cmd s =
     (if \<not> has_disc s then respond e [stat_reg s OR (CDSTAT_ERROR OR CDSTAT_SEEKERR)] CDIRQ_ERROR s
      else
        let s1 = stop_cdda_playback (on_spu spu_cd_audio_reset (xa_reset_decode s));
            s2 = ack e (s1\<lparr>stat_reg := stat_reg s1 OR CDSTAT_SEEK\<rparr>)
        in pend_second cmd (seek_complete_delay_cycles s2) s2)"

definition cmd_test :: "cd_env \<Rightarrow> cd_st \<Rightarrow> cd_st" where
  "cmd_test e s =
     (if ap_stock_mode (cd_ap s) \<and> param_count s \<ge> 1 \<and> param_fifo s 0 = 0x04 then
        ack e ((on_ap (\<lambda>a. a\<lparr>ap_probe_active := True, ap_total := 0, ap_success := 0,
                            ap_test04_count := ap_test04_count a + 1\<rparr>) s)\<lparr>stat_reg := stat_reg s OR CDSTAT_MOTOR\<rparr>)
      else if ap_stock_mode (cd_ap s) \<and> param_count s \<ge> 1 \<and> param_fifo s 0 = 0x05 then
        let s1 = on_ap (\<lambda>a. a\<lparr>ap_probe_active := False, ap_test05_count := ap_test05_count a + 1\<rparr>) s
        in respond e [ap_total (cd_ap s1), ap_success (cd_ap s1)] CDIRQ_ACK s1
      else if param_count s \<ge> 1 \<and> param_fifo s 0 = 0x20 then respond e [0x94, 0x09, 0x19, 0xC0] CDIRQ_ACK s
      else ack e s)"

definition run_command :: "cd_env \<Rightarrow> u8 \<Rightarrow> cd_st \<Rightarrow> cd_st" where
  "run_command e cmd s =
     (if cmd = 0x01 then cmd_get_stat e s
      else if cmd = 0x02 then cmd_set_loc e s
      else if cmd = 0x03 then cmd_play e s
      else if cmd = 0x06 \<or> cmd = 0x1B then cmd_read e cmd s
      else if cmd = 0x07 then cmd_motor_on e s
      else if cmd = 0x08 then cmd_stop e s
      else if cmd = 0x09 then cmd_pause e s
      else if cmd = 0x0A then cmd_init e s
      else if cmd = 0x0B then cmd_mute e True s
      else if cmd = 0x0C then cmd_mute e False s
      else if cmd = 0x0D then cmd_set_filter e s
      else if cmd = 0x0E then cmd_set_mode e s
      else if cmd = 0x0F then cmd_getparam e s
      else if cmd = 0x10 then cmd_get_loc_l e s
      else if cmd = 0x11 then cmd_get_loc_p e s
      else if cmd = 0x13 then cmd_get_tn e s
      else if cmd = 0x14 then cmd_get_td e s
      else if cmd = 0x15 \<or> cmd = 0x16 then cmd_seek e cmd s
      else if cmd = 0x19 then cmd_test e s
      else if cmd = 0x1A then pend_second cmd 33868 (ack e s)
      else if cmd = 0x1E then pend_second cmd (readtoc_complete_delay s) (ack e s)
      else respond e [stat_reg s OR CDSTAT_ERROR] CDIRQ_ERROR s)"

definition exec_command :: "cd_env \<Rightarrow> u8 \<Rightarrow> cd_st \<Rightarrow> cd_st" where
  "exec_command e cmd s =
     (let s1 = trace_cdrom e CHR ''C'' 0 (ucast cmd) 0 s;
          s2 = response_clear (s1\<lparr>cd_port := event_ring_record_aux EV_ENQ SRC_CD_CMD (ucast cmd) (cd_port s1)\<rparr>);
          s3 = (run_command e cmd s2)\<lparr>param_count := 0\<rparr>
      in record_command_history e CHR ''C'' cmd (param_fifo s) (param_count s) (fire_cdrom_irq e s3))"

definition try_execute_queued_command :: "cd_env \<Rightarrow> cd_st \<Rightarrow> cd_st" where
  "try_execute_queued_command e s =
     (if \<not> qc_pending (cd_qc s) \<or> irq_flag s \<noteq> 0 then s
      else
        let q = cd_qc s; n = min (qc_param_count q) PARAM_FIFO_SIZE
        in exec_command e (qc_cmd q)
             (s\<lparr>param_fifo := copy_over (param_fifo s) n (qc_params q), param_count := n,
                cd_qc := \<lparr>qc_cmd = 0, qc_params = (\<lambda>_. 0), qc_param_count = 0, qc_pending = False\<rparr>\<rparr>))"

definition queue_or_exec_command :: "cd_env \<Rightarrow> u8 \<Rightarrow> cd_st \<Rightarrow> cd_st" where
  "queue_or_exec_command e cmd s =
     (if irq_flag s = 0 then exec_command e cmd s
      else
        let n = min (param_count s) PARAM_FIFO_SIZE;
            q = \<lparr>qc_cmd = cmd, qc_params = copy_over (qc_params (cd_qc s)) n (param_fifo s), qc_param_count = n,
                 qc_pending = True\<rparr>;
            s1 = trace_cdrom e CHR ''Q'' 0 (ucast cmd) 0 (s\<lparr>cd_qc := q, param_count := 0\<rparr>)
        in record_command_history e CHR ''Q'' cmd (qc_params q) n s1)"

section \<open>The delayed second response\<close>

definition pending_result :: "cd_env \<Rightarrow> cd_st \<Rightarrow> cd_st" where
  "pending_result e s =
     (let cmd = pc_cmd (cd_pc s);
          complete = (\<lambda>s1. fire_cdrom_irq e (respond e [stat_reg s1] CDIRQ_COMPLETE s1))
      in if cmd = 0x06 \<or> cmd = 0x1B then
           if cd_reading s then
             let (delivered, s1) = deliver_read_sector_without_irq e s
             in if delivered then fire_cdrom_irq e (respond e [stat_reg s1] CDIRQ_DATA_READY s1) else s1
           else s
         else if cmd = 0x07 then complete (s\<lparr>stat_reg := stat_reg s OR CDSTAT_MOTOR\<rparr>)
         else if cmd = 0x08
         then complete (s\<lparr>stat_reg := clear_bits (stat_reg s) (CDSTAT_MOTOR OR CDSTAT_READ OR CDSTAT_PLAY OR CDSTAT_SEEK)\<rparr>)
         else if cmd = 0x09 then complete (s\<lparr>stat_reg := clear_bits (stat_reg s) CDSTAT_READ\<rparr>)
         else if cmd = 0x0A then complete s
         else if cmd = 0x15 \<or> cmd = 0x16
         then complete (s\<lparr>stat_reg := clear_bits (stat_reg s) CDSTAT_SEEK, setloc_seek_far := False\<rparr>)
         else if cmd = 0x1A then
           fire_cdrom_irq e
             (if \<not> has_disc s then respond e [stat_reg s OR CDSTAT_IDERROR, 0x80] CDIRQ_ERROR s
              else respond e [stat_reg s, 0, 0x20, 0, disc_scex s 0, disc_scex s 1, disc_scex s 2, disc_scex s 3]
                     CDIRQ_COMPLETE s)
         else if cmd = 0x1E then complete s
         else s)"

definition finish_pending :: "cd_env \<Rightarrow> cd_st \<Rightarrow> cd_st" where
  "finish_pending e s = pending_result e (response_clear (s\<lparr>cd_pc := (cd_pc s)\<lparr>pc_pending := False\<rparr>\<rparr>))"

definition process_pending :: "cd_env \<Rightarrow> u32 \<Rightarrow> cd_st \<Rightarrow> cd_st" where
  "process_pending e cycles s =
     (if \<not> pc_pending (cd_pc s) \<or> cycles = 0 then s
      else if pending_time_continues s then
        let d = pc_delay (cd_pc s);
            d1 = (if d > 0 then if (word_of_int d :: u32) > cycles then d - sint cycles else 0 else d);
            s1 = s\<lparr>cd_pc := (cd_pc s)\<lparr>pc_delay := d1\<rparr>\<rparr>
        in if d1 > 0 \<or> irq_flag s1 \<noteq> 0 then s1 else finish_pending e s1
      else if irq_flag s \<noteq> 0 then s
      else
        let d1 = pc_delay (cd_pc s) - sint cycles;
            s1 = s\<lparr>cd_pc := (cd_pc s)\<lparr>pc_delay := d1\<rparr>\<rparr>
        in if d1 > 0 then s1 else finish_pending e s1)"

section \<open>The APv2 bypass\<close>

definition read_le32 :: "(nat \<Rightarrow> u8) \<Rightarrow> nat \<Rightarrow> u32" where
  "read_le32 ram a = le_word (ram a) (ram (a + 1)) (ram (a + 2)) (ram (a + 3))"

definition write_le32 :: "nat \<Rightarrow> u32 \<Rightarrow> (nat \<Rightarrow> u8) \<Rightarrow> nat \<Rightarrow> u8" where
  "write_le32 a v ram =
     ram(a := ucast v, a + 1 := ucast (drop_bit 8 v), a + 2 := ucast (drop_bit 16 v), a + 3 := ucast (drop_bit 24 v))"

definition fm_apv2_try_apply_bypass :: "cd_env \<Rightarrow> cd_st \<Rightarrow> cd_st" where
  "fm_apv2_try_apply_bypass e s =
     (let a = cd_ap s; ram = cm_ram (cd_mem s);
          a1 = a\<lparr>ap_last_check_frame := ce_frame e, ap_seen_184 := read_le32 ram 0x168184,
                 ap_seen_188 := read_le32 ram 0x168188, ap_seen_18c := read_le32 ram 0x16818C\<rparr>
      in if \<not> ap_bypass_enabled a \<or> ap_bypass_applied a \<or> ap_last_check_frame a = ce_frame e then s
         else if ap_seen_184 a1 \<noteq> 0x2C620014 \<or> ap_seen_188 a1 \<noteq> 0x1040023A \<or> ap_seen_18c a1 \<noteq> 0x00031080
         then s\<lparr>cd_ap := a1\<rparr>
         else s\<lparr>cd_mem := dirty_ram_mark_executable_range (ce_code e) 0x168188 4
                            ((cd_mem s)\<lparr>cm_ram := write_le32 0x168188 0x1000023A ram\<rparr>),
                cd_ap := a1\<lparr>ap_seen_188 := 0x1000023A, ap_bypass_applied := True, ap_bypass_frame := ucast (ce_frame e)\<rparr>\<rparr>)"

section \<open>Reset\<close>

text \<open>
  What the reset takes from its argument and the process environment: whether a disc path is given
  and opens, and the numbers and flags read from the \<open>PSX_\<close> variables that are set.
\<close>

record cd_boot =
  cb_open :: "bool option"
  cb_init_delay :: "int option"
  cb_readtoc_delay :: "int option"
  cb_time_continues :: bool
  cb_apv2_stock :: bool
  cb_apv2_bypass :: bool

definition env_delay :: "int \<Rightarrow> int \<Rightarrow> int \<Rightarrow> int option \<Rightarrow> int" where
  "env_delay dflt lo hi v = (case v of Some x \<Rightarrow> (if lo \<le> x \<and> x \<le> hi then x else dflt) | None \<Rightarrow> dflt)"

definition reset_registers :: "cd_boot \<Rightarrow> cd_st \<Rightarrow> cd_st" where
  "reset_registers b s =
     s\<lparr>param_fifo := (\<lambda>_. 0), response_fifo := (\<lambda>_. 0), sector_buffer := (\<lambda>_. 0),
       index_reg := 0, request_reg := 0, irq_enable := 0x1F, irq_flag := 0, intc_request_latched := False,
       irq_generation := 0, intc_latched_generation := 0, irq_present_delay := 0,
       init_complete_delay := env_delay 1136000 1000 10000000 (cb_init_delay b),
       readtoc_complete_delay := env_delay 30000000 100000 60000000 (cb_readtoc_delay b),
       pending_time_continues := cb_time_continues b,
       cd_ap := \<lparr>ap_stock_mode = cb_apv2_stock b, ap_probe_active = False, ap_total = 0, ap_success = 0,
                 ap_play_acks = 0, ap_test04_count = 0, ap_test05_count = 0, ap_bypass_enabled = cb_apv2_bypass b,
                 ap_bypass_applied = False, ap_bypass_frame = 0, ap_seen_184 = 0, ap_seen_188 = 0, ap_seen_18c = 0,
                 ap_last_check_frame = - 1\<rparr>,
       param_count := 0, response_read := 0, response_count := 0, sector_read_pos := 0, sector_size := 0,
       sector_available := False,
       cd_ls := \<lparr>ls_buffer = (\<lambda>_. 0), ls_lba = -1, ls_size = 0, ls_frame = 0, ls_mode = 0, ls_have_raw = False,
                 ls_raw_mode = 0, ls_xa_file = 0, ls_xa_channel = 0, ls_xa_submode = 0, ls_xa_coding = 0\<rparr>\<rparr>"

definition cdrom_init :: "cd_env \<Rightarrow> cd_boot \<Rightarrow> cd_st \<Rightarrow> cd_st" where
  "cdrom_init e b s =
     (let s1 = stop_cdda_playback (stop_read_stream (reset_registers b s));
          s2 = on_da (\<lambda>d. d\<lparr>cdda_lba := 0, cdda_sectors_played := 0\<rparr>)
                 (s1\<lparr>mode_reg := 0, filter_file := 0, filter_channel := 0, cd_muted := False\<rparr>);
          s3 = on_spu spu_cd_audio_reset (xa_reset_decode s2);
          s4 = s3\<lparr>cd_pc := (cd_pc s3)\<lparr>pc_pending := False\<rparr>,
                  cd_qc := \<lparr>qc_cmd = 0, qc_params = (\<lambda>_. 0), qc_param_count = 0, qc_pending = False\<rparr>,
                  seek_min := 0, seek_sec := 0, seek_sect := 0, setloc_seek_far := False,
                  iso_mounted := (case cb_open b of Some ok \<Rightarrow> ok | None \<Rightarrow> iso_mounted s3)\<rparr>;
          s5 = s4\<lparr>stat_reg := (if has_disc s4 then CDSTAT_MOTOR else CDSTAT_SHELL),
                  cd_rg := \<lparr>cdrom_trace = (\<lambda>_. None), cdrom_trace_seq = 0, command_history = (\<lambda>_. None),
                            command_history_seq = 0, sector_history = (\<lambda>_. None), sector_history_seq = 0\<rparr>\<rparr>
      in trace_cdrom e CHR ''N'' 0 (if has_disc s5 then 1 else 0) 0 s5)"

section \<open>Registers\<close>

definition status_byte :: "cd_st \<Rightarrow> u8" where
  "status_byte s =
     (index_reg s AND 0x03)
       OR (if param_count s = 0 then 0x08 else 0)
       OR (if param_count s < PARAM_FIFO_SIZE then 0x10 else 0)
       OR (if response_read s < response_count s then 0x20 else 0)
       OR (if data_fifo_ready s then 0x40 else 0)
       OR (if qc_pending (cd_qc s) then 0x80 else 0)"

definition pop_response :: "cd_st \<Rightarrow> u8 \<times> cd_st" where
  "pop_response s =
     (if response_read s < response_count s
      then (response_fifo s (response_read s), s\<lparr>response_read := response_read s + 1\<rparr>) else (0, s))"

definition pop_data :: "cd_st \<Rightarrow> u8 \<times> cd_st" where
  "pop_data s =
     (if data_fifo_ready s then
        let s1 = s\<lparr>sector_read_pos := sector_read_pos s + 1\<rparr>
        in (sector_buffer s (sector_read_pos s),
            if sector_read_pos s1 \<ge> sector_size s1 then s1\<lparr>sector_available := False\<rparr> else s1)
      else (0, s))"

definition cdrom_read :: "cd_env \<Rightarrow> u32 \<Rightarrow> cd_st \<Rightarrow> u32 \<times> cd_st" where
  "cdrom_read e addr s =
     (let (b, s1) =
            (if addr = 0x1F801800 then (status_byte s, s)
             else if addr = 0x1F801801 then pop_response s
             else if addr = 0x1F801802 then pop_data s
             else if addr = 0x1F801803
             then (if index_reg s = 0 \<or> index_reg s = 2 then irq_enable s else irq_flag s OR 0xE0, s)
             else (0, s))
      in (ucast b, trace_cdrom e CHR ''R'' addr (ucast b) 1 s1))"

definition set_vol :: "nat \<Rightarrow> nat \<Rightarrow> u8 \<Rightarrow> cd_st \<Rightarrow> cd_st" where
  "set_vol src dst v s = s\<lparr>cd_pending_vol := (cd_pending_vol s)(src := (cd_pending_vol s src)(dst := v))\<rparr>"

definition irq_acknowledge :: "cd_env \<Rightarrow> u8 \<Rightarrow> cd_st \<Rightarrow> cd_st" where
  "irq_acknowledge e val s =
     (let had_active = (irq_flag s AND 0x1F \<noteq> 0);
          s1 = s\<lparr>irq_flag := clear_bits (irq_flag s) (val AND 0x1F)\<rparr>;
          s2 = (if had_active \<and> irq_flag s1 AND 0x1F = 0 then s1\<lparr>intc_request_latched := False\<rparr> else s1);
          s3 = (if has val 0x40 then s2\<lparr>param_count := 0\<rparr> else s2)
      in try_execute_queued_command e (present_pending_dataready e s3))"

definition cdrom_write :: "cd_env \<Rightarrow> u32 \<Rightarrow> u32 \<Rightarrow> cd_st \<Rightarrow> cd_st" where
  "cdrom_write e addr value s0 =
     (let val = (ucast value :: u8);
          s = trace_cdrom e CHR ''W'' addr (ucast val) 1 s0;
          i = index_reg s
      in if addr = 0x1F801800 then s\<lparr>index_reg := val AND 0x03\<rparr>
         else if addr = 0x1F801801 then
           (if i = 0 then queue_or_exec_command e val s else if i = 3 then set_vol 1 1 val s else s)
         else if addr = 0x1F801802 then
           (if i = 0 then
              (if param_count s < PARAM_FIFO_SIZE
               then s\<lparr>param_fifo := (param_fifo s)(param_count s := val), param_count := param_count s + 1\<rparr> else s)
            else if i = 1 then s\<lparr>irq_enable := val AND 0x1F\<rparr>
            else if i = 2 then set_vol 0 0 val s
            else if i = 3 then set_vol 1 0 val s
            else s)
         else if addr = 0x1F801803 then
           (if i = 2 then set_vol 0 1 val s
            else if i = 3 then (if has val 0x20 then s\<lparr>cd_decode_vol := cd_pending_vol s\<rparr> else s)
            else if i = 0 then
              (let s1 = s\<lparr>request_reg := val\<rparr>
               in if has (request_reg s1) CDROM_REQUEST_BFRD then s1 else s1\<lparr>sector_read_pos := 0\<rparr>)
            else if i = 1 then irq_acknowledge e val s
            else s)
         else s)"

section \<open>Time\<close>

definition cdrom_cycles_to_irq :: "u32 \<Rightarrow> cd_st \<Rightarrow> u32" where
  "cdrom_cycles_to_irq i_mask s =
     (if \<not> bit i_mask 2 then 0xFFFFFFFF
      else
        let b0 = 0xFFFFFFFF;
            b1 = (if irq_flag s \<noteq> 0 \<and> has (irq_enable s) (irq_flag s)
                  then min b0 (if irq_present_delay s > 0 then word_of_int (irq_present_delay s) else 0) else b0);
            d = pc_delay (cd_pc s);
            b2 = (if pc_pending (cd_pc s) \<and> d > 0 then min b1 (word_of_int d) else b1)
        in if cd_reading s \<and> read_delay s > 0 then min b2 (word_of_int (read_delay s)) else b2)"

definition age_presentation :: "u32 \<Rightarrow> cd_st \<Rightarrow> cd_st" where
  "age_presentation cycles s =
     (if irq_present_delay s > 0
      then s\<lparr>irq_present_delay := (if irq_present_delay s - sint cycles < 0 then 0 else irq_present_delay s - sint cycles)\<rparr>
      else s)"

definition cdrom_advance :: "cd_env \<Rightarrow> u32 \<Rightarrow> cd_st \<Rightarrow> cd_st" where
  "cdrom_advance e cycles s =
     refresh_cdrom_irq_line e
       (process_cdda_stream e cycles
         (process_read_stream e cycles
           (process_pending e cycles
             (try_execute_queued_command e
               (refresh_cdrom_irq_line e
                 (age_presentation cycles (fm_apv2_try_apply_bypass e s)))))))"

definition cdrom_tick :: "cd_env \<Rightarrow> cd_st \<Rightarrow> cd_st" where
  "cdrom_tick e s = cdrom_advance e 33868 s"

section \<open>The DMA port and other observers\<close>

definition cdrom_dma_ready :: "cd_st \<Rightarrow> bool" where
  "cdrom_dma_ready s \<longleftrightarrow>
     has (request_reg s) CDROM_REQUEST_BFRD \<and> sector_available s \<and> sector_read_pos s + 4 \<le> sector_size s"

definition cdrom_dma_read :: "cd_st \<Rightarrow> u32 \<times> cd_st" where
  "cdrom_dma_read s =
     (if cdrom_dma_ready s then
        let s1 = s\<lparr>sector_read_pos := sector_read_pos s + 4\<rparr>
        in (read_le32 (sector_buffer s) (sector_read_pos s),
            if sector_read_pos s1 \<ge> sector_size s1 then s1\<lparr>sector_available := False\<rparr> else s1)
      else (0, s))"

definition cdrom_dma_sector_word_count :: "cd_st \<Rightarrow> u32" where
  "cdrom_dma_sector_word_count s =
     (let size' = (if sector_size s = 0 then (if has (mode_reg s) 0x20 then WHOLE_SECTOR_SIZE else SECTOR_SIZE)
                  else sector_size s)
      in of_nat ((size' + 3) div 4))"

definition cdrom_load_in_progress :: "cd_env \<Rightarrow> cd_st \<Rightarrow> bool" where
  "cdrom_load_in_progress e s \<longleftrightarrow>
     \<not> xa_stream_active (cd_xs s) \<and>
     (cd_reading s \<or>
      burst_count s > 0 \<and> (ucast (ce_frame e) :: u32) \<le> bu_end_frame (bursts s (unat ((burst_count s - 1) mod 128))) + 30)"

definition cdrom_cdda_track :: "cd_st \<Rightarrow> int" where
  "cdrom_cdda_track s = (if cdda_playing (cd_dp s) then cdda_track (cd_dp s) else 0)"

definition cdrom_debug_copy_last_sector :: "u32 \<Rightarrow> u32 \<Rightarrow> cd_st \<Rightarrow> u8 list" where
  "cdrom_debug_copy_last_sector offset len s =
     (let n = ls_size (cd_ls s)
      in if n = 0 \<or> unat offset \<ge> n then []
         else map (\<lambda>i. ls_buffer (cd_ls s) (unat offset + i)) [0..<min (unat len) (n - unat offset)])"

text \<open>
  A snapshot holds the fields of \<open>CDROM_SNAP_FIELDS\<close> of the state \<open>t\<close> it was written from. Restoring
  it into \<open>s\<close>, after the length check, leaves every other field of \<open>s\<close> as it is.
\<close>

definition cdrom_snapshot_read :: "bool \<Rightarrow> cd_st \<Rightarrow> cd_st \<Rightarrow> bool \<times> cd_st" where
  "cdrom_snapshot_read len_ok t s =
     (if \<not> len_ok then (False, s) else (True,
     s\<lparr>index_reg := index_reg t, stat_reg := stat_reg t, request_reg := request_reg t, irq_enable := irq_enable t,
       irq_flag := irq_flag t, intc_request_latched := intc_request_latched t, irq_generation := irq_generation t,
       intc_latched_generation := intc_latched_generation t, irq_present_delay := irq_present_delay t,
       param_fifo := param_fifo t, param_count := param_count t, response_fifo := response_fifo t,
       response_read := response_read t, response_count := response_count t, sector_buffer := sector_buffer t,
       sector_read_pos := sector_read_pos t, sector_available := sector_available t, sector_size := sector_size t,
       cd_ls := cd_ls t, seek_min := seek_min t, seek_sec := seek_sec t, seek_sect := seek_sect t,
       setloc_lba := setloc_lba t, setloc_seek_far := setloc_seek_far t, cd_reading := cd_reading t,
       read_min := read_min t, read_sec := read_sec t, read_sect := read_sect t, mode_reg := mode_reg t,
       read_cmd := read_cmd t, read_delay := read_delay t, filter_file := filter_file t,
       filter_channel := filter_channel t, cd_muted := cd_muted t,
       cd_dp := (cd_dp s)\<lparr>cdda_playing := cdda_playing (cd_dp t), cdda_track := cdda_track (cd_dp t),
                          cdda_lba := cdda_lba (cd_dp t), cdda_delay := cdda_delay (cd_dp t)\<rparr>,
       cd_xs := cd_xs t, disc_speed_divisor := disc_speed_divisor t, game_divisor := game_divisor t,
       instant_max_per_frame := instant_max_per_frame t, cd_pc := cd_pc t, cd_qc := cd_qc t,
       pending_dataready := pending_dataready t, pending_dataready_stat := pending_dataready_stat t\<rparr>))"

end
