(* ===== verification/Cdrom_Int.thy ===== *)
theory Cdrom_Int
  imports Cdrom Event_Source
begin

text \<open>
  The interrupt line of the CD-ROM controller. \<open>int_of\<close> is the part of the state that decides when
  the controller interrupts the CPU and what the guest reads from the response FIFO; \<open>int_step\<close> is
  its specification, a transition system with one rule per thing that may happen to it. Every
  operation of \<open>Cdrom\<close> is a sequence of such steps, so what the rules preserve holds of the code.
\<close>

section \<open>The interrupt line as a transition system\<close>

record cd_int =
  vi_flag :: u8
  vi_enable :: u8
  vi_gen :: u32
  vi_latched :: bool
  vi_delay :: int
  vi_port :: irq_port
  vi_fifo :: "nat \<Rightarrow> u8"
  vi_read :: nat
  vi_count :: nat

definition int_of :: "cd_st \<Rightarrow> cd_int" where
  "int_of s =
     \<lparr>vi_flag = irq_flag s, vi_enable = irq_enable s, vi_gen = irq_generation s, vi_latched = intc_request_latched s,
      vi_delay = irq_present_delay s, vi_port = cd_port s, vi_fifo = response_fifo s, vi_read = response_read s,
      vi_count = response_count s\<rparr>"

text \<open>Two ports that differ only in the event timeline.\<close>

definition port_eq :: "irq_port \<Rightarrow> irq_port \<Rightarrow> bool" where
  "port_eq p q \<longleftrightarrow> i_stat q = i_stat p \<and> dev_log q = dev_log p"

text \<open>
  \<open>respond\<close> is a new response, allowed only when none is outstanding; \<open>present\<close> raises the CPU
  line. The controller alone (\<open>Settle\<close>) can do only these; time and the guest can age the
  presentation delay, read the FIFO and change the enable mask (\<open>Guest\<close>), and acknowledge (\<open>Acking\<close>).
\<close>

datatype driver = Settle | Guest | Acking

inductive int_step :: "driver \<Rightarrow> cd_int \<Rightarrow> cd_int \<Rightarrow> bool" for acks :: driver where
  timeline: "port_eq (vi_port v) p \<Longrightarrow> int_step acks v (v\<lparr>vi_port := p\<rparr>)"
| refill: "vi_flag v = 0 \<Longrightarrow> c \<le> 16 \<Longrightarrow> int_step acks v (v\<lparr>vi_fifo := f, vi_read := 0, vi_count := c\<rparr>)"
| respond: "vi_flag v = 0 \<Longrightarrow> 0 < t \<Longrightarrow> t \<le> 5 \<Longrightarrow> port_eq (vi_port v) p \<Longrightarrow>
    int_step acks v (v\<lparr>vi_flag := t, vi_gen := vi_gen v + 1, vi_latched := False, vi_delay := 5000, vi_port := p\<rparr>)"
| age: "acks \<noteq> Settle \<Longrightarrow> d \<le> vi_delay v \<Longrightarrow> 0 \<le> d \<Longrightarrow> int_step acks v (v\<lparr>vi_delay := d\<rparr>)"
| present: "vi_delay v \<le> 0 \<Longrightarrow> vi_flag v \<noteq> 0 \<Longrightarrow> has (vi_enable v) (vi_flag v) \<Longrightarrow> \<not> vi_latched v \<Longrightarrow>
    port_eq (psx_irq_raise 2 (ucast (vi_flag v)) (vi_port v)) p \<Longrightarrow>
    int_step acks v (v\<lparr>vi_port := p, vi_latched := True\<rparr>)"
| pop: "acks \<noteq> Settle \<Longrightarrow> vi_read v < vi_count v \<Longrightarrow> int_step acks v (v\<lparr>vi_read := Suc (vi_read v)\<rparr>)"
| enable: "acks \<noteq> Settle \<Longrightarrow> int_step acks v (v\<lparr>vi_enable := m AND 0x1F\<rparr>)"
| ack: "acks = Acking \<Longrightarrow> f = clear_bits (vi_flag v) (x AND 0x1F) \<Longrightarrow>
    int_step acks v (v\<lparr>vi_flag := f, vi_latched := (vi_latched v \<and> (f AND 0x1F \<noteq> 0 \<or> vi_flag v AND 0x1F = 0))\<rparr>)"

inductive_cases int_stepE [elim]: "int_step a v w"

abbreviation int_steps :: "driver \<Rightarrow> cd_int \<Rightarrow> cd_int \<Rightarrow> bool" where
  "int_steps a \<equiv> (int_step a)\<^sup>*\<^sup>*"

definition evolves :: "driver \<Rightarrow> cd_st \<Rightarrow> cd_st \<Rightarrow> bool" where
  "evolves a s t \<longleftrightarrow> int_steps a (int_of s) (int_of t)"

lemma port_eq_refl [simp]: "port_eq p p"
  by (simp add: port_eq_def)

lemma port_eq_event [simp]: "port_eq p (event_ring_record_aux k d a p)"
  by (simp add: port_eq_def event_ring_record_aux_def)

lemma evolves_refl: "int_of t = int_of s \<Longrightarrow> evolves a s t"
  by (simp add: evolves_def)

lemma evolves_trans [trans]: "evolves a s t \<Longrightarrow> evolves a t u \<Longrightarrow> evolves a s u"
  unfolding evolves_def by (rule rtranclp_trans)

lemma evolves_same: "evolves a s t \<Longrightarrow> int_of s' = int_of s \<Longrightarrow> int_of t' = int_of t \<Longrightarrow> evolves a s' t'"
  by (simp add: evolves_def)

lemma evolves_step: "int_step a (int_of s) (int_of t) \<Longrightarrow> evolves a s t"
  unfolding evolves_def by (rule r_into_rtranclp)

section \<open>What leaves the interrupt line alone\<close>

lemma int_of_frame [frame_simps]:
  "int_of (s\<lparr>cd_rg := r\<rparr>) = int_of s" "int_of (s\<lparr>cd_spu := sp\<rparr>) = int_of s" "int_of (s\<lparr>cd_mem := m\<rparr>) = int_of s"
  "int_of (s\<lparr>cd_ap := ap\<rparr>) = int_of s" "int_of (s\<lparr>cd_ls := l\<rparr>) = int_of s" "int_of (s\<lparr>cd_xs := x\<rparr>) = int_of s"
  "int_of (s\<lparr>cd_dp := dp\<rparr>) = int_of s" "int_of (s\<lparr>cd_pc := pc\<rparr>) = int_of s" "int_of (s\<lparr>cd_qc := q\<rparr>) = int_of s"
  "int_of (s\<lparr>stat_reg := b\<rparr>) = int_of s" "int_of (s\<lparr>request_reg := b\<rparr>) = int_of s" "int_of (s\<lparr>index_reg := b\<rparr>) = int_of s"
  "int_of (s\<lparr>mode_reg := b\<rparr>) = int_of s" "int_of (s\<lparr>read_cmd := b\<rparr>) = int_of s" "int_of (s\<lparr>cd_muted := bo\<rparr>) = int_of s"
  "int_of (s\<lparr>filter_file := b\<rparr>) = int_of s" "int_of (s\<lparr>filter_channel := b\<rparr>) = int_of s"
  "int_of (s\<lparr>param_fifo := pf\<rparr>) = int_of s" "int_of (s\<lparr>param_count := n\<rparr>) = int_of s"
  "int_of (s\<lparr>sector_buffer := pf\<rparr>) = int_of s" "int_of (s\<lparr>sector_size := n\<rparr>) = int_of s"
  "int_of (s\<lparr>sector_read_pos := n\<rparr>) = int_of s" "int_of (s\<lparr>sector_available := bo\<rparr>) = int_of s"
  by (simp_all add: int_of_def)

lemma int_of_frame2 [frame_simps]:
  "int_of (s\<lparr>seek_min := b\<rparr>) = int_of s" "int_of (s\<lparr>seek_sec := b\<rparr>) = int_of s" "int_of (s\<lparr>seek_sect := b\<rparr>) = int_of s"
  "int_of (s\<lparr>setloc_lba := i\<rparr>) = int_of s" "int_of (s\<lparr>setloc_seek_far := bo\<rparr>) = int_of s"
  "int_of (s\<lparr>cd_reading := bo\<rparr>) = int_of s" "int_of (s\<lparr>read_delay := i\<rparr>) = int_of s" "int_of (s\<lparr>read_min := i\<rparr>) = int_of s"
  "int_of (s\<lparr>read_sec := i\<rparr>) = int_of s" "int_of (s\<lparr>read_sect := i\<rparr>) = int_of s"
  "int_of (s\<lparr>pending_dataready := bo\<rparr>) = int_of s" "int_of (s\<lparr>pending_dataready_stat := b\<rparr>) = int_of s"
  "int_of (s\<lparr>int1_pended := w\<rparr>) = int_of s" "int_of (s\<lparr>int1_lost := w\<rparr>) = int_of s"
  "int_of (s\<lparr>dataready_fires := w\<rparr>) = int_of s" "int_of (s\<lparr>cd_pending_vol := v\<rparr>) = int_of s"
  "int_of (s\<lparr>cd_decode_vol := v\<rparr>) = int_of s" "int_of (s\<lparr>bursts := bu\<rparr>) = int_of s" "int_of (s\<lparr>burst_count := bc\<rparr>) = int_of s"
  "int_of (s\<lparr>disc_speed_divisor := i\<rparr>) = int_of s" "int_of (s\<lparr>game_divisor := i\<rparr>) = int_of s"
  "int_of (s\<lparr>instant_max_per_frame := i\<rparr>) = int_of s" "int_of (s\<lparr>disc_scex := pf\<rparr>) = int_of s"
  by (simp_all add: int_of_def)

lemma int_of_ops [frame_simps]:
  "int_of (trace_cdrom e k a v w s) = int_of s" "int_of (record_command_history e k c ps n s) = int_of s"
  "int_of (record_sector_history e l n m h bs d s) = int_of s" "int_of (burst_note_sector e s) = int_of s"
  "int_of (clear_sector_buffer s) = int_of s" "int_of (cdrom_clear_pending_dataready s) = int_of s"
  "int_of (stop_cdda_playback s) = int_of s" "int_of (xa_reset_decode s) = int_of s" "int_of (xa_select_stream d s) = int_of s"
  "int_of (pend_second c i s) = int_of s" "int_of (set_vol n n' b s) = int_of s" "int_of (advance_read_position s) = int_of s"
  by (simp_all add: trace_cdrom_def record_command_history_def record_sector_history_def burst_note_sector_def
      clear_sector_buffer_def cdrom_clear_pending_dataready_def stop_cdda_playback_def xa_reset_decode_def
      xa_select_stream_def pend_second_def set_vol_def advance_read_position_def Let_def case_prod_beta frame_simps)

lemma int_of_ops2 [frame_simps]:
  "int_of (stop_read_stream s) = int_of s" "int_of (xa_play_sector e r l d s) = int_of s"
  "int_of (fm_apv2_try_apply_bypass e s) = int_of s" "int_of (pend_dataready e s) = int_of s"
  by (simp_all add: stop_read_stream_def xa_play_sector_def fm_apv2_try_apply_bypass_def pend_dataready_def
      Let_def case_prod_beta frame_simps)

lemma int_of_deliver_xa [frame_simps]: "int_of (snd (maybe_deliver_xa_audio e raw lba d s)) = int_of s"
  by (simp add: maybe_deliver_xa_audio_def frame_simps split: option.splits)

lemma int_of_read_sector [frame_simps]: "int_of (snd (read_sector_at e p s)) = int_of s"
  by (simp add: read_sector_at_def Let_def case_prod_beta frame_simps)

lemma int_of_start_cdda [frame_simps]: "int_of (snd (start_cdda_playback e n s)) = int_of s"
  by (simp add: start_cdda_playback_def Let_def case_prod_beta frame_simps)

section \<open>Every operation is a sequence of steps\<close>

lemma flag_of: "irq_flag s = vi_flag (int_of s)"
  by (simp add: int_of_def)

lemma evolves_note: "evolves a s (s\<lparr>cd_port := event_ring_record_aux k d x (cd_port s)\<rparr>)"
  using int_step.timeline [of "int_of s" "event_ring_record_aux k d x (cd_port s)" a]
  by (intro evolves_step) (simp add: int_of_def)

lemma evolves_clear: "irq_flag s = 0 \<Longrightarrow> evolves a s (response_clear s)"
  using int_step.refill [of "int_of s" 0 a "response_fifo s"]
  by (intro evolves_step) (simp add: int_of_def response_clear_def)

lemma pushes_int:
  "response_count s \<le> 16 \<Longrightarrow>
     \<exists>f c. c \<le> 16 \<and> int_of (fold response_push bs s) = (int_of s)\<lparr>vi_fifo := f, vi_count := c\<rparr>"
proof (induction bs arbitrary: s)
  case Nil
  then show ?case by (intro exI [of _ "response_fifo s"] exI [of _ "response_count s"]) (simp add: int_of_def)
next
  case (Cons b bs)
  have "response_count (response_push b s) \<le> 16"
    using Cons.prems by (simp add: response_push_def)
  from Cons.IH [OF this] obtain f c where
    "c \<le> 16" "int_of (fold response_push bs (response_push b s)) = (int_of (response_push b s))\<lparr>vi_fifo := f, vi_count := c\<rparr>"
    by blast
  moreover obtain f' c' where "int_of (response_push b s) = (int_of s)\<lparr>vi_fifo := f', vi_count := c'\<rparr>"
    by (cases "response_count s < 16") (auto simp: int_of_def response_push_def)
  ultimately have "int_of (fold response_push (b # bs) s) = (int_of s)\<lparr>vi_fifo := f, vi_count := c\<rparr>"
    by simp
  with \<open>c \<le> 16\<close> show ?case by blast
qed

text \<open>
  A response is only ever given to an empty FIFO, so the pushes and the interrupt are one refill
  and one \<open>respond\<close> step.
\<close>

definition fresh :: "cd_int \<Rightarrow> bool" where
  "fresh v \<longleftrightarrow> vi_flag v = 0 \<and> vi_read v = 0 \<and> vi_count v \<le> 16"

lemma fresh_frame: "int_of t = int_of s \<Longrightarrow> fresh (int_of t) = fresh (int_of s)"
  by simp

lemma fresh_clear [simp]: "fresh (int_of (response_clear s)) \<longleftrightarrow> irq_flag s = 0"
  by (simp add: fresh_def int_of_def response_clear_def)

lemma evolves_set_irq:
  assumes "irq_flag s = 0" "0 < t" "t \<le> 5"
  shows "evolves a s (set_irq e t s)"
proof (rule evolves_step)
  have "int_of (set_irq e t s) =
      (int_of s)\<lparr>vi_flag := t, vi_gen := vi_gen (int_of s) + 1, vi_latched := False, vi_delay := 5000,
                vi_port := event_ring_record_aux EV_DEQ SRC_CD_IRQ (ucast t) (cd_port s)\<rparr>"
    by (simp add: int_of_def set_irq_def trace_cdrom_def Let_def)
  moreover have "int_step a (int_of s) \<dots>"
    by (rule int_step.respond) (use assms in \<open>simp_all add: int_of_def\<close>)
  ultimately show "int_step a (int_of s) (int_of (set_irq e t s))" by simp
qed

lemma evolves_respond:
  assumes "int_of s' = int_of s" "fresh (int_of s)" "0 < t" "t \<le> 5"
  shows "evolves a s (respond e bs t s')"
proof -
  have c: "response_count s' \<le> 16" "irq_flag s' = 0" "response_read s' = 0"
    using assms(1,2) by (simp_all add: fresh_def int_of_def)
  obtain f n where n: "n \<le> 16" and i: "int_of (fold response_push bs s') = (int_of s')\<lparr>vi_fifo := f, vi_count := n\<rparr>"
    using pushes_int [OF c(1)] by blast
  have "int_step a (int_of s') ((int_of s')\<lparr>vi_fifo := f, vi_read := 0, vi_count := n\<rparr>)"
    by (rule int_step.refill) (use c n in \<open>simp_all add: int_of_def\<close>)
  moreover have "(int_of s')\<lparr>vi_fifo := f, vi_read := 0, vi_count := n\<rparr> = int_of (fold response_push bs s')"
    using i c(3) by (simp add: int_of_def)
  ultimately have "evolves a s' (fold response_push bs s')"
    by (intro evolves_step) simp
  moreover have "irq_flag (fold response_push bs s') = 0"
    using i c(2) by (simp add: flag_of)
  then have "evolves a (fold response_push bs s') (set_irq e t (fold response_push bs s'))"
    using assms(3,4) by (intro evolves_set_irq)
  ultimately show ?thesis
    using assms(1) evolves_refl [of s' s a] by (metis evolves_trans respond_def)
qed

lemma evolves_present: "evolves a s (present_cdrom_irq e s)"
proof (cases "irq_present_delay s \<le> 0 \<and> irq_flag s \<noteq> 0 \<and> has (irq_enable s) (irq_flag s) \<and> \<not> intc_request_latched s")
  case True
  let ?p = "event_ring_record_aux 3 2 0 (psx_irq_raise 2 (ucast (irq_flag s)) (cd_port s))"
  have "int_of (present_cdrom_irq e s) = (int_of s)\<lparr>vi_port := ?p, vi_latched := True\<rparr>"
    using True by (simp add: present_cdrom_irq_def int_of_def trace_cdrom_def Let_def)
  moreover have "int_step a (int_of s) ((int_of s)\<lparr>vi_port := ?p, vi_latched := True\<rparr>)"
    by (rule int_step.present) (use True in \<open>simp_all add: int_of_def\<close>)
  ultimately show ?thesis by (intro evolves_step) simp
next
  case False
  then show ?thesis by (intro evolves_refl) (auto simp: present_cdrom_irq_def)
qed

lemma evolves_fire: "evolves a s (fire_cdrom_irq e s)"
  unfolding fire_cdrom_irq_def
  by (rule evolves_trans [OF evolves_refl evolves_present]) (simp add: frame_simps)

lemma evolves_ack: "int_of s' = int_of s \<Longrightarrow> fresh (int_of s) \<Longrightarrow> evolves a s (ack e s')"
  by (simp add: ack_def evolves_respond)

lemma evolves_start_read: "evolves a s (start_read_stream e cmd s)"
proof -
  let ?s3 = "\<lambda>s2. s2\<lparr>read_min := uint (seek_min s2), read_sec := uint (seek_sec s2), read_sect := uint (seek_sect s2),
                 read_cmd := cmd, read_delay := initial_read_delay_cycles s2, cd_reading := True,
                 stat_reg := stat_reg s2 OR CDSTAT_READ\<rparr>"
  let ?s1 = "cdrom_clear_pending_dataready (clear_sector_buffer (stop_cdda_playback s))"
  let ?s2 = "if has (mode_reg ?s1) 0x40 then on_spu spu_cd_audio_reset (xa_reset_decode ?s1) else ?s1"
  have "int_of (?s3 ?s2) = int_of s"
    by (simp add: frame_simps)
  from evolves_refl [OF this] evolves_note show ?thesis
    unfolding start_read_stream_def Let_def by (rule evolves_trans)
qed

lemma start_read_fresh: "fresh (int_of (start_read_stream e cmd s)) = fresh (int_of s)"
  by (simp add: start_read_stream_def Let_def fresh_def int_of_def cdrom_clear_pending_dataready_def
      clear_sector_buffer_def stop_cdda_playback_def xa_reset_decode_def)

text \<open>Every command ends in exactly one response; what comes before it leaves the interrupt line alone.\<close>

lemmas command_defs = cmd_get_stat_def cmd_set_loc_def cmd_motor_on_def cmd_stop_def cmd_pause_def cmd_init_def
  cmd_mute_def cmd_set_filter_def cmd_set_mode_def cmd_getparam_def cmd_get_loc_l_def cmd_get_loc_p_def
  cmd_get_tn_def cmd_get_td_def cmd_seek_def cmd_test_def

lemma evolves_pend: "evolves a s t \<Longrightarrow> evolves a s (pend_second c d t)"
  by (rule evolves_same) (simp_all add: frame_simps)

lemma evolves_read_cmd: "fresh (int_of s) \<Longrightarrow> evolves a s (cmd_read e cmd s)"
  using evolves_trans [OF evolves_start_read evolves_ack [OF refl], of e cmd s a]
  by (simp add: cmd_read_def evolves_respond start_read_fresh)

lemma evolves_play: "fresh (int_of s) \<Longrightarrow> evolves a s (cmd_play e s)"
  by (simp add: cmd_play_def Let_def case_prod_beta evolves_respond evolves_ack frame_simps)

lemma evolves_command:
  assumes "fresh (int_of s)"
  shows "evolves a s (run_command e cmd s)"
proof -
  note rules = assms evolves_respond evolves_ack evolves_pend frame_simps
  have "evolves a s (cmd_get_stat e s)" "evolves a s (cmd_set_loc e s)" "evolves a s (cmd_motor_on e s)"
       "evolves a s (cmd_stop e s)" "evolves a s (cmd_pause e s)" "evolves a s (cmd_init e s)"
       "evolves a s (cmd_mute e m s)" "evolves a s (cmd_set_filter e s)" "evolves a s (cmd_set_mode e s)" for m
    by (simp_all add: command_defs Let_def rules)
  moreover have "evolves a s (cmd_getparam e s)" "evolves a s (cmd_get_loc_l e s)" "evolves a s (cmd_get_loc_p e s)"
       "evolves a s (cmd_get_tn e s)" "evolves a s (cmd_get_td e s)" "evolves a s (cmd_seek e c s)" "evolves a s (cmd_test e s)" for c
    by (simp_all add: command_defs Let_def case_prod_beta rules)
  ultimately show ?thesis
    by (simp add: run_command_def evolves_read_cmd evolves_play rules)
qed

lemma evolves_exec:
  assumes "irq_flag s = 0"
  shows "evolves a s (exec_command e cmd s)"
proof -
  let ?s1 = "trace_cdrom e CHR ''C'' 0 (ucast cmd) 0 s"
  let ?s1' = "?s1\<lparr>cd_port := event_ring_record_aux EV_ENQ SRC_CD_CMD (ucast cmd) (cd_port ?s1)\<rparr>"
  let ?s3 = "(run_command e cmd (response_clear ?s1'))\<lparr>param_count := 0\<rparr>"
  have f: "irq_flag ?s1' = 0"
    using assms by (simp add: trace_cdrom_def)
  have "evolves a s ?s1'"
    by (rule evolves_trans [OF evolves_refl evolves_note]) (simp add: frame_simps)
  also have "evolves a ?s1' (response_clear ?s1')"
    using f by (rule evolves_clear)
  also have "evolves a (response_clear ?s1') (run_command e cmd (response_clear ?s1'))"
    using f by (intro evolves_command) simp
  also have "evolves a (run_command e cmd (response_clear ?s1')) (fire_cdrom_irq e ?s3)"
    by (rule evolves_trans [OF evolves_refl evolves_fire]) (simp add: frame_simps)
  finally show ?thesis
    by (rule evolves_same) (simp_all add: exec_command_def Let_def frame_simps)
qed

lemma evolves_queued: "evolves a s (try_execute_queued_command e s)"
proof (cases "qc_pending (cd_qc s) \<and> irq_flag s = 0")
  case True
  let ?q = "cd_qc s" let ?n = "min (qc_param_count ?q) 16"
  let ?s = "s\<lparr>param_fifo := copy_over (param_fifo s) ?n (qc_params ?q), param_count := ?n,
              cd_qc := \<lparr>qc_cmd = 0, qc_params = (\<lambda>_. 0), qc_param_count = 0, qc_pending = False\<rparr>\<rparr>"
  have "evolves a ?s (exec_command e (qc_cmd ?q) ?s)"
    using True by (intro evolves_exec) simp
  then show ?thesis
    using True by (elim evolves_same) (simp_all add: try_execute_queued_command_def Let_def frame_simps)
qed (auto simp: try_execute_queued_command_def intro: evolves_refl)

lemma evolves_command_write: "evolves a s (queue_or_exec_command e cmd s)"
proof (cases "irq_flag s = 0")
  case False
  then show ?thesis by (intro evolves_refl) (simp add: queue_or_exec_command_def Let_def frame_simps)
qed (simp add: queue_or_exec_command_def evolves_exec)

lemma evolves_response:
  assumes "irq_flag s = 0" "int_of s' = int_of (response_clear s)" "0 < t" "t \<le> 5"
  shows "evolves a s (fire_cdrom_irq e (respond e bs t s'))"
proof -
  have "evolves a s (response_clear s)"
    using assms(1) by (rule evolves_clear)
  also have "evolves a (response_clear s) (respond e bs t s')"
    using assms by (intro evolves_respond) simp_all
  also note evolves_fire
  finally show ?thesis .
qed

lemma respond_single: "respond e [b] t s = set_irq e t (response_push b s)"
  by (simp add: respond_def)

lemma int_of_response_clear: "int_of t = int_of s \<Longrightarrow> int_of (response_clear t) = int_of (response_clear s)"
  by (simp add: int_of_def response_clear_def)

lemma evolves_data_ready:
  assumes "irq_flag s = 0" "int_of s' = int_of s" "0 < t" "t \<le> 5"
  shows "evolves a s (fire_cdrom_irq e (set_irq e t (response_push b (response_clear s'))))"
  using evolves_response [OF assms(1) int_of_response_clear [OF assms(2)] assms(3,4)]
  by (metis respond_single)

lemma evolves_pended: "evolves a s (present_pending_dataready e s)"
proof (cases "pending_dataready s \<and> irq_flag s = 0")
  case True
  then show ?thesis
    by (simp add: present_pending_dataready_def Let_def)
      (rule evolves_same [OF evolves_data_ready], auto simp: frame_simps)
next
  case False
  then show ?thesis by (intro evolves_refl) (auto simp: present_pending_dataready_def)
qed

lemma evolves_cdda_end: "evolves a s (deliver_cdda_data_end e s)"
proof (cases "cdda_data_end_pending (cd_dp s) \<and> irq_flag s = 0")
  case True
  then show ?thesis
    by (simp add: deliver_cdda_data_end_def Let_def) (rule evolves_data_ready, simp_all add: frame_simps)
next
  case False
  then show ?thesis by (intro evolves_refl) (auto simp: deliver_cdda_data_end_def)
qed

lemma int_of_deliver [frame_simps]: "int_of (snd (deliver_read_sector_without_irq e s)) = int_of s"
  by (simp add: deliver_read_sector_without_irq_def case_prod_beta frame_simps)

lemma evolves_deliver:
  assumes "irq_flag s = 0"
  shows "evolves a s (deliver_read_sector e s)"
proof -
  let ?r = "read_sector_at e (read_min s, read_sec s, read_sect s) s"
  let ?s2 = "advance_read_position (snd ?r)"
  have i: "int_of ?s2 = int_of s" by (simp add: frame_simps)
  show ?thesis
  proof (cases "fst ?r")
    case True
    then have eq: "int_of (deliver_read_sector e s) =
        int_of (fire_cdrom_irq e (set_irq e 1 (response_push (stat_reg (response_clear ?s2)) (response_clear ?s2))))"
      by (simp add: deliver_read_sector_def Let_def case_prod_beta frame_simps)
    show ?thesis
      using assms i by (intro evolves_same [OF evolves_data_ready [of s ?s2 1] refl eq]) simp_all
  next
    case False
    then show ?thesis
      using i by (intro evolves_refl) (simp add: deliver_read_sector_def Let_def case_prod_beta)
  qed
qed

lemma evolves_due: "evolves a s (read_sector_due e s)"
proof (cases "irq_flag s = 0")
  case True
  let ?t = "if sector_available s then trace_cdrom e CHR ''O'' 0 (of_nat (sector_read_pos s)) 0 s else s"
  have t: "int_of ?t = int_of s" by (simp add: frame_simps)
  then have "irq_flag ?t = 0" using True by (simp only: flag_of)
  from evolves_same [OF evolves_deliver [OF this, of a e] t [symmetric] refl] True show ?thesis
    by (simp add: read_sector_due_def)
next
  case False
  then show ?thesis
    by (intro evolves_refl) (simp add: read_sector_due_def case_prod_beta frame_simps)
qed

lemma evolves_read_stream: "evolves a s (process_read_stream e c s)"
proof -
  let ?s1 = "s\<lparr>read_delay := read_delay s - sint c\<rparr>"
  have "evolves a s (read_sector_due e ?s1)"
    by (rule evolves_same [OF evolves_due]) (simp_all add: frame_simps)
  then have "evolves a s (read_sector_due e ?s1\<lparr>read_delay := d\<rparr>)" for d
    by (rule evolves_same) (simp_all add: frame_simps)
  then show ?thesis
    by (simp add: process_read_stream_def Let_def evolves_refl frame_simps)
qed

lemma evolves_cdda_sector: "evolves a s (cdda_sector e s)"
proof -
  let ?d = "cd_dp s"
  define s3 where "s3 = on_da (\<lambda>d. d\<lparr>cdda_lba := cdda_lba d + 1, cdda_delay := cdda_delay d + CDROM_SINGLE_SPEED_SECTOR_CYCLES\<rparr>)
     (trace_cdrom e CHR ''a'' 0 (cdda_lba ?d) (word_of_int (cdda_track ?d))
       (on_da (\<lambda>d. d\<lparr>cdda_sectors_played := cdda_sectors_played d + 1\<rparr>)
         (on_spu (spu_cd_audio_push (cd_apply_decode_volume (cd_decode_vol s)
           (if cd_muted s then replicate CDDA_SECTOR_FRAMES (0, 0)
            else case ce_raw e (cdda_lba ?d) of None \<Rightarrow> replicate CDDA_SECTOR_FRAMES (0, 0) | Some raw \<Rightarrow> cdda_pcm raw))) s)))"
  define s4 where "s4 = on_da (\<lambda>d. d\<lparr>cdda_data_end_pending := True\<rparr>) (stop_cdda_playback s3)"
  have i: "int_of s3 = int_of s" "int_of s4 = int_of s"
    by (simp_all add: s4_def s3_def frame_simps)
  have "cdda_sector e s \<in> {deliver_cdda_data_end e s4, on_da (\<lambda>d. d\<lparr>cdda_track := cdda_track (cd_dp s3) + 1\<rparr>) s3, s3}"
    by (simp add: cdda_sector_def Let_def s4_def s3_def)
  then show ?thesis
    using i evolves_same [OF evolves_cdda_end i(2) [symmetric] refl] by (auto simp: evolves_refl frame_simps)
qed

lemma evolves_cdda_sectors: "evolves a s (cdda_sectors n e s)"
proof (induction n arbitrary: s)
  case (Suc n)
  have "evolves a s (cdda_sectors n e (cdda_sector e s))"
    by (rule evolves_trans [OF evolves_cdda_sector Suc.IH])
  then show ?case by (simp add: evolves_refl)
qed (simp add: evolves_refl)

lemma evolves_cdda: "evolves a s (process_cdda_stream e c s)"
proof -
  let ?s1 = "cdda_sectors 16 e (on_da (\<lambda>d. d\<lparr>cdda_delay := cdda_delay d - sint c\<rparr>) s)"
  have "evolves a s ?s1"
    by (rule evolves_same [OF evolves_cdda_sectors]) (simp_all add: frame_simps)
  then have "evolves a s (deliver_cdda_data_end e (if b then on_da f ?s1 else ?s1))" for b f
    by (rule evolves_trans) (rule evolves_same [OF evolves_cdda_end], simp_all add: frame_simps)
  then show ?thesis
    by (simp only: process_cdda_stream_def Let_def) (simp add: evolves_cdda_end)
qed

lemma evolves_finish_pending:
  assumes "irq_flag s = 0"
  shows "evolves a s (finish_pending e s)"
proof -
  let ?t = "response_clear (s\<lparr>cd_pc := (cd_pc s)\<lparr>pc_pending := False\<rparr>\<rparr>)"
  have i: "int_of ?t = int_of (response_clear s)"
    by (rule int_of_response_clear) (simp add: frame_simps)
  have r: "evolves a s (fire_cdrom_irq e (respond e bs t s'))" if "int_of s' = int_of ?t" "0 < t" "t \<le> 5" for bs t s'
    using evolves_response [OF assms _ that(2,3)] that(1) i by simp
  have "evolves a s s'" if "int_of s' = int_of ?t" for s'
    using evolves_trans [OF evolves_clear [OF assms] evolves_refl] that i by metis
  moreover have "fst (deliver_read_sector_without_irq e ?t) \<or> \<not> fst (deliver_read_sector_without_irq e ?t)" by blast
  ultimately show ?thesis
    unfolding finish_pending_def pending_result_def Let_def
    by (auto simp: case_prod_beta frame_simps intro!: r)
qed

lemma evolves_pending: "evolves a s (process_pending e c s)"
proof -
  have f: "evolves a s (finish_pending e (s\<lparr>cd_pc := p\<rparr>))" if "irq_flag s = 0" for p
    by (rule evolves_same [OF evolves_finish_pending]) (use that in \<open>simp_all add: frame_simps\<close>)
  then show ?thesis
    by (simp add: process_pending_def Let_def evolves_refl frame_simps)
qed

lemma sint_advance: "c \<le> max_advance \<Longrightarrow> sint c = int (unat c)"
proof -
  assume "c \<le> max_advance"
  then have "unat c < 2147483648" by (simp add: max_advance_def word_le_nat_alt)
  then have "uint c < 2147483648" by (simp only: uint_nat)
  then have "sint c = uint c" 
    using signed_take_bit_int_eq_self [of 31 "uint c"] uint_ge_0 [of c] by (simp add: sint_uint)
  then show ?thesis by (simp only: uint_nat)
qed

lemma evolves_age:
  assumes "c \<le> max_advance" "a \<noteq> Settle"
  shows "evolves a s (age_presentation c s)"
proof (cases "irq_present_delay s > 0")
  case True
  let ?d = "if irq_present_delay s - sint c < 0 then 0 else irq_present_delay s - sint c"
  have "int_step a (int_of s) ((int_of s)\<lparr>vi_delay := ?d\<rparr>)"
    by (rule int_step.age) (use True sint_advance [OF assms(1)] assms(2) in \<open>simp_all add: int_of_def\<close>)
  moreover have "(int_of s)\<lparr>vi_delay := ?d\<rparr> = int_of (age_presentation c s)"
    using True by (simp add: age_presentation_def int_of_def)
  ultimately show ?thesis by (intro evolves_step) simp
qed (simp add: age_presentation_def evolves_refl)

section \<open>The operations of the controller\<close>

text \<open>What the machine does to the controller; each operation carries the environment it runs in.\<close>

datatype cd_op =
  Cd_Read cd_env u32
| Cd_Write cd_env u32 u32
| Cd_Advance cd_env u32
| Cd_Dma_Read

definition cd_run_op :: "cd_op \<Rightarrow> cd_st \<Rightarrow> cd_st" where
  "cd_run_op p s =
     (case p of
        Cd_Read e addr \<Rightarrow> snd (cdrom_read e addr s)
      | Cd_Write e addr v \<Rightarrow> cdrom_write e addr v s
      | Cd_Advance e c \<Rightarrow> cdrom_advance e c s
      | Cd_Dma_Read \<Rightarrow> snd (cdrom_dma_read s))"

text \<open>The scheduler never advances a device further than this, and which writes acknowledge.\<close>

definition op_ok :: "cd_op \<Rightarrow> bool" where
  "op_ok p \<longleftrightarrow> (case p of Cd_Advance e c \<Rightarrow> c \<le> max_advance | _ \<Rightarrow> True)"

definition op_acks :: "cd_st \<Rightarrow> cd_op \<Rightarrow> bool" where
  "op_acks s p \<longleftrightarrow> (case p of Cd_Write e addr v \<Rightarrow> addr = 0x1F801803 \<and> index_reg s = 1 | _ \<Rightarrow> False)"

lemma evolves_advance:
  assumes "c \<le> max_advance" "a \<noteq> Settle"
  shows "evolves a s (cdrom_advance e c s)"
  unfolding cdrom_advance_def refresh_cdrom_irq_line_def
  by (intro evolves_trans [OF _ evolves_present] evolves_trans [OF _ evolves_cdda] evolves_trans [OF _ evolves_read_stream]
      evolves_trans [OF _ evolves_pending] evolves_trans [OF _ evolves_queued] evolves_trans [OF _ evolves_age [OF assms]]
      evolves_refl frame_simps)

lemma evolves_dma: "evolves a s (snd (cdrom_dma_read s))"
  by (rule evolves_refl) (simp add: cdrom_dma_read_def Let_def frame_simps)

lemma evolves_pop:
  assumes "a \<noteq> Settle"
  shows "evolves a s (snd (pop_response s))"
proof (cases "response_read s < response_count s")
  case True
  then show ?thesis
    using int_step.pop [of a "int_of s"] assms by (intro evolves_step) (simp add: pop_response_def int_of_def)
qed (simp add: pop_response_def evolves_refl)

lemma evolves_read:
  assumes "a \<noteq> Settle"
  shows "evolves a s (snd (cdrom_read e addr s))"
proof -
  have "evolves a s (snd (if addr = 0x1F801800 then (status_byte s, s)
             else if addr = 0x1F801801 then pop_response s
             else if addr = 0x1F801802 then pop_data s
             else if addr = 0x1F801803
             then (if index_reg s = 0 \<or> index_reg s = 2 then irq_enable s else irq_flag s OR 0xE0, s)
             else (0, s)))"
    using assms by (auto simp: evolves_pop pop_data_def Let_def frame_simps intro: evolves_refl)
  then show ?thesis
    by (rule evolves_same) (simp_all add: cdrom_read_def case_prod_beta frame_simps)
qed

lemma evolves_irq_ack: "evolves Acking s (irq_acknowledge e val s)"
proof -
  let ?f = "clear_bits (irq_flag s) (val AND 0x1F)"
  let ?s1 = "s\<lparr>irq_flag := ?f\<rparr>"
  let ?s2 = "if irq_flag s AND 0x1F \<noteq> 0 \<and> irq_flag ?s1 AND 0x1F = 0 then ?s1\<lparr>intc_request_latched := False\<rparr> else ?s1"
  let ?s3 = "if has val 0x40 then ?s2\<lparr>param_count := 0\<rparr> else ?s2"
  let ?w = "(int_of s)\<lparr>vi_flag := ?f, vi_latched := (vi_latched (int_of s) \<and> (?f AND 0x1F \<noteq> 0 \<or> vi_flag (int_of s) AND 0x1F = 0))\<rparr>"
  have "int_step Acking (int_of s) ?w"
    by (rule int_step.ack) (simp_all add: int_of_def)
  moreover have "int_of ?s3 = ?w"
    by (auto simp: int_of_def)
  ultimately have "evolves Acking s ?s3"
    by (intro evolves_step) simp
  also have "evolves Acking ?s3 (try_execute_queued_command e (present_pending_dataready e ?s3))"
    by (rule evolves_trans [OF evolves_pended evolves_queued])
  finally show ?thesis
    unfolding irq_acknowledge_def Let_def .
qed

lemma evolves_write:
  assumes "\<not> op_acks s (Cd_Write e addr v)" "a \<noteq> Settle"
  shows "evolves a s (cdrom_write e addr v s)"
proof -
  define t where "t = trace_cdrom e CHR ''W'' addr (ucast (ucast v :: u8)) 1 s"
  have t: "int_of t = int_of s" by (simp add: t_def frame_simps)
  have q: "evolves a s (queue_or_exec_command e b t)" for b
    by (rule evolves_same [OF evolves_command_write]) (simp_all add: t)
  have n: "evolves a s (t\<lparr>irq_enable := m AND 0x1F\<rparr>)" for m
    using int_step.enable [of a "int_of t" m] t assms(2) by (intro evolves_step) (simp add: int_of_def)
  have k: "addr = 0x1F801803 \<Longrightarrow> index_reg t \<noteq> 1"
    using assms by (auto simp: op_acks_def t_def trace_cdrom_def)
  have r: "evolves a s u" if "int_of u = int_of t" for u
    using that t by (intro evolves_refl) simp
  have p: "evolves a s (if b then x else y)" if "b \<Longrightarrow> evolves a s x" "\<not> b \<Longrightarrow> evolves a s y" for b x y
    using that by simp
  show ?thesis
    unfolding cdrom_write_def Let_def t_def [symmetric]
    by (intro p q n; (rule r, simp add: frame_simps; fail)?) (use k in simp_all)
qed

lemma evolves_write_any: "evolves Acking s (cdrom_write e addr v s)"
proof (cases "op_acks s (Cd_Write e addr v)")
  case True
  let ?t = "trace_cdrom e CHR ''W'' addr (ucast (ucast v :: u8)) 1 s"
  have "cdrom_write e addr v s = irq_acknowledge e (ucast v) ?t"
    using True by (simp add: cdrom_write_def Let_def op_acks_def trace_cdrom_def)
  then show ?thesis
    using evolves_same [OF evolves_irq_ack, of s ?t] by (simp add: frame_simps)
qed (rule evolves_write, simp_all)

lemma evolves_op: "op_ok p \<Longrightarrow> a = Acking \<or> a = Guest \<and> \<not> op_acks s p \<Longrightarrow> evolves a s (cd_run_op p s)"
  by (cases p) (auto simp: cd_run_op_def op_ok_def evolves_read evolves_advance evolves_dma intro: evolves_write evolves_write_any)

section \<open>What the steps preserve\<close>

definition cd_raises :: "irq_port \<Rightarrow> nat" where
  "cd_raises p = length (filter (\<lambda>(b, d). b = 2) (dev_log p))"

lemma cd_raises_raise: "cd_raises (psx_irq_raise 2 d p) = Suc (cd_raises p)"
  by (simp add: cd_raises_def psx_irq_raise_def)

lemma cd_raises_port_eq: "port_eq p q \<Longrightarrow> cd_raises q = cd_raises p"
  by (simp add: cd_raises_def port_eq_def)

definition int_wf :: "cd_int \<Rightarrow> bool" where
  "int_wf v \<longleftrightarrow> vi_read v \<le> vi_count v \<and> vi_count v \<le> 16 \<and> 0 \<le> vi_delay v \<and> vi_delay v \<le> 5000 \<and> vi_flag v \<le> 7"

lemma int_step_wf: "int_step a v w \<Longrightarrow> int_wf v \<Longrightarrow> int_wf w"
proof (induction rule: int_step.induct)
  case (ack f v x)
  have "f \<le> vi_flag v" using ack(2) by (simp add: word_and_le2)
  then show ?case using ack(3) by (auto simp: int_wf_def)
next
  case (respond v t p)
  then have "t \<le> 7" by (simp add: word_le_nat_alt)
  then show ?case using respond by (simp add: int_wf_def)
qed (simp_all add: int_wf_def)

lemma int_steps_wf: "int_steps a v w \<Longrightarrow> int_wf v \<Longrightarrow> int_wf w"
  by (induction rule: rtranclp_induct) (auto intro: int_step_wf)

text \<open>
  While a response is outstanding only an acknowledge can replace it, and it is presented at most
  once: the number of raises still owed never grows.
\<close>

definition owed :: "cd_int \<Rightarrow> nat" where
  "owed v = cd_raises (vi_port v) + (if vi_latched v then 0 else 1)"

definition same_response :: "cd_int \<Rightarrow> cd_int \<Rightarrow> bool" where
  "same_response v w \<longleftrightarrow>
     vi_flag w = vi_flag v \<and> vi_gen w = vi_gen v \<and> vi_fifo w = vi_fifo v \<and> vi_count w = vi_count v \<and> owed w = owed v
     \<and> (vi_latched v \<longrightarrow> vi_latched w)"

lemma int_step_holds:
  "int_step a v w \<Longrightarrow> a \<noteq> Acking \<Longrightarrow> vi_flag v \<noteq> 0 \<Longrightarrow> same_response v w"
  by (induction rule: int_step.induct)
    (auto simp: same_response_def owed_def cd_raises_raise dest: cd_raises_port_eq)

lemma int_steps_hold:
  assumes "int_steps a v w" "a \<noteq> Acking" "vi_flag v \<noteq> 0"
  shows "same_response v w"
  using assms(1)
proof (induction rule: rtranclp_induct)
  case (step w x)
  then have "same_response w x"
    using assms by (intro int_step_holds [of a]) (simp_all add: same_response_def)
  with step.IH show ?case by (simp add: same_response_def)
qed (simp add: same_response_def)

text \<open>Left alone, the controller neither ages nor presents a response that is not due.\<close>

definition calm :: "cd_int \<Rightarrow> bool" where
  "calm v \<longleftrightarrow> 0 < vi_delay v \<or> vi_flag v = 0 \<or> \<not> has (vi_enable v) (vi_flag v) \<or> vi_latched v"

lemma int_step_calm: "int_step Settle v w \<Longrightarrow> calm v \<Longrightarrow> calm w \<and> port_eq (vi_port v) (vi_port w)"
  by (auto simp: calm_def elim: int_step.cases)

lemma int_steps_calm: "int_steps Settle v w \<Longrightarrow> calm v \<Longrightarrow> port_eq (vi_port v) (vi_port w)"
proof -
  assume "int_steps Settle v w" "calm v"
  then have "calm w \<and> port_eq (vi_port v) (vi_port w)"
    by (induction rule: rtranclp_induct) (use int_step_calm in \<open>auto simp: port_eq_def\<close>)
  then show ?thesis by simp
qed

lemma int_step_outstanding:
  "int_step Settle v w \<Longrightarrow> vi_flag v \<noteq> 0 \<Longrightarrow>
     vi_flag w = vi_flag v \<and> vi_delay w = vi_delay v \<and> vi_enable w = vi_enable v
     \<and> (vi_latched v \<longrightarrow> vi_latched w) \<and> (bit (i_stat (vi_port v)) 2 \<longrightarrow> bit (i_stat (vi_port w)) 2)"
  by (elim int_step.cases) (auto simp: port_eq_def bit_simps)

lemma int_steps_outstanding:
  "int_steps Settle v w \<Longrightarrow> vi_flag v \<noteq> 0 \<Longrightarrow>
     vi_flag w = vi_flag v \<and> vi_delay w = vi_delay v \<and> vi_enable w = vi_enable v
     \<and> (vi_latched v \<longrightarrow> vi_latched w) \<and> (bit (i_stat (vi_port v)) 2 \<longrightarrow> bit (i_stat (vi_port w)) 2)"
  by (induction rule: rtranclp_induct) (use int_step_outstanding in \<open>fastforce+\<close>)

end
