(* ===== verification/Cdrom_Props.thy ===== *)
theory Cdrom_Props
  imports Cdrom_Int
begin

text \<open>
  What the CD-ROM controller guarantees: its interrupts (from the transition system of
  \<open>Cdrom_Int\<close>), its scheduling horizon, the sector stream, the data FIFO and the resampler.
\<close>

section \<open>Interrupts\<close>

fun unacknowledged :: "cd_op list \<Rightarrow> cd_st \<Rightarrow> bool" where
  "unacknowledged [] s = True"
| "unacknowledged (p # ps) s = (op_ok p \<and> \<not> op_acks s p \<and> unacknowledged ps (cd_run_op p s))"

lemma unacknowledged_steps:
  "unacknowledged ps s \<Longrightarrow> int_steps Guest (int_of s) (int_of (fold cd_run_op ps s))"
proof (induction ps arbitrary: s)
  case (Cons p ps)
  then have "int_steps Guest (int_of s) (int_of (cd_run_op p s))"
    using evolves_op [of p Guest s] by (simp add: evolves_def)
  with Cons show ?case
    by (auto intro: rtranclp_trans)
qed simp

text \<open>C39: An outstanding CD-ROM interrupt is one interrupt with one response. From any state with an
  interrupt outstanding, through any register reads, writes, DMA reads and clock advances of up to
  0x7FFFFFFF cycles, as long as no write goes to the acknowledge register, the interrupt keeps its type,
  generation and response bytes, and the CPU line is raised at most once more: once if it has not been
  raised for this interrupt yet, and otherwise not at all.\<close>

theorem cdrom_single_interrupt:
  assumes "irq_flag s \<noteq> 0" and "unacknowledged ops s" and t: "t = fold cd_run_op ops s"
  shows "irq_flag t = irq_flag s \<and> irq_generation t = irq_generation s \<and>
         response_fifo t = response_fifo s \<and> response_count t = response_count s \<and>
         cd_raises (cd_port t) = cd_raises (cd_port s) + (if intc_request_latched t \<and> \<not> intc_request_latched s then 1 else 0)"
  using int_steps_hold [OF unacknowledged_steps [OF assms(2)]] assms(1)
  by (auto simp: t same_response_def owed_def int_of_def split: if_splits)

section \<open>The scheduling horizon\<close>

lemma settle_advance:
  "evolves Settle (present_cdrom_irq e (age_presentation c (fm_apv2_try_apply_bypass e s))) (cdrom_advance e c s)"
  unfolding cdrom_advance_def refresh_cdrom_irq_line_def
  by (intro evolves_trans [OF _ evolves_present] evolves_trans [OF _ evolves_cdda] evolves_trans [OF _ evolves_read_stream]
      evolves_trans [OF _ evolves_pending] evolves_queued)

lemma settle_advance_all:
  "evolves Settle (age_presentation c (fm_apv2_try_apply_bypass e s)) (cdrom_advance e c s)"
  by (rule evolves_trans [OF evolves_present settle_advance])

lemma unat_word_of_small: "0 \<le> d \<Longrightarrow> d < 4294967296 \<Longrightarrow> unat (word_of_int d :: u32) = nat d"
  unfolding unat_eq_nat_uint by (subst uint_word_of_int) (simp add: take_bit_int_eq_self)

lemma age_int:
  assumes "c \<le> max_advance" "0 \<le> irq_present_delay s"
  shows "int_of (age_presentation c (fm_apv2_try_apply_bypass e s)) =
         (int_of s)\<lparr>vi_delay := max 0 (irq_present_delay s - int (unat c))\<rparr>"
proof -
  have i: "int_of (fm_apv2_try_apply_bypass e s) = int_of s" by (simp add: frame_simps)
  then have d: "irq_present_delay (fm_apv2_try_apply_bypass e s) = irq_present_delay s" by (simp add: int_of_def)
  show ?thesis
    using assms i by (simp add: age_presentation_def d sint_advance [OF assms(1)]) (simp add: int_of_def)
qed

text \<open>The controller touches no bit of \<open>I_STAT\<close> but its own.\<close>

lemma other_bit: "\<not> bit m k \<Longrightarrow> (a OR push_bit k 1) AND m = a AND m" for a :: "'a::len word"
  by (rule bit_word_eqI) (auto simp: bit_simps)

lemma int_step_own_bit:
  "int_step Settle v w \<Longrightarrow> \<not> bit m 2 \<Longrightarrow> i_stat (vi_port w) AND m = i_stat (vi_port v) AND m"
proof (elim int_step.cases)
  fix u p
  assume "v = u" "w = u\<lparr>vi_port := p, vi_latched := True\<rparr>"
    "port_eq (psx_irq_raise 2 (ucast (vi_flag u)) (vi_port u)) p" "\<not> bit m 2"
  then show ?thesis using other_bit [of m 2 "i_stat (vi_port u)"] by (simp add: port_eq_def)
qed (auto simp: port_eq_def)

lemma int_steps_own_bit:
  "int_steps Settle v w \<Longrightarrow> \<not> bit m 2 \<Longrightarrow> i_stat (vi_port w) AND m = i_stat (vi_port v) AND m"
  by (induction rule: rtranclp_induct) (use int_step_own_bit in \<open>fastforce+\<close>)

lemma horizon_delay:
  assumes "c < cdrom_cycles_to_irq m s" "bit m 2" "irq_present_delay s \<le> 5000"
  shows "irq_flag s = 0 \<or> \<not> has (irq_enable s) (irq_flag s) \<or> unat c < nat (irq_present_delay s)"
proof (rule ccontr)
  assume n: "\<not> ?thesis"
  let ?w = "if irq_present_delay s > 0 then word_of_int (irq_present_delay s) else 0 :: u32"
  have "cdrom_cycles_to_irq m s \<le> ?w"
    using assms(2) n by (auto simp: cdrom_cycles_to_irq_def Let_def min_def)
  then have "c < ?w" using assms(1) by simp
  then show False
    using n assms(3) by (auto simp: word_less_nat_alt unat_word_of_small split: if_splits)
qed

text \<open>The delay of a state reached from reset is between 0 and 5000 (lemma \<open>int_steps_wf\<close>).\<close>

definition delay_ok :: "cd_st \<Rightarrow> bool" where
  "delay_ok s \<longleftrightarrow> 0 \<le> irq_present_delay s \<and> irq_present_delay s \<le> 5000"

lemma int_steps_delay:
  "int_steps Guest v w \<Longrightarrow> 0 \<le> vi_delay v \<and> vi_delay v \<le> 5000 \<Longrightarrow> 0 \<le> vi_delay w \<and> vi_delay w \<le> 5000"
proof (induction rule: rtranclp_induct)
  case (step w x)
  from step.hyps(2) step.IH [OF step.prems] show ?case by cases auto
qed simp

lemma delay_ok_advance:
  assumes "delay_ok s" "c \<le> max_advance"
  shows "delay_ok (cdrom_advance e c s)"
  using evolves_advance [OF assms(2), of Guest s e] assms(1) int_steps_delay
  by (force simp: evolves_def delay_ok_def int_of_def)

lemma still_waiting: "n < nat d \<Longrightarrow> 0 < max 0 (d - int n)"
  by auto

lemma cdrom_quiet:
  assumes "delay_ok s" "c < cdrom_cycles_to_irq m s" "c \<le> max_advance"
  shows "i_stat (cd_port (cdrom_advance e c s)) AND m = i_stat (cd_port s) AND m"
proof -
  let ?v = "(int_of s)\<lparr>vi_delay := max 0 (irq_present_delay s - int (unat c))\<rparr>"
  have st: "int_steps Settle ?v (int_of (cdrom_advance e c s))"
    using settle_advance_all [of c e s] assms(1) age_int [OF assms(3), of s e] by (simp add: evolves_def delay_ok_def)
  show ?thesis
  proof (cases "bit m 2")
    case True
    have "irq_flag s = 0 \<or> \<not> has (irq_enable s) (irq_flag s) \<or> unat c < nat (irq_present_delay s)"
      by (rule horizon_delay [OF assms(2) True]) (use assms(1) in \<open>simp add: delay_ok_def\<close>)
    then have "calm ?v"
      using still_waiting by (auto simp: calm_def int_of_def simp del: less_max_iff_disj max_less_iff_conj int_nat_eq of_nat_unat)
    from int_steps_calm [OF st this] show ?thesis
      by (simp add: port_eq_def int_of_def)
  next
    case False
    from int_steps_own_bit [OF st this] show ?thesis
      by (simp add: int_of_def)
  qed
qed

text \<open>The controller keeps the contract of the scheduler in its weak form, in every environment.\<close>

interpretation cdsrc: quiet_source delay_ok "cdrom_advance e" cdrom_cycles_to_irq "\<lambda>s. i_stat (cd_port s)" for e
  by unfold_locales (simp_all add: delay_ok_advance cdrom_quiet)

text \<open>The scheduler can rely on the CD-ROM horizon: a replay in chunks that each stay strictly below
  \<open>cdrom_cycles_to_irq\<close> raises nothing the mask lets through, CD-DA and sector reads included.\<close>

theorem cdrom_horizon_safe:
  assumes "delay_ok s" and "quiet_chunks (cdrom_advance e) cdrom_cycles_to_irq m cs s"
    and "i_stat (cd_port s) AND m = 0"
  shows "i_stat (cd_port (fold (cdrom_advance e) cs s)) AND m = 0"
  using assms by (rule cdsrc.no_new_interrupt)

section \<open>Delivery\<close>








section \<open>FIFO bounds\<close>

text \<open>The indices into the parameter FIFO, the queued parameters and the sector buffer.\<close>

definition buf_ok :: "cd_st \<Rightarrow> bool" where
  "buf_ok s \<longleftrightarrow>
     param_count s \<le> 16 \<and> qc_param_count (cd_qc s) \<le> 16 \<and> sector_read_pos s \<le> sector_size s \<and>
     sector_size s \<le> 2340 \<and> spu_wf (cd_spu s)"

definition cd_wf :: "cd_st \<Rightarrow> bool" where
  "cd_wf s \<longleftrightarrow> int_wf (int_of s) \<and> buf_ok s"

lemma buf_frame [simp]:
  "buf_ok (trace_cdrom e k a v w s) = buf_ok s" "buf_ok (record_command_history e k c ps n s) = buf_ok s"
  "buf_ok (record_sector_history e l n m h bs d s) = buf_ok s" "buf_ok (burst_note_sector e s) = buf_ok s"
  "buf_ok (stop_cdda_playback s) = buf_ok s" "buf_ok (xa_reset_decode s) = buf_ok s" "buf_ok (xa_select_stream d s) = buf_ok s"
  "buf_ok (pend_second c i s) = buf_ok s" "buf_ok (set_vol n n' b s) = buf_ok s" "buf_ok (advance_read_position s) = buf_ok s"
  "buf_ok (cdrom_clear_pending_dataready s) = buf_ok s" "buf_ok (response_clear s) = buf_ok s" "buf_ok (response_push b s) = buf_ok s"
  by (simp_all add: buf_ok_def trace_cdrom_def record_command_history_def record_sector_history_def burst_note_sector_def
      stop_cdda_playback_def xa_reset_decode_def cdrom_clear_pending_dataready_def response_clear_def response_push_def
      xa_select_stream_def pend_second_def set_vol_def advance_read_position_def Let_def case_prod_beta)

lemma buf_frame2 [simp]:
  "buf_ok (stop_read_stream s) = buf_ok s" "buf_ok (set_irq e t s) = buf_ok s" "buf_ok (present_cdrom_irq e s) = buf_ok s"
  "buf_ok (fm_apv2_try_apply_bypass e s) = buf_ok s" "buf_ok (pend_dataready e s) = buf_ok s"
  "buf_ok (age_presentation c s) = buf_ok s"
  by (simp_all add: buf_ok_def stop_read_stream_def cdrom_clear_pending_dataready_def set_irq_def present_cdrom_irq_def
      trace_cdrom_def fm_apv2_try_apply_bypass_def pend_dataready_def age_presentation_def Let_def)

lemma buf_upd [simp]:
  "buf_ok (s\<lparr>cd_port := p\<rparr>) = buf_ok s" "buf_ok (s\<lparr>stat_reg := b\<rparr>) = buf_ok s" "buf_ok (s\<lparr>cd_dp := d\<rparr>) = buf_ok s"
  "buf_ok (s\<lparr>cd_pc := pc\<rparr>) = buf_ok s" "buf_ok (s\<lparr>cd_ap := ap\<rparr>) = buf_ok s" "buf_ok (s\<lparr>cd_muted := bo\<rparr>) = buf_ok s"
  "buf_ok (s\<lparr>mode_reg := b\<rparr>) = buf_ok s" "buf_ok (s\<lparr>filter_file := b\<rparr>) = buf_ok s" "buf_ok (s\<lparr>filter_channel := b\<rparr>) = buf_ok s"
  "buf_ok (s\<lparr>index_reg := b\<rparr>) = buf_ok s" "buf_ok (s\<lparr>irq_enable := b\<rparr>) = buf_ok s" "buf_ok (s\<lparr>irq_flag := b\<rparr>) = buf_ok s"
  "buf_ok (s\<lparr>request_reg := b\<rparr>) = buf_ok s" "buf_ok (s\<lparr>intc_request_latched := bo\<rparr>) = buf_ok s"
  "buf_ok (s\<lparr>read_delay := i\<rparr>) = buf_ok s" "buf_ok (s\<lparr>pending_dataready := bo\<rparr>) = buf_ok s"
  "buf_ok (s\<lparr>dataready_fires := w\<rparr>) = buf_ok s" "buf_ok (s\<lparr>cd_decode_vol := v\<rparr>) = buf_ok s"
  "buf_ok (s\<lparr>setloc_lba := i\<rparr>) = buf_ok s" "buf_ok (s\<lparr>setloc_seek_far := bo\<rparr>) = buf_ok s"
  "buf_ok (s\<lparr>seek_min := b\<rparr>) = buf_ok s" "buf_ok (s\<lparr>seek_sec := b\<rparr>) = buf_ok s" "buf_ok (s\<lparr>seek_sect := b\<rparr>) = buf_ok s"
  "buf_ok (s\<lparr>read_min := i\<rparr>) = buf_ok s" "buf_ok (s\<lparr>read_sec := i\<rparr>) = buf_ok s" "buf_ok (s\<lparr>read_sect := i\<rparr>) = buf_ok s"
  "buf_ok (s\<lparr>read_cmd := b\<rparr>) = buf_ok s" "buf_ok (s\<lparr>cd_reading := bo\<rparr>) = buf_ok s"
  "buf_ok (s\<lparr>response_read := n\<rparr>) = buf_ok s" "buf_ok (s\<lparr>sector_available := bo\<rparr>) = buf_ok s"
  by (simp_all add: buf_ok_def)

lemma spu_wf_note: "spu_wf (audio_trace a sp) = spu_wf sp"
  by (simp add: spu_wf_def audio_trace_def cd_ok_def)

lemma spu_wf_zero_scan: "spu_wf (xa_zero_scan_from lba st i run start frs sp) = spu_wf sp"
  by (induction frs arbitrary: i run start sp) (simp_all add: xa_zero_note_def spu_wf_note)

lemma buf_spu [simp]: "buf_ok s \<Longrightarrow> buf_ok (on_spu spu_cd_audio_reset s)" "buf_ok s \<Longrightarrow> buf_ok (on_spu (spu_cd_audio_push xs) s)"
  by (simp_all add: buf_ok_def cd_reset_wf cd_push_wf)

lemma buf_xa_play [simp]: "buf_ok s \<Longrightarrow> buf_ok (xa_play_sector e r l d s)"
  by (simp add: xa_play_sector_def Let_def case_prod_beta) (simp add: buf_ok_def cd_push_wf xa_zero_scan_def spu_wf_zero_scan)

lemma buf_deliver_xa [simp]: "buf_ok s \<Longrightarrow> buf_ok (snd (maybe_deliver_xa_audio e raw lba d s))"
  by (simp add: maybe_deliver_xa_audio_def split: option.splits)

lemma payload_size: "fst (sector_payload s msf raw user) \<le> 2340"
  by (simp add: sector_payload_def split: option.splits)

lemma buf_read_sector [simp]:
  assumes "buf_ok s"
  shows "buf_ok (snd (read_sector_at e p s))"
proof -
  have "buf_ok (s1\<lparr>sector_buffer := b, sector_size := n, sector_read_pos := 0, sector_available := av\<rparr>)"
    if "buf_ok s1" "n \<le> 2340" for s1 b n av
    using that by (simp add: buf_ok_def)
  moreover have "buf_ok (t\<lparr>cd_ls := l\<rparr>) = buf_ok t" for t l
    by (simp add: buf_ok_def)
  ultimately show ?thesis
    using assms payload_size by (simp add: read_sector_at_def Let_def case_prod_beta)
qed

lemma buf_start [simp]: "buf_ok s \<Longrightarrow> buf_ok (start_read_stream e cmd s)" "buf_ok s \<Longrightarrow> buf_ok (snd (start_cdda_playback e n s))"
  by (simp_all add: start_read_stream_def start_cdda_playback_def Let_def case_prod_beta)
    (simp_all add: buf_ok_def clear_sector_buffer_def cdrom_clear_pending_dataready_def stop_cdda_playback_def
      xa_reset_decode_def cd_reset_wf)

lemma buf_fire [simp]: "buf_ok (fire_cdrom_irq e s) = buf_ok s"
  by (simp add: fire_cdrom_irq_def)

lemma buf_respond [simp]: "buf_ok (respond e bs t s) = buf_ok s"
proof -
  have "buf_ok (fold response_push bs s) = buf_ok s" by (induction bs arbitrary: s) simp_all
  then show ?thesis by (simp add: respond_def)
qed

lemma buf_ack [simp]: "buf_ok (ack e s) = buf_ok s"
  by (simp add: ack_def)

lemma buf_commands:
  assumes "buf_ok s"
  shows "buf_ok (cmd_get_stat e s)" "buf_ok (cmd_set_loc e s)" "buf_ok (cmd_motor_on e s)" "buf_ok (cmd_stop e s)"
    "buf_ok (cmd_pause e s)" "buf_ok (cmd_init e s)" "buf_ok (cmd_mute e m s)" "buf_ok (cmd_set_filter e s)"
    "buf_ok (cmd_set_mode e s)" "buf_ok (cmd_getparam e s)" "buf_ok (cmd_get_loc_l e s)" "buf_ok (cmd_get_tn e s)"
    "buf_ok (cmd_get_td e s)" "buf_ok (cmd_seek e c s)" "buf_ok (cmd_test e s)" "buf_ok (cmd_read e c s)" "buf_ok (cmd_play e s)"
  by (simp_all add: assms command_defs cmd_read_def cmd_play_def Let_def case_prod_beta)

lemma buf_get_loc_p: "buf_ok s \<Longrightarrow> buf_ok (cmd_get_loc_p e s)"
  unfolding cmd_get_loc_p_def Let_def by (split prod.split, intro allI impI)+ (simp only: buf_respond)

lemma buf_command: "buf_ok s \<Longrightarrow> buf_ok (run_command e cmd s)"
  by (simp add: run_command_def buf_commands buf_get_loc_p)

lemma buf_exec [simp]: "buf_ok s \<Longrightarrow> buf_ok (exec_command e cmd s)"
proof -
  assume s: "buf_ok s"
  have "buf_ok (t\<lparr>param_count := 0\<rparr>)" if "buf_ok t" for t using that by (simp add: buf_ok_def)
  with s show ?thesis by (simp add: exec_command_def Let_def buf_command)
qed

lemma buf_queue [simp]:
  "buf_ok s \<Longrightarrow> buf_ok (try_execute_queued_command e s)" "buf_ok s \<Longrightarrow> buf_ok (queue_or_exec_command e cmd s)"
proof -
  have "buf_ok (s\<lparr>param_fifo := f, param_count := n, cd_qc := q\<rparr>)" if "buf_ok s" "n \<le> 16" "qc_param_count q \<le> 16" for n q f
    using that by (simp add: buf_ok_def)
  moreover have "buf_ok (s\<lparr>cd_qc := q, param_count := 0\<rparr>)" if "buf_ok s" "qc_param_count q \<le> 16" for q
    using that by (simp add: buf_ok_def)
  ultimately show "buf_ok s \<Longrightarrow> buf_ok (try_execute_queued_command e s)" "buf_ok s \<Longrightarrow> buf_ok (queue_or_exec_command e cmd s)"
    by (simp_all add: try_execute_queued_command_def queue_or_exec_command_def Let_def)
qed

lemma buf_streams [simp]:
  "buf_ok s \<Longrightarrow> buf_ok (deliver_cdda_data_end e s)" "buf_ok s \<Longrightarrow> buf_ok (present_pending_dataready e s)"
  "buf_ok s \<Longrightarrow> buf_ok (snd (deliver_read_sector_without_irq e s))" "buf_ok s \<Longrightarrow> buf_ok (deliver_read_sector e s)"
  by (simp_all add: deliver_cdda_data_end_def present_pending_dataready_def deliver_read_sector_without_irq_def
      deliver_read_sector_def Let_def case_prod_beta)

lemma buf_due [simp]: "buf_ok s \<Longrightarrow> buf_ok (read_sector_due e s)"
  by (simp add: read_sector_due_def Let_def case_prod_beta)

lemma buf_cdda_sector [simp]: "buf_ok s \<Longrightarrow> buf_ok (cdda_sector e s)"
  by (simp add: cdda_sector_def Let_def)

lemma buf_cdda_sectors [simp]: "buf_ok s \<Longrightarrow> buf_ok (cdda_sectors n e s)"
  by (induction n arbitrary: s) simp_all

lemma buf_pending_result: "buf_ok s \<Longrightarrow> buf_ok (pending_result e s)"
  by (simp add: pending_result_def Let_def case_prod_beta)

lemma buf_finish: "buf_ok s \<Longrightarrow> buf_ok (finish_pending e s)"
  unfolding finish_pending_def by (rule buf_pending_result) simp

lemma buf_pending [simp]: "buf_ok s \<Longrightarrow> buf_ok (process_pending e c s)"
  by (simp add: process_pending_def Let_def buf_finish)

lemma buf_advance [simp]: "buf_ok s \<Longrightarrow> buf_ok (cdrom_advance e c s)"
  by (simp add: cdrom_advance_def refresh_cdrom_irq_line_def process_cdda_stream_def process_read_stream_def Let_def)

lemma buf_pop: "buf_ok s \<Longrightarrow> buf_ok (snd (pop_response s))" "buf_ok s \<Longrightarrow> buf_ok (snd (pop_data s))"
  "buf_ok s \<Longrightarrow> buf_ok (snd (cdrom_dma_read s))"
  by (simp_all add: pop_response_def) (auto simp: pop_data_def cdrom_dma_read_def cdrom_dma_ready_def data_fifo_ready_def Let_def buf_ok_def)

lemma buf_read: "buf_ok s \<Longrightarrow> buf_ok (snd (cdrom_read e a s))"
  by (simp add: cdrom_read_def case_prod_beta buf_pop)

lemma buf_ack_write [simp]: "buf_ok s \<Longrightarrow> buf_ok (irq_acknowledge e v s)"
proof -
  assume s: "buf_ok s"
  have "buf_ok (t\<lparr>param_count := 0\<rparr>)" if "buf_ok t" for t using that by (simp add: buf_ok_def)
  with s show ?thesis by (simp add: irq_acknowledge_def Let_def)
qed

lemma buf_write: "buf_ok s \<Longrightarrow> buf_ok (cdrom_write e a v s)"
proof -
  assume s: "buf_ok s"
  have "buf_ok (t\<lparr>param_fifo := f, param_count := Suc n\<rparr>)" if "buf_ok t" "n < 16" for t f n
    using that by (simp add: buf_ok_def)
  moreover have "buf_ok (t\<lparr>sector_read_pos := 0\<rparr>)" if "buf_ok t" for t
    using that by (simp add: buf_ok_def)
  ultimately show ?thesis using s by (simp add: cdrom_write_def Let_def)
qed

lemma cd_wf_op: "op_ok p \<Longrightarrow> cd_wf s \<Longrightarrow> cd_wf (cd_run_op p s)"
proof -
  assume p: "op_ok p" and s: "cd_wf s"
  have "int_wf (int_of (cd_run_op p s))"
    using evolves_op [OF p, of Acking s] int_steps_wf s by (auto simp: evolves_def cd_wf_def)
  moreover have "buf_ok (cd_run_op p s)"
    using s by (cases p) (simp_all add: cd_run_op_def cd_wf_def buf_read buf_write buf_pop)
  ultimately show ?thesis by (simp add: cd_wf_def)
qed

text \<open>From reset on, whatever the guest writes, reads and transfers and whatever disc is mounted, every
  FIFO index stays inside its array: at most 16 parameters, queued parameters and response bytes, a
  read position inside the sector, a sector inside the 2340-byte buffer, and the XA and CD-DA frames
  pushed into the SPU keep its state well formed.\<close>

theorem cdrom_reachable:
  assumes "spu_wf (cd_spu s)" and "\<forall>p \<in> set ops. op_ok p" and t: "t = fold cd_run_op ops (cdrom_init e b s)"
  shows "param_count t \<le> 16 \<and> qc_param_count (cd_qc t) \<le> 16 \<and> response_read t \<le> response_count t \<and>
         response_count t \<le> 16 \<and> sector_read_pos t \<le> sector_size t \<and> sector_size t \<le> 2340 \<and>
         irq_flag t \<le> 7 \<and> delay_ok t \<and> spu_wf (cd_spu t)"
proof -
  have "cd_wf (cdrom_init e b s)"
    using assms(1) by (simp add: cd_wf_def cdrom_init_def Let_def reset_registers_def int_wf_def int_of_def buf_ok_def
        trace_cdrom_def xa_reset_decode_def stop_cdda_playback_def stop_read_stream_def cdrom_clear_pending_dataready_def cd_reset_wf)
  then have "cd_wf t"
    unfolding t using assms(2) by (induction ops arbitrary: b rule: rev_induct) (simp_all add: cd_wf_op)
  then show ?thesis
    by (simp add: cd_wf_def int_wf_def buf_ok_def int_of_def delay_ok_def)
qed

section \<open>From reset\<close>



text \<open>A drive without a disc, and its answer to the Getstat command.\<close>

definition demo_cd_env :: cd_env where
  "demo_cd_env = \<lparr>ce_func = 0, ce_pc = 0, ce_frame = 0, ce_ms = 0, ce_raw = \<lambda>_. None, ce_user = \<lambda>_. None,
     ce_sectors = 0, ce_tracks = 0, ce_track_start = \<lambda>_. 0, ce_track_pregap = \<lambda>_. 0, ce_is_audio = \<lambda>_. False,
     ce_dma_active = False, ce_code = demo_host\<rparr>"

definition demo_cd_boot :: cd_boot where
  "demo_cd_boot = \<lparr>cb_open = None, cb_init_delay = None, cb_readtoc_delay = None, cb_time_continues = False,
     cb_apv2_stock = False, cb_apv2_bypass = False\<rparr>"

definition demo_cd :: cd_st where
  "demo_cd = \<lparr>cd_port = \<lparr>i_stat = 0, dev_log = [], event_log = []\<rparr>, cd_spu = demo_spu, cd_mem = demo_code,
     index_reg = 0, stat_reg = 0, request_reg = 0, irq_enable = 0, irq_flag = 0, disc_scex = \<lambda>_. 0,
     intc_request_latched = False, irq_generation = 0, intc_latched_generation = 0, irq_present_delay = 0,
     init_complete_delay = 0, readtoc_complete_delay = 0, pending_time_continues = False,
     param_fifo = \<lambda>_. 0, param_count = 0, response_fifo = \<lambda>_. 0, response_read = 0, response_count = 0,
     sector_buffer = \<lambda>_. 0, sector_read_pos = 0, sector_available = False, sector_size = 0,
     seek_min = 0, seek_sec = 0, seek_sect = 0, setloc_lba = 0, setloc_seek_far = False, cd_reading = False,
     read_min = 0, read_sec = 0, read_sect = 0, mode_reg = 0, read_cmd = 0, read_delay = 0, filter_file = 0,
     filter_channel = 0, cd_muted = False, disc_speed_divisor = 1, game_divisor = 1, instant_max_per_frame = 1,
     pending_dataready = False, pending_dataready_stat = 0, int1_pended = 0, int1_lost = 0, dataready_fires = 0,
     cd_pending_vol = \<lambda>_ _. 0, cd_decode_vol = \<lambda>_ _. 0, iso_mounted = False,
     bursts = \<lambda>_. \<lparr>bu_start_frame = 0, bu_end_frame = 0, bu_start_ms = 0, bu_end_ms = 0, bu_sectors = 0, bu_rate = 0, bu_divisor = 0\<rparr>,
     burst_count = 0,
     cd_ap = \<lparr>ap_stock_mode = False, ap_probe_active = False, ap_total = 0, ap_success = 0, ap_play_acks = 0,
       ap_test04_count = 0, ap_test05_count = 0, ap_bypass_enabled = False, ap_bypass_applied = False,
       ap_bypass_frame = 0, ap_seen_184 = 0, ap_seen_188 = 0, ap_seen_18c = 0, ap_last_check_frame = 0\<rparr>,
     cd_ls = \<lparr>ls_buffer = \<lambda>_. 0, ls_lba = 0, ls_size = 0, ls_frame = 0, ls_mode = 0, ls_have_raw = False,
       ls_raw_mode = 0, ls_xa_file = 0, ls_xa_channel = 0, ls_xa_submode = 0, ls_xa_coding = 0\<rparr>,
     cd_xs = \<lparr>xa_hist_l = (0, 0), xa_hist_r = (0, 0), xa_stream_file = 0, xa_stream_channel = 0, xa_stream_coding = 0,
       xa_stream_active = False\<rparr>,
     cd_dp = \<lparr>cdda_playing = False, cdda_track = 0, cdda_lba = 0, cdda_delay = 0, cdda_data_end_pending = False,
       cdda_sectors_played = 0\<rparr>,
     cd_pc = \<lparr>pc_cmd = 0, pc_pending = False, pc_delay = 0, pc_phase = 0\<rparr>,
     cd_qc = \<lparr>qc_cmd = 0, qc_params = \<lambda>_. 0, qc_param_count = 0, qc_pending = False\<rparr>,
     cd_rg = \<lparr>cdrom_trace = \<lambda>_. None, cdrom_trace_seq = 0, command_history = \<lambda>_. None, command_history_seq = 0,
       sector_history = \<lambda>_. None, sector_history_seq = 0\<rparr>\<rparr>"

definition demo_getstat :: "cd_op list" where
  "demo_getstat = [Cd_Write demo_cd_env 0x1F801801 0x01]"

definition demo_answer :: cd_st where
  "demo_answer = fold cd_run_op demo_getstat (cdrom_init demo_cd_env demo_cd_boot demo_cd)"

lemma getstat_runs: "run_command e 0x01 s = cmd_get_stat e s"
  by (simp add: run_command_def)

lemma respond_facts:
  "irq_flag (respond e [b] t s) = t" "irq_enable (respond e [b] t s) = irq_enable s"
  "\<not> intc_request_latched (respond e [b] t s)" "irq_present_delay (respond e [b] t s) = 5000"
  "i_stat (cd_port (respond e [b] t s)) = i_stat (cd_port s)" "index_reg (respond e [b] t s) = index_reg s"
  by (simp_all add: respond_def set_irq_def response_push_def trace_cdrom_def event_ring_record_aux_def Let_def)

lemma fire_waits: "irq_present_delay s > 0 \<Longrightarrow> int_of (fire_cdrom_irq e s) = int_of s \<and> index_reg (fire_cdrom_irq e s) = index_reg s"
  by (simp add: fire_cdrom_irq_def present_cdrom_irq_def trace_cdrom_def int_of_def)

lemma getstat_answer:
  assumes "irq_flag s = 0" "index_reg s = 0"
  shows "irq_flag (cdrom_write e 0x1F801801 0x01 s) = 3 \<and> irq_enable (cdrom_write e 0x1F801801 0x01 s) = irq_enable s
    \<and> \<not> intc_request_latched (cdrom_write e 0x1F801801 0x01 s) \<and> irq_present_delay (cdrom_write e 0x1F801801 0x01 s) = 5000
    \<and> i_stat (cd_port (cdrom_write e 0x1F801801 0x01 s)) = i_stat (cd_port s) \<and> index_reg (cdrom_write e 0x1F801801 0x01 s) = 0"
proof -
  define s1 where "s1 = trace_cdrom e CHR ''W'' 0x1F801801 0x01 1 s"
  have s1: "irq_flag s1 = 0" "index_reg s1 = 0" "irq_enable s1 = irq_enable s" "i_stat (cd_port s1) = i_stat (cd_port s)"
    using assms by (simp_all add: s1_def trace_cdrom_def)
  have "cdrom_write e 0x1F801801 0x01 s = exec_command e 0x01 s1"
    using s1 by (simp add: cdrom_write_def Let_def queue_or_exec_command_def s1_def [symmetric])
  moreover define u where "u = (cmd_get_stat e (response_clear ((trace_cdrom e CHR ''C'' 0 0x01 0 s1)
      \<lparr>cd_port := event_ring_record_aux EV_ENQ SRC_CD_CMD 0x01 (cd_port (trace_cdrom e CHR ''C'' 0 0x01 0 s1))\<rparr>)))\<lparr>param_count := 0\<rparr>"
  have u: "irq_flag u = 3" "irq_enable u = irq_enable s" "\<not> intc_request_latched u" "irq_present_delay u = 5000"
    "i_stat (cd_port u) = i_stat (cd_port s)" "index_reg u = 0"
    using s1 by (simp_all add: u_def cmd_get_stat_def ack_def respond_facts response_clear_def trace_cdrom_def event_ring_record_aux_def)
  have "exec_command e 0x01 s1 = record_command_history e CHR ''C'' 0x01 (param_fifo s1) (param_count s1) (fire_cdrom_irq e u)"
    by (simp add: exec_command_def getstat_runs Let_def u_def)
  ultimately show ?thesis
    using u fire_waits [of u e] by (simp add: int_of_def record_command_history_def Let_def)
qed

lemma demo_answer_facts:
  "irq_flag demo_answer = 3" "irq_enable demo_answer = 0x1F" "\<not> intc_request_latched demo_answer"
  "irq_present_delay demo_answer = 5000" "i_stat (cd_port demo_answer) = 0" "index_reg demo_answer = 0"
proof -
  define r where "r = cdrom_init demo_cd_env demo_cd_boot demo_cd"
  have "irq_flag r = 0" "index_reg r = 0" "irq_enable r = 0x1F" "i_stat (cd_port r) = 0"
    by (simp_all add: r_def cdrom_init_def Let_def reset_registers_def trace_cdrom_def xa_reset_decode_def
        stop_cdda_playback_def stop_read_stream_def cdrom_clear_pending_dataready_def)
      (simp add: demo_cd_def)
  with getstat_answer [of r demo_cd_env]
  show "irq_flag demo_answer = 3" "irq_enable demo_answer = 0x1F" "\<not> intc_request_latched demo_answer"
    "irq_present_delay demo_answer = 5000" "i_stat (cd_port demo_answer) = 0" "index_reg demo_answer = 0"
    by (simp_all add: demo_answer_def demo_getstat_def cd_run_op_def r_def [symmetric])
qed

theorem cdrom_single_interrupt_witness:
  "irq_flag (fold cd_run_op [Cd_Advance demo_cd_env 6000, Cd_Read demo_cd_env 0x1F801801] demo_answer) = 3"
proof -
  have "unacknowledged [Cd_Advance demo_cd_env 6000, Cd_Read demo_cd_env 0x1F801801] demo_answer"
    by (simp add: op_ok_def op_acks_def max_advance_def)
  from cdrom_single_interrupt [OF _ this refl] show ?thesis by (simp add: demo_answer_facts)
qed


end
