(* ===== verification/Cdrom_Stream.thy ===== *)
theory Cdrom_Stream
  imports Cdrom_Int
begin

text \<open>
  What leaves the CD-ROM controller: the bytes of the data FIFO, the sector stream and its timing,
  the XA samples.
\<close>

section \<open>The data FIFO\<close>

fun port_reads :: "cd_env \<Rightarrow> nat \<Rightarrow> cd_st \<Rightarrow> u32 list \<times> cd_st" where
  "port_reads e 0 s = ([], s)"
| "port_reads e (Suc n) s =
     (let (b, s1) = cdrom_read e 0x1F801802 s; (bs, s2) = port_reads e n s1 in (b # bs, s2))"

definition le_bytes :: "u32 list \<Rightarrow> u32" where
  "le_bytes bs = le_word (ucast (bs ! 0)) (ucast (bs ! 1)) (ucast (bs ! 2)) (ucast (bs ! 3))"

lemma data_read:
  assumes "has (request_reg s) 0x80" "sector_available s" "sector_read_pos s < sector_size s"
  shows "\<exists>r. cdrom_read e 0x1F801802 s =
      (ucast (sector_buffer s (sector_read_pos s)),
       s\<lparr>sector_read_pos := Suc (sector_read_pos s), sector_available := Suc (sector_read_pos s) < sector_size s, cd_rg := r\<rparr>)"
proof -
  let ?p = "sector_read_pos s"
  let ?t = "s\<lparr>sector_read_pos := Suc ?p, sector_available := Suc ?p < sector_size s\<rparr>"
  have "pop_data s = (sector_buffer s ?p, ?t)"
    using assms by (auto simp: pop_data_def data_fifo_ready_def Let_def intro: cd_st.equality)
  then have "cdrom_read e 0x1F801802 s = (ucast (sector_buffer s ?p), trace_cdrom e CHR ''R'' 0x1F801802 (ucast (sector_buffer s ?p)) 1 ?t)"
    by (simp add: cdrom_read_def)
  then show ?thesis by (auto simp: trace_cdrom_def)
qed

lemma cast_back: "ucast (ucast (b :: u8) :: u32) = b"
  by (rule bit_word_eqI) (auto simp: bit_simps)

text \<open>A DMA word is four reads of the data port: the same bytes, least significant first, and the same
  controller state afterwards, the trace of the port reads apart.\<close>

theorem cdrom_dma_is_four_reads:
  assumes "cdrom_dma_ready s" and "port_reads e 4 s = (bs, t)"
  shows "cdrom_dma_read s = (le_bytes bs, t\<lparr>cd_rg := cd_rg s\<rparr>)"
proof -
  let ?p = "sector_read_pos s"
  let ?u = "\<lambda>k r. s\<lparr>sector_read_pos := ?p + k, sector_available := ?p + k < sector_size s, cd_rg := r\<rparr>"
  let ?b = "\<lambda>k. ucast (sector_buffer s (?p + k)) :: u32"
  have rdy: "has (request_reg s) 0x80" "sector_available s" "?p + 4 \<le> sector_size s"
    using assms(1) by (simp_all add: cdrom_dma_ready_def)
  have rd: "\<exists>r'. cdrom_read e 0x1F801802 (?u k r) = (?b k, ?u (Suc k) r')" if "k < 4" for k r
    using data_read [of "?u k r" e] rdy that by auto
  have z: "?u 0 (cd_rg s) = s" using rdy by (auto intro: cd_st.equality)
  obtain r1 where 1: "cdrom_read e 0x1F801802 s = (?b 0, ?u 1 r1)" using rd [of 0 "cd_rg s"] z by auto
  obtain r2 where 2: "cdrom_read e 0x1F801802 (?u 1 r1) = (?b 1, ?u 2 r2)" using rd [of 1 r1] by (auto simp: numeral_2_eq_2)
  obtain r3 where 3: "cdrom_read e 0x1F801802 (?u 2 r2) = (?b 2, ?u 3 r3)" using rd [of 2 r2] by (auto simp: eval_nat_numeral)
  obtain r4 where 4: "cdrom_read e 0x1F801802 (?u 3 r3) = (?b 3, ?u 4 r4)" using rd [of 3 r3] by (auto simp: eval_nat_numeral)
  have "port_reads e (Suc (Suc (Suc (Suc 0)))) s = ([?b 0, ?b 1, ?b 2, ?b 3], ?u 4 r4)"
    by (simp only: port_reads.simps 1 2 3 4 Let_def prod.case)
  then have "bs = [?b 0, ?b 1, ?b 2, ?b 3]" "t = ?u 4 r4"
    using assms(2) by (simp_all add: eval_nat_numeral)
  moreover have "cdrom_dma_read s = (read_le32 (sector_buffer s) ?p, ?u 4 (cd_rg s))"
    using assms(1) by (simp add: cdrom_dma_read_def Let_def) (auto simp: cdrom_dma_ready_def intro: cd_st.equality)
  ultimately show ?thesis
    by (simp add: le_bytes_def read_le32_def cast_back)
qed

text \<open>The next words of a DMA transfer.\<close>

fun cd_drain :: "nat \<Rightarrow> cd_st \<Rightarrow> u32 list \<times> cd_st" where
  "cd_drain 0 s = ([], s)"
| "cd_drain (Suc n) s = (let (w, s1) = cdrom_dma_read s; (ws, s2) = cd_drain n s1 in (w # ws, s2))"

section \<open>Resampling\<close>

lemma xa_carry_mod: "0 \<le> ph \<Longrightarrow> xa_carry ph p = (ph mod 44100, p + nat (ph div 44100))"
proof (induction ph p rule: xa_carry.induct)
  case (1 ph p)
  show ?case
  proof (cases "ph \<ge> 44100")
    case True
    have "ph div 44100 = (ph - 44100) div 44100 + 1" "ph mod 44100 = (ph - 44100) mod 44100"
      by (simp_all add: div_add_self2 [of 44100 "ph - 44100", simplified] mod_diff_right_eq [symmetric])
    then show ?thesis
      using 1 True by (subst xa_carry.simps) (simp add: nat_add_distrib pos_imp_zdiv_nonneg_iff)
  next
    case False
    then show ?thesis using 1 by (subst xa_carry.simps) simp
  qed
qed

definition xa_frame :: "(int \<times> int) list \<Rightarrow> int \<Rightarrow> nat \<Rightarrow> int \<times> int" where
  "xa_frame xs rate k =
     (let p = nat (int k * rate div 44100); ph = int k * rate mod 44100;
          cur = xs ! p; nxt = xs ! (if p + 1 < length xs then p + 1 else p)
      in (xa_interpolate (fst cur) (fst nxt) ph, xa_interpolate (snd cur) (snd nxt) ph))"

text \<open>How many output frames the input lasts for: the ceiling of the ratio.\<close>

definition xa_frames :: "(int \<times> int) list \<Rightarrow> int \<Rightarrow> nat \<Rightarrow> nat" where
  "xa_frames xs rate mx = min mx (nat ((int (length xs) * 44100 + rate - 1) div rate))"

lemma le_div_iff_int:
  fixes q a b :: int
  assumes "0 < b"
  shows "q \<le> a div b \<longleftrightarrow> q * b \<le> a"
proof
  assume "q \<le> a div b"
  then have "q * b \<le> a div b * b" using assms by (simp add: mult_right_mono)
  also have "\<dots> \<le> a" using div_mult_mod_eq [of a b] pos_mod_sign [OF assms, of a] by linarith
  finally show "q * b \<le> a" .
next
  assume "q * b \<le> a"
  from zdiv_mono1 [OF this assms] assms show "q \<le> a div b" by simp
qed

lemma frame_in_input:
  assumes "0 < rate"
  shows "int k * rate div 44100 < int n \<longleftrightarrow> int k < (int n * 44100 + rate - 1) div rate"
proof -
  have "int k * rate div 44100 < int n \<longleftrightarrow> int k * rate < int n * 44100"
  proof -
    have "x div 44100 < y \<longleftrightarrow> x < y * 44100" for x y :: int by linarith
    then show ?thesis .
  qed
  also have "\<dots> \<longleftrightarrow> (int k + 1) * rate \<le> int n * 44100 + rate - 1"
    by (simp add: distrib_right)
  also have "\<dots> \<longleftrightarrow> int k + 1 \<le> (int n * 44100 + rate - 1) div rate"
    using le_div_iff_int [OF assms] by (rule sym)
  finally show ?thesis by linarith
qed

lemma xa_loop:
  assumes "0 < rate" "length out = k" "out = map (xa_frame xs rate) [0..<k]" "k \<le> xa_frames xs rate mx"
  shows "xa_resample_loop xs rate mx (nat (int k * rate div 44100)) (int k * rate mod 44100) out =
         map (xa_frame xs rate) [0..<xa_frames xs rate mx]"
  using assms
proof (induction "xa_frames xs rate mx - k" arbitrary: k out)
  case 0
  then have k: "k = xa_frames xs rate mx" by simp
  have "\<not> (nat (int k * rate div 44100) < length xs \<and> length out < mx)" (is "\<not> ?c")
  proof
    assume h: "nat (int k * rate div 44100) < length xs \<and> length out < mx"
    then have "int k * rate div 44100 < int (length xs)" by linarith
    with frame_in_input [OF assms(1)] have "int k < (int (length xs) * 44100 + rate - 1) div rate" by blast
    with h k 0 show False by (simp add: xa_frames_def min_def split: if_splits)
  qed
  then have "?c = False" by blast
  then show ?case
    using 0 k by (subst xa_resample_loop.simps) (simp only: if_False)
next
  case (Suc d)
  then have lt: "k < xa_frames xs rate mx" by simp
  then have "k < nat ((int (length xs) * 44100 + rate - 1) div rate)" "k < mx"
    by (simp_all add: xa_frames_def)
  then have "int k < (int (length xs) * 44100 + rate - 1) div rate" by linarith
  then have in_pos: "nat (int k * rate div 44100) < length xs"
    using frame_in_input [OF assms(1), of k "length xs"] assms(1) by (simp add: nat_less_iff pos_imp_zdiv_nonneg_iff)
  have nn: "0 \<le> int k * rate mod 44100 + rate" "0 \<le> int k * rate div 44100" using assms(1) by (simp_all add: pos_imp_zdiv_nonneg_iff)
  have m: "(int k * rate mod 44100 + rate) mod 44100 = int (Suc k) * rate mod 44100"
    using mod_add_left_eq [of "int k * rate" 44100 rate] by (simp add: distrib_right add.commute)
  have "int k * rate + rate = 44100 * (int k * rate div 44100) + (int k * rate mod 44100 + rate)" by simp
  then have "(int k * rate + rate) div 44100 = int k * rate div 44100 + (int k * rate mod 44100 + rate) div 44100"
    by (metis div_mult_self4 zero_neq_numeral add.commute)
  then have d: "nat (int k * rate div 44100) + nat ((int k * rate mod 44100 + rate) div 44100) = nat (int (Suc k) * rate div 44100)"
    using nn by (simp add: nat_add_distrib [symmetric] pos_imp_zdiv_nonneg_iff distrib_right add.commute)
  have "xa_resample_loop xs rate mx (nat (int k * rate div 44100)) (int k * rate mod 44100) out =
      xa_resample_loop xs rate mx (nat (int (Suc k) * rate div 44100)) (int (Suc k) * rate mod 44100) (out @ [xa_frame xs rate k])"
    using in_pos \<open>k < mx\<close> Suc.prems(2)
    by (subst xa_resample_loop.simps) (simp add: xa_carry_mod [OF nn(1)] m d Let_def xa_frame_def del: of_nat_Suc)
  also have "\<dots> = map (xa_frame xs rate) [0..<xa_frames xs rate mx]"
    using Suc by (intro Suc.hyps(1)) simp_all
  finally show ?case .
qed

text \<open>The resampler in closed form: output frame \<open>k\<close> is interpolated at input position
  \<open>k * rate / 44100\<close>, and frames are produced until the input or the output buffer is used up.\<close>

theorem xa_resample_spec:
  assumes "0 < rate"
  shows "xa_resample_to_44100 xs rate mx = map (xa_frame xs rate) [0..<xa_frames xs rate mx]"
proof (cases "xs = [] \<or> mx = 0")
  case True
  then have "xa_frames xs rate mx = 0"
    using assms by (auto simp: xa_frames_def)
  then show ?thesis using True by (auto simp: xa_resample_to_44100_def)
next
  case False
  then show ?thesis
    using xa_loop [OF assms, of "[]" 0 xs mx] assms by (simp add: xa_resample_to_44100_def)
qed

text \<open>
  The interpolation multiplies in \<open>int32_t\<close>. At 37800 Hz the phase reaches 37800, so a rise of
  56812 or more overflows: between the two extreme samples the interpolated value is far from both.
\<close>

lemma xa_interpolate_wraps: "xa_interpolate (-32768) 32767 37800 = -8450"
  by code_simp

end
