(* ===== verification/Spec2Isabelle.thy ===== *)
theory Spec2Isabelle
  imports Timers R3000_Props Dma_Props Trace_Rings Idle_Skip Cpu_Timing Io_Bus Cdrom_Props Cdrom_Stream
begin

text \<open>
  A verification library for the runtime of PSXRecomp, the static recompiler of PlayStation programs.
  Paths are relative to \<open>src/psxrecomp/runtime/src\<close>.

  THE PROGRAM. Guest code runs as recompiled native functions or, as the reference, in an interpreter
  (\<open>psx_interpreter.c\<close>). Either way it reaches memory through the bus of \<open>memory.c\<close>, which serves RAM,
  scratchpad and ROM itself, hands the registers behind 0x1F801000 to the devices, and decides, store by
  store, whether native code may still stand for what RAM holds. Executed blocks charge cycles to the
  clock of \<open>psx_cycles.c\<close>. It lets the devices lag behind, asks each how far its next interrupt is, and
  at a deadline, or before any register access, replays the lag into them in chunks. The devices are the
  DMA controller (\<open>dma.c\<close>) with the motion decoder (\<open>mdec.c\<close>) and the sound unit (\<open>spu.c\<close>,
  \<open>spu_sweep.c\<close>) behind it, the CD-ROM controller (\<open>cdrom.c\<close>), the serial port with pads and memory
  cards (\<open>sio.c\<close>, \<open>memcard.c\<close>) and the root counters (\<open>timers.c\<close>). All of them raise bits of one
  interrupt status word and note what they do in rings of the last events.

  HOW THE CODE IS MODELLED. C integers of fixed width are words, \<open>int\<close> values are HOL integers with the
  truncation written out where C stores or overflows, arrays are functions of the index (properties bound
  the indices), flags are bool and never-negative C indices and counts are nat. The statics of a file are
  a record, an operation is a function from state to state, and a result comes with the state as a pair.
  Failure is an option value, a bool result or a flag of the state, as in the code. Compile-time and
  start-up switches have their default values (\<open>PSX_ENABLE_BLOCK_CYCLES\<close> on, \<open>PSX_COSIM\<close> off,
  \<open>SIO_MODEL_CYCLE_PACED\<close> on) or are parameters. What lies outside the modelled files (the GPU, the GTE,
  the disc image, host files, the allocator, host clocks, the environment) is a parameter record of the
  definitions that use it. Calls into diagnostics are logs in the state. The one interrupt port of the
  machine is a component of each device's state that the scheduler lends it for the call.

  THEORIES AND SOURCES.
  \<^item> \<open>Prelude\<close>: word types, bit tests, casts, the interrupt port (\<open>psx_irq_raise\<close> of \<open>interrupts.c\<close>), generic
    lemmas and the collection \<open>frame_simps\<close>.
  \<^item> \<open>Event_Source\<close>: the contract between scheduler and devices, as the locales \<open>quiet_source\<close> (an advance
    strictly below the forecast raises nothing and may be repeated) and \<open>event_source\<close> (and every advance
    keeps the invariant), the second a \<open>sublocale\<close> of the first. Interpreted on the root counters (\<open>tm\<close>), the DMA
    controller (\<open>dm\<close>), the serial port (\<open>so\<close>) and the CD-ROM controller (\<open>cdsrc\<close>).
  \<^item> \<open>Log_Rings\<close>: the locales \<open>log_ring\<close> (a dump is the newest part of the history, in order) and
    \<open>bounded_queue\<close> (a queue that drops its oldest elements). Interpreted on the device-event ring (\<open>dt\<close>)
    and the event timeline (\<open>tl\<close>) of \<open>Trace_Rings\<close> (\<open>device_trace.c\<close>, \<open>event_ring.c\<close>), on the
    decoder's trace (\<open>mtr\<close>) and on the sound unit's events (\<open>sev\<close>) and CD input (\<open>cdw\<close>, \<open>cdq\<close>).
  \<^item> \<open>Code_Guard\<close>: main RAM and its code guards in \<open>memory.c\<close> (dirty pages, blessed kernel bodies, the text
    image, watched pages): \<open>code_mem\<close> holds their tables, \<open>ram_store\<close> is the store all writers share.
    \<open>Guest_Memory\<close>: \<open>psx_read_word\<close>, \<open>psx_write_word\<close> and their narrower siblings over \<open>guest_mem\<close>.
  \<^item> \<open>R3000\<close>, \<open>R3000_Props\<close>: \<open>psx_interpreter.c\<close>; \<open>interp_st\<close> is \<open>CPUState\<close> as the interpreter uses it.
  \<^item> \<open>Dma\<close>, \<open>Dma_Props\<close>: \<open>dma.c\<close>; \<open>dma_st\<close> holds the seven channels, the transfers in progress and the
    memory and decoders they move data between. \<open>Mdec\<close>: \<open>mdec.c\<close>. \<open>Spu\<close>, \<open>Spu_Sweep\<close>: \<open>spu.c\<close>, \<open>spu_sweep.c\<close>.
  \<^item> \<open>Cdrom\<close>: \<open>cdrom.c\<close>, one function per command, stream and register. \<open>Cdrom_Int\<close>: its interrupt line as
    an inductive transition system (\<open>int_step\<close>), and for every operation the proof that it is a sequence of such
    steps. \<open>Cdrom_Props\<close>, \<open>Cdrom_Stream\<close>: what follows.
  \<^item> \<open>Memcard\<close>: \<open>memcard.c\<close> over a file system whose operations may fail. \<open>Sio\<close>, \<open>Sio_Props\<close>: \<open>sio.c\<close>.
  \<^item> \<open>Timers\<close>, \<open>Timer_Regs\<close>: \<open>timers.c\<close>.
  \<^item> \<open>Scheduler\<close>, \<open>Scheduler_Props\<close>: the clock and device service of \<open>psx_cycles.c\<close> with the frame pacing of
    \<open>interrupts.c\<close>, over a \<open>machine\<close> that holds the devices above except the CD-ROM controller. The locale
    \<open>cycle_observer\<close> lifts what advances additively in a device to the chunked replay. It is interpreted
    on the counters (\<open>timer_obs\<close>) and on the frame clock (\<open>vblank_obs\<close>).
  \<^item> \<open>Idle_Skip\<close>: the wait-loop detector of \<open>psx_cycles.c\<close>. \<open>Cpu_Timing\<close>: instruction cache, load delays,
    multiplier and GTE stalls (\<open>psx_icache.c\<close>, \<open>psx_cyc.h\<close>, \<open>psx_instr_cost.h\<close>, \<open>psx_cycles.c\<close>).
  \<^item> \<open>Io_Bus\<close>: the register dispatch of \<open>memory.c\<close> over the machine, with the registers \<open>memory.c\<close> keeps.

  WHAT IS PROVED. Memory: after any history of aligned stores and queries, an accepted kernel body or
  text entry is still what was recompiled, as far as the code looks; the RAM mirrors are one array for
  every visible store. CPU: on the guest bus a run returns from every program counter and stays in its
  register file; division truncates, an overflowing sum traps, an unaligned load pair assembles the
  unaligned word. Devices: the serial port, the sound unit, the decoder and the CD-ROM controller have an
  invariant of every reachable state, which bounds the indices they use. The counters' bulk advance equals
  ticking, a DMA interrupt is the edge of the master flag, an ordering table is walked as it was cleared, a
  list is sent in order, a card sector read back is the one written, a pad answers a poll byte for byte,
  the CD input is a bounded queue, the inverse cosine transform stays in its integers, a card that is
  present and not dirty is on disk, a CD-ROM response is one interrupt and is not lost. Time: below its forecast no device raises anything, and the serial port and CD-ROM models
  say what exactly stays put; the deadline scheduler ends where one exact advance would, for the counters
  and the frame clock, and never lets a device lag 16384 cycles or more; stalls, load credits and the
  cache charge exactly what they should. Where the code does not do what its comments say, the theorem
  states what it does: a serial event due exactly at a deadline is hidden, a mode switch loses cycles, an
  idle skip overshoots, a byte store loses half of a serial register, and some fixed-width products wrap.

  BOUNDS AND FUEL. \<open>exec_one\<close> calls itself for a delay slot and carries fuel. A chain of branches in delay
  slots climbs a word at a time: from an aligned program counter it halts at address 0 after at most one
  call per remaining word (\<open>r3000_terminates\<close>), and on the guest bus it ends in the unmapped segment after
  at most 0x30000002 calls from any program counter (\<open>exec_one_walled\<close>), so with that fuel every run
  returns (\<open>r3000_registers\<close>). \<open>list_walk\<close> takes at most 0x40001 nodes, the cap of the code. \<open>pace_loop\<close>
  makes at most 8 transitions, the constant of \<open>sio.c\<close>; \<open>sio_card_byte_delivered\<close> shows they suffice for a
  byte and its acknowledge. \<open>burst_loop\<close> makes at most 1024 iterations and \<open>cdda_sectors\<close> 16, as in the code.
  Transfer loops recurse on the words left. The service, exact and frame loops of the scheduler, the
  decoder's loops, the resampler and the bulk advance of a counter are total functions with a measure. An
  advance of a device is at most 0x7FFFFFFF cycles (\<open>max_advance\<close>), since the code casts it to \<open>int\<close>.

  NOT MODELLED. Exception delivery to native code and the fiber scheduler (\<open>interrupts.c\<close>, \<open>psx_fiber.c\<close>:
  host stacks and control transfers), the GPU and its renderers, the GTE, disc images, the overlay
  loader, the JIT and the dirty-page interpreter, the high-level BIOS, boot snapshots as files, the debug
  server, the tracing tools, the front end and the recompiler itself. The scheduler, the DMA controller
  and the register bus see the CD-ROM controller and the GPU through parameters. Composing them with
  \<open>Cdrom\<close> is future work, and so are exceptions and the GPU's command processor.
\<close>

end
